(* ===== verification/Prelude.thy ===== *)
theory Prelude
  imports Main "HOL-Library.Char_ord" "HOL-Library.List_Lexorder" "HOL-Library.AList"
    "HOL-Library.Multiset"
begin

text \<open>
  What every theory of the development shares: Go's error values, Go maps as association
  lists, the functions of Go's packages \<^verbatim>\<open>strings\<close>, \<^verbatim>\<open>strconv\<close> and \<^verbatim>\<open>sort\<close> that the
  program calls, and the generic lemmas about them.

  A Go \<^verbatim>\<open>string\<close> is a sequence of bytes, here a \<^typ>\<open>string\<close> (a list of 8-bit characters), and
  Go's \<open><\<close> on strings is the lexicographic order on bytes, which is what the instances of
  \<^verbatim>\<open>Char_ord\<close> and \<^verbatim>\<open>List_Lexorder\<close> give. A Go \<^verbatim>\<open>map[string]T\<close> is an association list with
  distinct keys: its order is one iteration order of the map, so that a theorem about every such
  list is a theorem about every iteration order. Reading, measuring and ranging over a nil map
  and an empty map agree in Go, and both are the empty list here.
\<close>

named_theorems gostring \<open>characterisations of the functions of package strings\<close>
named_theorems gomap \<open>lookup after update, deletion and filtering of a Go map\<close>

section \<open>Errors\<close>

text \<open>
  \<^verbatim>\<open>fmt.Errorf(format, args)\<close> is \<open>Errorf format args\<close>, \<^verbatim>\<open>fmt.Errorf("...%w", err)\<close> is
  \<open>Wrapf format args err\<close>, and a message built from several joined with \<^verbatim>\<open>strings.Join\<close> is
  \<open>Joinf format errs\<close>; messages are kept as format and arguments, not rendered. A message made
  by \<^verbatim>\<open>fmt.Sprintf("...%v", err)\<close> has the text of the wrapped error and is represented the same way.
  Durations and counts that only appear in a message are left out of its arguments. The empty
  message \<^verbatim>\<open>""\<close> is \<^const>\<open>None\<close> where a string may hold a message or nothing.
\<close>

datatype err =
    Errorf string "string list"
  | Wrapf string "string list" err
  | Joinf string "err list"
  | DeadlineExceeded
  | Canceled

type_synonym 'a result = "err + 'a"

text \<open>\<^verbatim>\<open>errors.Is(err, context.DeadlineExceeded)\<close> unwraps along \<^verbatim>\<open>%w\<close>.\<close>

fun isDeadlineExceeded :: "err \<Rightarrow> bool" where
  "isDeadlineExceeded DeadlineExceeded = True"
| "isDeadlineExceeded (Wrapf f xs e) = isDeadlineExceeded e"
| "isDeadlineExceeded (Errorf f xs) = False"
| "isDeadlineExceeded (Joinf f es) = False"
| "isDeadlineExceeded Canceled = False"

section \<open>Maps\<close>

type_synonym 'v gomap = "(string \<times> 'v) list"

abbreviation wf_map :: "('k \<times> 'v) list \<Rightarrow> bool" where
  "wf_map m \<equiv> distinct (map fst m)"

text \<open>\<^verbatim>\<open>m[k]\<close> on a \<^verbatim>\<open>map[string]string\<close>: the zero value for a missing key.\<close>

definition strAt :: "string gomap \<Rightarrow> string \<Rightarrow> string" where
  "strAt m k = (case map_of m k of None \<Rightarrow> [] | Some v \<Rightarrow> v)"

lemma map_of_update [gomap, simp]: "map_of (AList.update k v m) = (map_of m)(k \<mapsto> v)"
  by (simp add: update_conv')

lemma map_of_delete [gomap, simp]: "map_of (AList.delete k m) = (map_of m)(k := None)"
  by (simp add: delete_conv')

lemma wf_map_update [gomap, simp, intro]: "wf_map m \<Longrightarrow> wf_map (AList.update k v m)"
  by (rule distinct_update)

lemma wf_map_delete [gomap, simp, intro]: "wf_map m \<Longrightarrow> wf_map (AList.delete k m)"
  by (rule distinct_delete)

lemma wf_map_filter [gomap, simp, intro]: "wf_map m \<Longrightarrow> wf_map (filter P m)"
  by (rule distinct_map_filter)

lemma map_of_eq_iff_mem: "wf_map m \<Longrightarrow> map_of m k = Some v \<longleftrightarrow> (k, v) \<in> set m"
  by (rule map_of_eq_Some_iff)

lemma in_keys_iff: "k \<in> fst ` set m \<longleftrightarrow> map_of m k \<noteq> None"
  by (simp add: map_of_eq_None_iff)

text \<open>A loop that assigns \<^verbatim>\<open>m[key(x)] = val(x)\<close> for each element: the last one with a key wins.\<close>

definition index_by :: "('a \<Rightarrow> 'k) \<Rightarrow> 'a list \<Rightarrow> ('k \<times> 'a) list" where
  "index_by key xs = fold (\<lambda>x m. AList.update (key x) x m) xs []"

lemma index_by_fold_wf: "wf_map m \<Longrightarrow> wf_map (fold (\<lambda>x m. AList.update (key x) x m) xs m)"
  by (induction xs arbitrary: m) auto

lemma wf_index_by [gomap, simp]: "wf_map (index_by key xs)"
  by (simp add: index_by_def index_by_fold_wf)

lemma map_of_index_by_fold:
  "map_of (fold (\<lambda>x m. AList.update (key x) x m) xs m) k
     = (case map_of (rev (map (\<lambda>x. (key x, x)) xs)) k of Some v \<Rightarrow> Some v | None \<Rightarrow> map_of m k)"
  by (induction xs arbitrary: m) (auto simp: map_add_def split: option.splits)

lemma map_of_index_by: "map_of (index_by key xs) k = map_of (rev (map (\<lambda>x. (key x, x)) xs)) k"
  by (simp add: index_by_def map_of_index_by_fold split: option.splits)

lemma map_of_index_by_key [gomap]: "map_of (index_by key xs) k = Some x \<Longrightarrow> key x = k \<and> x \<in> set xs"
  by (auto simp: map_of_index_by dest!: map_of_SomeD)

lemma map_of_index_by_None [gomap, simp]: "map_of (index_by key xs) k = None \<longleftrightarrow> k \<notin> key ` set xs"
  by (auto simp: map_of_index_by map_of_eq_None_iff image_iff)

lemma map_of_index_by_distinct:
  assumes "distinct (map key xs)"
  shows "map_of (index_by key xs) k = Some x \<longleftrightarrow> x \<in> set xs \<and> key x = k"
proof -
  have "wf_map (rev (map (\<lambda>x. (key x, x)) xs))"
    using assms by (simp add: comp_def rev_map [symmetric])
  then show ?thesis
    by (auto simp: map_of_index_by map_of_eq_iff_mem)
qed

lemma index_by_key: "(k, x) \<in> set (index_by key xs) \<Longrightarrow> key x = k \<and> x \<in> set xs"
  by (metis map_of_eq_iff_mem map_of_index_by_key wf_index_by)

lemma option_eqI: "(\<And>y. x = Some y \<longleftrightarrow> z = Some y) \<Longrightarrow> x = z"
  by (cases x; cases z) auto

section \<open>Sorting\<close>

text \<open>
  \<^verbatim>\<open>sort.Strings\<close> is \<^const>\<open>sort\<close>, and \<^verbatim>\<open>sort.Slice\<close> by a key is \<^const>\<open>sort_key\<close>. Where
  the keys are distinct the sorted list is determined by its elements alone, so neither the input's
  order (a map's iteration order) nor the stability of the sort matters.
\<close>

lemma sort_key_determined:
  assumes "mset xs = mset ys" and "inj_on f (set xs)"
  shows "sort_key f xs = sort_key f ys"
proof (rule properties_for_sort_key)
  show "mset (sort_key f ys) = mset xs" using assms(1) by simp
  show "filter (\<lambda>x. f k = f x) (sort_key f ys) = filter (\<lambda>x. f k = f x) xs" if "k \<in> set (sort_key f ys)" for k
  proof -
    have sub: "filter (\<lambda>x. f k = f x) zs = filter ((=) k) zs" if "set zs = set xs" for zs
      using assms(2) that \<open>k \<in> set (sort_key f ys)\<close> mset_eq_setD [OF assms(1)]
      by (intro filter_cong) (auto dest: inj_onD)
    have "mset (filter ((=) k) (sort_key f ys)) = mset (filter ((=) k) xs)"
      using assms(1) by simp
    then have "filter ((=) k) (sort_key f ys) = filter ((=) k) xs"
      by (metis filter_eq_replicate_mset replicate_length_filter mset_filter size_mset)
    then show ?thesis
      using sub [of xs] sub [of "sort_key f ys"] mset_eq_setD [OF assms(1)] by simp
  qed
  show "sorted (map f (sort_key f ys))" by simp
qed

lemma sort_determined: "mset xs = mset ys \<Longrightarrow> sort xs = sort ys"
  by (simp add: properties_for_sort)

lemma sorted_distinct_set_unique_key:
  assumes "sorted (map f xs)" "distinct (map f xs)" "sorted (map f ys)" "distinct (map f ys)"
    and "set xs = set ys"
  shows "xs = ys"
proof -
  have inj: "inj_on f (set xs \<union> set ys)"
    using assms by (simp add: distinct_map)
  have "map f xs = map f ys"
    using assms by (intro sorted_distinct_set_unique) auto
  then show ?thesis
    using inj by (simp add: inj_on_map_eq_map)
qed

section \<open>Strings\<close>

text \<open>\<^verbatim>\<open>strings.HasPrefix\<close>, \<^verbatim>\<open>HasSuffix\<close>, \<^verbatim>\<open>TrimPrefix\<close>, \<^verbatim>\<open>Contains\<close>, \<^verbatim>\<open>Join\<close>.\<close>

definition HasPrefix :: "string \<Rightarrow> string \<Rightarrow> bool" where
  "HasPrefix s p = (take (length p) s = p)"

definition HasSuffix :: "string \<Rightarrow> string \<Rightarrow> bool" where
  "HasSuffix s p = HasPrefix (rev s) (rev p)"

definition TrimPrefix :: "string \<Rightarrow> string \<Rightarrow> string" where
  "TrimPrefix s p = (if HasPrefix s p then drop (length p) s else s)"

definition TrimSuffix :: "string \<Rightarrow> string \<Rightarrow> string" where
  "TrimSuffix s p = (if HasSuffix s p then take (length s - length p) s else s)"

text \<open>Cutting at the first occurrence of a substring, of a byte, and at the last one of a byte.\<close>

fun cutSub :: "string \<Rightarrow> string \<Rightarrow> (string \<times> string) option" where
  "cutSub p [] = (if p = [] then Some ([], []) else None)"
| "cutSub p (x # xs) =
     (if HasPrefix (x # xs) p then Some ([], drop (length p) (x # xs))
      else map_option (apfst (Cons x)) (cutSub p xs))"

definition Contains :: "string \<Rightarrow> string \<Rightarrow> bool" where
  "Contains s p = (cutSub p s \<noteq> None)"

fun cut :: "char \<Rightarrow> string \<Rightarrow> (string \<times> string) option" where
  "cut c [] = None"
| "cut c (x # xs) = (if x = c then Some ([], xs) else map_option (apfst (Cons x)) (cut c xs))"

definition rcut :: "char \<Rightarrow> string \<Rightarrow> (string \<times> string) option" where
  "rcut c s = (case cut c (rev s) of None \<Rightarrow> None | Some (a, b) \<Rightarrow> Some (rev b, rev a))"

fun Join :: "string list \<Rightarrow> string \<Rightarrow> string" where
  "Join [] sep = []"
| "Join [x] sep = x"
| "Join (x # y # ys) sep = x @ sep @ Join (y # ys) sep"

text \<open>\<^verbatim>\<open>strings.Split\<close> at a one-byte separator.\<close>

fun Split :: "string \<Rightarrow> char \<Rightarrow> string list" where
  "Split [] c = [[]]"
| "Split (x # xs) c =
     (if x = c then [] # Split xs c
      else case Split xs c of [] \<Rightarrow> [[x]] | y # ys \<Rightarrow> (x # y) # ys)"

lemma HasPrefix_iff [gostring]: "HasPrefix s p \<longleftrightarrow> (\<exists>t. s = p @ t)"
  by (auto simp: HasPrefix_def) (metis append_take_drop_id)

lemma HasSuffix_iff [gostring]: "HasSuffix s p \<longleftrightarrow> (\<exists>t. s = t @ p)"
  unfolding HasSuffix_def HasPrefix_iff by (metis rev_append rev_rev_ident)

lemma HasPrefix_append [simp]: "HasPrefix (p @ t) p"
  by (simp add: HasPrefix_def)

lemma HasSuffix_append [simp]: "HasSuffix (t @ p) p"
  by (auto simp: HasSuffix_iff)

lemma TrimPrefix_append [simp]: "TrimPrefix (p @ t) p = t"
  by (simp add: TrimPrefix_def)

lemma TrimSuffix_append [simp]: "TrimSuffix (t @ p) p = t"
  by (simp add: TrimSuffix_def)

lemma cut_Some [gostring]: "cut c s = Some (a, b) \<longleftrightarrow> s = a @ c # b \<and> c \<notin> set a"
proof (induction s arbitrary: a)
  case (Cons x xs)
  then show ?case by (cases a) auto
qed simp

lemma cut_None [gostring]: "cut c s = None \<longleftrightarrow> c \<notin> set s"
  by (induction s) auto

lemma cut_append [simp]: "c \<notin> set a \<Longrightarrow> cut c (a @ c # b) = Some (a, b)"
  by (simp add: cut_Some)

lemma rcut_Some [gostring]: "rcut c s = Some (a, b) \<longleftrightarrow> s = a @ c # b \<and> c \<notin> set b"
proof -
  have "rcut c s = Some (a, b) \<longleftrightarrow> cut c (rev s) = Some (rev b, rev a)"
    by (auto simp: rcut_def split: option.splits)
  also have "\<dots> \<longleftrightarrow> rev s = rev (a @ c # b) \<and> c \<notin> set b"
    by (simp add: cut_Some)
  finally show ?thesis by (simp only: rev_is_rev_conv)
qed

lemma rcut_None [gostring]: "rcut c s = None \<longleftrightarrow> c \<notin> set s"
  using cut_None [of c "rev s"] by (auto simp: rcut_def split: option.splits)

lemma cutSub_Some: "cutSub p s = Some (a, b) \<Longrightarrow> s = a @ p @ b"
proof (induction s arbitrary: a)
  case (Cons x xs)
  then show ?case by (auto simp: HasPrefix_iff split: if_splits)
qed (auto split: if_splits)

lemma cutSub_None: "cutSub p s = None \<Longrightarrow> s \<noteq> a @ p @ b"
proof (induction s arbitrary: a)
  case (Cons x xs)
  then show ?case by (cases a) (auto simp: HasPrefix_iff split: if_splits)
qed (auto split: if_splits)

lemma Contains_iff [gostring]: "Contains s p \<longleftrightarrow> (\<exists>a b. s = a @ p @ b)"
  unfolding Contains_def by (metis cutSub_None cutSub_Some not_None_eq surj_pair)

lemma Contains_byte [gostring]: "Contains s [c] \<longleftrightarrow> c \<in> set s"
  by (simp add: Contains_iff in_set_conv_decomp)

lemma Split_nonempty [simp]: "Split s c \<noteq> []"
  by (induction s) (auto split: list.splits)

lemma Split_no_sep [simp]: "c \<notin> set s \<Longrightarrow> Split s c = [s]"
  by (induction s) auto

lemma Join_Split [gostring]: "Join (Split s c) [c] = s"
proof (induction s)
  case (Cons x xs)
  obtain y ys where y: "Split xs c = y # ys" by (cases "Split xs c") auto
  with Cons show ?case by (cases ys) auto
qed simp

lemma Split_append: "c \<notin> set a \<Longrightarrow> Split (a @ c # b) c = a # Split b c"
  by (induction a) auto

lemma Split_pieces: "t \<in> set (Split s c) \<Longrightarrow> c \<notin> set t"
proof (induction s arbitrary: t)
  case (Cons x xs)
  obtain y ys where y: "Split xs c = y # ys" by (cases "Split xs c") auto
  with Cons show ?case by (auto split: if_splits)
qed simp

text \<open>\<^verbatim>\<open>strings.TrimSpace\<close>, on the ASCII white space characters.\<close>

definition isSpace :: "char \<Rightarrow> bool" where
  "isSpace c = ((of_char c :: nat) \<in> {9, 10, 11, 12, 13, 32})"

definition TrimSpace :: "string \<Rightarrow> string" where
  "TrimSpace s = rev (dropWhile isSpace (rev (dropWhile isSpace s)))"

lemma TrimSpace_id: "s \<noteq> [] \<Longrightarrow> \<not> isSpace (hd s) \<Longrightarrow> \<not> isSpace (last s) \<Longrightarrow> TrimSpace s = s"
  by (cases s rule: rev_cases) (auto simp: TrimSpace_def dropWhile_eq_self_iff [THEN iffD2])

section \<open>Decimal numbers\<close>

definition isDigit :: "char \<Rightarrow> bool" where
  "isDigit c = (48 \<le> (of_char c :: nat) \<and> (of_char c :: nat) \<le> 57)"

definition digitVal :: "char \<Rightarrow> int" where
  "digitVal c = int (of_char c) - 48"

definition digitsVal :: "string \<Rightarrow> int" where
  "digitsVal s = fold (\<lambda>c n. 10 * n + digitVal c) s 0"

text \<open>
  \<^verbatim>\<open>strconv.Atoi\<close> on a 64-bit platform: an optional sign, decimal digits, and an error for an
  empty digit string, another byte, or a value outside the range of int64.
\<close>

definition Atoi :: "string \<Rightarrow> int option" where
  "Atoi s =
     (let neg = (take 1 s = ''-'');
          ds = (if take 1 s = ''-'' \<or> take 1 s = ''+'' then drop 1 s else s);
          v = (if neg then - digitsVal ds else digitsVal ds)
      in if ds \<noteq> [] \<and> list_all isDigit ds \<and> - (2 ^ 63) \<le> v \<and> v < 2 ^ 63 then Some v else None)"

text \<open>\<^verbatim>\<open>%d\<close> of a non-negative number.\<close>

fun Itoa :: "nat \<Rightarrow> string" where
  "Itoa n = (if n < 10 then [char_of (48 + n)] else Itoa (n div 10) @ [char_of (48 + n mod 10)])"

declare Itoa.simps [simp del]

lemma isDigit_char_of [simp]: "d < 10 \<Longrightarrow> isDigit (char_of (48 + d))" for d :: nat
  by (simp add: isDigit_def)

lemma digitVal_char_of [simp]: "d < 10 \<Longrightarrow> digitVal (char_of (48 + d)) = int d" for d :: nat
  by (simp add: digitVal_def)

lemma Itoa_digits: "Itoa n \<noteq> [] \<and> list_all isDigit (Itoa n) \<and> digitsVal (Itoa n) = int n"
proof (induction n rule: Itoa.induct)
  case (1 n)
  show ?case
  proof (cases "n < 10")
    case True
    then show ?thesis by (simp add: Itoa.simps [of n] digitsVal_def)
  next
    case False
    with "1.IH" have IH: "list_all isDigit (Itoa (n div 10))" "digitsVal (Itoa (n div 10)) = int (n div 10)"
      by auto
    have "int n = 10 * int (n div 10) + int (n mod 10)"
      by (simp add: zmod_int zdiv_int)
    with IH False show ?thesis
      by (simp add: Itoa.simps [of n]) (simp add: digitsVal_def)
  qed
qed

lemma Atoi_Itoa: "int n < 2 ^ 63 \<Longrightarrow> Atoi (Itoa n) = Some (int n)"
proof -
  assume n: "int n < 2 ^ 63"
  obtain c cs where c: "Itoa n = c # cs" "isDigit c" "list_all isDigit cs"
    using Itoa_digits [of n] by (cases "Itoa n") auto
  then have "c \<noteq> CHR ''-''" "c \<noteq> CHR ''+''"
    by (auto simp: isDigit_def)
  with c n Itoa_digits [of n] show ?thesis
    by (auto simp: Atoi_def)
qed

section \<open>JSON\<close>

text \<open>What follows the first document of a JSON input: its end, another document, or an error.\<close>

datatype JSONRest = JSONEOF | JSONDocument | JSONError err

text \<open>A JSON value in an \<^verbatim>\<open>interface{}\<close>: a number, an array or an object is the text that \<^verbatim>\<open>%v\<close> prints for it.\<close>

datatype JAny = JString string | JBool bool | JNull | JPrinted string

fun sprintV :: "JAny \<Rightarrow> string" where
  "sprintV (JString s) = s"
| "sprintV (JBool b) = (if b then ''true'' else ''false'')"
| "sprintV JNull = ''<nil>''"
| "sprintV (JPrinted s) = s"

end
