(* ===== verification/App_Types.thy ===== *)
theory App_Types
  imports Prelude
begin

text \<open>
  The domain types of package \<^verbatim>\<open>app\<close> (\<^verbatim>\<open>src/src/internal/app/types.go\<close>): application manifests,
  service specifications and live states, diffs, sync results, and the severity order on health.

  Structs are records and Go's typed string enumerations are datatypes. A field name is the Go name,
  with a prefix where two structs share it (\<open>sp_\<close> for \<^verbatim>\<open>ServiceSpec\<close>, \<open>lv_\<close> for the live
  \<^verbatim>\<open>ServiceState\<close>, \<open>ss_\<close> for \<^verbatim>\<open>ServiceStatus\<close>). Times and durations are nanoseconds. The floating-point
  resource metrics (\<^verbatim>\<open>ContainerMetrics\<close>, \<^verbatim>\<open>HostStats\<close>) are not modelled, nor is the API view
  \<^verbatim>\<open>AppStatus\<close>.
\<close>

type_synonym time = int
type_synonym duration = int

abbreviation Second :: duration where "Second \<equiv> 1000000000"
abbreviation Minute :: duration where "Minute \<equiv> 60 * Second"

section \<open>Manifests\<close>

record SourceSpec =
  RepoURL :: string
  TargetRevision :: string
  Path :: string
  ComposeFiles :: "string list"

record DestinationSpec =
  DockerHost :: string
  ProjectName :: string

record SyncPolicy =
  Automated :: bool
  Prune :: bool
  SelfHeal :: bool
  PollInterval :: duration
  SyncTimeout :: duration
  HealthTimeout :: duration

record AppSpec =
  spec_Source :: SourceSpec
  spec_Destination :: DestinationSpec
  spec_SyncPolicy :: SyncPolicy

record AppMetadata =
  meta_Name :: string

record Application =
  APIVersion :: string
  Kind :: string
  Metadata :: AppMetadata
  Spec :: AppSpec

abbreviation appSource :: "Application \<Rightarrow> SourceSpec" where
  "appSource a \<equiv> spec_Source (Spec a)"

abbreviation appDestination :: "Application \<Rightarrow> DestinationSpec" where
  "appDestination a \<equiv> spec_Destination (Spec a)"

abbreviation appPolicy :: "Application \<Rightarrow> SyncPolicy" where
  "appPolicy a \<equiv> spec_SyncPolicy (Spec a)"

section \<open>Statuses\<close>

datatype SyncStatus =
  Synced | OutOfSync | AwaitingSync | ManuallyManaged | SyncStatusUnknown | SyncStatusError

text \<open>\<^verbatim>\<open>HealthStatus\<close> is a Go string type: any value other than the four constants is \<open>HealthOther\<close>.\<close>

datatype HealthStatus =
  Healthy | Progressing | Degraded | HealthUnknown | HealthOther string

datatype SyncOperation = OpPoll | OpManual | OpSelfHeal | OpRollback | OpAdopt

datatype SyncResultStatus = ResSuccess | ResFailure | ResSkipped

fun Severity :: "HealthStatus \<Rightarrow> nat" where
  "Severity Healthy = 0"
| "Severity Progressing = 1"
| "Severity Degraded = 2"
| "Severity HealthUnknown = 3"
| "Severity (HealthOther s) = 3"

definition WorstHealth :: "HealthStatus \<Rightarrow> HealthStatus \<Rightarrow> HealthStatus" where
  "WorstHealth a b = (if Severity a \<ge> Severity b then a else b)"

text \<open>Severity makes the statuses a preorder (\<open>HealthUnknown\<close> and any other string tie).\<close>

instantiation HealthStatus :: preorder
begin

definition less_eq_HealthStatus :: "HealthStatus \<Rightarrow> HealthStatus \<Rightarrow> bool" where
  "less_eq_HealthStatus a b = (Severity a \<le> Severity b)"

definition less_HealthStatus :: "HealthStatus \<Rightarrow> HealthStatus \<Rightarrow> bool" where
  "less_HealthStatus a b = (Severity a < Severity b)"

instance
  by intro_classes (auto simp: less_eq_HealthStatus_def less_HealthStatus_def)

end

lemmas health_order = less_eq_HealthStatus_def less_HealthStatus_def

lemma Severity_le3: "Severity h \<le> 3"
  by (cases h) auto

lemma Severity_0 [simp]: "Severity h = 0 \<longleftrightarrow> h = Healthy"
  by (cases h) auto

lemma WorstHealth_upper: "a \<le> WorstHealth a b" "b \<le> WorstHealth a b"
  by (auto simp: WorstHealth_def health_order)

lemma WorstHealth_least: "a \<le> c \<Longrightarrow> b \<le> c \<Longrightarrow> WorstHealth a b \<le> c"
  by (simp add: WorstHealth_def)

lemma WorstHealth_choice: "WorstHealth a b = a \<or> WorstHealth a b = b"
  by (simp add: WorstHealth_def)

lemma Severity_WorstHealth: "Severity (WorstHealth a b) = max (Severity a) (Severity b)"
  by (simp add: WorstHealth_def)

section \<open>Services\<close>

record PortMapping =
  HostPort :: string
  ContainerPort :: string
  Protocol :: string

record VolumeMount =
  vm_Source :: string
  vm_Target :: string
  vm_ReadOnly :: bool

record HealthcheckSpec =
  hc_Test :: "string list"
  hc_Interval :: string
  hc_Timeout :: string
  hc_Retries :: int
  hc_StartPeriod :: string

record ServiceSpec =
  sp_Name :: string
  sp_Image :: string
  sp_Environment :: "string gomap"
  sp_Ports :: "PortMapping list"
  sp_Volumes :: "VolumeMount list"
  sp_Networks :: "string list"
  sp_Labels :: "string gomap"
  sp_RestartPolicy :: string
  sp_Healthcheck :: "HealthcheckSpec option"
  sp_Command :: "string list"
  sp_Entrypoint :: "string list"
  sp_DependsOn :: "string list"

record ServiceState =
  lv_Name :: string
  lv_Image :: string
  lv_ContainerName :: string
  lv_Status :: string
  lv_Health :: HealthStatus
  lv_Environment :: "string gomap"
  lv_Ports :: "PortMapping list"
  lv_Volumes :: "VolumeMount list"
  lv_Networks :: "string list"
  lv_Labels :: "string gomap"
  lv_RestartPolicy :: string
  lv_Command :: "string list"
  lv_Entrypoint :: "string list"

record ServiceDetail = ServiceState +
  ContainerID :: string

record ServiceStatus =
  ss_Name :: string
  ss_Image :: string
  ss_Health :: HealthStatus
  ss_State :: string
  ss_Ports :: "PortMapping list"

record NetworkSpec =
  nw_Driver :: string
  nw_External :: bool

record VolumeSpec =
  vl_Driver :: string
  vl_External :: bool

record ComposeSpec =
  cs_Services :: "ServiceSpec list"
  cs_Networks :: "NetworkSpec gomap"
  cs_Volumes :: "VolumeSpec gomap"

section \<open>Diffs and sync results\<close>

datatype ChangeType = ChangeCreate | ChangeUpdate | ChangeRemove

record FieldDiff =
  fd_Field :: string
  fd_Desired :: string
  fd_Live :: string

record ServiceDiff =
  ServiceName :: string
  ChangeKind :: ChangeType
  Fields :: "FieldDiff list"
  DesiredState :: "ServiceSpec option"
  LiveState :: "ServiceState option"

record DiffResult =
  InSync :: bool
  ToCreate :: "ServiceDiff list"
  ToUpdate :: "ServiceDiff list"
  ToRemove :: "ServiceDiff list"
  Summary :: string

text \<open>The \<^verbatim>\<open>ID\<close> of a result is never set by the program; the record of the store has its own.\<close>

record SyncResult =
  res_AppName :: string
  res_StartedAt :: time
  res_FinishedAt :: time
  res_CommitSHA :: string
  res_Operation :: SyncOperation
  res_Result :: SyncResultStatus
  res_Diff :: "DiffResult option"
  res_Error :: "err option"
  res_DurationMs :: int
  res_ComposeSpecJSON :: string

section \<open>Labels and health aggregation\<close>

text \<open>
  The labels of \<^verbatim>\<open>differ.go\<close>, and \<^verbatim>\<open>health.Aggregate\<close> with the conversion of live states to service
  statuses that the reconciler and the health monitor share.
\<close>

definition IgnoreDriftLabel :: string where "IgnoreDriftLabel = ''com.dockercd.ignore-drift''"
definition HookLabel :: string where "HookLabel = ''com.dockercd.hook''"
definition SyncWaveLabel :: string where "SyncWaveLabel = ''com.dockercd.sync-wave''"
definition StrategyLabel :: string where "StrategyLabel = ''com.dockercd.strategy''"

lemmas label_defs = IgnoreDriftLabel_def HookLabel_def SyncWaveLabel_def StrategyLabel_def

definition Aggregate :: "ServiceStatus list \<Rightarrow> HealthStatus" where
  "Aggregate services =
     (if services = [] then HealthUnknown
      else fold (\<lambda>s worst. WorstHealth worst (ss_Health s)) services Healthy)"

definition serviceStatusesFromStates :: "ServiceState list \<Rightarrow> ServiceStatus list" where
  "serviceStatusesFromStates states =
     map (\<lambda>s. \<lparr>ss_Name = lv_Name s, ss_Image = lv_Image s, ss_Health = lv_Health s,
               ss_State = lv_Status s, ss_Ports = lv_Ports s\<rparr>) states"

lemma worst_fold_upper:
  "h \<le> fold (\<lambda>s worst. WorstHealth worst (ss_Health s)) services h"
  "s \<in> set services \<Longrightarrow> ss_Health s \<le> fold (\<lambda>s worst. WorstHealth worst (ss_Health s)) services h"
proof (induction services arbitrary: h)
  case (Cons x xs)
  {
    case 1
    show ?case
      using Cons.IH(1) [of "WorstHealth h (ss_Health x)"] WorstHealth_upper(1) [of h "ss_Health x"]
      by (auto intro: order_trans)
  next
    case 2
    then show ?case
      using Cons.IH(1) [of "WorstHealth h (ss_Health x)"] Cons.IH(2) [of "WorstHealth h (ss_Health x)"]
        WorstHealth_upper(2) [of "ss_Health x" h]
      by (auto intro: order_trans)
  }
qed simp_all

lemma worst_fold_attained:
  "fold (\<lambda>s worst. WorstHealth worst (ss_Health s)) services h \<in> insert h (ss_Health ` set services)"
proof (induction services arbitrary: h)
  case (Cons x xs)
  show ?case
    using Cons.IH [of "WorstHealth h (ss_Health x)"] WorstHealth_choice [of h "ss_Health x"] by auto
qed simp

lemma Aggregate_Nil [simp]: "Aggregate [] = HealthUnknown"
  by (simp add: Aggregate_def)

lemma Aggregate_upper: "s \<in> set services \<Longrightarrow> ss_Health s \<le> Aggregate services"
  by (auto simp: Aggregate_def worst_fold_upper)

lemma Aggregate_attained:
  "services \<noteq> [] \<Longrightarrow> Aggregate services = Healthy \<or> Aggregate services \<in> ss_Health ` set services"
  using worst_fold_attained [of services Healthy] by (auto simp: Aggregate_def)

lemma le_Healthy_iff [simp]: "h \<le> Healthy \<longleftrightarrow> h = Healthy"
  by (simp add: health_order)

lemma Aggregate_Healthy:
  "Aggregate services = Healthy \<longleftrightarrow> services \<noteq> [] \<and> (\<forall>s \<in> set services. ss_Health s = Healthy)"
proof (cases "services = []")
  case False
  show ?thesis
  proof
    assume "Aggregate services = Healthy"
    then show "services \<noteq> [] \<and> (\<forall>s \<in> set services. ss_Health s = Healthy)"
      using False Aggregate_upper [of _ services] by auto
  next
    assume "services \<noteq> [] \<and> (\<forall>s \<in> set services. ss_Health s = Healthy)"
    then show "Aggregate services = Healthy"
      using Aggregate_attained [of services] by auto
  qed
qed simp

section \<open>Concrete services\<close>

definition demoSpec :: "string \<Rightarrow> string \<Rightarrow> ServiceSpec" where
  "demoSpec name img = \<lparr>sp_Name = name, sp_Image = img, sp_Environment = [], sp_Ports = [], sp_Volumes = [],
     sp_Networks = [], sp_Labels = [], sp_RestartPolicy = [], sp_Healthcheck = None, sp_Command = [],
     sp_Entrypoint = [], sp_DependsOn = []\<rparr>"

definition demoState :: "string \<Rightarrow> string \<Rightarrow> ServiceState" where
  "demoState name img = \<lparr>lv_Name = name, lv_Image = img, lv_ContainerName = [], lv_Status = ''running'',
     lv_Health = Healthy, lv_Environment = [], lv_Ports = [], lv_Volumes = [], lv_Networks = [''shop_default''],
     lv_Labels = [], lv_RestartPolicy = ''always'', lv_Command = [], lv_Entrypoint = []\<rparr>"

lemma demo_names [simp]: "sp_Name (demoSpec n i) = n" "lv_Name (demoState n i) = n"
  by (simp_all add: demoSpec_def demoState_def)

end
