(* ===== verification/Manifest.thy ===== *)
theory Manifest
  imports App_Types
begin

text \<open>
  Manifest validation and defaulting (\<^verbatim>\<open>app/validation.go\<close>), \<^verbatim>\<open>prepareApplication\<close> of the
  reconciler, and the lexical path operations \<^verbatim>\<open>filepath.Clean\<close> and \<^verbatim>\<open>filepath.Join\<close> that
  turn a validated manifest path into a directory.

  \<^verbatim>\<open>url.Parse\<close> and \<^verbatim>\<open>net.ParseIP\<close> are the fields of a record \<open>NetLib\<close> that the definitions take as
  an argument; the classification of a parsed address is written out on its bytes.
\<close>

section \<open>Lexical paths\<close>

fun cleanSegs :: "bool \<Rightarrow> string list \<Rightarrow> string list \<Rightarrow> string list" where
  "cleanSegs rooted out [] = rev out"
| "cleanSegs rooted out (s # ss) =
     (if s = [] \<or> s = ''.'' then cleanSegs rooted out ss
      else if s = ''..'' then
        (case out of
           [] \<Rightarrow> cleanSegs rooted (if rooted then [] else [''..'']) ss
         | o1 # os \<Rightarrow> if o1 = ''..'' then cleanSegs rooted (''..'' # out) ss else cleanSegs rooted os ss)
      else cleanSegs rooted (s # out) ss)"

definition isRooted :: "string \<Rightarrow> bool" where
  "isRooted p = HasPrefix p ''/''"

definition pathSegs :: "string \<Rightarrow> string list" where
  "pathSegs p = cleanSegs (isRooted p) [] (Split p (CHR ''/''))"

definition Clean :: "string \<Rightarrow> string" where
  "Clean p =
     (let out = (if isRooted p then ''/'' else []) @ Join (pathSegs p) ''/''
      in if out = [] then ''.'' else out)"

text \<open>\<^verbatim>\<open>filepath.Join(a, b)\<close>: empty elements are dropped, the rest joined and cleaned.\<close>

definition filepath_Join :: "string \<Rightarrow> string \<Rightarrow> string" where
  "filepath_Join a b =
     (let es = filter (\<lambda>e. e \<noteq> []) [a, b] in if es = [] then [] else Clean (Join es ''/''))"

lemma cleanSegs_append:
  "cleanSegs r out (xs @ ys) = cleanSegs r (rev (cleanSegs r out xs)) ys"
  by (induction r out xs rule: cleanSegs.induct) (auto split: list.splits)

lemma cleanSegs_plain:
  "''..'' \<notin> set ss \<Longrightarrow> cleanSegs r out ss = rev out @ filter (\<lambda>s. s \<noteq> [] \<and> s \<noteq> ''.'') ss"
  by (induction ss arbitrary: out) auto

lemma Split_append_sep: "Split (a @ c # b) c = Split a c @ Split b c"
proof (induction a)
  case (Cons x xs)
  then show ?case by (cases "Split xs c") auto
qed simp

lemma Split_first: "Split s c = y # ys \<Longrightarrow> \<exists>t. s = y @ t"
proof (induction s arbitrary: y ys)
  case (Cons x xs)
  then show ?case by (fastforce split: if_splits list.splits)
qed simp

lemma Split_dotdot: "''..'' \<in> set (Split p c) \<Longrightarrow> Contains p ''..''"
proof (induction p)
  case (Cons x xs)
  obtain y ys where y: "Split xs c = y # ys" by (cases "Split xs c") auto
  have sub: "Contains xs ''..'' \<Longrightarrow> Contains (x # xs) ''..''"
    unfolding Contains_iff by (metis append_Cons)
  show ?case
  proof (cases "x = c \<or> ''..'' \<in> set ys")
    case True
    with Cons y have "''..'' \<in> set (Split xs c)" by (auto split: if_splits)
    with Cons sub show ?thesis by blast
  next
    case False
    with Cons.prems y have "x = CHR ''.''" "y = ''.''" by auto
    moreover have "\<exists>t. xs = ''.'' @ t"
      using Split_first [OF y] \<open>y = ''.''\<close> by simp
    ultimately show ?thesis unfolding Contains_iff by (metis append_Cons append_Nil)
  qed
qed simp

text \<open>
  A relative path without \<^verbatim>\<open>".."\<close> only ever appends segments to the directory it is joined to.
\<close>

lemma pathSegs_join:
  assumes "repo \<noteq> []" and "\<not> Contains p ''..''"
  shows "pathSegs (repo @ ''/'' @ p)
           = pathSegs repo @ filter (\<lambda>s. s \<noteq> [] \<and> s \<noteq> ''.'') (Split p (CHR ''/''))"
proof -
  have rooted: "isRooted (repo @ ''/'' @ p) = isRooted repo"
    using assms(1) by (cases repo) (auto simp: isRooted_def HasPrefix_def)
  have "''..'' \<notin> set (Split p (CHR ''/''))"
    using assms(2) Split_dotdot by blast
  then show ?thesis
    unfolding pathSegs_def rooted
    by (simp add: Split_append_sep cleanSegs_append cleanSegs_plain)
qed

text \<open>The segments of a cleaned path: no empty and no \<^verbatim>\<open>"."\<close> segment, and \<^verbatim>\<open>".."\<close> only at the front.\<close>

definition cleanForm :: "bool \<Rightarrow> string list \<Rightarrow> bool" where
  "cleanForm rooted ss =
     (\<exists>n ps. ss = replicate n ''..'' @ ps \<and> (rooted \<longrightarrow> n = 0) \<and>
             (\<forall>p \<in> set ps. p \<noteq> [] \<and> p \<noteq> ''.'' \<and> p \<noteq> ''..'' \<and> CHR ''/'' \<notin> set p))"

lemma cleanForm_snoc:
  "cleanForm r ss \<Longrightarrow> p \<noteq> [] \<Longrightarrow> p \<noteq> ''.'' \<Longrightarrow> p \<noteq> ''..'' \<Longrightarrow> CHR ''/'' \<notin> set p \<Longrightarrow> cleanForm r (ss @ [p])"
  unfolding cleanForm_def
  by (elim exE conjE, rename_tac n ps) (rule_tac x = n in exI, rule_tac x = "ps @ [p]" in exI, auto)

lemma cleanForm_butlast:
  assumes "cleanForm r (ss @ [p])" and "p \<noteq> ''..''"
  shows "cleanForm r ss"
proof -
  obtain n ps where n: "ss @ [p] = replicate n ''..'' @ ps" "r \<longrightarrow> n = 0"
    and ps: "\<forall>p \<in> set ps. p \<noteq> [] \<and> p \<noteq> ''.'' \<and> p \<noteq> ''..'' \<and> CHR ''/'' \<notin> set p"
    using assms(1) unfolding cleanForm_def by blast
  have "ps \<noteq> []"
  proof
    assume "ps = []"
    with n(1) have eq: "ss @ [p] = replicate n ''..''" by simp
    have "p \<in> set (ss @ [p])" by simp
    then have "p \<in> set (replicate n ''..'')" unfolding eq .
    with assms(2) show False by (simp split: if_splits)
  qed
  then obtain qs q where "ps = qs @ [q]" by (metis append_butlast_last_id)
  with n ps show ?thesis unfolding cleanForm_def by auto
qed

lemma cleanForm_dotdot:
  assumes "cleanForm False (ss @ [''..''])"
  shows "cleanForm False (ss @ [''..'', ''..''])"
proof -
  obtain n ps where n: "ss @ [''..''] = replicate n ''..'' @ ps"
    and ps: "\<forall>p \<in> set ps. p \<noteq> [] \<and> p \<noteq> ''.'' \<and> p \<noteq> ''..'' \<and> CHR ''/'' \<notin> set p"
    using assms unfolding cleanForm_def by blast
  have "ps = []"
    using n ps by (metis append_is_Nil_conv last_append last_in_set last_snoc)
  with n have "ss @ [''..'', ''..''] = replicate (Suc n) ''..'' @ []"
    by (metis append.right_neutral append_Cons append_Nil append_assoc replicate_Suc replicate_append_same)
  then show ?thesis unfolding cleanForm_def by (metis empty_iff empty_set)
qed

lemma cleanForm_rooted_dotdot: "\<not> cleanForm True (ss @ [''..''])"
  by (auto simp: cleanForm_def)

lemma cleanSegs_cleanForm:
  "cleanForm r (rev out) \<Longrightarrow> (\<forall>s \<in> set ss. CHR ''/'' \<notin> set s) \<Longrightarrow> cleanForm r (cleanSegs r out ss)"
proof (induction r out ss rule: cleanSegs.induct)
  case (2 r out s ss)
  consider "s = [] \<or> s = ''.''" | "s = ''..''" "out = []" | o1 os where "s = ''..''" "out = o1 # os"
    | "s \<noteq> []" "s \<noteq> ''.''" "s \<noteq> ''..''"
    by (cases out) auto
  then show ?case
  proof cases
    case 2
    have "cleanForm r (if r then [] else [''..''])"
      unfolding cleanForm_def
      by (rule exI [of _ "if r then 0 else Suc 0"], rule exI [of _ "[]"]) simp
    with 2 "2.IH"(2) "2.prems" show ?thesis by (cases r) simp_all
  next
    case (3 o1 os)
    with "2.IH"(3,4) "2.prems" show ?thesis
      by (cases r) (auto simp: cleanForm_rooted_dotdot intro: cleanForm_butlast cleanForm_dotdot)
  qed (use "2.IH"(1,5) "2.prems" in \<open>auto intro: cleanForm_snoc\<close>)
qed simp

lemma cleanSegs_dots: "cleanSegs False (replicate k ''..'') (replicate n ''..'' @ ss)
    = cleanSegs False (replicate (k + n) ''..'') ss"
proof (induction n arbitrary: k)
  case (Suc n)
  have "cleanSegs False (replicate k ''..'') (replicate (Suc n) ''..'' @ ss)
      = cleanSegs False (replicate (Suc k) ''..'') (replicate n ''..'' @ ss)"
    by (cases k) auto
  also have "\<dots> = cleanSegs False (replicate (Suc k + n) ''..'') ss"
    by (rule Suc.IH)
  finally show ?case by simp
qed simp

lemma cleanSegs_cleanForm_id: "cleanForm r ss \<Longrightarrow> cleanSegs r [] ss = ss"
proof -
  assume "cleanForm r ss"
  then obtain n ps where ss: "ss = replicate n ''..'' @ ps" "r \<longrightarrow> n = 0"
    and ps: "\<forall>p \<in> set ps. p \<noteq> [] \<and> p \<noteq> ''.'' \<and> p \<noteq> ''..'' \<and> CHR ''/'' \<notin> set p"
    unfolding cleanForm_def by blast
  have plain: "cleanSegs r out ps = rev out @ ps" for out
    using ps by (subst cleanSegs_plain) (auto intro!: filter_True)
  show ?thesis
  proof (cases r)
    case False
    then show ?thesis using cleanSegs_dots [of 0 n ps] plain [of "replicate n ''..''"] ss by simp
  qed (use ss plain [of "[]"] in auto)
qed

lemma pathSegs_cleanForm: "cleanForm (isRooted p) (pathSegs p)"
  unfolding pathSegs_def
  by (rule cleanSegs_cleanForm) (auto simp: cleanForm_def dest: Split_pieces)

lemma Split_Join: "\<forall>s \<in> set ss. c \<notin> set s \<Longrightarrow> ss \<noteq> [] \<Longrightarrow> Split (Join ss [c]) c = ss"
proof (induction ss "[c]" rule: Join.induct)
  case (3 x y ys)
  then show ?case by (simp add: Split_append)
qed auto

lemma Join_Cons_ex: "\<exists>t. Join (x # xs) sep = x @ t"
  by (cases xs) auto

lemma Join_first_nonslash:
  assumes "ss \<noteq> []" and "\<forall>s \<in> set ss. s \<noteq> [] \<and> CHR ''/'' \<notin> set s"
  shows "\<not> isRooted (Join ss ''/'') \<and> Join ss ''/'' \<noteq> []"
proof -
  obtain x xs where x: "ss = x # xs" using assms(1) by (cases ss) auto
  obtain t where "Join ss ''/'' = x @ t" using Join_Cons_ex [of x xs] x by auto
  moreover obtain c cs where "x = c # cs" "c \<noteq> CHR ''/''" using assms(2) x by (cases x) auto
  ultimately show ?thesis by (simp add: isRooted_def HasPrefix_def)
qed

lemma cleanForm_segs: "cleanForm r ss \<Longrightarrow> \<forall>s \<in> set ss. s \<noteq> [] \<and> CHR ''/'' \<notin> set s"
  unfolding cleanForm_def
proof (elim exE conjE, intro ballI)
  fix n ps s
  assume "ss = replicate n ''..'' @ ps" "s \<in> set ss"
    and ps: "\<forall>p \<in> set ps. p \<noteq> [] \<and> p \<noteq> ''.'' \<and> p \<noteq> ''..'' \<and> CHR ''/'' \<notin> set p"
  then have "s = ''..'' \<and> 0 < n \<or> s \<in> set ps" by simp
  then show "s \<noteq> [] \<and> CHR ''/'' \<notin> set s" using ps by (elim disjE conjE) simp_all
qed

lemma pathSegs_Clean: "pathSegs (Clean p) = pathSegs p"
proof -
  let ?ss = "pathSegs p"
  have cf: "cleanForm (isRooted p) ?ss" by (rule pathSegs_cleanForm)
  then have seg: "\<forall>s \<in> set ?ss. s \<noteq> [] \<and> CHR ''/'' \<notin> set s"
    by (rule cleanForm_segs)
  show ?thesis
  proof (cases "?ss = []")
    case True
    then show ?thesis
      by (auto simp: Clean_def Let_def pathSegs_def [of "''/''"] pathSegs_def [of "''.''"])
  next
    case False
    then have J: "\<not> isRooted (Join ?ss ''/'')" "Join ?ss ''/'' \<noteq> []"
      using Join_first_nonslash seg by blast+
    have S: "Split (Join ?ss ''/'') (CHR ''/'') = ?ss"
      using False seg by (simp add: Split_Join)
    show ?thesis
    proof (cases "isRooted p")
      case True
      then have "Clean p = CHR ''/'' # Join ?ss ''/''" by (simp add: Clean_def)
      moreover have "pathSegs (CHR ''/'' # Join ?ss ''/'') = ?ss"
        using cleanSegs_cleanForm_id [OF cf] True S
        by (simp add: pathSegs_def [of "CHR ''/'' # Join ?ss ''/''"] isRooted_def [of "CHR ''/'' # _"]
            HasPrefix_def)
      ultimately show ?thesis by simp
    next
      case notrooted: False
      then have "Clean p = Join ?ss ''/''" using J by (simp add: Clean_def)
      then show ?thesis
        using cleanSegs_cleanForm_id [OF cf] notrooted S J
        by (simp add: pathSegs_def [of "Join ?ss ''/''"])
    qed
  qed
qed

section \<open>Repository URLs and addresses\<close>

record URL =
  Scheme :: string
  User :: "(string \<times> string option) option"
  Hostname :: string

text \<open>
  The parsers of the standard library: \<^verbatim>\<open>url.Parse\<close>, \<^verbatim>\<open>(*url.URL).String\<close> of the text with its
  userinfo removed, and \<^verbatim>\<open>net.ParseIP\<close>, which gives the 4 or 16 bytes of an address.
\<close>

record NetLib =
  url_Parse :: "string \<Rightarrow> URL result"
  url_StringNoUser :: "string \<Rightarrow> string"
  ParseIP :: "string \<Rightarrow> nat list option"

definition To4 :: "nat list \<Rightarrow> nat list option" where
  "To4 ip = (if length ip = 4 then Some ip
             else if length ip = 16 \<and> take 12 ip = replicate 10 0 @ [255, 255] then Some (drop 12 ip)
             else None)"

definition IsLoopback :: "nat list \<Rightarrow> bool" where
  "IsLoopback ip = (case To4 ip of Some b \<Rightarrow> b ! 0 = 127 | None \<Rightarrow> ip = replicate 15 0 @ [1])"

definition IsPrivate :: "nat list \<Rightarrow> bool" where
  "IsPrivate ip = (case To4 ip of
      Some b \<Rightarrow> b ! 0 = 10 \<or> (b ! 0 = 172 \<and> b ! 1 div 16 = 1) \<or> (b ! 0 = 192 \<and> b ! 1 = 168)
    | None \<Rightarrow> length ip = 16 \<and> ip ! 0 div 2 = 126)"

definition IsLinkLocalUnicast :: "nat list \<Rightarrow> bool" where
  "IsLinkLocalUnicast ip = (case To4 ip of
      Some b \<Rightarrow> b ! 0 = 169 \<and> b ! 1 = 254
    | None \<Rightarrow> length ip = 16 \<and> ip ! 0 = 254 \<and> ip ! 1 div 64 = 2)"

definition IsLinkLocalMulticast :: "nat list \<Rightarrow> bool" where
  "IsLinkLocalMulticast ip = (case To4 ip of
      Some b \<Rightarrow> b ! 0 = 224 \<and> b ! 1 = 0 \<and> b ! 2 = 0
    | None \<Rightarrow> length ip = 16 \<and> ip ! 0 = 255 \<and> ip ! 1 mod 16 = 2)"

definition repoURLHasPassword :: "URL \<Rightarrow> bool" where
  "repoURLHasPassword u = (case User u of Some (name, Some pw) \<Rightarrow> True | _ \<Rightarrow> False)"

definition userName :: "URL \<Rightarrow> string" where
  "userName u = (case User u of Some (name, pw) \<Rightarrow> name | None \<Rightarrow> [])"

definition allowedRepoSchemes :: "string list" where
  "allowedRepoSchemes = [''https'', ''http'', ''ssh'']"

definition validateRepoURL :: "NetLib \<Rightarrow> string \<Rightarrow> err option" where
  "validateRepoURL net repoURL =
     (if HasPrefix repoURL ''git@'' then None
      else case url_Parse net repoURL of
        Inl e \<Rightarrow> Some (Wrapf ''invalid URL: %w'' [] e)
      | Inr u \<Rightarrow>
          if User u \<noteq> None \<and> (Scheme u \<noteq> ''ssh'' \<or> userName u = [] \<or> repoURLHasPassword u)
          then Some (Errorf ''embedded credentials are not allowed; configure DOCKERCD_GIT_TOKEN instead'' [])
          else if Scheme u \<notin> set allowedRepoSchemes
          then Some (Errorf ''scheme %q not allowed (use https, http, or ssh)'' [Scheme u])
          else if Hostname u = []
          then Some (Errorf ''URL must include a hostname'' [])
          else case ParseIP net (Hostname u) of
            None \<Rightarrow> None
          | Some ip \<Rightarrow>
              if IsLoopback ip \<or> IsPrivate ip \<or> IsLinkLocalUnicast ip \<or> IsLinkLocalMulticast ip
              then Some (Errorf ''private/loopback IP addresses are not allowed'' [])
              else None)"

section \<open>Validation and defaults\<close>

text \<open>\<^verbatim>\<open>dnsLabelRegex\<close>: \<^verbatim>\<open>^[a-z0-9]([a-z0-9-]{0,61}[a-z0-9])?$\<close>.\<close>

definition isLowerAlnum :: "char \<Rightarrow> bool" where
  "isLowerAlnum c = ((97 \<le> (of_char c :: nat) \<and> (of_char c :: nat) \<le> 122) \<or> isDigit c)"

definition dnsLabelMatch :: "string \<Rightarrow> bool" where
  "dnsLabelMatch s = (case s of
      [] \<Rightarrow> False
    | c # cs \<Rightarrow> isLowerAlnum c \<and>
        (cs = [] \<or>
         (length (butlast cs) \<le> 61 \<and> list_all (\<lambda>x. isLowerAlnum x \<or> x = CHR ''-'') (butlast cs)
          \<and> isLowerAlnum (last cs))))"

definition validateErrs :: "NetLib \<Rightarrow> Application \<Rightarrow> err list" where
  "validateErrs net a =
     (if APIVersion a \<noteq> ''dockercd/v1''
      then [Errorf ''apiVersion must be \"dockercd/v1\", got %q'' [APIVersion a]] else [])
   @ (if Kind a \<noteq> ''Application''
      then [Errorf ''kind must be \"Application\", got %q'' [Kind a]] else [])
   @ (if meta_Name (Metadata a) = [] then [Errorf ''metadata.name is required'' []]
      else if \<not> dnsLabelMatch (meta_Name (Metadata a))
      then [Errorf ''metadata.name must be a valid DNS label (lowercase alphanumeric and hyphens, 1-63 chars), got %q''
              [meta_Name (Metadata a)]]
      else [])
   @ (if RepoURL (appSource a) = [] then [Errorf ''spec.source.repoURL is required'' []]
      else case validateRepoURL net (RepoURL (appSource a)) of
        None \<Rightarrow> []
      | Some e \<Rightarrow> [Wrapf ''spec.source.repoURL: %s'' [] e])
   @ (if Path (appSource a) \<noteq> [] \<and> Path (appSource a) \<noteq> ''.''
      then (if Contains (Path (appSource a)) ''..''
            then [Errorf ''spec.source.path must not contain '..' (path traversal)'' []] else [])
         @ (if HasPrefix (Path (appSource a)) ''/''
            then [Errorf ''spec.source.path must be relative, not absolute'' []] else [])
      else [])
   @ (if PollInterval (appPolicy a) > 0 \<and> PollInterval (appPolicy a) < 30 * Second
      then [Errorf ''spec.syncPolicy.pollInterval must be >= 30s, got %s'' []] else [])"

definition Validate :: "NetLib \<Rightarrow> Application \<Rightarrow> err option" where
  "Validate net a =
     (if validateErrs net a \<noteq> [] then Some (Joinf ''validation failed: %s'' (validateErrs net a)) else None)"

definition defaultSource :: "SourceSpec \<Rightarrow> SourceSpec" where
  "defaultSource s =
     s\<lparr>TargetRevision := (if TargetRevision s = [] then ''main'' else TargetRevision s),
       Path := (if Path s = [] then ''.'' else Path s),
       ComposeFiles := (if ComposeFiles s = [] then [''docker-compose.yml''] else ComposeFiles s)\<rparr>"

definition defaultDestination :: "string \<Rightarrow> DestinationSpec \<Rightarrow> DestinationSpec" where
  "defaultDestination name d =
     d\<lparr>DockerHost := (if DockerHost d = [] then ''unix:///var/run/docker.sock'' else DockerHost d),
       ProjectName := (if ProjectName d = [] then name else ProjectName d)\<rparr>"

definition defaultPolicy :: "SyncPolicy \<Rightarrow> SyncPolicy" where
  "defaultPolicy p =
     p\<lparr>PollInterval := (if PollInterval p = 0 then 180 * Second else PollInterval p),
       SyncTimeout := (if SyncTimeout p = 0 then 300 * Second else SyncTimeout p),
       HealthTimeout := (if HealthTimeout p = 0 then 120 * Second else HealthTimeout p)\<rparr>"

definition ApplyDefaults :: "Application \<Rightarrow> Application" where
  "ApplyDefaults a =
     a\<lparr>Spec := \<lparr>spec_Source = defaultSource (appSource a),
                spec_Destination = defaultDestination (meta_Name (Metadata a)) (appDestination a),
                spec_SyncPolicy = defaultPolicy (appPolicy a)\<rparr>\<rparr>"

lemmas defaults_defs = ApplyDefaults_def defaultSource_def defaultDestination_def defaultPolicy_def

text \<open>\<^verbatim>\<open>prepareApplication\<close> mutates its argument and returns the validation error.\<close>

definition prepareApplication :: "NetLib \<Rightarrow> Application \<Rightarrow> Application result" where
  "prepareApplication net a =
     (let a' = ApplyDefaults a in case Validate net a' of Some e \<Rightarrow> Inl e | None \<Rightarrow> Inr a')"

definition defaultSyncTimeout :: duration where "defaultSyncTimeout = 300 * Second"

definition effectiveSyncTimeout :: "Application \<Rightarrow> duration" where
  "effectiveSyncTimeout a =
     (if SyncTimeout (appPolicy a) > 0 then SyncTimeout (appPolicy a) else defaultSyncTimeout)"

section \<open>Properties\<close>

lemma Validate_None: "Validate net a = None \<longleftrightarrow> validateErrs net a = []"
  by (simp add: Validate_def)

lemma prepare_Inr: "prepareApplication net a = Inr a' \<longleftrightarrow> a' = ApplyDefaults a \<and> validateErrs net a' = []"
  by (auto simp: prepareApplication_def Let_def Validate_def split: option.splits if_splits)

lemma dnsLabelMatch_iff:
  "dnsLabelMatch s \<longleftrightarrow> s \<noteq> [] \<and> length s \<le> 63 \<and> isLowerAlnum (hd s) \<and> isLowerAlnum (last s)
     \<and> list_all (\<lambda>x. isLowerAlnum x \<or> x = CHR ''-'') s"
proof (cases s)
  case (Cons c cs)
  show ?thesis
  proof (cases "cs = []")
    case False
    then obtain ds d where "cs = ds @ [d]" by (metis append_butlast_last_id)
    with Cons show ?thesis by (auto simp: dnsLabelMatch_def)
  qed (use Cons in \<open>auto simp: dnsLabelMatch_def\<close>)
qed (simp add: dnsLabelMatch_def)

lemma isLowerAlnum_not_special:
  "isLowerAlnum c \<Longrightarrow> c \<noteq> CHR ''/'' \<and> c \<noteq> CHR ''.'' \<and> c \<noteq> CHR ''-''"
  by (auto simp: isLowerAlnum_def isDigit_def)

lemma ApplyDefaults_idem [simp]: "ApplyDefaults (ApplyDefaults a) = ApplyDefaults a"
  by (simp add: defaults_defs)

lemma ApplyDefaults_name [simp]: "Metadata (ApplyDefaults a) = Metadata a"
  by (simp add: ApplyDefaults_def)

lemma effectiveSyncTimeout_pos: "effectiveSyncTimeout a > 0"
  by (simp add: effectiveSyncTimeout_def defaultSyncTimeout_def)

text \<open>The directory of the compose files of an application in its repository clone.\<close>

definition composePathOf :: "string \<Rightarrow> SourceSpec \<Rightarrow> string" where
  "composePathOf repoPath src =
     (if Path src \<noteq> [] \<and> Path src \<noteq> ''.'' then filepath_Join repoPath (Path src) else repoPath)"

lemma validateErrs_Nil:
  assumes "validateErrs net a = []"
  shows "APIVersion a = ''dockercd/v1''" "Kind a = ''Application''"
    "dnsLabelMatch (meta_Name (Metadata a))"
    "RepoURL (appSource a) \<noteq> []" "validateRepoURL net (RepoURL (appSource a)) = None"
    "Path (appSource a) = [] \<or> Path (appSource a) = ''.'' \<or>
       (\<not> Contains (Path (appSource a)) ''..'' \<and> \<not> HasPrefix (Path (appSource a)) ''/'')"
    "PollInterval (appPolicy a) \<le> 0 \<or> 30 * Second \<le> PollInterval (appPolicy a)"
  using assms unfolding validateErrs_def by (auto split: if_splits option.splits)

lemma validated_path_contained:
  assumes "validateErrs net a = []" and "repo \<noteq> []"
  shows "\<exists>rest. pathSegs (composePathOf repo (appSource a)) = pathSegs repo @ rest \<and> ''..'' \<notin> set rest"
proof (cases "Path (appSource a) = [] \<or> Path (appSource a) = ''.''")
  case False
  let ?p = "Path (appSource a)"
  have nd: "\<not> Contains ?p ''..''" using validateErrs_Nil(6) [OF assms(1)] False by blast
  have "composePathOf repo (appSource a) = Clean (repo @ ''/'' @ ?p)"
    using False assms(2) by (simp add: composePathOf_def filepath_Join_def)
  then show ?thesis
    using pathSegs_join [OF assms(2) nd] Split_dotdot nd by (auto simp: pathSegs_Clean)
qed (auto simp: composePathOf_def)


definition demoNet :: NetLib where
  "demoNet = \<lparr>url_Parse = (\<lambda>s. Inr \<lparr>Scheme = ''https'', User = None, Hostname = ''git.example.com''\<rparr>),
     url_StringNoUser = id, ParseIP = (\<lambda>h. None)\<rparr>"

definition demoApplication :: Application where
  "demoApplication = \<lparr>APIVersion = ''dockercd/v1'', Kind = ''Application'', Metadata = \<lparr>meta_Name = ''web''\<rparr>,
     Spec = \<lparr>spec_Source = \<lparr>RepoURL = ''https://git.example.com/infra'', TargetRevision = [], Path = ''apps/web'',
                             ComposeFiles = []\<rparr>,
             spec_Destination = \<lparr>DockerHost = [], ProjectName = []\<rparr>,
             spec_SyncPolicy = \<lparr>Automated = True, Prune = False, SelfHeal = True, PollInterval = 0,
                                SyncTimeout = 0, HealthTimeout = 0\<rparr>\<rparr>\<rparr>"

lemma demoApplication_accepted: "prepareApplication demoNet demoApplication = Inr (ApplyDefaults demoApplication)"
  by code_simp


end
