(* ===== verification/Redact.thy ===== *)
theory Redact
  imports Manifest
begin

text \<open>
  Redaction of environment values before they are persisted or returned by the API
  (\<^verbatim>\<open>src/src/internal/app/redact.go\<close>). The lemmas show what survives (names, shape, everything that is
  not an environment value) and that nothing else does: two diffs that differ in their environment
  values only have the same redaction.
\<close>

section \<open>Operations\<close>

definition RedactedValue :: string where "RedactedValue = ''[REDACTED]''"

definition redactValue :: "string \<Rightarrow> string" where
  "redactValue v = (if v = [] then [] else RedactedValue)"

definition redactEnvironment :: "string gomap \<Rightarrow> string gomap" where
  "redactEnvironment env = map (\<lambda>(k, v). (k, redactValue v)) env"

definition RedactRepoURL :: "NetLib \<Rightarrow> string \<Rightarrow> string" where
  "RedactRepoURL net repoURL =
     (case url_Parse net repoURL of
        Inl e \<Rightarrow> repoURL
      | Inr u \<Rightarrow> if User u = None then repoURL else url_StringNoUser net repoURL)"

definition RedactComposeSpec :: "ComposeSpec option \<Rightarrow> ComposeSpec option" where
  "RedactComposeSpec spec = map_option (\<lambda>s. s\<lparr>cs_Services :=
       map (\<lambda>service. service\<lparr>sp_Environment := redactEnvironment (sp_Environment service)\<rparr>) (cs_Services s)\<rparr>) spec"

definition RedactServiceDetail :: "ServiceDetail option \<Rightarrow> ServiceDetail option" where
  "RedactServiceDetail detail =
     map_option (\<lambda>d. d\<lparr>lv_Environment := redactEnvironment (lv_Environment d)\<rparr>) detail"

definition redactField :: "FieldDiff \<Rightarrow> FieldDiff" where
  "redactField f =
     (if HasPrefix (fd_Field f) ''environment.''
      then f\<lparr>fd_Desired := redactValue (fd_Desired f), fd_Live := redactValue (fd_Live f)\<rparr> else f)"

definition redactServiceDiffs :: "ServiceDiff list \<Rightarrow> ServiceDiff list" where
  "redactServiceDiffs diffs =
     map (\<lambda>d. d\<lparr>Fields := map redactField (Fields d),
               DesiredState := map_option (\<lambda>s. s\<lparr>sp_Environment := redactEnvironment (sp_Environment s)\<rparr>)
                                 (DesiredState d),
               LiveState := map_option (\<lambda>s. s\<lparr>lv_Environment := redactEnvironment (lv_Environment s)\<rparr>)
                                 (LiveState d)\<rparr>) diffs"

definition RedactDiffResult :: "DiffResult \<Rightarrow> DiffResult" where
  "RedactDiffResult diff =
     diff\<lparr>ToCreate := redactServiceDiffs (ToCreate diff), ToUpdate := redactServiceDiffs (ToUpdate diff),
          ToRemove := redactServiceDiffs (ToRemove diff)\<rparr>"

definition RedactDiff :: "DiffResult option \<Rightarrow> DiffResult option" where
  "RedactDiff diff = map_option RedactDiffResult diff"

definition RedactSyncResult :: "SyncResult option \<Rightarrow> SyncResult option" where
  "RedactSyncResult result =
     map_option (\<lambda>r. r\<lparr>res_Diff := RedactDiff (res_Diff r), res_ComposeSpecJSON := []\<rparr>) result"

section \<open>Lemmas\<close>

lemma redactValue_idem [simp]: "redactValue (redactValue v) = redactValue v"
  by (simp add: redactValue_def RedactedValue_def)

lemma redactValue_eq_iff: "redactValue v = redactValue w \<longleftrightarrow> (v = [] \<longleftrightarrow> w = [])"
  by (simp add: redactValue_def RedactedValue_def)

lemma redactEnvironment_keys [simp]: "map fst (redactEnvironment env) = map fst env"
  by (simp add: redactEnvironment_def comp_def case_prod_beta)

lemma redactEnvironment_idem [simp]: "redactEnvironment (redactEnvironment env) = redactEnvironment env"
  by (simp add: redactEnvironment_def comp_def case_prod_beta)

lemma redactEnvironment_values: "(k, v) \<in> set (redactEnvironment env) \<Longrightarrow> v \<in> {[], RedactedValue}"
  by (auto simp: redactEnvironment_def redactValue_def)

lemma map_of_redactEnvironment: "map_of (redactEnvironment env) k = map_option redactValue (map_of env k)"
  by (simp add: redactEnvironment_def map_of_map)

text \<open>
  Replacing the environment values of a diff, the empty value apart: \<open>f\<close> gives the new value of a
  variable from its name and old value.
\<close>

definition changeEnv :: "(string \<Rightarrow> string \<Rightarrow> string) \<Rightarrow> string gomap \<Rightarrow> string gomap" where
  "changeEnv f env = map (\<lambda>(k, v). (k, f k v)) env"

definition changeField :: "(string \<Rightarrow> string \<Rightarrow> string) \<Rightarrow> FieldDiff \<Rightarrow> FieldDiff" where
  "changeField f d =
     (if HasPrefix (fd_Field d) ''environment.''
      then d\<lparr>fd_Desired := f (TrimPrefix (fd_Field d) ''environment.'') (fd_Desired d),
             fd_Live := f (TrimPrefix (fd_Field d) ''environment.'') (fd_Live d)\<rparr> else d)"

definition changeServiceDiff :: "(string \<Rightarrow> string \<Rightarrow> string) \<Rightarrow> ServiceDiff \<Rightarrow> ServiceDiff" where
  "changeServiceDiff f d =
     d\<lparr>Fields := map (changeField f) (Fields d),
       DesiredState := map_option (\<lambda>s. s\<lparr>sp_Environment := changeEnv f (sp_Environment s)\<rparr>) (DesiredState d),
       LiveState := map_option (\<lambda>s. s\<lparr>lv_Environment := changeEnv f (lv_Environment s)\<rparr>) (LiveState d)\<rparr>"

definition changeDiff :: "(string \<Rightarrow> string \<Rightarrow> string) \<Rightarrow> DiffResult \<Rightarrow> DiffResult" where
  "changeDiff f d =
     d\<lparr>ToCreate := map (changeServiceDiff f) (ToCreate d), ToUpdate := map (changeServiceDiff f) (ToUpdate d),
       ToRemove := map (changeServiceDiff f) (ToRemove d)\<rparr>"

lemma redactEnvironment_change:
  "(\<And>k v. f k v = [] \<longleftrightarrow> v = []) \<Longrightarrow> redactEnvironment (changeEnv f env) = redactEnvironment env"
  by (simp add: redactEnvironment_def changeEnv_def comp_def case_prod_beta redactValue_def)

lemma redactField_change:
  "(\<And>k v. f k v = [] \<longleftrightarrow> v = []) \<Longrightarrow> redactField (changeField f d) = redactField d"
  by (simp add: redactField_def changeField_def redactValue_def)

lemma redactServiceDiffs_change:
  assumes "\<And>k v. f k v = [] \<longleftrightarrow> v = []"
  shows "redactServiceDiffs (map (changeServiceDiff f) ds) = redactServiceDiffs ds"
  by (induction ds)
     (auto simp: redactServiceDiffs_def changeServiceDiff_def redactField_change [OF assms]
        redactEnvironment_change [OF assms] option.map_comp comp_def)

lemma redactServiceDiffs_idem [simp]: "redactServiceDiffs (redactServiceDiffs ds) = redactServiceDiffs ds"
  by (induction ds)
     (auto simp: redactServiceDiffs_def redactField_def option.map_comp comp_def)

text \<open>Every environment value that occurs in a list of service diffs, by any of its three routes.\<close>

definition envValues :: "ServiceDiff list \<Rightarrow> string set" where
  "envValues ds =
     (\<Union>d \<in> set ds.
        (\<Union>f \<in> {f \<in> set (Fields d). HasPrefix (fd_Field f) ''environment.''}. {fd_Desired f, fd_Live f})
      \<union> (case DesiredState d of None \<Rightarrow> {} | Some s \<Rightarrow> snd ` set (sp_Environment s))
      \<union> (case LiveState d of None \<Rightarrow> {} | Some s \<Rightarrow> snd ` set (lv_Environment s)))"

lemma envValues_redact: "envValues (redactServiceDiffs ds) \<subseteq> {[], RedactedValue}"
  unfolding envValues_def redactServiceDiffs_def
  by (auto simp: redactField_def redactEnvironment_def redactValue_def split: option.splits if_splits)

section \<open>Properties\<close>

text \<open>
  C2: A redacted diff reveals no environment value. Every environment value left in it, in a field
  diff or in a desired or live state, is empty or the marker \<^verbatim>\<open>"[REDACTED]"\<close>, and changing the
  non-empty environment values of the diff in any way does not change its redaction. The verdict, the
  summary and the services named are kept.
\<close>

theorem RedactDiff_hides_environment:
  assumes "\<And>k v. f k v = [] \<longleftrightarrow> v = []"
  shows "RedactDiffResult (changeDiff f d) = RedactDiffResult d
    \<and> envValues (ToCreate (RedactDiffResult d) @ ToUpdate (RedactDiffResult d) @ ToRemove (RedactDiffResult d))
        \<subseteq> {[], RedactedValue}
    \<and> InSync (RedactDiffResult d) = InSync d \<and> Summary (RedactDiffResult d) = Summary d
    \<and> map ServiceName (ToUpdate (RedactDiffResult d)) = map ServiceName (ToUpdate d)
    \<and> RedactDiffResult (RedactDiffResult d) = RedactDiffResult d"
proof -
  have "RedactDiffResult (changeDiff f d) = RedactDiffResult d"
    by (simp add: RedactDiffResult_def changeDiff_def redactServiceDiffs_change [OF assms])
  moreover have "envValues (redactServiceDiffs xs @ redactServiceDiffs ys @ redactServiceDiffs zs)
      \<subseteq> {[], RedactedValue}" for xs ys zs
    using envValues_redact [of "xs @ ys @ zs"] by (simp add: redactServiceDiffs_def)
  ultimately show ?thesis
    by (simp add: RedactDiffResult_def) (simp add: redactServiceDiffs_def comp_def)
qed

definition demoEnvDiff :: DiffResult where
  "demoEnvDiff = \<lparr>InSync = False, ToCreate = [],
     ToUpdate = [\<lparr>ServiceName = ''web'', ChangeKind = ChangeUpdate,
       Fields = [\<lparr>fd_Field = ''environment.TOKEN'', fd_Desired = ''s3cret'', fd_Live = ''old''\<rparr>],
       DesiredState = None, LiveState = None\<rparr>],
     ToRemove = [], Summary = ''1 to update (web: environment.TOKEN)''\<rparr>"

theorem RedactDiff_hides_environment_witness:
  "RedactDiffResult (changeDiff (\<lambda>k v. if v = [] then [] else ''changed'') demoEnvDiff) = RedactDiffResult demoEnvDiff
   \<and> map (map fd_Desired \<circ> Fields) (ToUpdate (RedactDiffResult demoEnvDiff)) = [[''[REDACTED]'']]"
proof
  show "RedactDiffResult (changeDiff (\<lambda>k v. if v = [] then [] else ''changed'') demoEnvDiff) = RedactDiffResult demoEnvDiff"
    using RedactDiff_hides_environment [of "\<lambda>k v. if v = [] then [] else ''changed''" demoEnvDiff] by simp
qed code_simp

end
