(* ===== verification/Effects.thy ===== *)
theory Effects
  imports Redact
begin

text \<open>
  The outside world. Everything the controller asks of the outside (the Docker CLI and API, Git, the
  compose parser's files, the database engine, notification receivers) is an event of a trace that
  holds the request and its answer. What the outside answers is an arbitrary function of the trace so
  far, a field of the record \<open>Env\<close>: an environment may fail any call, answer the same request
  differently later, or let a context expire at any point. A property proved for every environment
  and every trace holds whatever the outside does.
\<close>

section \<open>Requests\<close>

text \<open>An \<^verbatim>\<open>exec.Cmd\<close>: the arguments, the directory (empty: inherited) and the environment (nil: inherited).\<close>

record Command =
  cmd_Args :: "string list"
  cmd_Dir :: string
  cmd_Env :: "string list option"

text \<open>The \<^verbatim>\<open>Data\<close> of notifications and of events on the bus.\<close>

datatype EventData = NoData | DataSync SyncResult | DataHealth HealthStatus | DataFields "(string \<times> string) list"

record NotificationEvent =
  ne_Type :: string
  ne_AppName :: string
  ne_Message :: err
  ne_Data :: EventData

record BusEvent =
  be_Type :: string
  be_AppName :: string
  be_Data :: EventData

text \<open>How a wait ends: its context is done, or its deadline timer fires.\<close>

datatype StopEvent = CtxDone err | TimerFired

datatype event =
    Ran Command "err option"
  | Inspected DestinationSpec "ServiceState list result"
  | GitSynced SourceSpec "string result"
  | CheckedOut string string "err option"
  | Parsed string "string list" "ComposeSpec option result"
  | Queried string "err option"
  | Notified NotificationEvent "err option"
  | Broadcasted BusEvent
  | Stopped StopEvent

type_synonym trace = "event list"

section \<open>The environment\<close>

text \<open>
  \<open>e_ticks\<close> is the number of ticks that a wait starting at this trace receives before its context or
  its timer is selected; it is finite because the timer fires. \<open>e_ctxErr\<close> is \<^verbatim>\<open>ctx.Err()\<close> of the
  running operation. The codec is the encoding of manifests, service lists and diffs as JSON text.
\<close>

record Codec =
  unmarshalApp :: "string \<Rightarrow> Application result"
  marshalApp :: "Application \<Rightarrow> string"
  unmarshalServices :: "string \<Rightarrow> ServiceStatus list result"
  marshalServices :: "ServiceStatus list \<Rightarrow> string"
  marshalDiff :: "DiffResult \<Rightarrow> string"

record Env =
  e_environ :: "string list"
  e_run :: "trace \<Rightarrow> Command \<Rightarrow> (err \<times> string) option"
  e_inspect :: "trace \<Rightarrow> DestinationSpec \<Rightarrow> ServiceState list result"
  e_sync :: "trace \<Rightarrow> SourceSpec \<Rightarrow> string result"
  e_checkout :: "trace \<Rightarrow> string \<Rightarrow> string \<Rightarrow> err option"
  e_repoPath :: "trace \<Rightarrow> string \<Rightarrow> string"
  e_parse :: "trace \<Rightarrow> string \<Rightarrow> string list \<Rightarrow> ComposeSpec option result"
  e_dbErr :: "trace \<Rightarrow> err option"
  e_notify :: "trace \<Rightarrow> NotificationEvent \<Rightarrow> err option"
  e_now :: "trace \<Rightarrow> time"
  e_uuid :: "trace \<Rightarrow> string"
  e_ctxErr :: "trace \<Rightarrow> err option"
  e_ticks :: "trace \<Rightarrow> nat"
  e_stop :: "trace \<Rightarrow> StopEvent"
  e_tls :: "(string \<Rightarrow> string) option"
  e_net :: NetLib
  e_codec :: Codec

text \<open>\<^verbatim>\<open>StateInspector.Inspect\<close>.\<close>

definition Inspect :: "Env \<Rightarrow> DestinationSpec \<Rightarrow> trace \<Rightarrow> ServiceState list result \<times> trace" where
  "Inspect env dest t = (e_inspect env t dest, t @ [Inspected dest (e_inspect env t dest)])"

section \<open>Traces\<close>

text \<open>An operation only appends to the trace: \<open>grows P t t'\<close> when it appended events that satisfy \<open>P\<close>.\<close>

definition grows :: "(event \<Rightarrow> bool) \<Rightarrow> trace \<Rightarrow> trace \<Rightarrow> bool" where
  "grows P t t' \<longleftrightarrow> (\<exists>es. t' = t @ es \<and> list_all P es)"

named_theorems grow \<open>what an operation appends to the trace\<close>

lemma grows_refl [simp, grow]: "grows P t t"
  by (simp add: grows_def)

lemma grows_snoc [simp, grow]: "grows P t (t @ [e]) \<longleftrightarrow> P e"
  by (auto simp: grows_def)

lemma grows_trans [trans]: "grows P t t' \<Longrightarrow> grows P t' t'' \<Longrightarrow> grows P t t''"
  by (auto simp: grows_def)

lemma grows_mono: "grows P t t' \<Longrightarrow> (\<And>e. P e \<Longrightarrow> Q e) \<Longrightarrow> grows Q t t'"
  by (auto simp: grows_def list_all_iff)

lemma grows_append_iff [simp]: "grows P t (t @ es) \<longleftrightarrow> list_all P es"
  by (auto simp: grows_def)

lemma growsD: "grows P t t' \<Longrightarrow> t' = t @ drop (length t) t' \<and> list_all P (drop (length t) t')"
  by (auto simp: grows_def)

text \<open>The commands run since a trace.\<close>

fun commandsOf :: "trace \<Rightarrow> Command list" where
  "commandsOf [] = []"
| "commandsOf (Ran c r # es) = c # commandsOf es"
| "commandsOf (e # es) = commandsOf es"

lemma commandsOf_append [simp]: "commandsOf (es @ fs) = commandsOf es @ commandsOf fs"
  by (induction es rule: commandsOf.induct) auto

lemma commandsOf_set: "c \<in> set (commandsOf es) \<longleftrightarrow> (\<exists>r. Ran c r \<in> set es)"
  by (induction es rule: commandsOf.induct) auto

section \<open>A concrete environment\<close>

text \<open>Every call succeeds; the live services are given by a function of the commands run so far.\<close>

definition demoCodec :: Codec where
  "demoCodec = \<lparr>unmarshalApp = (\<lambda>s. Inr demoApplication), marshalApp = (\<lambda>a. ''{}''),
     unmarshalServices = (\<lambda>s. Inr []), marshalServices = (\<lambda>xs. ''[]''), marshalDiff = (\<lambda>d. ''{}'')\<rparr>"

definition demoEnv :: "(Command list \<Rightarrow> string \<Rightarrow> ServiceState list) \<Rightarrow> ServiceSpec list \<Rightarrow> Env" where
  "demoEnv live services = \<lparr>e_environ = [], e_run = (\<lambda>t c. None),
     e_inspect = (\<lambda>t d. Inr (live (commandsOf t) (ProjectName d))),
     e_sync = (\<lambda>t s. Inr ''4f2a''), e_checkout = (\<lambda>t u s. None), e_repoPath = (\<lambda>t u. ''/data/git/infra''),
     e_parse = (\<lambda>t d fs. Inr (Some \<lparr>cs_Services = services, cs_Networks = [], cs_Volumes = []\<rparr>)),
     e_dbErr = (\<lambda>t. None), e_notify = (\<lambda>t n. None), e_now = (\<lambda>t. int (length t)), e_uuid = (\<lambda>t. Itoa (length t)),
     e_ctxErr = (\<lambda>t. None), e_ticks = (\<lambda>t. 2), e_stop = (\<lambda>t. TimerFired), e_tls = None, e_net = demoNet,
     e_codec = demoCodec\<rparr>"

end
