(* ===== verification/Store.thy ===== *)
theory Store
  imports Effects
begin

text \<open>
  The persistent store (\<^verbatim>\<open>src/src/internal/store/records.go\<close>, \<^verbatim>\<open>queries.go\<close>): its tables as lists of
  records, each method as the statement it executes, and the invariants of the schema
  (\<^verbatim>\<open>src/src/internal/store/migrations\<close>): unique names and the foreign keys with their cascades. A
  statement can fail for a reason of the engine at any time; it then changes nothing.
\<close>

section \<open>Records\<close>

text \<open>
  A nullable column and its empty value are the same for every reader; error texts are messages
  (\<^const>\<open>None\<close> for the empty one) and the status columns hold the constants of the program.
\<close>

record ApplicationRecord =
  ar_ID :: string
  ar_Name :: string
  ar_Manifest :: string
  ar_Source :: string
  ar_SyncStatus :: SyncStatus
  ar_HealthStatus :: HealthStatus
  ar_LastSyncedSHA :: string
  ar_HeadSHA :: string
  ar_LastSyncTime :: "time option"
  ar_LastObservationTime :: "time option"
  ar_LastObservedHealthStatus :: "HealthStatus option"
  ar_LastError :: "err option"
  ar_ServicesJSON :: string
  ar_ConditionsJSON :: string
  ar_CreatedAt :: time
  ar_UpdatedAt :: time

record ApplicationStatusSummary =
  sum_Name :: string
  sum_SyncStatus :: SyncStatus
  sum_HealthStatus :: HealthStatus
  sum_LastSyncedSHA :: string
  sum_HeadSHA :: string
  sum_LastSyncTime :: "time option"
  sum_LastObservationTime :: "time option"
  sum_LastObservedHealthStatus :: "HealthStatus option"

text \<open>\<^const>\<open>None\<close> (or the empty string) leaves a column as it is; \<open>Some None\<close> clears the error.\<close>

record StatusUpdate =
  su_SyncStatus :: "SyncStatus option"
  su_HealthStatus :: "HealthStatus option"
  su_LastSyncedSHA :: string
  su_HeadSHA :: string
  su_LastSyncTime :: "time option"
  su_LastError :: "err option option"
  su_ServicesJSON :: string
  su_ConditionsJSON :: string

definition noUpdate :: StatusUpdate where
  "noUpdate = \<lparr>su_SyncStatus = None, su_HealthStatus = None, su_LastSyncedSHA = [], su_HeadSHA = [],
     su_LastSyncTime = None, su_LastError = None, su_ServicesJSON = [], su_ConditionsJSON = []\<rparr>"

record SyncRecord =
  sy_ID :: string
  sy_AppName :: string
  sy_StartedAt :: time
  sy_FinishedAt :: "time option"
  sy_CommitSHA :: string
  sy_Operation :: SyncOperation
  sy_Result :: SyncResultStatus
  sy_DiffJSON :: string
  sy_ComposeSpecJSON :: string
  sy_Error :: "err option"
  sy_DurationMs :: int
  sy_CreatedAt :: time

record EventRecord =
  er_ID :: string
  er_AppName :: string
  er_Type :: string
  er_Message :: err
  er_Severity :: string
  er_DataJSON :: string
  er_CreatedAt :: time

record ActivityMetadata =
  am_AppName :: string
  am_Type :: string
  am_Severity :: string
  am_CreatedAt :: time

record DockerHostRecord =
  dh_ID :: string
  dh_Name :: string
  dh_URL :: string
  dh_TLSCertPath :: string
  dh_TLSVerify :: bool
  dh_HealthStatus :: string
  dh_LastCheck :: "time option"
  dh_LastError :: "err option"
  dh_InfoJSON :: string
  dh_StatsJSON :: string
  dh_CreatedAt :: time
  dh_UpdatedAt :: time

record HostStatusUpdate =
  hu_HealthStatus :: string
  hu_LastCheck :: "time option"
  hu_LastError :: "err option option"
  hu_InfoJSON :: string
  hu_StatsJSON :: string

record DB =
  db_apps :: "ApplicationRecord list"
  db_syncs :: "SyncRecord list"
  db_events :: "EventRecord list"
  db_hosts :: "DockerHostRecord list"

record World =
  w_trace :: trace
  w_db :: DB

section \<open>Statements\<close>

text \<open>
  A statement of the engine: it fails and changes nothing, or it applies \<open>f\<close> to the tables. A
  constraint violation is a failure of \<open>f\<close>.
\<close>

definition exec :: "Env \<Rightarrow> string \<Rightarrow> (DB \<Rightarrow> 'a result \<times> DB) \<Rightarrow> 'w World_scheme \<Rightarrow> 'a result \<times> 'w World_scheme" where
  "exec env stmt f w =
     (case e_dbErr env (w_trace w) of
        Some e \<Rightarrow> (Inl e, w\<lparr>w_trace := w_trace w @ [Queried stmt (Some e)]\<rparr>)
      | None \<Rightarrow> (case f (w_db w) of (r, db) \<Rightarrow> (r, w\<lparr>w_trace := w_trace w @ [Queried stmt None], w_db := db\<rparr>)))"

text \<open>\<^verbatim>\<open>SELECT ... WHERE key = ?\<close>, \<^verbatim>\<open>UPDATE ... WHERE key = ?\<close> (with the rows affected), \<^verbatim>\<open>DELETE ... WHERE key = ?\<close>.\<close>

definition selectRow :: "('r \<Rightarrow> string) \<Rightarrow> string \<Rightarrow> 'r list \<Rightarrow> 'r option" where
  "selectRow key k rows = find (\<lambda>r. key r = k) rows"

definition updateRows :: "('r \<Rightarrow> string) \<Rightarrow> string \<Rightarrow> ('r \<Rightarrow> 'r) \<Rightarrow> 'r list \<Rightarrow> 'r list" where
  "updateRows key k f rows = map (\<lambda>r. if key r = k then f r else r) rows"

definition deleteRows :: "('r \<Rightarrow> string) \<Rightarrow> string \<Rightarrow> 'r list \<Rightarrow> 'r list" where
  "deleteRows key k rows = filter (\<lambda>r. key r \<noteq> k) rows"

definition rowsAffected :: "('r \<Rightarrow> string) \<Rightarrow> string \<Rightarrow> 'r list \<Rightarrow> nat" where
  "rowsAffected key k rows = length (filter (\<lambda>r. key r = k) rows)"

abbreviation constraintFailed :: err where
  "constraintFailed \<equiv> Errorf ''constraint failed'' []"

definition wrapErr :: "(err \<Rightarrow> err) \<Rightarrow> 'a result \<times> 'w \<Rightarrow> 'a result \<times> 'w" where
  "wrapErr f rw = (case rw of (Inl e, w) \<Rightarrow> (Inl (f e), w) | (Inr x, w) \<Rightarrow> (Inr x, w))"

section \<open>Applications\<close>

definition CreateApplication :: "Env \<Rightarrow> ApplicationRecord \<Rightarrow> 'w World_scheme \<Rightarrow> unit result \<times> 'w World_scheme" where
  "CreateApplication env app w =
     (let now = e_now env (w_trace w);
          rec = \<lparr>ar_ID = (if ar_ID app = [] then e_uuid env (w_trace w) else ar_ID app), ar_Name = ar_Name app,
                 ar_Manifest = ar_Manifest app, ar_Source = (if ar_Source app = [] then ''api'' else ar_Source app),
                 ar_SyncStatus = ar_SyncStatus app, ar_HealthStatus = ar_HealthStatus app, ar_LastSyncedSHA = [],
                 ar_HeadSHA = [], ar_LastSyncTime = None, ar_LastObservationTime = None,
                 ar_LastObservedHealthStatus = None, ar_LastError = None, ar_ServicesJSON = [], ar_ConditionsJSON = [],
                 ar_CreatedAt = now, ar_UpdatedAt = now\<rparr>
      in wrapErr (Wrapf ''creating application %q: %w'' [ar_Name app])
           (exec env ''CreateApplication'' (\<lambda>db.
              if list_ex (\<lambda>r. ar_Name r = ar_Name rec \<or> ar_ID r = ar_ID rec) (db_apps db) then (Inl constraintFailed, db)
              else (Inr (), db\<lparr>db_apps := db_apps db @ [rec]\<rparr>)) w))"

definition GetApplication :: "Env \<Rightarrow> string \<Rightarrow> 'w World_scheme \<Rightarrow> ApplicationRecord option result \<times> 'w World_scheme" where
  "GetApplication env name w =
     wrapErr (Wrapf ''getting application %q: %w'' [name])
       (exec env ''GetApplication'' (\<lambda>db. (Inr (selectRow ar_Name name (db_apps db)), db)) w)"

definition statusSummary :: "ApplicationRecord \<Rightarrow> ApplicationStatusSummary" where
  "statusSummary r = \<lparr>sum_Name = ar_Name r, sum_SyncStatus = ar_SyncStatus r, sum_HealthStatus = ar_HealthStatus r,
     sum_LastSyncedSHA = ar_LastSyncedSHA r, sum_HeadSHA = ar_HeadSHA r, sum_LastSyncTime = ar_LastSyncTime r,
     sum_LastObservationTime = ar_LastObservationTime r, sum_LastObservedHealthStatus = ar_LastObservedHealthStatus r\<rparr>"

definition GetApplicationStatusSummary ::
    "Env \<Rightarrow> string \<Rightarrow> 'w World_scheme \<Rightarrow> ApplicationStatusSummary option result \<times> 'w World_scheme" where
  "GetApplicationStatusSummary env name w =
     wrapErr (Wrapf ''getting application status summary %q: %w'' [name])
       (exec env ''GetApplicationStatusSummary''
          (\<lambda>db. (Inr (map_option statusSummary (selectRow ar_Name name (db_apps db))), db)) w)"

text \<open>\<^verbatim>\<open>ORDER BY CASE WHEN name = 'dockercd' THEN 0 ELSE 1 END, name\<close>.\<close>

definition orderApplications :: "ApplicationRecord list \<Rightarrow> ApplicationRecord list" where
  "orderApplications rows =
     (let sorted = sort_key ar_Name rows
      in filter (\<lambda>r. ar_Name r = ''dockercd'') sorted @ filter (\<lambda>r. ar_Name r \<noteq> ''dockercd'') sorted)"

definition ListApplications :: "Env \<Rightarrow> 'w World_scheme \<Rightarrow> ApplicationRecord list result \<times> 'w World_scheme" where
  "ListApplications env w =
     wrapErr (Wrapf ''listing applications: %w'' [])
       (exec env ''ListApplications'' (\<lambda>db. (Inr (orderApplications (db_apps db)), db)) w)"

text \<open>The columns an update sets.\<close>

definition applyStatus :: "StatusUpdate \<Rightarrow> time \<Rightarrow> ApplicationRecord \<Rightarrow> ApplicationRecord" where
  "applyStatus u now r = r\<lparr>
     ar_SyncStatus := (case su_SyncStatus u of None \<Rightarrow> ar_SyncStatus r | Some s \<Rightarrow> s),
     ar_HealthStatus := (case su_HealthStatus u of None \<Rightarrow> ar_HealthStatus r | Some h \<Rightarrow> h),
     ar_LastSyncedSHA := (if su_LastSyncedSHA u \<noteq> [] then su_LastSyncedSHA u else ar_LastSyncedSHA r),
     ar_HeadSHA := (if su_HeadSHA u \<noteq> [] then su_HeadSHA u else ar_HeadSHA r),
     ar_LastSyncTime := (case su_LastSyncTime u of None \<Rightarrow> ar_LastSyncTime r | Some t \<Rightarrow> Some t),
     ar_LastError := (case su_LastError u of None \<Rightarrow> ar_LastError r | Some e \<Rightarrow> e),
     ar_ServicesJSON := (if su_ServicesJSON u \<noteq> [] then su_ServicesJSON u else ar_ServicesJSON r),
     ar_ConditionsJSON := (if su_ConditionsJSON u \<noteq> [] then su_ConditionsJSON u else ar_ConditionsJSON r),
     ar_UpdatedAt := now\<rparr>"

definition isNoUpdate :: "StatusUpdate \<Rightarrow> bool" where
  "isNoUpdate u = (su_SyncStatus u = None \<and> su_HealthStatus u = None \<and> su_LastSyncedSHA u = [] \<and> su_HeadSHA u = []
     \<and> su_LastSyncTime u = None \<and> su_LastError u = None \<and> su_ServicesJSON u = [] \<and> su_ConditionsJSON u = [])"

definition UpdateApplicationStatus :: "Env \<Rightarrow> string \<Rightarrow> StatusUpdate \<Rightarrow> 'w World_scheme \<Rightarrow> unit result \<times> 'w World_scheme" where
  "UpdateApplicationStatus env name update w =
     (if isNoUpdate update then (Inr (), w)
      else let now = e_now env (w_trace w)
           in case exec env ''UpdateApplicationStatus'' (\<lambda>db. (Inr (rowsAffected ar_Name name (db_apps db)),
                   db\<lparr>db_apps := updateRows ar_Name name (applyStatus update now) (db_apps db)\<rparr>)) w of
                (Inl e, w) \<Rightarrow> (Inl (Wrapf ''updating application %q: %w'' [name] e), w)
              | (Inr rows, w) \<Rightarrow> (if rows = 0 then Inl (Errorf ''application %q not found'' [name]) else Inr (), w))"

definition applyObservation :: "HealthStatus \<Rightarrow> string \<Rightarrow> time \<Rightarrow> time \<Rightarrow> ApplicationRecord \<Rightarrow> ApplicationRecord" where
  "applyObservation health services observedAt now r = r\<lparr>ar_HealthStatus := health, ar_LastObservedHealthStatus := Some health,
     ar_ServicesJSON := services, ar_LastObservationTime := Some observedAt, ar_UpdatedAt := now\<rparr>"

definition RecordHealthObservation :: "Env \<Rightarrow> string \<Rightarrow> time \<Rightarrow> HealthStatus \<Rightarrow> string \<Rightarrow> time
    \<Rightarrow> 'w World_scheme \<Rightarrow> bool result \<times> 'w World_scheme" where
  "RecordHealthObservation env name expectedUpdatedAt health services observedAt w =
     (let now = e_now env (w_trace w)
      in wrapErr (Wrapf ''recording health observation for %q: %w'' [name])
           (exec env ''RecordHealthObservation'' (\<lambda>db.
              (Inr (length (filter (\<lambda>r. ar_Name r = name \<and> ar_UpdatedAt r = expectedUpdatedAt) (db_apps db)) = 1),
               db\<lparr>db_apps := map (\<lambda>r. if ar_Name r = name \<and> ar_UpdatedAt r = expectedUpdatedAt
                                       then applyObservation health services observedAt now r else r) (db_apps db)\<rparr>)) w))"

definition UpdateManifest :: "Env \<Rightarrow> string \<Rightarrow> string \<Rightarrow> 'w World_scheme \<Rightarrow> unit result \<times> 'w World_scheme" where
  "UpdateManifest env name manifest w =
     (let now = e_now env (w_trace w)
      in wrapErr (Wrapf ''updating manifest for %q: %w'' [name])
           (exec env ''UpdateManifest'' (\<lambda>db. (Inr (),
              db\<lparr>db_apps := updateRows ar_Name name (\<lambda>r. r\<lparr>ar_Manifest := manifest, ar_UpdatedAt := now\<rparr>) (db_apps db)\<rparr>)) w))"

definition SetApplicationSource :: "Env \<Rightarrow> string \<Rightarrow> string \<Rightarrow> 'w World_scheme \<Rightarrow> unit result \<times> 'w World_scheme" where
  "SetApplicationSource env name source w =
     (let now = e_now env (w_trace w)
      in wrapErr (Wrapf ''setting application source %q: %w'' [name])
           (exec env ''SetApplicationSource'' (\<lambda>db. (Inr (),
              db\<lparr>db_apps := updateRows ar_Name name (\<lambda>r. r\<lparr>ar_Source := source, ar_UpdatedAt := now\<rparr>) (db_apps db)\<rparr>)) w))"

text \<open>The deletion cascades to the history and the events of the application.\<close>

definition DeleteApplication :: "Env \<Rightarrow> string \<Rightarrow> 'w World_scheme \<Rightarrow> unit result \<times> 'w World_scheme" where
  "DeleteApplication env name w =
     (case exec env ''DeleteApplication'' (\<lambda>db. (Inr (rowsAffected ar_Name name (db_apps db)),
             db\<lparr>db_apps := deleteRows ar_Name name (db_apps db),
                db_syncs := (if rowsAffected ar_Name name (db_apps db) > 0 then deleteRows sy_AppName name (db_syncs db) else db_syncs db),
                db_events := (if rowsAffected ar_Name name (db_apps db) > 0 then deleteRows er_AppName name (db_events db) else db_events db)\<rparr>)) w of
        (Inl e, w) \<Rightarrow> (Inl (Wrapf ''deleting application %q: %w'' [name] e), w)
      | (Inr rows, w) \<Rightarrow> (if rows = 0 then Inl (Errorf ''application %q not found'' [name]) else Inr (), w))"

section \<open>Sync history\<close>

text \<open>
  \<^verbatim>\<open>ORDER BY started_at DESC\<close>; rows with equal times keep the order of insertion here, where SQL
  leaves it open.
\<close>

definition latestFirst :: "('r \<Rightarrow> time) \<Rightarrow> 'r list \<Rightarrow> 'r list" where
  "latestFirst at rows = sort_key (\<lambda>r. - at r) rows"

text \<open>The reference to \<^verbatim>\<open>applications\<close> is a foreign key: a record of an unknown application is refused.\<close>

definition RecordSync :: "Env \<Rightarrow> SyncRecord \<Rightarrow> 'w World_scheme \<Rightarrow> unit result \<times> 'w World_scheme" where
  "RecordSync env record w =
     (let rec = record\<lparr>sy_ID := (if sy_ID record = [] then e_uuid env (w_trace w) else sy_ID record),
                       sy_CreatedAt := e_now env (w_trace w), sy_ComposeSpecJSON := []\<rparr>
      in wrapErr (Wrapf ''recording sync for %q: %w'' [sy_AppName record])
           (exec env ''RecordSync'' (\<lambda>db.
              if selectRow ar_Name (sy_AppName rec) (db_apps db) = None \<or> sy_ID rec \<in> sy_ID ` set (db_syncs db)
              then (Inl constraintFailed, db)
              else (Inr (), db\<lparr>db_syncs := db_syncs db @ [rec]\<rparr>)) w))"

definition hideSnapshot :: "SyncRecord \<Rightarrow> SyncRecord" where
  "hideSnapshot r = r\<lparr>sy_ComposeSpecJSON := []\<rparr>"

definition ListSyncHistory :: "Env \<Rightarrow> string \<Rightarrow> int \<Rightarrow> 'w World_scheme \<Rightarrow> SyncRecord list result \<times> 'w World_scheme" where
  "ListSyncHistory env appName limit w =
     (let lim = nat (if limit \<le> 0 then 20 else limit)
      in wrapErr (Wrapf ''listing sync history for %q: %w'' [appName])
           (exec env ''ListSyncHistory'' (\<lambda>db.
              (Inr (map hideSnapshot (take lim (latestFirst sy_StartedAt (filter (\<lambda>r. sy_AppName r = appName) (db_syncs db))))), db)) w))"

definition ListRecentSyncHistory :: "Env \<Rightarrow> int \<Rightarrow> 'w World_scheme \<Rightarrow> SyncRecord list gomap result \<times> 'w World_scheme" where
  "ListRecentSyncHistory env perApp w =
     (let n = nat (if perApp \<le> 0 then 5 else perApp)
      in wrapErr (Wrapf ''listing recent sync history: %w'' [])
           (exec env ''ListRecentSyncHistory'' (\<lambda>db.
              (Inr (map (\<lambda>a. (a, map hideSnapshot (take n (latestFirst sy_StartedAt (filter (\<lambda>r. sy_AppName r = a) (db_syncs db))))))
                      (sort (remdups (map sy_AppName (db_syncs db))))), db)) w))"

definition GetSyncBySHA :: "Env \<Rightarrow> string \<Rightarrow> string \<Rightarrow> 'w World_scheme \<Rightarrow> SyncRecord option result \<times> 'w World_scheme" where
  "GetSyncBySHA env appName sha w =
     wrapErr (Wrapf ''getting sync record for %q sha %q: %w'' [appName, sha])
       (exec env ''GetSyncBySHA'' (\<lambda>db.
          (Inr (case latestFirst sy_StartedAt (filter (\<lambda>r. sy_AppName r = appName \<and> sy_CommitSHA r = sha) (db_syncs db)) of
                  [] \<Rightarrow> None | r # rs \<Rightarrow> Some (hideSnapshot r)), db)) w)"

definition keptSyncIDs :: "nat \<Rightarrow> SyncRecord list \<Rightarrow> string set" where
  "keptSyncIDs n rows = (\<Union>a \<in> sy_AppName ` set rows.
     sy_ID ` set (take n (latestFirst sy_StartedAt (filter (\<lambda>r. sy_AppName r = a) rows))))"

definition PruneSyncHistory :: "Env \<Rightarrow> nat \<Rightarrow> 'w World_scheme \<Rightarrow> nat result \<times> 'w World_scheme" where
  "PruneSyncHistory env maxPerApp w =
     wrapErr (Wrapf ''pruning sync history: %w'' [])
       (exec env ''PruneSyncHistory'' (\<lambda>db.
          (Inr (length (filter (\<lambda>r. sy_ID r \<notin> keptSyncIDs maxPerApp (db_syncs db)) (db_syncs db))),
           db\<lparr>db_syncs := filter (\<lambda>r. sy_ID r \<in> keptSyncIDs maxPerApp (db_syncs db)) (db_syncs db)\<rparr>)) w)"

section \<open>Events\<close>

definition RecordEvent :: "Env \<Rightarrow> EventRecord \<Rightarrow> 'w World_scheme \<Rightarrow> unit result \<times> 'w World_scheme" where
  "RecordEvent env ev w =
     (let rec = ev\<lparr>er_ID := (if er_ID ev = [] then e_uuid env (w_trace w) else er_ID ev),
                   er_Severity := (if er_Severity ev = [] then ''info'' else er_Severity ev),
                   er_CreatedAt := e_now env (w_trace w)\<rparr>
      in wrapErr (Wrapf ''recording event for %q: %w'' [er_AppName ev])
           (exec env ''RecordEvent'' (\<lambda>db.
              if selectRow ar_Name (er_AppName rec) (db_apps db) = None \<or> er_ID rec \<in> er_ID ` set (db_events db)
              then (Inl constraintFailed, db)
              else (Inr (), db\<lparr>db_events := db_events db @ [rec]\<rparr>)) w))"

definition ListEvents :: "Env \<Rightarrow> string \<Rightarrow> int \<Rightarrow> 'w World_scheme \<Rightarrow> EventRecord list result \<times> 'w World_scheme" where
  "ListEvents env appName limit w =
     (let lim = nat (if limit \<le> 0 then 50 else limit)
      in wrapErr (Wrapf ''listing events for %q: %w'' [appName])
           (exec env ''ListEvents'' (\<lambda>db.
              (Inr (take lim (latestFirst er_CreatedAt (filter (\<lambda>r. er_AppName r = appName) (db_events db)))), db)) w))"

definition activityOf :: "EventRecord \<Rightarrow> ActivityMetadata" where
  "activityOf r = \<lparr>am_AppName = er_AppName r, am_Type = er_Type r, am_Severity = er_Severity r, am_CreatedAt = er_CreatedAt r\<rparr>"

text \<open>\<^verbatim>\<open>ORDER BY created_at DESC, id DESC\<close>, within each application and over the union of the branches.\<close>

definition recentEvents :: "EventRecord list \<Rightarrow> EventRecord list" where
  "recentEvents rows = latestFirst er_CreatedAt (rev (sort_key er_ID rows))"

fun dedupNames :: "string list \<Rightarrow> string list \<Rightarrow> string list" where
  "dedupNames seen [] = []"
| "dedupNames seen (n # ns) = (if n \<in> set seen then dedupNames seen ns else n # dedupNames (n # seen) ns)"

definition ListEventsForApplications :: "Env \<Rightarrow> string list \<Rightarrow> int \<Rightarrow> 'w World_scheme
    \<Rightarrow> ActivityMetadata list result \<times> 'w World_scheme" where
  "ListEventsForApplications env appNames limit w =
     (if appNames = [] \<or> limit \<le> 0 then (Inr [], w)
      else let branches = dedupNames [] appNames; lim = nat limit
           in wrapErr (Wrapf ''listing application events: %w'' [])
                (exec env ''ListEventsForApplications'' (\<lambda>db.
                   (Inr (map activityOf (take lim (recentEvents (concat (map (\<lambda>a.
                      take lim (recentEvents (filter (\<lambda>r. er_AppName r = a) (db_events db)))) branches))))), db)) w))"

definition PruneOldEvents :: "Env \<Rightarrow> duration \<Rightarrow> 'w World_scheme \<Rightarrow> nat result \<times> 'w World_scheme" where
  "PruneOldEvents env maxAge w =
     (let cutoff = e_now env (w_trace w) - maxAge
      in wrapErr (Wrapf ''pruning old events: %w'' [])
           (exec env ''PruneOldEvents'' (\<lambda>db.
              (Inr (length (filter (\<lambda>r. er_CreatedAt r < cutoff) (db_events db))),
               db\<lparr>db_events := filter (\<lambda>r. \<not> er_CreatedAt r < cutoff) (db_events db)\<rparr>)) w))"

section \<open>Docker hosts\<close>

definition CreateDockerHost :: "Env \<Rightarrow> DockerHostRecord \<Rightarrow> 'w World_scheme \<Rightarrow> unit result \<times> 'w World_scheme" where
  "CreateDockerHost env host w =
     (let now = e_now env (w_trace w);
          rec = host\<lparr>dh_ID := (if dh_ID host = [] then e_uuid env (w_trace w) else dh_ID host),
                     dh_HealthStatus := (if dh_HealthStatus host = [] then ''Unknown'' else dh_HealthStatus host),
                     dh_LastCheck := None, dh_LastError := None, dh_InfoJSON := [], dh_StatsJSON := [],
                     dh_CreatedAt := now, dh_UpdatedAt := now\<rparr>
      in wrapErr (Wrapf ''creating docker host %q: %w'' [dh_Name host])
           (exec env ''CreateDockerHost'' (\<lambda>db.
              if list_ex (\<lambda>r. dh_ID r = dh_ID rec \<or> dh_Name r = dh_Name rec \<or> dh_URL r = dh_URL rec) (db_hosts db)
              then (Inl constraintFailed, db)
              else (Inr (), db\<lparr>db_hosts := db_hosts db @ [rec]\<rparr>)) w))"

definition GetDockerHost :: "Env \<Rightarrow> string \<Rightarrow> 'w World_scheme \<Rightarrow> DockerHostRecord option result \<times> 'w World_scheme" where
  "GetDockerHost env name w = wrapErr (Wrapf ''scanning docker host: %w'' [])
     (exec env ''GetDockerHost'' (\<lambda>db. (Inr (selectRow dh_Name name (db_hosts db)), db)) w)"

definition GetDockerHostByURL :: "Env \<Rightarrow> string \<Rightarrow> 'w World_scheme \<Rightarrow> DockerHostRecord option result \<times> 'w World_scheme" where
  "GetDockerHostByURL env url w = wrapErr (Wrapf ''scanning docker host: %w'' [])
     (exec env ''GetDockerHostByURL'' (\<lambda>db. (Inr (selectRow dh_URL url (db_hosts db)), db)) w)"

definition ListDockerHosts :: "Env \<Rightarrow> 'w World_scheme \<Rightarrow> DockerHostRecord list result \<times> 'w World_scheme" where
  "ListDockerHosts env w = wrapErr (Wrapf ''listing docker hosts: %w'' [])
     (exec env ''ListDockerHosts'' (\<lambda>db. (Inr (sort_key dh_Name (db_hosts db)), db)) w)"

definition applyHostStatus :: "HostStatusUpdate \<Rightarrow> time \<Rightarrow> DockerHostRecord \<Rightarrow> DockerHostRecord" where
  "applyHostStatus u now r = r\<lparr>
     dh_HealthStatus := (if hu_HealthStatus u \<noteq> [] then hu_HealthStatus u else dh_HealthStatus r),
     dh_LastCheck := (case hu_LastCheck u of None \<Rightarrow> dh_LastCheck r | Some t \<Rightarrow> Some t),
     dh_LastError := (case hu_LastError u of None \<Rightarrow> dh_LastError r | Some e \<Rightarrow> e),
     dh_InfoJSON := (if hu_InfoJSON u \<noteq> [] then hu_InfoJSON u else dh_InfoJSON r),
     dh_StatsJSON := (if hu_StatsJSON u \<noteq> [] then hu_StatsJSON u else dh_StatsJSON r),
     dh_UpdatedAt := now\<rparr>"

definition UpdateDockerHostStatus :: "Env \<Rightarrow> string \<Rightarrow> HostStatusUpdate \<Rightarrow> 'w World_scheme \<Rightarrow> unit result \<times> 'w World_scheme" where
  "UpdateDockerHostStatus env name update w =
     (if hu_HealthStatus update = [] \<and> hu_LastCheck update = None \<and> hu_LastError update = None
         \<and> hu_InfoJSON update = [] \<and> hu_StatsJSON update = [] then (Inr (), w)
      else let now = e_now env (w_trace w)
           in case exec env ''UpdateDockerHostStatus'' (\<lambda>db. (Inr (rowsAffected dh_Name name (db_hosts db)),
                   db\<lparr>db_hosts := updateRows dh_Name name (applyHostStatus update now) (db_hosts db)\<rparr>)) w of
                (Inl e, w) \<Rightarrow> (Inl (Wrapf ''updating docker host %q: %w'' [name] e), w)
              | (Inr rows, w) \<Rightarrow> (if rows = 0 then Inl (Errorf ''docker host %q not found'' [name]) else Inr (), w))"

definition DeleteDockerHost :: "Env \<Rightarrow> string \<Rightarrow> 'w World_scheme \<Rightarrow> unit result \<times> 'w World_scheme" where
  "DeleteDockerHost env name w =
     (case exec env ''DeleteDockerHost'' (\<lambda>db. (Inr (rowsAffected dh_Name name (db_hosts db)),
             db\<lparr>db_hosts := deleteRows dh_Name name (db_hosts db)\<rparr>)) w of
        (Inl e, w) \<Rightarrow> (Inl (Wrapf ''deleting docker host %q: %w'' [name] e), w)
      | (Inr rows, w) \<Rightarrow> (if rows = 0 then Inl (Errorf ''docker host %q not found'' [name]) else Inr (), w))"

section \<open>Reading and writing rows\<close>

lemma selectRow_update:
  assumes "\<And>r. key (f r) = key r"
  shows "selectRow key m (updateRows key n f rows)
       = (if m = n then map_option f (selectRow key m rows) else selectRow key m rows)"
  using assms by (induction rows) (auto simp: selectRow_def updateRows_def)

lemma selectRow_delete:
  "selectRow key m (deleteRows key n rows) = (if m = n then None else selectRow key m rows)"
  by (induction rows) (auto simp: selectRow_def deleteRows_def)

lemma selectRow_Some: "selectRow key n rows = Some r \<Longrightarrow> r \<in> set rows \<and> key r = n"
  by (auto simp: selectRow_def find_Some_iff)

lemma selectRow_None: "selectRow key n rows = None \<longleftrightarrow> n \<notin> key ` set rows"
  by (auto simp: selectRow_def find_None_iff)

lemma selectRow_append:
  "selectRow key n (rows @ [r]) = (case selectRow key n rows of Some x \<Rightarrow> Some x | None \<Rightarrow> if key r = n then Some r else None)"
  by (induction rows) (auto simp: selectRow_def)

lemma rowsAffected_0: "rowsAffected key n rows = 0 \<longleftrightarrow> selectRow key n rows = None"
  by (auto simp: rowsAffected_def selectRow_None filter_empty_conv)

lemma map_updateRows:
  assumes "\<And>r. g (f r) = g r"
  shows "map g (updateRows key n f rows) = map g rows"
  using assms by (simp add: updateRows_def)

lemma wrapErr_snd [simp]: "snd (wrapErr f rw) = snd rw"
  by (cases rw; cases "fst rw") (auto simp: wrapErr_def split: sum.splits)

lemma wrapErr_Inr [simp]: "fst (wrapErr f rw) = Inr x \<longleftrightarrow> fst rw = Inr x"
  by (cases rw; cases "fst rw") (auto simp: wrapErr_def split: sum.splits)

text \<open>A statement extends the trace by itself and changes the tables as its function says, or not at all.\<close>

lemma exec_trace [simp]: "\<exists>r. w_trace (snd (exec env stmt f w)) = w_trace w @ [Queried stmt r]"
  by (auto simp: exec_def split: option.split prod.split)

lemma exec_db:
  "w_db (snd (exec env stmt f w)) = (if e_dbErr env (w_trace w) = None then snd (f (w_db w)) else w_db w)"
  by (auto simp: exec_def split: option.split prod.split)

lemma exec_more [simp]: "World.more (snd (exec env stmt f w)) = World.more w"
  by (auto simp: exec_def split: option.split prod.split)

lemma exec_fst: "e_dbErr env (w_trace w) = None \<Longrightarrow> fst (exec env stmt f w) = fst (f (w_db w))"
  by (auto simp: exec_def split: prod.split)

section \<open>The invariants of the schema\<close>

definition wf_db :: "DB \<Rightarrow> bool" where
  "wf_db db \<longleftrightarrow>
     distinct (map ar_Name (db_apps db)) \<and> distinct (map ar_ID (db_apps db))
   \<and> distinct (map sy_ID (db_syncs db)) \<and> distinct (map er_ID (db_events db))
   \<and> distinct (map dh_Name (db_hosts db)) \<and> distinct (map dh_URL (db_hosts db)) \<and> distinct (map dh_ID (db_hosts db))
   \<and> sy_AppName ` set (db_syncs db) \<subseteq> ar_Name ` set (db_apps db)
   \<and> er_AppName ` set (db_events db) \<subseteq> ar_Name ` set (db_apps db)
   \<and> (\<forall>r \<in> set (db_syncs db). sy_ComposeSpecJSON r = [])"

text \<open>Every operation that changes the store, as one step.\<close>

inductive store_step :: "Env \<Rightarrow> World \<Rightarrow> World \<Rightarrow> bool" for env where
  step_create: "store_step env w (snd (CreateApplication env a w))"
| step_status: "store_step env w (snd (UpdateApplicationStatus env n u w))"
| step_observation: "store_step env w (snd (RecordHealthObservation env n x h s obs w))"
| step_manifest: "store_step env w (snd (UpdateManifest env n m w))"
| step_source: "store_step env w (snd (SetApplicationSource env n src w))"
| step_delete: "store_step env w (snd (DeleteApplication env n w))"
| step_sync: "store_step env w (snd (RecordSync env sr w))"
| step_event: "store_step env w (snd (RecordEvent env er w))"
| step_prune_syncs: "store_step env w (snd (PruneSyncHistory env k w))"
| step_prune_events: "store_step env w (snd (PruneOldEvents env age w))"
| step_host_create: "store_step env w (snd (CreateDockerHost env h w))"
| step_host_status: "store_step env w (snd (UpdateDockerHostStatus env n hu w))"
| step_host_delete: "store_step env w (snd (DeleteDockerHost env n w))"

text \<open>The tables after a step are those of its statement's function, or unchanged.\<close>

lemma snd_case_result: "snd (case x of (Inl e, w) \<Rightarrow> (f e, w) | (Inr y, w) \<Rightarrow> (g y, w)) = snd x"
  by (cases x; cases "fst x") (auto split: sum.splits)

lemma wf_updateApps:
  assumes "wf_db db" "\<And>r. ar_Name (f r) = ar_Name r \<and> ar_ID (f r) = ar_ID r"
  shows "wf_db (db\<lparr>db_apps := map f (db_apps db)\<rparr>)"
proof -
  have "ar_Name \<circ> f = ar_Name" "ar_ID \<circ> f = ar_ID"
    using assms(2) by (simp_all add: fun_eq_iff)
  moreover have "ar_Name ` f ` set (db_apps db) = ar_Name ` set (db_apps db)"
    using assms(2) by (simp add: image_image)
  ultimately show ?thesis using assms(1) by (simp add: wf_db_def)
qed

lemma wf_updateRows_apps:
  assumes "wf_db db" "\<And>r. ar_Name (f r) = ar_Name r \<and> ar_ID (f r) = ar_ID r"
  shows "wf_db (db\<lparr>db_apps := updateRows ar_Name n f (db_apps db)\<rparr>)"
  unfolding updateRows_def by (rule wf_updateApps [OF assms(1)]) (simp add: assms(2))

lemma wf_updateRows_hosts:
  assumes "wf_db db" "\<And>r. dh_Name (f r) = dh_Name r \<and> dh_ID (f r) = dh_ID r \<and> dh_URL (f r) = dh_URL r"
  shows "wf_db (db\<lparr>db_hosts := updateRows dh_Name n f (db_hosts db)\<rparr>)"
proof -
  have "map g (updateRows dh_Name n f (db_hosts db)) = map g (db_hosts db)" if "\<And>r. g (f r) = g r" for g :: "DockerHostRecord \<Rightarrow> string"
    using that by (rule map_updateRows)
  then show ?thesis using assms by (simp add: wf_db_def)
qed

lemma applyStatus_frame [simp]:
  "ar_Name (applyStatus u now r) = ar_Name r" "ar_ID (applyStatus u now r) = ar_ID r"
  "ar_Manifest (applyStatus u now r) = ar_Manifest r" "ar_Source (applyStatus u now r) = ar_Source r"
  "ar_LastObservationTime (applyStatus u now r) = ar_LastObservationTime r"
  "ar_CreatedAt (applyStatus u now r) = ar_CreatedAt r"
  by (simp_all add: applyStatus_def)

lemma applyHostStatus_frame [simp]:
  "dh_Name (applyHostStatus u now r) = dh_Name r" "dh_ID (applyHostStatus u now r) = dh_ID r"
  "dh_URL (applyHostStatus u now r) = dh_URL r"
  by (simp_all add: applyHostStatus_def)

lemma applyObservation_frame [simp]:
  "ar_Name (applyObservation h s obs now r) = ar_Name r" "ar_ID (applyObservation h s obs now r) = ar_ID r"
  "ar_Manifest (applyObservation h s obs now r) = ar_Manifest r" "ar_Source (applyObservation h s obs now r) = ar_Source r"
  "ar_SyncStatus (applyObservation h s obs now r) = ar_SyncStatus r"
  "ar_LastSyncedSHA (applyObservation h s obs now r) = ar_LastSyncedSHA r"
  by (simp_all add: applyObservation_def)

lemma wf_deleteApp:
  assumes "wf_db db"
  shows "wf_db (db\<lparr>db_apps := deleteRows ar_Name n (db_apps db), db_syncs := deleteRows sy_AppName n (db_syncs db),
     db_events := deleteRows er_AppName n (db_events db)\<rparr>)"
  using assms by (auto simp: wf_db_def deleteRows_def distinct_map_filter)

lemma wf_insertApp:
  assumes "wf_db db" "\<not> list_ex (\<lambda>r. ar_Name r = ar_Name a \<or> ar_ID r = ar_ID a) (db_apps db)"
  shows "wf_db (db\<lparr>db_apps := db_apps db @ [a]\<rparr>)"
  using assms by (auto simp: wf_db_def list_ex_iff)

lemma wf_insertSync:
  assumes "wf_db db" "selectRow ar_Name (sy_AppName s) (db_apps db) \<noteq> None" "sy_ID s \<notin> sy_ID ` set (db_syncs db)"
    "sy_ComposeSpecJSON s = []"
  shows "wf_db (db\<lparr>db_syncs := db_syncs db @ [s]\<rparr>)"
  using assms by (auto simp: wf_db_def selectRow_None)

lemma wf_insertEvent:
  assumes "wf_db db" "selectRow ar_Name (er_AppName s) (db_apps db) \<noteq> None" "er_ID s \<notin> er_ID ` set (db_events db)"
  shows "wf_db (db\<lparr>db_events := db_events db @ [s]\<rparr>)"
  using assms by (auto simp: wf_db_def selectRow_None)

lemma wf_filterSyncs: "wf_db db \<Longrightarrow> wf_db (db\<lparr>db_syncs := filter P (db_syncs db)\<rparr>)"
  by (auto simp: wf_db_def distinct_map_filter)

lemma wf_filterEvents: "wf_db db \<Longrightarrow> wf_db (db\<lparr>db_events := filter P (db_events db)\<rparr>)"
  by (auto simp: wf_db_def distinct_map_filter)

lemma wf_insertHost:
  assumes "wf_db db" "\<not> list_ex (\<lambda>r. dh_ID r = dh_ID h \<or> dh_Name r = dh_Name h \<or> dh_URL r = dh_URL h) (db_hosts db)"
  shows "wf_db (db\<lparr>db_hosts := db_hosts db @ [h]\<rparr>)"
  using assms by (auto simp: wf_db_def list_ex_iff)

lemma wf_deleteHost: "wf_db db \<Longrightarrow> wf_db (db\<lparr>db_hosts := deleteRows dh_Name n (db_hosts db)\<rparr>)"
  by (auto simp: wf_db_def deleteRows_def distinct_map_filter)

lemma exec_wf:
  "wf_db (w_db w) \<Longrightarrow> (\<And>db. wf_db db \<Longrightarrow> wf_db (snd (f db))) \<Longrightarrow> wf_db (w_db (snd (exec env stmt f w)))"
  by (simp add: exec_db)

lemma deleteRows_none: "rowsAffected key n rows = 0 \<Longrightarrow> deleteRows key n rows = rows"
  by (auto simp: rowsAffected_def deleteRows_def filter_empty_conv filter_id_conv)

lemma store_step_wf:
  assumes "store_step env w w'" and "wf_db (w_db w)"
  shows "wf_db (w_db w')"
  using assms
proof (cases rule: store_step.cases)
  case (step_create a)
  then show ?thesis using assms(2)
    by (auto simp: CreateApplication_def Let_def intro!: exec_wf wf_insertApp)
next
  case (step_status n u)
  then show ?thesis using assms(2)
    by (auto simp: UpdateApplicationStatus_def Let_def snd_case_result intro!: exec_wf wf_updateRows_apps)
next
  case (step_observation n x h s obs)
  then show ?thesis using assms(2)
    by (auto simp: RecordHealthObservation_def Let_def intro!: exec_wf wf_updateApps)
next
  case (step_manifest n m)
  then show ?thesis using assms(2)
    by (auto simp: UpdateManifest_def Let_def intro!: exec_wf wf_updateRows_apps)
next
  case (step_source n src)
  then show ?thesis using assms(2)
    by (auto simp: SetApplicationSource_def Let_def intro!: exec_wf wf_updateRows_apps)
next
  case (step_delete n)
  have "wf_db (db\<lparr>db_apps := deleteRows ar_Name n (db_apps db),
      db_syncs := (if rowsAffected ar_Name n (db_apps db) > 0 then deleteRows sy_AppName n (db_syncs db) else db_syncs db),
      db_events := (if rowsAffected ar_Name n (db_apps db) > 0 then deleteRows er_AppName n (db_events db) else db_events db)\<rparr>)"
    if "wf_db db" for db
  proof (cases "rowsAffected ar_Name n (db_apps db) > 0")
    case True
    show ?thesis unfolding if_P [OF True] by (rule wf_deleteApp [OF that])
  next
    case False
    then have "deleteRows ar_Name n (db_apps db) = db_apps db" by (simp add: deleteRows_none)
    with False that show ?thesis by simp
  qed
  then show ?thesis using step_delete assms(2)
    by (simp only: DeleteApplication_def snd_case_result) (rule exec_wf, simp_all only: snd_conv)
next
  case (step_sync sr)
  then show ?thesis using assms(2)
    by (auto simp: RecordSync_def Let_def intro!: exec_wf wf_insertSync)
next
  case (step_event er)
  then show ?thesis using assms(2)
    by (auto simp: RecordEvent_def Let_def intro!: exec_wf wf_insertEvent)
next
  case (step_prune_syncs k)
  then show ?thesis using assms(2) by (auto simp: PruneSyncHistory_def intro!: exec_wf wf_filterSyncs)
next
  case (step_prune_events age)
  then show ?thesis using assms(2) by (auto simp: PruneOldEvents_def Let_def intro!: exec_wf wf_filterEvents)
next
  case (step_host_create h)
  then show ?thesis using assms(2) by (auto simp: CreateDockerHost_def Let_def intro!: exec_wf wf_insertHost)
next
  case (step_host_status n hu)
  then show ?thesis using assms(2)
    by (auto simp: UpdateDockerHostStatus_def Let_def snd_case_result intro!: exec_wf wf_updateRows_hosts)
next
  case (step_host_delete n)
  then show ?thesis using assms(2)
    by (auto simp: DeleteDockerHost_def snd_case_result intro!: exec_wf wf_deleteHost)
qed

text \<open>
  C13: The invariants of the schema hold in every state the store's operations can reach: names and
  identifiers are unique, every sync record and event belongs to a registered application (a deletion
  cascades), and no compose snapshot is ever persisted, whichever statements the engine fails.
\<close>

theorem store_invariant:
  assumes "(store_step env)\<^sup>*\<^sup>* w w'" and "wf_db (w_db w)"
  shows "wf_db (w_db w')"
  using assms by (induction rule: rtranclp_induct) (auto intro: store_step_wf)

definition emptyWorld :: World where
  "emptyWorld = \<lparr>w_trace = [], w_db = \<lparr>db_apps = [], db_syncs = [], db_events = [], db_hosts = []\<rparr>\<rparr>"

definition demoRecord :: ApplicationRecord where
  "demoRecord = \<lparr>ar_ID = [], ar_Name = ''web'', ar_Manifest = ''{}'', ar_Source = ''manifest'',
     ar_SyncStatus = SyncStatusUnknown, ar_HealthStatus = HealthUnknown, ar_LastSyncedSHA = [], ar_HeadSHA = [],
     ar_LastSyncTime = None, ar_LastObservationTime = None, ar_LastObservedHealthStatus = None, ar_LastError = None,
     ar_ServicesJSON = [], ar_ConditionsJSON = [], ar_CreatedAt = 0, ar_UpdatedAt = 0\<rparr>"

theorem store_invariant_witness:
  "wf_db (w_db (snd (DeleteApplication (demoEnv (\<lambda>c p. []) []) ''web''
      (snd (CreateApplication (demoEnv (\<lambda>c p. []) []) demoRecord emptyWorld)))))"
proof (rule store_invariant)
  show "(store_step (demoEnv (\<lambda>c p. []) []))\<^sup>*\<^sup>* emptyWorld (snd (DeleteApplication (demoEnv (\<lambda>c p. []) []) ''web''
      (snd (CreateApplication (demoEnv (\<lambda>c p. []) []) demoRecord emptyWorld))))"
    by (rule rtranclp.rtrancl_into_rtrancl [OF r_into_rtranclp]; rule store_step.intros)
qed (simp add: emptyWorld_def wf_db_def)

section \<open>The contract of a status table\<close>

text \<open>
  What the components that report a status rely on: an update changes the record it names and no
  other, and in that record only what the update's effect relation allows. The frame lemma then
  follows for any sequence of updates.
\<close>

locale status_table =
  fixes get :: "'s \<Rightarrow> string \<Rightarrow> 'r option" and upd :: "string \<Rightarrow> 'u \<Rightarrow> 's \<Rightarrow> 's"
    and eff :: "'u \<Rightarrow> 'r \<Rightarrow> 'r \<Rightarrow> bool"
  assumes upd_other: "m \<noteq> n \<Longrightarrow> get (upd n u s) m = get s m"
    and upd_same: "get (upd n u s) n = get s n \<or> (\<exists>r r'. get s n = Some r \<and> get (upd n u s) n = Some r' \<and> eff u r r')"
begin

lemma upd_frame:
  assumes "\<And>r r'. eff u r r' \<Longrightarrow> f r' = f r"
  shows "map_option f (get (upd n u s) m) = map_option f (get s m)"
  using upd_other [of m n u s] upd_same [of n u s] assms by (cases "m = n") auto

lemma upds_frame:
  assumes "\<And>u r r'. u \<in> set us \<Longrightarrow> eff u r r' \<Longrightarrow> f r' = f r"
  shows "map_option f (get (fold (upd n) us s) m) = map_option f (get s m)"
  using assms
proof (induction us arbitrary: s)
  case (Cons u us)
  have "map_option f (get (upd n u s) m) = map_option f (get s m)"
    by (rule upd_frame) (use Cons.prems in auto)
  with Cons.IH [of "upd n u s"] Cons.prems show ?case by auto
qed simp

lemma upds_other: "m \<noteq> n \<Longrightarrow> get (fold (upd n) us s) m = get s m"
  by (induction us arbitrary: s) (auto simp: upd_other)

end

definition appIn :: "'w World_scheme \<Rightarrow> string \<Rightarrow> ApplicationRecord option" where
  "appIn w n = selectRow ar_Name n (db_apps (w_db w))"

definition hostIn :: "'w World_scheme \<Rightarrow> string \<Rightarrow> DockerHostRecord option" where
  "hostIn w n = selectRow dh_Name n (db_hosts (w_db w))"

lemma appIn_UpdateApplicationStatus:
  "appIn (snd (UpdateApplicationStatus env n u w)) m =
     (if isNoUpdate u \<or> e_dbErr env (w_trace w) \<noteq> None \<or> m \<noteq> n then appIn w m
      else map_option (applyStatus u (e_now env (w_trace w))) (appIn w m))"
  by (auto simp: appIn_def UpdateApplicationStatus_def Let_def snd_case_result exec_db selectRow_update)

lemma hostIn_UpdateDockerHostStatus:
  "hostIn (snd (UpdateDockerHostStatus env n u w)) m = hostIn w m
   \<or> (m = n \<and> hostIn (snd (UpdateDockerHostStatus env n u w)) m = map_option (applyHostStatus u (e_now env (w_trace w))) (hostIn w m))"
  by (auto simp: hostIn_def UpdateDockerHostStatus_def Let_def snd_case_result exec_db selectRow_update)

interpretation apps: status_table appIn "\<lambda>n u w. snd (UpdateApplicationStatus env n u w)"
    "\<lambda>u r r'. \<exists>now. r' = applyStatus u now r" for env
proof
  fix m n u and s :: "'a World_scheme"
  show "m \<noteq> n \<Longrightarrow> appIn (snd (UpdateApplicationStatus env n u s)) m = appIn s m"
    by (simp add: appIn_UpdateApplicationStatus)
  show "appIn (snd (UpdateApplicationStatus env n u s)) n = appIn s n \<or>
    (\<exists>r r'. appIn s n = Some r \<and> appIn (snd (UpdateApplicationStatus env n u s)) n = Some r' \<and> (\<exists>now. r' = applyStatus u now r))"
    by (cases "appIn s n") (auto simp: appIn_UpdateApplicationStatus)
qed

interpretation hosts: status_table hostIn "\<lambda>n u w. snd (UpdateDockerHostStatus env n u w)"
    "\<lambda>u r r'. \<exists>now. r' = applyHostStatus u now r" for env
proof
  fix m n u and s :: "'a World_scheme"
  show "m \<noteq> n \<Longrightarrow> hostIn (snd (UpdateDockerHostStatus env n u s)) m = hostIn s m"
    using hostIn_UpdateDockerHostStatus [of env n u s m] by auto
  show "hostIn (snd (UpdateDockerHostStatus env n u s)) n = hostIn s n \<or>
    (\<exists>r r'. hostIn s n = Some r \<and> hostIn (snd (UpdateDockerHostStatus env n u s)) n = Some r' \<and> (\<exists>now. r' = applyHostStatus u now r))"
    using hostIn_UpdateDockerHostStatus [of env n u s n] by (cases "hostIn s n") auto
qed

end
