(* ===== verification/Health.thy ===== *)
theory Health
  imports Store
begin

text \<open>
  The health monitor (\<^verbatim>\<open>src/src/internal/health/health.go\<close>): single checks with their guarded
  observation, the gate that a sync wave waits at, and the watch list with its expiry. The checks of
  one round run concurrently in the program; they are modelled one after the other, in an arbitrary
  order (the order of the association list).
\<close>

section \<open>State\<close>

record HealthConfig =
  hc_PollInterval :: duration
  hc_SweepInterval :: duration
  hc_DefaultTimeout :: duration
  hc_MaxConcurrentChecks :: int
  hc_CheckTimeout :: duration

definition DefaultConfig :: HealthConfig where
  "DefaultConfig = \<lparr>hc_PollInterval = 10 * Second, hc_SweepInterval = 30 * Second, hc_DefaultTimeout = 120 * Second,
     hc_MaxConcurrentChecks = 4, hc_CheckTimeout = 15 * Second\<rparr>"

definition normalizeConfig :: "HealthConfig \<Rightarrow> HealthConfig" where
  "normalizeConfig cfg = \<lparr>
     hc_PollInterval = (if hc_PollInterval cfg \<le> 0 then hc_PollInterval DefaultConfig else hc_PollInterval cfg),
     hc_SweepInterval = (if hc_SweepInterval cfg \<le> 0 then hc_SweepInterval DefaultConfig else hc_SweepInterval cfg),
     hc_DefaultTimeout = (if hc_DefaultTimeout cfg \<le> 0 then hc_DefaultTimeout DefaultConfig else hc_DefaultTimeout cfg),
     hc_MaxConcurrentChecks = (if hc_MaxConcurrentChecks cfg \<le> 0 then hc_MaxConcurrentChecks DefaultConfig else hc_MaxConcurrentChecks cfg),
     hc_CheckTimeout = (if hc_CheckTimeout cfg \<le> 0 then hc_CheckTimeout DefaultConfig else hc_CheckTimeout cfg)\<rparr>"

record watchEntry =
  we_appName :: string
  we_timeout :: duration
  we_startedAt :: time

record Monitor = World +
  m_watched :: "watchEntry gomap"
  m_sweepRunning :: bool

text \<open>The optional receivers of the program: the notifier and the event bus.\<close>

record Receivers =
  rc_Notifier :: bool
  rc_Broadcaster :: bool

definition inspectW :: "Env \<Rightarrow> DestinationSpec \<Rightarrow> 'w World_scheme \<Rightarrow> ServiceState list result \<times> 'w World_scheme" where
  "inspectW env dest w = (case Inspect env dest (w_trace w) of (r, t) \<Rightarrow> (r, w\<lparr>w_trace := t\<rparr>))"

definition broadcast :: "Receivers \<Rightarrow> BusEvent \<Rightarrow> 'w World_scheme \<Rightarrow> 'w World_scheme" where
  "broadcast rc ev w = (if rc_Broadcaster rc then w\<lparr>w_trace := w_trace w @ [Broadcasted ev]\<rparr> else w)"

definition notify :: "Env \<Rightarrow> Receivers \<Rightarrow> NotificationEvent \<Rightarrow> 'w World_scheme \<Rightarrow> 'w World_scheme" where
  "notify env rc ev w =
     (if rc_Notifier rc then w\<lparr>w_trace := w_trace w @ [Notified ev (e_notify env (w_trace w) ev)]\<rparr> else w)"

section \<open>Operations\<close>

definition WatchApp :: "Env \<Rightarrow> HealthConfig \<Rightarrow> string \<Rightarrow> duration \<Rightarrow> 'm Monitor_scheme \<Rightarrow> 'm Monitor_scheme" where
  "WatchApp env cfg appName timeout m =
     m\<lparr>m_watched := AList.update appName
         \<lparr>we_appName = appName, we_timeout = (if timeout \<le> 0 then hc_DefaultTimeout cfg else timeout),
          we_startedAt = e_now env (w_trace m)\<rparr> (m_watched m)\<rparr>"

definition UnwatchApp :: "string \<Rightarrow> 'm Monitor_scheme \<Rightarrow> 'm Monitor_scheme" where
  "UnwatchApp appName m = m\<lparr>m_watched := AList.delete appName (m_watched m)\<rparr>"

definition CheckApp :: "Env \<Rightarrow> string \<Rightarrow> 'w World_scheme \<Rightarrow> (HealthStatus \<times> ServiceStatus list) result \<times> 'w World_scheme" where
  "CheckApp env appName w =
     (case GetApplication env appName w of
        (Inl e, w) \<Rightarrow> (Inl e, w)
      | (Inr None, w) \<Rightarrow> (Inr (HealthUnknown, []), w)
      | (Inr (Some appRec), w) \<Rightarrow>
          (case unmarshalApp (e_codec env) (ar_Manifest appRec) of
             Inl e \<Rightarrow> (Inl e, w)
           | Inr application \<Rightarrow>
               (case inspectW env (appDestination application) w of
                  (Inl e, w) \<Rightarrow> (Inl e, w)
                | (Inr liveStates, w) \<Rightarrow>
                    (let serviceStatuses = serviceStatusesFromStates liveStates;
                         aggregated = Aggregate serviceStatuses;
                         observedAt = e_now env (w_trace w)
                     in case RecordHealthObservation env appName (ar_UpdatedAt appRec) aggregated
                               (marshalServices (e_codec env) serviceStatuses) observedAt w of
                          (Inl e, w) \<Rightarrow> (Inl (Wrapf ''persisting health observation: %w'' [] e), w)
                        | (Inr updated, w) \<Rightarrow> (Inr (aggregated, serviceStatuses), w)))))"

text \<open>The loop over the services of a check: the named ones that are healthy, up to the first that is not.\<close>

fun scanHealthy :: "string list \<Rightarrow> ServiceStatus list \<Rightarrow> string list \<Rightarrow> bool \<times> string list" where
  "scanHealthy nameSet [] healthy = (True, healthy)"
| "scanHealthy nameSet (svc # svcs) healthy =
     (if ss_Name svc \<notin> set nameSet then scanHealthy nameSet svcs healthy
      else if ss_Health svc \<noteq> Healthy then (False, healthy)
      else scanHealthy nameSet svcs (List.insert (ss_Name svc) healthy))"

definition allSeenHealthy :: "string list \<Rightarrow> ServiceStatus list \<Rightarrow> bool" where
  "allSeenHealthy serviceNames services =
     (let nameSet = remdups serviceNames
      in case scanHealthy nameSet services [] of (ok, healthy) \<Rightarrow> ok \<and> length healthy = length nameSet)"

fun waitServicesTicks :: "nat \<Rightarrow> Env \<Rightarrow> string \<Rightarrow> string list \<Rightarrow> 'w World_scheme \<Rightarrow> err option \<times> 'w World_scheme" where
  "waitServicesTicks 0 env appName serviceNames w =
     (case e_stop env (w_trace w) of
        CtxDone e \<Rightarrow> (Some e, w\<lparr>w_trace := w_trace w @ [Stopped (CtxDone e)]\<rparr>)
      | TimerFired \<Rightarrow> (Some (Errorf ''timeout waiting for services to become healthy: %v'' serviceNames),
                       w\<lparr>w_trace := w_trace w @ [Stopped TimerFired]\<rparr>))"
| "waitServicesTicks (Suc n) env appName serviceNames w =
     (case CheckApp env appName w of
        (Inl e, w) \<Rightarrow> waitServicesTicks n env appName serviceNames w
      | (Inr (h, services), w) \<Rightarrow>
          if allSeenHealthy serviceNames services then (None, w)
          else waitServicesTicks n env appName serviceNames w)"

definition WaitForServicesHealthy :: "Env \<Rightarrow> string \<Rightarrow> string list \<Rightarrow> 'w World_scheme \<Rightarrow> err option \<times> 'w World_scheme" where
  "WaitForServicesHealthy env appName serviceNames w =
     (if serviceNames = [] then (None, w)
      else waitServicesTicks (e_ticks env (w_trace w)) env appName serviceNames w)"

text \<open>One watched application: whether it leaves the watch list, and the state after the check.\<close>

definition checkWatchedApp :: "Env \<Rightarrow> Receivers \<Rightarrow> watchEntry \<Rightarrow> 'w World_scheme \<Rightarrow> bool \<times> 'w World_scheme" where
  "checkWatchedApp env rc entry w =
     (case CheckApp env (we_appName entry) w of
        (Inl e, w) \<Rightarrow> (False, w)
      | (Inr (health, services), w) \<Rightarrow>
          (let elapsed = e_now env (w_trace w) - we_startedAt entry;
               busEvent = \<lparr>be_Type = ''health'', be_AppName = we_appName entry, be_Data = DataHealth health\<rparr>
           in if health = Healthy then (True, broadcast rc busEvent w)
              else if elapsed \<ge> we_timeout entry then
                (True, notify env rc \<lparr>ne_Type = ''health.degraded'', ne_AppName = we_appName entry,
                                      ne_Message = Errorf ''Health check timeout: %s is %s after %s'' [we_appName entry],
                                      ne_Data = NoData\<rparr>
                  (broadcast rc busEvent
                    (snd (UpdateApplicationStatus env (we_appName entry)
                       (noUpdate\<lparr>su_HealthStatus := Some health,
                                 su_LastError := Some (Some (Errorf ''health check timeout: not all services healthy'' []))\<rparr>) w))))
              else (False, w)))"

fun checkEntries :: "Env \<Rightarrow> Receivers \<Rightarrow> watchEntry list \<Rightarrow> 'w World_scheme \<Rightarrow> string list \<times> 'w World_scheme" where
  "checkEntries env rc [] w = ([], w)"
| "checkEntries env rc (entry # entries) w =
     (case checkWatchedApp env rc entry w of
        (gone, w) \<Rightarrow> (case checkEntries env rc entries w of
           (expired, w) \<Rightarrow> ((if gone then [we_appName entry] else []) @ expired, w)))"

definition checkWatchedApps :: "Env \<Rightarrow> Receivers \<Rightarrow> 'm Monitor_scheme \<Rightarrow> 'm Monitor_scheme" where
  "checkWatchedApps env rc m =
     (case checkEntries env rc (map snd (m_watched m)) m of
        (expired, m) \<Rightarrow> m\<lparr>m_watched := fold AList.delete expired (m_watched m)\<rparr>)"

definition sweepAllApps :: "Env \<Rightarrow> 'w World_scheme \<Rightarrow> 'w World_scheme" where
  "sweepAllApps env w =
     (case ListApplications env w of
        (Inl e, w) \<Rightarrow> w
      | (Inr apps, w) \<Rightarrow> fold (\<lambda>appRec w. snd (CheckApp env (ar_Name appRec) w)) apps w)"

text \<open>
  \<^verbatim>\<open>startSweep\<close> starts a goroutine unless one is running; the goroutine sweeps and then clears the flag.
  The result tells whether it was started.
\<close>

definition startSweep :: "'m Monitor_scheme \<Rightarrow> bool \<times> 'm Monitor_scheme" where
  "startSweep m = (if m_sweepRunning m then (False, m) else (True, m\<lparr>m_sweepRunning := True\<rparr>))"

definition sweepGoroutine :: "Env \<Rightarrow> 'm Monitor_scheme \<Rightarrow> 'm Monitor_scheme" where
  "sweepGoroutine env m = (sweepAllApps env m)\<lparr>m_sweepRunning := False\<rparr>"

section \<open>The gate\<close>

lemma scanHealthy_spec:
  assumes "distinct healthy" "set healthy \<subseteq> set nameSet"
  shows "fst (scanHealthy nameSet svcs healthy) \<longleftrightarrow> (\<forall>s \<in> set svcs. ss_Name s \<in> set nameSet \<longrightarrow> ss_Health s = Healthy)"
    and "fst (scanHealthy nameSet svcs healthy) \<Longrightarrow>
       set (snd (scanHealthy nameSet svcs healthy)) = set healthy \<union> (ss_Name ` set svcs \<inter> set nameSet)"
    and "distinct (snd (scanHealthy nameSet svcs healthy)) \<and> set (snd (scanHealthy nameSet svcs healthy)) \<subseteq> set nameSet"
  using assms by (induction nameSet svcs healthy rule: scanHealthy.induct) auto

lemma allSeenHealthy_iff:
  "allSeenHealthy names services \<longleftrightarrow>
     set names \<subseteq> ss_Name ` set services \<and> (\<forall>s \<in> set services. ss_Name s \<in> set names \<longrightarrow> ss_Health s = Healthy)"
proof -
  obtain ok healthy where sc: "scanHealthy (remdups names) services [] = (ok, healthy)" by force
  note sp = scanHealthy_spec [of "[]" "remdups names" services, unfolded sc, simplified]
  have "length healthy = length (remdups names) \<longleftrightarrow> set healthy = set names"
    using sp(3) by (metis card_subset_eq distinct_card distinct_remdups finite_set set_remdups)
  moreover have "ok \<Longrightarrow> set healthy = set names \<longleftrightarrow> set names \<subseteq> ss_Name ` set services"
    using sp(2) by blast
  ultimately show ?thesis
    using sc sp(1) by (auto simp: allSeenHealthy_def)
qed

lemma inspectW_simps:
  "inspectW env dest w = (r, w') \<longleftrightarrow> r = e_inspect env (w_trace w) dest \<and> w' = w\<lparr>w_trace := w_trace w @ [Inspected dest r]\<rparr>"
  by (auto simp: inspectW_def Inspect_def)

text \<open>What a check observes: the services it reports are those of an inspection of the application's project.\<close>

lemma wrapErr_cases:
  assumes "wrapErr f rw = (Inr x, w)"
  shows "rw = (Inr x, w)"
  using assms by (cases rw; cases "fst rw") (auto simp: wrapErr_def split: sum.splits)

lemma exec_Inr:
  assumes "exec env stmt f w = (Inr x, w')"
  shows "w_trace w' = w_trace w @ [Queried stmt None]" "f (w_db w) = (Inr x, w_db w')" "e_dbErr env (w_trace w) = None"
  using assms by (auto simp: exec_def split: option.splits prod.splits)

lemma GetApplication_Inr:
  assumes "GetApplication env n w = (Inr r, w')"
  shows "r = appIn w n" "w_db w' = w_db w" "w_trace w' = w_trace w @ [Queried ''GetApplication'' None]"
  using wrapErr_cases [OF assms [unfolded GetApplication_def], THEN exec_Inr(1)]
    wrapErr_cases [OF assms [unfolded GetApplication_def], THEN exec_Inr(2)]
  by (auto simp: appIn_def)

lemma CheckApp_observes:
  assumes "CheckApp env n w = (Inr (h, svcs), w')" and "svcs \<noteq> []"
  obtains appRec application states where "appIn w n = Some appRec"
    "unmarshalApp (e_codec env) (ar_Manifest appRec) = Inr application"
    "w_trace w' = w_trace w @ [Queried ''GetApplication'' None, Inspected (appDestination application) (Inr states),
       Queried ''RecordHealthObservation'' None]"
    "svcs = serviceStatusesFromStates states" "h = Aggregate svcs"
proof -
  obtain g w1 where g: "GetApplication env n w = (g, w1)" by force
  then obtain appRec where r: "g = Inr (Some appRec)"
    using assms by (auto simp: CheckApp_def split: sum.splits option.splits)
  note G = GetApplication_Inr [OF g [unfolded r]]
  obtain application where a: "unmarshalApp (e_codec env) (ar_Manifest appRec) = Inr application"
    using assms g r by (auto simp: CheckApp_def split: sum.splits)
  obtain x w2 where i: "inspectW env (appDestination application) w1 = (x, w2)" by force
  then obtain states where x: "x = Inr states" using assms g r a by (auto simp: CheckApp_def split: sum.splits)
  let ?svcs = "serviceStatusesFromStates states"
  obtain y w3 where o: "RecordHealthObservation env n (ar_UpdatedAt appRec) (Aggregate ?svcs)
      (marshalServices (e_codec env) ?svcs) (e_now env (w_trace w2)) w2 = (y, w3)" by force
  then obtain u where y: "y = Inr u" and w': "w' = w3" "svcs = ?svcs" "h = Aggregate ?svcs"
    using assms g r a i x by (auto simp: CheckApp_def Let_def split: sum.splits)
  have "w_trace w3 = w_trace w2 @ [Queried ''RecordHealthObservation'' None]"
    using o y by (auto simp: RecordHealthObservation_def Let_def dest!: wrapErr_cases exec_Inr(1))
  moreover have "w_trace w2 = w_trace w1 @ [Inspected (appDestination application) (Inr states)]"
    using i x by (auto simp: inspectW_simps)
  ultimately show thesis using that [OF G(1) [symmetric] a] G(3) w' by simp
qed

text \<open>Database statements and inspections only: nothing that a deployment does.\<close>

fun observing :: "event \<Rightarrow> bool" where
  "observing (Queried s r) = True"
| "observing (Inspected d r) = True"
| "observing (Stopped s) = True"
| "observing _ = False"

lemma grows_exec [grow]: "(\<And>r. P (Queried stmt r)) \<Longrightarrow> grows P (w_trace w) (w_trace (snd (exec env stmt f w)))"
  by (auto simp: exec_def split: option.split prod.split)

lemma inspectW_grows [grow]: "(\<And>r. P (Inspected dest r)) \<Longrightarrow> grows P (w_trace w) (w_trace (snd (inspectW env dest w)))"
  by (auto simp: inspectW_def Inspect_def)

lemma store_grows [grow]:
  "grows observing (w_trace w) (w_trace (snd (GetApplication env n w)))"
  "grows observing (w_trace w) (w_trace (snd (ListApplications env w)))"
  "grows observing (w_trace w) (w_trace (snd (RecordHealthObservation env n x h s obs w)))"
  "grows observing (w_trace w) (w_trace (snd (UpdateApplicationStatus env n u w)))"
  "grows observing (w_trace w) (w_trace (snd (RecordSync env r w)))"
  "grows observing (w_trace w) (w_trace (snd (RecordEvent env ev w)))"
  "grows observing (w_trace w) (w_trace (snd (GetSyncBySHA env n sha w)))"
  by (simp_all add: GetApplication_def ListApplications_def RecordHealthObservation_def UpdateApplicationStatus_def
      RecordSync_def RecordEvent_def GetSyncBySHA_def Let_def snd_case_result grows_exec)

lemma grows_prod:
  "grows P t (w_trace (snd x)) \<Longrightarrow> (\<And>r w. x = (r, w) \<Longrightarrow> grows P (w_trace w) (w_trace (snd (h r w))))
   \<Longrightarrow> grows P t (w_trace (snd (case x of (r, w) \<Rightarrow> h r w)))"
  by (cases x) (auto intro: grows_trans)

lemma CheckApp_grows [grow]: "grows observing (w_trace w) (w_trace (snd (CheckApp env n w)))"
  unfolding CheckApp_def Let_def
  by (intro grows_prod store_grows inspectW_grows | simp add: inspectW_grows store_grows split: sum.split option.split | intro allI impI conjI)+

lemma WaitForServicesHealthy_evidence:
  assumes "WaitForServicesHealthy env n names w = (None, w')" and "names \<noteq> []"
  shows "\<exists>pre dest states. w_trace w' = w_trace w @ pre @ [Inspected dest (Inr states), Queried ''RecordHealthObservation'' None]
    \<and> set names \<subseteq> lv_Name ` set states \<and> (\<forall>s \<in> set states. lv_Name s \<in> set names \<longrightarrow> lv_Health s = Healthy)"
proof -
  define k where "k = e_ticks env (w_trace w)"
  have "waitServicesTicks k env n names w = (None, w')"
    using assms by (simp add: WaitForServicesHealthy_def k_def)
  then show ?thesis
  proof (induction k arbitrary: w)
    case 0
    then show ?case by (simp split: StopEvent.splits)
  next
    case (Suc k)
    obtain c w1 where c: "CheckApp env n w = (c, w1)" by force
    then obtain es where es: "w_trace w1 = w_trace w @ es"
      using CheckApp_grows [of w env n] by (auto simp: grows_def)
    show ?case
    proof (cases "\<exists>h svcs. c = Inr (h, svcs) \<and> allSeenHealthy names svcs")
      case True
      then obtain h svcs where hs: "c = Inr (h, svcs)" "allSeenHealthy names svcs" by blast
      then have w1: "w1 = w'" using Suc.prems c by simp
      have ne: "svcs \<noteq> []" using hs(2) assms(2) by (auto simp: allSeenHealthy_iff)
      obtain application states where st: "w_trace w1 = w_trace w @ [Queried ''GetApplication'' None]
          @ [Inspected (appDestination application) (Inr states), Queried ''RecordHealthObservation'' None]"
        "svcs = serviceStatusesFromStates states"
        by (rule CheckApp_observes [OF c [unfolded hs(1)] ne]) simp
      have "set names \<subseteq> lv_Name ` set states \<and> (\<forall>s \<in> set states. lv_Name s \<in> set names \<longrightarrow> lv_Health s = Healthy)"
        using hs(2) unfolding st(2) by (auto simp: allSeenHealthy_iff serviceStatusesFromStates_def)
      then show ?thesis using st(1) w1 by blast
    next
      case False
      then have "waitServicesTicks k env n names w1 = (None, w')"
        using Suc.prems c by (auto split: sum.splits prod.splits if_splits)
      from Suc.IH [OF this] es show ?thesis by fastforce
    qed
  qed
qed


definition waveEnv :: Env where
  "waveEnv = demoEnv (\<lambda>cmds p. [demoState ''web'' ''nginx'', demoState ''db'' ''postgres'']) []"

definition waveWorld :: World where
  "waveWorld = emptyWorld\<lparr>w_db := (w_db emptyWorld)\<lparr>db_apps := [demoRecord]\<rparr>\<rparr>"

lemma wave_waits: "fst (WaitForServicesHealthy waveEnv ''web'' [''db''] waveWorld) = None"
  by code_simp


section \<open>The watch list\<close>

named_theorems frame \<open>the fields an operation on the store and the trace leaves alone\<close>

lemma more_trace [simp, frame]: "World.more (w\<lparr>w_trace := t\<rparr>) = World.more w"
  by (cases w) simp

lemma more_prod [frame]:
  "World.more (snd x) = c \<Longrightarrow> (\<And>r w. x = (r, w) \<Longrightarrow> World.more (snd (h r w)) = World.more w)
   \<Longrightarrow> World.more (snd (case x of (r, w) \<Rightarrow> h r w)) = c"
  by (cases x) auto

lemma store_more [simp, frame]:
  "World.more (snd (GetApplication env n w)) = World.more w"
  "World.more (snd (RecordHealthObservation env n x h s obs w)) = World.more w"
  "World.more (snd (UpdateApplicationStatus env n u w)) = World.more w"
  "World.more (snd (inspectW env dest w)) = World.more w"
  "World.more (broadcast rc ev w) = World.more w"
  "World.more (notify env rc ne w) = World.more w"
  by (simp_all add: GetApplication_def RecordHealthObservation_def UpdateApplicationStatus_def inspectW_def Inspect_def
      broadcast_def notify_def Let_def snd_case_result)

lemma CheckApp_more [simp, frame]: "World.more (snd (CheckApp env n w)) = World.more w"
  unfolding CheckApp_def Let_def
  by (intro more_prod | simp split: sum.split option.split | intro allI impI conjI)+

lemma checkWatchedApp_more [simp, frame]: "World.more (snd (checkWatchedApp env rc e w)) = World.more w"
  unfolding checkWatchedApp_def Let_def
  by (intro more_prod | simp split: sum.split prod.split | intro allI impI conjI)+

lemma checkEntries_more [simp, frame]: "World.more (snd (checkEntries env rc es w)) = World.more w"
  by (induction env rc es w rule: checkEntries.induct) (auto split: prod.split, (metis checkWatchedApp_more snd_conv)+)

lemma watched_of_more: "World.more m = World.more m' \<Longrightarrow> m_watched m = m_watched m'"
  by (cases m; cases m') simp

text \<open>When an entry is done.\<close>

definition watchDone :: "Env \<Rightarrow> watchEntry \<Rightarrow> 'w World_scheme \<Rightarrow> bool" where
  "watchDone env e w = (case CheckApp env (we_appName e) w of
      (Inl err, w') \<Rightarrow> False
    | (Inr (h, svcs), w') \<Rightarrow> h = Healthy \<or> e_now env (w_trace w') - we_startedAt e \<ge> we_timeout e)"

lemma checkWatchedApp_fst: "fst (checkWatchedApp env rc e w) = watchDone env e w"
  by (auto simp: checkWatchedApp_def watchDone_def Let_def split: prod.split sum.split)

lemma checkEntries_expired:
  "n \<in> set (fst (checkEntries env rc es w)) \<longleftrightarrow>
     (\<exists>es1 e es2. es = es1 @ e # es2 \<and> we_appName e = n \<and> watchDone env e (snd (checkEntries env rc es1 w)))"
proof (induction es arbitrary: w)
  case (Cons e es)
  obtain g w1 where g: "checkWatchedApp env rc e w = (g, w1)" by force
  have gd: "g = watchDone env e w" using checkWatchedApp_fst [of env rc e w] g by simp
  have first: "snd (checkEntries env rc (e # es1) w) = snd (checkEntries env rc es1 w1)" for es1
    using g by (simp split: prod.split)
  have "n \<in> set (fst (checkEntries env rc (e # es) w)) \<longleftrightarrow>
      (watchDone env e w \<and> we_appName e = n) \<or> n \<in> set (fst (checkEntries env rc es w1))"
    using g gd by (auto split: prod.split)
  also have "\<dots> \<longleftrightarrow> (\<exists>es1 e' es2. e # es = es1 @ e' # es2 \<and> we_appName e' = n
      \<and> watchDone env e' (snd (checkEntries env rc es1 w)))"
    unfolding Cons.IH
  proof (intro iffI; (elim disjE exE conjE)?)
    fix es1 e' es2
    assume *: "e # es = es1 @ e' # es2" "we_appName e' = n" "watchDone env e' (snd (checkEntries env rc es1 w))"
    then show "(watchDone env e w \<and> we_appName e = n) \<or> (\<exists>es1 e' es2. es = es1 @ e' # es2 \<and> we_appName e' = n
        \<and> watchDone env e' (snd (checkEntries env rc es1 w1)))"
      using first by (cases es1) auto
  next
    assume "watchDone env e w" "we_appName e = n"
    then show "\<exists>es1 e' es2. e # es = es1 @ e' # es2 \<and> we_appName e' = n \<and> watchDone env e' (snd (checkEntries env rc es1 w))"
      by (intro exI [of _ "[]"]) auto
  next
    fix es1 e' es2
    assume "es = es1 @ e' # es2" "we_appName e' = n" "watchDone env e' (snd (checkEntries env rc es1 w1))"
    then show "\<exists>es1 e' es2. e # es = es1 @ e' # es2 \<and> we_appName e' = n \<and> watchDone env e' (snd (checkEntries env rc es1 w))"
      using first by (intro exI [of _ "e # es1"]) auto
  qed
  finally show ?case .
qed simp

lemma map_of_fold_delete: "map_of (fold AList.delete ks m) k = (if k \<in> set ks then None else map_of m k)"
  by (induction ks arbitrary: m) (auto simp: AList.delete_conv)

text \<open>
  One round over the watch list drops exactly the applications that are done: an entry leaves when
  its check found the application healthy, or when its check succeeded at or after the entry's
  timeout, and an application whose check failed stays, however old its entry is. Nothing is added, and
  an entry that stays is unchanged. (The interface promises to poll "until all services are healthy or
  the timeout expires"; with failing checks the timeout is not looked at.)
\<close>

theorem checkWatchedApps_drops_done:
  "map_of (m_watched (checkWatchedApps env rc m)) n =
     (if \<exists>es1 e es2. map snd (m_watched m) = es1 @ e # es2 \<and> we_appName e = n
           \<and> watchDone env e (snd (checkEntries env rc es1 m))
      then None else map_of (m_watched m) n)"
proof -
  obtain expired m1 where c: "checkEntries env rc (map snd (m_watched m)) m = (expired, m1)" by force
  have "m_watched m1 = m_watched m"
    by (rule watched_of_more) (metis c checkEntries_more snd_conv)
  then have "map_of (m_watched (checkWatchedApps env rc m)) n = (if n \<in> set expired then None else map_of (m_watched m) n)"
    using c by (simp add: checkWatchedApps_def map_of_fold_delete)
  also have "expired = fst (checkEntries env rc (map snd (m_watched m)) m)" using c by simp
  finally show ?thesis by (simp only: checkEntries_expired)
qed

end

