(* ===== verification/Ports.thy ===== *)
theory Ports
  imports Health
begin

text \<open>
  Host port conflicts (\<^verbatim>\<open>src/src/internal/reconciler/ports.go\<close>): the check that runs between parsing
  and inspection, over the service snapshots that the other applications have in the store.
\<close>

section \<open>The check\<close>

definition reservedPorts :: "string gomap" where
  "reservedPorts = [(''8080'', ''dockercd'')]"

text \<open>The ports of one service into the map from host ports to service names, a later one winning.\<close>

definition collectPorts :: "ServiceSpec \<Rightarrow> string gomap \<Rightarrow> string gomap" where
  "collectPorts svc m = fold (\<lambda>p m. if HostPort p = [] then m else AList.update (HostPort p) (sp_Name svc) m) (sp_Ports svc) m"

definition desiredPorts :: "ServiceSpec list \<Rightarrow> string gomap" where
  "desiredPorts services = fold collectPorts services []"

text \<open>A conflict is a port with its message; the same one is added once.\<close>

definition addConflict :: "string \<Rightarrow> err \<Rightarrow> (string \<times> err) list \<Rightarrow> (string \<times> err) list" where
  "addConflict port msg conflicts = (if (port, msg) \<in> set conflicts then conflicts else conflicts @ [(port, msg)])"

definition reservedConflicts :: "string \<Rightarrow> string gomap \<Rightarrow> (string \<times> err) list" where
  "reservedConflicts appName desired =
     fold (\<lambda>(port, svcName) cs.
       case map_of reservedPorts port of
         None \<Rightarrow> cs
       | Some owner \<Rightarrow>
           if owner \<noteq> appName
           then addConflict port (Errorf ''port %s (service %s) is reserved for %s'' [port, svcName, owner]) cs
           else cs) desired []"

definition serviceConflicts :: "string gomap \<Rightarrow> string \<Rightarrow> ServiceStatus \<Rightarrow> (string \<times> err) list \<Rightarrow> (string \<times> err) list" where
  "serviceConflicts desired other svc cs =
     fold (\<lambda>p cs.
       if HostPort p = [] then cs
       else case map_of desired (HostPort p) of
              None \<Rightarrow> cs
            | Some svcName \<Rightarrow> addConflict (HostPort p)
                (Errorf ''port %s (service %s) conflicts with app %q service %s'' [HostPort p, svcName, other, ss_Name svc]) cs)
       (ss_Ports svc) cs"

definition appConflicts :: "Codec \<Rightarrow> string \<Rightarrow> string gomap \<Rightarrow> ApplicationRecord \<Rightarrow> (string \<times> err) list \<Rightarrow> (string \<times> err) list" where
  "appConflicts codec appName desired appRec cs =
     (if ar_Name appRec = appName then cs
      else if ar_ServicesJSON appRec = [] then cs
      else case unmarshalServices codec (ar_ServicesJSON appRec) of
             Inl e \<Rightarrow> cs
           | Inr services \<Rightarrow> fold (serviceConflicts desired (ar_Name appRec)) services cs)"

definition checkPortConflicts :: "Env \<Rightarrow> string \<Rightarrow> ServiceSpec list \<Rightarrow> 'w World_scheme \<Rightarrow> err option \<times> 'w World_scheme" where
  "checkPortConflicts env appName desiredServices w =
     (let desired = desiredPorts desiredServices
      in if desired = [] then (None, w)
         else case ListApplications env w of
                (Inl e, w) \<Rightarrow> (Some (Wrapf ''listing applications for port check: %w'' [] e), w)
              | (Inr apps, w) \<Rightarrow>
                  (let conflicts = fold (appConflicts (e_codec env) appName desired) apps (reservedConflicts appName desired)
                   in (if conflicts \<noteq> [] then Some (Joinf ''%s'' (map snd conflicts)) else None, w)))"

section \<open>What it decides\<close>

definition wantsPort :: "ServiceSpec list \<Rightarrow> string \<Rightarrow> bool" where
  "wantsPort services port \<longleftrightarrow> port \<noteq> [] \<and> (\<exists>s \<in> set services. \<exists>p \<in> set (sp_Ports s). HostPort p = port)"

text \<open>The host ports in the service snapshot of an application; an undecodable snapshot has none.\<close>

definition snapshotPorts :: "Codec \<Rightarrow> ApplicationRecord \<Rightarrow> string set" where
  "snapshotPorts codec r =
     (if ar_ServicesJSON r = [] then {}
      else case unmarshalServices codec (ar_ServicesJSON r) of
             Inl e \<Rightarrow> {}
           | Inr services \<Rightarrow> (\<Union>s \<in> set services. HostPort ` set (ss_Ports s)) - {[]})"

lemma fold_update_dom:
  "fst ` set (fold (\<lambda>p m. if HostPort p = [] then m else AList.update (HostPort p) v m) ps m)
     = fst ` set m \<union> (HostPort ` set ps - {[]})"
  by (induction ps arbitrary: m) (auto simp: dom_update)

lemma desiredPorts_dom: "fst ` set (desiredPorts services) = {port. wantsPort services port}"
proof -
  have "fst ` set (fold collectPorts services m) = fst ` set m \<union> {port. wantsPort services port}" for m
    by (induction services arbitrary: m) (auto simp: collectPorts_def fold_update_dom wantsPort_def)
  then show ?thesis by (simp add: desiredPorts_def)
qed

lemma addConflict_nonempty [simp]: "addConflict p e cs \<noteq> []"
  by (auto simp: addConflict_def)

text \<open>A fold whose steps never empty the list, and fill it exactly when a condition holds.\<close>

lemma fold_fill:
  assumes "\<And>x cs. x \<in> set xs \<Longrightarrow> f x cs = [] \<longleftrightarrow> cs = [] \<and> \<not> P x"
  shows "fold f xs cs = [] \<longleftrightarrow> cs = [] \<and> (\<forall>x \<in> set xs. \<not> P x)"
  using assms by (induction xs arbitrary: cs) auto

lemma reservedConflicts_Nil:
  "reservedConflicts appName desired = [] \<longleftrightarrow>
     (\<forall>(port, svc) \<in> set desired. \<forall>owner. map_of reservedPorts port = Some owner \<longrightarrow> owner = appName)"
  unfolding reservedConflicts_def
  by (subst fold_fill [where P = "\<lambda>(port, svc). \<exists>owner. map_of reservedPorts port = Some owner \<and> owner \<noteq> appName"])
     (auto split: option.splits if_splits)

lemma serviceConflicts_Nil:
  "serviceConflicts desired other svc cs = [] \<longleftrightarrow>
     cs = [] \<and> (\<forall>p \<in> set (ss_Ports svc). HostPort p = [] \<or> HostPort p \<notin> fst ` set desired)"
proof -
  let ?f = "\<lambda>p cs. if HostPort p = [] then cs
       else case map_of desired (HostPort p) of
              None \<Rightarrow> cs
            | Some svcName \<Rightarrow> addConflict (HostPort p)
                (Errorf ''port %s (service %s) conflicts with app %q service %s'' [HostPort p, svcName, other, ss_Name svc]) cs"
  have "?f p cs = [] \<longleftrightarrow> cs = [] \<and> \<not> (HostPort p \<noteq> [] \<and> map_of desired (HostPort p) \<noteq> None)" for p cs
    by (cases "map_of desired (HostPort p)") simp_all
  from fold_fill [of "ss_Ports svc" ?f "\<lambda>p. HostPort p \<noteq> [] \<and> map_of desired (HostPort p) \<noteq> None" cs, OF this]
  show ?thesis unfolding serviceConflicts_def in_keys_iff by auto
qed

lemma appConflicts_Nil:
  "appConflicts codec appName desired r cs = [] \<longleftrightarrow>
     cs = [] \<and> (ar_Name r = appName \<or> snapshotPorts codec r \<inter> fst ` set desired = {})"
proof -
  have "fold (serviceConflicts desired (ar_Name r)) services cs = [] \<longleftrightarrow>
      cs = [] \<and> (\<forall>s \<in> set services. \<forall>p \<in> set (ss_Ports s). HostPort p = [] \<or> HostPort p \<notin> fst ` set desired)" for services
    by (subst fold_fill [where P = "\<lambda>s. \<not> (\<forall>p \<in> set (ss_Ports s). HostPort p = [] \<or> HostPort p \<notin> fst ` set desired)"])
       (auto simp: serviceConflicts_Nil)
  moreover have "((\<Union>s \<in> set services. HostPort ` set (ss_Ports s)) - {[]}) \<inter> A = {}
      \<longleftrightarrow> (\<forall>s \<in> set services. \<forall>p \<in> set (ss_Ports s). HostPort p = [] \<or> HostPort p \<notin> A)" for services :: "ServiceStatus list" and A
    by blast
  ultimately show ?thesis
    by (cases "unmarshalServices codec (ar_ServicesJSON r)") (simp_all add: appConflicts_def snapshotPorts_def del: UN_simps)
qed

text \<open>
  With a database that answers, the port check passes exactly when no service asks for a host port
  that is reserved for another application, and none asks for a host port that another application's
  recorded services publish.
\<close>

theorem checkPortConflicts_iff:
  assumes "e_dbErr env (w_trace w) = None"
  shows "fst (checkPortConflicts env appName services w) = None \<longleftrightarrow>
    (\<forall>port. wantsPort services port \<longrightarrow>
       (\<forall>owner. map_of reservedPorts port = Some owner \<longrightarrow> owner = appName)
     \<and> (\<forall>r \<in> set (db_apps (w_db w)). ar_Name r \<noteq> appName \<longrightarrow> port \<notin> snapshotPorts (e_codec env) r))"
proof -
  let ?d = "desiredPorts services"
  have l: "\<exists>w'. ListApplications env w = (Inr (orderApplications (db_apps (w_db w))), w')"
    using assms by (auto simp: ListApplications_def exec_def wrapErr_def)
  have o: "set (orderApplications rows) = set rows" for rows
    by (auto simp: orderApplications_def Let_def)
  have keys: "(\<forall>(port, svc) \<in> set d. Q port) \<longleftrightarrow> (\<forall>port \<in> fst ` set d. Q port)" for d :: "string gomap" and Q
    by force
  have "fst (checkPortConflicts env appName services w) = None \<longleftrightarrow> ?d = []
      \<or> fold (appConflicts (e_codec env) appName ?d) (orderApplications (db_apps (w_db w))) (reservedConflicts appName ?d) = []"
    using l unfolding checkPortConflicts_def Let_def by (elim exE) simp
  also have "\<dots> \<longleftrightarrow> (\<forall>(port, svc) \<in> set ?d. \<forall>owner. map_of reservedPorts port = Some owner \<longrightarrow> owner = appName)
      \<and> (\<forall>r \<in> set (db_apps (w_db w)). ar_Name r = appName \<or> snapshotPorts (e_codec env) r \<inter> fst ` set ?d = {})"
    by (subst fold_fill [where P = "\<lambda>r. \<not> (ar_Name r = appName \<or> snapshotPorts (e_codec env) r \<inter> fst ` set ?d = {})"])
       (auto simp: appConflicts_Nil reservedConflicts_Nil o)
  also have "\<dots> \<longleftrightarrow> (\<forall>port. wantsPort services port \<longrightarrow>
       (\<forall>owner. map_of reservedPorts port = Some owner \<longrightarrow> owner = appName)
     \<and> (\<forall>r \<in> set (db_apps (w_db w)). ar_Name r \<noteq> appName \<longrightarrow> port \<notin> snapshotPorts (e_codec env) r))"
    unfolding keys desiredPorts_dom by blast
  finally show ?thesis .
qed

theorem checkPortConflicts_iff_witness:
  "fst (checkPortConflicts (demoEnv (\<lambda>c p. []) []) ''web''
      [demoSpec ''web'' ''nginx''\<lparr>sp_Ports := [\<lparr>HostPort = ''8080'', ContainerPort = ''80'', Protocol = ''tcp''\<rparr>]\<rparr>] emptyWorld) \<noteq> None"
proof -
  let ?s = "[demoSpec ''web'' ''nginx''\<lparr>sp_Ports := [\<lparr>HostPort = ''8080'', ContainerPort = ''80'', Protocol = ''tcp''\<rparr>]\<rparr>]"
  have "wantsPort ?s ''8080''" "map_of reservedPorts ''8080'' = Some ''dockercd''" "''dockercd'' \<noteq> ''web''"
    by (simp_all add: wantsPort_def reservedPorts_def)
  moreover have "e_dbErr (demoEnv (\<lambda>c p. []) []) (w_trace emptyWorld) = None"
    by (simp add: demoEnv_def)
  ultimately show ?thesis
    using checkPortConflicts_iff [of "demoEnv (\<lambda>c p. []) []" emptyWorld "''web''" ?s] by metis
qed

end
