(* ===== verification/Deployer.thy ===== *)
theory Deployer
  imports Effects
begin

text \<open>
  The deployer (\<^verbatim>\<open>src/src/internal/deployer/deployer.go\<close> and \<^verbatim>\<open>compose.go\<close>): the translation of a
  deployment request into \<^verbatim>\<open>docker compose\<close> commands, and their order. The locale
  \<open>deployer_contract\<close> states what the reconciler relies on for any deployer; the plain one is an
  interpretation here, and the blue-green one in the theory \<^verbatim>\<open>BlueGreen\<close>.
\<close>

section \<open>Requests and commands\<close>

record DeployRequest =
  dr_ProjectName :: string
  dr_ComposeFiles :: "string list"
  dr_WorkDir :: string
  dr_Pull :: bool
  dr_Prune :: bool
  dr_DockerHost :: string
  dr_PreSyncServices :: "string list"
  dr_PostSyncServices :: "string list"
  dr_HealthTimeout :: duration
  dr_TLSCertPath :: string

definition baseArgs :: "DeployRequest \<Rightarrow> string list" where
  "baseArgs req = ''compose'' # concat (map (\<lambda>f. [''-f'', f]) (dr_ComposeFiles req))
     @ (if dr_ProjectName req \<noteq> [] then [''-p'', dr_ProjectName req] else [])"

definition appendEnv :: "Env \<Rightarrow> string list option \<Rightarrow> string \<Rightarrow> string list option" where
  "appendEnv env e kv = Some ((case e of None \<Rightarrow> e_environ env | Some xs \<Rightarrow> xs) @ [kv])"

definition command :: "Env \<Rightarrow> DeployRequest \<Rightarrow> string list \<Rightarrow> Command" where
  "command env req args =
     (let e0 = None;
          e1 = (if dr_DockerHost req \<noteq> [] then appendEnv env e0 (''DOCKER_HOST='' @ dr_DockerHost req) else e0);
          e2 = (if dr_TLSCertPath req \<noteq> []
                then appendEnv env (appendEnv env e1 ''DOCKER_TLS_VERIFY=1'') (''DOCKER_CERT_PATH='' @ dr_TLSCertPath req)
                else e1)
      in \<lparr>cmd_Args = args, cmd_Dir = dr_WorkDir req, cmd_Env = e2\<rparr>)"

definition run :: "Env \<Rightarrow> DeployRequest \<Rightarrow> string list \<Rightarrow> trace \<Rightarrow> err option \<times> trace" where
  "run env req args t =
     (let cmd = command env req args;
          r = (case e_run env t cmd of
                 None \<Rightarrow> None
               | Some (e, stderr) \<Rightarrow>
                   (let errOutput = TrimSpace stderr
                    in Some (if errOutput \<noteq> [] then Wrapf ''%w: %s'' [errOutput] e else e)))
      in (r, t @ [Ran cmd r]))"

section \<open>Operations\<close>

definition RunHook :: "Env \<Rightarrow> DeployRequest \<Rightarrow> string \<Rightarrow> trace \<Rightarrow> err option \<times> trace" where
  "RunHook env req serviceName t =
     (case run env req (baseArgs req @ [''run'', ''--rm'', serviceName]) t of
        (Some e, t) \<Rightarrow> (Some (Wrapf ''hook %q failed: %w'' [serviceName] e), t)
      | (None, t) \<Rightarrow> (None, t))"

definition Pull :: "Env \<Rightarrow> DeployRequest \<Rightarrow> trace \<Rightarrow> err option \<times> trace" where
  "Pull env req t =
     (case run env req (baseArgs req @ [''pull'']) t of
        (Some e, t) \<Rightarrow> (Some (Wrapf ''pull failed: %w'' [] e), t)
      | (None, t) \<Rightarrow> (None, t))"

definition upArgs :: "DeployRequest \<Rightarrow> string list" where
  "upArgs req = baseArgs req @ [''up'', ''-d''] @ (if dr_Prune req then [''--remove-orphans''] else [])"

definition DeployServices :: "Env \<Rightarrow> DeployRequest \<Rightarrow> string list \<Rightarrow> trace \<Rightarrow> err option \<times> trace" where
  "DeployServices env req serviceNames t =
     (case run env req (upArgs req @ serviceNames) t of
        (Some e, t) \<Rightarrow> (Some (Wrapf ''up services failed: %w'' [] e), t)
      | (None, t) \<Rightarrow> (None, t))"

definition Down :: "Env \<Rightarrow> DeployRequest \<Rightarrow> trace \<Rightarrow> err option \<times> trace" where
  "Down env req t =
     (case run env req (baseArgs req @ [''down'', ''--remove-orphans'']) t of
        (Some e, t) \<Rightarrow> (Some (Wrapf ''down failed: %w'' [] e), t)
      | (None, t) \<Rightarrow> (None, t))"

text \<open>The two loops of \<^verbatim>\<open>Deploy\<close>: the first stops at a failure, the second logs and goes on.\<close>

fun preSync :: "Env \<Rightarrow> DeployRequest \<Rightarrow> string list \<Rightarrow> trace \<Rightarrow> err option \<times> trace" where
  "preSync env req [] t = (None, t)"
| "preSync env req (svc # svcs) t =
     (case RunHook env req svc t of
        (Some e, t) \<Rightarrow> (Some (Wrapf ''pre-sync hook failed: %w'' [] e), t)
      | (None, t) \<Rightarrow> preSync env req svcs t)"

fun postSync :: "Env \<Rightarrow> DeployRequest \<Rightarrow> string list \<Rightarrow> trace \<Rightarrow> trace" where
  "postSync env req [] t = t"
| "postSync env req (svc # svcs) t = postSync env req svcs (snd (RunHook env req svc t))"

definition Deploy :: "Env \<Rightarrow> DeployRequest \<Rightarrow> trace \<Rightarrow> err option \<times> trace" where
  "Deploy env req t =
     (case preSync env req (dr_PreSyncServices req) t of
        (Some e, t) \<Rightarrow> (Some e, t)
      | (None, t) \<Rightarrow>
          (case (if dr_Pull req then Pull env req t else (None, t)) of
             (Some e, t) \<Rightarrow> (Some e, t)
           | (None, t) \<Rightarrow>
               (case run env req (upArgs req) t of
                  (Some e, t) \<Rightarrow> (Some (Wrapf ''up failed: %w'' [] e), t)
                | (None, t) \<Rightarrow> (None, postSync env req (dr_PostSyncServices req) t))))"

text \<open>The interface \<^verbatim>\<open>Deployer\<close> as the record of its methods, and the receiver that \<^verbatim>\<open>New\<close> builds.\<close>

record DeployerI =
  d_Deploy :: "DeployRequest \<Rightarrow> trace \<Rightarrow> err option \<times> trace"
  d_Pull :: "DeployRequest \<Rightarrow> trace \<Rightarrow> err option \<times> trace"
  d_DeployServices :: "DeployRequest \<Rightarrow> string list \<Rightarrow> trace \<Rightarrow> err option \<times> trace"
  d_Down :: "DeployRequest \<Rightarrow> trace \<Rightarrow> err option \<times> trace"
  d_RunHook :: "DeployRequest \<Rightarrow> string \<Rightarrow> trace \<Rightarrow> err option \<times> trace"

definition ComposeDeployer :: "Env \<Rightarrow> DeployerI" where
  "ComposeDeployer env = \<lparr>d_Deploy = Deploy env, d_Pull = Pull env, d_DeployServices = DeployServices env,
     d_Down = Down env, d_RunHook = RunHook env\<rparr>"

section \<open>What a command addresses\<close>

text \<open>The project (\<^verbatim>\<open>-p\<close>) and the verb of a \<^verbatim>\<open>docker compose\<close> command line, past its file flags.\<close>

fun projectFlag :: "string list \<Rightarrow> string option" where
  "projectFlag (a # b # rest) = (if a = ''-f'' then projectFlag rest else if a = ''-p'' then Some b else None)"
| "projectFlag _ = None"

fun composeVerb :: "string list \<Rightarrow> string option" where
  "composeVerb (a # b # rest) = (if a = ''-f'' \<or> a = ''-p'' then composeVerb rest else Some a)"
| "composeVerb [a] = Some a"
| "composeVerb [] = None"

definition cmdProject :: "Command \<Rightarrow> string option" where
  "cmdProject c = (if take 1 (cmd_Args c) = [''compose''] then projectFlag (drop 1 (cmd_Args c)) else None)"

definition cmdVerb :: "Command \<Rightarrow> string option" where
  "cmdVerb c = (if take 1 (cmd_Args c) = [''compose''] then composeVerb (drop 1 (cmd_Args c)) else None)"

lemma projectFlag_files: "projectFlag (concat (map (\<lambda>f. [''-f'', f]) fs) @ rest) = projectFlag rest"
  by (induction fs) auto

lemma composeVerb_files: "composeVerb (concat (map (\<lambda>f. [''-f'', f]) fs) @ rest) = composeVerb rest"
  by (induction fs) auto

lemma cmd_Args_command [simp]: "cmd_Args (command env req args) = args"
  by (simp add: command_def Let_def)

lemma cmdProject_base [simp]:
  "dr_ProjectName req \<noteq> [] \<Longrightarrow> cmdProject (command env req (baseArgs req @ rest)) = Some (dr_ProjectName req)"
  by (simp add: cmdProject_def baseArgs_def projectFlag_files)

lemma cmdVerb_base:
  "v \<notin> {''-f'', ''-p''} \<Longrightarrow> cmdVerb (command env req (baseArgs req @ v # rest)) = Some v"
  by (cases rest) (auto simp: cmdVerb_def baseArgs_def composeVerb_files)

text \<open>
  An event confined to a set of projects: a command on one of them (an image pull changes no
  project), an inspection of one of them, or the end of a wait.
\<close>

fun confinedTo :: "string set \<Rightarrow> event \<Rightarrow> bool" where
  "confinedTo P (Ran c r) = (cmdVerb c = Some ''pull'' \<or> (\<exists>p \<in> P. cmdProject c = Some p))"
| "confinedTo P (Inspected d r) = (ProjectName d \<in> P)"
| "confinedTo P (Stopped s) = True"
| "confinedTo P e = False"

lemma confinedTo_mono: "confinedTo P e \<Longrightarrow> P \<subseteq> Q \<Longrightarrow> confinedTo Q e"
  by (cases e) auto

text \<open>A deployment applied something: an \<^verbatim>\<open>up\<close> of one of the projects succeeded since the trace.\<close>

definition applied :: "string set \<Rightarrow> trace \<Rightarrow> trace \<Rightarrow> bool" where
  "applied P t t' \<longleftrightarrow> (\<exists>c p. Ran c None \<in> set (drop (length t) t') \<and> cmdVerb c = Some ''up'' \<and> cmdProject c = Some p \<and> p \<in> P)"

section \<open>The contract of a deployer\<close>

locale deployer_contract =
  fixes dep :: DeployerI and owned :: "string \<Rightarrow> string set"
  assumes owned_self: "p \<in> owned p"
    and Deploy_confined: "dr_ProjectName req \<noteq> [] \<Longrightarrow>
      grows (confinedTo (owned (dr_ProjectName req))) t (snd (d_Deploy dep req t))"
    and Pull_confined: "dr_ProjectName req \<noteq> [] \<Longrightarrow>
      grows (confinedTo (owned (dr_ProjectName req))) t (snd (d_Pull dep req t))"
    and DeployServices_confined: "dr_ProjectName req \<noteq> [] \<Longrightarrow>
      grows (confinedTo (owned (dr_ProjectName req))) t (snd (d_DeployServices dep req svcs t))"
    and Down_confined: "dr_ProjectName req \<noteq> [] \<Longrightarrow>
      grows (confinedTo (owned (dr_ProjectName req))) t (snd (d_Down dep req t))"
    and RunHook_confined: "dr_ProjectName req \<noteq> [] \<Longrightarrow>
      grows (confinedTo (owned (dr_ProjectName req))) t (snd (d_RunHook dep req svc t))"
    and Deploy_applies: "dr_ProjectName req \<noteq> [] \<Longrightarrow> fst (d_Deploy dep req t) = None \<Longrightarrow>
      applied (owned (dr_ProjectName req)) t (snd (d_Deploy dep req t))"
    and DeployServices_applies: "dr_ProjectName req \<noteq> [] \<Longrightarrow> fst (d_DeployServices dep req svcs t) = None \<Longrightarrow>
      applied (owned (dr_ProjectName req)) t (snd (d_DeployServices dep req svcs t))"
begin

lemmas confined = Deploy_confined Pull_confined DeployServices_confined Down_confined RunHook_confined

text \<open>Nothing but an image pull reaches a project that the request does not own.\<close>

lemma foreign_untouched:
  assumes "grows (confinedTo (owned p)) t t'" and "q \<notin> owned p"
    and "Ran c r \<in> set (drop (length t) t')" and "cmdProject c = Some q"
  shows "cmdVerb c = Some ''pull''"
proof -
  have "confinedTo (owned p) (Ran c r)"
    using growsD [OF assms(1)] assms(3) unfolding list_all_iff by blast
  with assms(2,4) show ?thesis by auto
qed

end

section \<open>The plain deployer keeps the contract\<close>

lemma run_result:
  "snd (run env req args t) = t @ [Ran (command env req args) (fst (run env req args t))]"
  by (simp add: run_def Let_def)

definition hookCmd :: "Env \<Rightarrow> DeployRequest \<Rightarrow> string \<Rightarrow> Command" where
  "hookCmd env req svc = command env req (baseArgs req @ [''run'', ''--rm'', svc])"

lemma ops_snd:
  "snd (RunHook env req svc t) = snd (run env req (baseArgs req @ [''run'', ''--rm'', svc]) t)"
  "snd (Pull env req t) = snd (run env req (baseArgs req @ [''pull'']) t)"
  "snd (DeployServices env req svcs t) = snd (run env req (upArgs req @ svcs) t)"
  "snd (Down env req t) = snd (run env req (baseArgs req @ [''down'', ''--remove-orphans'']) t)"
  by (auto simp: RunHook_def Pull_def DeployServices_def Down_def split: prod.split option.split)

lemma ops_None:
  "fst (RunHook env req svc t) = None \<longleftrightarrow> fst (run env req (baseArgs req @ [''run'', ''--rm'', svc]) t) = None"
  "fst (Pull env req t) = None \<longleftrightarrow> fst (run env req (baseArgs req @ [''pull'']) t) = None"
  "fst (DeployServices env req svcs t) = None \<longleftrightarrow> fst (run env req (upArgs req @ svcs) t) = None"
  "fst (Down env req t) = None \<longleftrightarrow> fst (run env req (baseArgs req @ [''down'', ''--remove-orphans'']) t) = None"
  by (auto simp: RunHook_def Pull_def DeployServices_def Down_def split: prod.split option.split)

lemma upArgs_base: "upArgs req @ rest = baseArgs req @ ''up'' # (''-d'' # (if dr_Prune req then [''--remove-orphans''] else []) @ rest)"
  by (simp add: upArgs_def)

lemma up_project [simp]:
  "dr_ProjectName req \<noteq> [] \<Longrightarrow> cmdProject (command env req (upArgs req @ rest)) = Some (dr_ProjectName req)"
  "cmdVerb (command env req (upArgs req @ rest)) = Some ''up''"
  unfolding upArgs_base by (simp, rule cmdVerb_base, simp)

text \<open>The commands that must succeed for a deployment to succeed, in order, and those that follow it.\<close>

definition deployPlan :: "Env \<Rightarrow> DeployRequest \<Rightarrow> Command list" where
  "deployPlan env req = map (hookCmd env req) (dr_PreSyncServices req)
     @ (if dr_Pull req then [command env req (baseArgs req @ [''pull''])] else [])
     @ [command env req (upArgs req)]"

definition deployFollowUp :: "Env \<Rightarrow> DeployRequest \<Rightarrow> Command list" where
  "deployFollowUp env req = map (hookCmd env req) (dr_PostSyncServices req)"

text \<open>
  \<open>ranPlan cs r t t'\<close>: the commands were run in order, all with success, or up to the first failure,
  which is what \<open>r\<close> tells.
\<close>

definition ranPlan :: "Command list \<Rightarrow> err option \<Rightarrow> trace \<Rightarrow> trace \<Rightarrow> bool" where
  "ranPlan cs r t t' \<longleftrightarrow>
     (r = None \<and> t' = t @ map (\<lambda>c. Ran c None) cs)
   \<or> (\<exists>n e e'. n < length cs \<and> r = Some e \<and> isDeadlineExceeded e = isDeadlineExceeded e'
        \<and> t' = t @ map (\<lambda>c. Ran c None) (take n cs) @ [Ran (cs ! n) (Some e')])"

lemma ranPlan_Nil [simp]: "ranPlan [] r t t' \<longleftrightarrow> r = None \<and> t' = t"
  by (auto simp: ranPlan_def)

lemma ranPlan_single:
  "ranPlan [c] (fst (run env req args t)) t (snd (run env req args t))" if "c = command env req args"
  using that by (cases "fst (run env req args t)") (auto simp: ranPlan_def run_result)

lemma ranPlan_wrap: "ranPlan cs (Some e) t t' \<Longrightarrow> ranPlan cs (Some (Wrapf f xs e)) t t'"
  by (auto simp: ranPlan_def)

lemma ranPlan_fail: "ranPlan cs (Some e) t t' \<Longrightarrow> ranPlan (cs @ ds) (Some e) t t'"
  by (auto simp: ranPlan_def nth_append)

lemma ranPlan_trans:
  assumes "ranPlan cs None t t'" and "ranPlan ds r t' t''"
  shows "ranPlan (cs @ ds) r t t''"
proof -
  have t': "t' = t @ map (\<lambda>c. Ran c None) cs" using assms(1) by (simp add: ranPlan_def)
  from assms(2) consider "r = None" "t'' = t' @ map (\<lambda>c. Ran c None) ds"
    | n e e' where "n < length ds" "r = Some e" "isDeadlineExceeded e = isDeadlineExceeded e'"
        "t'' = t' @ map (\<lambda>c. Ran c None) (take n ds) @ [Ran (ds ! n) (Some e')]"
    by (auto simp: ranPlan_def)
  then show ?thesis
  proof cases
    case 2
    then have "length cs + n < length (cs @ ds)" "take (length cs + n) (cs @ ds) = cs @ take n ds"
        "(cs @ ds) ! (length cs + n) = ds ! n"
      by simp_all
    with 2 t' show ?thesis unfolding ranPlan_def by (intro disjI2) (metis append_assoc map_append)
  qed (auto simp: ranPlan_def t')
qed

lemma ranPlan_op:
  "ranPlan [hookCmd env req svc] (fst (RunHook env req svc t)) t (snd (RunHook env req svc t))"
  "ranPlan [command env req (baseArgs req @ [''pull''])] (fst (Pull env req t)) t (snd (Pull env req t))"
  by (auto simp: RunHook_def Pull_def hookCmd_def split: prod.split option.split
      intro!: ranPlan_wrap dest: ranPlan_single)
     (metis fst_conv ranPlan_single snd_conv)+

lemma preSync_ran:
  "ranPlan (map (hookCmd env req) svcs) (fst (preSync env req svcs t)) t (snd (preSync env req svcs t))"
proof (induction env req svcs t rule: preSync.induct)
  case (2 env req svc svcs t)
  obtain r t1 where h: "RunHook env req svc t = (r, t1)" by force
  have one: "ranPlan [hookCmd env req svc] r t t1" using ranPlan_op(1) [of env req svc t] h by simp
  show ?case
  proof (cases r)
    case None
    with 2 h one ranPlan_trans [of "[hookCmd env req svc]"] show ?thesis by simp
  next
    case (Some e)
    with h ranPlan_fail [OF ranPlan_wrap [OF one [unfolded Some]]] show ?thesis by simp
  qed
qed simp

lemma RunHook_snd: "snd (RunHook env req svc t)
    = t @ [Ran (hookCmd env req svc) (fst (run env req (baseArgs req @ [''run'', ''--rm'', svc]) t))]"
  by (simp add: ops_snd run_result hookCmd_def)

lemma postSync_ran:
  "\<exists>rs. length rs = length svcs \<and> postSync env req svcs t = t @ map2 Ran (map (hookCmd env req) svcs) rs"
proof (induction svcs arbitrary: t)
  case (Cons svc svcs)
  obtain rs where "length rs = length svcs"
    "postSync env req svcs (snd (RunHook env req svc t))
       = snd (RunHook env req svc t) @ map2 Ran (map (hookCmd env req) svcs) rs"
    using Cons by blast
  then show ?case
    by (intro exI [of _ "fst (run env req (baseArgs req @ [''run'', ''--rm'', svc]) t) # rs"]) (simp add: RunHook_snd)
qed simp

lemma Deploy_ran:
  "case Deploy env req t of
     (Some e, t') \<Rightarrow> ranPlan (deployPlan env req) (Some e) t t'
   | (None, t') \<Rightarrow> \<exists>rs. length rs = length (deployFollowUp env req)
       \<and> t' = t @ map (\<lambda>c. Ran c None) (deployPlan env req) @ map2 Ran (deployFollowUp env req) rs"
proof -
  obtain r1 t1 where p: "preSync env req (dr_PreSyncServices req) t = (r1, t1)" by force
  obtain r2 t2 where q: "(if dr_Pull req then Pull env req t1 else (None, t1)) = (r2, t2)" by force
  obtain r3 t3 where u: "run env req (upArgs req) t2 = (r3, t3)" by force
  note step1 = preSync_ran [of env req "dr_PreSyncServices req" t, unfolded p fst_conv snd_conv]
  have step2: "ranPlan (if dr_Pull req then [command env req (baseArgs req @ [''pull''])] else []) r2 t1 t2"
    using q ranPlan_op(2) [of env req t1] by (auto split: if_splits)
  note step3 = ranPlan_single [OF refl, of env req "upArgs req" t2, unfolded u fst_conv snd_conv]
  show ?thesis
  proof (cases r1)
    case (Some e)
    with p ranPlan_fail [OF step1 [unfolded Some]] show ?thesis by (simp add: Deploy_def deployPlan_def)
  next
    case None
    note s12 = ranPlan_trans [OF step1 [unfolded None] step2]
    show ?thesis
    proof (cases r2)
      case (Some e)
      with p q None ranPlan_fail [OF s12 [unfolded Some]] show ?thesis
        by (simp add: Deploy_def deployPlan_def)
    next
      case None2: None
      note s123 = ranPlan_trans [OF s12 [unfolded None2] step3]
      show ?thesis
      proof (cases r3)
        case (Some e)
        with p q u None None2 ranPlan_wrap [OF s123 [unfolded Some]] show ?thesis
          by (simp add: Deploy_def deployPlan_def)
      next
        case None3: None
        obtain rs where "length rs = length (dr_PostSyncServices req)"
          "postSync env req (dr_PostSyncServices req) t3 = t3 @ map2 Ran (map (hookCmd env req) (dr_PostSyncServices req)) rs"
          using postSync_ran by blast
        moreover have "t3 = t @ map (\<lambda>c. Ran c None) (deployPlan env req)"
          using s123 None3 by (simp add: ranPlan_def deployPlan_def)
        ultimately show ?thesis using p q u None None2 None3
          by (auto simp: Deploy_def deployFollowUp_def)
      qed
    qed
  qed
qed

text \<open>
  C5: A deployment runs exactly its plan: the pre-sync hooks in order, the image pull if it was asked
  for, then \<^verbatim>\<open>up -d\<close>, stopping at the first command that fails. It reports success if and only if all
  of them succeeded, and only then are the post-sync hooks run, each once and in order, whatever they
  answer. A failure is reported as a deadline failure exactly when the failed command's error is one.
\<close>

theorem Deploy_follows_plan:
  "case Deploy env req t of
     (Some e, t') \<Rightarrow> ranPlan (deployPlan env req) (Some e) t t'
   | (None, t') \<Rightarrow> \<exists>rs. length rs = length (deployFollowUp env req)
       \<and> t' = t @ map (\<lambda>c. Ran c None) (deployPlan env req) @ map2 Ran (deployFollowUp env req) rs"
  by (rule Deploy_ran)

lemma plan_project:
  assumes "dr_ProjectName req \<noteq> []" "c \<in> set (deployPlan env req) \<union> set (deployFollowUp env req)"
  shows "cmdProject c = Some (dr_ProjectName req)"
  using assms up_project(1) [OF assms(1), of env "[]"] by (auto simp: deployPlan_def deployFollowUp_def hookCmd_def split: if_splits)

lemma Deploy_events:
  assumes "Deploy env req t = (r, t')"
  obtains es where "t' = t @ es"
    "\<And>e. e \<in> set es \<Longrightarrow> \<exists>c r. e = Ran c r \<and> c \<in> set (deployPlan env req) \<union> set (deployFollowUp env req)"
    "r = None \<Longrightarrow> Ran (command env req (upArgs req)) None \<in> set es"
proof (cases r)
  case None
  then obtain rs where t': "t' = t @ map (\<lambda>c. Ran c None) (deployPlan env req) @ map2 Ran (deployFollowUp env req) rs"
    using Deploy_ran [of env req t] assms by auto
  show ?thesis
    by (rule that [OF t']) (auto dest: set_zip_leftD simp: deployPlan_def)
next
  case (Some e)
  then obtain n e' where n: "n < length (deployPlan env req)"
    and t': "t' = t @ map (\<lambda>c. Ran c None) (take n (deployPlan env req)) @ [Ran (deployPlan env req ! n) (Some e')]"
    using Deploy_ran [of env req t] assms by (auto simp: ranPlan_def)
  show ?thesis
    by (rule that [OF t']) (use n Some in \<open>auto dest: in_set_takeD\<close>)
qed

lemma one_command_confined:
  "dr_ProjectName req \<noteq> [] \<Longrightarrow> grows (confinedTo {dr_ProjectName req}) t (snd (run env req (baseArgs req @ rest) t))"
  by (simp add: run_result)

interpretation compose: deployer_contract "ComposeDeployer env" "\<lambda>p. {p}" for env
proof
  fix req :: DeployRequest and t :: trace
  assume p: "dr_ProjectName req \<noteq> []"
  obtain r t' where d: "Deploy env req t = (r, t')" by force
  obtain es where es: "t' = t @ es"
    "\<And>e. e \<in> set es \<Longrightarrow> \<exists>c r. e = Ran c r \<and> c \<in> set (deployPlan env req) \<union> set (deployFollowUp env req)"
    "r = None \<Longrightarrow> Ran (command env req (upArgs req)) None \<in> set es"
    using Deploy_events [OF d] by blast
  show "grows (confinedTo {dr_ProjectName req}) t (snd (d_Deploy (ComposeDeployer env) req t))"
    using d es plan_project [OF p] by (fastforce simp: ComposeDeployer_def list_all_iff)
  assume "fst (d_Deploy (ComposeDeployer env) req t) = None"
  then show "applied {dr_ProjectName req} t (snd (d_Deploy (ComposeDeployer env) req t))"
    using d es p up_project(1) [OF p, of env "[]"] up_project(2) [of env req "[]"] by (auto simp: ComposeDeployer_def applied_def)
qed (simp_all add: ComposeDeployer_def ops_snd ops_None one_command_confined upArgs_base [of _ "[]", simplified]
      upArgs_base run_result applied_def cmdVerb_base)

end
