(* ===== verification/BlueGreen.thy ===== *)
theory BlueGreen
  imports Deployer
begin

text \<open>
  Blue-green deployment (\<^verbatim>\<open>src/src/internal/deployer/bluegreen.go\<close>): a deployer that wraps another one
  and switches between the two coloured projects of an application. A wrapped deployer that keeps the
  contract gives a blue-green deployer that keeps it (a sublocale), and the switch itself is gated by
  an inspection that found the new colour healthy.
\<close>

section \<open>Colours\<close>

definition colorBlue :: string where "colorBlue = ''blue''"
definition colorGreen :: string where "colorGreen = ''green''"

definition coloredProject :: "string \<Rightarrow> string \<Rightarrow> string" where
  "coloredProject project color = project @ ''-'' @ color"

definition oppositeColor :: "string \<Rightarrow> string" where
  "oppositeColor activeColor = (if activeColor = colorBlue then colorGreen else colorBlue)"

text \<open>The loop over the two colours; a result is the active colour, its destination and its states.\<close>

fun activeColorFrom :: "Env \<Rightarrow> DestinationSpec \<Rightarrow> string list \<Rightarrow> trace
    \<Rightarrow> (string \<times> DestinationSpec \<times> ServiceState list) option result \<times> trace" where
  "activeColorFrom env dest [] t = (Inr None, t)"
| "activeColorFrom env dest (color # colors) t =
     (let colorDest = \<lparr>DockerHost = DockerHost dest, ProjectName = coloredProject (ProjectName dest) color\<rparr>
      in case Inspect env colorDest t of
           (Inl e, t) \<Rightarrow> (Inl (Wrapf ''inspecting %s project: %w'' [color] e), t)
         | (Inr states, t) \<Rightarrow>
             if list_ex (\<lambda>s. lv_Status s = ''running'') states then (Inr (Some (color, colorDest, states)), t)
             else activeColorFrom env dest colors t)"

definition ActiveBlueGreenState :: "Env \<Rightarrow> DestinationSpec \<Rightarrow> trace
    \<Rightarrow> (string \<times> DestinationSpec \<times> ServiceState list) option result \<times> trace" where
  "ActiveBlueGreenState env dest t = activeColorFrom env dest [colorBlue, colorGreen] t"

definition detectActiveColor :: "Env \<Rightarrow> DeployRequest \<Rightarrow> trace \<Rightarrow> string result \<times> trace" where
  "detectActiveColor env req t =
     (case ActiveBlueGreenState env \<lparr>DockerHost = dr_DockerHost req, ProjectName = dr_ProjectName req\<rparr> t of
        (Inl e, t) \<Rightarrow> (Inl e, t)
      | (Inr None, t) \<Rightarrow> (Inr [], t)
      | (Inr (Some (color, d, states)), t) \<Rightarrow> (Inr color, t))"

section \<open>The health gate\<close>

definition allHealthy :: "ServiceState list \<Rightarrow> bool" where
  "allHealthy states = (states \<noteq> [] \<and> list_all (\<lambda>s. lv_Health s = Healthy) states)"

text \<open>The number of ticks left before the context or the timer is selected, then the loop.\<close>

fun waitForHealthyTicks :: "nat \<Rightarrow> Env \<Rightarrow> DestinationSpec \<Rightarrow> trace \<Rightarrow> err option \<times> trace" where
  "waitForHealthyTicks 0 env dest t =
     (case e_stop env t of
        CtxDone e \<Rightarrow> (Some e, t @ [Stopped (CtxDone e)])
      | TimerFired \<Rightarrow> (Some (Errorf ''timeout after %s waiting for %s to become healthy'' [ProjectName dest]),
                       t @ [Stopped TimerFired]))"
| "waitForHealthyTicks (Suc n) env dest t =
     (case Inspect env dest t of
        (Inl e, t) \<Rightarrow> waitForHealthyTicks n env dest t
      | (Inr states, t) \<Rightarrow>
          if length states = 0 then waitForHealthyTicks n env dest t
          else if allHealthy states then (None, t)
          else waitForHealthyTicks n env dest t)"

definition waitForHealthy :: "Env \<Rightarrow> DestinationSpec \<Rightarrow> trace \<Rightarrow> err option \<times> trace" where
  "waitForHealthy env dest t = waitForHealthyTicks (e_ticks env t) env dest t"

section \<open>The deployer\<close>

definition bg_Deploy :: "Env \<Rightarrow> DeployerI \<Rightarrow> DeployRequest \<Rightarrow> trace \<Rightarrow> err option \<times> trace" where
  "bg_Deploy env inner req t =
     (case detectActiveColor env req t of
        (Inl e, t) \<Rightarrow> (Some (Wrapf ''blue-green: detecting active color: %w'' [] e), t)
      | (Inr activeColor, t) \<Rightarrow>
          (let newProject = coloredProject (dr_ProjectName req) (oppositeColor activeColor);
               newReq = req\<lparr>dr_ProjectName := newProject\<rparr>
           in case d_Deploy inner newReq t of
                (Some e, t) \<Rightarrow> (Some (Wrapf ''blue-green: deploying %s: %w'' [newProject] e), t)
              | (None, t) \<Rightarrow>
                  (case waitForHealthy env \<lparr>DockerHost = dr_DockerHost req, ProjectName = newProject\<rparr> t of
                     (Some e, t) \<Rightarrow>
                       (Some (Wrapf ''blue-green: new color %s failed health check: %w'' [newProject] e),
                        snd (d_Down inner (req\<lparr>dr_ProjectName := newProject\<rparr>) t))
                   | (None, t) \<Rightarrow>
                       (None,
                        if activeColor \<noteq> []
                        then snd (d_Down inner (req\<lparr>dr_ProjectName := coloredProject (dr_ProjectName req) activeColor\<rparr>) t)
                        else t))))"

fun bg_DownColors :: "DeployerI \<Rightarrow> DeployRequest \<Rightarrow> string list \<Rightarrow> err option \<Rightarrow> trace \<Rightarrow> err option \<times> trace" where
  "bg_DownColors inner req [] lastErr t = (lastErr, t)"
| "bg_DownColors inner req (color # colors) lastErr t =
     (case d_Down inner (req\<lparr>dr_ProjectName := coloredProject (dr_ProjectName req) color\<rparr>) t of
        (Some e, t) \<Rightarrow> bg_DownColors inner req colors (Some e) t
      | (None, t) \<Rightarrow> bg_DownColors inner req colors lastErr t)"

definition bg_Down :: "DeployerI \<Rightarrow> DeployRequest \<Rightarrow> trace \<Rightarrow> err option \<times> trace" where
  "bg_Down inner req t = bg_DownColors inner req [colorBlue, colorGreen] None t"

text \<open>\<^verbatim>\<open>Pull\<close>, \<^verbatim>\<open>DeployServices\<close> and \<^verbatim>\<open>RunHook\<close> delegate to the inner deployer.\<close>

definition NewBlueGreen :: "Env \<Rightarrow> DeployerI \<Rightarrow> DeployerI" where
  "NewBlueGreen env inner = \<lparr>d_Deploy = bg_Deploy env inner, d_Pull = d_Pull inner,
     d_DeployServices = d_DeployServices inner, d_Down = bg_Down inner, d_RunHook = d_RunHook inner\<rparr>"

definition bgOwned :: "string \<Rightarrow> string set" where
  "bgOwned p = {p, coloredProject p colorBlue, coloredProject p colorGreen}"

section \<open>Colours and inspection\<close>

lemma color_simps [simp]:
  "oppositeColor c \<noteq> c" "c \<noteq> oppositeColor c" "coloredProject p c = coloredProject p d \<longleftrightarrow> c = d" "coloredProject p c \<noteq> []"
  "oppositeColor c = colorBlue \<or> oppositeColor c = colorGreen"
  by (auto simp: oppositeColor_def coloredProject_def colorBlue_def colorGreen_def)

lemma coloredProject_owned:
  "c \<in> {colorBlue, colorGreen} \<Longrightarrow> coloredProject p c \<in> bgOwned p" "p \<in> bgOwned p"
  by (auto simp: bgOwned_def)

lemma Inspect_simps [simp]:
  "snd (Inspect env dest t) = t @ [Inspected dest (fst (Inspect env dest t))]"
  by (simp add: Inspect_def)

lemma activeColorFrom_spec:
  assumes "activeColorFrom env dest colors t = (r, t')"
  shows "grows (\<lambda>e. \<exists>c \<in> set colors. \<exists>d x. e = Inspected d x \<and> ProjectName d = coloredProject (ProjectName dest) c) t t'"
    and "r = Inr (Some (c, d, states)) \<Longrightarrow> c \<in> set colors \<and> d = \<lparr>DockerHost = DockerHost dest, ProjectName = coloredProject (ProjectName dest) c\<rparr>
           \<and> list_ex (\<lambda>s. lv_Status s = ''running'') states \<and> t' \<noteq> [] \<and> last t' = Inspected d (Inr states)"
  using assms
proof (induction env dest colors t rule: activeColorFrom.induct)
  case (2 env dest color colors t)
  define d0 where "d0 = \<lparr>DockerHost = DockerHost dest, ProjectName = coloredProject (ProjectName dest) color\<rparr>"
  obtain x t1 where i: "Inspect env d0 t = (x, t1)" by force
  then have t1: "t1 = t @ [Inspected d0 x]" by (auto simp: Inspect_def)
  {
    case 1
    show ?case
    proof (cases x)
      case (Inr states)
      show ?thesis
      proof (cases "list_ex (\<lambda>s. lv_Status s = ''running'') states")
        case True
        then show ?thesis using 1 Inr i t1 d0_def by (auto simp: Let_def)
      next
        case False
        then have "activeColorFrom env dest colors t1 = (r, t')" using 1 Inr i d0_def by (auto simp: Let_def)
        from "2.IH"(1) [OF d0_def i [symmetric] Inr False this]
        have "grows (\<lambda>e. \<exists>c \<in> set (color # colors). \<exists>d x. e = Inspected d x \<and> ProjectName d = coloredProject (ProjectName dest) c) t1 t'"
          by (rule grows_mono) auto
        then show ?thesis by (rule grows_trans [rotated]) (simp add: t1 d0_def)
      qed
    qed (use 1 i t1 d0_def in \<open>auto simp: Let_def\<close>)
  next
    case 2
    then show ?case
      using i t1 d0_def "2.IH"(2) [OF d0_def i [symmetric]]
      by (auto simp: Let_def split: sum.splits if_splits)
  }
qed (auto simp: grows_def)

lemma detectActiveColor_spec:
  assumes "detectActiveColor env req t = (r, t')"
  shows "grows (confinedTo (bgOwned (dr_ProjectName req))) t t'" "commandsOf t' = commandsOf t"
    and "r = Inr c \<Longrightarrow> c \<in> {[], colorBlue, colorGreen}"
proof -
  obtain x t1 where a: "activeColorFrom env \<lparr>DockerHost = dr_DockerHost req, ProjectName = dr_ProjectName req\<rparr> [colorBlue, colorGreen] t = (x, t1)"
    by force
  have t': "t' = t1" and r: "r = (case x of Inl e \<Rightarrow> Inl e | Inr None \<Rightarrow> Inr [] | Inr (Some (c, d, s)) \<Rightarrow> Inr c)"
    using assms a by (auto simp: detectActiveColor_def ActiveBlueGreenState_def split: sum.splits option.splits)
  note sp = activeColorFrom_spec [OF a]
  show "grows (confinedTo (bgOwned (dr_ProjectName req))) t t'"
    unfolding t' by (rule grows_mono [OF sp(1)]) (auto simp: bgOwned_def)
  obtain es where es: "t1 = t @ es" "list_all (\<lambda>e. \<exists>c \<in> set [colorBlue, colorGreen]. \<exists>d x. e = Inspected d x \<and> ProjectName d = coloredProject (dr_ProjectName req) c) es"
    using sp(1) by (auto simp: grows_def)
  have "commandsOf es = []" using es(2) by (induction es) auto
  then show "commandsOf t' = commandsOf t" by (simp add: t' es)
  show "r = Inr c \<Longrightarrow> c \<in> {[], colorBlue, colorGreen}"
    using sp(2) r by (auto split: sum.splits option.splits)
qed

lemma waitForHealthyTicks_Suc:
  assumes "waitForHealthyTicks (Suc n) env dest t = (r, t')"
  obtains (healthy) states where "r = None" "t' = t @ [Inspected dest (Inr states)]" "allHealthy states"
    | (again) x where "waitForHealthyTicks n env dest (t @ [Inspected dest x]) = (r, t')"
  using assms by (auto simp: Inspect_def split: sum.splits if_splits)

lemma waitForHealthyTicks_spec:
  assumes "waitForHealthyTicks n env dest t = (r, t')"
  shows "grows (\<lambda>e. (\<exists>x. e = Inspected dest x) \<or> (\<exists>s. e = Stopped s)) t t'
    \<and> (r = None \<longrightarrow> (\<exists>es states. t' = t @ es @ [Inspected dest (Inr states)] \<and> allHealthy states))
    \<and> length t' \<le> length t + Suc n"
  using assms
proof (induction n arbitrary: t)
  case 0
  then show ?case by (auto split: StopEvent.splits)
next
  case (Suc n)
  from Suc.prems show ?case
  proof (cases rule: waitForHealthyTicks_Suc)
    case (healthy states)
    then show ?thesis by auto
  next
    case (again x)
    from Suc.IH [OF again] show ?thesis
      by (auto intro: grows_trans [of _ _ "t @ [Inspected dest x]"])
  qed
qed

section \<open>The blue-green deployer keeps the contract\<close>

locale blue_green = deployer_contract inner "\<lambda>p. {p}" for inner :: DeployerI +
  fixes env :: Env
begin

text \<open>The four stages of a deployment whose active colour could be determined.\<close>

lemma bg_Deploy_stages:
  assumes "bg_Deploy env inner req t = (r, t')" and "detectActiveColor env req t = (Inr active, t0)"
  defines "new \<equiv> coloredProject (dr_ProjectName req) (oppositeColor active)"
    and "old \<equiv> coloredProject (dr_ProjectName req) active"
  obtains (failed) "r \<noteq> None" "grows (confinedTo {new}) t0 t'"
    | (switched) t1 es states es' where "r = None" "grows (confinedTo {new}) t0 t1" "applied {new} t0 t1"
        "grows (confinedTo {new}) t1 (t1 @ es @ [Inspected \<lparr>DockerHost = dr_DockerHost req, ProjectName = new\<rparr> (Inr states)])"
        "allHealthy states"
        "t' = t1 @ es @ [Inspected \<lparr>DockerHost = dr_DockerHost req, ProjectName = new\<rparr> (Inr states)] @ es'"
        "list_all (confinedTo {old}) es'" "active = [] \<longrightarrow> es' = []"
proof -
  have ne: "new \<noteq> []" "old \<noteq> []" by (simp_all add: new_def old_def)
  obtain r1 t1 where d: "d_Deploy inner (req\<lparr>dr_ProjectName := new\<rparr>) t0 = (r1, t1)" by force
  have g1: "grows (confinedTo {new}) t0 t1"
    using Deploy_confined [of "req\<lparr>dr_ProjectName := new\<rparr>" t0] ne d by simp
  let ?dest = "\<lparr>DockerHost = dr_DockerHost req, ProjectName = new\<rparr>"
  obtain r2 t2 where w: "waitForHealthy env ?dest t1 = (r2, t2)" by force
  have w': "waitForHealthyTicks (e_ticks env t1) env ?dest t1 = (r2, t2)" using w by (simp add: waitForHealthy_def)
  have g2: "grows (confinedTo {new}) t1 t2"
    by (rule grows_mono [OF conjunct1 [OF waitForHealthyTicks_spec [OF w']]]) auto
  show thesis
  proof (cases r1)
    case (Some e)
    then show ?thesis using assms(1,2) d g1 new_def by (intro failed) (auto simp: bg_Deploy_def Let_def)
  next
    case None1: None
    show ?thesis
    proof (cases r2)
      case (Some e)
      have g3: "grows (confinedTo {new}) t2 (snd (d_Down inner (req\<lparr>dr_ProjectName := new\<rparr>) t2))"
        using Down_confined [of "req\<lparr>dr_ProjectName := new\<rparr>" t2] ne by simp
      have "r \<noteq> None \<and> t' = snd (d_Down inner (req\<lparr>dr_ProjectName := new\<rparr>) t2)"
        using assms(1,2) d w None1 Some new_def by (auto simp: bg_Deploy_def Let_def)
      then show ?thesis using grows_trans [OF grows_trans [OF g1 g2] g3] by (intro failed) auto
    next
      case None2: None
      obtain es states where es: "t2 = t1 @ es @ [Inspected ?dest (Inr states)]" "allHealthy states"
        using waitForHealthyTicks_spec [OF w'] None2 by auto
      have r: "r = None" and t': "t' = (if active \<noteq> [] then snd (d_Down inner (req\<lparr>dr_ProjectName := old\<rparr>) t2) else t2)"
        using assms(1,2) d w None1 None2 new_def old_def by (auto simp: bg_Deploy_def Let_def)
      obtain es' where es': "t' = t2 @ es'" "list_all (confinedTo {old}) es'" "active = [] \<longrightarrow> es' = []"
        using Down_confined [of "req\<lparr>dr_ProjectName := old\<rparr>" t2] ne t' by (auto simp: grows_def split: if_splits)
      have "applied {new} t0 t1"
        using Deploy_applies [of "req\<lparr>dr_ProjectName := new\<rparr>" t0] d None1 ne by simp
      then show ?thesis using r g1 g2 es es' by (intro switched [of t1 es states es']) auto
    qed
  qed
qed

lemma bg_Deploy_confined: "grows (confinedTo (bgOwned (dr_ProjectName req))) t (snd (bg_Deploy env inner req t))"
proof -
  obtain x t0 where d: "detectActiveColor env req t = (x, t0)" by force
  note g0 = detectActiveColor_spec(1) [OF d]
  obtain r t' where b: "bg_Deploy env inner req t = (r, t')" by force
  have up: "grows (confinedTo (bgOwned (dr_ProjectName req))) u u'"
    if "grows (confinedTo {coloredProject (dr_ProjectName req) c}) u u'" "c \<in> {colorBlue, colorGreen}" for u u' c
    by (rule grows_mono [OF that(1)], erule confinedTo_mono) (use that(2) in \<open>auto simp: bgOwned_def\<close>)
  show ?thesis
  proof (cases x)
    case (Inl e)
    then show ?thesis using d g0 by (simp add: bg_Deploy_def)
  next
    case (Inr active)
    note act = detectActiveColor_spec(3) [OF d Inr]
    have opp: "oppositeColor active \<in> {colorBlue, colorGreen}" by simp
    from b d [unfolded Inr] show ?thesis
    proof (cases rule: bg_Deploy_stages)
      case failed
      then show ?thesis using grows_trans [OF g0 up [OF failed(2) opp]] b by simp
    next
      case (switched t1 es states es')
      have "list_all (confinedTo (bgOwned (dr_ProjectName req))) es'"
        using switched(7,8) act by (auto simp: list_all_iff bgOwned_def intro: confinedTo_mono)
      then have "grows (confinedTo (bgOwned (dr_ProjectName req))) t1 t'"
        using up [OF switched(4) opp] switched(6) by auto
      then show ?thesis using grows_trans [OF g0 grows_trans [OF up [OF switched(2) opp]]] b by simp
    qed
  qed
qed

lemma bg_Deploy_applies:
  assumes "fst (bg_Deploy env inner req t) = None"
  shows "applied (bgOwned (dr_ProjectName req)) t (snd (bg_Deploy env inner req t))"
proof -
  obtain x t0 where d: "detectActiveColor env req t = (x, t0)" by force
  obtain r t' where b: "bg_Deploy env inner req t = (r, t')" by force
  obtain active where x: "x = Inr active" using assms d by (cases x) (auto simp: bg_Deploy_def)
  obtain es0 where t0: "t0 = t @ es0" using detectActiveColor_spec(1) [OF d] by (auto simp: grows_def)
  from b d [unfolded x] show ?thesis
  proof (cases rule: bg_Deploy_stages)
    case failed
    then show ?thesis using assms b by simp
  next
    case (switched t1 es states es')
    obtain es1 where "t1 = t0 @ es1" using switched(2) by (auto simp: grows_def)
    then show ?thesis
      using switched(3,6) t0 b by (auto simp: applied_def bgOwned_def)
  qed
qed

lemma bg_DownColors_confined:
  "set colors \<subseteq> {colorBlue, colorGreen} \<Longrightarrow>
   grows (confinedTo (bgOwned (dr_ProjectName req))) t (snd (bg_DownColors inner req colors lastErr t))"
proof (induction colors arbitrary: lastErr t)
  case (Cons color colors)
  obtain r t1 where d: "d_Down inner (req\<lparr>dr_ProjectName := coloredProject (dr_ProjectName req) color\<rparr>) t = (r, t1)" by force
  have "grows (confinedTo {coloredProject (dr_ProjectName req) color}) t t1"
    using Down_confined [of "req\<lparr>dr_ProjectName := coloredProject (dr_ProjectName req) color\<rparr>" t] d by simp
  then have "grows (confinedTo (bgOwned (dr_ProjectName req))) t t1"
    by (rule grows_mono) (use Cons.prems in \<open>auto simp: bgOwned_def elim!: confinedTo_mono\<close>)
  then show ?case
    using Cons d by (auto split: option.split intro: grows_trans)
qed simp

lemma bg_Down_confined: "grows (confinedTo (bgOwned (dr_ProjectName req))) t (snd (bg_Down inner req t))"
  unfolding bg_Down_def by (rule bg_DownColors_confined) simp

lemma bg_owned_mono: "grows (confinedTo {p}) t t' \<Longrightarrow> grows (confinedTo (bgOwned p)) t t'"
  by (erule grows_mono, erule confinedTo_mono) (simp add: bgOwned_def)

lemma bg_applied_mono: "applied {p} t t' \<Longrightarrow> applied (bgOwned p) t t'"
  by (auto simp: applied_def bgOwned_def)

end

sublocale blue_green \<subseteq> bg: deployer_contract "NewBlueGreen env inner" bgOwned
  by unfold_locales
    (simp_all add: NewBlueGreen_def bg_Down_confined bg_Deploy_confined bg_Deploy_applies
      bg_owned_mono confined bg_applied_mono DeployServices_applies, simp add: bgOwned_def)

interpretation compose_bg: blue_green "ComposeDeployer env" env for env
  by unfold_locales

section \<open>The switch\<close>


definition shopRequest :: DeployRequest where
  "shopRequest = \<lparr>dr_ProjectName = ''shop'', dr_ComposeFiles = [''/data/git/docker-compose.yml''], dr_WorkDir = ''/data/git'',
     dr_Pull = True, dr_Prune = False, dr_DockerHost = [], dr_PreSyncServices = [], dr_PostSyncServices = [],
     dr_HealthTimeout = 0, dr_TLSCertPath = []\<rparr>"

definition shopEnv :: Env where
  "shopEnv = demoEnv (\<lambda>cmds p. if p = ''shop-green'' \<or> cmds \<noteq> [] then [demoState ''web'' ''nginx''] else []) []"

lemma shop_detect:
  "fst (detectActiveColor shopEnv shopRequest []) = Inr ''green''"
  by code_simp

lemma shop_deploy:
  "fst (d_Deploy (NewBlueGreen shopEnv (ComposeDeployer shopEnv)) shopRequest []) = None"
  by code_simp


end
