(* ===== verification/Breaker.thy ===== *)
theory Breaker
  imports App_Types
begin

text \<open>
  The circuit breaker of an application (\<^verbatim>\<open>src/src/internal/reconciler/worker.go\<close>): its three states,
  its operations, and the refinement of the machine by a specification over the history of what was
  recorded.
\<close>

section \<open>State and operations\<close>

datatype CircuitState = CircuitClosed | CircuitOpen | CircuitHalfOpen

text \<open>The zero \<^verbatim>\<open>time.Time\<close> of a breaker without a failure is \<^const>\<open>None\<close>; it is read in the open state only.\<close>

record CircuitBreaker =
  cb_state :: CircuitState
  cb_failureCount :: nat
  cb_lastFailure :: "time option"
  cb_maxFailures :: nat
  cb_resetTimeout :: duration

definition NewCircuitBreaker :: "nat \<Rightarrow> duration \<Rightarrow> CircuitBreaker" where
  "NewCircuitBreaker maxFailures resetTimeout = \<lparr>cb_state = CircuitClosed, cb_failureCount = 0, cb_lastFailure = None,
     cb_maxFailures = maxFailures, cb_resetTimeout = resetTimeout\<rparr>"

text \<open>\<^verbatim>\<open>time.Since(cb.lastFailure) >= cb.resetTimeout\<close>; no bound holds for the zero time.\<close>

definition resetElapsed :: "time \<Rightarrow> CircuitBreaker \<Rightarrow> bool" where
  "resetElapsed now cb = (case cb_lastFailure cb of None \<Rightarrow> True | Some f \<Rightarrow> now - f \<ge> cb_resetTimeout cb)"

definition Allow :: "time \<Rightarrow> CircuitBreaker \<Rightarrow> bool \<times> CircuitBreaker" where
  "Allow now cb = (case cb_state cb of
      CircuitClosed \<Rightarrow> (True, cb)
    | CircuitOpen \<Rightarrow> if resetElapsed now cb then (True, cb\<lparr>cb_state := CircuitHalfOpen\<rparr>) else (False, cb)
    | CircuitHalfOpen \<Rightarrow> (True, cb))"

definition RecordSuccess :: "CircuitBreaker \<Rightarrow> CircuitBreaker" where
  "RecordSuccess cb = cb\<lparr>cb_failureCount := 0, cb_state := CircuitClosed\<rparr>"

definition RecordFailure :: "time \<Rightarrow> CircuitBreaker \<Rightarrow> CircuitBreaker" where
  "RecordFailure now cb =
     (let cb1 = cb\<lparr>cb_failureCount := cb_failureCount cb + 1, cb_lastFailure := Some now\<rparr>
      in if cb_state cb1 = CircuitHalfOpen then cb1\<lparr>cb_state := CircuitOpen\<rparr>
         else if cb_failureCount cb1 \<ge> cb_maxFailures cb1 then cb1\<lparr>cb_state := CircuitOpen\<rparr>
         else cb1)"

section \<open>The breaker as a state machine\<close>

datatype BreakerOp = OpAllow time | OpSuccess | OpFailure time

fun breakerStep :: "CircuitBreaker \<Rightarrow> BreakerOp \<Rightarrow> CircuitBreaker" where
  "breakerStep cb (OpAllow now) = snd (Allow now cb)"
| "breakerStep cb OpSuccess = RecordSuccess cb"
| "breakerStep cb (OpFailure now) = RecordFailure now cb"

definition runBreaker :: "nat \<Rightarrow> duration \<Rightarrow> BreakerOp list \<Rightarrow> CircuitBreaker" where
  "runBreaker m r ops = foldl breakerStep (NewCircuitBreaker m r) ops"

text \<open>
  The specification reads the history: the failures since the last success, the last failure, and
  whether an attempt was let through after it (the latest operation is the head of the list).
\<close>

fun failuresSince :: "BreakerOp list \<Rightarrow> nat" where
  "failuresSince [] = 0"
| "failuresSince (OpSuccess # ops) = 0"
| "failuresSince (OpFailure now # ops) = Suc (failuresSince ops)"
| "failuresSince (OpAllow now # ops) = failuresSince ops"

fun lastFailureIn :: "BreakerOp list \<Rightarrow> time option" where
  "lastFailureIn [] = None"
| "lastFailureIn (OpFailure now # ops) = Some now"
| "lastFailureIn (op # ops) = lastFailureIn ops"

fun probed :: "duration \<Rightarrow> BreakerOp list \<Rightarrow> bool" where
  "probed r (OpAllow now # ops) = (probed r ops \<or> (\<exists>f. lastFailureIn ops = Some f \<and> now - f \<ge> r))"
| "probed r _ = False"

lemma runBreaker_snoc: "runBreaker m r (ops @ [op]) = breakerStep (runBreaker m r ops) op"
  by (simp add: runBreaker_def)

lemmas breaker_defs = Allow_def RecordSuccess_def RecordFailure_def resetElapsed_def Let_def

lemma failuresSince_last: "failuresSince ops > 0 \<Longrightarrow> lastFailureIn ops \<noteq> None"
  by (induction ops rule: failuresSince.induct) auto

text \<open>The machine's state is a function of the history.\<close>

lemma runBreaker_refines:
  assumes "0 < m"
  shows "cb_failureCount (runBreaker m r ops) = failuresSince (rev ops)
    \<and> cb_lastFailure (runBreaker m r ops) = lastFailureIn (rev ops)
    \<and> cb_maxFailures (runBreaker m r ops) = m \<and> cb_resetTimeout (runBreaker m r ops) = r
    \<and> cb_state (runBreaker m r ops) =
        (if failuresSince (rev ops) < m then CircuitClosed else if probed r (rev ops) then CircuitHalfOpen else CircuitOpen)"
proof (induction ops rule: rev_induct)
  case Nil
  then show ?case using assms by (simp add: runBreaker_def NewCircuitBreaker_def)
next
  case (snoc op ops)
  have l: "\<not> failuresSince (rev ops) < m \<Longrightarrow> lastFailureIn (rev ops) \<noteq> None"
    using assms failuresSince_last [of "rev ops"] by simp
  show ?case
    using snoc assms l by (cases op) (auto simp: runBreaker_snoc breaker_defs split: if_splits)
qed



text \<open>
  While no outcome is recorded, a half-open breaker lets every attempt through, not one: the comment
  of \<^verbatim>\<open>CircuitHalfOpen\<close> ("allow one attempt") is stronger than the code.
\<close>

lemma half_open_admits_all:
  assumes "cb_state cb = CircuitHalfOpen"
  shows "fst (Allow now cb) \<and> snd (Allow now cb) = cb"
  using assms by (simp add: Allow_def)

end
