(* ===== verification/Differ.thy ===== *)
theory Differ
  imports App_Types
begin

text \<open>
  The diff engine (\<^verbatim>\<open>src/src/internal/differ\<close>): field-level comparison of a desired service with a live
  one (\<^verbatim>\<open>compare.go\<close>), the three-way diff of whole service lists (\<^verbatim>\<open>differ.go\<close>) and its summary
  (\<^verbatim>\<open>summary.go\<close>).

  \<open>serviceMatches\<close> is the declarative meaning of "no field differs"; \<open>compareService\<close> implements it.
  The diff itself is characterised by the sets of names it must create, update and remove, and is
  shown not to depend on the order of its inputs nor on the iteration order of its maps.
\<close>

section \<open>Comparing fields\<close>

definition normalizeImage :: "string \<Rightarrow> string" where
  "normalizeImage img =
     (if img = [] then []
      else let img = (if \<not> Contains img '':'' then img @ '':latest'' else img)
           in case cut (CHR ''/'') img of
                None \<Rightarrow> ''docker.io/library/'' @ img
              | Some (p0, rest) \<Rightarrow>
                  if \<not> Contains p0 ''.'' \<and> \<not> Contains p0 '':'' then ''docker.io/'' @ img else img)"

definition fieldDiff :: "string \<Rightarrow> string \<Rightarrow> string \<Rightarrow> FieldDiff" where
  "fieldDiff f d l = \<lparr>fd_Field = f, fd_Desired = d, fd_Live = l\<rparr>"

text \<open>The body of the loop over the desired keys, then the loop.\<close>

definition envDiff :: "string gomap \<Rightarrow> string gomap \<Rightarrow> string \<Rightarrow> FieldDiff list" where
  "envDiff desired live key =
     (let dv = strAt desired key
      in case map_of live key of
           Some lv \<Rightarrow> if dv \<noteq> lv then [fieldDiff (''environment.'' @ key) dv lv] else []
         | None \<Rightarrow> [fieldDiff (''environment.'' @ key) dv []])"

definition compareEnvironment :: "string gomap \<Rightarrow> string gomap \<Rightarrow> FieldDiff list" where
  "compareEnvironment desired live =
     (if desired = [] then [] else concat (map (envDiff desired live) (sort (map fst desired))))"

definition isDockerManagedLabel :: "string \<Rightarrow> bool" where
  "isDockerManagedLabel key = (HasPrefix key ''desktop.docker.io/'' \<or> HasPrefix key ''com.docker.compose.'')"

definition labelDiff :: "string gomap \<Rightarrow> string gomap \<Rightarrow> string \<Rightarrow> FieldDiff list" where
  "labelDiff desired live key =
     (let dv = strAt desired key; lv = strAt live key;
          inDesired = (map_of desired key \<noteq> None); inLive = (map_of live key \<noteq> None)
      in if inDesired \<and> inLive \<and> dv \<noteq> lv then [fieldDiff (''labels.'' @ key) dv lv]
         else if inDesired \<and> \<not> inLive then [fieldDiff (''labels.'' @ key) dv []]
         else if \<not> inDesired \<and> inLive \<and> \<not> isDockerManagedLabel key then [fieldDiff (''labels.'' @ key) [] lv]
         else [])"

definition compareLabels :: "string gomap \<Rightarrow> string gomap \<Rightarrow> FieldDiff list" where
  "compareLabels desired live =
     (if desired = [] \<and> live = [] then []
      else
        let allKeys = remdups (map fst desired @ filter (\<lambda>k. \<not> isDockerManagedLabel k) (map fst live))
        in concat (map (labelDiff desired live) (sort allKeys)))"

text \<open>\<^verbatim>\<open>dedupStrings\<close> keeps the first of each string; \<open>seen\<close> is its set of strings met so far.\<close>

fun dedupStringsFrom :: "string list \<Rightarrow> string list \<Rightarrow> string list" where
  "dedupStringsFrom seen [] = []"
| "dedupStringsFrom seen (v # vs) =
     (if v \<in> set seen then dedupStringsFrom seen vs else v # dedupStringsFrom (v # seen) vs)"

definition dedupStrings :: "string list \<Rightarrow> string list" where
  "dedupStrings s = dedupStringsFrom [] s"

definition normalizedPort :: "PortMapping \<Rightarrow> string" where
  "normalizedPort p =
     (let proto = (if Protocol p = [] then ''tcp'' else Protocol p)
      in if HostPort p \<noteq> [] then HostPort p @ '':'' @ ContainerPort p @ ''/'' @ proto
         else ContainerPort p @ ''/'' @ proto)"

definition normalizedPorts :: "PortMapping list \<Rightarrow> string list" where
  "normalizedPorts ports = map normalizedPort ports"

definition portsEqual :: "PortMapping list \<Rightarrow> PortMapping list \<Rightarrow> bool" where
  "portsEqual desired live =
     (if desired = [] then True
      else let liveSet = dedupStrings (normalizedPorts live)
           in list_all (\<lambda>p. p \<in> set liveSet) (dedupStrings (normalizedPorts desired)))"

definition formatPorts :: "PortMapping list \<Rightarrow> string" where
  "formatPorts ports = Join (sort (normalizedPorts ports)) '', ''"

definition isNamedVolume :: "string \<Rightarrow> bool" where
  "isNamedVolume source = (source \<noteq> [] \<and> \<not> HasPrefix source ''/'' \<and> \<not> HasPrefix source ''.'')"

definition isDockerSocket :: "string \<Rightarrow> bool" where
  "isDockerSocket target = (target = ''/var/run/docker.sock'' \<or> target = ''/run/docker.sock'')"

definition volumesEqual :: "VolumeMount list \<Rightarrow> VolumeMount list \<Rightarrow> bool" where
  "volumesEqual desired live =
     (if desired = [] then True
      else let liveByTarget = index_by vm_Target live
           in list_all (\<lambda>dv. case map_of liveByTarget (vm_Target dv) of
                  None \<Rightarrow> False
                | Some lv \<Rightarrow>
                    if vm_ReadOnly dv \<noteq> vm_ReadOnly lv then False
                    else if \<not> isNamedVolume (vm_Source dv) \<and> \<not> isDockerSocket (vm_Target dv)
                            \<and> vm_Source dv \<noteq> vm_Source lv then False
                    else True) desired)"

definition normalizedVolumes :: "VolumeMount list \<Rightarrow> string list" where
  "normalizedVolumes vols =
     map (\<lambda>v. let s = vm_Target v;
                 s = (if vm_Source v \<noteq> [] then vm_Source v @ '':'' @ s else s)
             in if vm_ReadOnly v then s @ '':ro'' else s) vols"

definition formatVolumes :: "VolumeMount list \<Rightarrow> string" where
  "formatVolumes vols = Join (sort (normalizedVolumes vols)) '', ''"

definition stringSetsEqual :: "string list \<Rightarrow> string list \<Rightarrow> bool" where
  "stringSetsEqual a b =
     (if length a \<noteq> length b then False
      else if length a = 0 then True
      else list_all2 (=) (sort a) (sort b))"

definition stringSlicesEqual :: "string list \<Rightarrow> string list \<Rightarrow> bool" where
  "stringSlicesEqual a b =
     (if length a = 0 \<and> length b = 0 then True
      else if length a \<noteq> length b then False
      else list_all2 (=) a b)"

definition filterDefaultNetworks :: "string list \<Rightarrow> string list" where
  "filterDefaultNetworks networks = filter (\<lambda>n. \<not> HasSuffix n ''_default'') networks"

definition joinSorted :: "string list \<Rightarrow> string" where
  "joinSorted strs = Join (sort strs) '', ''"

definition compareService :: "ServiceSpec \<Rightarrow> ServiceState \<Rightarrow> FieldDiff list" where
  "compareService desired live =
     (if normalizeImage (sp_Image desired) \<noteq> normalizeImage (lv_Image live)
      then [fieldDiff ''image'' (sp_Image desired) (lv_Image live)] else [])
   @ compareEnvironment (sp_Environment desired) (lv_Environment live)
   @ (if \<not> portsEqual (sp_Ports desired) (lv_Ports live)
      then [fieldDiff ''ports'' (formatPorts (sp_Ports desired)) (formatPorts (lv_Ports live))] else [])
   @ (if \<not> volumesEqual (sp_Volumes desired) (lv_Volumes live)
      then [fieldDiff ''volumes'' (formatVolumes (sp_Volumes desired)) (formatVolumes (lv_Volumes live))] else [])
   @ (let liveNets = filterDefaultNetworks (lv_Networks live)
      in if \<not> stringSetsEqual (sp_Networks desired) liveNets
         then [fieldDiff ''networks'' (joinSorted (sp_Networks desired)) (joinSorted liveNets)] else [])
   @ compareLabels (sp_Labels desired) (lv_Labels live)
   @ (if sp_RestartPolicy desired \<noteq> [] \<and> sp_RestartPolicy desired \<noteq> lv_RestartPolicy live
      then [fieldDiff ''restartPolicy'' (sp_RestartPolicy desired) (lv_RestartPolicy live)] else [])
   @ (if sp_Command desired \<noteq> [] \<and> \<not> stringSlicesEqual (sp_Command desired) (lv_Command live)
      then [fieldDiff ''command'' (Join (sp_Command desired) '' '') (Join (lv_Command live) '' '')] else [])
   @ (if sp_Entrypoint desired \<noteq> [] \<and> \<not> stringSlicesEqual (sp_Entrypoint desired) (lv_Entrypoint live)
      then [fieldDiff ''entrypoint'' (Join (sp_Entrypoint desired) '' '') (Join (lv_Entrypoint live) '' '')] else [])"

section \<open>Diffing service lists\<close>

definition serviceNames :: "ServiceDiff list \<Rightarrow> string list" where
  "serviceNames diffs = map ServiceName diffs"

definition serviceNamesWithFields :: "ServiceDiff list \<Rightarrow> string list" where
  "serviceNamesWithFields diffs =
     map (\<lambda>d. ServiceName d @ '': '' @ Join (map fd_Field (Fields d)) '', '') diffs"

definition buildSummary :: "DiffResult \<Rightarrow> string" where
  "buildSummary diff =
     (if InSync diff then ''All services in sync''
      else Join
        ((if length (ToCreate diff) > 0
          then [Itoa (length (ToCreate diff)) @ '' to create ('' @ Join (serviceNames (ToCreate diff)) '', '' @ '')'']
          else [])
       @ (if length (ToUpdate diff) > 0
          then [Itoa (length (ToUpdate diff)) @ '' to update ('' @ Join (serviceNamesWithFields (ToUpdate diff)) ''; '' @ '')'']
          else [])
       @ (if length (ToRemove diff) > 0
          then [Itoa (length (ToRemove diff)) @ '' to remove ('' @ Join (serviceNames (ToRemove diff)) '', '' @ '')'']
          else [])) ''; '')"

definition indexDesiredByName :: "ServiceSpec list \<Rightarrow> ServiceSpec gomap" where
  "indexDesiredByName services = index_by sp_Name services"

definition indexLiveByName :: "ServiceState list \<Rightarrow> ServiceState gomap" where
  "indexLiveByName services = index_by lv_Name services"

definition sortDiffs :: "ServiceDiff list \<Rightarrow> ServiceDiff list" where
  "sortDiffs diffs = sort_key ServiceName diffs"

text \<open>A desired service that is left out of the comparison: ignored, or a one-shot hook.\<close>

definition isExcluded :: "ServiceSpec \<Rightarrow> bool" where
  "isExcluded s = (strAt (sp_Labels s) IgnoreDriftLabel = ''true'' \<or> map_of (sp_Labels s) HookLabel \<noteq> None)"

definition createDiff :: "string \<Rightarrow> ServiceSpec \<Rightarrow> ServiceDiff" where
  "createDiff name s = \<lparr>ServiceName = name, ChangeKind = ChangeCreate, Fields = [],
     DesiredState = Some s, LiveState = None\<rparr>"

definition removeDiff :: "string \<Rightarrow> ServiceState \<Rightarrow> ServiceDiff" where
  "removeDiff name s = \<lparr>ServiceName = name, ChangeKind = ChangeRemove, Fields = [],
     DesiredState = None, LiveState = Some s\<rparr>"

definition updateDiff :: "string \<Rightarrow> ServiceSpec \<Rightarrow> ServiceState \<Rightarrow> ServiceDiff" where
  "updateDiff name s st = \<lparr>ServiceName = name, ChangeKind = ChangeUpdate, Fields = compareService s st,
     DesiredState = Some s, LiveState = Some st\<rparr>"

definition Diff :: "ServiceSpec list \<Rightarrow> ServiceState list \<Rightarrow> DiffResult" where
  "Diff desired live =
     (let filtered = filter (\<lambda>s. \<not> isExcluded s) desired;
          ignoredNames = map sp_Name (filter isExcluded desired);
          filteredLive = filter (\<lambda>s. lv_Name s \<notin> set ignoredNames) live;
          desiredMap = indexDesiredByName filtered;
          liveMap = indexLiveByName filteredLive;
          toCreate = concat (map (\<lambda>(name, spec).
              if map_of liveMap name = None then [createDiff name spec] else []) desiredMap);
          toRemove = concat (map (\<lambda>(name, state).
              if map_of desiredMap name = None then [removeDiff name state] else []) liveMap);
          toUpdate = concat (map (\<lambda>(name, spec).
              case map_of liveMap name of
                None \<Rightarrow> []
              | Some state \<Rightarrow> if compareService spec state \<noteq> [] then [updateDiff name spec state] else [])
              desiredMap);
          toCreate = sortDiffs toCreate; toUpdate = sortDiffs toUpdate; toRemove = sortDiffs toRemove;
          result = \<lparr>InSync = (length toCreate = 0 \<and> length toUpdate = 0 \<and> length toRemove = 0),
                    ToCreate = toCreate, ToUpdate = toUpdate, ToRemove = toRemove, Summary = []\<rparr>
      in result\<lparr>Summary := buildSummary result\<rparr>)"

section \<open>What the comparisons decide\<close>

lemma normalizeImage_idem: "normalizeImage (normalizeImage img) = normalizeImage img"
proof (cases "img = []")
  case False
  define im where "im = (if \<not> Contains img '':'' then img @ '':latest'' else img)"
  have colon: "CHR '':'' \<in> set im"
    by (auto simp: im_def Contains_byte)
  have step: "normalizeImage img = (case cut (CHR ''/'') im of
      None \<Rightarrow> ''docker.io/library/'' @ im
    | Some (p0, rest) \<Rightarrow> if \<not> Contains p0 ''.'' \<and> \<not> Contains p0 '':'' then ''docker.io/'' @ im else im)"
    unfolding normalizeImage_def Let_def im_def by (simp only: False if_False)
  have fixed: "normalizeImage (p0 @ CHR ''/'' # rest) = p0 @ CHR ''/'' # rest"
    if "CHR '':'' \<in> set (p0 @ rest)" "CHR ''/'' \<notin> set p0" "CHR ''.'' \<in> set p0 \<or> CHR '':'' \<in> set p0" for p0 rest
    using that by (auto simp: normalizeImage_def Contains_byte Let_def)
  have hub: "normalizeImage (''docker.io/'' @ rest) = ''docker.io/'' @ rest" if "CHR '':'' \<in> set rest" for rest
    using fixed [of "''docker.io''" rest] that by simp
  show ?thesis
  proof (cases "cut (CHR ''/'') im")
    case None
    then have "normalizeImage img = ''docker.io/'' @ ''library/'' @ im"
      by (simp add: step)
    then show ?thesis using hub [of "''library/'' @ im"] colon by simp
  next
    case (Some pr)
    obtain p0 rest where pr: "pr = (p0, rest)" by force
    then have im: "im = p0 @ CHR ''/'' # rest" "CHR ''/'' \<notin> set p0" using Some by (auto simp: cut_Some)
    have eq: "normalizeImage img = (if CHR ''.'' \<notin> set p0 \<and> CHR '':'' \<notin> set p0 then ''docker.io/'' @ im else im)"
      using Some pr by (simp add: step Contains_byte)
    show ?thesis
      using eq hub [of im] colon fixed [of p0 rest] im by (auto split: if_splits)
  qed
qed (simp add: normalizeImage_def)

lemma dedupStringsFrom_set: "set (dedupStringsFrom seen vs) = set vs - set seen"
  by (induction seen vs rule: dedupStringsFrom.induct) auto

lemma dedupStringsFrom_distinct: "distinct (dedupStringsFrom seen vs)"
  by (induction seen vs rule: dedupStringsFrom.induct) (auto simp: dedupStringsFrom_set)

lemma dedupStrings_set [simp]: "set (dedupStrings vs) = set vs"
  by (simp add: dedupStrings_def dedupStringsFrom_set)

lemma portsEqual_iff: "portsEqual desired live \<longleftrightarrow> normalizedPort ` set desired \<subseteq> normalizedPort ` set live"
  by (auto simp: portsEqual_def normalizedPorts_def list_all_iff)

lemma list_all2_eq_iff: "list_all2 (=) xs ys \<longleftrightarrow> xs = ys"
  by (simp add: list.rel_eq)

lemma sort_eq_iff_mset: "sort xs = sort ys \<longleftrightarrow> mset xs = mset ys"
  by (metis mset_sort sort_determined)

lemma stringSetsEqual_iff: "stringSetsEqual a b \<longleftrightarrow> mset a = mset b"
proof -
  have "length a = length b" if "mset a = mset b" using that by (rule mset_eq_length)
  then show ?thesis
    unfolding stringSetsEqual_def list_all2_eq_iff sort_eq_iff_mset
    by (cases "length a = length b"; cases "length a = 0") (auto simp del: length_0_conv simp add: length_0_conv)
qed

lemma stringSlicesEqual_iff: "stringSlicesEqual a b \<longleftrightarrow> a = b"
  by (auto simp: stringSlicesEqual_def list_all2_eq_iff)

lemma envDiff_Nil: "envDiff desired live k = [] \<longleftrightarrow> map_of live k = Some (strAt desired k)"
  by (auto simp: envDiff_def Let_def split: option.splits)

lemma concat_map_Nil: "concat (map f xs) = [] \<longleftrightarrow> (\<forall>x \<in> set xs. f x = [])"
  by simp

lemma compareEnvironment_Nil:
  "compareEnvironment desired live = [] \<longleftrightarrow> (\<forall>k v. map_of desired k = Some v \<longrightarrow> map_of live k = Some v)"
proof (cases "desired = []")
  case False
  then have "compareEnvironment desired live = [] \<longleftrightarrow>
      (\<forall>k \<in> fst ` set desired. map_of live k = Some (strAt desired k))"
    unfolding compareEnvironment_def by (simp only: if_False concat_map_Nil set_sort set_map envDiff_Nil)
  also have "\<dots> \<longleftrightarrow> (\<forall>k v. map_of desired k = Some v \<longrightarrow> map_of live k = Some v)"
    unfolding Ball_def in_keys_iff by (auto simp: strAt_def split: option.splits)
  finally show ?thesis .
qed (simp add: compareEnvironment_def)

text \<open>Labels agree when they agree on every label that the user wrote or that Docker did not inject.\<close>

definition labelsAgree :: "string gomap \<Rightarrow> string gomap \<Rightarrow> bool" where
  "labelsAgree desired live \<longleftrightarrow>
     (\<forall>k. map_of desired k = map_of live k \<or> (isDockerManagedLabel k \<and> map_of desired k = None))"

lemma labelDiff_Nil:
  "labelDiff desired live k = [] \<longleftrightarrow>
     map_of desired k = map_of live k \<or> (isDockerManagedLabel k \<and> map_of desired k = None)"
  by (cases "map_of desired k"; cases "map_of live k") (simp_all add: labelDiff_def strAt_def)

lemma compareLabels_Nil: "compareLabels desired live = [] \<longleftrightarrow> labelsAgree desired live"
proof (cases "desired = [] \<and> live = []")
  case False
  then have "compareLabels desired live = [] \<longleftrightarrow>
      (\<forall>k \<in> fst ` set desired \<union> {k \<in> fst ` set live. \<not> isDockerManagedLabel k}.
         map_of desired k = map_of live k \<or> (isDockerManagedLabel k \<and> map_of desired k = None))"
    unfolding compareLabels_def Let_def
    by (simp only: if_False concat_map_Nil set_sort set_remdups set_append set_filter set_map labelDiff_Nil)
  also have "\<dots> \<longleftrightarrow> labelsAgree desired live"
    unfolding labelsAgree_def Ball_def Un_iff mem_Collect_eq in_keys_iff by metis
  finally show ?thesis .
qed (simp add: compareLabels_def labelsAgree_def)

definition volumeMatches :: "VolumeMount list \<Rightarrow> VolumeMount \<Rightarrow> bool" where
  "volumeMatches live dv \<longleftrightarrow>
     (\<exists>lv. map_of (index_by vm_Target live) (vm_Target dv) = Some lv \<and> vm_ReadOnly dv = vm_ReadOnly lv \<and>
        (isNamedVolume (vm_Source dv) \<or> isDockerSocket (vm_Target dv) \<or> vm_Source dv = vm_Source lv))"

lemma volumesEqual_iff: "volumesEqual desired live \<longleftrightarrow> (\<forall>dv \<in> set desired. volumeMatches live dv)"
proof -
  have "(case x of
           None \<Rightarrow> False
         | Some lv \<Rightarrow>
             if vm_ReadOnly dv \<noteq> vm_ReadOnly lv then False
             else if \<not> isNamedVolume (vm_Source dv) \<and> \<not> isDockerSocket (vm_Target dv)
                     \<and> vm_Source dv \<noteq> vm_Source lv then False
             else True)
       \<longleftrightarrow> (\<exists>lv. x = Some lv \<and> vm_ReadOnly dv = vm_ReadOnly lv \<and>
             (isNamedVolume (vm_Source dv) \<or> isDockerSocket (vm_Target dv) \<or> vm_Source dv = vm_Source lv))"
    for x :: "VolumeMount option" and dv :: VolumeMount
    by (cases x) auto
  then show ?thesis
    unfolding volumesEqual_def volumeMatches_def Let_def list_all_iff
    by (cases "desired = []") (simp_all only: if_True if_False if_cancel list.set ball_empty simp_thms)
qed

text \<open>The meaning of "the live service is what the specification asks for".\<close>

definition serviceMatches :: "ServiceSpec \<Rightarrow> ServiceState \<Rightarrow> bool" where
  "serviceMatches desired live \<longleftrightarrow>
     normalizeImage (sp_Image desired) = normalizeImage (lv_Image live)
   \<and> (\<forall>k v. map_of (sp_Environment desired) k = Some v \<longrightarrow> map_of (lv_Environment live) k = Some v)
   \<and> normalizedPort ` set (sp_Ports desired) \<subseteq> normalizedPort ` set (lv_Ports live)
   \<and> (\<forall>dv \<in> set (sp_Volumes desired). volumeMatches (lv_Volumes live) dv)
   \<and> mset (sp_Networks desired) = mset (filterDefaultNetworks (lv_Networks live))
   \<and> labelsAgree (sp_Labels desired) (lv_Labels live)
   \<and> (sp_RestartPolicy desired = [] \<or> sp_RestartPolicy desired = lv_RestartPolicy live)
   \<and> (sp_Command desired = [] \<or> sp_Command desired = lv_Command live)
   \<and> (sp_Entrypoint desired = [] \<or> sp_Entrypoint desired = lv_Entrypoint live)"

lemma compareService_Nil: "compareService desired live = [] \<longleftrightarrow> serviceMatches desired live"
  unfolding compareService_def serviceMatches_def Let_def
  by (simp add: compareEnvironment_Nil compareLabels_Nil portsEqual_iff volumesEqual_iff
      stringSetsEqual_iff stringSlicesEqual_iff)

section \<open>What the diff contains\<close>

text \<open>The services the diff compares, by name.\<close>

definition desiredAt :: "ServiceSpec list \<Rightarrow> string \<Rightarrow> ServiceSpec option" where
  "desiredAt desired = map_of (indexDesiredByName (filter (\<lambda>s. \<not> isExcluded s) desired))"

definition liveAt :: "ServiceSpec list \<Rightarrow> ServiceState list \<Rightarrow> string \<Rightarrow> ServiceState option" where
  "liveAt desired live =
     map_of (indexLiveByName (filter (\<lambda>s. lv_Name s \<notin> sp_Name ` set (filter isExcluded desired)) live))"

text \<open>A loop over a map that emits at most one entry, named by the key, for each key.\<close>

lemma emit_names:
  assumes "wf_map m" and "\<And>n v. (n, v) \<in> set m \<Longrightarrow> h (n, v) = [] \<or> (\<exists>d. h (n, v) = [d] \<and> ServiceName d = n)"
  shows "distinct (map ServiceName (concat (map h m))) \<and> set (map ServiceName (concat (map h m))) \<subseteq> fst ` set m"
  using assms
proof (induction m)
  case (Cons p m)
  obtain n v where p: "p = (n, v)" by force
  have IH: "distinct (map ServiceName (concat (map h m)))"
    "set (map ServiceName (concat (map h m))) \<subseteq> fst ` set m"
    using Cons by auto
  have n: "n \<notin> fst ` set m" using Cons.prems(1) p by simp
  have "h (n, v) = [] \<or> (\<exists>d. h (n, v) = [d] \<and> ServiceName d = n)"
    using Cons.prems(2) p by simp
  then show ?case
  proof
    assume "\<exists>d. h (n, v) = [d] \<and> ServiceName d = n"
    then obtain d where "h (n, v) = [d]" "ServiceName d = n" by blast
    then show ?thesis using IH n p by auto
  qed (use IH p in auto)
qed simp

lemma emit_set:
  "wf_map m \<Longrightarrow> d \<in> set (concat (map h m)) \<longleftrightarrow> (\<exists>n v. map_of m n = Some v \<and> d \<in> set (h (n, v)))"
  by (auto simp: map_of_eq_iff_mem)

lemma Diff_components:
  "ToCreate (Diff desired live) = sortDiffs (concat (map (\<lambda>(name, spec).
      if liveAt desired live name = None then [createDiff name spec] else [])
      (indexDesiredByName (filter (\<lambda>s. \<not> isExcluded s) desired))))"
  "ToRemove (Diff desired live) = sortDiffs (concat (map (\<lambda>(name, state).
      if desiredAt desired name = None then [removeDiff name state] else [])
      (indexLiveByName (filter (\<lambda>s. lv_Name s \<notin> sp_Name ` set (filter isExcluded desired)) live))))"
  "ToUpdate (Diff desired live) = sortDiffs (concat (map (\<lambda>(name, spec).
      case liveAt desired live name of None \<Rightarrow> []
      | Some state \<Rightarrow> if compareService spec state \<noteq> [] then [updateDiff name spec state] else [])
      (indexDesiredByName (filter (\<lambda>s. \<not> isExcluded s) desired))))"
  "InSync (Diff desired live) \<longleftrightarrow>
     ToCreate (Diff desired live) = [] \<and> ToUpdate (Diff desired live) = [] \<and> ToRemove (Diff desired live) = []"
  by (simp_all only: Diff_def Let_def liveAt_def desiredAt_def set_map DiffResult.simps length_0_conv)

lemma set_sortDiffs [simp]: "set (sortDiffs ds) = set ds"
  by (simp add: sortDiffs_def)

lemma sortDiffs_names [simp]: "set (map ServiceName (sortDiffs ds)) = set (map ServiceName ds)"
  by (simp add: sortDiffs_def)

lemma sortDiffs_sorted: "sorted (map ServiceName (sortDiffs ds))"
  by (simp add: sortDiffs_def)

lemma distinct_sort_key_map: "distinct (map f (sort_key f xs)) = distinct (map f xs)"
  by (metis distinct_map mset_eq_imp_distinct_iff mset_sort set_sort)

lemma sortDiffs_distinct: "distinct (map ServiceName (sortDiffs ds)) = distinct (map ServiceName ds)"
  by (simp add: sortDiffs_def distinct_sort_key_map)

lemma wf_indexes [simp]: "wf_map (indexDesiredByName ds)" "wf_map (indexLiveByName ls)"
  by (simp_all add: indexDesiredByName_def indexLiveByName_def)

lemma ToCreate_iff:
  "d \<in> set (ToCreate (Diff desired live)) \<longleftrightarrow>
     (\<exists>n s. desiredAt desired n = Some s \<and> liveAt desired live n = None \<and> d = createDiff n s)"
  unfolding Diff_components set_sortDiffs emit_set [OF wf_indexes(1)] desiredAt_def by auto

lemma ToRemove_iff:
  "d \<in> set (ToRemove (Diff desired live)) \<longleftrightarrow>
     (\<exists>n st. liveAt desired live n = Some st \<and> desiredAt desired n = None \<and> d = removeDiff n st)"
  unfolding Diff_components set_sortDiffs emit_set [OF wf_indexes(2)] liveAt_def by auto

lemma case_option_if_mem:
  "d \<in> set (case x of None \<Rightarrow> [] | Some a \<Rightarrow> if P a then [f a] else []) \<longleftrightarrow> (\<exists>a. x = Some a \<and> P a \<and> d = f a)"
  by (cases x) auto

lemma ToUpdate_iff:
  "d \<in> set (ToUpdate (Diff desired live)) \<longleftrightarrow>
     (\<exists>n s st. desiredAt desired n = Some s \<and> liveAt desired live n = Some st \<and> \<not> serviceMatches s st
        \<and> d = updateDiff n s st)"
  unfolding Diff_components set_sortDiffs emit_set [OF wf_indexes(1)] desiredAt_def compareService_Nil
    prod.case case_option_if_mem by blast

lemmas Diff_iffs = ToCreate_iff ToUpdate_iff ToRemove_iff

lemma Diff_sorted:
  "sorted (map ServiceName (ToCreate (Diff desired live)))" "distinct (map ServiceName (ToCreate (Diff desired live)))"
  "sorted (map ServiceName (ToUpdate (Diff desired live)))" "distinct (map ServiceName (ToUpdate (Diff desired live)))"
  "sorted (map ServiceName (ToRemove (Diff desired live)))" "distinct (map ServiceName (ToRemove (Diff desired live)))"
  unfolding Diff_components sortDiffs_distinct
  by (rule sortDiffs_sorted emit_names [THEN conjunct1] wf_indexes
      | force simp: createDiff_def updateDiff_def removeDiff_def split: option.splits if_splits)+

lemma empty_iff_no_member: "xs = [] \<longleftrightarrow> (\<forall>x. x \<notin> set xs)"
  by (cases xs) auto

section \<open>The diff when the names are unambiguous\<close>

text \<open>
  The parser returns the services of a map, and the inspector one state per service of a project, so
  the names of each list are distinct. The lookups then are membership.
\<close>

lemma desiredAt_distinct:
  assumes "distinct (map sp_Name desired)"
  shows "desiredAt desired n = Some s \<longleftrightarrow> s \<in> set desired \<and> \<not> isExcluded s \<and> sp_Name s = n"
  using map_of_index_by_distinct [OF distinct_map_filter [OF assms]]
  by (auto simp: desiredAt_def indexDesiredByName_def)

lemma liveAt_distinct:
  assumes "distinct (map lv_Name live)"
  shows "liveAt desired live n = Some st \<longleftrightarrow>
    st \<in> set live \<and> lv_Name st = n \<and> n \<notin> sp_Name ` set (filter isExcluded desired)"
  using map_of_index_by_distinct [OF distinct_map_filter [OF assms]]
  by (auto simp: liveAt_def indexLiveByName_def)

lemma desiredAt_None: "desiredAt desired n = None \<longleftrightarrow> n \<notin> sp_Name ` set (filter (\<lambda>s. \<not> isExcluded s) desired)"
  by (simp add: desiredAt_def indexDesiredByName_def)

lemma liveAt_None:
  "liveAt desired live n = None \<longleftrightarrow> n \<notin> lv_Name ` set live \<or> n \<in> sp_Name ` set (filter isExcluded desired)"
  by (auto simp: liveAt_def indexLiveByName_def)

lemma excluded_name_unique:
  assumes "distinct (map sp_Name desired)" "s \<in> set desired" "\<not> isExcluded s"
  shows "sp_Name s \<notin> sp_Name ` set (filter isExcluded desired)"
  using assms by (auto simp: distinct_map inj_on_def)

lemma diff_names [simp]:
  "ServiceName (createDiff n s) = n" "ServiceName (removeDiff n st) = n" "ServiceName (updateDiff n s st) = n"
  by (simp_all add: createDiff_def removeDiff_def updateDiff_def)

lemma ServiceName_image:
  "ServiceName ` set (ToCreate (Diff desired live)) = {n. desiredAt desired n \<noteq> None \<and> liveAt desired live n = None}"
  "ServiceName ` set (ToRemove (Diff desired live)) = {n. liveAt desired live n \<noteq> None \<and> desiredAt desired n = None}"
  "ServiceName ` set (ToUpdate (Diff desired live)) =
     {n. \<exists>s st. desiredAt desired n = Some s \<and> liveAt desired live n = Some st \<and> \<not> serviceMatches s st}"
  by (force simp: Diff_iffs image_iff)+

section \<open>The properties of the diff\<close>


text \<open>C4: With unambiguous names, the diff is in sync if and only if every compared desired service runs
  as specified and every live service is a desired one; \<^verbatim>\<open>ToCreate\<close> names exactly the desired services
  with no live counterpart, \<^verbatim>\<open>ToRemove\<close> exactly the live services nobody asked for, \<^verbatim>\<open>ToUpdate\<close> exactly the
  pairs that differ; and the three lists are sorted by name with no name twice.\<close>

theorem Diff_correct:
  assumes "distinct (map sp_Name desired)" and "distinct (map lv_Name live)"
  shows "(InSync (Diff desired live) \<longleftrightarrow>
      (\<forall>s \<in> set desired. isExcluded s \<or> (\<exists>st \<in> set live. lv_Name st = sp_Name s \<and> serviceMatches s st))
      \<and> lv_Name ` set live \<subseteq> sp_Name ` set desired)
    \<and> ServiceName ` set (ToCreate (Diff desired live)) = sp_Name ` {s \<in> set desired. \<not> isExcluded s} - lv_Name ` set live
    \<and> ServiceName ` set (ToRemove (Diff desired live)) = lv_Name ` set live - sp_Name ` set desired
    \<and> ServiceName ` set (ToUpdate (Diff desired live)) = {n. \<exists>s \<in> set desired. \<exists>st \<in> set live.
        sp_Name s = n \<and> lv_Name st = n \<and> \<not> isExcluded s \<and> \<not> serviceMatches s st}
    \<and> (\<forall>ds \<in> {ToCreate (Diff desired live), ToUpdate (Diff desired live), ToRemove (Diff desired live)}.
        sorted (map ServiceName ds) \<and> distinct (map ServiceName ds))"
  (is "?I \<and> ?C \<and> ?R \<and> ?U \<and> ?S")
proof -
  note D = desiredAt_distinct [OF assms(1)] and L = liveAt_distinct [OF assms(2)] and N = desiredAt_None liveAt_None
  note X = excluded_name_unique [OF assms(1)]
  have C: ?C unfolding ServiceName_image N using X by auto
  have R: ?R unfolding ServiceName_image N by auto
  have U: ?U unfolding ServiceName_image D L using X by fast
  have E: "InSync (Diff desired live) \<longleftrightarrow> ServiceName ` set (ToCreate (Diff desired live)) = {}
      \<and> ServiceName ` set (ToUpdate (Diff desired live)) = {} \<and> ServiceName ` set (ToRemove (Diff desired live)) = {}"
    unfolding Diff_components(4) by simp
  have inj: "st = st'" if "st \<in> set live" "st' \<in> set live" "lv_Name st = lv_Name st'" for st st'
    using assms(2) that by (auto simp: distinct_map inj_on_def)
  have I: ?I
  proof (intro iffI conjI ballI subsetI)
    fix s assume i: "InSync (Diff desired live)" and s: "s \<in> set desired"
    have "isExcluded s \<or> (\<exists>st \<in> set live. lv_Name st = sp_Name s)"
      using i s unfolding E C by force
    then show "isExcluded s \<or> (\<exists>st \<in> set live. lv_Name st = sp_Name s \<and> serviceMatches s st)"
      using i s unfolding E U by blast
  next
    fix n assume "InSync (Diff desired live)" and "n \<in> lv_Name ` set live"
    then show "n \<in> sp_Name ` set desired" unfolding E R by blast
  next
    assume a: "(\<forall>s \<in> set desired. isExcluded s \<or> (\<exists>st \<in> set live. lv_Name st = sp_Name s \<and> serviceMatches s st))
      \<and> lv_Name ` set live \<subseteq> sp_Name ` set desired"
    have "serviceMatches s st" if "s \<in> set desired" "st \<in> set live" "lv_Name st = sp_Name s" "\<not> isExcluded s" for s st
      using a that inj by metis
    then show "InSync (Diff desired live)"
      unfolding E C R U using a by force
  qed
  show ?thesis using I C R U by (simp add: Diff_sorted)
qed

lemma Diff_shape:
  "Diff desired live =
     (let r = \<lparr>InSync = (ToCreate (Diff desired live) = [] \<and> ToUpdate (Diff desired live) = [] \<and> ToRemove (Diff desired live) = []),
               ToCreate = ToCreate (Diff desired live), ToUpdate = ToUpdate (Diff desired live),
               ToRemove = ToRemove (Diff desired live), Summary = []\<rparr>
      in r\<lparr>Summary := buildSummary r\<rparr>)"
  by (simp only: Diff_def Let_def DiffResult.simps length_0_conv)

lemma Diff_eqI:
  "\<lbrakk>ToCreate (Diff desired live) = ToCreate (Diff desired' live'); ToUpdate (Diff desired live) = ToUpdate (Diff desired' live');
    ToRemove (Diff desired live) = ToRemove (Diff desired' live')\<rbrakk> \<Longrightarrow> Diff desired live = Diff desired' live'"
  by (subst (1 2) Diff_shape) (simp only:)

lemma Diff_lists_determined:
  assumes "distinct (map ServiceName xs)" "sorted (map ServiceName xs)"
    "distinct (map ServiceName ys)" "sorted (map ServiceName ys)" "set xs = set ys"
  shows "xs = ys"
  using assms by (intro sorted_distinct_set_unique_key) auto

text \<open>Neither the order of the compose file's services nor the order in which the daemon lists
  containers influences the diff: permuted inputs with unambiguous names give the same result, summary
  included.\<close>

theorem Diff_order_independent:
  assumes "mset desired = mset desired'" and "mset live = mset live'"
    and "distinct (map sp_Name desired)" and "distinct (map lv_Name live)"
  shows "Diff desired live = Diff desired' live'"
proof -
  have sets: "set desired = set desired'" "set live = set live'"
    using assms(1,2) by (auto dest: mset_eq_setD)
  have dist: "distinct (map sp_Name desired')" "distinct (map lv_Name live')"
    using assms by (metis mset_eq_imp_distinct_iff mset_map)+
  have at: "desiredAt desired = desiredAt desired'" "liveAt desired live = liveAt desired' live'"
    by (intro ext option_eqI; simp add: desiredAt_distinct liveAt_distinct assms(3,4) dist sets)+
  have "ToCreate (Diff desired live) = ToCreate (Diff desired' live')"
    "ToUpdate (Diff desired live) = ToUpdate (Diff desired' live')"
    "ToRemove (Diff desired live) = ToRemove (Diff desired' live')"
    by (rule Diff_lists_determined; (simp add: Diff_sorted; fail)?; simp add: set_eq_iff Diff_iffs at)+
  then show ?thesis
    by (rule Diff_eqI)
qed

section \<open>A concrete project\<close>

theorem Diff_correct_witness:
  "distinct (map sp_Name [demoSpec ''web'' ''nginx'', demoSpec ''db'' ''postgres:16''])
   \<and> distinct (map lv_Name [demoState ''web'' ''docker.io/library/nginx:latest'', demoState ''cron'' ''busybox''])
   \<and> ServiceName ` set (ToRemove (Diff [demoSpec ''web'' ''nginx'', demoSpec ''db'' ''postgres:16'']
         [demoState ''web'' ''docker.io/library/nginx:latest'', demoState ''cron'' ''busybox''])) = {''cron''}"
  using Diff_correct [of "[demoSpec ''web'' ''nginx'', demoSpec ''db'' ''postgres:16'']"
      "[demoState ''web'' ''docker.io/library/nginx:latest'', demoState ''cron'' ''busybox'']"]
  by (simp add: insert_Diff_if)

theorem Diff_order_independent_witness:
  "Diff [demoSpec ''web'' ''nginx'', demoSpec ''db'' ''postgres:16''] [demoState ''web'' ''nginx'', demoState ''cron'' ''busybox'']
   = Diff [demoSpec ''db'' ''postgres:16'', demoSpec ''web'' ''nginx''] [demoState ''cron'' ''busybox'', demoState ''web'' ''nginx'']"
  using Diff_order_independent [of "[demoSpec ''web'' ''nginx'', demoSpec ''db'' ''postgres:16'']"
      "[demoSpec ''db'' ''postgres:16'', demoSpec ''web'' ''nginx'']"
      "[demoState ''web'' ''nginx'', demoState ''cron'' ''busybox'']"
      "[demoState ''cron'' ''busybox'', demoState ''web'' ''nginx'']"]
  by (simp add: add_mset_commute)

end
