(* ===== verification/Reconciler.thy ===== *)
theory Reconciler
  imports Ports BlueGreen Breaker Differ
begin

text \<open>
  The reconciliation of one application (\<^verbatim>\<open>src/src/internal/reconciler/reconciler.go\<close>): from the stored
  manifest through Git, the parser, the port check, the inspector and the differ to a deployment, the
  health gates of its waves and the record of the result; dry runs, renderings and rollbacks. The
  receivers of the program's interfaces are the modelled ones (store, deployer, health monitor,
  differ); Git and the reading of compose files are answers of the environment.
\<close>

section \<open>State and dependencies\<close>

record RState = Monitor +
  r_breakers :: "CircuitBreaker gomap"

text \<open>\<^verbatim>\<open>HealthMonitor\<close>, \<^verbatim>\<open>Notifier\<close> and \<^verbatim>\<open>Broadcaster\<close> may be nil.\<close>

record Deps =
  dp_Deployer :: DeployerI
  dp_HealthMonitor :: "HealthConfig option"
  dp_Receivers :: Receivers

definition getBreaker :: "string \<Rightarrow> 'r RState_scheme \<Rightarrow> CircuitBreaker" where
  "getBreaker appName w = (case map_of (r_breakers w) appName of
      Some cb \<Rightarrow> cb | None \<Rightarrow> NewCircuitBreaker 3 (5 * Minute))"

definition setBreaker :: "string \<Rightarrow> CircuitBreaker \<Rightarrow> 'r RState_scheme \<Rightarrow> 'r RState_scheme" where
  "setBreaker appName cb w = w\<lparr>r_breakers := AList.update appName cb (r_breakers w)\<rparr>"

definition breakerFailure :: "Env \<Rightarrow> string \<Rightarrow> 'r RState_scheme \<Rightarrow> 'r RState_scheme" where
  "breakerFailure env appName w = setBreaker appName (RecordFailure (e_now env (w_trace w)) (getBreaker appName w)) w"

definition breakerSuccess :: "string \<Rightarrow> 'r RState_scheme \<Rightarrow> 'r RState_scheme" where
  "breakerSuccess appName w = setBreaker appName (RecordSuccess (getBreaker appName w)) w"

section \<open>Calls of the environment\<close>

definition gitSync :: "Env \<Rightarrow> SourceSpec \<Rightarrow> 'w World_scheme \<Rightarrow> string result \<times> 'w World_scheme" where
  "gitSync env src w = (let r = e_sync env (w_trace w) src in (r, w\<lparr>w_trace := w_trace w @ [GitSynced src r]\<rparr>))"

definition gitCheckout :: "Env \<Rightarrow> string \<Rightarrow> string \<Rightarrow> 'w World_scheme \<Rightarrow> err option \<times> 'w World_scheme" where
  "gitCheckout env url sha w =
     (let r = e_checkout env (w_trace w) url sha in (r, w\<lparr>w_trace := w_trace w @ [CheckedOut url sha r]\<rparr>))"

definition parseFiles :: "Env \<Rightarrow> string \<Rightarrow> string list \<Rightarrow> 'w World_scheme \<Rightarrow> ComposeSpec option result \<times> 'w World_scheme" where
  "parseFiles env dir files w =
     (let r = e_parse env (w_trace w) dir files in (r, w\<lparr>w_trace := w_trace w @ [Parsed dir files r]\<rparr>))"

definition onTrace :: "(trace \<Rightarrow> 'a \<times> trace) \<Rightarrow> 'w World_scheme \<Rightarrow> 'a \<times> 'w World_scheme" where
  "onTrace f w = (case f (w_trace w) of (r, t) \<Rightarrow> (r, w\<lparr>w_trace := t\<rparr>))"

section \<open>Recording\<close>

definition updateStatus :: "Env \<Rightarrow> string \<Rightarrow> StatusUpdate \<Rightarrow> 'w World_scheme \<Rightarrow> 'w World_scheme" where
  "updateStatus env appName update w = snd (UpdateApplicationStatus env appName update w)"

text \<open>The update of every failure: the health becomes degraded and the error is recorded.\<close>

definition degrade :: "Env \<Rightarrow> string \<Rightarrow> err \<Rightarrow> 'w World_scheme \<Rightarrow> 'w World_scheme" where
  "degrade env appName msg w =
     updateStatus env appName (noUpdate\<lparr>su_HealthStatus := Some Degraded, su_LastError := Some (Some msg)\<rparr>) w"

fun operationString :: "SyncOperation \<Rightarrow> string" where
  "operationString OpPoll = ''poll''"
| "operationString OpManual = ''manual''"
| "operationString OpSelfHeal = ''self-heal''"
| "operationString OpRollback = ''rollback''"
| "operationString OpAdopt = ''adopt''"

fun resultString :: "SyncResultStatus \<Rightarrow> string" where
  "resultString ResSuccess = ''success''"
| "resultString ResFailure = ''failure''"
| "resultString ResSkipped = ''skipped''"

definition newResult :: "string \<Rightarrow> time \<Rightarrow> SyncOperation \<Rightarrow> string \<Rightarrow> SyncResult" where
  "newResult appName startTime op sha = \<lparr>res_AppName = appName, res_StartedAt = startTime, res_FinishedAt = 0,
     res_CommitSHA = sha, res_Operation = op, res_Result = ResSkipped, res_Diff = None, res_Error = None,
     res_DurationMs = 0, res_ComposeSpecJSON = []\<rparr>"

definition completeResult :: "SyncResult \<Rightarrow> SyncResultStatus \<Rightarrow> err option \<Rightarrow> time \<Rightarrow> SyncResult" where
  "completeResult result status errMsg now = result\<lparr>res_FinishedAt := now, res_Result := status,
     res_DurationMs := (now - res_StartedAt result) div 1000000,
     res_Error := (if errMsg \<noteq> None then errMsg else res_Error result)\<rparr>"

definition syncRecordOf :: "Codec \<Rightarrow> SyncResult \<Rightarrow> SyncRecord" where
  "syncRecordOf codec result = \<lparr>sy_ID = [], sy_AppName = res_AppName result, sy_StartedAt = res_StartedAt result,
     sy_FinishedAt = Some (res_FinishedAt result), sy_CommitSHA = res_CommitSHA result, sy_Operation = res_Operation result,
     sy_Result = res_Result result,
     sy_DiffJSON = (case res_Diff result of None \<Rightarrow> [] | Some d \<Rightarrow> marshalDiff codec (RedactDiffResult d)),
     sy_ComposeSpecJSON = [], sy_Error = res_Error result, sy_DurationMs = res_DurationMs result, sy_CreatedAt = 0\<rparr>"

text \<open>The message of the event record and the notification.\<close>

definition resultMessage :: "SyncResult \<Rightarrow> SyncResultStatus \<Rightarrow> err option \<Rightarrow> err" where
  "resultMessage result status errMsg =
     (if status = ResFailure
      then (case errMsg of
              None \<Rightarrow> Errorf ''Sync failed (%s): '' [operationString (res_Operation result)]
            | Some e \<Rightarrow> Wrapf ''Sync failed (%s): %s'' [operationString (res_Operation result)] e)
      else if res_CommitSHA result \<noteq> []
      then Errorf ''Deployed %s via %s'' [take 7 (res_CommitSHA result), operationString (res_Operation result)]
      else Errorf ''Sync %s (%s)'' [resultString status, operationString (res_Operation result)])"

definition finishResult :: "Env \<Rightarrow> Deps \<Rightarrow> SyncResult \<Rightarrow> SyncResultStatus \<Rightarrow> err option \<Rightarrow> 'w World_scheme
    \<Rightarrow> (SyncResult option \<times> err option) \<times> 'w World_scheme" where
  "finishResult env deps result0 status errMsg w =
     (let result = completeResult result0 status errMsg (e_now env (w_trace w));
          w1 = snd (RecordSync env (syncRecordOf (e_codec env) result) w);
          message = resultMessage result status errMsg;
          failed = (status = ResFailure);
          w2 = (if status \<noteq> ResSkipped
                then notify env (dp_Receivers deps)
                       \<lparr>ne_Type = (if failed then ''sync.failure'' else ''sync.success''), ne_AppName = res_AppName result,
                        ne_Message = message, ne_Data = DataSync result\<rparr>
                       (snd (RecordEvent env \<lparr>er_ID = [], er_AppName = res_AppName result,
                          er_Type = (if failed then ''SyncError'' else ''SyncSuccess''), er_Message = message,
                          er_Severity = (if failed then ''error'' else ''info''), er_DataJSON = [], er_CreatedAt = 0\<rparr> w1))
                else w1)
      in ((Some result, errMsg),
          broadcast (dp_Receivers deps)
            \<lparr>be_Type = ''sync'', be_AppName = res_AppName result, be_Data = DataSync result\<rparr> w2))"

text \<open>
  A message derived from an operation's error: the deadline of the operation hides the error that it
  caused. \<^verbatim>\<open>ctx.Err()\<close> is read at the current trace.
\<close>

definition operationErrorMessage :: "Env \<Rightarrow> err \<Rightarrow> 'w World_scheme \<Rightarrow> err" where
  "operationErrorMessage env e w =
     (if (case e_ctxErr env (w_trace w) of None \<Rightarrow> False | Some c \<Rightarrow> isDeadlineExceeded c) \<or> isDeadlineExceeded e
      then Errorf ''sync timeout after %s'' [] else e)"

section \<open>Decisions on the diff and the compose file\<close>

definition hasImageChanges :: "DiffResult \<Rightarrow> bool" where
  "hasImageChanges diff =
     (length (ToCreate diff) > 0 \<or> list_ex (\<lambda>u. list_ex (\<lambda>f. fd_Field f = ''image'') (Fields u)) (ToUpdate diff))"

definition hasBlueGreenStrategy :: "ServiceSpec list \<Rightarrow> bool" where
  "hasBlueGreenStrategy services = list_ex (\<lambda>svc. strAt (sp_Labels svc) StrategyLabel = ''blue-green'') services"

definition hookServices :: "string \<Rightarrow> ServiceSpec list \<Rightarrow> string list" where
  "hookServices phase services = map sp_Name (filter (\<lambda>svc. strAt (sp_Labels svc) HookLabel = phase) services)"

record WaveGroup =
  Wave :: int
  Services :: "string list"

text \<open>The wave of a service: the number on its label, 0 without the label or with another text.\<close>

definition waveOf :: "ServiceSpec \<Rightarrow> int" where
  "waveOf svc = (case map_of (sp_Labels svc) SyncWaveLabel of
      None \<Rightarrow> 0 | Some waveStr \<Rightarrow> (case Atoi waveStr of None \<Rightarrow> 0 | Some w \<Rightarrow> w))"

definition isHookService :: "ServiceSpec \<Rightarrow> bool" where
  "isHookService svc = (map_of (sp_Labels svc) HookLabel \<noteq> None)"

definition addToWave :: "ServiceSpec \<Rightarrow> (int \<times> string list) list \<Rightarrow> (int \<times> string list) list" where
  "addToWave svc waveMap =
     (if isHookService svc then waveMap
      else AList.update (waveOf svc)
             ((case map_of waveMap (waveOf svc) of None \<Rightarrow> [] | Some names \<Rightarrow> names) @ [sp_Name svc]) waveMap)"

definition groupByWave :: "ServiceSpec list \<Rightarrow> WaveGroup list" where
  "groupByWave services =
     (let waveMap = fold addToWave services [];
          groups = map (\<lambda>(w, svcs). \<lparr>Wave = w, Services = sort svcs\<rparr>) waveMap
      in sort_key Wave groups)"

section \<open>Steps 1 to 5: the diff\<close>

text \<open>
  The live services: for a blue-green application those of the active colour (none without one), for
  any other those of the project.
\<close>

definition inspectLive :: "Env \<Rightarrow> DestinationSpec \<Rightarrow> ServiceSpec list \<Rightarrow> 'w World_scheme
    \<Rightarrow> ServiceState list result \<times> 'w World_scheme" where
  "inspectLive env dest services w =
     (if hasBlueGreenStrategy services
      then (case onTrace (ActiveBlueGreenState env dest) w of
              (Inl e, w) \<Rightarrow> (Inl e, w)
            | (Inr None, w) \<Rightarrow> (Inr [], w)
            | (Inr (Some (color, d, states)), w) \<Rightarrow> (Inr states, w))
      else inspectW env dest w)"

text \<open>
  The two parts of \<^verbatim>\<open>computeDiff\<close>: up to the Git sync, and change detection, parsing, port check,
  inspection and comparison at the head it found. Their result is an error with the head it knows (empty before the Git sync), or the
  specification and the diff (none when change detection skips) with the head and the compose path.
\<close>

type_synonym diffOutcome = "(string \<times> err) + ((ComposeSpec \<times> DiffResult) option \<times> string \<times> string)"

definition diffAtHead :: "Env \<Rightarrow> string \<Rightarrow> bool \<Rightarrow> ApplicationRecord \<Rightarrow> Application \<Rightarrow> string \<Rightarrow> 'w World_scheme
    \<Rightarrow> diffOutcome \<times> 'w World_scheme" where
  "diffAtHead env appName forced appRec application headSHA w =
     (let w = updateStatus env appName (noUpdate\<lparr>su_HeadSHA := headSHA\<rparr>) w;
          repoPath = e_repoPath env (w_trace w) (RepoURL (appSource application));
          composePath = composePathOf repoPath (appSource application)
      in if headSHA = ar_LastSyncedSHA appRec \<and> \<not> forced \<and> \<not> SelfHeal (appPolicy application)
         then (Inr (None, headSHA, []), w)
         else if repoPath = []
         then (Inl (headSHA, Errorf ''repo path not found after sync'' []), w)
         else (case parseFiles env composePath (ComposeFiles (appSource application)) w of
                 (Inl e, w) \<Rightarrow> (Inl (headSHA, Wrapf ''parse error: %w'' [] e), degrade env appName (Wrapf ''parse error: %v'' [] e) w)
               | (Inr None, w) \<Rightarrow> (Inl (headSHA, Errorf ''parser returned nil spec'' []), w)
               | (Inr (Some composeSpec), w) \<Rightarrow>
                   (case checkPortConflicts env appName (cs_Services composeSpec) w of
                      (Some e, w) \<Rightarrow> (Inl (headSHA, Wrapf ''port conflict: %w'' [] e), degrade env appName (Wrapf ''port conflict: %v'' [] e) w)
                    | (None, w) \<Rightarrow>
                        (case inspectLive env (appDestination application) (cs_Services composeSpec) w of
                           (Inl e, w) \<Rightarrow> (Inl (headSHA, Wrapf ''inspect error: %w'' [] e), degrade env appName (Wrapf ''inspect error: %v'' [] e) w)
                         | (Inr liveServices, w) \<Rightarrow>
                             (Inr (Some (composeSpec, Diff (cs_Services composeSpec) liveServices), headSHA, composePath), w)))))"

definition computeDiffFor :: "Env \<Rightarrow> string \<Rightarrow> bool \<Rightarrow> ApplicationRecord \<Rightarrow> Application \<Rightarrow> 'w World_scheme
    \<Rightarrow> diffOutcome \<times> 'w World_scheme" where
  "computeDiffFor env appName forced appRec application0 w =
     (case prepareApplication (e_net env) application0 of
        Inl e \<Rightarrow> (Inl ([], Wrapf ''invalid manifest: %w'' [] e), w)
      | Inr application \<Rightarrow>
          (case gitSync env (appSource application) w of
             (Inl e, w) \<Rightarrow> (Inl ([], Wrapf ''git sync failed: %w'' [] e), degrade env appName (Wrapf ''git sync failed: %v'' [] e) w)
           | (Inr headSHA, w) \<Rightarrow> diffAtHead env appName forced appRec application headSHA w))"

text \<open>The record and the manifest of an application, as \<^verbatim>\<open>computeDiff\<close> loads them when they are not given.\<close>

definition loadApplication :: "Env \<Rightarrow> string \<Rightarrow> 'w World_scheme \<Rightarrow> (ApplicationRecord \<times> Application) result \<times> 'w World_scheme" where
  "loadApplication env appName w =
     (case GetApplication env appName w of
        (Inl e, w) \<Rightarrow> (Inl (Wrapf ''store error: %w'' [] e), w)
      | (Inr None, w) \<Rightarrow> (Inl (Errorf ''application %q not found'' [appName]), w)
      | (Inr (Some appRec), w) \<Rightarrow>
          (case unmarshalApp (e_codec env) (ar_Manifest appRec) of
             Inl e \<Rightarrow> (Inl (Wrapf ''invalid manifest: %w'' [] e), w)
           | Inr application \<Rightarrow> (Inr (appRec, application), w)))"

definition computeDiff :: "Env \<Rightarrow> string \<Rightarrow> bool \<Rightarrow> (ApplicationRecord \<times> Application) option \<Rightarrow> 'w World_scheme
    \<Rightarrow> diffOutcome \<times> 'w World_scheme" where
  "computeDiff env appName forced given w =
     (case given of
        Some (appRec, application) \<Rightarrow> computeDiffFor env appName forced appRec application w
      | None \<Rightarrow>
          (case loadApplication env appName w of
             (Inl e, w) \<Rightarrow> (Inl ([], e), w)
           | (Inr (appRec, application), w) \<Rightarrow> computeDiffFor env appName forced appRec application w))"

definition DryRun :: "Env \<Rightarrow> string \<Rightarrow> 'w World_scheme \<Rightarrow> (DiffResult option \<times> string \<times> err option) \<times> 'w World_scheme" where
  "DryRun env appName w =
     (case computeDiff env appName True None w of
        (Inl (headSHA, e), w) \<Rightarrow> ((None, headSHA, Some e), w)
      | (Inr (None, headSHA, p), w) \<Rightarrow>
          ((Some \<lparr>InSync = True, ToCreate = [], ToUpdate = [], ToRemove = [], Summary = ''All services in sync''\<rparr>, headSHA, None), w)
      | (Inr (Some (spec, diff), headSHA, p), w) \<Rightarrow> ((Some diff, headSHA, None), w))"

definition RenderDesired :: "Env \<Rightarrow> string \<Rightarrow> 'w World_scheme \<Rightarrow> (ComposeSpec option \<times> string \<times> err option) \<times> 'w World_scheme" where
  "RenderDesired env appName w =
     (case loadApplication env appName w of
        (Inl e, w) \<Rightarrow> ((None, [], Some e), w)
      | (Inr (appRec, application0), w) \<Rightarrow>
          (case prepareApplication (e_net env) application0 of
             Inl e \<Rightarrow> ((None, [], Some (Wrapf ''invalid manifest: %w'' [] e)), w)
           | Inr application \<Rightarrow>
               (case gitSync env (appSource application) w of
                  (Inl e, w) \<Rightarrow> ((None, [], Some (Wrapf ''git sync failed: %w'' [] e)), degrade env appName (Wrapf ''git sync failed: %v'' [] e) w)
                | (Inr headSHA, w) \<Rightarrow>
                    (let w = updateStatus env appName (noUpdate\<lparr>su_HeadSHA := headSHA\<rparr>) w;
                         repoPath = e_repoPath env (w_trace w) (RepoURL (appSource application))
                     in if repoPath = [] then ((None, headSHA, Some (Errorf ''repo path not found after sync'' [])), w)
                        else (case parseFiles env (composePathOf repoPath (appSource application)) (ComposeFiles (appSource application)) w of
                                (Inl e, w) \<Rightarrow> ((None, headSHA, Some (Wrapf ''parse error: %w'' [] e)), degrade env appName (Wrapf ''parse error: %v'' [] e) w)
                              | (Inr None, w) \<Rightarrow> ((None, headSHA, Some (Errorf ''parser returned nil spec'' [])), w)
                              | (Inr (Some composeSpec), w) \<Rightarrow> ((Some composeSpec, headSHA, None), w))))))"

section \<open>Step 7: the deployment\<close>

definition deployRequest :: "Env \<Rightarrow> Application \<Rightarrow> string \<Rightarrow> ServiceSpec list \<Rightarrow> bool \<Rightarrow> bool \<Rightarrow> DeployRequest" where
  "deployRequest env application composePath services pull prune =
     (let host = DockerHost (appDestination application)
      in \<lparr>dr_ProjectName = ProjectName (appDestination application),
          dr_ComposeFiles = map (filepath_Join composePath) (ComposeFiles (appSource application)),
          dr_WorkDir = composePath, dr_Pull = pull, dr_Prune = prune, dr_DockerHost = host,
          dr_PreSyncServices = hookServices ''pre-sync'' services,
          dr_PostSyncServices = hookServices ''post-sync'' services,
          dr_HealthTimeout = HealthTimeout (appPolicy application),
          dr_TLSCertPath = (case e_tls env of None \<Rightarrow> [] | Some lookup \<Rightarrow> if host \<noteq> [] then lookup host else [])\<rparr>)"

fun runHooks :: "DeployerI \<Rightarrow> DeployRequest \<Rightarrow> string list \<Rightarrow> string \<Rightarrow> trace \<Rightarrow> err option \<times> trace" where
  "runHooks dep req [] phase t = (None, t)"
| "runHooks dep req (svc # svcs) phase t =
     (case d_RunHook dep req svc t of
        (Some e, t) \<Rightarrow> (Some (Wrapf ''%s hook %q failed: %w'' [phase, svc] e), t)
      | (None, t) \<Rightarrow> runHooks dep req svcs phase t)"

text \<open>The waves in order, each deployed and then gated by the health of its services.\<close>

fun deployWaves :: "Env \<Rightarrow> Deps \<Rightarrow> DeployerI \<Rightarrow> string \<Rightarrow> DeployRequest \<Rightarrow> WaveGroup list \<Rightarrow> 'w World_scheme
    \<Rightarrow> err option \<times> 'w World_scheme" where
  "deployWaves env deps dep appName waveReq [] w = (None, w)"
| "deployWaves env deps dep appName waveReq (wave # waves) w =
     (case onTrace (d_DeployServices dep waveReq (Services wave)) w of
        (Some e, w) \<Rightarrow> (Some (Wrapf ''wave %d deploy error: %v'' [] (operationErrorMessage env e w)), w)
      | (None, w) \<Rightarrow>
          (case (if dp_HealthMonitor deps \<noteq> None then WaitForServicesHealthy env appName (Services wave) w else (None, w)) of
             (Some e, w) \<Rightarrow> (Some (Wrapf ''wave %d health gate failed: %v'' [] (operationErrorMessage env e w)), w)
           | (None, w) \<Rightarrow> deployWaves env deps dep appName waveReq waves w))"

fun postHooks :: "DeployerI \<Rightarrow> DeployRequest \<Rightarrow> string list \<Rightarrow> trace \<Rightarrow> trace" where
  "postHooks dep req [] t = t"
| "postHooks dep req (svc # svcs) t = postHooks dep req svcs (snd (d_RunHook dep req svc t))"

text \<open>Hooks and pulls run once, then the waves, then the post-sync hooks, whose failures are only logged.\<close>

definition deployByWaves :: "Env \<Rightarrow> Deps \<Rightarrow> DeployerI \<Rightarrow> string \<Rightarrow> DeployRequest \<Rightarrow> WaveGroup list \<Rightarrow> 'w World_scheme
    \<Rightarrow> err option \<times> 'w World_scheme" where
  "deployByWaves env deps activeDep appName req waves w =
     (case onTrace (runHooks activeDep req (dr_PreSyncServices req) ''pre-sync'') w of
        (Some e, w) \<Rightarrow> (Some (operationErrorMessage env e w), w)
      | (None, w) \<Rightarrow>
          (case (if dr_Pull req then onTrace (d_Pull activeDep req) w else (None, w)) of
             (Some e, w) \<Rightarrow> (Some (Wrapf ''pull error: %v'' [] (operationErrorMessage env e w)), w)
           | (None, w) \<Rightarrow>
               (case deployWaves env deps activeDep appName
                       (req\<lparr>dr_Pull := False, dr_PreSyncServices := [], dr_PostSyncServices := []\<rparr>) waves w of
                  (Some e, w) \<Rightarrow> (Some e, w)
                | (None, w) \<Rightarrow>
                    (None, w\<lparr>w_trace := postHooks activeDep req (dr_PostSyncServices req) (w_trace w)\<rparr>))))"

text \<open>
  The whole deployment: the message of its failure, if any. A blue-green application or one with a
  single wave is deployed as a whole, any other wave by wave.
\<close>

definition deployAll :: "Env \<Rightarrow> Deps \<Rightarrow> string \<Rightarrow> DeployRequest \<Rightarrow> ServiceSpec list \<Rightarrow> 'w World_scheme
    \<Rightarrow> err option \<times> 'w World_scheme" where
  "deployAll env deps appName req services w =
     (let blueGreen = hasBlueGreenStrategy services;
          activeDep = (if blueGreen then NewBlueGreen env (dp_Deployer deps) else dp_Deployer deps);
          waves = groupByWave services
      in if length waves \<le> 1 \<or> blueGreen
         then (case onTrace (d_Deploy activeDep req) w of
                 (Some e, w) \<Rightarrow> (Some (Wrapf ''deploy error: %v'' [] (operationErrorMessage env e w)), w)
               | (None, w) \<Rightarrow> (None, w))
         else deployByWaves env deps activeDep appName req waves w)"

text \<open>The health of the active colour after a blue-green deployment, with the services it serves.\<close>

definition inspectBlueGreenHealth :: "Env \<Rightarrow> DestinationSpec \<Rightarrow> 'w World_scheme
    \<Rightarrow> (HealthStatus \<times> string) result \<times> 'w World_scheme" where
  "inspectBlueGreenHealth env dest w =
     (case onTrace (ActiveBlueGreenState env dest) w of
        (Inl e, w) \<Rightarrow> (Inl e, w)
      | (Inr None, w) \<Rightarrow> (Inl (Errorf ''no active blue-green color found for project %s'' [ProjectName dest]), w)
      | (Inr (Some (color, activeDest, states)), w) \<Rightarrow>
          (let statuses = serviceStatusesFromStates states
           in (Inr (Aggregate statuses, marshalServices (e_codec env) statuses), w)))"

text \<open>
  What follows a successful deployment, for a sync and for a rollback: the verdict on a blue-green
  application's active colour (a failure is a health and a message), else the status to record.
\<close>

fun healthString :: "HealthStatus \<Rightarrow> string" where
  "healthString Healthy = ''Healthy''"
| "healthString Progressing = ''Progressing''"
| "healthString Degraded = ''Degraded''"
| "healthString HealthUnknown = ''Unknown''"
| "healthString (HealthOther s) = s"

definition afterDeploy :: "Env \<Rightarrow> DestinationSpec \<Rightarrow> bool \<Rightarrow> string \<Rightarrow> string \<Rightarrow> 'w World_scheme
    \<Rightarrow> ((HealthStatus \<times> err) + StatusUpdate) \<times> 'w World_scheme" where
  "afterDeploy env dest blueGreen what sha w =
     (let update = noUpdate\<lparr>su_SyncStatus := Some Synced, su_HealthStatus := Some Progressing, su_LastSyncedSHA := sha,
                            su_LastSyncTime := Some (e_now env (w_trace w)), su_LastError := Some None\<rparr>
      in if blueGreen
         then (case inspectBlueGreenHealth env dest w of
                 (Inl e, w) \<Rightarrow> (Inl (Degraded, Wrapf ''blue-green health inspection failed: %v'' [] e), w)
               | (Inr (bgHealth, bgServices), w) \<Rightarrow>
                   (if bgHealth \<noteq> Healthy
                    then Inl (bgHealth, Errorf (''blue-green active color is %s after '' @ what) [healthString bgHealth])
                    else Inr (update\<lparr>su_HealthStatus := Some bgHealth, su_ServicesJSON := bgServices\<rparr>), w))
         else (Inr update, w))"

definition watchDeployed :: "Env \<Rightarrow> Deps \<Rightarrow> bool \<Rightarrow> string \<Rightarrow> duration \<Rightarrow> 'm Monitor_scheme \<Rightarrow> 'm Monitor_scheme" where
  "watchDeployed env deps blueGreen appName timeout w =
     (case dp_HealthMonitor deps of
        Some cfg \<Rightarrow> if blueGreen then w else WatchApp env cfg appName timeout w
      | None \<Rightarrow> w)"

section \<open>The reconciliation\<close>

definition deployDrift :: "Env \<Rightarrow> Deps \<Rightarrow> string \<Rightarrow> SyncResult \<Rightarrow> Application \<Rightarrow> ComposeSpec \<Rightarrow> DiffResult \<Rightarrow> string \<Rightarrow> string
    \<Rightarrow> 'r RState_scheme \<Rightarrow> (SyncResult option \<times> err option) \<times> 'r RState_scheme" where
  "deployDrift env deps appName result application composeSpec diff headSHA composePath w =
     (let w = updateStatus env appName (noUpdate\<lparr>su_SyncStatus := Some OutOfSync\<rparr>) w;
          w = updateStatus env appName (noUpdate\<lparr>su_HealthStatus := Some Progressing\<rparr>) w;
          services = cs_Services composeSpec;
          blueGreen = hasBlueGreenStrategy services;
          req = deployRequest env application composePath services (hasImageChanges diff)
                  (Prune (appPolicy application) \<and> length (ToRemove diff) > 0)
      in case deployAll env deps appName req services w of
           (Some msg, w) \<Rightarrow> finishResult env deps result ResFailure (Some msg) (degrade env appName msg (breakerFailure env appName w))
         | (None, w) \<Rightarrow>
             (case afterDeploy env (appDestination application) blueGreen ''deployment'' headSHA (breakerSuccess appName w) of
                (Inl (health, msg), w) \<Rightarrow>
                  finishResult env deps result ResFailure (Some msg)
                    (updateStatus env appName (noUpdate\<lparr>su_HealthStatus := Some health, su_LastError := Some (Some msg)\<rparr>)
                       (breakerFailure env appName w))
              | (Inr update, w) \<Rightarrow>
                  finishResult env deps result ResSuccess None
                    (watchDeployed env deps blueGreen appName (HealthTimeout (appPolicy application))
                       (updateStatus env appName update w))))"

definition reconcileAllowed :: "Env \<Rightarrow> Deps \<Rightarrow> string \<Rightarrow> bool \<Rightarrow> SyncResult \<Rightarrow> ApplicationRecord \<Rightarrow> Application
    \<Rightarrow> 'r RState_scheme \<Rightarrow> (SyncResult option \<times> err option) \<times> 'r RState_scheme" where
  "reconcileAllowed env deps appName forced result appRec application w =
     (case computeDiff env appName forced (Some (appRec, application)) w of
        (Inl (head, e), w) \<Rightarrow>
          (let w = breakerFailure env appName w
           in finishResult env deps result ResFailure (Some (operationErrorMessage env e w)) w)
      | (Inr (None, headSHA, p), w) \<Rightarrow> finishResult env deps (result\<lparr>res_CommitSHA := headSHA\<rparr>) ResSkipped None w
      | (Inr (Some (composeSpec, diff), headSHA, composePath), w) \<Rightarrow>
          (let result = result\<lparr>res_CommitSHA := headSHA, res_Diff := Some diff\<rparr>
           in if InSync diff then
                finishResult env deps result ResSkipped None
                  (updateStatus env appName
                     (noUpdate\<lparr>su_SyncStatus := Some Synced, su_LastSyncedSHA := headSHA, su_LastError := Some None\<rparr>)
                     (breakerSuccess appName w))
              else if \<not> Automated (appPolicy application) \<and> \<not> forced then
                finishResult env deps result ResSkipped None
                  (updateStatus env appName (noUpdate\<lparr>su_SyncStatus := Some ManuallyManaged, su_LastError := Some None\<rparr>) w)
              else deployDrift env deps appName result application composeSpec diff headSHA composePath w))"

definition reconcileApp :: "Env \<Rightarrow> Deps \<Rightarrow> string \<Rightarrow> bool \<Rightarrow> 'r RState_scheme
    \<Rightarrow> (SyncResult option \<times> err option) \<times> 'r RState_scheme" where
  "reconcileApp env deps appName forced w =
     (let result = newResult appName (e_now env (w_trace w)) (if forced then OpManual else OpPoll) []
      in case GetApplication env appName w of
           (Inl e, w) \<Rightarrow> finishResult env deps result ResFailure (Some (Wrapf ''store error: %v'' [] e)) w
         | (Inr None, w) \<Rightarrow> ((None, None), w)
         | (Inr (Some appRec), w) \<Rightarrow>
             (case unmarshalApp (e_codec env) (ar_Manifest appRec) of
                Inl e \<Rightarrow> finishResult env deps result ResFailure (Some (Wrapf ''invalid manifest: %v'' [] e)) w
              | Inr application0 \<Rightarrow>
                  (case prepareApplication (e_net env) application0 of
                     Inl e \<Rightarrow> finishResult env deps result ResFailure (Some (Wrapf ''invalid manifest: %v'' [] e)) w
                   | Inr application \<Rightarrow>
                       (case Allow (e_now env (w_trace w)) (getBreaker appName w) of
                          (allowed, cb) \<Rightarrow>
                            (let w = setBreaker appName cb w
                             in if \<not> allowed
                                then finishResult env deps result ResSkipped (Some (Errorf ''circuit breaker open'' [])) w
                                else reconcileAllowed env deps appName forced result appRec application w)))))"

section \<open>Rollback\<close>

definition rollbackTo :: "Env \<Rightarrow> Deps \<Rightarrow> string \<Rightarrow> string \<Rightarrow> SyncResult \<Rightarrow> Application
    \<Rightarrow> 'r RState_scheme \<Rightarrow> (SyncResult option \<times> err option) \<times> 'r RState_scheme" where
  "rollbackTo env deps appName targetSHA result application w =
     (let repoPath = e_repoPath env (w_trace w) (RepoURL (appSource application));
          composePath = composePathOf repoPath (appSource application)
      in case parseFiles env composePath (ComposeFiles (appSource application)) w of
           (Inl e, w) \<Rightarrow> finishResult env deps result ResFailure (Some (Wrapf ''parse error: %v'' [] (operationErrorMessage env e w))) w
         | (Inr None, w) \<Rightarrow> finishResult env deps result ResFailure (Some (Errorf ''parser returned nil spec'' [])) w
         | (Inr (Some composeSpec), w) \<Rightarrow>
             (let w = updateStatus env appName (noUpdate\<lparr>su_HealthStatus := Some Progressing\<rparr>) w;
                  services = cs_Services composeSpec;
                  blueGreen = hasBlueGreenStrategy services;
                  activeDep = (if blueGreen then NewBlueGreen env (dp_Deployer deps) else dp_Deployer deps);
                  req = deployRequest env application composePath services True (Prune (appPolicy application))
              in case onTrace (d_Deploy activeDep req) w of
                   (Some e, w) \<Rightarrow>
                     (let errMsg = operationErrorMessage env e w
                      in finishResult env deps result ResFailure (Some (Wrapf ''deploy error: %v'' [] errMsg))
                           (degrade env appName (Wrapf ''rollback deploy error: %v'' [] errMsg) w))
                 | (None, w) \<Rightarrow>
                     (case afterDeploy env (appDestination application) blueGreen ''rollback'' targetSHA w of
                        (Inl (health, msg), w) \<Rightarrow>
                          finishResult env deps result ResFailure (Some msg)
                            (updateStatus env appName (noUpdate\<lparr>su_HealthStatus := Some health, su_LastError := Some (Some msg)\<rparr>) w)
                      | (Inr update, w) \<Rightarrow>
                          finishResult env deps result ResSuccess None
                            (watchDeployed env deps blueGreen appName (HealthTimeout (appPolicy application))
                               (updateStatus env appName update w)))))"

definition Rollback :: "Env \<Rightarrow> Deps \<Rightarrow> string \<Rightarrow> string \<Rightarrow> 'r RState_scheme
    \<Rightarrow> (SyncResult option \<times> err option) \<times> 'r RState_scheme" where
  "Rollback env deps appName targetSHA w =
     (let result = newResult appName (e_now env (w_trace w)) OpRollback targetSHA
      in case GetApplication env appName w of
           (Inl e, w) \<Rightarrow> finishResult env deps result ResFailure (Some (Wrapf ''store error: %v'' [] e)) w
         | (Inr None, w) \<Rightarrow> finishResult env deps result ResFailure (Some (Errorf ''application %q not found'' [appName])) w
         | (Inr (Some appRec), w) \<Rightarrow>
             (case unmarshalApp (e_codec env) (ar_Manifest appRec) of
                Inl e \<Rightarrow> finishResult env deps result ResFailure (Some (Wrapf ''invalid manifest: %v'' [] e)) w
              | Inr application0 \<Rightarrow>
                  (case prepareApplication (e_net env) application0 of
                     Inl e \<Rightarrow> finishResult env deps result ResFailure (Some (Wrapf ''invalid manifest: %v'' [] e)) w
                   | Inr application \<Rightarrow>
                       (case GetSyncBySHA env appName targetSHA w of
                          (Inl e, w) \<Rightarrow> finishResult env deps result ResFailure (Some (Wrapf ''store error: %v'' [] e)) w
                        | (Inr None, w) \<Rightarrow> finishResult env deps result ResFailure (Some (Errorf ''no sync history found for SHA %s'' [targetSHA])) w
                        | (Inr (Some rec), w) \<Rightarrow>
                            (case gitSync env (appSource application) w of
                               (Inl e, w) \<Rightarrow> finishResult env deps result ResFailure (Some (Wrapf ''git sync failed: %v'' [] (operationErrorMessage env e w))) w
                             | (Inr head, w) \<Rightarrow>
                                 (case gitCheckout env (RepoURL (appSource application)) targetSHA w of
                                    (Some e, w) \<Rightarrow> finishResult env deps result ResFailure (Some (Wrapf ''checkout target SHA failed: %v'' [] (operationErrorMessage env e w))) w
                                  | (None, w) \<Rightarrow> rollbackTo env deps appName targetSHA result application w))))))"

end

