(* ===== verification/Reconciler_Safety.thy ===== *)
theory Reconciler_Safety
  imports Reconciler
begin

text \<open>
  What a reconciliation does to the outside: which commands it runs, on which projects, and when it
  runs none. The proofs follow the structure of the code: each operation appends events that satisfy a
  predicate, and the predicates of interest differ on commands only.
\<close>

section \<open>Operations that run no command\<close>

text \<open>A predicate that only restricts commands.\<close>

definition quietOK :: "(event \<Rightarrow> bool) \<Rightarrow> bool" where
  "quietOK P \<longleftrightarrow> (\<forall>e. P e \<or> (\<exists>c r. e = Ran c r))"

lemma quietOK_simps:
  assumes "quietOK P"
  shows "P (Queried s r)" "P (Inspected d x)" "P (GitSynced src h)" "P (CheckedOut u sha e)" "P (Parsed dir fs sp)"
    "P (Notified n e)" "P (Broadcasted b)" "P (Stopped st)"
  using assms by (auto simp: quietOK_def)

lemma quietOK_observing: "quietOK P \<Longrightarrow> observing e \<Longrightarrow> P e"
  by (cases e) (auto simp: quietOK_def)

lemma quiet_mono: "quietOK P \<Longrightarrow> grows observing t t' \<Longrightarrow> grows P t t'"
  by (erule grows_mono) (rule quietOK_observing)

lemma breaker_trace [simp]:
  "w_trace (setBreaker n cb w) = w_trace w" "w_trace (breakerFailure env n w) = w_trace w"
  "w_trace (breakerSuccess n w) = w_trace w" "w_trace (watchDeployed env deps bg n timeout w) = w_trace w"
  by (simp_all add: setBreaker_def breakerFailure_def breakerSuccess_def watchDeployed_def WatchApp_def split: option.split)

text \<open>
  Each operation in the form that composes: what holds of the events since an earlier trace \<open>t\<close>
  still holds after it. The bind rule passes it through the result of a call.
\<close>

lemma grows_bind:
  "grows P t (w_trace (snd x)) \<Longrightarrow> (\<And>r w. x = (r, w) \<Longrightarrow> grows P t (w_trace w) \<Longrightarrow> grows P t (w_trace (snd (h r w))))
   \<Longrightarrow> grows P t (w_trace (snd (case x of (r, w) \<Rightarrow> h r w)))"
  by (cases x) auto

lemma quiet_step: "quietOK P \<Longrightarrow> grows observing (w_trace w) t' \<Longrightarrow> grows P t (w_trace w) \<Longrightarrow> grows P t t'"
  using quiet_mono grows_trans by blast

lemma quiet_store:
  assumes "quietOK P" and "grows P t (w_trace w)"
  shows "grows P t (w_trace (snd (GetApplication env n w)))"
    "grows P t (w_trace (snd (ListApplications env w)))"
    "grows P t (w_trace (snd (GetSyncBySHA env n sha w)))"
    "grows P t (w_trace (snd (CheckApp env n w)))"
    "grows P t (w_trace (updateStatus env n u w))"
    "grows P t (w_trace (degrade env n msg w))"
    "grows P t (w_trace (snd (RecordSync env sr w)))"
    "grows P t (w_trace (snd (RecordEvent env er w)))"
  unfolding updateStatus_def degrade_def
  by (rule quiet_step [OF assms(1) _ assms(2)], rule store_grows CheckApp_grows)+

lemma grows_snoc_from: "grows P t t' \<Longrightarrow> P e \<Longrightarrow> grows P t (t' @ [e])"
  by (auto simp: grows_def)

lemma quiet_calls:
  assumes "quietOK P" and "grows P t (w_trace w)"
  shows "grows P t (w_trace (snd (inspectW env dest w)))"
    "grows P t (w_trace (snd (gitSync env src w)))"
    "grows P t (w_trace (snd (gitCheckout env url sha w)))"
    "grows P t (w_trace (snd (parseFiles env dir fs w)))"
    "grows P t (w_trace (notify env rc ne w))"
    "grows P t (w_trace (broadcast rc ev w))"
  using assms(2) by (simp_all add: inspectW_def Inspect_def gitSync_def gitCheckout_def parseFiles_def notify_def
      broadcast_def Let_def grows_snoc_from quietOK_simps [OF assms(1)])

lemma onTrace_snd: "w_trace (snd (onTrace f w)) = snd (f (w_trace w))"
  by (simp add: onTrace_def split: prod.split)

lemma onTrace_grows: "grows P t (w_trace w) \<Longrightarrow> grows P (w_trace w) (snd (f (w_trace w))) \<Longrightarrow> grows P t (w_trace (snd (onTrace f w)))"
  unfolding onTrace_snd by (rule grows_trans)

lemma ActiveBlueGreenState_grows:
  assumes "quietOK P"
  shows "grows P t (snd (ActiveBlueGreenState env dest t))"
proof -
  obtain r t' where a: "activeColorFrom env dest [colorBlue, colorGreen] t = (r, t')" by force
  have "grows P t t'" by (rule grows_mono [OF activeColorFrom_spec(1) [OF a]]) (auto simp: quietOK_simps [OF assms])
  then show ?thesis using a by (simp add: ActiveBlueGreenState_def)
qed

lemma quiet_checkPortConflicts:
  assumes "quietOK P" and "grows P t (w_trace w)"
  shows "grows P t (w_trace (snd (checkPortConflicts env n svcs w)))"
  unfolding checkPortConflicts_def Let_def
  by (auto intro!: grows_bind quiet_store [OF assms(1)] assms(2) split: sum.split)

lemma quiet_inspections:
  assumes "quietOK P" and "grows P t (w_trace w)"
  shows "grows P t (w_trace (snd (inspectLive env dest svcs w)))"
    "grows P t (w_trace (snd (inspectBlueGreenHealth env dest w)))"
  unfolding inspectLive_def inspectBlueGreenHealth_def Let_def
  by (auto intro!: grows_bind onTrace_grows ActiveBlueGreenState_grows quiet_calls assms split: sum.split option.split)

lemmas quiet_intros = grows_bind quiet_store quiet_calls quiet_checkPortConflicts quiet_inspections

lemma quiet_afterDeploy:
  assumes "quietOK P" and "grows P t (w_trace w)"
  shows "grows P t (w_trace (snd (afterDeploy env dest bg what sha w)))"
  unfolding afterDeploy_def Let_def by (auto intro!: quiet_intros assms split: sum.split)

lemma quiet_finishResult:
  assumes "quietOK P" and "grows P t (w_trace w)"
  shows "grows P t (w_trace (snd (finishResult env deps res status msg w)))"
  unfolding finishResult_def Let_def by (simp add: quiet_store quiet_calls assms)

lemma quiet_diffAtHead:
  assumes "quietOK P" and "grows P t (w_trace w)"
  shows "grows P t (w_trace (snd (diffAtHead env n forced r a head w)))"
  unfolding diffAtHead_def Let_def by (auto intro!: quiet_intros assms split: sum.split option.split)

lemma quiet_computeDiffFor:
  assumes "quietOK P" and "grows P t (w_trace w)"
  shows "grows P t (w_trace (snd (computeDiffFor env n forced r a w)))"
  unfolding computeDiffFor_def by (auto intro!: quiet_intros quiet_diffAtHead assms split: sum.split option.split)

lemma quiet_computeDiff:
  assumes "quietOK P" and "grows P t (w_trace w)"
  shows "grows P t (w_trace (snd (computeDiff env n forced given w)))"
  unfolding computeDiff_def loadApplication_def
  by (auto intro!: quiet_intros quiet_computeDiffFor assms split: sum.split option.split)

section \<open>Dry runs\<close>

fun noCommand :: "event \<Rightarrow> bool" where
  "noCommand (Ran c r) = False"
| "noCommand _ = True"

lemma quietOK_noCommand [simp]: "quietOK noCommand"
  unfolding quietOK_def by (rule allI, case_tac e) auto

lemma noCommand_commandsOf: "list_all noCommand es \<Longrightarrow> commandsOf es = []"
  by (induction es rule: commandsOf.induct) auto

lemma grows_noCommand: "grows noCommand t t' \<Longrightarrow> commandsOf t' = commandsOf t"
  by (auto simp: grows_def noCommand_commandsOf)

text \<open>
  A dry run and a rendering of the desired state run no command, whatever the application, the
  store and the outside answer, and leave every project as it is.
\<close>

theorem DryRun_runs_nothing:
  "commandsOf (w_trace (snd (DryRun env n w))) = commandsOf (w_trace w)
   \<and> commandsOf (w_trace (snd (RenderDesired env n w))) = commandsOf (w_trace w)"
proof
  have "grows noCommand (w_trace w) (w_trace (snd (DryRun env n w)))"
    unfolding DryRun_def
    by (rule grows_bind, rule quiet_computeDiff) (auto split: sum.split option.split)
  then show "commandsOf (w_trace (snd (DryRun env n w))) = commandsOf (w_trace w)" by (rule grows_noCommand)
  have "grows noCommand (w_trace w) (w_trace (snd (RenderDesired env n w)))"
    unfolding RenderDesired_def loadApplication_def Let_def
    by (auto intro!: quiet_intros split: sum.split option.split)
  then show "commandsOf (w_trace (snd (RenderDesired env n w))) = commandsOf (w_trace w)" by (rule grows_noCommand)
qed

section \<open>Confinement\<close>

fun commandsIn :: "string set \<Rightarrow> event \<Rightarrow> bool" where
  "commandsIn P (Ran c r) = (cmdVerb c = Some ''pull'' \<or> (\<exists>p \<in> P. cmdProject c = Some p))"
| "commandsIn P _ = True"

lemma quietOK_commandsIn [simp]: "quietOK (commandsIn P)"
  unfolding quietOK_def by (rule allI, case_tac e) auto

lemma confined_commandsIn: "confinedTo P e \<Longrightarrow> commandsIn P e"
  by (cases e) auto

lemma waitServicesTicks_grows:
  "grows observing t (w_trace w) \<Longrightarrow> grows observing t (w_trace (snd (waitServicesTicks k env n names w)))"
proof (induction k arbitrary: w)
  case 0
  then show ?case by (simp add: grows_snoc_from split: StopEvent.split)
next
  case (Suc k)
  have "grows observing t (w_trace (snd (CheckApp env n w)))" using Suc.prems CheckApp_grows grows_trans by blast
  then show ?case unfolding waitServicesTicks.simps
    by (rule grows_bind) (use Suc.IH in \<open>auto split: sum.split\<close>)
qed

lemma WaitForServicesHealthy_grows: "grows observing (w_trace w) (w_trace (snd (WaitForServicesHealthy env n names w)))"
  by (simp add: WaitForServicesHealthy_def waitServicesTicks_grows)

lemma quiet_wait:
  "quietOK P \<Longrightarrow> grows P t (w_trace w) \<Longrightarrow> grows P t (w_trace (snd (WaitForServicesHealthy env n names w)))"
  by (rule quiet_step [OF _ WaitForServicesHealthy_grows])

text \<open>The reconciler over any deployer that keeps the contract.\<close>

locale reconciler = blue_green "dp_Deployer deps" env for deps :: Deps and env :: Env
begin

lemma dep_confined:
  assumes "dr_ProjectName req \<noteq> []"
  shows "grows (commandsIn (bgOwned (dr_ProjectName req))) t (snd (d_Pull (dp_Deployer deps) req t))"
    "grows (commandsIn (bgOwned (dr_ProjectName req))) t (snd (d_DeployServices (dp_Deployer deps) req svcs t))"
    "grows (commandsIn (bgOwned (dr_ProjectName req))) t (snd (d_RunHook (dp_Deployer deps) req svc t))"
    "grows (commandsIn (bgOwned (dr_ProjectName req))) t (snd (d_Deploy (dp_Deployer deps) req t))"
    "grows (commandsIn (bgOwned (dr_ProjectName req))) t (snd (d_Deploy (NewBlueGreen env (dp_Deployer deps)) req t))"
  by (rule grows_mono [OF bg_owned_mono [OF Pull_confined [OF assms]] confined_commandsIn]
      grows_mono [OF bg_owned_mono [OF DeployServices_confined [OF assms]] confined_commandsIn]
      grows_mono [OF bg_owned_mono [OF RunHook_confined [OF assms]] confined_commandsIn]
      grows_mono [OF bg_owned_mono [OF Deploy_confined [OF assms]] confined_commandsIn]
      grows_mono [OF bg.Deploy_confined [OF assms] confined_commandsIn]; assumption)+

lemma hooks_confined:
  assumes "dr_ProjectName req \<noteq> []"
  shows "grows (commandsIn (bgOwned (dr_ProjectName req))) t (snd (runHooks (dp_Deployer deps) req svcs phase t))"
    "grows (commandsIn (bgOwned (dr_ProjectName req))) t (postHooks (dp_Deployer deps) req svcs t)"
proof -
  note h = dep_confined(3) [OF assms]
  show "grows (commandsIn (bgOwned (dr_ProjectName req))) t (snd (runHooks (dp_Deployer deps) req svcs phase t))"
    by (induction svcs arbitrary: t) (auto split: prod.split option.split, (metis grows_trans h snd_conv)+)
  show "grows (commandsIn (bgOwned (dr_ProjectName req))) t (postHooks (dp_Deployer deps) req svcs t)"
    by (induction svcs arbitrary: t) (auto intro: grows_trans h)
qed

lemma deployWaves_confined:
  assumes "dr_ProjectName req \<noteq> []" and "grows (commandsIn (bgOwned (dr_ProjectName req))) t (w_trace w)"
  shows "grows (commandsIn (bgOwned (dr_ProjectName req))) t (w_trace (snd (deployWaves env deps (dp_Deployer deps) n req waves w)))"
  using assms(2)
proof (induction waves arbitrary: w)
  case (Cons wave waves)
  note d = onTrace_grows [of _ t w "d_DeployServices (dp_Deployer deps) req (Services wave)",
      OF Cons.prems dep_confined(2) [OF assms(1)]]
  show ?case unfolding deployWaves.simps
  proof (rule grows_bind [OF d], goal_cases)
    case (1 r w1)
    have w2: "grows (commandsIn (bgOwned (dr_ProjectName req))) t (w_trace (snd
        (if dp_HealthMonitor deps \<noteq> None then WaitForServicesHealthy env n (Services wave) w1 else (None, w1))))"
      using 1(2) quiet_wait [OF quietOK_commandsIn 1(2)] by simp
    show ?case
    proof (cases r)
      case None
      show ?thesis unfolding None option.case by (rule grows_bind [OF w2]) (simp add: Cons.IH split: option.split)
    next
      case (Some e)
      show ?thesis using 1(2) by (simp add: Some)
    qed
  qed
qed simp

lemma deployAll_confined:
  assumes "dr_ProjectName req \<noteq> []"
  shows "grows (commandsIn (bgOwned (dr_ProjectName req))) (w_trace w) (w_trace (snd (deployAll env deps n req svcs w)))"
proof -
  let ?Q = "commandsIn (bgOwned (dr_ProjectName req))" and ?req = "req\<lparr>dr_Pull := False, dr_PreSyncServices := [], dr_PostSyncServices := []\<rparr>"
  have waves: "grows ?Q (w_trace w) (w_trace (snd (deployWaves env deps (dp_Deployer deps) n ?req ws w1)))"
    if "grows ?Q (w_trace w) (w_trace w1)" for ws and w1 :: "'a World_scheme"
    using deployWaves_confined [of ?req "w_trace w" w1 n ws] that assms by simp
  have post: "grows ?Q (w_trace w) (postHooks (dp_Deployer deps) req svcs' t1)" if "grows ?Q (w_trace w) t1" for svcs' t1
    by (rule grows_trans [OF that hooks_confined(2) [OF assms]])
  show ?thesis
    unfolding deployAll_def deployByWaves_def Let_def
    by (auto intro!: grows_bind onTrace_grows dep_confined [OF assms] hooks_confined [OF assms] waves post split: option.split)
qed

end

section \<open>What a reconciliation that deploys has established\<close>

lemma diffAtHead_Some:
  assumes "diffAtHead env n forced r a head w = (Inr (d, head', path), w1)"
  shows "head' = head" and "d = Some (spec, diff) \<Longrightarrow> \<exists>live w2. inspectLive env (appDestination a) (cs_Services spec) w2 = (Inr live, w1)
      \<and> diff = Diff (cs_Services spec) live"
  using assms by (auto simp: diffAtHead_def Let_def split: sum.splits option.splits prod.splits if_splits)

lemma gitSync_simps:
  "gitSync env src w = (r, w') \<longleftrightarrow> r = e_sync env (w_trace w) src \<and> w' = w\<lparr>w_trace := w_trace w @ [GitSynced src r]\<rparr>"
  by (auto simp: gitSync_def Let_def)

lemma computeDiffFor_Some:
  assumes "computeDiffFor env n forced r a w = (Inr (Some (spec, diff), head, path), w1)"
  obtains application live es where "prepareApplication (e_net env) a = Inr application"
    "w_trace w1 = w_trace w @ GitSynced (appSource application) (Inr head) # es" "list_all noCommand es"
    "diff = Diff (cs_Services spec) live"
proof -
  obtain application where a: "prepareApplication (e_net env) a = Inr application"
    using assms by (auto simp: computeDiffFor_def split: sum.splits)
  obtain h w0 where g: "gitSync env (appSource application) w = (Inr h, w0)" "diffAtHead env n forced r application h w0 = (Inr (Some (spec, diff), head, path), w1)"
    using assms a by (auto simp: computeDiffFor_def split: sum.splits prod.splits)
  have "grows noCommand (w_trace w0) (w_trace w1)"
    using quiet_diffAtHead [of noCommand "w_trace w0" w0 env n forced r application h] g(2) by simp
  then obtain es where "w_trace w1 = w_trace w0 @ es" "list_all noCommand es" by (auto simp: grows_def)
  moreover have "w_trace w0 = w_trace w @ [GitSynced (appSource application) (Inr h)]" using g(1) by (auto simp: gitSync_simps)
  moreover have "h = head" using diffAtHead_Some(1) [OF g(2)] by simp
  moreover obtain live where "diff = Diff (cs_Services spec) live" using diffAtHead_Some(2) [OF g(2) refl] by blast
  ultimately show thesis using that [OF a] by simp
qed

lemma finishResult_fst: "fst (finishResult env deps res status msg w) = (Some (completeResult res status msg (e_now env (w_trace w))), msg)"
  by (simp add: finishResult_def Let_def)

lemma completeResult_simps [simp]:
  "res_Result (completeResult res status msg now) = status" "res_CommitSHA (completeResult res status msg now) = res_CommitSHA res"
  "res_Diff (completeResult res status msg now) = res_Diff res" "res_AppName (completeResult res status msg now) = res_AppName res"
  "res_Operation (completeResult res status msg now) = res_Operation res"
  by (simp_all add: completeResult_def)

lemma finish_quiet:
  assumes "finishResult env deps res status msg w1 = ((x, e), w')" and "grows noCommand t (w_trace w1)"
  shows "grows noCommand t (w_trace w') \<and> (\<exists>y. x = Some y \<and> res_Result y = status)"
  using quiet_finishResult [OF quietOK_noCommand assms(2), of env deps res status msg]
    finishResult_fst [of env deps res status msg w1] assms(1) by auto

lemma breakers_of_more: "World.more w = World.more w' \<Longrightarrow> r_breakers w = r_breakers w'"
  by (cases w; cases w') simp

lemma getBreaker_GetApplication: "GetApplication env n w = (r, w1) \<Longrightarrow> getBreaker m w1 = getBreaker m w"
  unfolding getBreaker_def using breakers_of_more [of w1 w] store_more(1) [of env n w] by simp

lemma prepare_idem: "prepareApplication net a = Inr b \<Longrightarrow> prepareApplication net b = Inr b"
  by (auto simp: prepare_Inr)

lemma reconcileAllowed_cases:
  assumes "reconcileAllowed env deps n forced result0 r a w = ((x, e), w')" and "prepareApplication net a0 = Inr a" "net = e_net env"
  obtains (quiet) "grows noCommand (w_trace w) (w_trace w')" "\<And>y. x = Some y \<Longrightarrow> res_Result y \<noteq> ResSuccess"
  | (deploys) spec diff head path es w1 where
      "Automated (appPolicy a) \<or> forced" "\<not> InSync diff"
      "w_trace w1 = w_trace w @ GitSynced (appSource a) (Inr head) # es" "list_all noCommand es"
      "deployDrift env deps n (result0\<lparr>res_CommitSHA := head, res_Diff := Some diff\<rparr>) a spec diff head path w1 = ((x, e), w')"
proof -
  obtain d w1 where d: "computeDiffFor env n forced r a w = (d, w1)" by force
  have g1: "grows noCommand (w_trace w) (w_trace w1)"
    using quiet_computeDiffFor [of noCommand "w_trace w" w env n forced r a] d by simp
  note R = assms(1) [unfolded reconcileAllowed_def Let_def computeDiff_def option.case prod.case d]
  consider (err) h e1 where "d = Inl (h, e1)" | (none) h p where "d = Inr (None, h, p)"
    | (some) spec diff h p where "d = Inr (Some (spec, diff), h, p)"
    by (metis option.exhaust sum.exhaust surj_pair)
  then show thesis
  proof cases
    case err
    have "grows noCommand (w_trace w) (w_trace (breakerFailure env n w1))" using g1 by simp
    note f = finish_quiet [OF _ this]
    show thesis using R err by (intro quiet) (auto dest!: f)
  next
    case none
    then show thesis using R by (intro quiet) (auto dest!: finish_quiet [OF _ g1])
  next
    case (some spec diff h p)
    show thesis
    proof (cases "InSync diff \<or> \<not> (Automated (appPolicy a) \<or> forced)")
      case True
      have us: "grows noCommand (w_trace w) (w_trace (updateStatus env n u w1))"
          "grows noCommand (w_trace w) (w_trace (updateStatus env n u (breakerSuccess n w1)))" for u
        by (rule quiet_store(5) [OF quietOK_noCommand], use g1 in simp)+
      show thesis
      proof (cases "InSync diff")
        case True
        then show thesis using R some by (intro quiet) (auto dest!: finish_quiet [OF _ us(2)])
      next
        case False
        then show thesis using R some \<open>InSync diff \<or> \<not> (Automated (appPolicy a) \<or> forced)\<close>
          by (intro quiet) (auto dest!: finish_quiet [OF _ us(1)])
      qed
    next
      case False
      then have "deployDrift env deps n (result0\<lparr>res_CommitSHA := h, res_Diff := Some diff\<rparr>) a spec diff h p w1 = ((x, e), w')"
        using R some by auto
      moreover obtain es where "w_trace w1 = w_trace w @ GitSynced (appSource a) (Inr h) # es" "list_all noCommand es"
        by (rule computeDiffFor_Some [OF d [unfolded some]]) (use prepare_idem [OF assms(2)] assms(3) in auto)
      ultimately show thesis using False by (intro deploys) auto
    qed
  qed
qed

text \<open>
  A reconciliation either runs no command and does not report success, or it reaches the deployment of
  a diff that is not in sync, for an application that is automated or was forced and whose breaker let
  the attempt through, after a Git sync that gave the commit.
\<close>

lemma reconcileApp_cases:
  assumes "reconcileApp env deps n forced w = ((x, e), w')"
  obtains (quiet) "grows noCommand (w_trace w) (w_trace w')" "\<And>y. x = Some y \<Longrightarrow> res_Result y \<noteq> ResSuccess"
  | (deploys) r a application spec diff head path result es w1 where
      "appIn w n = Some r" "unmarshalApp (e_codec env) (ar_Manifest r) = Inr a"
      "prepareApplication (e_net env) a = Inr application" "Automated (appPolicy application) \<or> forced"
      "fst (Allow (e_now env (w_trace w @ [Queried ''GetApplication'' None])) (getBreaker n w))"
      "\<not> InSync diff" "res_CommitSHA result = head" "res_Diff result = Some diff" "res_AppName result = n"
      "w_trace w1 = w_trace w @ [Queried ''GetApplication'' None, GitSynced (appSource application) (Inr head)] @ es"
      "list_all noCommand es"
      "deployDrift env deps n result application spec diff head path w1 = ((x, e), w')"
proof -
  obtain g w0 where g: "GetApplication env n w = (g, w0)" by force
  have g0: "grows noCommand (w_trace w) (w_trace w0)"
    using quiet_store(1) [OF quietOK_noCommand grows_refl, where w = w and env = env and n = n] g by simp
  let ?res = "newResult n (e_now env (w_trace w)) (if forced then OpManual else OpPoll) []"
  note R = assms [unfolded reconcileApp_def Let_def g prod.case]
  consider (err) e1 where "g = Inl e1" | (none) "g = Inr None" | (some) r where "g = Inr (Some r)"
    by (metis option.exhaust sum.exhaust)
  then show thesis
  proof cases
    case err
    then show thesis using R by (intro quiet) (auto dest!: finish_quiet [OF _ g0])
  next
    case none
    then show thesis using R g0 by (intro quiet) auto
  next
    case (some r)
    note G = GetApplication_Inr [OF g [unfolded some]]
    show thesis
    proof (cases "unmarshalApp (e_codec env) (ar_Manifest r)")
      case (Inl e1)
      then show thesis using R some by (intro quiet) (auto dest!: finish_quiet [OF _ g0])
    next
      case a: (Inr a)
      show thesis
      proof (cases "prepareApplication (e_net env) a")
        case (Inl e1)
        then show thesis using R some a by (intro quiet) (auto dest!: finish_quiet [OF _ g0])
      next
        case app: (Inr application)
        obtain ok cb where cb: "Allow (e_now env (w_trace w0)) (getBreaker n w0) = (ok, cb)" by force
        show thesis
        proof (cases ok)
          case False
          have "grows noCommand (w_trace w) (w_trace (setBreaker n cb w0))" using g0 by simp
          note f = finish_quiet [OF _ this]
          show thesis using R some a app cb False by (intro quiet) (auto dest!: f)
        next
          case True
          have allow: "fst (Allow (e_now env (w_trace w @ [Queried ''GetApplication'' None])) (getBreaker n w))"
            using True cb getBreaker_GetApplication [OF g] G(3) by simp
          have "reconcileAllowed env deps n forced ?res r application (setBreaker n cb w0) = ((x, e), w')"
            using R some a app cb True by simp
          then show thesis
          proof (cases rule: reconcileAllowed_cases [OF _ app refl, consumes 1])
            case 1
            with g0 show thesis by (intro quiet) (auto intro: grows_trans)
          next
            case (2 spec diff head path es w1)
            show thesis
              by (rule deploys [OF G(1) [symmetric] a app 2(1) allow 2(2) _ _ _ _ 2(4) 2(5)])
                 (use 2(3) G(3) in \<open>simp_all add: newResult_def\<close>)
          qed
        qed
      qed
    qed
  qed
qed

lemma applied_extend:
  assumes "applied P t1 t2" and "t1 = t @ xs" and "grows Q t2 t3"
  shows "applied P t t3"
proof -
  obtain es where "t3 = t2 @ es" using assms(3) by (auto simp: grows_def)
  moreover have "set (drop (length t + length xs) t2) \<subseteq> set (drop (length t) t2)"
    by (rule set_drop_subset_set_drop) simp
  ultimately show ?thesis using assms(1,2) by (auto simp: applied_def)
qed

lemma grows_quiet_True: "grows P t t' \<Longrightarrow> grows (\<lambda>e. True) t t'"
  by (erule grows_mono) simp

lemma quietOK_True [simp]: "quietOK (\<lambda>e. True)"
  by (simp add: quietOK_def)

lemma deployRequest_project [simp]: "dr_ProjectName (deployRequest env a path svcs pull prune) = ProjectName (appDestination a)"
  by (simp add: deployRequest_def Let_def)

context reconciler
begin

lemma deployWaves_applies:
  assumes "dr_ProjectName req \<noteq> []" and "deployWaves env deps (dp_Deployer deps) n req waves w = (None, w')" and "waves \<noteq> []"
  shows "applied (bgOwned (dr_ProjectName req)) (w_trace w) (w_trace w')"
proof -
  obtain wave ws where waves: "waves = wave # ws" using assms(3) by (cases waves) auto
  obtain r w1 where d: "onTrace (d_DeployServices (dp_Deployer deps) req (Services wave)) w = (r, w1)" by force
  have r: "r = None" using assms(2) d waves by (cases r) auto
  have ds: "d_DeployServices (dp_Deployer deps) req (Services wave) (w_trace w) = (None, w_trace w1)"
    using d r by (auto simp: onTrace_def split: prod.splits)
  have ap: "applied (bgOwned (dr_ProjectName req)) (w_trace w) (w_trace w1)"
    using bg_applied_mono [OF DeployServices_applies [OF assms(1), of "Services wave" "w_trace w"]] ds by simp
  obtain q w2 where q: "(if dp_HealthMonitor deps \<noteq> None then WaitForServicesHealthy env n (Services wave) w1 else (None, w1)) = (q, w2)" by force
  have g2: "grows (\<lambda>e. True) (w_trace w1) (w_trace w2)"
    using q quiet_wait [OF quietOK_True grows_refl, where w = w1 and env = env and n = n and names = "Services wave"] by (auto split: if_splits)
  have "q = None" using assms(2) waves d r q by (cases q) auto
  then have "deployWaves env deps (dp_Deployer deps) n req ws w2 = (None, w')" using assms(2) waves d r q by simp
  then have "grows (commandsIn (bgOwned (dr_ProjectName req))) (w_trace w2) (w_trace w')"
    using deployWaves_confined [OF assms(1) grows_refl, of w2 n ws] by simp
  then show ?thesis
    using applied_extend [OF ap _ grows_trans [OF g2 grows_quiet_True], of "w_trace w" "[]"] by simp
qed

lemma deployByWaves_None:
  assumes "deployByWaves env deps dep n req waves w = (None, w')"
  obtains w1 w2 w3 where "onTrace (runHooks dep req (dr_PreSyncServices req) ''pre-sync'') w = (None, w1)"
    "(if dr_Pull req then onTrace (d_Pull dep req) w1 else (None, w1)) = (None, w2)"
    "deployWaves env deps dep n (req\<lparr>dr_Pull := False, dr_PreSyncServices := [], dr_PostSyncServices := []\<rparr>) waves w2 = (None, w3)"
    "w' = w3\<lparr>w_trace := postHooks dep req (dr_PostSyncServices req) (w_trace w3)\<rparr>"
proof -
  obtain r1 w1 where h: "onTrace (runHooks dep req (dr_PreSyncServices req) ''pre-sync'') w = (r1, w1)" by force
  obtain r2 w2 where p: "(if dr_Pull req then onTrace (d_Pull dep req) w1 else (None, w1)) = (r2, w2)" by force
  obtain r3 w3 where v: "deployWaves env deps dep n (req\<lparr>dr_Pull := False, dr_PreSyncServices := [], dr_PostSyncServices := []\<rparr>) waves w2 = (r3, w3)"
    by force
  note R = assms [unfolded deployByWaves_def h prod.case]
  have r1: "r1 = None" using R by (cases r1) auto
  note R = R [unfolded r1 option.case p prod.case]
  have r2: "r2 = None" using R by (cases r2) auto
  note R = R [unfolded r2 option.case v prod.case]
  have r3: "r3 = None" using R by (cases r3) auto
  show thesis using that h p v R r1 r2 r3 by simp
qed

lemma deployAll_applies:
  assumes "dr_ProjectName req \<noteq> []" and "deployAll env deps n req svcs w = (None, w')"
  shows "applied (bgOwned (dr_ProjectName req)) (w_trace w) (w_trace w')"
proof (cases "length (groupByWave svcs) \<le> 1 \<or> hasBlueGreenStrategy svcs")
  case True
  let ?dep = "if hasBlueGreenStrategy svcs then NewBlueGreen env (dp_Deployer deps) else dp_Deployer deps"
  have d: "d_Deploy ?dep req (w_trace w) = (None, w_trace w')"
    using assms(2) True by (auto simp: deployAll_def Let_def onTrace_def split: prod.splits option.splits)
  show ?thesis
  proof (cases "hasBlueGreenStrategy svcs")
    case True
    then show ?thesis using bg.Deploy_applies [OF assms(1), of "w_trace w"] d by simp
  next
    case False
    then show ?thesis using bg_applied_mono [OF Deploy_applies [OF assms(1), of "w_trace w"]] d by simp
  qed
next
  case False
  let ?req = "req\<lparr>dr_Pull := False, dr_PreSyncServices := [], dr_PostSyncServices := []\<rparr>"
  have "deployByWaves env deps (dp_Deployer deps) n req (groupByWave svcs) w = (None, w')"
    using assms(2) False by (simp add: deployAll_def Let_def)
  then obtain w1 w2 w3 where h: "onTrace (runHooks (dp_Deployer deps) req (dr_PreSyncServices req) ''pre-sync'') w = (None, w1)"
    and p: "(if dr_Pull req then onTrace (d_Pull (dp_Deployer deps) req) w1 else (None, w1)) = (None, w2)"
    and v: "deployWaves env deps (dp_Deployer deps) n ?req (groupByWave svcs) w2 = (None, w3)"
    and w': "w' = w3\<lparr>w_trace := postHooks (dp_Deployer deps) req (dr_PostSyncServices req) (w_trace w3)\<rparr>"
    by (rule deployByWaves_None)
  have g1: "grows (commandsIn (bgOwned (dr_ProjectName req))) (w_trace w) (w_trace w1)"
    using hooks_confined(1) [OF assms(1), of "w_trace w" "dr_PreSyncServices req" "''pre-sync''"] h
    by (auto simp: onTrace_def split: prod.splits)
  have "grows (commandsIn (bgOwned (dr_ProjectName req))) (w_trace w1) (w_trace w2)"
    using dep_confined(1) [OF assms(1), of "w_trace w1"] p by (auto simp: onTrace_def split: prod.splits if_splits)
  from grows_trans [OF g1 this] obtain xs where xs: "w_trace w2 = w_trace w @ xs" by (auto simp: grows_def)
  have "applied (bgOwned (dr_ProjectName req)) (w_trace w2) (w_trace w3)"
    using deployWaves_applies [of ?req n "groupByWave svcs" w2 w3] v assms(1) False
    by (cases "groupByWave svcs") auto
  then show ?thesis
    using applied_extend [OF _ xs hooks_confined(2) [OF assms(1)]] w' by simp
qed

text \<open>The deployment stage as a whole: where its commands go, and what its success means.\<close>

lemma deployDrift_spec:
  assumes "ProjectName (appDestination a) \<noteq> []"
    and "deployDrift env deps n result a spec diff head path w = ((x, e), w')"
  shows "grows (commandsIn (bgOwned (ProjectName (appDestination a)))) (w_trace w) (w_trace w')"
    and "\<exists>y. x = Some y \<and> res_Result y \<noteq> ResSkipped \<and> res_CommitSHA y = res_CommitSHA result \<and> res_Diff y = res_Diff result
       \<and> res_AppName y = res_AppName result
       \<and> (res_Result y = ResSuccess \<longrightarrow> applied (bgOwned (ProjectName (appDestination a))) (w_trace w) (w_trace w'))"
proof -
  let ?Q = "commandsIn (bgOwned (ProjectName (appDestination a)))"
  define w1 where "w1 = updateStatus env n (noUpdate\<lparr>su_HealthStatus := Some Progressing\<rparr>)
      (updateStatus env n (noUpdate\<lparr>su_SyncStatus := Some OutOfSync\<rparr>) w)"
  define req where "req = deployRequest env a path (cs_Services spec) (hasImageChanges diff)
      (Prune (appPolicy a) \<and> length (ToRemove diff) > 0)"
  have preq: "dr_ProjectName req \<noteq> []" "dr_ProjectName req = ProjectName (appDestination a)" using assms(1) by (simp_all add: req_def)
  obtain r w2 where d: "deployAll env deps n req (cs_Services spec) w1 = (r, w2)" by force
  note R = assms(2) [unfolded deployDrift_def Let_def, folded w1_def req_def, unfolded d prod.case]
  have g1: "grows ?Q (w_trace w) (w_trace w1)" unfolding w1_def by (intro quiet_store(5)) simp_all
  then obtain xs where xs: "w_trace w1 = w_trace w @ xs" by (auto simp: grows_def)
  have g2: "grows ?Q (w_trace w) (w_trace w2)"
    using grows_trans [OF g1] deployAll_confined [OF preq(1), of w1 n "cs_Services spec"] d preq(2) by simp
  have fin: "grows ?Q (w_trace w) (w_trace w') \<and> (\<exists>y. x = Some y \<and> res_Result y = st \<and> res_CommitSHA y = res_CommitSHA result
      \<and> res_Diff y = res_Diff result \<and> res_AppName y = res_AppName result) \<and> grows ?Q (w_trace w3) (w_trace w')"
    if "finishResult env deps result st msg w3 = ((x, e), w')" "grows ?Q (w_trace w) (w_trace w3)" for st msg w3
    using quiet_finishResult [OF quietOK_commandsIn that(2), of env deps result st msg]
      quiet_finishResult [OF quietOK_commandsIn grows_refl, where w = w3 and env = env and deps = deps and res = result and status = st and msg = msg]
      finishResult_fst [of env deps result st msg w3] that(1) by auto
  have "grows ?Q (w_trace w) (w_trace w') \<and> (\<exists>y. x = Some y \<and> res_Result y \<noteq> ResSkipped \<and> res_CommitSHA y = res_CommitSHA result
      \<and> res_Diff y = res_Diff result \<and> res_AppName y = res_AppName result
      \<and> (res_Result y = ResSuccess \<longrightarrow> applied (bgOwned (ProjectName (appDestination a))) (w_trace w) (w_trace w')))"
  proof (cases r)
    case (Some msg)
    have "grows ?Q (w_trace w) (w_trace (degrade env n msg (breakerFailure env n w2)))"
      by (rule quiet_store(6)) (use g2 in simp_all)
    from fin [OF R [unfolded Some option.case] this] show ?thesis by auto
  next
    case None
    obtain z w3 where z: "afterDeploy env (appDestination a) (hasBlueGreenStrategy (cs_Services spec)) ''deployment'' head (breakerSuccess n w2) = (z, w3)"
      by force
    have g3: "grows ?Q (w_trace w2) (w_trace w3)"
      using quiet_afterDeploy [OF quietOK_commandsIn, of _ "w_trace w2" "breakerSuccess n w2" env "appDestination a"
          "hasBlueGreenStrategy (cs_Services spec)" "''deployment''" head] z by simp
    have ap: "applied (bgOwned (ProjectName (appDestination a))) (w_trace w) (w_trace w2)"
      using applied_extend [OF deployAll_applies [OF preq(1) d [unfolded None]] xs grows_refl] preq(2) by simp
    note R' = R [unfolded None option.case z prod.case]
    have g3': "grows ?Q (w_trace w) (w_trace (updateStatus env n u w3))" "grows ?Q (w_trace w2) (w_trace (updateStatus env n u w3))"
      "grows ?Q (w_trace w) (w_trace (updateStatus env n u (breakerFailure env n w3)))" for u
      by (rule quiet_store(5), simp, use grows_trans [OF g2 g3] g3 in simp)+
    show ?thesis
    proof (cases z)
      case (Inl hm)
      obtain h msg where hm: "hm = (h, msg)" by force
      from fin [OF R' [unfolded Inl hm sum.case prod.case] g3'(3)] show ?thesis by auto
    next
      case (Inr u)
      let ?w4 = "watchDeployed env deps (hasBlueGreenStrategy (cs_Services spec)) n (HealthTimeout (appPolicy a)) (updateStatus env n u w3)"
      have f: "finishResult env deps result ResSuccess None ?w4 = ((x, e), w')" using R' by (simp add: Inr)
      have g4: "grows ?Q (w_trace w) (w_trace ?w4)" using g3'(1) by simp
      have "grows ?Q (w_trace w2) (w_trace w')"
        using grows_trans [OF g3'(2) [of u]] fin [OF f g4] by simp
      with applied_extend [OF ap _ this, of "w_trace w" "[]"] fin [OF f g4] show ?thesis by auto
    qed
  qed
  then show "grows ?Q (w_trace w) (w_trace w')"
    "\<exists>y. x = Some y \<and> res_Result y \<noteq> ResSkipped \<and> res_CommitSHA y = res_CommitSHA result \<and> res_Diff y = res_Diff result
       \<and> res_AppName y = res_AppName result
       \<and> (res_Result y = ResSuccess \<longrightarrow> applied (bgOwned (ProjectName (appDestination a))) (w_trace w) (w_trace w'))"
    by blast+
qed

end

interpretation compose_rec: reconciler "deps\<lparr>dp_Deployer := ComposeDeployer env\<rparr>" env for deps env
  by unfold_locales (simp_all add: compose.owned_self compose.confined compose.Deploy_applies compose.DeployServices_applies)

lemma with_compose: "dp_Deployer deps = ComposeDeployer env \<Longrightarrow> deps\<lparr>dp_Deployer := ComposeDeployer env\<rparr> = deps"
  by (metis Deps.surjective Deps.update_convs(1))

lemma compose_deployDrift:
  assumes "dp_Deployer deps = ComposeDeployer env" and "ProjectName (appDestination a) \<noteq> []"
    and "deployDrift env deps n result a spec diff head path w = ((x, e), w')"
  shows "grows (commandsIn (bgOwned (ProjectName (appDestination a)))) (w_trace w) (w_trace w')"
    and "\<exists>y. x = Some y \<and> res_Result y \<noteq> ResSkipped \<and> res_CommitSHA y = res_CommitSHA result \<and> res_Diff y = res_Diff result
       \<and> res_AppName y = res_AppName result
       \<and> (res_Result y = ResSuccess \<longrightarrow> applied (bgOwned (ProjectName (appDestination a))) (w_trace w) (w_trace w'))"
  using compose_rec.deployDrift_spec [OF assms(2), of env deps n result spec diff head path w x e w'] assms(3)
  by (simp_all only: with_compose [OF assms(1)])

lemma prepared_project: "prepareApplication net a = Inr b \<Longrightarrow> ProjectName (appDestination b) \<noteq> []"
proof -
  assume "prepareApplication net a = Inr b"
  then have v: "validateErrs net b = []" "b = ApplyDefaults a" by (auto simp: prepare_Inr)
  then have "meta_Name (Metadata a) \<noteq> []" using validateErrs_Nil(3) [OF v(1)] by (auto simp: dnsLabelMatch_iff)
  then show ?thesis by (simp add: v(2) defaults_defs)
qed

lemma commandsIn_commandsOf:
  "list_all (commandsIn P) es \<Longrightarrow> c \<in> set (commandsOf es) \<Longrightarrow> cmdVerb c = Some ''pull'' \<or> (\<exists>p \<in> P. cmdProject c = Some p)"
  by (auto simp: commandsOf_set list_all_iff dest!: bspec)

section \<open>The properties of a reconciliation\<close>


text \<open>
  C7: A reconciliation runs a command only when it should. If it ran one, the stored application is
  automated or the reconciliation was forced, the circuit breaker let the attempt through, and the
  result records a failure or a success, together with the diff that was computed before, which is not
  in sync. So a poll of a manually managed application, a skipped result and an application in sync
  leave Docker alone.
\<close>

theorem reconcile_deploys_only_drift:
  assumes "dp_Deployer deps = ComposeDeployer env"
    and "reconcileApp env deps n forced w = ((x, e), w')"
    and "commandsOf (w_trace w') \<noteq> commandsOf (w_trace w)"
  shows "\<exists>r a y d. appIn w n = Some r \<and> unmarshalApp (e_codec env) (ar_Manifest r) = Inr a
    \<and> (Automated (appPolicy a) \<or> forced)
    \<and> fst (Allow (e_now env (w_trace w @ [Queried ''GetApplication'' None])) (getBreaker n w))
    \<and> x = Some y \<and> res_Result y \<noteq> ResSkipped \<and> res_Diff y = Some d \<and> \<not> InSync d"
  using assms(2)
proof (cases rule: reconcileApp_cases)
  case quiet
  then show ?thesis using assms(3) grows_noCommand by blast
next
  case (deploys r a application spec diff head path result es w1)
  note sp = compose_deployDrift(2) [OF assms(1) prepared_project [OF deploys(3)] deploys(12)]
  have "Automated (appPolicy application) = Automated (appPolicy a)"
    using deploys(3) by (auto simp: prepare_Inr defaults_defs)
  then show ?thesis using deploys(1-6,8) sp by auto
qed

lemma reconcile_success:
  assumes "dp_Deployer deps = ComposeDeployer env"
    and "reconcileApp env deps n forced w = ((Some y, e), w')"
    and "res_Result y = ResSuccess"
  shows "\<exists>r a application es. appIn w n = Some r \<and> unmarshalApp (e_codec env) (ar_Manifest r) = Inr a
    \<and> prepareApplication (e_net env) a = Inr application
    \<and> w_trace w' = w_trace w @ [Queried ''GetApplication'' None, GitSynced (appSource application) (Inr (res_CommitSHA y))] @ es
    \<and> (\<exists>c p. Ran c None \<in> set es \<and> cmdVerb c = Some ''up'' \<and> cmdProject c = Some p
           \<and> p \<in> bgOwned (ProjectName (appDestination application)))"
  using assms(2)
proof (cases rule: reconcileApp_cases)
  case quiet
  then show ?thesis using assms(3) by blast
next
  case (deploys r a application spec diff head path result es w1)
  note sp = compose_deployDrift [OF assms(1) prepared_project [OF deploys(3)] deploys(12)]
  obtain fs where "w_trace w' = w_trace w1 @ fs" using sp(1) by (auto simp: grows_def)
  moreover have "res_CommitSHA y = head" "applied (bgOwned (ProjectName (appDestination application))) (w_trace w1) (w_trace w')"
    using sp(2) deploys(7) assms(3) by auto
  ultimately show ?thesis using deploys(1-3,10) by (fastforce simp: applied_def)
qed


section \<open>A concrete reconciliation\<close>

definition demoDeps :: "Env \<Rightarrow> Deps" where
  "demoDeps env = \<lparr>dp_Deployer = ComposeDeployer env, dp_HealthMonitor = None,
     dp_Receivers = \<lparr>rc_Notifier = True, rc_Broadcaster = True\<rparr>\<rparr>"

definition siteEnv :: Env where
  "siteEnv = demoEnv (\<lambda>cmds p. []) [demoSpec ''web'' ''nginx'']"

definition siteState :: RState where
  "siteState = \<lparr>w_trace = [], w_db = \<lparr>db_apps = [demoRecord], db_syncs = [], db_events = [], db_hosts = []\<rparr>,
     m_watched = [], m_sweepRunning = False, r_breakers = []\<rparr>"

lemma site_parts:
  "e_codec siteEnv = demoCodec" "e_net siteEnv = demoNet" "e_dbErr siteEnv t = None" "e_run siteEnv t c = None"
  "e_sync siteEnv t src = Inr ''4f2a''" "e_repoPath siteEnv t u = ''/data/git/infra''" "e_now siteEnv t = int (length t)"
  "e_parse siteEnv t d fs = Inr (Some \<lparr>cs_Services = [demoSpec ''web'' ''nginx''], cs_Networks = [], cs_Volumes = []\<rparr>)"
  "e_inspect siteEnv t dest = Inr []" "e_uuid siteEnv t = Itoa (length t)" "e_tls siteEnv = None" "e_environ siteEnv = []"
  "e_notify siteEnv t ne = None"
  by (simp_all add: siteEnv_def demoEnv_def)

lemma site_diff:
  "\<not> InSync (Diff [demoSpec ''web'' ''nginx''] [])" "hasImageChanges (Diff [demoSpec ''web'' ''nginx''] [])"
  "ToRemove (Diff [demoSpec ''web'' ''nginx''] []) = []"
  by (simp_all add: hasImageChanges_def Diff_def Let_def isExcluded_def demoSpec_def strAt_def indexDesiredByName_def
      indexLiveByName_def index_by_def sortDiffs_def)

lemma site_services:
  "length (groupByWave [demoSpec ''web'' ''nginx'']) = 1" "\<not> hasBlueGreenStrategy [demoSpec ''web'' ''nginx'']"
  "ph \<noteq> [] \<Longrightarrow> hookServices ph [demoSpec ''web'' ''nginx''] = []" "desiredPorts [demoSpec ''web'' ''nginx''] = []"
  by (simp_all add: groupByWave_def Let_def addToWave_def isHookService_def demoSpec_def waveOf_def hasBlueGreenStrategy_def
      hookServices_def strAt_def desiredPorts_def collectPorts_def)

lemma site_app:
  "appIn siteState ''web'' = Some demoRecord" "ar_Manifest demoRecord = ''{}''"
  "unmarshalApp demoCodec ''{}'' = Inr demoApplication"
  "prepareApplication demoNet (ApplyDefaults demoApplication) = Inr (ApplyDefaults demoApplication)"
  by (simp_all add: appIn_def selectRow_def siteState_def demoRecord_def demoCodec_def demoApplication_accepted [THEN prepare_idem])

lemma site_defaults:
  "appDestination (ApplyDefaults demoApplication) = \<lparr>DockerHost = ''unix:///var/run/docker.sock'', ProjectName = ''web''\<rparr>"
  "Automated (appPolicy (ApplyDefaults demoApplication))" "SelfHeal (appPolicy (ApplyDefaults demoApplication))"
  by (simp_all add: defaults_defs demoApplication_def)

lemma site_computeDiff:
  "\<exists>p w1. computeDiffFor siteEnv ''web'' False demoRecord (ApplyDefaults demoApplication) w
     = (Inr (Some (\<lparr>cs_Services = [demoSpec ''web'' ''nginx''], cs_Networks = [], cs_Volumes = []\<rparr>,
          Diff [demoSpec ''web'' ''nginx''] []), ''4f2a'', p), w1)"
  by (simp add: computeDiffFor_def diffAtHead_def Let_def site_parts site_app site_defaults site_services gitSync_def parseFiles_def
      checkPortConflicts_def inspectLive_def inspectW_def Inspect_def)

lemma site_deployAll:
  "\<exists>w1. deployAll siteEnv (demoDeps siteEnv) n (deployRequest siteEnv a p [demoSpec ''web'' ''nginx''] pull prune) [demoSpec ''web'' ''nginx''] w = (None, w1)"
  by (simp add: deployAll_def Let_def site_services onTrace_def demoDeps_def ComposeDeployer_def Deploy_def deployRequest_def
      Pull_def run_def site_parts split: prod.split)

lemma site_reconcile:
  "\<exists>y w'. reconcileApp siteEnv (demoDeps siteEnv) ''web'' False siteState = ((Some y, None), w') \<and> res_Result y = ResSuccess
     \<and> res_CommitSHA y = ''4f2a''"
proof -
  obtain w0 where g: "GetApplication siteEnv ''web'' siteState = (Inr (Some demoRecord), w0)"
    using site_app(1) by (auto simp: GetApplication_def exec_def site_parts wrapErr_def appIn_def)
  have b: "getBreaker ''web'' w0 = NewCircuitBreaker 3 (5 * Minute)"
    using getBreaker_GetApplication [OF g] by (simp add: getBreaker_def siteState_def)
  let ?a = "ApplyDefaults demoApplication" and ?d = "Diff [demoSpec ''web'' ''nginx''] []" and ?r = "newResult ''web'' (e_now siteEnv (w_trace siteState)) OpPoll []"
  have "reconcileApp siteEnv (demoDeps siteEnv) ''web'' False siteState
      = reconcileAllowed siteEnv (demoDeps siteEnv) ''web'' False ?r demoRecord ?a (setBreaker ''web'' (NewCircuitBreaker 3 (5 * Minute)) w0)"
    by (simp add: reconcileApp_def g site_parts site_app demoApplication_accepted b Allow_def NewCircuitBreaker_def)
  moreover obtain p w1 where c: "computeDiffFor siteEnv ''web'' False demoRecord ?a (setBreaker ''web'' (NewCircuitBreaker 3 (5 * Minute)) w0)
      = (Inr (Some (\<lparr>cs_Services = [demoSpec ''web'' ''nginx''], cs_Networks = [], cs_Volumes = []\<rparr>, ?d), ''4f2a'', p), w1)"
    using site_computeDiff by blast
  ultimately have R: "reconcileApp siteEnv (demoDeps siteEnv) ''web'' False siteState
      = deployDrift siteEnv (demoDeps siteEnv) ''web'' (?r\<lparr>res_CommitSHA := ''4f2a'', res_Diff := Some ?d\<rparr>) ?a
          \<lparr>cs_Services = [demoSpec ''web'' ''nginx''], cs_Networks = [], cs_Volumes = []\<rparr> ?d ''4f2a'' p w1"
    by (simp add: reconcileAllowed_def computeDiff_def c site_diff site_defaults)
  let ?req = "deployRequest siteEnv ?a p [demoSpec ''web'' ''nginx''] True False"
  obtain w3 where dp: "deployAll siteEnv (demoDeps siteEnv) ''web'' ?req [demoSpec ''web'' ''nginx'']
      (updateStatus siteEnv ''web'' (noUpdate\<lparr>su_HealthStatus := Some Progressing\<rparr>)
        (updateStatus siteEnv ''web'' (noUpdate\<lparr>su_SyncStatus := Some OutOfSync\<rparr>) w1)) = (None, w3)"
    using site_deployAll by blast
  obtain w4 where "reconcileApp siteEnv (demoDeps siteEnv) ''web'' False siteState
      = finishResult siteEnv (demoDeps siteEnv) (?r\<lparr>res_CommitSHA := ''4f2a'', res_Diff := Some ?d\<rparr>) ResSuccess None w4"
    unfolding R by (simp add: deployDrift_def Let_def site_diff site_services dp afterDeploy_def)
  then show ?thesis
    using finishResult_fst [of siteEnv "demoDeps siteEnv" "?r\<lparr>res_CommitSHA := ''4f2a'', res_Diff := Some ?d\<rparr>" ResSuccess None w4]
    by (intro exI [of _ "snd (finishResult siteEnv (demoDeps siteEnv) (?r\<lparr>res_CommitSHA := ''4f2a'', res_Diff := Some ?d\<rparr>) ResSuccess None w4)"]
        exI [of _ "completeResult (?r\<lparr>res_CommitSHA := ''4f2a'', res_Diff := Some ?d\<rparr>) ResSuccess None (e_now siteEnv (w_trace w4))"])
      (simp add: prod_eq_iff)
qed

lemma site_ran:
  "\<exists>y c w'. reconcileApp siteEnv (demoDeps siteEnv) ''web'' False siteState = ((Some y, None), w')
     \<and> res_Result y = ResSuccess \<and> c \<in> set (commandsOf (w_trace w'))"
proof -
  obtain y w' where y: "reconcileApp siteEnv (demoDeps siteEnv) ''web'' False siteState = ((Some y, None), w')" "res_Result y = ResSuccess"
    using site_reconcile by blast
  have "dp_Deployer (demoDeps siteEnv) = ComposeDeployer siteEnv" by (simp add: demoDeps_def)
  from reconcile_success [OF this y] have "\<exists>c. c \<in> set (commandsOf (w_trace w'))"
    by (fastforce simp: commandsOf_set)
  with y show ?thesis by blast
qed


theorem reconcile_deploys_only_drift_witness:
  "\<exists>y d. fst (fst (reconcileApp siteEnv (demoDeps siteEnv) ''web'' False siteState)) = Some y
     \<and> res_Result y \<noteq> ResSkipped \<and> res_Diff y = Some d \<and> \<not> InSync d"
proof -
  obtain y c w' where r: "reconcileApp siteEnv (demoDeps siteEnv) ''web'' False siteState = ((Some y, None), w')"
    "c \<in> set (commandsOf (w_trace w'))" using site_ran by blast
  then have "commandsOf (w_trace w') \<noteq> commandsOf (w_trace siteState)" by (auto simp: siteState_def)
  from reconcile_deploys_only_drift [OF _ r(1) this] r show ?thesis by (auto simp: demoDeps_def)
qed


end
