(* ===== verification/Waves.thy ===== *)
theory Waves
  imports Reconciler_Safety
begin

text \<open>
  Sync waves: the grouping of services by their wave label, and the order and the health gates of a
  deployment in waves.
\<close>

section \<open>Grouping\<close>

definition inWave :: "int \<Rightarrow> ServiceSpec list \<Rightarrow> string list" where
  "inWave w services = map sp_Name (filter (\<lambda>s. \<not> isHookService s \<and> waveOf s = w) services)"

lemma waveMap_lookup:
  "map_of (fold addToWave services m) w =
     (if inWave w services = [] then map_of m w
      else Some ((case map_of m w of None \<Rightarrow> [] | Some names \<Rightarrow> names) @ inWave w services))"
proof (induction services arbitrary: m)
  case (Cons s services)
  have "inWave w (s # services) = (if \<not> isHookService s \<and> waveOf s = w then [sp_Name s] else []) @ inWave w services"
    by (simp add: inWave_def)
  then show ?case
    using Cons.IH [of "addToWave s m"] by (auto simp: addToWave_def map_of_update split: option.splits)
qed (simp add: inWave_def)

lemma sort_Nil: "sort xs = [] \<longleftrightarrow> xs = []" "[] = sort xs \<longleftrightarrow> xs = []"
  by (metis length_0_conv length_sort)+

lemma waveMap_wf: "wf_map m \<Longrightarrow> wf_map (fold addToWave services m)"
  by (induction services arbitrary: m) (auto simp: addToWave_def distinct_update)

text \<open>
  The waves of an application are its wave numbers in strictly ascending order, each with all the
  services that carry the number (0 without a label or with a label that is no number), sorted by
  name, and nothing else: no wave is empty and hook services are in none.
\<close>

theorem groupByWave_correct:
  "sorted (map Wave (groupByWave services)) \<and> distinct (map Wave (groupByWave services))
   \<and> set (map Wave (groupByWave services)) = waveOf ` {s \<in> set services. \<not> isHookService s}
   \<and> (\<forall>g. g \<in> set (groupByWave services) \<longleftrightarrow> Services g \<noteq> [] \<and> Services g = sort (inWave (Wave g) services))"
proof -
  define m where "m = fold addToWave services []"
  have lookup: "map_of m w = (if inWave w services = [] then None else Some (inWave w services))" for w
    by (simp add: m_def waveMap_lookup)
  have wf: "wf_map m" by (simp add: m_def waveMap_wf)
  define gs where "gs = map (\<lambda>(w, svcs). \<lparr>Wave = w, Services = sort svcs\<rparr>) m"
  have g: "groupByWave services = sort_key Wave gs" by (simp add: groupByWave_def gs_def m_def)
  have waves: "map Wave gs = map fst m" by (auto simp: gs_def)
  have mem: "g \<in> set gs \<longleftrightarrow> Services g \<noteq> [] \<and> Services g = sort (inWave (Wave g) services)" for g
  proof -
    have "g \<in> set gs \<longleftrightarrow> (\<exists>svcs. (Wave g, svcs) \<in> set m \<and> Services g = sort svcs)"
      by (cases g) (force simp: gs_def)
    also have "\<dots> \<longleftrightarrow> (\<exists>svcs. map_of m (Wave g) = Some svcs \<and> Services g = sort svcs)"
      using wf by (simp add: map_of_eq_iff_mem)
    finally show ?thesis by (auto simp: lookup sort_Nil)
  qed
  have "w \<in> fst ` set m \<longleftrightarrow> w \<in> waveOf ` {s \<in> set services. \<not> isHookService s}" for w
  proof -
    have "w \<in> fst ` set m \<longleftrightarrow> map_of m w \<noteq> None" by (simp add: map_of_eq_None_iff)
    also have "\<dots> \<longleftrightarrow> inWave w services \<noteq> []" by (simp add: lookup)
    also have "\<dots> \<longleftrightarrow> w \<in> waveOf ` {s \<in> set services. \<not> isHookService s}" by (auto simp: inWave_def filter_empty_conv)
    finally show ?thesis .
  qed
  then have "set (map Wave gs) = waveOf ` {s \<in> set services. \<not> isHookService s}" unfolding waves by auto
  moreover have "distinct (map Wave gs)" using wf waves by simp
  ultimately show ?thesis
    using mem by (simp add: g distinct_sort_key_map del: map_map)
qed

section \<open>Order and health gates\<close>

text \<open>
  The trace of a deployment in waves. A wave that has passed its gate: its \<^verbatim>\<open>up\<close> succeeded, then no
  command ran, and with a health monitor the last thing before the next wave is an inspection in which
  all its services are present and healthy. The last wave of a failed deployment was started only.
\<close>

definition waveCmd :: "Env \<Rightarrow> DeployRequest \<Rightarrow> WaveGroup \<Rightarrow> Command" where
  "waveCmd env req wave = command env req (upArgs req @ Services wave)"

definition healthEvidence :: "string list \<Rightarrow> trace \<Rightarrow> bool" where
  "healthEvidence names es \<longleftrightarrow> (\<exists>pre dest states. es = pre @ [Inspected dest (Inr states), Queried ''RecordHealthObservation'' None]
     \<and> set names \<subseteq> lv_Name ` set states \<and> (\<forall>s \<in> set states. lv_Name s \<in> set names \<longrightarrow> lv_Health s = Healthy))"

fun wavesTrace :: "Env \<Rightarrow> Deps \<Rightarrow> DeployRequest \<Rightarrow> WaveGroup list \<Rightarrow> bool \<Rightarrow> trace \<Rightarrow> bool" where
  "wavesTrace env deps req [] ok es = (ok \<and> es = [])"
| "wavesTrace env deps req (wave # waves) ok es =
     ((\<not> ok \<and> (\<exists>res rest. es = Ran (waveCmd env req wave) res # rest \<and> commandsOf rest = []))
    \<or> (\<exists>gate rest. es = Ran (waveCmd env req wave) None # gate @ rest \<and> commandsOf gate = []
         \<and> (dp_HealthMonitor deps \<noteq> None \<and> Services wave \<noteq> [] \<longrightarrow> healthEvidence (Services wave) gate)
         \<and> wavesTrace env deps req waves ok rest))"

lemma observing_commandsOf: "grows observing t t' \<Longrightarrow> \<exists>es. t' = t @ es \<and> commandsOf es = []"
proof -
  assume "grows observing t t'"
  then obtain es where "t' = t @ es" "list_all observing es" by (auto simp: grows_def)
  moreover have "list_all observing es \<Longrightarrow> commandsOf es = []" for es
    by (induction es rule: commandsOf.induct) auto
  ultimately show ?thesis by blast
qed

lemma deployWaves_trace:
  assumes "deployWaves env deps (ComposeDeployer env) n req waves w = (r, w')"
  shows "\<exists>es. w_trace w' = w_trace w @ es \<and> wavesTrace env deps req waves (r = None) es"
  using assms
proof (induction waves arbitrary: w)
  case (Cons wave waves)
  obtain r1 w1 where d: "onTrace (d_DeployServices (ComposeDeployer env) req (Services wave)) w = (r1, w1)" by force
  have "d_DeployServices (ComposeDeployer env) req (Services wave) (w_trace w) = (r1, w_trace w1)"
    using d by (auto simp: onTrace_def split: prod.splits)
  then have ds: "fst (DeployServices env req (Services wave) (w_trace w)) = r1" "snd (DeployServices env req (Services wave) (w_trace w)) = w_trace w1"
    by (simp_all add: ComposeDeployer_def)
  define res where "res = fst (run env req (upArgs req @ Services wave) (w_trace w))"
  have t1: "w_trace w1 = w_trace w @ [Ran (waveCmd env req wave) res]" "r1 = None \<longleftrightarrow> res = None"
    unfolding ds [symmetric] ops_snd ops_None run_result by (simp_all add: res_def waveCmd_def)
  show ?case
  proof (cases r1)
    case (Some e)
    then show ?thesis using Cons.prems d t1 by auto
  next
    case None
    obtain q w2 where q: "(if dp_HealthMonitor deps \<noteq> None then WaitForServicesHealthy env n (Services wave) w1 else (None, w1)) = (q, w2)" by force
    have gr: "grows observing (w_trace w1) (w_trace w2)"
      using q WaitForServicesHealthy_grows [of w1 env n "Services wave"] by (auto split: if_splits)
    then obtain gate where gate: "w_trace w2 = w_trace w1 @ gate" "commandsOf gate = []" using observing_commandsOf by blast
    show ?thesis
    proof (cases q)
      case (Some e)
      then show ?thesis using Cons.prems d q None t1 gate by auto
    next
      case None2: None
      have "healthEvidence (Services wave) gate" if "dp_HealthMonitor deps \<noteq> None" "Services wave \<noteq> []"
        using WaitForServicesHealthy_evidence [of env n "Services wave" w1 w2] that q None2 gate(1)
        by (auto simp: healthEvidence_def)
      moreover have "deployWaves env deps (ComposeDeployer env) n req waves w2 = (r, w')"
        using Cons.prems d q None None2 by simp
      from Cons.IH [OF this] obtain es where "w_trace w' = w_trace w2 @ es" "wavesTrace env deps req waves (r = None) es" by blast
      ultimately show ?thesis using t1 gate None by auto
    qed
  qed
qed simp


definition waveDeps :: Deps where
  "waveDeps = \<lparr>dp_Deployer = ComposeDeployer waveEnv, dp_HealthMonitor = Some DefaultConfig,
     dp_Receivers = \<lparr>rc_Notifier = False, rc_Broadcaster = False\<rparr>\<rparr>"

definition demoWaves :: "WaveGroup list" where
  "demoWaves = [\<lparr>Wave = 0, Services = [''db'']\<rparr>, \<lparr>Wave = 1, Services = [''web'']\<rparr>]"


end
