(* ===== verification/History.thy ===== *)
theory History
  imports Waves
begin

text \<open>
  What a reconciliation or a rollback leaves in the store and sends out: the history record and its
  redaction, the notifications, the rollback's precondition, and the circuit breaker of an application.
\<close>

section \<open>Frames\<close>

lemma record_more [simp, frame]:
  "World.more (snd (RecordSync env r w)) = World.more w" "World.more (snd (RecordEvent env ev w)) = World.more w"
  "World.more (updateStatus env n u w) = World.more w" "World.more (degrade env n msg w) = World.more w"
  "World.more (snd (onTrace f w)) = World.more w" "World.more (snd (GetSyncBySHA env n sha w)) = World.more w"
  by (simp_all add: RecordSync_def RecordEvent_def updateStatus_def degrade_def onTrace_def GetSyncBySHA_def Let_def split: prod.split)

lemma finishResult_more [simp, frame]: "World.more (snd (finishResult env deps res st msg w)) = World.more w"
  by (simp add: finishResult_def Let_def)

lemma afterDeploy_more [simp, frame]: "World.more (snd (afterDeploy env dest bg what sha w)) = World.more w"
  unfolding afterDeploy_def inspectBlueGreenHealth_def Let_def
  by (auto intro!: more_prod split: sum.split option.split)

lemma notify_db [simp]: "w_db (notify env rc ne w) = w_db w" "w_db (broadcast rc ev w) = w_db w"
  by (simp_all add: notify_def broadcast_def)

section \<open>The history record\<close>

lemma RecordEvent_syncs: "db_syncs (w_db (snd (RecordEvent env ev w))) = db_syncs (w_db w)"
  by (simp add: RecordEvent_def Let_def exec_db)

lemma finishResult_syncs:
  assumes "e_dbErr env (w_trace w) = None" and "appIn w (res_AppName res) \<noteq> None"
    and "e_uuid env (w_trace w) \<notin> sy_ID ` set (db_syncs (w_db w))"
  shows "db_syncs (w_db (snd (finishResult env deps res st msg w))) = db_syncs (w_db w) @
     [(syncRecordOf (e_codec env) (completeResult res st msg (e_now env (w_trace w))))
        \<lparr>sy_ID := e_uuid env (w_trace w), sy_CreatedAt := e_now env (w_trace w), sy_ComposeSpecJSON := []\<rparr>]"
proof -
  have "db_syncs (w_db (snd (finishResult env deps res st msg w)))
      = db_syncs (w_db (snd (RecordSync env (syncRecordOf (e_codec env) (completeResult res st msg (e_now env (w_trace w)))) w)))"
    by (simp add: finishResult_def Let_def RecordEvent_syncs)
  then show ?thesis
    using assms by (simp add: RecordSync_def Let_def exec_db syncRecordOf_def appIn_def)
qed

lemma finishResult_db:
  "w_db (snd (finishResult env deps res st msg w)) =
     (let r = completeResult res st msg (e_now env (w_trace w)); w1 = snd (RecordSync env (syncRecordOf (e_codec env) r) w)
      in if st \<noteq> ResSkipped
         then w_db (snd (RecordEvent env \<lparr>er_ID = [], er_AppName = res_AppName r,
                er_Type = (if st = ResFailure then ''SyncError'' else ''SyncSuccess''), er_Message = resultMessage r st msg,
                er_Severity = (if st = ResFailure then ''error'' else ''info''), er_DataJSON = [], er_CreatedAt = 0\<rparr> w1))
         else w_db w1)"
  by (simp add: finishResult_def Let_def)

lemma completeResult_fields [simp]:
  "res_AppName (completeResult res st msg now) = res_AppName res" "res_Operation (completeResult res st msg now) = res_Operation res"
  "res_CommitSHA (completeResult res st msg now) = res_CommitSHA res" "res_Diff (completeResult res st msg now) = res_Diff res"
  by (simp_all add: completeResult_def)

lemma completeResult_diff:
  "resultMessage (completeResult (res\<lparr>res_Diff := x\<rparr>) st msg now) st msg = resultMessage (completeResult res st msg now) st msg"
  "res_AppName (completeResult (res\<lparr>res_Diff := x\<rparr>) st msg now) = res_AppName res"
  by (simp_all add: resultMessage_def split: option.split)

text \<open>
  What a reconciliation persists about its diff does not depend on any environment value. Changing
  the non-empty environment values of the diff in any way leaves the store after \<^verbatim>\<open>finishResult\<close>
  unchanged, in all tables, whatever the outcome and whatever statements fail.
\<close>

theorem finishResult_persists_no_environment:
  assumes "\<And>k v. f k v = [] \<longleftrightarrow> v = []"
  shows "w_db (snd (finishResult env deps (res\<lparr>res_Diff := Some (changeDiff f d)\<rparr>) st msg w))
       = w_db (snd (finishResult env deps (res\<lparr>res_Diff := Some d\<rparr>) st msg w))"
proof -
  have "RedactDiffResult (changeDiff f d) = RedactDiffResult d"
    by (simp add: RedactDiffResult_def changeDiff_def redactServiceDiffs_change [OF assms])
  then have sync: "syncRecordOf (e_codec env) (completeResult (res\<lparr>res_Diff := Some (changeDiff f d)\<rparr>) st msg now)
       = syncRecordOf (e_codec env) (completeResult (res\<lparr>res_Diff := Some d\<rparr>) st msg now)" for now
    by (simp add: syncRecordOf_def completeResult_def)
  show ?thesis by (simp only: finishResult_db Let_def sync completeResult_diff)
qed

theorem finishResult_persists_no_environment_witness:
  "w_db (snd (finishResult siteEnv (demoDeps siteEnv) ((newResult ''web'' 0 OpPoll [])\<lparr>res_Diff :=
       Some (changeDiff (\<lambda>k v. if v = [] then [] else ''changed'') demoEnvDiff)\<rparr>) ResFailure None siteState))
   = w_db (snd (finishResult siteEnv (demoDeps siteEnv) ((newResult ''web'' 0 OpPoll [])\<lparr>res_Diff := Some demoEnvDiff\<rparr>)
       ResFailure None siteState))"
  by (rule finishResult_persists_no_environment) simp

text \<open>
  The notification of a failed or successful sync and the event on the bus carry the result with
  its diff as it is: the environment values that are replaced in the store leave the process through
  both channels.
\<close>

theorem finishResult_sends_unredacted:
  assumes "rc_Notifier (dp_Receivers deps)" and "rc_Broadcaster (dp_Receivers deps)" and "st \<noteq> ResSkipped"
  shows "\<exists>y ne er be. fst (fst (finishResult env deps (res\<lparr>res_Diff := Some d\<rparr>) st msg w)) = Some y \<and> res_Diff y = Some d
     \<and> Notified ne er \<in> set (w_trace (snd (finishResult env deps (res\<lparr>res_Diff := Some d\<rparr>) st msg w))) \<and> ne_Data ne = DataSync y
     \<and> Broadcasted be \<in> set (w_trace (snd (finishResult env deps (res\<lparr>res_Diff := Some d\<rparr>) st msg w))) \<and> be_Data be = DataSync y"
  using assms by (simp add: finishResult_def Let_def notify_def broadcast_def) force

theorem finishResult_sends_unredacted_witness:
  "\<exists>y ne er. fst (fst (finishResult siteEnv (demoDeps siteEnv) ((newResult ''web'' 0 OpPoll [])\<lparr>res_Diff := Some demoEnvDiff\<rparr>)
       ResFailure None siteState)) = Some y
   \<and> Notified ne er \<in> set (w_trace (snd (finishResult siteEnv (demoDeps siteEnv) ((newResult ''web'' 0 OpPoll [])\<lparr>res_Diff := Some demoEnvDiff\<rparr>)
       ResFailure None siteState)))
   \<and> ne_Data ne = DataSync y
   \<and> (case res_Diff y of None \<Rightarrow> False | Some d \<Rightarrow> map (map fd_Desired \<circ> Fields) (ToUpdate d) = [[''s3cret'']])"
proof -
  obtain y ne er where r: "fst (fst (finishResult siteEnv (demoDeps siteEnv) ((newResult ''web'' 0 OpPoll [])\<lparr>res_Diff := Some demoEnvDiff\<rparr>)
       ResFailure None siteState)) = Some y" "res_Diff y = Some demoEnvDiff"
    "Notified ne er \<in> set (w_trace (snd (finishResult siteEnv (demoDeps siteEnv) ((newResult ''web'' 0 OpPoll [])\<lparr>res_Diff := Some demoEnvDiff\<rparr>)
       ResFailure None siteState)))" "ne_Data ne = DataSync y"
    using finishResult_sends_unredacted [where deps = "demoDeps siteEnv" and st = ResFailure and env = siteEnv
        and res = "newResult ''web'' 0 OpPoll []" and d = demoEnvDiff and msg = None and w = siteState]
    by (auto simp: demoDeps_def)
  moreover have "map (map fd_Desired \<circ> Fields) (ToUpdate demoEnvDiff) = [[''s3cret'']]" by (simp add: demoEnvDiff_def)
  ultimately show ?thesis by (intro exI conjI) (assumption | simp)+
qed

section \<open>The breaker after an unhealthy blue-green deployment\<close>

lemma getBreaker_more: "World.more w = World.more w' \<Longrightarrow> getBreaker n w = getBreaker n w'"
  using breakers_of_more [of w w'] by (simp add: getBreaker_def)

lemma getBreaker_setBreaker [simp]: "getBreaker n (setBreaker n cb w) = cb"
  by (simp add: getBreaker_def setBreaker_def)

text \<open>
  A deployment that went through is recorded as a success before the health of the active colour is
  known; when that health is bad the failure recorded after it is always the first one, so that the
  breaker stays closed however often this happens.
\<close>

lemma unhealthy_blue_green_keeps_breaker_closed:
  assumes "deployAll env deps n (deployRequest env a path (cs_Services spec) (hasImageChanges diff)
       (Prune (appPolicy a) \<and> length (ToRemove diff) > 0)) (cs_Services spec)
       (updateStatus env n (noUpdate\<lparr>su_HealthStatus := Some Progressing\<rparr>)
         (updateStatus env n (noUpdate\<lparr>su_SyncStatus := Some OutOfSync\<rparr>) w)) = (None, w1)"
    and "afterDeploy env (appDestination a) (hasBlueGreenStrategy (cs_Services spec)) ''deployment'' sha (breakerSuccess n w1) = (Inl f, w2)"
    and "1 < cb_maxFailures (getBreaker n w1)"
  shows "cb_state (getBreaker n (snd (deployDrift env deps n res a spec diff sha path w))) = CircuitClosed
    \<and> cb_failureCount (getBreaker n (snd (deployDrift env deps n res a spec diff sha path w))) = 1"
proof -
  obtain h m where f: "f = (h, m)" by force
  have "World.more (snd (deployDrift env deps n res a spec diff sha path w)) = World.more (breakerFailure env n w2)"
    by (simp only: deployDrift_def Let_def assms(1,2) f prod.case option.case sum.case finishResult_more record_more)
  then have "getBreaker n (snd (deployDrift env deps n res a spec diff sha path w)) = getBreaker n (breakerFailure env n w2)"
    by (rule getBreaker_more)
  moreover have "getBreaker n w2 = RecordSuccess (getBreaker n w1)"
    using getBreaker_more [OF afterDeploy_more [of env "appDestination a" "hasBlueGreenStrategy (cs_Services spec)" "''deployment''" sha "breakerSuccess n w1"]] assms(2)
    by (simp add: breakerSuccess_def)
  ultimately show ?thesis
    using assms(3) by (simp add: breakerFailure_def RecordFailure_def RecordSuccess_def Let_def)
qed

section \<open>Rollback\<close>

lemma GetSyncBySHA_db [simp]: "w_db (snd (GetSyncBySHA env n sha w)) = w_db w"
  "w_db (snd (GetApplication env n w)) = w_db w"
  by (simp_all add: GetSyncBySHA_def GetApplication_def exec_db)

lemma GetSyncBySHA_Some:
  assumes "GetSyncBySHA env n sha w = (Inr (Some r), w')"
  shows "\<exists>s\<in>set (db_syncs (w_db w)). sy_AppName s = n \<and> sy_CommitSHA s = sha"
proof -
  have "latestFirst sy_StartedAt (filter (\<lambda>r. sy_AppName r = n \<and> sy_CommitSHA r = sha) (db_syncs (w_db w))) \<noteq> []"
    using assms by (auto simp: GetSyncBySHA_def exec_def wrapErr_def split: option.splits list.splits)
  then obtain s where "s \<in> set (latestFirst sy_StartedAt (filter (\<lambda>r. sy_AppName r = n \<and> sy_CommitSHA r = sha) (db_syncs (w_db w))))"
    by (meson last_in_set)
  then show ?thesis by (auto simp: latestFirst_def)
qed

lemma GetSyncBySHA_finds:
  assumes "e_dbErr env (w_trace w) = None" and "s \<in> set (db_syncs (w_db w))" and "sy_AppName s = n" and "sy_CommitSHA s = sha"
  shows "\<exists>r. fst (GetSyncBySHA env n sha w) = Inr (Some r)"
proof -
  have "s \<in> set (latestFirst sy_StartedAt (filter (\<lambda>r. sy_AppName r = n \<and> sy_CommitSHA r = sha) (db_syncs (w_db w))))"
    using assms by (simp add: latestFirst_def)
  then show ?thesis
    using assms(1) by (auto simp: GetSyncBySHA_def wrapErr_def exec_def split: list.split)
qed

lemma Rollback_without_history:
  assumes "\<not> (\<exists>r\<in>set (db_syncs (w_db w)). sy_AppName r = n \<and> sy_CommitSHA r = sha)"
  shows "grows noCommand (w_trace w) (w_trace (snd (Rollback env deps n sha w)))"
proof -
  have db: "w_db w1 = w_db w" if "GetApplication env n w = (r, w1)" for r w1
    using GetSyncBySHA_db(2) [of env n w] that by simp
  have no: False if "GetApplication env n w = (q, w1)" and "GetSyncBySHA env n sha w1 = (Inr (Some r), w2)" for q w1 r w2
    using GetSyncBySHA_Some [OF that(2)] assms db [OF that(1)] by simp
  show ?thesis
    unfolding Rollback_def Let_def
    by (auto intro!: grows_bind quiet_store quiet_finishResult split: sum.split option.split) (use no in blast)+
qed

text \<open>
  A rollback runs a command only when the store held, before it, a sync record of that application
  with the target SHA; otherwise no project is touched.
\<close>

theorem Rollback_requires_history:
  assumes "commandsOf (w_trace (snd (Rollback env deps n sha w))) \<noteq> commandsOf (w_trace w)"
  shows "\<exists>r\<in>set (db_syncs (w_db w)). sy_AppName r = n \<and> sy_CommitSHA r = sha"
  using assms grows_noCommand [OF Rollback_without_history] by blast

text \<open>
  The history check does not survive a retry. A rollback of a known application to a SHA that was
  never deployed fails and runs nothing, but its own failure record carries that SHA, so that the same
  request sent again passes the check.
\<close>

theorem Rollback_unknown_sha_admitted:
  assumes "\<And>t. e_dbErr env t = None" and "\<And>t. e_uuid env t \<notin> sy_ID ` set (db_syncs (w_db w))"
    and "appIn w n = Some ar" and "unmarshalApp (e_codec env) (ar_Manifest ar) = Inr a"
    and "prepareApplication (e_net env) a = Inr b"
    and "\<not> (\<exists>r\<in>set (db_syncs (w_db w)). sy_AppName r = n \<and> sy_CommitSHA r = sha)"
  shows "snd (fst (Rollback env deps n sha w)) = Some (Errorf ''no sync history found for SHA %s'' [sha])
    \<and> (\<exists>r. fst (GetSyncBySHA env n sha (snd (Rollback env deps n sha w))) = Inr (Some r))"
proof -
  obtain w1 where g: "GetApplication env n w = (Inr (Some ar), w1)" and w1: "w_db w1 = w_db w"
    using assms(1,3) by (simp add: GetApplication_def wrapErr_def exec_def appIn_def)
  obtain w2 where h: "GetSyncBySHA env n sha w1 = (Inr None, w2)"
    using assms(1) GetSyncBySHA_Some [of env n sha w1] assms(6) w1
    by (auto simp: GetSyncBySHA_def wrapErr_def exec_def split: list.splits)
  have w2: "w_db w2 = w_db w" using GetSyncBySHA_db(1) [of env n sha w1] h w1 by simp
  define res where "res = newResult n (e_now env (w_trace w)) OpRollback sha"
  define msg where "msg = Some (Errorf ''no sync history found for SHA %s'' [sha])"
  have r: "Rollback env deps n sha w = finishResult env deps res ResFailure msg w2"
    by (simp add: Rollback_def Let_def g h assms(4,5) res_def msg_def)
  have "res_AppName res = n" and "res_CommitSHA res = sha" by (simp_all add: res_def newResult_def)
  then have "\<exists>s\<in>set (db_syncs (w_db (snd (finishResult env deps res ResFailure msg w2)))). sy_AppName s = n \<and> sy_CommitSHA s = sha"
    using finishResult_syncs [of env w2 res deps ResFailure msg] assms(1-3) w2 by (simp add: appIn_def syncRecordOf_def)
  then show ?thesis
    using GetSyncBySHA_finds assms(1) by (metis finishResult_fst msg_def r snd_conv)
qed

definition historyState :: RState where
  "historyState = siteState\<lparr>w_db := (w_db siteState)\<lparr>db_syncs := [\<lparr>sy_ID = ''s1'', sy_AppName = ''web'', sy_StartedAt = 0,
     sy_FinishedAt = Some 1, sy_CommitSHA = ''9c1d'', sy_Operation = OpPoll, sy_Result = ResSuccess, sy_DiffJSON = [],
     sy_ComposeSpecJSON = [], sy_Error = None, sy_DurationMs = 1, sy_CreatedAt = 1\<rparr>]\<rparr>\<rparr>"

lemma quiet_commands [simp]:
  "commandsOf (w_trace (snd (finishResult env deps res st m w))) = commandsOf (w_trace w)"
  "commandsOf (w_trace (updateStatus env n u w)) = commandsOf (w_trace w)"
  by (rule grows_noCommand, simp add: quiet_finishResult quiet_store)+

lemma site_history: "e_checkout siteEnv t u s = None" "db_syncs (w_db siteState) = []"
  by (simp_all add: siteEnv_def demoEnv_def siteState_def)

theorem Rollback_requires_history_witness:
  "commandsOf (w_trace (snd (Rollback siteEnv (demoDeps siteEnv) ''web'' ''9c1d'' historyState))) \<noteq> []
   \<and> (\<exists>r\<in>set (db_syncs (w_db historyState)). sy_AppName r = ''web'' \<and> sy_CommitSHA r = ''9c1d'')"
proof -
  have c: "commandsOf (w_trace (snd (Rollback siteEnv (demoDeps siteEnv) ''web'' ''9c1d'' historyState))) \<noteq> []"
    by (simp add: Rollback_def rollbackTo_def Let_def GetApplication_def GetSyncBySHA_def exec_def wrapErr_def site_parts
        site_history site_app(2-) site_services historyState_def siteState_def selectRow_def demoRecord_def latestFirst_def demoApplication_accepted
        gitSync_def gitCheckout_def parseFiles_def onTrace_def demoDeps_def ComposeDeployer_def Deploy_def deployRequest_def
        Pull_def run_def afterDeploy_def watchDeployed_def)
  moreover have "commandsOf (w_trace historyState) = []" by (simp add: historyState_def siteState_def)
  ultimately show ?thesis
    using Rollback_requires_history [of siteEnv "demoDeps siteEnv" "''web''" "''9c1d''" historyState] by simp
qed

theorem Rollback_unknown_sha_admitted_witness:
  "\<exists>r. fst (GetSyncBySHA siteEnv ''web'' ''dead'' (snd (Rollback siteEnv (demoDeps siteEnv) ''web'' ''dead'' siteState))) = Inr (Some r)"
  using Rollback_unknown_sha_admitted [of siteEnv siteState "''web''" demoRecord demoApplication "ApplyDefaults demoApplication" "''dead''" "demoDeps siteEnv"]
  by (simp add: site_parts site_app site_history demoApplication_accepted)

end
