(* ===== verification/Scheduler.thy ===== *)
theory Scheduler
  imports History
begin

text \<open>
  The schedule of the reconciler (\<^verbatim>\<open>reconciler/scheduler.go\<close>, and the worker, the triggers and the per-app
  locks of \<^verbatim>\<open>reconciler/worker.go\<close> and \<^verbatim>\<open>reconciler/reconciler.go\<close>).

  The two channels are lists with a capacity. A mutex is a number; the locks of the applications are a
  map from names to mutexes, and a mutex is held by the running job that took it. A Go map is iterated
  in any order, so \<open>enqueueDueApps\<close> takes the enumeration of the schedule as an argument. It also takes
  the clock readings: the one at its start and the one at each retry.
\<close>

section \<open>State\<close>

record Job =
  j_app :: string
  j_lock :: nat
  j_forced :: bool

record SState = RState +
  s_schedule :: "time gomap"
  s_queued :: "bool gomap"
  s_workQueue :: "string list"
  s_trigger :: "string list"
  s_pollOverride :: duration
  s_appLocks :: "nat gomap"
  s_nextLock :: nat
  s_running :: "Job list"

record SchedDeps =
  sd_deps :: Deps
  sd_WorkerCount :: int
  sd_DefaultPollInterval :: duration
  sd_ConfigDir :: string
  sd_ManifestRepoURL :: string
  sd_ManifestRepoPath :: string
  sd_ManifestRevision :: string

text \<open>The pool size and the capacity of the work queue set by \<^verbatim>\<open>New\<close>; the trigger channel holds 16 names.\<close>

definition workerCount :: "SchedDeps \<Rightarrow> nat" where
  "workerCount cfg = (if sd_WorkerCount cfg \<le> 0 then 4 else nat (sd_WorkerCount cfg))"

definition queueCap :: "SchedDeps \<Rightarrow> nat" where
  "queueCap cfg = workerCount cfg * 2"

definition triggerCap :: nat where
  "triggerCap = 16"

definition queueRetryInterval :: duration where
  "queueRetryInterval = Second"

definition isQueued :: "'s SState_scheme \<Rightarrow> string \<Rightarrow> bool" where
  "isQueued s name = (map_of (s_queued s) name = Some True)"

section \<open>Operations\<close>

definition nextWakeTime :: "'s SState_scheme \<Rightarrow> time option" where
  "nextWakeTime s = fold (\<lambda>(name, t) earliest.
      if isQueued s name then earliest
      else case earliest of None \<Rightarrow> Some t | Some e \<Rightarrow> Some (if t < e then t else e)) (s_schedule s) None"

definition wakeDelay :: "time \<Rightarrow> 's SState_scheme \<Rightarrow> duration" where
  "wakeDelay now s = (case nextWakeTime s of None \<Rightarrow> 10 * Second | Some t \<Rightarrow> if t - now < 0 then 0 else t - now)"

definition enqueue :: "nat \<Rightarrow> string \<Rightarrow> 's SState_scheme \<Rightarrow> bool \<times> 's SState_scheme" where
  "enqueue cap appName s =
     (if length (s_workQueue s) < cap then (True, s\<lparr>s_workQueue := s_workQueue s @ [appName]\<rparr>) else (False, s))"

definition isDue :: "time \<Rightarrow> 's SState_scheme \<Rightarrow> string \<Rightarrow> bool" where
  "isDue now s name = ((case map_of (s_schedule s) name of None \<Rightarrow> False | Some t \<Rightarrow> t \<le> now) \<and> \<not> isQueued s name)"

definition markQueued :: "string list \<Rightarrow> 's SState_scheme \<Rightarrow> 's SState_scheme" where
  "markQueued due s = fold (\<lambda>name s. s\<lparr>s_queued := AList.update name True (s_queued s)\<rparr>) due s"

definition enqueueOrRetry :: "nat \<Rightarrow> (string \<Rightarrow> time) \<Rightarrow> string \<Rightarrow> 's SState_scheme \<Rightarrow> 's SState_scheme" where
  "enqueueOrRetry cap clock name s =
     (case enqueue cap name s of
        (True, s) \<Rightarrow> s
      | (False, s) \<Rightarrow> s\<lparr>s_queued := AList.update name False (s_queued s),
                       s_schedule := AList.update name (clock name + queueRetryInterval) (s_schedule s)\<rparr>)"

definition enqueueDueApps :: "nat \<Rightarrow> time \<Rightarrow> (string \<Rightarrow> time) \<Rightarrow> string list \<Rightarrow> 's SState_scheme \<Rightarrow> 's SState_scheme" where
  "enqueueDueApps cap now clock names s =
     (let due = filter (isDue now s) names
      in fold (enqueueOrRetry cap clock) due (markQueued due s))"

definition AddApp :: "time \<Rightarrow> string \<Rightarrow> 's SState_scheme \<Rightarrow> 's SState_scheme" where
  "AddApp now appName s = s\<lparr>s_schedule := AList.update appName now (s_schedule s)\<rparr>"

definition RemoveApp :: "string \<Rightarrow> 's SState_scheme \<Rightarrow> 's SState_scheme" where
  "RemoveApp appName s = s\<lparr>s_schedule := AList.delete appName (s_schedule s), s_queued := AList.delete appName (s_queued s),
     s_appLocks := AList.delete appName (s_appLocks s), r_breakers := AList.delete appName (r_breakers s)\<rparr>"

definition TriggerReconcile :: "string \<Rightarrow> 's SState_scheme \<Rightarrow> 's SState_scheme" where
  "TriggerReconcile appName s =
     (if length (s_trigger s) < triggerCap then s\<lparr>s_trigger := s_trigger s @ [appName]\<rparr> else s)"

definition SetPollOverride :: "duration \<Rightarrow> 's SState_scheme \<Rightarrow> 's SState_scheme" where
  "SetPollOverride d s = s\<lparr>s_pollOverride := d\<rparr>"

definition getAppPollInterval :: "Env \<Rightarrow> SchedDeps \<Rightarrow> string \<Rightarrow> 's SState_scheme \<Rightarrow> duration \<times> 's SState_scheme" where
  "getAppPollInterval env cfg appName s =
     (let defaultInterval = (if sd_DefaultPollInterval cfg \<le> 0 then 3 * Minute else sd_DefaultPollInterval cfg)
      in if s_pollOverride s > 0 then (s_pollOverride s, s)
         else case GetApplication env appName s of
                (Inr (Some appRec), s) \<Rightarrow>
                  (case unmarshalApp (e_codec env) (ar_Manifest appRec) of
                     Inl e \<Rightarrow> (defaultInterval, s)
                   | Inr application \<Rightarrow>
                       (if PollInterval (appPolicy application) > 0 then PollInterval (appPolicy application) else defaultInterval, s))
              | (_, s) \<Rightarrow> (defaultInterval, s))"

definition reschedule :: "Env \<Rightarrow> SchedDeps \<Rightarrow> string \<Rightarrow> 's SState_scheme \<Rightarrow> 's SState_scheme" where
  "reschedule env cfg appName s =
     (case getAppPollInterval env cfg appName s of
        (interval, s) \<Rightarrow> s\<lparr>s_schedule := AList.update appName (e_now env (w_trace s) + interval) (s_schedule s),
                          s_queued := AList.delete appName (s_queued s)\<rparr>)"

definition getAppLock :: "string \<Rightarrow> 's SState_scheme \<Rightarrow> nat \<times> 's SState_scheme" where
  "getAppLock appName s =
     (case map_of (s_appLocks s) appName of
        Some m \<Rightarrow> (m, s)
      | None \<Rightarrow> (s_nextLock s, s\<lparr>s_appLocks := AList.update appName (s_nextLock s) (s_appLocks s), s_nextLock := Suc (s_nextLock s)\<rparr>))"

definition held :: "'s SState_scheme \<Rightarrow> nat \<Rightarrow> bool" where
  "held s m = (m \<in> j_lock ` set (s_running s))"

text \<open>\<^verbatim>\<open>worker\<close> up to the start of the reconciliation, and from its return to the next iteration.\<close>

definition workerTake :: "string \<Rightarrow> 's SState_scheme \<Rightarrow> 's SState_scheme" where
  "workerTake appName s =
     (case getAppLock appName s of
        (m, s) \<Rightarrow> if held s m then s
                 else s\<lparr>s_running := s_running s @ [\<lparr>j_app = appName, j_lock = m, j_forced = False\<rparr>]\<rparr>)"

definition workerDone :: "Env \<Rightarrow> SchedDeps \<Rightarrow> Job \<Rightarrow> 's SState_scheme \<Rightarrow> 's SState_scheme" where
  "workerDone env cfg j s =
     (let s = snd (reconcileApp env (sd_deps cfg) (j_app j) False s)
      in reschedule env cfg (j_app j) (s\<lparr>s_running := remove1 j (s_running s)\<rparr>))"

text \<open>\<^verbatim>\<open>ReconcileNow\<close> waits for the lock, runs and releases it; \<^verbatim>\<open>Rollback\<close> does the same around its body.\<close>

definition lockedStart :: "string \<Rightarrow> 's SState_scheme \<Rightarrow> 's SState_scheme option" where
  "lockedStart appName s =
     (case getAppLock appName s of
        (m, s) \<Rightarrow> if held s m then None
                 else Some (s\<lparr>s_running := s_running s @ [\<lparr>j_app = appName, j_lock = m, j_forced = True\<rparr>]\<rparr>))"

definition ReconcileNowDone :: "Env \<Rightarrow> SchedDeps \<Rightarrow> Job \<Rightarrow> 's SState_scheme \<Rightarrow> 's SState_scheme" where
  "ReconcileNowDone env cfg j s =
     (let s = snd (reconcileApp env (sd_deps cfg) (j_app j) True s) in s\<lparr>s_running := remove1 j (s_running s)\<rparr>)"

definition RollbackDone :: "Env \<Rightarrow> SchedDeps \<Rightarrow> string \<Rightarrow> Job \<Rightarrow> 's SState_scheme \<Rightarrow> 's SState_scheme" where
  "RollbackDone env cfg sha j s =
     (let s = snd (Rollback env (sd_deps cfg) (j_app j) sha s) in s\<lparr>s_running := remove1 j (s_running s)\<rparr>)"

definition startSchedule :: "Env \<Rightarrow> 's SState_scheme \<Rightarrow> unit result \<times> 's SState_scheme" where
  "startSchedule env s =
     (case ListApplications env s of
        (Inl e, s) \<Rightarrow> (Inl (Wrapf ''loading applications: %w'' [] e), s)
      | (Inr apps, s) \<Rightarrow> (Inr (), fold (\<lambda>a s. AddApp (e_now env (w_trace s)) (ar_Name a) s) apps s))"

definition retentionTick :: "Env \<Rightarrow> 's SState_scheme \<Rightarrow> 's SState_scheme" where
  "retentionTick env s = snd (PruneSyncHistory env 100 (snd (PruneOldEvents env (30 * 24 * 60 * Minute) s)))"

section \<open>The next wake time\<close>

definition unqueuedTimes :: "'s SState_scheme \<Rightarrow> time list" where
  "unqueuedTimes s = map snd (filter (\<lambda>(name, t). \<not> isQueued s name) (s_schedule s))"

lemma Min_insert_min:
  "finite S \<Longrightarrow> Min (insert (if b < a then b else a) S) = Min (insert a (insert (b :: time) S))"
  by (cases "S = {}") (auto simp: min_def)

lemma fold_earliest:
  "fold (\<lambda>(name, t) earliest. if q name then earliest
      else case earliest of None \<Rightarrow> Some t | Some e \<Rightarrow> Some (if t < e then t else e)) xs (Some (e0 :: time))
   = Some (Min (insert e0 (set (map snd (filter (\<lambda>(name, t). \<not> q name) xs)))))"
proof (induction xs arbitrary: e0)
  case (Cons x xs)
  have "finite (set (map snd (filter (\<lambda>(name, t). \<not> q name) xs)))" by simp
  from Min_insert_min [OF this] show ?case by (cases x) (simp add: Cons)
qed simp

lemma nextWakeTime_eq:
  "nextWakeTime s = (if unqueuedTimes s = [] then None else Some (Min (set (unqueuedTimes s))))"
proof -
  have "fold (\<lambda>(name, t) earliest. if q name then earliest
      else case earliest of None \<Rightarrow> Some t | Some e \<Rightarrow> Some (if t < e then t else e)) xs None
   = (let ts = map snd (filter (\<lambda>(name, t). \<not> q name) xs) in if ts = [] then None else Some (Min (set ts)))"
    for q and xs :: "(string \<times> time) list"
  proof (induction xs)
    case (Cons x xs)
    then show ?case by (cases x) (simp add: fold_earliest)
  qed simp
  then show ?thesis unfolding nextWakeTime_def unqueuedTimes_def by (simp add: Let_def)
qed

section \<open>Enqueueing due applications\<close>

lemma markQueued_simps [simp]:
  "s_workQueue (markQueued due s) = s_workQueue s" "s_schedule (markQueued due s) = s_schedule s"
  "map_of (s_queued (markQueued due s)) n = (if n \<in> set due then Some True else map_of (s_queued s) n)"
  unfolding markQueued_def by (induction due arbitrary: s) auto

lemma fold_enqueueOrRetry:
  assumes "distinct due"
  shows "s_workQueue (fold (enqueueOrRetry cap clock) due s) = s_workQueue s @ take (cap - length (s_workQueue s)) due"
    and "map_of (s_queued (fold (enqueueOrRetry cap clock) due s)) n
       = (if n \<in> set (drop (cap - length (s_workQueue s)) due) then Some False else map_of (s_queued s) n)"
    and "map_of (s_schedule (fold (enqueueOrRetry cap clock) due s)) n
       = (if n \<in> set (drop (cap - length (s_workQueue s)) due) then Some (clock n + queueRetryInterval) else map_of (s_schedule s) n)"
    and "wf_map (s_schedule s) \<Longrightarrow> wf_map (s_schedule (fold (enqueueOrRetry cap clock) due s))"
  using assms
  by (induction due arbitrary: s)
    (auto simp: enqueueOrRetry_def enqueue_def take_Cons' drop_Cons' Suc_diff_Suc split: if_splits dest: in_set_dropD)

text \<open>
  C33: One pass over the schedule appends to the work queue the applications that are due and not
  queued, in the order of the pass, as many as fit; marks them queued and leaves their time; sends the
  others to a retry one second later, not queued; and touches no application that is not due. The
  queue stays within its capacity, and the next wake time lies in the future: the scheduler does not
  spin.
\<close>

theorem enqueueDueApps_serves_due:
  assumes "distinct names" and "set names = fst ` set (s_schedule s)" and "wf_map (s_schedule s)"
    and "length (s_workQueue s) \<le> cap" and "\<And>n. now \<le> clock n"
  defines "s' \<equiv> enqueueDueApps cap now clock names s" and "fits \<equiv> cap - length (s_workQueue s)"
    and "due \<equiv> filter (isDue now s) names"
  shows "s_workQueue s' = s_workQueue s @ take fits due \<and> length (s_workQueue s') \<le> cap
    \<and> (\<forall>n \<in> set (take fits due). isQueued s' n \<and> map_of (s_schedule s') n = map_of (s_schedule s) n)
    \<and> (\<forall>n \<in> set (drop fits due). \<not> isQueued s' n \<and> map_of (s_schedule s') n = Some (clock n + Second))
    \<and> (\<forall>n. \<not> isDue now s n \<longrightarrow> isQueued s' n = isQueued s n \<and> map_of (s_schedule s') n = map_of (s_schedule s) n)
    \<and> (\<forall>t. nextWakeTime s' = Some t \<longrightarrow> now < t)"
proof -
  have d: "distinct due" using assms(1) by (simp add: due_def)
  note f = fold_enqueueOrRetry [OF d, where cap = cap and clock = clock and s = "markQueued due s"]
  have s': "s' = fold (enqueueOrRetry cap clock) due (markQueued due s)"
    by (simp add: s'_def enqueueDueApps_def due_def Let_def)
  have q: "s_workQueue s' = s_workQueue s @ take fits due" using f(1) by (simp add: s' fits_def)
  have qd: "map_of (s_queued s') n = (if n \<in> set (drop fits due) then Some False else if n \<in> set due then Some True else map_of (s_queued s) n)" for n
    using f(2) [of n] by (simp add: s' fits_def)
  have sc: "map_of (s_schedule s') n = (if n \<in> set (drop fits due) then Some (clock n + Second) else map_of (s_schedule s) n)" for n
    using f(3) [of n] by (simp add: s' fits_def queueRetryInterval_def)
  have dj: "n \<in> set (take fits due) \<Longrightarrow> n \<notin> set (drop fits due)" for n
    using d by (metis append_take_drop_id disjoint_iff distinct_append)
  have du: "n \<in> set due \<Longrightarrow> isDue now s n" and ud: "isDue now s n \<Longrightarrow> n \<in> set due" for n
    using assms(2) by (auto simp: due_def isDue_def rev_image_eqI dest!: map_of_SomeD split: option.splits)
  have w: "now < t" if "nextWakeTime s' = Some t" for t
  proof -
    have "t \<in> set (unqueuedTimes s')" using that by (auto simp: nextWakeTime_eq split: if_splits intro!: Min_in)
    moreover have "wf_map (s_schedule s')" using f(4) assms(3) by (simp add: s')
    ultimately obtain n where n: "\<not> isQueued s' n" "map_of (s_schedule s') n = Some t"
      by (auto simp: unqueuedTimes_def)
    show ?thesis
    proof (cases "n \<in> set (drop fits due)")
      case True
      then show ?thesis using n(2) sc assms(5) [of n] by simp
    next
      case False
      then have "n \<notin> set due" using n(1) qd by (auto simp: isQueued_def)
      then show ?thesis using n False ud [of n] sc [of n] qd [of n] by (force simp: isDue_def isQueued_def)
    qed
  qed
  show ?thesis
    using q assms(4) dj w du by (auto simp: isQueued_def qd sc fits_def dest: in_set_takeD in_set_dropD ud)
qed

definition demoSched :: "(string \<times> time) list \<Rightarrow> SState" where
  "demoSched sched = \<lparr>w_trace = [], w_db = w_db siteState, m_watched = [], m_sweepRunning = False, r_breakers = [],
     s_schedule = sched, s_queued = [], s_workQueue = [], s_trigger = [], s_pollOverride = 0, s_appLocks = [], s_nextLock = 0,
     s_running = []\<rparr>"

theorem enqueueDueApps_serves_due_witness:
  "s_workQueue (enqueueDueApps 2 10 (\<lambda>n. 10) [''c'', ''a'', ''d'', ''b''] (demoSched [(''a'', 1), (''b'', 2), (''c'', 3), (''d'', 90)]))
     = [''c'', ''a'']
   \<and> map_of (s_schedule (enqueueDueApps 2 10 (\<lambda>n. 10) [''c'', ''a'', ''d'', ''b''] (demoSched [(''a'', 1), (''b'', 2), (''c'', 3), (''d'', 90)]))) ''b''
     = Some (10 + Second)"
  using enqueueDueApps_serves_due [where names = "[''c'', ''a'', ''d'', ''b'']" and s = "demoSched [(''a'', 1), (''b'', 2), (''c'', 3), (''d'', 90)]"
      and cap = 2 and now = 10 and clock = "\<lambda>n. 10"]
  by (auto simp: demoSched_def isDue_def isQueued_def)

end
