(* ===== verification/ConfigSync.thy ===== *)
theory ConfigSync
  imports Scheduler
begin

text \<open>
  Registration and removal of applications from manifest files (\<^verbatim>\<open>reconciler/configsync.go\<close>). The file
  system and the YAML decoder are parameters; a directory that cannot be read is an error value. The
  iteration orders over the two Go maps are arguments of \<open>syncConfigManifests\<close>.
\<close>

section \<open>Scanning\<close>

record DirEntry =
  de_Name :: string
  de_IsDir :: bool

record Files =
  fs_ReadDir :: "trace \<Rightarrow> string \<Rightarrow> DirEntry list result"
  fs_ReadFile :: "trace \<Rightarrow> string \<Rightarrow> string result"
  fs_yaml :: "string \<Rightarrow> Application result"

definition manifestRepoPath :: "SchedDeps \<Rightarrow> string" where
  "manifestRepoPath cfg = (if sd_ManifestRepoPath cfg \<noteq> [] then sd_ManifestRepoPath cfg else ''applications'')"

definition manifestRevision :: "SchedDeps \<Rightarrow> string" where
  "manifestRevision cfg = (if sd_ManifestRevision cfg \<noteq> [] then sd_ManifestRevision cfg else ''main'')"

text \<open>\<^verbatim>\<open>filepath.Ext\<close> of a file name (no separator in it): from its last dot.\<close>

definition filepath_Ext :: "string \<Rightarrow> string" where
  "filepath_Ext name = (if CHR ''.'' \<in> set name then CHR ''.'' # rev (takeWhile (\<lambda>c. c \<noteq> CHR ''.'') (rev name)) else [])"

definition readManifest :: "Env \<Rightarrow> Files \<Rightarrow> trace \<Rightarrow> string \<Rightarrow> DirEntry \<Rightarrow> Application option" where
  "readManifest env fs t dir entry =
     (if de_IsDir entry then None
      else if filepath_Ext (de_Name entry) \<noteq> ''.yaml'' \<and> filepath_Ext (de_Name entry) \<noteq> ''.yml'' then None
      else case fs_ReadFile fs t (filepath_Join dir (de_Name entry)) of
             Inl e \<Rightarrow> None
           | Inr data \<Rightarrow>
               (case fs_yaml fs data of
                  Inl e \<Rightarrow> None
                | Inr application \<Rightarrow>
                    (if Kind application \<noteq> ''Application'' \<or> meta_Name (Metadata application) = [] then None
                     else case Validate (e_net env) (ApplyDefaults application) of
                            Some e \<Rightarrow> None | None \<Rightarrow> Some (ApplyDefaults application))))"

definition scanManifestDir :: "Env \<Rightarrow> Files \<Rightarrow> trace \<Rightarrow> string \<Rightarrow> Application gomap \<Rightarrow> Application gomap" where
  "scanManifestDir env fs t dir dst =
     (case fs_ReadDir fs t dir of
        Inl e \<Rightarrow> dst
      | Inr entries \<Rightarrow> fold (\<lambda>entry dst. case readManifest env fs t dir entry of
            None \<Rightarrow> dst | Some application \<Rightarrow> AList.update (meta_Name (Metadata application)) application dst) entries dst)"

definition syncManifestRepo :: "Env \<Rightarrow> SchedDeps \<Rightarrow> Files \<Rightarrow> Application gomap \<Rightarrow> 's SState_scheme \<Rightarrow> Application gomap \<times> 's SState_scheme" where
  "syncManifestRepo env cfg fs dst s =
     (case gitSync env \<lparr>RepoURL = sd_ManifestRepoURL cfg, TargetRevision = manifestRevision cfg, Path = [], ComposeFiles = []\<rparr> s of
        (Inl e, s) \<Rightarrow> (dst, s)
      | (Inr head, s) \<Rightarrow>
          (let repoPath = e_repoPath env (w_trace s) (sd_ManifestRepoURL cfg)
           in if repoPath = [] then (dst, s)
              else (scanManifestDir env fs (w_trace s) (filepath_Join repoPath (manifestRepoPath cfg)) dst, s)))"

text \<open>Source 2: the \<^verbatim>\<open>applications\<close> folder of every repository of a registered application, each once.\<close>

fun scanAppRepos :: "Env \<Rightarrow> Files \<Rightarrow> trace \<Rightarrow> string list \<Rightarrow> ApplicationRecord list \<Rightarrow> Application gomap \<Rightarrow> Application gomap" where
  "scanAppRepos env fs t seenRepos [] dst = dst"
| "scanAppRepos env fs t seenRepos (a # apps) dst =
     (case unmarshalApp (e_codec env) (ar_Manifest a) of
        Inl e \<Rightarrow> scanAppRepos env fs t seenRepos apps dst
      | Inr application \<Rightarrow>
          (let repoURL = RepoURL (appSource application)
           in if repoURL = [] \<or> repoURL \<in> set seenRepos then scanAppRepos env fs t seenRepos apps dst
              else let repoPath = e_repoPath env t repoURL
                   in scanAppRepos env fs t (repoURL # seenRepos) apps
                        (if repoPath = [] then dst else scanManifestDir env fs t (filepath_Join repoPath ''applications'') dst)))"

definition manifestSources :: "Env \<Rightarrow> SchedDeps \<Rightarrow> Files \<Rightarrow> 's SState_scheme
    \<Rightarrow> (Application gomap \<times> ApplicationRecord list) result \<times> 's SState_scheme" where
  "manifestSources env cfg fs s =
     (case (if sd_ManifestRepoURL cfg \<noteq> [] then syncManifestRepo env cfg fs [] s else ([], s)) of
        (disk, s) \<Rightarrow>
          (let disk = (if sd_ConfigDir cfg \<noteq> [] then scanManifestDir env fs (w_trace s) (sd_ConfigDir cfg) disk else disk)
           in case ListApplications env s of
                (Inl e, s) \<Rightarrow> (Inl e, s)
              | (Inr apps, s) \<Rightarrow> (Inr (scanAppRepos env fs (w_trace s) [] apps disk, apps), s)))"

section \<open>Registration and removal\<close>

definition registerApp :: "Env \<Rightarrow> Application gomap \<Rightarrow> ApplicationRecord gomap \<Rightarrow> string \<Rightarrow> 's SState_scheme \<Rightarrow> 's SState_scheme" where
  "registerApp env diskApps storeApps name s =
     (case map_of diskApps name of
        None \<Rightarrow> s
      | Some application \<Rightarrow>
          (let manifestJSON = marshalApp (e_codec env) application
           in case map_of storeApps name of
                None \<Rightarrow>
                  (case CreateApplication env
                          \<lparr>ar_ID = [], ar_Name = name, ar_Manifest = manifestJSON, ar_Source = ''manifest'',
                           ar_SyncStatus = SyncStatusUnknown, ar_HealthStatus = HealthUnknown, ar_LastSyncedSHA = [], ar_HeadSHA = [],
                           ar_LastSyncTime = None, ar_LastObservationTime = None, ar_LastObservedHealthStatus = None,
                           ar_LastError = None, ar_ServicesJSON = [], ar_ConditionsJSON = [], ar_CreatedAt = 0, ar_UpdatedAt = 0\<rparr> s of
                     (Inl e, s) \<Rightarrow> s
                   | (Inr u, s) \<Rightarrow> AddApp (e_now env (w_trace s)) name s)
              | Some existing \<Rightarrow>
                  (if ar_Source existing = ''manifest'' \<and> ar_Manifest existing \<noteq> manifestJSON
                   then case UpdateManifest env name manifestJSON s of
                          (Inl e, s) \<Rightarrow> s
                        | (Inr u, s) \<Rightarrow> AddApp (e_now env (w_trace s)) name s
                   else s)))"

definition teardownRequest :: "Env \<Rightarrow> Application \<Rightarrow> DeployRequest" where
  "teardownRequest env application =
     \<lparr>dr_ProjectName = ProjectName (appDestination application), dr_ComposeFiles = [], dr_WorkDir = [], dr_Pull = False,
      dr_Prune = False, dr_DockerHost = DockerHost (appDestination application), dr_PreSyncServices = [],
      dr_PostSyncServices = [], dr_HealthTimeout = 0,
      dr_TLSCertPath = (case e_tls env of
         Some f \<Rightarrow> if DockerHost (appDestination application) \<noteq> [] then f (DockerHost (appDestination application)) else []
       | None \<Rightarrow> [])\<rparr>"

definition tearDownApp :: "Env \<Rightarrow> SchedDeps \<Rightarrow> Application \<Rightarrow> 's SState_scheme \<Rightarrow> 's SState_scheme" where
  "tearDownApp env cfg application s =
     snd (onTrace (d_Down (dp_Deployer (sd_deps cfg)) (teardownRequest env application)) s)"

definition removeApp :: "Env \<Rightarrow> SchedDeps \<Rightarrow> Application gomap \<Rightarrow> ApplicationRecord gomap \<Rightarrow> string \<Rightarrow> 's SState_scheme \<Rightarrow> 's SState_scheme" where
  "removeApp env cfg diskApps storeApps name s =
     (case map_of storeApps name of
        None \<Rightarrow> s
      | Some rec \<Rightarrow>
          (if ar_Source rec \<noteq> ''manifest'' then s
           else if map_of diskApps name \<noteq> None then s
           else let s = (case unmarshalApp (e_codec env) (ar_Manifest rec) of
                           Inl e \<Rightarrow> s
                         | Inr application \<Rightarrow> tearDownApp env cfg application s)
                in case DeleteApplication env name s of
                     (Inl e, s) \<Rightarrow> s
                   | (Inr u, s) \<Rightarrow> RemoveApp name s))"

text \<open>\<open>diskOrder\<close> and \<open>storeOrder\<close> enumerate the keys of the two maps in the order Go iterates them.\<close>

definition syncConfigManifests :: "Env \<Rightarrow> SchedDeps \<Rightarrow> Files \<Rightarrow> (string list \<Rightarrow> string list) \<Rightarrow> (string list \<Rightarrow> string list)
    \<Rightarrow> 's SState_scheme \<Rightarrow> 's SState_scheme" where
  "syncConfigManifests env cfg fs diskOrder storeOrder s =
     (case manifestSources env cfg fs s of
        (Inl e, s) \<Rightarrow> s
      | (Inr (diskApps, apps), s) \<Rightarrow>
          (let storeApps = index_by ar_Name apps;
               s = fold (registerApp env diskApps storeApps) (diskOrder (map fst diskApps)) s
           in fold (removeApp env cfg diskApps storeApps) (storeOrder (map fst storeApps)) s))"

section \<open>Steps that own a key\<close>

text \<open>
  Both loops iterate over a map in an unknown order. What makes their result independent of it: a step
  changes the view of its own key only, in a way given by what the key held before.
\<close>

locale keyed_fold =
  fixes get :: "'s \<Rightarrow> string \<Rightarrow> 'v" and step :: "string \<Rightarrow> 's \<Rightarrow> 's" and inv :: "'s \<Rightarrow> bool"
    and before :: "string \<Rightarrow> 'v" and after :: "string \<Rightarrow> 'v"
  assumes step_inv: "inv s \<Longrightarrow> inv (step n s)"
    and step_other: "inv s \<Longrightarrow> m \<noteq> n \<Longrightarrow> get (step n s) m = get s m"
    and step_same: "inv s \<Longrightarrow> get s n = before n \<Longrightarrow> get (step n s) n = after n"
begin

lemma fold_inv: "inv s \<Longrightarrow> inv (fold step ns s)"
  by (induction ns arbitrary: s) (auto intro: step_inv)

lemma fold_get:
  assumes "inv s" and "distinct ns" and "\<And>n. n \<in> set ns \<Longrightarrow> get s n = before n"
  shows "get (fold step ns s) m = (if m \<in> set ns then after m else get s m)"
  using assms
proof (induction ns arbitrary: s)
  case (Cons n ns)
  have "get (step n s) k = before k" if "k \<in> set ns" for k
    using Cons.prems that step_other [of s k n] by auto
  from Cons.IH [OF step_inv [OF Cons.prems(1)] _ this] Cons.prems show ?case
    by (auto simp: step_other step_same)
qed simp

end

section \<open>The two loops\<close>

text \<open>What the loops are about: the manifest and the source of a registered application, and whether it is scheduled.\<close>

definition appView :: "'s SState_scheme \<Rightarrow> string \<Rightarrow> (string \<times> string) option \<times> bool" where
  "appView s n = (map_option (\<lambda>r. (ar_Manifest r, ar_Source r)) (appIn s n), map_of (s_schedule s) n \<noteq> None)"

definition storeView :: "ApplicationRecord gomap \<Rightarrow> (string \<Rightarrow> bool) \<Rightarrow> string \<Rightarrow> (string \<times> string) option \<times> bool" where
  "storeView store sched n = (map_option (\<lambda>r. (ar_Manifest r, ar_Source r)) (map_of store n), sched n)"

definition registeredView :: "Env \<Rightarrow> Application gomap \<Rightarrow> ApplicationRecord gomap \<Rightarrow> (string \<Rightarrow> bool) \<Rightarrow> string \<Rightarrow> (string \<times> string) option \<times> bool" where
  "registeredView env disk store sched n =
     (case map_of disk n of
        None \<Rightarrow> storeView store sched n
      | Some a \<Rightarrow> (case map_of store n of
            None \<Rightarrow> (Some (marshalApp (e_codec env) a, ''manifest''), True)
          | Some r \<Rightarrow> if ar_Source r = ''manifest'' \<and> ar_Manifest r \<noteq> marshalApp (e_codec env) a
                      then (Some (marshalApp (e_codec env) a, ''manifest''), True) else storeView store sched n))"

definition removedView :: "Env \<Rightarrow> Application gomap \<Rightarrow> ApplicationRecord gomap \<Rightarrow> (string \<Rightarrow> bool) \<Rightarrow> string \<Rightarrow> (string \<times> string) option \<times> bool" where
  "removedView env disk store sched n =
     (case map_of store n of
        Some r \<Rightarrow> if ar_Source r = ''manifest'' \<and> map_of disk n = None then (None, False) else registeredView env disk store sched n
      | None \<Rightarrow> registeredView env disk store sched n)"

text \<open>
  The database answers, and an identifier drawn at a later point of the trace differs from every
  identifier drawn before.
\<close>

definition dbUp :: "Env \<Rightarrow> bool" where
  "dbUp env \<longleftrightarrow> (\<forall>t. e_dbErr env t = None)"

definition freshIDs :: "Env \<Rightarrow> 'w World_scheme \<Rightarrow> bool" where
  "freshIDs env w \<longleftrightarrow> (\<forall>t t'. e_uuid env t = e_uuid env t' \<longrightarrow> length t = length t')
     \<and> (\<forall>t. length (w_trace w) \<le> length t \<longrightarrow> e_uuid env t \<notin> ar_ID ` set (db_apps (w_db w)))"

lemma dbUp_err [simp]: "dbUp env \<Longrightarrow> e_dbErr env t = None"
  by (simp add: dbUp_def)

lemma freshIDs_unused: "freshIDs env w \<Longrightarrow> e_uuid env (w_trace w) \<notin> ar_ID ` set (db_apps (w_db w))"
  unfolding freshIDs_def by blast

lemma freshIDs_step:
  assumes "freshIDs env w" and "length (w_trace w) < length (w_trace w')"
    and "ar_ID ` set (db_apps (w_db w')) \<subseteq> insert (e_uuid env (w_trace w)) (ar_ID ` set (db_apps (w_db w)))"
  shows "freshIDs env w'"
  unfolding freshIDs_def
proof (intro conjI allI impI)
  fix t t' :: trace
  have inj: "e_uuid env u = e_uuid env u' \<Longrightarrow> length u = length u'" for u u'
    using assms(1) unfolding freshIDs_def by blast
  then show "e_uuid env t = e_uuid env t' \<Longrightarrow> length t = length t'" .
  assume l: "length (w_trace w') \<le> length t"
  have "e_uuid env t \<noteq> e_uuid env (w_trace w)" using inj [of t "w_trace w"] assms(2) l by auto
  moreover have "e_uuid env t \<notin> ar_ID ` set (db_apps (w_db w))"
    using assms(1,2) l unfolding freshIDs_def by (meson le_trans less_imp_le)
  ultimately show "e_uuid env t \<notin> ar_ID ` set (db_apps (w_db w'))" using assms(3) by blast
qed

lemma schedule_of_more: "World.more w = World.more w' \<Longrightarrow> s_schedule w = s_schedule w'"
  by (cases w, cases w') simp

text \<open>The statements the loops issue, with a database that answers.\<close>

lemma statements_more [simp, frame]:
  "World.more (snd (CreateApplication env rec s)) = World.more s" "World.more (snd (UpdateManifest env n man s)) = World.more s"
  "World.more (snd (DeleteApplication env n s)) = World.more s"
  by (simp_all add: CreateApplication_def UpdateManifest_def DeleteApplication_def Let_def snd_case_result)

lemma statements_schedule [simp]:
  "s_schedule (snd (CreateApplication env rec s)) = s_schedule s" "s_schedule (snd (UpdateManifest env n man s)) = s_schedule s"
  "s_schedule (snd (DeleteApplication env n s)) = s_schedule s" "s_schedule (snd (onTrace f s)) = s_schedule s"
  by (rule schedule_of_more, rule statements_more record_more)+

lemma create_apps:
  assumes "dbUp env"
  shows "db_apps (w_db (snd (CreateApplication env rec s))) = db_apps (w_db s) \<or>
    (\<exists>r. db_apps (w_db (snd (CreateApplication env rec s))) = db_apps (w_db s) @ [r] \<and> ar_Name r = ar_Name rec
       \<and> (ar_ID rec = [] \<longrightarrow> ar_ID r = e_uuid env (w_trace s)))"
  using assms by (auto simp: CreateApplication_def Let_def exec_db)

lemma exec_length [simp]: "length (w_trace (snd (exec env stmt f w))) = Suc (length (w_trace w))"
  by (metis exec_trace length_append_singleton)

lemma create_other:
  assumes "dbUp env" and "m \<noteq> ar_Name rec"
  shows "appIn (snd (CreateApplication env rec s)) m = appIn s m"
  using create_apps [OF assms(1), of rec s] assms(2) by (auto simp: appIn_def selectRow_append split: option.split)

lemma create_fresh:
  assumes "dbUp env" and f: "freshIDs env s" and "ar_ID rec = []"
  shows "freshIDs env (snd (CreateApplication env rec s))"
proof (rule freshIDs_step [OF f])
  show "length (w_trace s) < length (w_trace (snd (CreateApplication env rec s)))" by (simp add: CreateApplication_def Let_def)
qed (use create_apps [OF assms(1), of rec s] assms(3) in auto)

lemma create_up:
  assumes "dbUp env" and "freshIDs env s" and "appIn s (ar_Name rec) = None" and "ar_ID rec = []" and "ar_Source rec \<noteq> []"
  shows "fst (CreateApplication env rec s) = Inr ()"
    "map_option (\<lambda>r. (ar_Manifest r, ar_Source r)) (appIn (snd (CreateApplication env rec s)) (ar_Name rec)) = Some (ar_Manifest rec, ar_Source rec)"
proof -
  have "\<not> list_ex (\<lambda>r. ar_Name r = ar_Name rec \<or> ar_ID r = e_uuid env (w_trace s)) (db_apps (w_db s))"
    using freshIDs_unused [OF assms(2)] assms(3) by (auto simp: list_ex_iff appIn_def selectRow_None image_iff; metis)
  then show "fst (CreateApplication env rec s) = Inr ()"
    "map_option (\<lambda>r. (ar_Manifest r, ar_Source r)) (appIn (snd (CreateApplication env rec s)) (ar_Name rec)) = Some (ar_Manifest rec, ar_Source rec)"
    using assms by (simp_all add: CreateApplication_def Let_def exec_db exec_fst appIn_def selectRow_append)
qed

lemma update_up:
  assumes "dbUp env"
  shows "fst (UpdateManifest env n man s) = Inr ()" "freshIDs env s \<Longrightarrow> freshIDs env (snd (UpdateManifest env n man s))"
    "appIn (snd (UpdateManifest env n man s)) m =
       (if m = n then map_option (\<lambda>r. r\<lparr>ar_Manifest := man, ar_UpdatedAt := e_now env (w_trace s)\<rparr>) (appIn s n) else appIn s m)"
proof -
  show "freshIDs env s \<Longrightarrow> freshIDs env (snd (UpdateManifest env n man s))"
    by (erule freshIDs_step) (use assms in \<open>auto simp: UpdateManifest_def Let_def exec_db updateRows_def\<close>)
qed (use assms in \<open>simp_all add: UpdateManifest_def Let_def exec_db exec_fst appIn_def selectRow_update\<close>)

lemma delete_up:
  assumes "dbUp env"
  shows "appIn s n = Some r \<Longrightarrow> fst (DeleteApplication env n s) = Inr ()"
    "appIn (snd (DeleteApplication env n s)) m = (if m = n then None else appIn s m)"
  using assms rowsAffected_0 [of ar_Name n "db_apps (w_db s)"]
  by (auto simp: DeleteApplication_def snd_case_result exec_db appIn_def selectRow_delete exec_def split: prod.split)

lemma schedule_view [simp]:
  "appIn (AddApp now n s) m = appIn s m" "freshIDs env (AddApp now n s) = freshIDs env s"
  "map_of (s_schedule (AddApp now n s)) m = (if m = n then Some now else map_of (s_schedule s) m)"
  "appIn (RemoveApp n s) m = appIn s m" "map_of (s_schedule (RemoveApp n s)) m = (if m = n then None else map_of (s_schedule s) m)"
  by (simp_all add: AddApp_def RemoveApp_def appIn_def freshIDs_def)

lemma appView_schedule [simp]:
  "m \<noteq> n \<Longrightarrow> appView (AddApp now n s) m = appView s m" "m \<noteq> n \<Longrightarrow> appView (RemoveApp n s) m = appView s m"
  "appView (AddApp now n s) n = (fst (appView s n), True)" "appView (RemoveApp n s) n = (fst (appView s n), False)"
  by (simp_all add: appView_def)

lemma registerApp_keeps:
  assumes "dbUp env" and "freshIDs env s"
  shows "freshIDs env (registerApp env disk store n s)" and "m \<noteq> n \<Longrightarrow> appView (registerApp env disk store n s) m = appView s m"
proof -
  have c: "freshIDs env s'" "m \<noteq> n \<Longrightarrow> appView s' m = appView s m"
    if "CreateApplication env rec s = (x, s')" "ar_Name rec = n" "ar_ID rec = []" for rec x s' m
    using create_fresh [OF assms that(3)] create_other [OF assms(1), of m rec s] statements_schedule(1) [of env rec s] that
    by (auto simp: appView_def)
  have u: "freshIDs env s'" "m \<noteq> n \<Longrightarrow> appView s' m = appView s m"
    if "UpdateManifest env n man s = (x, s')" for man x s' m
    using update_up(2) [OF assms, of n man] update_up(3) [OF assms(1), of n man s m] statements_schedule(2) [of env n man s] that
    by (auto simp: appView_def)
  show "freshIDs env (registerApp env disk store n s)"
    using assms(2) by (auto simp: registerApp_def Let_def split: option.split prod.split sum.split dest!: c(1) u(1))
  assume "m \<noteq> n"
  then show "appView (registerApp env disk store n s) m = appView s m"
    by (auto simp: registerApp_def Let_def split: option.split prod.split sum.split dest!: c(2) [where m = m] u(2) [where m = m])
qed

lemma registerApp_own:
  assumes "dbUp env" and "freshIDs env s" and v: "appView s n = storeView store sched n"
  shows "appView (registerApp env disk store n s) n = registeredView env disk store sched n"
proof (cases "map_of disk n")
  case None
  then show ?thesis using v by (simp add: registerApp_def registeredView_def)
next
  case (Some a)
  note disk = this
  show ?thesis
  proof (cases "map_of store n")
    case None
    define rec where "rec = \<lparr>ar_ID = [], ar_Name = n, ar_Manifest = marshalApp (e_codec env) a, ar_Source = ''manifest'',
      ar_SyncStatus = SyncStatusUnknown, ar_HealthStatus = HealthUnknown, ar_LastSyncedSHA = [], ar_HeadSHA = [],
      ar_LastSyncTime = None, ar_LastObservationTime = None, ar_LastObservedHealthStatus = None,
      ar_LastError = None, ar_ServicesJSON = [], ar_ConditionsJSON = [], ar_CreatedAt = 0, ar_UpdatedAt = 0\<rparr>"
    have r: "ar_Name rec = n" "ar_ID rec = []" "ar_Source rec = ''manifest''" "ar_Manifest rec = marshalApp (e_codec env) a"
      by (simp_all add: rec_def)
    have "appIn s (ar_Name rec) = None" using v None r(1) by (simp add: appView_def storeView_def)
    from create_up [OF assms(1,2) this r(2)] r obtain s' where "CreateApplication env rec s = (Inr (), s')"
      and "map_option (\<lambda>r. (ar_Manifest r, ar_Source r)) (appIn s' n) = Some (marshalApp (e_codec env) a, ''manifest'')"
      by (metis list.distinct(1) prod.collapse)
    then show ?thesis using disk None by (simp add: registerApp_def registeredView_def rec_def appView_def)
  next
    case (Some r)
    obtain q where q: "appIn s n = Some q" "ar_Source q = ar_Source r"
      using v Some by (auto simp: appView_def storeView_def)
    let ?man = "marshalApp (e_codec env) a"
    define s' where "s' = snd (UpdateManifest env n ?man s)"
    have "UpdateManifest env n ?man s = (Inr (), s')"
      using update_up(1) [OF assms(1), of n ?man s] by (simp add: s'_def prod_eq_iff)
    moreover have "appIn s' n = Some (q\<lparr>ar_Manifest := ?man, ar_UpdatedAt := e_now env (w_trace s)\<rparr>)"
      using update_up(3) [OF assms(1), of n ?man s n] q(1) by (simp add: s'_def)
    moreover have "s_schedule s' = s_schedule s" by (simp add: s'_def)
    ultimately show ?thesis using disk Some v q by (auto simp: registerApp_def registeredView_def appView_def)
  qed
qed

interpretation register: keyed_fold appView "registerApp env disk store" "\<lambda>s. dbUp env \<and> freshIDs env s"
    "storeView store sched" "registeredView env disk store sched" for env disk store sched
  by unfold_locales (simp_all add: registerApp_keeps registerApp_own)

lemma tearDown_view [simp]: "appView (tearDownApp env cfg a s) m = appView s m"
  by (auto simp: tearDownApp_def onTrace_def appView_def appIn_def split: prod.split)

lemma removeApp_other:
  assumes "dbUp env" and "m \<noteq> n"
  shows "appView (removeApp env cfg disk store n s) m = appView s m"
proof -
  have d: "appView w' m = appView w m" if "DeleteApplication env n w = (x, w')" for x and w w' :: "'a SState_scheme"
    using delete_up(2) [OF assms(1), of n w m] statements_schedule(3) [of env n w] that assms(2) by (simp add: appView_def)
  show ?thesis
    using assms(2) by (auto simp: removeApp_def Let_def split: option.split prod.split sum.split dest!: d)
qed

lemma removeApp_own:
  assumes "dbUp env" and v: "appView s n = registeredView env disk store sched n"
  shows "appView (removeApp env cfg disk store n s) n = removedView env disk store sched n"
proof (cases "\<exists>r. map_of store n = Some r \<and> ar_Source r = ''manifest'' \<and> map_of disk n = None")
  case True
  then obtain r where r: "map_of store n = Some r" "ar_Source r = ''manifest''" "map_of disk n = None" by blast
  define w where "w = (case unmarshalApp (e_codec env) (ar_Manifest r) of Inl e \<Rightarrow> s | Inr a \<Rightarrow> tearDownApp env cfg a s)"
  have "appView w n = appView s n" by (simp add: w_def split: sum.split)
  then obtain q where "appIn w n = Some q" using v r by (auto simp: registeredView_def storeView_def appView_def)
  then have "DeleteApplication env n w = (Inr (), snd (DeleteApplication env n w))"
    using delete_up(1) [OF assms(1)] by (simp add: prod_eq_iff)
  then have "removeApp env cfg disk store n s = RemoveApp n (snd (DeleteApplication env n w))"
    using r by (auto simp: removeApp_def Let_def w_def [symmetric] split: prod.split sum.split)
  then show ?thesis using r delete_up(2) [OF assms(1), of n w n] by (simp add: removedView_def appView_def)
next
  case False
  then show ?thesis using v by (auto simp: removeApp_def removedView_def split: option.splits)
qed

interpretation remove: keyed_fold appView "removeApp env cfg disk store" "\<lambda>s. dbUp env"
    "registeredView env disk store sched" "removedView env disk store sched" for env cfg disk store sched
  by unfold_locales (simp_all add: removeApp_other removeApp_own)

section \<open>The whole pass\<close>

lemma scanManifestDir_wf: "wf_map dst \<Longrightarrow> wf_map (scanManifestDir env fs t dir dst)"
proof -
  have "wf_map dst \<Longrightarrow> wf_map (fold (\<lambda>entry dst. case readManifest env fs t dir entry of
      None \<Rightarrow> dst | Some a \<Rightarrow> AList.update (meta_Name (Metadata a)) a dst) es dst)" for es dst
    by (induction es arbitrary: dst) (auto split: option.split)
  then show "wf_map dst \<Longrightarrow> wf_map (scanManifestDir env fs t dir dst)" by (simp add: scanManifestDir_def split: sum.split)
qed

lemma scanAppRepos_wf: "wf_map dst \<Longrightarrow> wf_map (scanAppRepos env fs t seen apps dst)"
  by (induction env fs t seen apps dst rule: scanAppRepos.induct) (auto simp: Let_def scanManifestDir_wf split: sum.split)

lemma freshIDs_later:
  assumes "freshIDs env w" and "length (w_trace w) \<le> length (w_trace w')" and "w_db w' = w_db w"
  shows "freshIDs env w'"
  using assms(1) unfolding freshIDs_def assms(3) by (meson assms(2) le_trans)

lemma syncManifestRepo_spec:
  assumes "syncManifestRepo env cfg fs dst s = (disk, s1)" and "wf_map dst"
  shows "wf_map disk" "w_db s1 = w_db s" "s_schedule s1 = s_schedule s" "length (w_trace s) \<le> length (w_trace s1)"
  using assms
  by (auto simp: syncManifestRepo_def gitSync_def Let_def scanManifestDir_wf split: sum.splits if_splits)

lemma manifestSources_spec:
  assumes "manifestSources env cfg fs s = (Inr (disk, apps), s1)" and "dbUp env"
  shows "wf_map disk" "w_db s1 = w_db s" "apps = orderApplications (db_apps (w_db s))" "freshIDs env s \<Longrightarrow> freshIDs env s1"
    "s_schedule s1 = s_schedule s"
proof -
  obtain d0 s0 where d0: "(if sd_ManifestRepoURL cfg \<noteq> [] then syncManifestRepo env cfg fs [] s else ([], s)) = (d0, s0)" by force
  then have s0: "wf_map d0" "w_db s0 = w_db s" "s_schedule s0 = s_schedule s" "length (w_trace s) \<le> length (w_trace s0)"
    using syncManifestRepo_spec [of env cfg fs "[]" s d0 s0] by (auto split: if_splits)
  have l: "ListApplications env s0 = (Inr (orderApplications (db_apps (w_db s))), s0\<lparr>w_trace := w_trace s0 @ [Queried ''ListApplications'' None]\<rparr>)"
    using assms(2) s0(2) by (simp add: ListApplications_def exec_def wrapErr_def)
  have s1: "s1 = s0\<lparr>w_trace := w_trace s0 @ [Queried ''ListApplications'' None]\<rparr>" and a: "apps = orderApplications (db_apps (w_db s))"
    and d: "\<exists>t. disk = scanAppRepos env fs t [] apps (if sd_ConfigDir cfg \<noteq> [] then scanManifestDir env fs (w_trace s0) (sd_ConfigDir cfg) d0 else d0)"
    using assms(1) by (auto simp: manifestSources_def d0 Let_def l)
  show "wf_map disk" using d s0(1) by (auto simp: scanAppRepos_wf scanManifestDir_wf)
  show "w_db s1 = w_db s" "apps = orderApplications (db_apps (w_db s))" "s_schedule s1 = s_schedule s" using s1 a s0 by simp_all
  show "freshIDs env s1" if "freshIDs env s"
    by (rule freshIDs_later [OF that]) (use s1 s0 in simp_all)
qed

lemma storeApps_view:
  assumes "wf_db (w_db s)"
  shows "map_of (index_by ar_Name (orderApplications (db_apps (w_db s)))) n = appIn s n"
proof -
  let ?apps = "orderApplications (db_apps (w_db s))"
  have set: "set ?apps = set (db_apps (w_db s))" by (auto simp: orderApplications_def Let_def)
  have uniq: "r = q" if "r \<in> set ?apps" "q \<in> set ?apps" "ar_Name r = ar_Name q" for r q
    using assms that unfolding set wf_db_def by (auto dest: inj_onD simp: distinct_map)
  show ?thesis
  proof (cases "appIn s n")
    case None
    then have "n \<notin> ar_Name ` set ?apps" by (simp add: set appIn_def selectRow_None)
    then show ?thesis using None map_of_index_by_None [of ar_Name ?apps n] by simp
  next
    case (Some r)
    then have r: "r \<in> set ?apps" "ar_Name r = n" using selectRow_Some [of ar_Name n "db_apps (w_db s)"] set by (auto simp: appIn_def)
    then have "map_of (index_by ar_Name ?apps) n \<noteq> None" unfolding map_of_index_by_None by blast
    then obtain q where q: "map_of (index_by ar_Name ?apps) n = Some q" by blast
    then show ?thesis using uniq r map_of_index_by_key [OF q] Some by auto
  qed
qed

lemma syncConfigManifests_view:
  assumes "dbUp env" and "freshIDs env s" and "wf_db (w_db s)"
    and "\<And>xs. distinct xs \<Longrightarrow> distinct (diskOrder xs) \<and> set (diskOrder xs) = set xs"
    and "\<And>xs. distinct xs \<Longrightarrow> distinct (storeOrder xs) \<and> set (storeOrder xs) = set xs"
    and "manifestSources env cfg fs s = (Inr (disk, apps), s1)"
  shows "appView (syncConfigManifests env cfg fs diskOrder storeOrder s) n
    = removedView env disk (index_by ar_Name apps) (\<lambda>n. map_of (s_schedule s) n \<noteq> None) n"
proof -
  note m = manifestSources_spec [OF assms(6,1)]
  let ?store = "index_by ar_Name apps" and ?sched = "\<lambda>n. map_of (s_schedule s) n \<noteq> None"
  let ?s2 = "fold (registerApp env disk ?store) (diskOrder (map fst disk)) s1"
  have v1: "appView s1 k = storeView ?store ?sched k" for k
    using storeApps_view [OF assms(3)] m(2,3,5) by (simp add: appView_def storeView_def appIn_def)
  have "appView ?s2 k = (if k \<in> set (map fst disk) then registeredView env disk ?store ?sched k else appView s1 k)" for k
    using register.fold_get [of env s1 "diskOrder (map fst disk)" ?store ?sched disk k] assms(1,2,4) m(1,4) v1 by auto
  then have v2: "appView ?s2 k = registeredView env disk ?store ?sched k" for k
    using v1 [of k] map_of_eq_None_iff [of disk k] by (cases "map_of disk k") (simp_all add: registeredView_def)
  have "appView (fold (removeApp env cfg disk ?store) (storeOrder (map fst ?store)) ?s2) n
      = (if n \<in> set (map fst ?store) then removedView env disk ?store ?sched n else appView ?s2 n)"
    using remove.fold_get [of env "storeOrder (map fst ?store)" ?s2 disk ?store ?sched cfg n] assms(1,5) v2 by auto
  then have "appView (fold (removeApp env cfg disk ?store) (storeOrder (map fst ?store)) ?s2) n = removedView env disk ?store ?sched n"
    using v2 [of n] map_of_eq_None_iff [of ?store n] by (cases "map_of ?store n") (simp_all add: removedView_def del: map_of_index_by_None)
  then show ?thesis by (simp add: syncConfigManifests_def assms(6) Let_def)
qed

text \<open>
  C22: One pass of the configuration sync, with a database that answers, makes the registered manifest
  applications the ones found on disk, in whatever order the two maps are iterated. A manifest on disk
  is registered, or replaces the stored one when the application came from a manifest; a manifest
  application whose file is gone is deleted and unscheduled; an application that did not come from a
  manifest keeps its manifest and source; nothing else appears.
\<close>

theorem syncConfigManifests_converges:
  assumes "dbUp env" and "freshIDs env s" and "wf_db (w_db s)"
    and "\<And>xs. distinct xs \<Longrightarrow> distinct (diskOrder xs) \<and> set (diskOrder xs) = set xs"
    and "\<And>xs. distinct xs \<Longrightarrow> distinct (storeOrder xs) \<and> set (storeOrder xs) = set xs"
    and "manifestSources env cfg fs s = (Inr (disk, apps), s1)"
  defines "s' \<equiv> syncConfigManifests env cfg fs diskOrder storeOrder s"
  shows "(\<forall>n a. map_of disk n = Some a \<and> (case appIn s n of None \<Rightarrow> True | Some r \<Rightarrow> ar_Source r = ''manifest'') \<longrightarrow>
      (\<exists>r. appIn s' n = Some r \<and> ar_Source r = ''manifest'' \<and> ar_Manifest r = marshalApp (e_codec env) a
         \<and> (appIn s n = None \<longrightarrow> map_of (s_schedule s') n \<noteq> None)))
    \<and> (\<forall>n r. appIn s n = Some r \<and> ar_Source r = ''manifest'' \<and> map_of disk n = None \<longrightarrow>
         appIn s' n = None \<and> map_of (s_schedule s') n = None)
    \<and> (\<forall>n r. appIn s n = Some r \<and> ar_Source r \<noteq> ''manifest'' \<longrightarrow>
         (\<exists>r'. appIn s' n = Some r' \<and> ar_Source r' = ar_Source r \<and> ar_Manifest r' = ar_Manifest r))
    \<and> (\<forall>n. appIn s n = None \<and> map_of disk n = None \<longrightarrow> appIn s' n = None)"
proof -
  have v: "appView s' n = removedView env disk (index_by ar_Name apps) (\<lambda>n. map_of (s_schedule s) n \<noteq> None) n" for n
    unfolding s'_def by (rule syncConfigManifests_view [OF assms(1-6)])
  have st: "map_of (index_by ar_Name apps) n = appIn s n" for n
    using storeApps_view [OF assms(3)] manifestSources_spec(3) [OF assms(6,1)] by simp
  note view = v [unfolded removedView_def registeredView_def storeView_def st appView_def]
  show ?thesis
  proof (intro conjI allI impI)
    fix n a assume "map_of disk n = Some a \<and> (case appIn s n of None \<Rightarrow> True | Some r \<Rightarrow> ar_Source r = ''manifest'')"
    then show "\<exists>r. appIn s' n = Some r \<and> ar_Source r = ''manifest'' \<and> ar_Manifest r = marshalApp (e_codec env) a
         \<and> (appIn s n = None \<longrightarrow> map_of (s_schedule s') n \<noteq> None)"
      using view [of n] by (auto split: option.splits if_splits)
  next
    fix n r assume r: "appIn s n = Some r \<and> ar_Source r = ''manifest'' \<and> map_of disk n = None"
    then show "appIn s' n = None" "map_of (s_schedule s') n = None" using view [of n] by auto
  next
    fix n r assume "appIn s n = Some r \<and> ar_Source r \<noteq> ''manifest''"
    then show "\<exists>r'. appIn s' n = Some r' \<and> ar_Source r' = ar_Source r \<and> ar_Manifest r' = ar_Manifest r"
      using view [of n] by (auto split: option.splits)
  next
    fix n assume "appIn s n = None \<and> map_of disk n = None"
    then show "appIn s' n = None" using view [of n] by simp
  qed
qed

section \<open>An unreachable manifest repository\<close>

definition downCommand :: "Env \<Rightarrow> Application \<Rightarrow> Command" where
  "downCommand env a = command env (teardownRequest env a) (baseArgs (teardownRequest env a) @ [''down'', ''--remove-orphans''])"

lemma tearDown_trace:
  assumes "dp_Deployer (sd_deps cfg) = ComposeDeployer env"
  shows "\<exists>r. w_trace (tearDownApp env cfg a s) = w_trace s @ [Ran (downCommand env a) r]"
  by (simp add: tearDownApp_def onTrace_snd assms ComposeDeployer_def Down_def run_def Let_def downCommand_def split: option.split prod.split)

lemma removeApp_trace:
  assumes "dp_Deployer (sd_deps cfg) = ComposeDeployer env"
  shows "set (w_trace s) \<subseteq> set (w_trace (removeApp env cfg disk store n s))"
    and "map_of store n = Some r \<Longrightarrow> ar_Source r = ''manifest'' \<Longrightarrow> map_of disk n = None \<Longrightarrow> unmarshalApp (e_codec env) (ar_Manifest r) = Inr a
      \<Longrightarrow> \<exists>x. Ran (downCommand env a) x \<in> set (w_trace (removeApp env cfg disk store n s))"
proof -
  have d: "set (w_trace w) \<subseteq> set (w_trace w')" if "DeleteApplication env n w = (x, w')" for x and w w' :: "'a SState_scheme"
  proof -
    have "grows observing (w_trace w) (w_trace (snd (DeleteApplication env n w)))"
      by (simp add: DeleteApplication_def snd_case_result grows_exec)
    then show ?thesis using that by (auto simp: grows_def)
  qed
  have t: "set (w_trace s) \<subseteq> set (w_trace (tearDownApp env cfg b s))" "\<exists>x. Ran (downCommand env b) x \<in> set (w_trace (tearDownApp env cfg b s))" for b
    using tearDown_trace [OF assms, of b s] by auto
  show "set (w_trace s) \<subseteq> set (w_trace (removeApp env cfg disk store n s))"
    using t(1) by (auto simp: removeApp_def Let_def RemoveApp_def split: option.split prod.split sum.split dest!: d)
  show "\<exists>x. Ran (downCommand env a) x \<in> set (w_trace (removeApp env cfg disk store n s))"
    if "map_of store n = Some r" "ar_Source r = ''manifest''" "map_of disk n = None" "unmarshalApp (e_codec env) (ar_Manifest r) = Inr a"
    using t(2) [of a] that by (fastforce simp: removeApp_def Let_def RemoveApp_def split: prod.split sum.split dest!: d)
qed

lemma fold_removeApp_trace:
  assumes "dp_Deployer (sd_deps cfg) = ComposeDeployer env"
  shows "set (w_trace s) \<subseteq> set (w_trace (fold (removeApp env cfg disk store) ns s))"
    and "n \<in> set ns \<Longrightarrow> map_of store n = Some r \<Longrightarrow> ar_Source r = ''manifest'' \<Longrightarrow> map_of disk n = None
      \<Longrightarrow> unmarshalApp (e_codec env) (ar_Manifest r) = Inr a
      \<Longrightarrow> \<exists>x. Ran (downCommand env a) x \<in> set (w_trace (fold (removeApp env cfg disk store) ns s))"
proof -
  show sub: "set (w_trace s) \<subseteq> set (w_trace (fold (removeApp env cfg disk store) ns s))" for ns and s :: "'a SState_scheme"
  proof (induction ns arbitrary: s)
    case (Cons m ns)
    show ?case using removeApp_trace(1) [OF assms, of s disk store m] Cons [of "removeApp env cfg disk store m s"] by simp
  qed simp
  show "\<exists>x. Ran (downCommand env a) x \<in> set (w_trace (fold (removeApp env cfg disk store) ns s))"
    if "n \<in> set ns" "map_of store n = Some r" "ar_Source r = ''manifest''" "map_of disk n = None" "unmarshalApp (e_codec env) (ar_Manifest r) = Inr a"
    using that
  proof (induction ns arbitrary: s)
    case (Cons m ns)
    show ?case
    proof (cases "m = n")
      case True
      with removeApp_trace(2) [OF assms Cons.prems(2-), of s] sub [of "removeApp env cfg disk store n s" ns] show ?thesis by auto
    next
      case False
      with Cons show ?thesis by simp
    qed
  qed simp
qed

lemma scanAppRepos_nothing:
  assumes "\<And>a b. a \<in> set apps \<Longrightarrow> unmarshalApp (e_codec env) (ar_Manifest a) = Inr b
    \<Longrightarrow> \<exists>e. fs_ReadDir fs t (filepath_Join (e_repoPath env t (RepoURL (appSource b))) ''applications'') = Inl e"
  shows "scanAppRepos env fs t seen apps dst = dst"
  using assms
proof (induction apps arbitrary: seen)
  case (Cons a apps)
  have IH: "scanAppRepos env fs t seen apps dst = dst" for seen
    by (rule Cons.IH) (use Cons.prems in auto)
  show ?case
  proof (cases "unmarshalApp (e_codec env) (ar_Manifest a)")
    case (Inl e)
    then show ?thesis using IH by simp
  next
    case (Inr b)
    then obtain e where "fs_ReadDir fs t (filepath_Join (e_repoPath env t (RepoURL (appSource b))) ''applications'') = Inl e"
      using Cons.prems [of a b] by auto
    then show ?thesis using Inr IH by (simp add: Let_def scanManifestDir_def)
  qed
qed simp

text \<open>
  When the manifest repository cannot be synced, its clone is not read, and every manifest
  application is taken for removed: with no other manifest source, one failed sync runs
  \<^verbatim>\<open>docker compose down\<close> on the project of each of them and deletes it with its history.
\<close>

theorem manifest_outage_tears_down:
  assumes "dbUp env" and "freshIDs env s" and "wf_db (w_db s)"
    and "\<And>xs. distinct xs \<Longrightarrow> distinct (diskOrder xs) \<and> set (diskOrder xs) = set xs"
    and "\<And>xs. distinct xs \<Longrightarrow> distinct (storeOrder xs) \<and> set (storeOrder xs) = set xs"
    and "dp_Deployer (sd_deps cfg) = ComposeDeployer env"
    and "sd_ManifestRepoURL cfg \<noteq> []" and "sd_ConfigDir cfg = []"
    and "\<And>t src. RepoURL src = sd_ManifestRepoURL cfg \<Longrightarrow> \<exists>e. e_sync env t src = Inl e"
    and "\<And>t q b. q \<in> set (db_apps (w_db s)) \<Longrightarrow> unmarshalApp (e_codec env) (ar_Manifest q) = Inr b
      \<Longrightarrow> \<exists>e. fs_ReadDir fs t (filepath_Join (e_repoPath env t (RepoURL (appSource b))) ''applications'') = Inl e"
    and "appIn s n = Some r" and "ar_Source r = ''manifest''" and "unmarshalApp (e_codec env) (ar_Manifest r) = Inr a"
  defines "s' \<equiv> syncConfigManifests env cfg fs diskOrder storeOrder s"
  shows "appIn s' n = None \<and> (\<exists>x. Ran (downCommand env a) x \<in> set (w_trace s'))"
proof -
  let ?apps = "orderApplications (db_apps (w_db s))"
  obtain e where "e_sync env (w_trace s) \<lparr>RepoURL = sd_ManifestRepoURL cfg, TargetRevision = manifestRevision cfg, Path = [], ComposeFiles = []\<rparr> = Inl e"
    using assms(9) [of "\<lparr>RepoURL = sd_ManifestRepoURL cfg, TargetRevision = manifestRevision cfg, Path = [], ComposeFiles = []\<rparr>" "w_trace s"] by auto
  moreover have "scanAppRepos env fs t seen ?apps [] = []" for t seen
    by (rule scanAppRepos_nothing) (use assms(10) in \<open>auto simp: orderApplications_def Let_def\<close>)
  ultimately obtain s1 where m: "manifestSources env cfg fs s = (Inr ([], ?apps), s1)"
    using assms(1,7,8) by (simp add: manifestSources_def syncManifestRepo_def gitSync_def Let_def ListApplications_def wrapErr_def exec_def)
  have st: "map_of (index_by ar_Name ?apps) k = appIn s k" for k using storeApps_view [OF assms(3)] by simp
  have "appIn s' n = None"
    using syncConfigManifests_view [OF assms(1-5) m, of n] assms(11,12) st [of n]
    by (simp add: s'_def removedView_def appView_def)
  moreover have "n \<in> set (storeOrder (map fst (index_by ar_Name ?apps)))"
    using assms(5) [of "map fst (index_by ar_Name ?apps)"] st [of n] assms(11) by (force dest: map_of_SomeD)
  then have "\<exists>x. Ran (downCommand env a) x \<in> set (w_trace s')"
    using fold_removeApp_trace(2) [OF assms(6) _ _ assms(12) _ assms(13), of n _ "index_by ar_Name ?apps" "[]"] st [of n] assms(11)
    by (simp add: s'_def syncConfigManifests_def m Let_def)
  ultimately show ?thesis by blast
qed

section \<open>A site\<close>

definition configEnv :: "string result \<Rightarrow> Env" where
  "configEnv sync = siteEnv\<lparr>e_uuid := (\<lambda>t. replicate (Suc (length t)) CHR ''u''), e_sync := (\<lambda>t src. sync)\<rparr>"

definition configDeps :: "Env \<Rightarrow> string \<Rightarrow> SchedDeps" where
  "configDeps env dir = \<lparr>sd_deps = demoDeps env, sd_WorkerCount = 0, sd_DefaultPollInterval = 0, sd_ConfigDir = dir,
     sd_ManifestRepoURL = ''https://git.example.com/control'', sd_ManifestRepoPath = [], sd_ManifestRevision = []\<rparr>"

definition configFiles :: "DirEntry list result \<Rightarrow> Files" where
  "configFiles dir = \<lparr>fs_ReadDir = (\<lambda>t d. dir), fs_ReadFile = (\<lambda>t f. Inr ''kind: Application''), fs_yaml = (\<lambda>d. Inr demoApplication)\<rparr>"

lemma config_site:
  "dbUp (configEnv x)" "wf_db (w_db (demoSched []))" "appIn (demoSched []) ''web'' = Some demoRecord"
  "db_apps (w_db (demoSched [])) = [demoRecord]" "e_codec (configEnv x) = demoCodec" "e_sync (configEnv x) t src = x"
  "dp_Deployer (sd_deps (configDeps env d)) = ComposeDeployer env"
  by (simp_all add: dbUp_def configEnv_def site_parts demoSched_def siteState_def wf_db_def appIn_def selectRow_def demoRecord_def
      configDeps_def demoDeps_def)

lemma config_fresh: "freshIDs (configEnv x) (demoSched [])"
  unfolding freshIDs_def
  by (auto simp: configEnv_def demoSched_def siteState_def demoRecord_def dest: arg_cong [where f = length])

theorem manifest_outage_tears_down_witness:
  "appIn (syncConfigManifests (configEnv (Inl (Errorf ''connection refused'' []))) (configDeps (configEnv (Inl (Errorf ''connection refused'' []))) [])
      (configFiles (Inl (Errorf ''no such directory'' []))) id id (demoSched [])) ''web'' = None"
  using manifest_outage_tears_down [where env = "configEnv (Inl (Errorf ''connection refused'' []))" and s = "demoSched []" and diskOrder = id and storeOrder = id
      and cfg = "configDeps (configEnv (Inl (Errorf ''connection refused'' []))) []" and fs = "configFiles (Inl (Errorf ''no such directory'' []))"
      and n = "''web''" and r = demoRecord and a = demoApplication] config_site config_fresh site_app
  by (simp add: configFiles_def configDeps_def demoRecord_def)

abbreviation webManifest :: "DirEntry list" where
  "webManifest \<equiv> [\<lparr>de_Name = ''web.yaml'', de_IsDir = False\<rparr>]"

lemma config_env:
  "e_repoPath (configEnv x) t u = ''/data/git/infra''" "e_net (configEnv x) = demoNet" "e_dbErr (configEnv x) t = None"
  by (simp_all add: configEnv_def site_parts)

lemma config_scan:
  "scanManifestDir (configEnv x) (configFiles (Inr webManifest)) t d dst = AList.update ''web'' (ApplyDefaults demoApplication) dst"
proof -
  have "Validate demoNet (ApplyDefaults demoApplication) = None"
    using demoApplication_accepted by (auto simp: prepareApplication_def Let_def split: option.splits)
  then have "readManifest (configEnv x) (configFiles (Inr webManifest)) t d \<lparr>de_Name = ''web.yaml'', de_IsDir = False\<rparr> = Some (ApplyDefaults demoApplication)"
    by (simp add: readManifest_def configFiles_def config_env filepath_Ext_def) (simp add: demoApplication_def)
  moreover have "meta_Name (Metadata (ApplyDefaults demoApplication)) = ''web''" by (simp add: defaults_defs demoApplication_def)
  ultimately show ?thesis by (simp add: scanManifestDir_def) (simp add: configFiles_def)
qed

lemma config_sources:
  "\<exists>s1. manifestSources (configEnv (Inr ''4f2a'')) (configDeps (configEnv (Inr ''4f2a'')) ''/etc/dockercd'') (configFiles (Inr webManifest)) (demoSched [])
   = (Inr ([(''web'', ApplyDefaults demoApplication)], [demoRecord]), s1)"
proof -
  have "orderApplications [demoRecord] = [demoRecord]" by (simp add: orderApplications_def demoRecord_def)
  then show ?thesis
    by (simp add: manifestSources_def syncManifestRepo_def configDeps_def gitSync_def config_site config_env Let_def config_scan
        ListApplications_def wrapErr_def exec_def demoCodec_def)
qed

theorem syncConfigManifests_converges_witness:
  "\<exists>r. appIn (syncConfigManifests (configEnv (Inr ''4f2a'')) (configDeps (configEnv (Inr ''4f2a'')) ''/etc/dockercd'')
      (configFiles (Inr [\<lparr>de_Name = ''web.yaml'', de_IsDir = False\<rparr>])) rev rev (demoSched [])) ''web'' = Some r
     \<and> ar_Source r = ''manifest'' \<and> ar_Manifest r = ''{}''"
proof -
  obtain s1 where m: "manifestSources (configEnv (Inr ''4f2a'')) (configDeps (configEnv (Inr ''4f2a'')) ''/etc/dockercd'')
     (configFiles (Inr [\<lparr>de_Name = ''web.yaml'', de_IsDir = False\<rparr>])) (demoSched [])
   = (Inr ([(''web'', ApplyDefaults demoApplication)], [demoRecord]), s1)"
    using config_sources by blast
  show ?thesis
    using syncConfigManifests_converges [OF config_site(1) config_fresh config_site(2) _ _ m, of rev rev] config_site(3,5)
    by (auto simp: demoRecord_def demoCodec_def)
qed

end
