(* ===== verification/Dispatch.thy ===== *)
theory Dispatch
  imports ConfigSync
begin

text \<open>
  The scheduler, the workers and the callers of the reconciler as one transition system. A reconciliation
  is two steps, taking the lock and everything up to its release, so that other steps interleave with
  a running one; its own effects are applied together when it ends.
\<close>

section \<open>A reconciliation leaves the schedule alone\<close>

lemma pure_more [simp, frame]:
  "World.more (snd (gitSync env src w)) = World.more w" "World.more (snd (gitCheckout env url sha w)) = World.more w"
  "World.more (snd (parseFiles env d fs w)) = World.more w" "World.more (snd (ListApplications env w)) = World.more w"
  by (simp_all add: gitSync_def gitCheckout_def parseFiles_def ListApplications_def Let_def)

lemma checkPortConflicts_more [simp, frame]: "World.more (snd (checkPortConflicts env n svcs w)) = World.more w"
  unfolding checkPortConflicts_def Let_def by (auto intro!: more_prod split: sum.split)

lemma inspectLive_more [simp, frame]: "World.more (snd (inspectLive env d svcs w)) = World.more w"
  unfolding inspectLive_def by (auto intro!: more_prod split: sum.split option.split)

lemma computeDiff_more [simp, frame]: "World.more (snd (computeDiff env n forced given w)) = World.more w"
proof -
  have d: "World.more (snd (diffAtHead env n forced r a h w)) = World.more w" for r a h and w :: "'a World_scheme"
    unfolding diffAtHead_def Let_def by (auto intro!: more_prod split: sum.split option.split)
  have f: "World.more (snd (computeDiffFor env n forced r a w)) = World.more w" for r a and w :: "'a World_scheme"
    unfolding computeDiffFor_def by (auto intro!: more_prod simp: d split: sum.split)
  show ?thesis
    unfolding computeDiff_def loadApplication_def by (auto intro!: more_prod simp: f split: sum.split option.split)
qed

lemma WaitForServicesHealthy_more [simp, frame]: "World.more (snd (WaitForServicesHealthy env n names w)) = World.more w"
proof -
  have "World.more (snd (waitServicesTicks k env n names w)) = World.more w" for k and w :: "'a World_scheme"
  proof (induction k arbitrary: w)
    case (Suc k)
    then show ?case by (auto intro!: more_prod split: sum.split)
  qed (auto split: StopEvent.split)
  then show ?thesis by (simp add: WaitForServicesHealthy_def)
qed

lemma deployWaves_more [simp, frame]: "World.more (snd (deployWaves env deps dep n req waves w)) = World.more w"
proof (induction waves arbitrary: w)
  case (Cons wave waves)
  then show ?case by (auto intro!: more_prod split: option.split)
qed simp

lemma deployAll_more [simp, frame]: "World.more (snd (deployAll env deps n req svcs w)) = World.more w"
  unfolding deployAll_def deployByWaves_def Let_def by (auto intro!: more_prod split: option.split)

lemma schedule_more_of: "World.more w = World.more w' \<Longrightarrow> RState.more w = RState.more w'"
  by (cases w; cases w') simp

lemma schedule_more [simp]:
  "RState.more (snd (finishResult env deps res st msg w)) = RState.more w" "RState.more (updateStatus env n u w) = RState.more w"
  "RState.more (degrade env n m w) = RState.more w" "RState.more (snd (GetApplication env n w)) = RState.more w"
  "RState.more (snd (computeDiff env n forced given w)) = RState.more w" "RState.more (snd (deployAll env deps n req svcs w)) = RState.more w"
  "RState.more (snd (afterDeploy env dest bg what sha w)) = RState.more w" "RState.more (snd (GetSyncBySHA env n sha w)) = RState.more w"
  "RState.more (snd (gitSync env src w)) = RState.more w" "RState.more (snd (gitCheckout env url sha w)) = RState.more w"
  "RState.more (snd (parseFiles env d fs w)) = RState.more w" "RState.more (snd (onTrace f w)) = RState.more w"
  by (rule schedule_more_of, rule frame)+

lemma schedule_more_breaker [simp]:
  "RState.more (setBreaker n cb w) = RState.more w" "RState.more (breakerFailure env n w) = RState.more w"
  "RState.more (breakerSuccess n w) = RState.more w" "RState.more (watchDeployed env deps bg n timeout w) = RState.more w"
  by (simp_all add: setBreaker_def breakerFailure_def breakerSuccess_def watchDeployed_def WatchApp_def split: option.split)

lemma schedule_bind:
  "RState.more (snd x) = c \<Longrightarrow> (\<And>r w. x = (r, w) \<Longrightarrow> RState.more (snd (h r w)) = RState.more w)
   \<Longrightarrow> RState.more (snd (case x of (r, w) \<Rightarrow> h r w)) = c"
  by (cases x) auto

lemma reconcileApp_schedule [simp]: "RState.more (snd (reconcileApp env deps n forced w)) = RState.more w"
proof -
  have d: "RState.more (snd (deployDrift env deps n res a spec diff sha path w)) = RState.more w" for res a spec diff sha path and w :: "'a RState_scheme"
    unfolding deployDrift_def Let_def by (auto intro!: schedule_bind split: sum.split option.split)
  have r: "RState.more (snd (reconcileAllowed env deps n b res ar a w)) = RState.more w" for b res ar a and w :: "'a RState_scheme"
    unfolding reconcileAllowed_def Let_def by (auto intro!: schedule_bind simp: d split: sum.split option.split)
  show ?thesis
    unfolding reconcileApp_def Let_def by (auto intro!: schedule_bind simp: r split: sum.split option.split) (simp_all add: r split: prod.split)
qed

lemma Rollback_schedule [simp]: "RState.more (snd (Rollback env deps n sha w)) = RState.more w"
proof -
  have d: "RState.more (snd (rollbackTo env deps n sha res a w)) = RState.more w" for res a and w :: "'a RState_scheme"
    unfolding rollbackTo_def Let_def by (auto intro!: schedule_bind split: sum.split option.split)
  show ?thesis
    unfolding Rollback_def Let_def by (auto intro!: schedule_bind simp: d split: sum.split option.split)
qed

section \<open>Steps\<close>

text \<open>
  The names in the labels are the applications whose lock, schedule entry or work item the step moves.
  A tick of the timer carries the names that its configuration sync removed. The clock readings of a pass over the schedule are not earlier than its start.
\<close>

datatype Label =
    Trigger string | Triggered | TimerTick "string set" | Take string | Done string | CallNow string | CallDone string
  | Add string | Remove string | Override duration | Retention | StoreCall

inductive sched_step :: "Env \<Rightarrow> SchedDeps \<Rightarrow> Files \<Rightarrow> SState \<Rightarrow> Label \<Rightarrow> SState \<Rightarrow> bool" for env cfg fs where
  trigger: "sched_step env cfg fs s (Trigger n) (TriggerReconcile n s)"
| triggered: "s_trigger s = n # rest \<Longrightarrow> s1 = AddApp now n (s\<lparr>s_trigger := rest\<rparr>)
    \<Longrightarrow> distinct names \<Longrightarrow> set names = fst ` set (s_schedule s1) \<Longrightarrow> (\<And>n. now' \<le> clock n)
    \<Longrightarrow> sched_step env cfg fs s Triggered (enqueueDueApps (queueCap cfg) now' clock names s1)"
| timer: "(\<And>xs. distinct xs \<Longrightarrow> distinct (diskOrder xs) \<and> set (diskOrder xs) = set xs)
    \<Longrightarrow> (\<And>xs. distinct xs \<Longrightarrow> distinct (storeOrder xs) \<and> set (storeOrder xs) = set xs)
    \<Longrightarrow> s1 = syncConfigManifests env cfg fs diskOrder storeOrder s
    \<Longrightarrow> distinct names \<Longrightarrow> set names = fst ` set (s_schedule s1) \<Longrightarrow> (\<And>n. now' \<le> clock n)
    \<Longrightarrow> sched_step env cfg fs s (TimerTick {n. appIn s n \<noteq> None \<and> appIn s1 n = None}) (enqueueDueApps (queueCap cfg) now' clock names s1)"
| take: "s_workQueue s = n # q \<Longrightarrow> length (filter (\<lambda>j. \<not> j_forced j) (s_running s)) < workerCount cfg
    \<Longrightarrow> sched_step env cfg fs s (Take n) (workerTake n (s\<lparr>s_workQueue := q\<rparr>))"
| finish: "j \<in> set (s_running s) \<Longrightarrow> \<not> j_forced j \<Longrightarrow> sched_step env cfg fs s (Done (j_app j)) (workerDone env cfg j s)"
| call: "lockedStart n s = Some s' \<Longrightarrow> sched_step env cfg fs s (CallNow n) s'"
| called: "j \<in> set (s_running s) \<Longrightarrow> j_forced j \<Longrightarrow> sched_step env cfg fs s (CallDone (j_app j)) (ReconcileNowDone env cfg j s)"
| rolled_back: "j \<in> set (s_running s) \<Longrightarrow> j_forced j \<Longrightarrow> sched_step env cfg fs s (CallDone (j_app j)) (RollbackDone env cfg sha j s)"
| add: "sched_step env cfg fs s (Add n) (AddApp now n s)"
| remove: "sched_step env cfg fs s (Remove n) (RemoveApp n s)"
| override: "sched_step env cfg fs s (Override d) (SetPollOverride d s)"
| retention: "sched_step env cfg fs s Retention (retentionTick env s)"
| store_call: "World.more s' = World.more s \<Longrightarrow> sched_step env cfg fs s StoreCall s'"

inductive schedRun :: "Env \<Rightarrow> SchedDeps \<Rightarrow> Files \<Rightarrow> SState \<Rightarrow> Label list \<Rightarrow> SState \<Rightarrow> bool" for env cfg fs s where
  run_nil: "schedRun env cfg fs s [] s"
| run_snoc: "schedRun env cfg fs s ls s' \<Longrightarrow> sched_step env cfg fs s' l s'' \<Longrightarrow> schedRun env cfg fs s (ls @ [l]) s''"

lemma run_cons:
  assumes "schedRun env cfg fs s1 ls s2" and "sched_step env cfg fs s l s1"
  shows "schedRun env cfg fs s (l # ls) s2"
  using assms
proof (induction rule: schedRun.induct)
  case run_nil
  then show ?case using run_snoc [OF schedRun.run_nil, of env cfg fs s l s1] by simp
next
  case (run_snoc ls s' l' s'')
  then show ?case using schedRun.run_snoc [of env cfg fs s "l # ls" s' l' s''] by simp
qed

fun removes :: "string \<Rightarrow> Label \<Rightarrow> bool" where
  "removes n (Remove m) = (m = n)"
| "removes n (TimerTick R) = (n \<in> R)"
| "removes n _ = False"

section \<open>What the steps keep\<close>

text \<open>The part of the state that decides about locks and work items.\<close>

definition sameWork :: "'s SState_scheme \<Rightarrow> 's SState_scheme \<Rightarrow> bool" where
  "sameWork s s' \<longleftrightarrow> s_queued s' = s_queued s \<and> s_workQueue s' = s_workQueue s \<and> s_appLocks s' = s_appLocks s
     \<and> s_nextLock s' = s_nextLock s \<and> s_running s' = s_running s"

lemma sameWork_refl [simp]: "sameWork s s"
  by (simp add: sameWork_def)

lemma sameWork_trans [trans]: "sameWork s s' \<Longrightarrow> sameWork s' s'' \<Longrightarrow> sameWork s s''"
  by (simp add: sameWork_def)

lemma sameWork_more: "RState.more s = RState.more s' \<Longrightarrow> sameWork s s'"
  by (cases s; cases s') (simp add: sameWork_def)

lemma sameWork_World: "World.more s = World.more s' \<Longrightarrow> sameWork s s'"
  by (rule sameWork_more) (rule schedule_more_of)

lemma sameWork_AddApp [simp]: "sameWork s (AddApp now n s') = sameWork s s'"
  by (simp add: sameWork_def AddApp_def)

lemma registerApp_sameWork: "sameWork s (registerApp env disk store n s)"
proof -
  have c: "CreateApplication env rec s = (x, s') \<Longrightarrow> sameWork s s'" for rec x s'
    by (rule sameWork_World) (metis snd_conv statements_more(1))
  have u: "UpdateManifest env m man s = (x, s') \<Longrightarrow> sameWork s s'" for m man x s'
    by (rule sameWork_World) (metis snd_conv statements_more(2))
  show ?thesis
    by (auto simp: registerApp_def Let_def split: option.split prod.split sum.split dest: c u)
qed

lemma syncManifestRepo_sameWork: "sameWork s (snd (syncManifestRepo env cfg fs dst s))"
  by (auto simp: syncManifestRepo_def gitSync_def Let_def sameWork_def split: sum.split)

lemma manifestSources_sameWork: "sameWork s (snd (manifestSources env cfg fs s))"
proof -
  have l: "sameWork w (snd (ListApplications env w))" for w :: "'a SState_scheme" by (rule sameWork_World) simp
  show ?thesis
    using syncManifestRepo_sameWork [of s env cfg fs "[]"] l
    by (auto simp: manifestSources_def Let_def split: prod.split sum.split if_splits intro: sameWork_trans) (metis sameWork_trans snd_conv)+
qed

text \<open>What a removal by the configuration sync may change: the entries of a registered application that is gone afterwards.\<close>

definition pruned :: "(string \<Rightarrow> bool) \<Rightarrow> 's SState_scheme \<Rightarrow> 's SState_scheme \<Rightarrow> bool" where
  "pruned known s s' \<longleftrightarrow> s_workQueue s' = s_workQueue s \<and> s_running s' = s_running s \<and> s_nextLock s' = s_nextLock s
     \<and> (\<forall>n. map_of (s_queued s') n = map_of (s_queued s) n \<and> map_of (s_appLocks s') n = map_of (s_appLocks s) n
          \<or> known n \<and> appIn s' n = None \<and> map_of (s_appLocks s') n = None)
     \<and> (\<forall>n. appIn s n = None \<longrightarrow> appIn s' n = None)"

lemma pruned_trans: "pruned known s s' \<Longrightarrow> pruned known s' s'' \<Longrightarrow> pruned known s s''"
  unfolding pruned_def by metis

lemma delete_apps:
  assumes "DeleteApplication env n w = (x, w')"
  shows "appIn w m = None \<Longrightarrow> appIn w' m = None" "x = Inr () \<Longrightarrow> appIn w' n = None" "sameWork w w'"
proof -
  have w': "w' = snd (DeleteApplication env n w)" and x: "x = fst (DeleteApplication env n w)" by (simp_all add: assms)
  show "appIn w m = None \<Longrightarrow> appIn w' m = None"
    unfolding w' by (simp add: DeleteApplication_def snd_case_result exec_db appIn_def selectRow_delete)
  show "x = Inr () \<Longrightarrow> appIn w' n = None"
    unfolding w' x by (cases "e_dbErr env (w_trace w)")
      (simp_all add: DeleteApplication_def snd_case_result exec_db appIn_def selectRow_delete exec_def)
  show "sameWork w w'" unfolding w' by (rule sameWork_World) simp
qed

lemma removeApp_pruned: "pruned (\<lambda>n. map_of store n \<noteq> None) s (removeApp env cfg disk store n s)"
proof (cases "\<exists>r. map_of store n = Some r \<and> ar_Source r = ''manifest'' \<and> map_of disk n = None")
  case True
  then obtain r where r: "map_of store n = Some r" "ar_Source r = ''manifest''" "map_of disk n = None" by blast
  define w where "w = (case unmarshalApp (e_codec env) (ar_Manifest r) of Inl e \<Rightarrow> s | Inr a \<Rightarrow> tearDownApp env cfg a s)"
  obtain x w' where d: "DeleteApplication env n w = (x, w')" by force
  have t: "sameWork s (tearDownApp env cfg a s)" "appIn (tearDownApp env cfg a s) m = appIn s m" for a m
    by (auto simp: tearDownApp_def onTrace_def appIn_def sameWork_def split: prod.split)
  have w: "sameWork s w" "appIn w m = appIn s m" for m using t by (auto simp: w_def split: sum.split)
  have sw: "sameWork s w'" using w(1) delete_apps(3) [OF d] by (rule sameWork_trans)
  have "removeApp env cfg disk store n s = (if x = Inr () then RemoveApp n w' else w')"
    using r by (auto simp: removeApp_def Let_def w_def [symmetric] d split: sum.split)
  then show ?thesis
    using sw w(2) delete_apps(1,2) [OF d] r(1) by (auto simp: pruned_def sameWork_def RemoveApp_def appIn_def)
next
  case False
  then have "removeApp env cfg disk store n s = s" by (auto simp: removeApp_def split: option.split)
  then show ?thesis by (simp add: pruned_def)
qed

lemma manifestSources_known:
  assumes "manifestSources env cfg fs s = (Inr (disk, apps), s1)" and "map_of (index_by ar_Name apps) n \<noteq> None"
  shows "appIn s n \<noteq> None"
proof -
  obtain d0 s0 where d0: "(if sd_ManifestRepoURL cfg \<noteq> [] then syncManifestRepo env cfg fs [] s else ([], s)) = (d0, s0)" by force
  then have db: "w_db s0 = w_db s"
    using syncManifestRepo_spec(2) [of env cfg fs "[]" s d0 s0] by (auto split: if_splits)
  have "apps = orderApplications (db_apps (w_db s))"
    using assms(1) db by (auto simp: manifestSources_def d0 Let_def ListApplications_def wrapErr_def exec_def split: option.splits)
  moreover have "n \<in> ar_Name ` set apps" using assms(2) unfolding map_of_index_by_None by blast
  ultimately show ?thesis unfolding appIn_def selectRow_None by (auto simp: orderApplications_def Let_def)
qed

definition syncedWork :: "'s SState_scheme \<Rightarrow> 's SState_scheme \<Rightarrow> bool" where
  "syncedWork s s' \<longleftrightarrow> s_workQueue s' = s_workQueue s \<and> s_running s' = s_running s \<and> s_nextLock s' = s_nextLock s
     \<and> (\<forall>n. map_of (s_queued s') n = map_of (s_queued s) n \<and> map_of (s_appLocks s') n = map_of (s_appLocks s) n
          \<or> appIn s n \<noteq> None \<and> appIn s' n = None \<and> map_of (s_appLocks s') n = None)"

lemma syncConfigManifests_work: "syncedWork s (syncConfigManifests env cfg fs diskOrder storeOrder s)"
proof -
  have reg: "sameWork w (fold (registerApp env disk store) ns w)" for disk store ns and w :: "'a SState_scheme"
    by (induction ns arbitrary: w) (auto intro: sameWork_trans [OF registerApp_sameWork])
  have rem: "pruned (\<lambda>n. map_of store n \<noteq> None) w (fold (removeApp env cfg disk store) ns w)" for disk store ns and w :: "'a SState_scheme"
  proof (induction ns arbitrary: w)
    case (Cons m ns)
    from pruned_trans [OF removeApp_pruned Cons] show ?case by simp
  qed (simp add: pruned_def)
  obtain x s1 where m: "manifestSources env cfg fs s = (x, s1)" by force
  have s1: "sameWork s s1" using manifestSources_sameWork [of s env cfg fs] m by simp
  show ?thesis
  proof (cases x)
    case (Inl e)
    then show ?thesis using m s1 by (simp add: syncConfigManifests_def syncedWork_def sameWork_def)
  next
    case (Inr da)
    obtain disk apps where da: "da = (disk, apps)" by force
    let ?store = "index_by ar_Name apps"
    let ?s2 = "fold (registerApp env disk ?store) (diskOrder (map fst disk)) s1"
    have s2: "sameWork s ?s2" using s1 reg by (rule sameWork_trans)
    have "pruned (\<lambda>n. map_of ?store n \<noteq> None) ?s2 (syncConfigManifests env cfg fs diskOrder storeOrder s)"
      using rem [of ?store ?s2 disk "storeOrder (map fst ?store)"] by (simp add: syncConfigManifests_def m Inr da Let_def)
    moreover have "appIn s n \<noteq> None" if "map_of ?store n \<noteq> None" for n
      using manifestSources_known [OF m [unfolded Inr da] that] .
    ultimately show ?thesis using s2 unfolding pruned_def sameWork_def syncedWork_def by auto
  qed
qed

lemma enqueueOrRetry_work [simp]:
  "s_running (enqueueOrRetry cap clock n s) = s_running s" "s_appLocks (enqueueOrRetry cap clock n s) = s_appLocks s"
  "s_nextLock (enqueueOrRetry cap clock n s) = s_nextLock s"
  by (simp_all add: enqueueOrRetry_def enqueue_def)

lemma enqueueDueApps_work [simp]:
  "s_running (enqueueDueApps cap now clock names s) = s_running s" "s_appLocks (enqueueDueApps cap now clock names s) = s_appLocks s"
  "s_nextLock (enqueueDueApps cap now clock names s) = s_nextLock s"
proof -
  have f: "s_running (fold (enqueueOrRetry cap clock) due w) = s_running w \<and> s_appLocks (fold (enqueueOrRetry cap clock) due w) = s_appLocks w
     \<and> s_nextLock (fold (enqueueOrRetry cap clock) due w) = s_nextLock w" for due and w :: "'a SState_scheme"
    by (induction due arbitrary: w) auto
  moreover have "s_running (markQueued due s) = s_running s \<and> s_appLocks (markQueued due s) = s_appLocks s \<and> s_nextLock (markQueued due s) = s_nextLock s" for due
    unfolding markQueued_def by (induction due arbitrary: s) auto
  ultimately show "s_running (enqueueDueApps cap now clock names s) = s_running s" "s_appLocks (enqueueDueApps cap now clock names s) = s_appLocks s"
    "s_nextLock (enqueueDueApps cap now clock names s) = s_nextLock s"
    by (simp_all add: enqueueDueApps_def Let_def)
qed

lemma enqueueDueApps_queue:
  assumes "distinct names"
  shows "\<exists>taken. s_workQueue (enqueueDueApps cap now clock names s) = s_workQueue s @ taken
      \<and> (\<forall>n \<in> set taken. \<not> isQueued s n) \<and> length taken \<le> cap - length (s_workQueue s)"
    and "isQueued s n \<Longrightarrow> isQueued (enqueueDueApps cap now clock names s) n"
proof -
  let ?due = "filter (isDue now s) names"
  have d: "distinct ?due" using assms by simp
  note f = fold_enqueueOrRetry [OF d, where cap = cap and clock = clock and s = "markQueued ?due s"]
  show "\<exists>taken. s_workQueue (enqueueDueApps cap now clock names s) = s_workQueue s @ taken
      \<and> (\<forall>n \<in> set taken. \<not> isQueued s n) \<and> length taken \<le> cap - length (s_workQueue s)"
    using f(1) by (intro exI [of _ "take (cap - length (s_workQueue s)) ?due"])
      (auto simp: enqueueDueApps_def Let_def isDue_def dest!: in_set_takeD)
  show "isQueued (enqueueDueApps cap now clock names s) n" if "isQueued s n"
    using that f(2) [of n] by (auto simp: enqueueDueApps_def Let_def isDue_def isQueued_def dest!: in_set_dropD)
qed

lemma getAppLock_spec:
  assumes "getAppLock n s = (m, s')"
  shows "map_of (s_appLocks s') n = Some m" "map_of (s_appLocks s) n = Some l \<Longrightarrow> m = l" "k \<noteq> n \<Longrightarrow> map_of (s_appLocks s') k = map_of (s_appLocks s) k"
    "s_running s' = s_running s" "s_workQueue s' = s_workQueue s" "s_queued s' = s_queued s"
  using assms by (auto simp: getAppLock_def split: option.splits)

lemma reschedule_work [simp]:
  "s_running (reschedule env cfg n s) = s_running s" "s_appLocks (reschedule env cfg n s) = s_appLocks s"
  "s_workQueue (reschedule env cfg n s) = s_workQueue s"
  "map_of (s_queued (reschedule env cfg n s)) m = (if m = n then None else map_of (s_queued s) m)"
proof -
  have "sameWork s (snd (getAppPollInterval env cfg n s))"
  proof -
    have "sameWork s w" if "GetApplication env n s = (x, w)" for x w
      by (rule sameWork_World) (metis snd_conv store_more(1) that)
    then show ?thesis by (auto simp: getAppPollInterval_def Let_def split: prod.split sum.split option.split)
  qed
  then show "s_running (reschedule env cfg n s) = s_running s" "s_appLocks (reschedule env cfg n s) = s_appLocks s"
    "s_workQueue (reschedule env cfg n s) = s_workQueue s"
    "map_of (s_queued (reschedule env cfg n s)) m = (if m = n then None else map_of (s_queued s) m)"
    by (auto simp: reschedule_def sameWork_def split: prod.split)
qed

lemma operations_sameWork [simp]:
  "sameWork s (snd (reconcileApp env deps n forced s))" "sameWork s (snd (Rollback env deps n sha s))"
  "sameWork s (TriggerReconcile n s)" "sameWork s (SetPollOverride d s)" "sameWork s (retentionTick env s)"
proof -
  show "sameWork s (snd (reconcileApp env deps n forced s))" by (rule sameWork_more) simp
  show "sameWork s (snd (Rollback env deps n sha s))" by (rule sameWork_more) simp
  show "sameWork s (retentionTick env s)"
    by (rule sameWork_World) (simp add: retentionTick_def PruneSyncHistory_def PruneOldEvents_def Let_def)
qed (simp_all add: sameWork_def TriggerReconcile_def SetPollOverride_def)

section \<open>Mutual exclusion\<close>

definition exclusive :: "string \<Rightarrow> 's SState_scheme \<Rightarrow> bool" where
  "exclusive n s \<longleftrightarrow> distinct (map j_lock (s_running s))
     \<and> (\<forall>j \<in> set (s_running s). j_app j = n \<longrightarrow> map_of (s_appLocks s) n = Some (j_lock j))"

lemma exclusive_sameWork: "exclusive n s \<Longrightarrow> sameWork s s' \<Longrightarrow> exclusive n s'"
  by (simp add: exclusive_def sameWork_def)

lemma exclusive_start:
  assumes "exclusive n s" and "getAppLock k s = (m, s1)" and "\<not> held s1 m"
  shows "exclusive n (s1\<lparr>s_running := s_running s1 @ [\<lparr>j_app = k, j_lock = m, j_forced = b\<rparr>]\<rparr>)"
  using assms getAppLock_spec [OF assms(2)] by (cases "k = n") (auto simp: exclusive_def held_def)

lemma exclusive_getAppLock:
  assumes "exclusive n s" and "getAppLock k s = (m, s1)"
  shows "exclusive n s1"
  using assms getAppLock_spec [OF assms(2)] by (cases "k = n") (auto simp: exclusive_def)

lemma exclusive_remove1: "exclusive n s \<Longrightarrow> exclusive n (s\<lparr>s_running := remove1 j (s_running s)\<rparr>)"
  by (auto simp: exclusive_def distinct_map intro: inj_on_subset)

lemma exclusive_queue [simp]: "exclusive n (s\<lparr>s_workQueue := q\<rparr>) = exclusive n s"
  by (simp add: exclusive_def)

lemma exclusive_step:
  assumes "sched_step env cfg fs s l s'" and "exclusive n s" and "\<not> removes n l"
  shows "exclusive n s'"
  using assms
proof cases
  case (triggered m rest s1 now names now' clock)
  then show ?thesis using assms(2) by (simp add: exclusive_def AddApp_def)
next
  case (timer diskOrder storeOrder s1 names now' clock)
  have w: "syncedWork s s1" unfolding timer(5) by (rule syncConfigManifests_work)
  then have "map_of (s_appLocks s1) n = map_of (s_appLocks s) n" using timer(1) assms(3) by (auto simp: syncedWork_def)
  then show ?thesis using timer(2) assms(2) w by (auto simp: exclusive_def syncedWork_def)
next
  case (take m q)
  obtain k s1 where g: "getAppLock m (s\<lparr>s_workQueue := q\<rparr>) = (k, s1)" by force
  show ?thesis
    using take exclusive_start [OF _ g] exclusive_getAppLock [OF _ g] assms(2) by (simp add: workerTake_def g)
next
  case (finish j)
  have "exclusive n (snd (reconcileApp env (sd_deps cfg) (j_app j) False s))"
    using assms(2) by (rule exclusive_sameWork) simp
  from exclusive_remove1 [OF this, of j] show ?thesis unfolding finish by (simp add: workerDone_def Let_def exclusive_def)
next
  case (call m)
  obtain k s1 where g: "getAppLock m s = (k, s1)" by force
  show ?thesis using call exclusive_start [OF assms(2) g] by (auto simp: lockedStart_def g split: if_splits)
next
  case (called j)
  have "exclusive n (snd (reconcileApp env (sd_deps cfg) (j_app j) True s))"
    using assms(2) by (rule exclusive_sameWork) simp
  from exclusive_remove1 [OF this] show ?thesis unfolding called by (simp add: ReconcileNowDone_def Let_def)
next
  case (rolled_back j sha)
  have "exclusive n (snd (Rollback env (sd_deps cfg) (j_app j) sha s))"
    using assms(2) by (rule exclusive_sameWork) simp
  from exclusive_remove1 [OF this] show ?thesis unfolding rolled_back by (simp add: RollbackDone_def Let_def)
next
  case (remove m)
  then show ?thesis using assms(2,3) by (simp add: exclusive_def RemoveApp_def)
next
  case store_call
  then show ?thesis using assms(2) exclusive_sameWork sameWork_World by metis
qed (use assms(2) in \<open>simp_all add: exclusive_sameWork\<close>)

lemma exclusive_run:
  assumes "schedRun env cfg fs s ls s'" and "exclusive n s" and "\<not> list_ex (removes n) ls"
  shows "exclusive n s'"
  using assms by (induction rule: schedRun.induct) (auto intro: exclusive_step)

text \<open>
  C11: As long as an application is not removed, at most one reconciliation, rollback or requested sync
  of it runs at a time, in every interleaving of the scheduler, the workers and the callers.
\<close>

theorem reconciliations_exclusive:
  assumes "schedRun env cfg fs s ls s'" and "s_running s = []" and "\<not> list_ex (removes n) ls"
  shows "length (filter (\<lambda>j. j_app j = n) (s_running s')) \<le> 1"
proof -
  have x: "exclusive n s'" using exclusive_run [OF assms(1) _ assms(3)] assms(2) by (simp add: exclusive_def)
  then have "distinct (map j_lock (filter (\<lambda>j. j_app j = n) (s_running s')))" by (simp add: exclusive_def distinct_map_filter)
  moreover obtain m where "\<forall>j \<in> set (filter (\<lambda>j. j_app j = n) (s_running s')). j_lock j = m"
    using x by (cases "map_of (s_appLocks s') n") (fastforce simp: exclusive_def)+
  ultimately show ?thesis
    by (cases "filter (\<lambda>j. j_app j = n) (s_running s')" rule: remdups_adj.cases) auto
qed

section \<open>Skipped work\<close>

text \<open>Marked as queued, but neither in the work queue nor in the hands of a worker.\<close>

definition stuck :: "string \<Rightarrow> 's SState_scheme \<Rightarrow> bool" where
  "stuck n s \<longleftrightarrow> isQueued s n \<and> n \<notin> set (s_workQueue s) \<and> (\<forall>j \<in> set (s_running s). j_app j = n \<longrightarrow> j_forced j)"

lemma stuck_sameWork: "stuck n s \<Longrightarrow> sameWork s s' \<Longrightarrow> stuck n s'"
  by (simp add: stuck_def sameWork_def isQueued_def)

lemma stuck_enqueue:
  assumes "stuck n s" and "distinct names"
  shows "stuck n (enqueueDueApps cap now clock names s)"
  using assms(1) enqueueDueApps_queue(1) [OF assms(2), where cap = cap and now = now and clock = clock and s = s]
    enqueueDueApps_queue(2) [OF assms(2), where cap = cap and now = now and clock = clock and s = s and n = n]
  by (auto simp: stuck_def)

lemma stuck_remove1: "stuck n s \<Longrightarrow> stuck n (s\<lparr>s_running := remove1 j (s_running s)\<rparr>)"
  by (auto simp: stuck_def isQueued_def dest: notin_set_remove1)

lemma stuck_step:
  assumes "sched_step env cfg fs s l s'" and "stuck n s" and "\<not> removes n l"
  shows "stuck n s' \<and> l \<noteq> Take n"
  using assms
proof cases
  case (triggered m rest s1 now names now' clock)
  have "stuck n s1" using assms(2) unfolding triggered(4) by (simp add: stuck_def isQueued_def AddApp_def)
  then show ?thesis using triggered(1,2,5) by (simp add: stuck_enqueue)
next
  case (timer diskOrder storeOrder s1 names now' clock)
  have w: "syncedWork s s1" unfolding timer(5) by (rule syncConfigManifests_work)
  then have "map_of (s_queued s1) n = map_of (s_queued s) n" using timer(1) assms(3) by (auto simp: syncedWork_def)
  then have "stuck n s1" using assms(2) w by (simp add: stuck_def syncedWork_def isQueued_def)
  then show ?thesis using timer(1,2,6) by (simp add: stuck_enqueue)
next
  case (take m q)
  have m: "m \<noteq> n" using assms(2) take(3) by (auto simp: stuck_def)
  obtain k s1 where g: "getAppLock m (s\<lparr>s_workQueue := q\<rparr>) = (k, s1)" by force
  show ?thesis
    using take assms(2) m getAppLock_spec(4-6) [OF g] by (auto simp: workerTake_def g stuck_def isQueued_def)
next
  case (finish j)
  have m: "j_app j \<noteq> n" using assms(2) finish by (auto simp: stuck_def)
  have "stuck n (snd (reconcileApp env (sd_deps cfg) (j_app j) False s))" using assms(2) by (rule stuck_sameWork) simp
  from stuck_remove1 [OF this, of j] m show ?thesis unfolding finish by (simp add: workerDone_def Let_def stuck_def isQueued_def)
next
  case (call m)
  obtain k s1 where g: "getAppLock m s = (k, s1)" by force
  show ?thesis
    using call assms(2) getAppLock_spec(4-6) [OF g] by (auto simp: lockedStart_def g stuck_def isQueued_def split: if_splits)
next
  case (called j)
  have "stuck n (snd (reconcileApp env (sd_deps cfg) (j_app j) True s))" using assms(2) by (rule stuck_sameWork) simp
  from stuck_remove1 [OF this] show ?thesis unfolding called by (simp add: ReconcileNowDone_def Let_def)
next
  case (rolled_back j sha)
  have "stuck n (snd (Rollback env (sd_deps cfg) (j_app j) sha s))" using assms(2) by (rule stuck_sameWork) simp
  from stuck_remove1 [OF this] show ?thesis unfolding rolled_back by (simp add: RollbackDone_def Let_def)
next
  case (add m)
  then show ?thesis using assms(2) by (simp add: stuck_def isQueued_def AddApp_def)
next
  case (remove m)
  then show ?thesis using assms(2,3) by (simp add: stuck_def isQueued_def RemoveApp_def)
next
  case store_call
  then show ?thesis using stuck_sameWork [OF assms(2) sameWork_World [OF store_call(2) [symmetric]]] by simp
qed (use assms(2) in \<open>simp_all add: stuck_sameWork\<close>)

text \<open>
  When a worker finds the lock of an application taken, it drops the work item and leaves the
  application marked as queued. From then on no worker ever takes that application again, whatever is
  triggered, added or requested, until it is removed: it is never polled again.
\<close>

theorem skipped_app_is_never_polled:
  assumes "s_workQueue s = n # q" and "n \<notin> set q" and "isQueued s n" and "\<forall>j \<in> set (s_running s). j_app j = n \<longrightarrow> j_forced j"
    and "\<exists>m. map_of (s_appLocks s) n = Some m \<and> held s m"
    and "schedRun env cfg fs (workerTake n (s\<lparr>s_workQueue := q\<rparr>)) ls s'" and "\<not> list_ex (removes n) ls"
  shows "Take n \<notin> set ls \<and> isQueued s' n \<and> n \<notin> set (s_workQueue s')"
proof -
  have "workerTake n (s\<lparr>s_workQueue := q\<rparr>) = s\<lparr>s_workQueue := q\<rparr>"
    using assms(5) by (auto simp: workerTake_def getAppLock_def held_def)
  then have "stuck n (workerTake n (s\<lparr>s_workQueue := q\<rparr>))"
    using assms(2-4) by (simp add: stuck_def isQueued_def)
  from assms(6,7) this have "stuck n s' \<and> Take n \<notin> set ls"
  proof (induction rule: schedRun.induct)
    case (run_snoc ls s1 l s2)
    then show ?case using stuck_step [of env cfg fs s1 l s2 n] by auto
  qed simp
  then show ?thesis by (simp add: stuck_def)
qed

definition contendedState :: SState where
  "contendedState = (demoSched [(''web'', 0)])\<lparr>s_queued := [(''web'', True)], s_workQueue := [''web''], s_appLocks := [(''web'', 0)],
     s_nextLock := 1, s_running := [\<lparr>j_app = ''web'', j_lock = 0, j_forced = True\<rparr>]\<rparr>"

text \<open>The situation arises in a fresh process: a trigger queues the application, and a requested sync starts before the worker.\<close>

lemma contended_reachable:
  "schedRun env (configDeps env []) fs (demoSched [(''web'', 0)]) [Trigger ''web'', Triggered, CallNow ''web''] contendedState"
proof -
  let ?s0 = "demoSched [(''web'', 0)]"
  let ?s1 = "TriggerReconcile ''web'' ?s0"
  let ?a = "AddApp 0 ''web'' (?s1\<lparr>s_trigger := []\<rparr>)"
  let ?s2 = "enqueueDueApps (queueCap (configDeps env [])) 0 (\<lambda>n. 0) [''web''] ?a"
  have "sched_step env (configDeps env []) fs ?s0 (Trigger ''web'') ?s1" by (rule sched_step.trigger)
  moreover have "sched_step env (configDeps env []) fs ?s1 Triggered ?s2"
    by (rule sched_step.triggered [where n = "''web''" and rest = "[]"]) (simp_all add: TriggerReconcile_def demoSched_def triggerCap_def AddApp_def)
  moreover have "?s2 = (demoSched [(''web'', 0)])\<lparr>s_queued := [(''web'', True)], s_workQueue := [''web'']\<rparr>"
    by (simp add: enqueueDueApps_def isDue_def isQueued_def markQueued_def enqueueOrRetry_def enqueue_def queueCap_def workerCount_def
        configDeps_def AddApp_def TriggerReconcile_def demoSched_def triggerCap_def)
  moreover have "sched_step env (configDeps env []) fs ((demoSched [(''web'', 0)])\<lparr>s_queued := [(''web'', True)], s_workQueue := [''web'']\<rparr>) (CallNow ''web'') contendedState"
    by (rule sched_step.call) (simp add: lockedStart_def getAppLock_def held_def contendedState_def demoSched_def)
  ultimately show ?thesis by (auto intro!: run_nil run_cons [rotated])
qed

theorem skipped_app_is_never_polled_witness:
  "\<exists>s'. schedRun siteEnv (configDeps siteEnv []) (configFiles (Inr [])) (workerTake ''web'' (contendedState\<lparr>s_workQueue := []\<rparr>))
      [CallDone ''web'', Add ''web''] s' \<and> isQueued s' ''web'' \<and> ''web'' \<notin> set (s_workQueue s')"
proof -
  let ?cfg = "configDeps siteEnv []" and ?fs = "configFiles (Inr [])" and ?j = "\<lparr>j_app = ''web'', j_lock = 0, j_forced = True\<rparr>"
  let ?s0 = "workerTake ''web'' (contendedState\<lparr>s_workQueue := []\<rparr>)"
  let ?s1 = "ReconcileNowDone siteEnv ?cfg ?j ?s0"
  have "?s0 = contendedState\<lparr>s_workQueue := []\<rparr>" by (simp add: workerTake_def getAppLock_def held_def contendedState_def)
  then have "sched_step siteEnv ?cfg ?fs ?s0 (CallDone (j_app ?j)) ?s1"
    by (intro sched_step.called) (simp_all add: contendedState_def)
  then have r: "schedRun siteEnv ?cfg ?fs ?s0 [CallDone ''web'', Add ''web''] (AddApp 5 ''web'' ?s1)"
    by (intro run_cons [OF run_cons [OF run_nil sched_step.add]]) simp
  show ?thesis
    by (rule exI, rule conjI, rule r, rule conjunct2 [OF skipped_app_is_never_polled [OF _ _ _ _ _ r]])
      (simp_all add: contendedState_def isQueued_def held_def)
qed

theorem reconciliations_exclusive_witness:
  "\<exists>s'. schedRun siteEnv (configDeps siteEnv []) (configFiles (Inr [])) (demoSched [(''web'', 0)]) [Trigger ''web'', Triggered, CallNow ''web''] s'
     \<and> s_running s' \<noteq> [] \<and> length (filter (\<lambda>j. j_app j = ''web'') (s_running s')) \<le> 1"
  using reconciliations_exclusive [OF contended_reachable [of siteEnv "configFiles (Inr [])"], of "''web''"] contended_reachable [of siteEnv "configFiles (Inr [])"]
  by (intro exI [of _ contendedState]) (simp add: contendedState_def demoSched_def)

text \<open>
  Removing an application discards its mutex even while it is held: a requested sync, the removal
  and re-registration of the application, and a second requested sync end in a state where two
  reconciliations of the same application run at the same time.
\<close>

theorem removal_breaks_exclusion:
  "\<exists>s'. schedRun env cfg fs (demoSched []) [CallNow n, Remove n, Add n, CallNow n] s'
     \<and> length (filter (\<lambda>j. j_app j = n) (s_running s')) = 2"
proof -
  let ?s1 = "(demoSched [])\<lparr>s_appLocks := [(n, 0)], s_nextLock := 1, s_running := [\<lparr>j_app = n, j_lock = 0, j_forced = True\<rparr>]\<rparr>"
  let ?s3 = "AddApp 1 n (RemoveApp n ?s1)"
  let ?s4 = "?s3\<lparr>s_appLocks := [(n, 1)], s_nextLock := 2, s_running := s_running ?s3 @ [\<lparr>j_app = n, j_lock = 1, j_forced = True\<rparr>]\<rparr>"
  have "sched_step env cfg fs (demoSched []) (CallNow n) ?s1"
    by (rule sched_step.call) (simp add: lockedStart_def getAppLock_def held_def demoSched_def)
  moreover have "sched_step env cfg fs ?s3 (CallNow n) ?s4"
    by (rule sched_step.call) (simp add: lockedStart_def getAppLock_def held_def demoSched_def AddApp_def RemoveApp_def)
  ultimately have "schedRun env cfg fs (demoSched []) [CallNow n, Remove n, Add n, CallNow n] ?s4"
    by (auto intro!: run_nil sched_step.remove sched_step.add run_cons [rotated])
  moreover have "length (filter (\<lambda>j. j_app j = n) (s_running ?s4)) = 2" by (simp add: AddApp_def RemoveApp_def demoSched_def)
  ultimately show ?thesis by blast
qed

end
