(* ===== verification/Substitute.thy ===== *)
theory Substitute
  imports App_Types
begin

text \<open>
  Variable substitution and \<^verbatim>\<open>.env\<close> files (\<^verbatim>\<open>parser/substitute.go\<close>). The process environment is a
  parameter \<open>lookupEnv\<close>, as \<^verbatim>\<open>os.LookupEnv\<close> answers it; \<^verbatim>\<open>os.Getenv\<close> is the empty string for a variable
  that is not set.
\<close>

section \<open>Lookup\<close>

definition Getenv :: "(string \<Rightarrow> string option) \<Rightarrow> string \<Rightarrow> string" where
  "Getenv lookupEnv name = (case lookupEnv name of None \<Rightarrow> [] | Some v \<Rightarrow> v)"

definition lookupVar :: "(string \<Rightarrow> string option) \<Rightarrow> string gomap \<Rightarrow> string \<Rightarrow> string" where
  "lookupVar lookupEnv vars name = (case map_of vars name of Some val \<Rightarrow> val | None \<Rightarrow> Getenv lookupEnv name)"

definition isVarNameChar :: "char \<Rightarrow> bool" where
  "isVarNameChar c = ((CHR ''A'' \<le> c \<and> c \<le> CHR ''Z'') \<or> (CHR ''a'' \<le> c \<and> c \<le> CHR ''z'') \<or> (CHR ''0'' \<le> c \<and> c \<le> CHR ''9'') \<or> c = CHR ''_'')"

definition resolveExpr :: "(string \<Rightarrow> string option) \<Rightarrow> string gomap \<Rightarrow> string \<Rightarrow> string" where
  "resolveExpr lookupEnv vars expr =
     (case cutSub '':?'' expr of
        Some (varName, errMsg) \<Rightarrow>
          (let val = lookupVar lookupEnv vars varName
           in if val = [] then ''${'' @ varName @ '':?'' @ errMsg @ ''}'' else val)
      | None \<Rightarrow>
          (case cutSub '':-'' expr of
             Some (varName, defaultVal) \<Rightarrow>
               (let val = lookupVar lookupEnv vars varName in if val = [] then defaultVal else val)
           | None \<Rightarrow>
               (case cut CHR ''-'' expr of
                  Some (varName, defaultVal) \<Rightarrow>
                    (case map_of vars varName of
                       Some v \<Rightarrow> v
                     | None \<Rightarrow> (case lookupEnv varName of Some v \<Rightarrow> v | None \<Rightarrow> defaultVal))
                | None \<Rightarrow> lookupVar lookupEnv vars expr)))"

section \<open>Substitution\<close>

text \<open>The loop over the index \<^verbatim>\<open>i\<close>, as a recursion over the rest of the string from \<^verbatim>\<open>i\<close>.\<close>

lemma cut_shorter: "cut c s = Some (a, b) \<Longrightarrow> length b < length s"
  by (induction c s arbitrary: a b rule: cut.induct) (auto split: if_splits option.splits)

function (sequential) substituteVars :: "(string \<Rightarrow> string option) \<Rightarrow> string gomap \<Rightarrow> string \<Rightarrow> string" where
  "substituteVars lookupEnv vars [] = []"
| "substituteVars lookupEnv vars [c] = [c]"
| "substituteVars lookupEnv vars (c # d # rest) =
     (if c \<noteq> CHR ''$'' then c # substituteVars lookupEnv vars (d # rest)
      else if d = CHR ''{'' then
        (case cut CHR ''}'' rest of
           None \<Rightarrow> c # substituteVars lookupEnv vars (d # rest)
         | Some (expr, rest') \<Rightarrow> resolveExpr lookupEnv vars expr @ substituteVars lookupEnv vars rest')
      else if isVarNameChar d then
        lookupVar lookupEnv vars (takeWhile isVarNameChar (d # rest)) @ substituteVars lookupEnv vars (dropWhile isVarNameChar (d # rest))
      else c # substituteVars lookupEnv vars (d # rest))"
  by pat_completeness auto
termination
  by (relation "measure (\<lambda>(_, _, s). length s)") (auto dest: cut_shorter simp: le_imp_less_Suc length_dropWhile_le le_SucI)

section \<open>Env files\<close>

definition splitEnvVar :: "string \<Rightarrow> string \<times> string" where
  "splitEnvVar s = (case cut CHR ''='' s of Some (k, v) \<Rightarrow> (k, v) | None \<Rightarrow> (s, []))"

definition stripQuotes :: "string \<Rightarrow> string" where
  "stripQuotes s =
     (if length s \<ge> 2 \<and> (hd s = CHR 0x22 \<and> last s = CHR 0x22 \<or> hd s = CHR 0x27 \<and> last s = CHR 0x27)
      then butlast (tl s) else s)"

text \<open>A file that cannot be opened has no lines; the scanner yields the lines without their ends.\<close>

definition dotEnvLine :: "string \<Rightarrow> (string \<times> string) option" where
  "dotEnvLine text =
     (let line = TrimSpace text
      in if line = [] \<or> hd line = CHR ''#'' then None
         else case splitEnvVar line of (key, value) \<Rightarrow> if key = [] then None else Some (key, stripQuotes value))"

definition loadDotEnv :: "string list option \<Rightarrow> string gomap" where
  "loadDotEnv file =
     (case file of
        None \<Rightarrow> []
      | Some lines \<Rightarrow> fold (\<lambda>text result. case dotEnvLine text of None \<Rightarrow> result | Some (key, value) \<Rightarrow> AList.update key value result) lines [])"

section \<open>The grammar of a template\<close>

text \<open>
  A template is a sequence of literal text, \<^verbatim>\<open>${expr}\<close>, \<^verbatim>\<open>$name\<close>, and dollar signs that start neither.
  The specification of substitution is the value of each piece.
\<close>

datatype Chunk = Lit string | Braced string | Bare string | Dollar

fun printChunk :: "Chunk \<Rightarrow> string" where
  "printChunk (Lit s) = s"
| "printChunk (Braced e) = ''${'' @ e @ ''}''"
| "printChunk (Bare n) = CHR ''$'' # n"
| "printChunk Dollar = ''$''"

fun chunkValue :: "(string \<Rightarrow> string option) \<Rightarrow> string gomap \<Rightarrow> Chunk \<Rightarrow> string" where
  "chunkValue lookupEnv vars (Lit s) = s"
| "chunkValue lookupEnv vars (Braced e) = resolveExpr lookupEnv vars e"
| "chunkValue lookupEnv vars (Bare n) = lookupVar lookupEnv vars n"
| "chunkValue lookupEnv vars Dollar = ''$''"

definition printChunks :: "Chunk list \<Rightarrow> string" where
  "printChunks cs = concat (map printChunk cs)"

fun startsVar :: "string \<Rightarrow> bool" where
  "startsVar [] = False"
| "startsVar (c # s) = isVarNameChar c"

fun wfChunks :: "Chunk list \<Rightarrow> bool" where
  "wfChunks [] = True"
| "wfChunks (Lit s # cs) = (CHR ''$'' \<notin> set s \<and> wfChunks cs)"
| "wfChunks (Braced e # cs) = (CHR ''}'' \<notin> set e \<and> wfChunks cs)"
| "wfChunks (Bare n # cs) = (n \<noteq> [] \<and> list_all isVarNameChar n \<and> \<not> startsVar (printChunks cs) \<and> wfChunks cs)"
| "wfChunks (Dollar # cs) = (\<not> startsVar (printChunks cs)
     \<and> (case printChunks cs of [] \<Rightarrow> True | c # s \<Rightarrow> c \<noteq> CHR ''{'' \<or> CHR ''}'' \<notin> set s) \<and> wfChunks cs)"

lemma printChunks_simps [simp]: "printChunks [] = []" "printChunks (c # cs) = printChunk c @ printChunks cs"
  by (simp_all add: printChunks_def)

lemma substituteVars_char [simp]: "c \<noteq> CHR ''$'' \<Longrightarrow> substituteVars lookupEnv vars (c # s) = c # substituteVars lookupEnv vars s"
  by (cases s) simp_all

lemma substituteVars_lit: "CHR ''$'' \<notin> set s \<Longrightarrow> substituteVars lookupEnv vars (s @ t) = s @ substituteVars lookupEnv vars t"
  by (induction s) auto

lemma substituteVars_braced:
  "CHR ''}'' \<notin> set e \<Longrightarrow> substituteVars lookupEnv vars (''${'' @ e @ ''}'' @ t) = resolveExpr lookupEnv vars e @ substituteVars lookupEnv vars t"
  by simp

lemma not_var_brace [simp]: "\<not> isVarNameChar CHR ''{''"
  by (simp add: isVarNameChar_def)

lemma takeWhile_name:
  assumes "list_all P n" and "\<not> (case t of [] \<Rightarrow> False | c # s \<Rightarrow> P c)"
  shows "takeWhile P (n @ t) = n" "dropWhile P (n @ t) = t"
  using assms by (induction n) (auto split: list.splits)

lemma substituteVars_bare:
  assumes "n \<noteq> []" "list_all isVarNameChar n" "\<not> startsVar t"
  shows "substituteVars lookupEnv vars (CHR ''$'' # n @ t) = lookupVar lookupEnv vars n @ substituteVars lookupEnv vars t"
proof -
  obtain d m where n: "n = d # m" using assms(1) by (cases n) auto
  have "\<not> (case t of [] \<Rightarrow> False | c # s \<Rightarrow> isVarNameChar c)" using assms(3) by (cases t) auto
  note w = takeWhile_name [OF assms(2) this]
  have "d \<noteq> CHR ''{''" "isVarNameChar d" using assms(2) n by auto
  then show ?thesis using w by (simp add: n)
qed

lemma substituteVars_dollar:
  assumes "\<not> startsVar t" "case t of [] \<Rightarrow> True | c # s \<Rightarrow> c \<noteq> CHR ''{'' \<or> CHR ''}'' \<notin> set s"
  shows "substituteVars lookupEnv vars (CHR ''$'' # t) = CHR ''$'' # substituteVars lookupEnv vars t"
  using assms by (cases t) (auto simp: cut_None [THEN iffD2])

lemma substituteVars_printChunks:
  "wfChunks cs \<Longrightarrow> substituteVars lookupEnv vars (printChunks cs) = concat (map (chunkValue lookupEnv vars) cs)"
  by (induction cs rule: wfChunks.induct)
    (simp_all add: substituteVars_lit substituteVars_bare substituteVars_dollar del: substituteVars.simps(3), simp)

lemma template_exists: "\<exists>cs. wfChunks cs \<and> printChunks cs = s"
proof (induction s rule: length_induct)
  case (1 s)
  then have IH: "length t < length s \<Longrightarrow> \<exists>cs. wfChunks cs \<and> printChunks cs = t" for t by blast
  show ?case
  proof (cases s)
    case Nil
    then show ?thesis by (intro exI [of _ "[]"]) simp
  next
    case (Cons c t)
    consider (literal) "c \<noteq> CHR ''$''" | (bare) "c = CHR ''$''" "startsVar t"
      | (braced) u where "c = CHR ''$''" "t = CHR ''{'' # u" "CHR ''}'' \<in> set u"
      | (dollar) "c = CHR ''$''" "\<not> startsVar t" "case t of [] \<Rightarrow> True | c # s \<Rightarrow> c \<noteq> CHR ''{'' \<or> CHR ''}'' \<notin> set s"
      by (cases t) auto
    then show ?thesis
    proof cases
      case literal
      from IH [of t] Cons obtain cs where "wfChunks cs" "printChunks cs = t" by auto
      with literal Cons show ?thesis by (intro exI [of _ "Lit [c] # cs"]) simp
    next
      case bare
      let ?n = "takeWhile isVarNameChar t" and ?r = "dropWhile isVarNameChar t"
      from IH [of ?r] Cons obtain cs where cs: "wfChunks cs" "printChunks cs = ?r" by (auto simp: length_dropWhile_le le_imp_less_Suc)
      have "?n \<noteq> []" using bare(2) by (cases t) auto
      moreover have "list_all isVarNameChar ?n" by (auto simp: list_all_iff dest: set_takeWhileD)
      moreover have "\<not> startsVar ?r" by (induction t) auto
      ultimately show ?thesis using cs bare Cons by (intro exI [of _ "Bare ?n # cs"]) simp
    next
      case (braced u)
      then obtain e r where e: "cut CHR ''}'' u = Some (e, r)" using cut_None [of "CHR ''}''" u] by (cases "cut CHR ''}'' u") auto
      then have u: "u = e @ CHR ''}'' # r" "CHR ''}'' \<notin> set e" by (simp_all add: cut_Some)
      from IH [of r] Cons braced u obtain cs where "wfChunks cs" "printChunks cs = r" by auto
      with u braced Cons show ?thesis by (intro exI [of _ "Braced e # cs"]) simp
    next
      case dollar
      from IH [of t] Cons obtain cs where "wfChunks cs" "printChunks cs = t" by auto
      with dollar Cons show ?thesis by (intro exI [of _ "Dollar # cs"]) simp
    qed
  qed
qed



text \<open>
  The three operators are recognised anywhere in the expression, in a fixed order: a default that
  contains \<^verbatim>\<open>:?\<close> turns the default into a part of the variable's name and of the message.
\<close>

lemma resolveExpr_marker_in_default:
  assumes "cutSub '':?'' d = Some (a, b)" and "CHR '':'' \<notin> set v" and "lookupVar lookupEnv vars (v @ '':-'' @ a) = []"
  shows "resolveExpr lookupEnv vars (v @ '':-'' @ d) = ''${'' @ v @ '':-'' @ d @ ''}''"
proof -
  have "cutSub '':?'' ('':-'' @ d) = Some ('':-'' @ a, b)" using assms(1) by (simp add: HasPrefix_def)
  then have "cutSub '':?'' (v @ '':-'' @ d) = Some (v @ '':-'' @ a, b)"
    using assms(2) by (induction v) (auto simp: HasPrefix_def)
  moreover have "d = a @ '':?'' @ b" by (rule cutSub_Some [OF assms(1)])
  ultimately show ?thesis using assms(3) by (simp add: resolveExpr_def)
qed

end
