(* ===== verification/Parser.thy ===== *)
theory Parser
  imports Substitute Manifest
begin

text \<open>
  Compose files (\<^verbatim>\<open>parser/parser.go\<close>, \<^verbatim>\<open>parser/merge.go\<close>): the raw structure, the merge of override files,
  the conversion to the model of the differ, and \<^verbatim>\<open>Parse\<close> itself. Reading and decoding a file, and the
  secrets provider, are parameters. An \<^verbatim>\<open>interface{}\<close> field is a \<open>yval\<close>; scalars other than booleans,
  integers and strings carry the text \<^verbatim>\<open>%v\<close> prints for them.
\<close>

section \<open>Raw values\<close>

datatype yval = YNull | YBool bool | YInt int | YStr string | YScalar string | YList "yval list" | YMap "(string \<times> yval) list"

text \<open>\<^verbatim>\<open>fmt.Sprintf("%v", v)\<close>; the keys of a map are printed in order.\<close>

definition intText :: "int \<Rightarrow> string" where
  "intText i = (if i < 0 then CHR ''-'' # Itoa (nat (- i)) else Itoa (nat i))"

fun sprintv :: "yval \<Rightarrow> string" and sprintvs :: "yval list \<Rightarrow> string list" and sprintkvs :: "(string \<times> yval) list \<Rightarrow> (string \<times> string) list" where
  "sprintv YNull = ''<nil>''"
| "sprintv (YBool b) = (if b then ''true'' else ''false'')"
| "sprintv (YInt i) = intText i"
| "sprintv (YStr s) = s"
| "sprintv (YScalar s) = s"
| "sprintv (YList vs) = ''['' @ Join (sprintvs vs) '' '' @ '']''"
| "sprintv (YMap m) = ''map['' @ Join (map snd (sort_key fst (sprintkvs m))) '' '' @ '']''"
| "sprintvs [] = []"
| "sprintvs (v # vs) = sprintv v # sprintvs vs"
| "sprintkvs [] = []"
| "sprintkvs ((k, v) # m) = (k, k @ '':'' @ sprintv v) # sprintkvs m"

record rawHealthcheck =
  rh_Test :: yval
  rh_Interval :: string
  rh_Timeout :: string
  rh_Retries :: int
  rh_StartPeriod :: string

text \<open>A nil slice differs from an empty one in \<^verbatim>\<open>mergeService\<close>, so \<^verbatim>\<open>Ports\<close> and \<^verbatim>\<open>Volumes\<close> are optional lists.\<close>

record rawService =
  rs_Image :: string
  rs_Environment :: yval
  rs_Ports :: "string list option"
  rs_Volumes :: "string list option"
  rs_Networks :: yval
  rs_Labels :: yval
  rs_Restart :: string
  rs_Healthcheck :: "rawHealthcheck option"
  rs_Command :: yval
  rs_Entrypoint :: yval
  rs_DependsOn :: yval
  rs_ContainerName :: string

record rawNetwork =
  rn_Driver :: string
  rn_External :: yval

record rawCompose =
  rc_Services :: "rawService gomap"
  rc_Networks :: "rawNetwork gomap"
  rc_Volumes :: "rawNetwork gomap"

section \<open>Merging override files\<close>

definition toStringMap :: "yval \<Rightarrow> string gomap" where
  "toStringMap v =
     (case v of
        YMap m \<Rightarrow> fold (\<lambda>(k, v) result. AList.update k (if v = YNull then [] else sprintv v) result) m []
      | YList items \<Rightarrow> fold (\<lambda>item result. case splitEnvVar (sprintv item) of (key, value) \<Rightarrow> AList.update key value result) items []
      | _ \<Rightarrow> [])"

definition mergeMaps :: "yval \<Rightarrow> yval \<Rightarrow> yval" where
  "mergeMaps base override =
     (if override = YNull then base
      else if base = YNull then override
      else YMap (map (\<lambda>(k, v). (k, YStr v)) (fold (\<lambda>(k, v) m. AList.update k v m) (toStringMap override) (toStringMap base))))"

definition toStringSet :: "yval \<Rightarrow> string list" where
  "toStringSet v =
     (case v of
        YList items \<Rightarrow> fold (\<lambda>item result. List.insert (sprintv item) result) items []
      | YMap m \<Rightarrow> fold (\<lambda>(k, v) result. List.insert k result) m []
      | _ \<Rightarrow> [])"

definition mergeListOrMap :: "yval \<Rightarrow> yval \<Rightarrow> yval" where
  "mergeListOrMap base override =
     (if override = YNull then base
      else if base = YNull then override
      else YList (map YStr (fold List.insert (toStringSet override) (toStringSet base))))"

definition appendStringSlices :: "string list option \<Rightarrow> string list \<Rightarrow> string list" where
  "appendStringSlices base override = (case base of None \<Rightarrow> [] | Some b \<Rightarrow> b) @ override"

definition mergeService :: "rawService \<Rightarrow> rawService \<Rightarrow> rawService" where
  "mergeService base override = base\<lparr>
     rs_Image := (if rs_Image override \<noteq> [] then rs_Image override else rs_Image base),
     rs_Restart := (if rs_Restart override \<noteq> [] then rs_Restart override else rs_Restart base),
     rs_ContainerName := (if rs_ContainerName override \<noteq> [] then rs_ContainerName override else rs_ContainerName base),
     rs_Command := (if rs_Command override \<noteq> YNull then rs_Command override else rs_Command base),
     rs_Entrypoint := (if rs_Entrypoint override \<noteq> YNull then rs_Entrypoint override else rs_Entrypoint base),
     rs_Healthcheck := (if rs_Healthcheck override \<noteq> None then rs_Healthcheck override else rs_Healthcheck base),
     rs_Environment := mergeMaps (rs_Environment base) (rs_Environment override),
     rs_Labels := mergeMaps (rs_Labels base) (rs_Labels override),
     rs_Ports := (case rs_Ports override of None \<Rightarrow> rs_Ports base | Some ps \<Rightarrow> Some (appendStringSlices (rs_Ports base) ps)),
     rs_Volumes := (case rs_Volumes override of None \<Rightarrow> rs_Volumes base | Some vs \<Rightarrow> Some (appendStringSlices (rs_Volumes base) vs)),
     rs_Networks := (if rs_Networks override \<noteq> YNull then mergeListOrMap (rs_Networks base) (rs_Networks override) else rs_Networks base),
     rs_DependsOn := (if rs_DependsOn override \<noteq> YNull then mergeListOrMap (rs_DependsOn base) (rs_DependsOn override) else rs_DependsOn base)\<rparr>"

definition overlay :: "'v gomap \<Rightarrow> 'v gomap \<Rightarrow> 'v gomap" where
  "overlay base override = fold (\<lambda>(name, x) m. AList.update name x m) override base"

definition mergeCompose :: "rawCompose \<Rightarrow> rawCompose \<Rightarrow> rawCompose" where
  "mergeCompose base override =
     \<lparr>rc_Services = fold (\<lambda>(name, svc) m. AList.update name
          (case map_of m name of Some baseSvc \<Rightarrow> mergeService baseSvc svc | None \<Rightarrow> svc) m) (rc_Services override) (rc_Services base),
      rc_Networks = overlay (rc_Networks base) (rc_Networks override),
      rc_Volumes = overlay (rc_Volumes base) (rc_Volumes override)\<rparr>"

section \<open>Conversion\<close>

definition parseEnvironment :: "(string \<Rightarrow> string option) \<Rightarrow> string gomap \<Rightarrow> yval \<Rightarrow> string gomap" where
  "parseEnvironment lookupEnv vars env =
     (case env of
        YMap m \<Rightarrow> fold (\<lambda>(key, val) result. AList.update key
            (if val = YNull then [] else substituteVars lookupEnv vars (sprintv val)) result) m []
      | YList items \<Rightarrow> fold (\<lambda>item result. case splitEnvVar (sprintv item) of (key, val) \<Rightarrow>
            AList.update key (substituteVars lookupEnv vars val) result) items []
      | _ \<Rightarrow> [])"

definition parseLabels :: "yval \<Rightarrow> string gomap" where
  "parseLabels labels = toStringMap labels"

definition parseCommand :: "yval \<Rightarrow> string list" where
  "parseCommand cmd =
     (case cmd of
        YStr s \<Rightarrow> if s = [] then [] else [s]
      | YList items \<Rightarrow> map sprintv items
      | _ \<Rightarrow> [])"

definition parseNetworksList :: "yval \<Rightarrow> string list" where
  "parseNetworksList v = (case v of YList items \<Rightarrow> map sprintv items | YMap m \<Rightarrow> map fst m | _ \<Rightarrow> [])"

definition parseDependsOn :: "yval \<Rightarrow> string list" where
  "parseDependsOn v = (case v of YList items \<Rightarrow> map sprintv items | YMap m \<Rightarrow> map fst m | _ \<Rightarrow> [])"

fun splitN :: "nat \<Rightarrow> char \<Rightarrow> string \<Rightarrow> string list" where
  "splitN 0 sep s = [s]"
| "splitN (Suc n) sep s = (if n = 0 then [s] else case cut sep s of None \<Rightarrow> [s] | Some (a, b) \<Rightarrow> a # splitN n sep b)"

definition splitPort :: "string \<Rightarrow> string list" where
  "splitPort s =
     (if s = [] then [[]]
      else if hd s \<noteq> CHR ''['' then splitN 3 CHR '':'' s
      else case cut CHR '']'' s of
             None \<Rightarrow> [s]
           | Some (a, rest) \<Rightarrow>
               (if rest = [] \<or> hd rest \<noteq> CHR '':'' then [s]
                else (a @ '']'') # splitN 2 CHR '':'' (tl rest)))"

definition parsePortString :: "string \<Rightarrow> PortMapping" where
  "parsePortString str =
     (case (case rcut CHR ''/'' str of Some (a, b) \<Rightarrow> (a, b) | None \<Rightarrow> (str, ''tcp'')) of
        (s, protocol) \<Rightarrow>
          (case splitPort s of
             [c] \<Rightarrow> \<lparr>HostPort = [], ContainerPort = c, Protocol = protocol\<rparr>
           | [h, c] \<Rightarrow> \<lparr>HostPort = h, ContainerPort = c, Protocol = protocol\<rparr>
           | [ip, h, c] \<Rightarrow> \<lparr>HostPort = h, ContainerPort = c, Protocol = protocol\<rparr>
           | _ \<Rightarrow> \<lparr>HostPort = [], ContainerPort = s, Protocol = protocol\<rparr>))"

definition parsePorts :: "string list option \<Rightarrow> PortMapping list" where
  "parsePorts ports = (case ports of None \<Rightarrow> [] | Some ps \<Rightarrow> map parsePortString ps)"

definition parseVolumeString :: "string \<Rightarrow> VolumeMount" where
  "parseVolumeString s =
     (case splitN 3 CHR '':'' s of
        [t] \<Rightarrow> \<lparr>vm_Source = [], vm_Target = t, vm_ReadOnly = False\<rparr>
      | [src, t] \<Rightarrow> \<lparr>vm_Source = src, vm_Target = t, vm_ReadOnly = False\<rparr>
      | [src, t, mode] \<Rightarrow> \<lparr>vm_Source = src, vm_Target = t, vm_ReadOnly = (mode = ''ro'')\<rparr>
      | _ \<Rightarrow> \<lparr>vm_Source = [], vm_Target = [], vm_ReadOnly = False\<rparr>)"

definition parseVolumes :: "string list option \<Rightarrow> VolumeMount list" where
  "parseVolumes volumes = (case volumes of None \<Rightarrow> [] | Some vs \<Rightarrow> map parseVolumeString vs)"

definition parseBoolOrMap :: "yval \<Rightarrow> bool" where
  "parseBoolOrMap v = (case v of YBool b \<Rightarrow> b | YMap m \<Rightarrow> True | _ \<Rightarrow> False)"

definition toServiceSpec :: "(string \<Rightarrow> string option) \<Rightarrow> string gomap \<Rightarrow> string \<Rightarrow> rawService \<Rightarrow> ServiceSpec" where
  "toServiceSpec lookupEnv envVars name svc =
     \<lparr>sp_Name = name, sp_Image = substituteVars lookupEnv envVars (rs_Image svc),
      sp_Environment = parseEnvironment lookupEnv envVars (rs_Environment svc), sp_Ports = parsePorts (rs_Ports svc),
      sp_Volumes = parseVolumes (rs_Volumes svc), sp_Networks = parseNetworksList (rs_Networks svc),
      sp_Labels = parseLabels (rs_Labels svc), sp_RestartPolicy = rs_Restart svc,
      sp_Healthcheck = map_option (\<lambda>h. \<lparr>hc_Test = parseCommand (rh_Test h), hc_Interval = rh_Interval h, hc_Timeout = rh_Timeout h,
         hc_Retries = rh_Retries h, hc_StartPeriod = rh_StartPeriod h\<rparr>) (rs_Healthcheck svc),
      sp_Command = parseCommand (rs_Command svc), sp_Entrypoint = parseCommand (rs_Entrypoint svc),
      sp_DependsOn = parseDependsOn (rs_DependsOn svc)\<rparr>"

text \<open>\<open>order\<close> enumerates the services in the order Go iterates the map.\<close>

definition toComposeSpec :: "(string \<Rightarrow> string option) \<Rightarrow> string gomap \<Rightarrow> (string list \<Rightarrow> string list) \<Rightarrow> rawCompose \<Rightarrow> ComposeSpec" where
  "toComposeSpec lookupEnv envVars order raw =
     \<lparr>cs_Services = List.map_filter (\<lambda>name. map_option (toServiceSpec lookupEnv envVars name) (map_of (rc_Services raw) name))
        (order (map fst (rc_Services raw))),
      cs_Networks = map (\<lambda>(name, net). (name, \<lparr>nw_Driver = rn_Driver net, nw_External = parseBoolOrMap (rn_External net)\<rparr>)) (rc_Networks raw),
      cs_Volumes = map (\<lambda>(name, vol). (name, \<lparr>vl_Driver = rn_Driver vol, vl_External = parseBoolOrMap (rn_External vol)\<rparr>)) (rc_Volumes raw)\<rparr>"

text \<open>
  \<^verbatim>\<open>sort.Slice\<close> is not stable; ports that agree on both keys keep their order here, which the differ does
  not distinguish.
\<close>

definition normalizeService :: "ServiceSpec \<Rightarrow> ServiceSpec" where
  "normalizeService s = s\<lparr>sp_Ports := sort_key ContainerPort (sort_key HostPort (sp_Ports s)),
     sp_Networks := sort (sp_Networks s), sp_DependsOn := sort (sp_DependsOn s)\<rparr>"

definition normalize :: "ComposeSpec \<Rightarrow> ComposeSpec" where
  "normalize spec = spec\<lparr>cs_Services := map normalizeService (sort_key sp_Name (cs_Services spec))\<rparr>"

section \<open>Parse\<close>

text \<open>
  The provider decrypts a file or a reference into a map (\<^verbatim>\<open>len\<close> of it is the number of keys). A nil
  provider is \<open>None\<close>. \<open>pf_stat\<close> is whether a file exists, \<open>pf_size\<close> and \<open>pf_yaml\<close> what reading and decoding give.
\<close>

record SecretsProvider =
  canHandle :: "string \<Rightarrow> bool"
  decrypt :: "string \<Rightarrow> string gomap result"

record ParserFiles =
  pf_lines :: "string \<Rightarrow> string list option"
  pf_stat :: "string \<Rightarrow> bool"
  pf_read :: "string \<Rightarrow> string result"
  pf_yaml :: "string \<Rightarrow> rawCompose result"

definition maxComposeFileSize :: nat where
  "maxComposeFileSize = 10485760"

definition parseComposeFile :: "ParserFiles \<Rightarrow> string \<Rightarrow> rawCompose result" where
  "parseComposeFile fs path =
     (case pf_read fs path of
        Inl e \<Rightarrow> Inl (Wrapf ''reading file: %w'' [] e)
      | Inr data \<Rightarrow>
          (if length data > maxComposeFileSize then Inl (Errorf ''compose file %s exceeds maximum size (%d bytes)'' [path, Itoa maxComposeFileSize])
           else case pf_yaml fs data of
                  Inl e \<Rightarrow> Inl (Wrapf ''unmarshaling YAML: %w'' [] e)
                | Inr raw \<Rightarrow> Inr raw))"

fun decryptEnv :: "SecretsProvider \<Rightarrow> ParserFiles \<Rightarrow> string \<Rightarrow> string list \<Rightarrow> string gomap \<Rightarrow> string gomap result" where
  "decryptEnv sp fs repoPath [] envVars = Inr envVars"
| "decryptEnv sp fs repoPath (encExt # exts) envVars =
     (let encPath = filepath_Join repoPath encExt
      in if pf_stat fs encPath \<and> canHandle sp encPath
         then (case decrypt sp encPath of
                 Inl e \<Rightarrow> Inl (Wrapf ''decrypting %s: %w'' [encExt] e)
               | Inr decrypted \<Rightarrow> decryptEnv sp fs repoPath exts (overlay envVars decrypted))
         else decryptEnv sp fs repoPath exts envVars)"

fun mergeFiles :: "ParserFiles \<Rightarrow> string \<Rightarrow> rawCompose \<Rightarrow> string list \<Rightarrow> rawCompose result" where
  "mergeFiles fs repoPath base [] = Inr base"
| "mergeFiles fs repoPath base (f # files) =
     (case parseComposeFile fs (filepath_Join repoPath f) of
        Inl e \<Rightarrow> Inl (Wrapf ''parsing %s: %w'' [f] e)
      | Inr override \<Rightarrow> mergeFiles fs repoPath (mergeCompose base override) files)"

fun resolveRefs :: "SecretsProvider \<Rightarrow> string \<Rightarrow> string gomap \<Rightarrow> string gomap result" where
  "resolveRefs sp service [] = Inr []"
| "resolveRefs sp service ((key, val) # env) =
     (if canHandle sp val
      then (case decrypt sp val of
              Inl e \<Rightarrow> Inl (Wrapf ''resolving secret ref %q for %s.%s: %w'' [val, service, key] e)
            | Inr resolved \<Rightarrow>
                (case resolveRefs sp service env of
                   Inl e \<Rightarrow> Inl e
                 | Inr rest \<Rightarrow> Inr ((key, if length resolved = 1 then snd (hd resolved) else val) # rest)))
      else (case resolveRefs sp service env of Inl e \<Rightarrow> Inl e | Inr rest \<Rightarrow> Inr ((key, val) # rest)))"

fun resolveSecrets :: "SecretsProvider \<Rightarrow> ServiceSpec list \<Rightarrow> ServiceSpec list result" where
  "resolveSecrets sp [] = Inr []"
| "resolveSecrets sp (s # ss) =
     (case resolveRefs sp (sp_Name s) (sp_Environment s) of
        Inl e \<Rightarrow> Inl e
      | Inr env \<Rightarrow> (case resolveSecrets sp ss of Inl e \<Rightarrow> Inl e | Inr rest \<Rightarrow> Inr (s\<lparr>sp_Environment := env\<rparr> # rest)))"

definition Parse :: "(string \<Rightarrow> string option) \<Rightarrow> SecretsProvider option \<Rightarrow> ParserFiles \<Rightarrow> (string list \<Rightarrow> string list) \<Rightarrow> string \<Rightarrow> string list
    \<Rightarrow> ComposeSpec result" where
  "Parse lookupEnv secrets fs order repoPath composeFiles =
     (case composeFiles of
        [] \<Rightarrow> Inl (Errorf ''no compose files specified'' [])
      | baseFile # overrides \<Rightarrow>
          (case (case secrets of
                   None \<Rightarrow> Inr (loadDotEnv (pf_lines fs (filepath_Join repoPath ''.env'')))
                 | Some sp \<Rightarrow> decryptEnv sp fs repoPath [''.env.age'', ''.env.enc''] (loadDotEnv (pf_lines fs (filepath_Join repoPath ''.env'')))) of
             Inl e \<Rightarrow> Inl e
           | Inr envVars \<Rightarrow>
               (case parseComposeFile fs (filepath_Join repoPath baseFile) of
                  Inl e \<Rightarrow> Inl (Wrapf ''parsing %s: %w'' [baseFile] e)
                | Inr base \<Rightarrow>
                    (case mergeFiles fs repoPath base overrides of
                       Inl e \<Rightarrow> Inl e
                     | Inr raw \<Rightarrow>
                         (let spec = normalize (toComposeSpec lookupEnv envVars order raw)
                          in case secrets of
                               None \<Rightarrow> Inr spec
                             | Some sp \<Rightarrow>
                                 (case resolveSecrets sp (cs_Services spec) of
                                    Inl e \<Rightarrow> Inl e
                                  | Inr services \<Rightarrow> Inr (spec\<lparr>cs_Services := services\<rparr>)))))))"

section \<open>Merge\<close>

lemma map_of_overlay [gomap]: "wf_map override \<Longrightarrow> map_of (overlay base override) = map_of base ++ map_of override"
proof (induction override arbitrary: base)
  case Nil
  then show ?case by (simp add: overlay_def)
next
  case (Cons kv override)
  obtain k v where kv: "kv = (k, v)" by (cases kv)
  have "map_of (overlay base (kv # override)) = (map_of base)(k \<mapsto> v) ++ map_of override"
    using Cons kv by (simp add: overlay_def)
  moreover have "map_of override k = None" using Cons.prems kv by (simp add: map_of_eq_None_iff)
  ultimately show ?case by (auto simp: kv map_add_def fun_eq_iff split: option.splits)
qed

lemma wf_overlay [gomap]: "wf_map base \<Longrightarrow> wf_map (overlay base override)"
  by (induction override arbitrary: base) (auto simp: overlay_def)

lemma fold_update_wf: "wf_map m \<Longrightarrow> wf_map (fold (\<lambda>x m. AList.update (f x) (g x) m) xs m)"
  by (induction xs arbitrary: m) auto

lemma wf_toStringMap [gomap, simp]: "wf_map (toStringMap v)"
  by (auto simp: toStringMap_def case_prod_unfold fold_update_wf split: yval.splits)

lemma map_of_fold_update:
  "distinct (map f xs) \<Longrightarrow> map_of (fold (\<lambda>x m. AList.update (f x) (g x) m) xs m) = map_of m ++ map_of (map (\<lambda>x. (f x, g x)) xs)"
proof (induction xs arbitrary: m)
  case (Cons x xs)
  then have "map_of (map (\<lambda>x. (f x, g x)) xs) (f x) = None" by (auto simp: map_of_eq_None_iff)
  with Cons show ?case by (auto simp: map_add_def fun_eq_iff split: option.splits)
qed simp

text \<open>Merging two environments or label sets is the union in which the override wins, in whichever forms they are written.\<close>

lemma toStringMap_strings: "wf_map m \<Longrightarrow> map_of (toStringMap (YMap (map (\<lambda>(k, v). (k, YStr v)) m))) = map_of m"
  by (simp add: toStringMap_def case_prod_unfold map_of_fold_update comp_def)

lemma mergeMaps_union [gomap]: "map_of (toStringMap (mergeMaps base override)) = map_of (toStringMap base) ++ map_of (toStringMap override)"
proof (cases "override = YNull \<or> base = YNull")
  case True
  moreover have "toStringMap YNull = []" by (simp add: toStringMap_def)
  ultimately show ?thesis by (auto simp: mergeMaps_def)
next
  case False
  then have "mergeMaps base override = YMap (map (\<lambda>(k, v). (k, YStr v)) (overlay (toStringMap base) (toStringMap override)))"
    by (simp add: mergeMaps_def overlay_def)
  then show ?thesis by (simp add: toStringMap_strings map_of_overlay wf_overlay)
qed

definition mergeEntry :: "rawService option \<Rightarrow> rawService option \<Rightarrow> rawService option" where
  "mergeEntry base override =
     (case override of None \<Rightarrow> base | Some o' \<Rightarrow> Some (case base of None \<Rightarrow> o' | Some b \<Rightarrow> mergeService b o'))"

lemma map_of_mergeServices:
  "wf_map override \<Longrightarrow> map_of (fold (\<lambda>(name, svc) m. AList.update name
      (case map_of m name of Some baseSvc \<Rightarrow> mergeService baseSvc svc | None \<Rightarrow> svc) m) override base) n
    = mergeEntry (map_of base n) (map_of override n)"
proof (induction override arbitrary: base)
  case (Cons kv override)
  obtain k s where kv: "kv = (k, s)" by (cases kv)
  have "map_of override k = None" using Cons.prems kv by (simp add: map_of_eq_None_iff)
  with Cons kv show ?case by (auto simp: mergeEntry_def split: option.splits)
qed (simp add: mergeEntry_def)

lemma wf_mergeServices: "wf_map base \<Longrightarrow> wf_map (fold (\<lambda>(name, svc) m. AList.update name
      (case map_of m name of Some baseSvc \<Rightarrow> mergeService baseSvc svc | None \<Rightarrow> svc) m) override base)"
  by (induction override arbitrary: base) (auto simp: case_prod_beta)

definition wf_raw :: "rawCompose \<Rightarrow> bool" where
  "wf_raw raw = (wf_map (rc_Services raw) \<and> wf_map (rc_Networks raw) \<and> wf_map (rc_Volumes raw))"

lemma wf_mergeCompose [simp]: "wf_raw base \<Longrightarrow> wf_raw (mergeCompose base override)"
  by (auto simp: wf_raw_def mergeCompose_def wf_overlay intro: wf_mergeServices)

text \<open>What a file says of one service: an entry of its environment or labels, its image, its ports and volumes.\<close>

definition envAt :: "string \<Rightarrow> string \<Rightarrow> rawCompose \<Rightarrow> string option" where
  "envAt n k raw = (case map_of (rc_Services raw) n of None \<Rightarrow> None | Some s \<Rightarrow> map_of (toStringMap (rs_Environment s)) k)"

definition imageAt :: "string \<Rightarrow> rawCompose \<Rightarrow> string option" where
  "imageAt n raw = (case map_of (rc_Services raw) n of None \<Rightarrow> None | Some s \<Rightarrow> if rs_Image s = [] then None else Some (rs_Image s))"

definition portsAt :: "string \<Rightarrow> rawCompose \<Rightarrow> string list" where
  "portsAt n raw = (case map_of (rc_Services raw) n of None \<Rightarrow> [] | Some s \<Rightarrow> (case rs_Ports s of None \<Rightarrow> [] | Some ps \<Rightarrow> ps))"

definition lastSome :: "'a option list \<Rightarrow> 'a option" where
  "lastSome xs = foldl (\<lambda>acc x. case x of None \<Rightarrow> acc | Some v \<Rightarrow> Some v) None xs"

lemma mergeCompose_services:
  "wf_raw override \<Longrightarrow> map_of (rc_Services (mergeCompose base override)) n
     = mergeEntry (map_of (rc_Services base) n) (map_of (rc_Services override) n)"
  by (simp add: mergeCompose_def map_of_mergeServices wf_raw_def)

lemma mergeService_sel [simp]:
  "rs_Image (mergeService b ov) = (if rs_Image ov \<noteq> [] then rs_Image ov else rs_Image b)"
  "rs_Environment (mergeService b ov) = mergeMaps (rs_Environment b) (rs_Environment ov)"
  "rs_Ports (mergeService b ov) = (case rs_Ports ov of None \<Rightarrow> rs_Ports b | Some ps \<Rightarrow> Some (appendStringSlices (rs_Ports b) ps))"
  by (simp_all add: mergeService_def)

lemmas at_defs = envAt_def imageAt_def portsAt_def mergeEntry_def appendStringSlices_def

lemma mergeCompose_at:
  assumes "wf_raw override"
  shows "envAt n k (mergeCompose base override) = (case envAt n k override of None \<Rightarrow> envAt n k base | Some v \<Rightarrow> Some v)"
    and "imageAt n (mergeCompose base override) = (case imageAt n override of None \<Rightarrow> imageAt n base | Some v \<Rightarrow> Some v)"
    and "portsAt n (mergeCompose base override) = portsAt n base @ portsAt n override"
  by (cases "map_of (rc_Services base) n"; cases "map_of (rc_Services override) n";
      simp add: mergeCompose_services [OF assms] at_defs mergeMaps_union map_add_def split: option.split)+

lemma foldl_mergeCompose:
  assumes "list_all wf_raw raws"
  shows "(\<forall>n. map_of (rc_Services (foldl mergeCompose base raws)) n \<noteq> None
            \<longleftrightarrow> (\<exists>r\<in>set (base # raws). map_of (rc_Services r) n \<noteq> None))
    \<and> (\<forall>n k. envAt n k (foldl mergeCompose base raws) = lastSome (map (envAt n k) (base # raws)))
    \<and> (\<forall>n. imageAt n (foldl mergeCompose base raws) = lastSome (map (imageAt n) (base # raws)))
    \<and> (\<forall>n. portsAt n (foldl mergeCompose base raws) = concat (map (portsAt n) (base # raws)))"
  using assms
proof (induction raws rule: rev_induct)
  case (snoc r raws)
  then have "wf_raw r" "list_all wf_raw raws" by simp_all
  with snoc.IH show ?case by (auto simp: mergeCompose_at mergeCompose_services lastSome_def mergeEntry_def split: option.splits)
qed (simp add: lastSome_def split: option.splits)

lemma mergeFiles_foldl:
  assumes "list_all2 (\<lambda>f r. parseComposeFile fs (filepath_Join repoPath f) = Inr r) files raws"
  shows "mergeFiles fs repoPath base files = Inr (foldl mergeCompose base raws)"
  using assms by (induction arbitrary: base rule: list_all2_induct) simp_all

text \<open>
  Override files. When every file can be read, merging succeeds, and of each service: it exists when
  some file has it; an environment entry has its value from the last file that gives it one, in whichever
  of the two forms the files write it; the image is that of the last file that names one; and the ports
  are those of all files in order.
\<close>

theorem mergeFiles_override_semantics:
  assumes "list_all2 (\<lambda>f r. parseComposeFile fs (filepath_Join repoPath f) = Inr r) files raws" and "list_all wf_raw raws"
  shows "\<exists>raw. mergeFiles fs repoPath base files = Inr raw
    \<and> (\<forall>n. map_of (rc_Services raw) n \<noteq> None \<longleftrightarrow> (\<exists>r\<in>set (base # raws). map_of (rc_Services r) n \<noteq> None))
    \<and> (\<forall>n k. envAt n k raw = lastSome (map (envAt n k) (base # raws)))
    \<and> (\<forall>n. imageAt n raw = lastSome (map (imageAt n) (base # raws)))
    \<and> (\<forall>n. portsAt n raw = concat (map (portsAt n) (base # raws)))"
  using mergeFiles_foldl [OF assms(1)] foldl_mergeCompose [OF assms(2)] by blast

definition demoService :: rawService where
  "demoService = \<lparr>rs_Image = ''nginx'', rs_Environment = YList [YStr ''A=1'', YStr ''B=2''], rs_Ports = Some [''80''], rs_Volumes = None,
     rs_Networks = YNull, rs_Labels = YNull, rs_Restart = [], rs_Healthcheck = None, rs_Command = YNull, rs_Entrypoint = YNull,
     rs_DependsOn = YNull, rs_ContainerName = []\<rparr>"

definition demoBase :: rawCompose where
  "demoBase = \<lparr>rc_Services = [(''web'', demoService), (''db'', demoService)], rc_Networks = [], rc_Volumes = []\<rparr>"

definition demoOverride :: rawCompose where
  "demoOverride = \<lparr>rc_Services = [(''web'', demoService\<lparr>rs_Image := [], rs_Environment := YMap [(''B'', YInt 3)], rs_Ports := Some [''443'']\<rparr>)],
     rc_Networks = [], rc_Volumes = []\<rparr>"

definition demoParserFiles :: ParserFiles where
  "demoParserFiles = \<lparr>pf_lines = (\<lambda>p. None), pf_stat = (\<lambda>p. False), pf_read = (\<lambda>p. Inr p),
     pf_yaml = (\<lambda>d. Inr (if d = ''repo/base.yml'' then demoBase else demoOverride))\<rparr>"

lemma over_path: "filepath_Join ''repo'' ''over.yml'' = ''repo/over.yml''"
  by code_simp

theorem mergeFiles_override_semantics_witness:
  "\<exists>raw. mergeFiles demoParserFiles ''repo'' demoBase [''over.yml''] = Inr raw
     \<and> envAt ''web'' ''A'' raw = Some ''1'' \<and> envAt ''web'' ''B'' raw = Some ''3''
     \<and> imageAt ''web'' raw = Some ''nginx'' \<and> portsAt ''web'' raw = [''80'', ''443'']"
proof -
  have p: "parseComposeFile demoParserFiles (filepath_Join ''repo'' ''over.yml'') = Inr demoOverride"
    by (simp add: parseComposeFile_def demoParserFiles_def over_path maxComposeFileSize_def)
  have "list_all2 (\<lambda>f r. parseComposeFile demoParserFiles (filepath_Join ''repo'' f) = Inr r) [''over.yml''] [demoOverride]"
    using p by simp
  moreover have "list_all wf_raw [demoOverride]" by code_simp
  ultimately obtain raw where raw: "mergeFiles demoParserFiles ''repo'' demoBase [''over.yml''] = Inr raw"
    "\<forall>n k. envAt n k raw = lastSome (map (envAt n k) [demoBase, demoOverride])"
    "\<forall>n. imageAt n raw = lastSome (map (imageAt n) [demoBase, demoOverride])"
    "\<forall>n. portsAt n raw = concat (map (portsAt n) [demoBase, demoOverride])"
    using mergeFiles_override_semantics [of demoParserFiles "''repo''" "[''over.yml'']" "[demoOverride]" demoBase] by blast
  moreover have "lastSome (map (envAt ''web'' ''A'') [demoBase, demoOverride]) = Some ''1''" by code_simp
  moreover have "lastSome (map (envAt ''web'' ''B'') [demoBase, demoOverride]) = Some ''3''" by code_simp
  moreover have "lastSome (map (imageAt ''web'') [demoBase, demoOverride]) = Some ''nginx''" by code_simp
  moreover have "concat (map (portsAt ''web'') [demoBase, demoOverride]) = [''80'', ''443'']" by code_simp
  ultimately show ?thesis by metis
qed

section \<open>Port strings\<close>

text \<open>The short syntax of a port: a container port, with a host port, and with a host address, which may be in brackets.\<close>

datatype PortSyntax = ContainerOnly string | HostContainer string string | Bound string string string

fun printPort :: "PortSyntax \<Rightarrow> string" where
  "printPort (ContainerOnly c) = c"
| "printPort (HostContainer h c) = h @ '':'' @ c"
| "printPort (Bound ip h c) = ip @ '':'' @ h @ '':'' @ c"

definition printPortProto :: "PortSyntax \<Rightarrow> string option \<Rightarrow> string" where
  "printPortProto p proto = printPort p @ (case proto of None \<Rightarrow> [] | Some x \<Rightarrow> ''/'' @ x)"

fun portMeaning :: "PortSyntax \<Rightarrow> string \<Rightarrow> PortMapping" where
  "portMeaning (ContainerOnly c) proto = \<lparr>HostPort = [], ContainerPort = c, Protocol = proto\<rparr>"
| "portMeaning (HostContainer h c) proto = \<lparr>HostPort = h, ContainerPort = c, Protocol = proto\<rparr>"
| "portMeaning (Bound ip h c) proto = \<lparr>HostPort = h, ContainerPort = c, Protocol = proto\<rparr>"

definition plain :: "string \<Rightarrow> bool" where
  "plain s = (CHR '':'' \<notin> set s \<and> CHR ''['' \<notin> set s \<and> CHR ''/'' \<notin> set s)"

text \<open>A bracketed address holds anything but brackets and slashes, colons included.\<close>

definition bracketed :: "string \<Rightarrow> bool" where
  "bracketed s = (\<exists>a\<in>{butlast (tl s)}. s = ''['' @ a @ '']'' \<and> CHR '']'' \<notin> set a \<and> CHR ''/'' \<notin> set a)"

fun wfPort :: "PortSyntax \<Rightarrow> bool" where
  "wfPort (ContainerOnly c) = plain c"
| "wfPort (HostContainer h c) = (plain h \<and> plain c)"
| "wfPort (Bound ip h c) = ((plain ip \<or> bracketed ip) \<and> plain h \<and> plain c)"

lemma cut_no_sep [simp]: "c \<notin> set s \<Longrightarrow> cut c s = None"
  by (simp add: cut_None)

lemma splitN_plain [simp]: "c \<notin> set s \<Longrightarrow> splitN n c s = [s]"
  by (cases n) simp_all

lemma splitN_3: "splitN 3 c s = (case cut c s of None \<Rightarrow> [s] | Some (a, b) \<Rightarrow> a # splitN 2 c b)"
  by (simp add: numeral_3_eq_3 numeral_2_eq_2 split: option.splits)

lemma splitN_2: "splitN 2 c s = (case cut c s of None \<Rightarrow> [s] | Some (a, b) \<Rightarrow> [a, b])"
  by (simp add: numeral_2_eq_2 split: option.splits)

lemma splitPort_colon: "CHR '':'' \<notin> set a \<Longrightarrow> CHR ''['' \<notin> set a \<Longrightarrow> splitPort (a @ CHR '':'' # s) = a # splitN 2 CHR '':'' s"
  by (cases a) (auto simp: splitPort_def splitN_3)

lemma splitPort_plain: "plain s \<Longrightarrow> splitPort s = [s]"
  by (cases s) (auto simp: plain_def splitPort_def)

lemma splitPort_bracketed: "bracketed ip \<Longrightarrow> splitPort (ip @ CHR '':'' # s) = ip # splitN 2 CHR '':'' s"
proof -
  assume "bracketed ip"
  then obtain a where ip: "ip = ''['' @ a @ '']''" "CHR '']'' \<notin> set a" by (auto simp: bracketed_def)
  have "cut CHR '']'' (ip @ CHR '':'' # s) = Some (CHR ''['' # a, CHR '':'' # s)" using ip by (simp add: cut_Some)
  then show ?thesis using ip(1) by (simp add: splitPort_def del: cut.simps)
qed

lemma splitPort_print:
  "wfPort p \<Longrightarrow> splitPort (printPort p) = (case p of ContainerOnly c \<Rightarrow> [c] | HostContainer h c \<Rightarrow> [h, c] | Bound ip h c \<Rightarrow> [ip, h, c])"
  by (cases p) (auto simp: splitPort_plain splitPort_colon splitPort_bracketed splitN_2 plain_def)

lemma printPort_no_slash: "wfPort p \<Longrightarrow> CHR ''/'' \<notin> set (printPort p)"
  by (cases p) (auto simp: plain_def bracketed_def dest!: arg_cong [where f = set])

text \<open>
  The short port syntax is read back: a port written with or without a host port, a host address (in
  brackets when it is IPv6) and a protocol parses to exactly those fields, the protocol being tcp when
  none is written; the host address is dropped.
\<close>

theorem parsePortString_print:
  assumes "wfPort p" and "case proto of None \<Rightarrow> True | Some x \<Rightarrow> CHR ''/'' \<notin> set x"
  shows "parsePortString (printPortProto p proto) = portMeaning p (case proto of None \<Rightarrow> ''tcp'' | Some x \<Rightarrow> x)"
proof -
  note ns = printPort_no_slash [OF assms(1)]
  have "(case rcut CHR ''/'' (printPortProto p proto) of Some (a, b) \<Rightarrow> (a, b) | None \<Rightarrow> (printPortProto p proto, ''tcp''))
      = (printPort p, case proto of None \<Rightarrow> ''tcp'' | Some x \<Rightarrow> x)"
  proof (cases proto)
    case None
    then show ?thesis using ns by (simp add: printPortProto_def rcut_None [THEN iffD2])
  next
    case (Some x)
    then have "rcut CHR ''/'' (printPortProto p proto) = Some (printPort p, x)"
      using assms(2) by (simp add: rcut_Some printPortProto_def)
    then show ?thesis using Some by simp
  qed
  then show ?thesis
    unfolding parsePortString_def by (simp add: splitPort_print [OF assms(1)] split: PortSyntax.split)
qed

theorem parsePortString_print_witness:
  "parsePortString ''[::1]:8080:80/udp'' = \<lparr>HostPort = ''8080'', ContainerPort = ''80'', Protocol = ''udp''\<rparr>"
proof -
  have "wfPort (Bound ''[::1]'' ''8080'' ''80'')" by (simp add: plain_def bracketed_def)
  then show ?thesis
    using parsePortString_print [of "Bound ''[::1]'' ''8080'' ''80''" "Some ''udp''"] by (simp add: printPortProto_def)
qed

section \<open>The result of a parse\<close>

lemma name_toServiceSpec [simp]: "sp_Name (toServiceSpec lookupEnv vars n s) = n"
  by (simp add: toServiceSpec_def)

lemma name_normalizeService [simp]: "sp_Name (normalizeService s) = sp_Name s"
  by (simp add: normalizeService_def)

lemma services_names: "set ns \<subseteq> dom m
  \<Longrightarrow> map sp_Name (List.map_filter (\<lambda>n. map_option (toServiceSpec lookupEnv vars n) (m n)) ns) = ns"
  by (induction ns) (auto simp: List.map_filter_def)

lemma mset_map_filter: "mset (List.map_filter f xs) = image_mset (the \<circ> f) (filter_mset (\<lambda>x. f x \<noteq> None) (mset xs))"
  by (simp add: List.map_filter_def)

lemma toComposeSpec_order:
  assumes "mset (order1 ns) = mset ns" and "mset (order2 ns) = mset ns" and "ns = map fst (rc_Services raw)"
  shows "mset (cs_Services (toComposeSpec lookupEnv vars order1 raw)) = mset (cs_Services (toComposeSpec lookupEnv vars order2 raw))"
  using assms by (simp add: toComposeSpec_def mset_map_filter)

lemma toComposeSpec_names:
  assumes "mset (order (map fst (rc_Services raw))) = mset (map fst (rc_Services raw))"
  shows "map sp_Name (cs_Services (toComposeSpec lookupEnv vars order raw)) = order (map fst (rc_Services raw))"
proof -
  have "set (order (map fst (rc_Services raw))) \<subseteq> dom (map_of (rc_Services raw))"
    using mset_eq_setD [OF assms] by (auto simp: dom_map_of_conv_image_fst)
  then show ?thesis by (simp add: toComposeSpec_def services_names)
qed

definition mapOrder :: "(string list \<Rightarrow> string list) \<Rightarrow> bool" where
  "mapOrder order = (\<forall>xs. mset (order xs) = mset xs)"

lemma toComposeSpec_distinct:
  assumes "mapOrder order" "wf_raw raw"
  shows "distinct (map sp_Name (cs_Services (toComposeSpec lookupEnv vars order raw)))"
proof -
  have m: "mset (order (map fst (rc_Services raw))) = mset (map fst (rc_Services raw))" using assms(1) by (simp add: mapOrder_def)
  then show ?thesis
    using assms(2) mset_eq_imp_distinct_iff [OF m] by (simp add: toComposeSpec_names [of order raw, OF m] wf_raw_def)
qed

lemma normalize_toComposeSpec_order:
  assumes "mapOrder order1" "mapOrder order2" "wf_raw raw"
  shows "normalize (toComposeSpec lookupEnv vars order1 raw) = normalize (toComposeSpec lookupEnv vars order2 raw)"
proof -
  have o: "mset (order1 xs) = mset xs" "mset (order2 xs) = mset xs" for xs using assms(1,2) by (simp_all add: mapOrder_def)
  have "distinct (map sp_Name (cs_Services (toComposeSpec lookupEnv vars order1 raw)))"
    using assms(1,3) by (rule toComposeSpec_distinct)
  then have "sort_key sp_Name (cs_Services (toComposeSpec lookupEnv vars order1 raw))
      = sort_key sp_Name (cs_Services (toComposeSpec lookupEnv vars order2 raw))"
    by (intro sort_key_determined toComposeSpec_order [of order1 _ order2, OF o refl]) (simp add: distinct_map)
  then show ?thesis by (simp add: normalize_def toComposeSpec_def)
qed

text \<open>The maps a decoder builds have unique keys.\<close>

definition yamlMaps :: "ParserFiles \<Rightarrow> bool" where
  "yamlMaps fs = (\<forall>data raw. pf_yaml fs data = Inr raw \<longrightarrow> wf_raw raw)"

lemma parseComposeFile_wf: "yamlMaps fs \<Longrightarrow> parseComposeFile fs path = Inr raw \<Longrightarrow> wf_raw raw"
  by (auto simp: parseComposeFile_def yamlMaps_def split: sum.splits if_splits)

lemma mergeFiles_wf: "yamlMaps fs \<Longrightarrow> wf_raw base \<Longrightarrow> mergeFiles fs repoPath base files = Inr raw \<Longrightarrow> wf_raw raw"
proof (induction files arbitrary: base)
  case (Cons f files)
  then obtain ov where "mergeFiles fs repoPath (mergeCompose base ov) files = Inr raw" by (auto split: sum.splits)
  with Cons.prems show ?case by (intro Cons.IH [of "mergeCompose base ov"]) simp_all
qed simp

lemma resolveSecrets_rest:
  "resolveSecrets sp ss = Inr ss' \<Longrightarrow> list_all2 (\<lambda>s' s. sp_Name s' = sp_Name s \<and> sp_Networks s' = sp_Networks s \<and> sp_DependsOn s' = sp_DependsOn s) ss' ss"
  by (induction ss arbitrary: ss') (auto split: sum.splits)

definition specSorted :: "ComposeSpec \<Rightarrow> bool" where
  "specSorted spec = (sorted_wrt (<) (map sp_Name (cs_Services spec))
     \<and> list_all (\<lambda>s. sorted (sp_Networks s) \<and> sorted (sp_DependsOn s)) (cs_Services spec))"

lemma sorted_strict: "sorted xs \<Longrightarrow> distinct xs \<Longrightarrow> sorted_wrt (<) xs"
  by (simp add: strict_sorted_iff)

lemma normalize_sorted:
  assumes "mapOrder order" "wf_raw raw"
  shows "specSorted (normalize (toComposeSpec lookupEnv vars order raw))"
proof -
  have "distinct (map sp_Name (cs_Services (toComposeSpec lookupEnv vars order raw)))"
    using assms by (rule toComposeSpec_distinct)
  then have "sorted_wrt (<) (map sp_Name (sort_key sp_Name (cs_Services (toComposeSpec lookupEnv vars order raw))))"
    by (intro sorted_strict) (simp_all add: distinct_map)
  then show ?thesis by (simp add: specSorted_def normalize_def comp_def list_all_iff) (simp add: normalizeService_def)
qed

lemma resolveSecrets_sorted:
  assumes "specSorted spec" "resolveSecrets sp (cs_Services spec) = Inr services"
  shows "specSorted (spec\<lparr>cs_Services := services\<rparr>)"
proof -
  note r = resolveSecrets_rest [OF assms(2)]
  have "map sp_Name services = map sp_Name (cs_Services spec)" using r by (induction rule: list_all2_induct) auto
  moreover have "list_all (\<lambda>s. sorted (sp_Networks s) \<and> sorted (sp_DependsOn s)) services"
    if "list_all (\<lambda>s. sorted (sp_Networks s) \<and> sorted (sp_DependsOn s)) (cs_Services spec)"
    using r that by (induction rule: list_all2_induct) auto
  ultimately show ?thesis using assms(1) by (simp add: specSorted_def)
qed

lemma Parse_raw:
  assumes "yamlMaps fs"
  obtains (error) e where "\<And>order. mapOrder order \<Longrightarrow> Parse lookupEnv secrets fs order repoPath files = Inl e"
    | (raw) raw vars where "wf_raw raw" "\<And>order. Parse lookupEnv secrets fs order repoPath files
        = (let spec = normalize (toComposeSpec lookupEnv vars order raw)
           in case secrets of None \<Rightarrow> Inr spec
              | Some sp \<Rightarrow> (case resolveSecrets sp (cs_Services spec) of Inl e \<Rightarrow> Inl e | Inr services \<Rightarrow> Inr (spec\<lparr>cs_Services := services\<rparr>)))"
proof (cases files)
  case Nil
  then show thesis using error by (simp add: Parse_def)
next
  case (Cons f fl)
  let ?env = "case secrets of None \<Rightarrow> Inr (loadDotEnv (pf_lines fs (filepath_Join repoPath ''.env'')))
    | Some sp \<Rightarrow> decryptEnv sp fs repoPath [''.env.age'', ''.env.enc''] (loadDotEnv (pf_lines fs (filepath_Join repoPath ''.env'')))"
  consider e where "?env = Inl e" | vars e where "?env = Inr vars" "parseComposeFile fs (filepath_Join repoPath f) = Inl e"
    | vars base e where "?env = Inr vars" "parseComposeFile fs (filepath_Join repoPath f) = Inr base" "mergeFiles fs repoPath base fl = Inl e"
    | vars base raw where "?env = Inr vars" "parseComposeFile fs (filepath_Join repoPath f) = Inr base" "mergeFiles fs repoPath base fl = Inr raw"
    by (metis sum.exhaust)
  then show thesis
  proof cases
    case 4
    then have "wf_raw raw" using assms by (blast intro: parseComposeFile_wf mergeFiles_wf)
    then show thesis using 4 Cons by (intro raw) (simp_all add: Parse_def)
  qed (use Cons error in \<open>simp_all add: Parse_def\<close>)
qed

text \<open>
  Parsing is deterministic. Whatever order Go iterates the services in, \<^verbatim>\<open>Parse\<close> gives the same result,
  and a specification it returns lists the services strictly by name with sorted networks and
  dependencies.
\<close>

theorem Parse_deterministic:
  assumes "yamlMaps fs" and "mapOrder order1" and "mapOrder order2"
  shows "Parse lookupEnv secrets fs order1 repoPath files = Parse lookupEnv secrets fs order2 repoPath files
    \<and> (\<forall>spec. Parse lookupEnv secrets fs order1 repoPath files = Inr spec \<longrightarrow> specSorted spec)"
  using assms(1)
proof (cases rule: Parse_raw [where lookupEnv = lookupEnv and secrets = secrets and repoPath = repoPath and files = files])
  case (error e)
  then show ?thesis using assms(2,3) by simp
next
  case (raw raw vars)
  have "normalize (toComposeSpec lookupEnv vars order1 raw) = normalize (toComposeSpec lookupEnv vars order2 raw)"
    using assms(2,3) raw(1) by (rule normalize_toComposeSpec_order)
  moreover have "specSorted (normalize (toComposeSpec lookupEnv vars order1 raw))" using assms(2) raw(1) by (rule normalize_sorted)
  ultimately show ?thesis by (auto simp: raw(2) Let_def resolveSecrets_sorted split: option.splits sum.splits)
qed

theorem Parse_deterministic_witness:
  "Parse (\<lambda>n. None) None demoParserFiles rev ''repo'' [''base.yml'', ''over.yml''] = Parse (\<lambda>n. None) None demoParserFiles id ''repo'' [''base.yml'', ''over.yml'']"
proof -
  have "wf_raw demoBase" "wf_raw demoOverride" by code_simp+
  then have "yamlMaps demoParserFiles" by (auto simp: yamlMaps_def demoParserFiles_def split: if_splits)
  then show ?thesis using Parse_deterministic [of demoParserFiles rev id] by (auto simp: mapOrder_def)
qed

end
