(* ===== verification/Registry.thy ===== *)
theory Registry
  imports Manifest
begin

text \<open>
  Image updates (\<^verbatim>\<open>registry/semver.go\<close>, \<^verbatim>\<open>registry/registry.go\<close>, \<^verbatim>\<open>registry/poller.go\<close>): versions and the
  choice of a tag, image references, the rewriting of a compose file and the poll over all
  applications. The registry, the file system, YAML decoding and Git are answers of an environment
  that depend on the trace of requests so far.
\<close>

section \<open>Versions\<close>

record SemVer =
  Major :: int
  Minor :: int
  Patch :: int
  Prerelease :: string
  Raw :: string

text \<open>
  \<^verbatim>\<open>strings.SplitN(s, "-", 2)\<close> cuts at the first dash. \<open>Split\<close> yields at least one piece, so of the test on
  the number of pieces only the upper bound can fail.
\<close>

definition ParseSemVer :: "string \<Rightarrow> SemVer result" where
  "ParseSemVer raw =
     (let s = TrimPrefix raw ''v'';
          parts = (case cut CHR ''-'' s of Some (a, b) \<Rightarrow> (a, b) | None \<Rightarrow> (s, []));
          nums = Split (fst parts) CHR ''.''
      in if length nums < 1 \<or> length nums > 3 then Inl (Errorf ''invalid semver: %s'' [raw])
         else case Atoi (nums ! 0) of
                None \<Rightarrow> Inl (Errorf ''invalid major version: %s'' [raw])
              | Some major \<Rightarrow>
                  (case (if length nums \<ge> 2 then Atoi (nums ! 1) else Some 0) of
                     None \<Rightarrow> Inl (Errorf ''invalid minor version: %s'' [raw])
                   | Some minor \<Rightarrow>
                       (case (if length nums \<ge> 3 then Atoi (nums ! 2) else Some 0) of
                          None \<Rightarrow> Inl (Errorf ''invalid patch version: %s'' [raw])
                        | Some patch \<Rightarrow> Inr \<lparr>Major = major, Minor = minor, Patch = patch, Prerelease = snd parts, Raw = raw\<rparr>)))"

definition Compare :: "SemVer \<Rightarrow> SemVer \<Rightarrow> int" where
  "Compare v other =
     (if Major v \<noteq> Major other then (if Major v > Major other then 1 else - 1)
      else if Minor v \<noteq> Minor other then (if Minor v > Minor other then 1 else - 1)
      else if Patch v \<noteq> Patch other then (if Patch v > Patch other then 1 else - 1)
      else if Prerelease v = [] \<and> Prerelease other \<noteq> [] then 1
      else if Prerelease v \<noteq> [] \<and> Prerelease other = [] then - 1
      else 0)"

text \<open>A policy is a string; the three constants are the values the code tests for.\<close>

type_synonym ImagePolicy = string

definition PolicySemver :: ImagePolicy where "PolicySemver = ''semver''"
definition PolicyMajor :: ImagePolicy where "PolicyMajor = ''major''"
definition PolicyMinor :: ImagePolicy where "PolicyMinor = ''minor''"

text \<open>
  The loop over the tags appends a candidate or continues. \<^verbatim>\<open>sort.Slice\<close> may order versions that compare
  equal in any way, so the sort is a parameter that gets the order of the code.
\<close>

definition candidate :: "SemVer \<Rightarrow> ImagePolicy \<Rightarrow> string \<Rightarrow> SemVer option" where
  "candidate current policy t =
     (case ParseSemVer t of
        Inl e \<Rightarrow> None
      | Inr sv \<Rightarrow>
          (if Prerelease sv \<noteq> [] \<and> Prerelease current = [] then None
           else if policy = PolicyMajor \<and> Major sv \<noteq> Major current then None
           else if policy = PolicyMinor \<and> (Major sv \<noteq> Major current \<or> Minor sv \<noteq> Minor current) then None
           else if Compare sv current > 0 then Some sv
           else None))"

definition newerFirst :: "SemVer \<Rightarrow> SemVer \<Rightarrow> bool" where
  "newerFirst a b = (Compare a b > 0)"

definition FindLatestTag :: "((SemVer \<Rightarrow> SemVer \<Rightarrow> bool) \<Rightarrow> SemVer list \<Rightarrow> SemVer list) \<Rightarrow> string list \<Rightarrow> string \<Rightarrow> ImagePolicy \<Rightarrow> string \<times> bool" where
  "FindLatestTag sortSlice tags currentTag policy =
     (case ParseSemVer currentTag of
        Inl e \<Rightarrow> ([], False)
      | Inr current \<Rightarrow>
          (let candidates = List.map_filter (candidate current policy) tags
           in if candidates = [] then ([], False)
              else (Raw (sortSlice newerFirst candidates ! 0), True)))"

text \<open>What \<^verbatim>\<open>sort.Slice\<close> promises for a strict weak order: the same elements, none before a smaller one.\<close>

definition sorts :: "(('a \<Rightarrow> 'a \<Rightarrow> bool) \<Rightarrow> 'a list \<Rightarrow> 'a list) \<Rightarrow> ('a \<Rightarrow> 'a \<Rightarrow> bool) \<Rightarrow> bool" where
  "sorts sortSlice lt = (\<forall>xs. mset (sortSlice lt xs) = mset xs \<and> sorted_wrt (\<lambda>a b. \<not> lt b a) (sortSlice lt xs))"

section \<open>Image references\<close>

text \<open>
  \<^verbatim>\<open>LastIndexByte\<close> of the colon is after that of the slash exactly when what follows the last colon has no slash.
\<close>

definition ParseImageRef :: "string \<Rightarrow> string \<times> string" where
  "ParseImageRef ref =
     (case cut CHR ''@'' ref of
        Some (a, b) \<Rightarrow> (a, [])
      | None \<Rightarrow>
          (case rcut CHR '':'' ref of
             Some (name, tag) \<Rightarrow> if CHR ''/'' \<notin> set tag then (name, tag) else (ref, ''latest'')
           | None \<Rightarrow> (ref, ''latest'')))"

section \<open>The poller\<close>

record composeServiceRaw =
  csr_Image :: string
  csr_Labels :: "string gomap"

type_synonym composeFileRaw = "composeServiceRaw gomap"

datatype PollEvent =
    ListedTags string "string list result"
  | WroteFile string string "err option"
  | Committed string string "string list" "err option"
  | Pushed string "err option"
  | TriggeredReconcile string

record PollerEnv =
  pe_sort :: "(SemVer \<Rightarrow> SemVer \<Rightarrow> bool) \<Rightarrow> SemVer list \<Rightarrow> SemVer list"
  pe_repoPath :: "PollEvent list \<Rightarrow> string \<Rightarrow> string"
  pe_tags :: "PollEvent list \<Rightarrow> string \<Rightarrow> string list result"
  pe_yaml :: "string \<Rightarrow> composeFileRaw result"
  pe_write :: "PollEvent list \<Rightarrow> string \<Rightarrow> err option"
  pe_commit :: "PollEvent list \<Rightarrow> string \<Rightarrow> string \<Rightarrow> string list \<Rightarrow> err option"
  pe_push :: "PollEvent list \<Rightarrow> string \<Rightarrow> err option"
  pe_ctxErr :: "PollEvent list \<Rightarrow> err option"
  pe_pick :: "PollEvent list \<Rightarrow> nat"

record PollerWorld =
  pw_files :: "string \<rightharpoonup> string"
  pw_events :: "PollEvent list"

definition ImagePolicyLabel :: string where
  "ImagePolicyLabel = ''com.dockercd.image-policy''"

text \<open>\<^verbatim>\<open>strings.Replace\<close> with n = 1.\<close>

definition Replace1 :: "string \<Rightarrow> string \<Rightarrow> string \<Rightarrow> string" where
  "Replace1 s old new = (case cutSub old s of None \<Rightarrow> s | Some (a, b) \<Rightarrow> a @ new @ b)"

text \<open>The body of the loop over the services, and the loop: the events, the content and whether it was updated.\<close>

type_synonym UpdateState = "PollEvent list \<times> string \<times> bool"

definition updateImage :: "PollerEnv \<Rightarrow> composeServiceRaw \<Rightarrow> UpdateState \<Rightarrow> UpdateState" where
  "updateImage env svc = (\<lambda>(evs, content, updated).
     (case map_of (csr_Labels svc) ImagePolicyLabel of
        None \<Rightarrow> (evs, content, updated)
      | Some policy \<Rightarrow>
          (case ParseImageRef (csr_Image svc) of
             (imageName, currentTag) \<Rightarrow>
               (if currentTag = [] \<or> currentTag = ''latest'' then (evs, content, updated)
                else
                  (let r = pe_tags env evs imageName; evs = evs @ [ListedTags imageName r]
                   in case r of
                        Inl e \<Rightarrow> (evs, content, updated)
                      | Inr tags \<Rightarrow>
                          (case FindLatestTag (pe_sort env) tags currentTag policy of
                             (latestTag, found) \<Rightarrow>
                               (if \<not> found then (evs, content, updated)
                                else (evs, Replace1 content (csr_Image svc) (imageName @ '':'' @ latestTag), True))))))))"

definition updateImages :: "PollerEnv \<Rightarrow> composeFileRaw \<Rightarrow> UpdateState \<Rightarrow> UpdateState" where
  "updateImages env services st = fold (\<lambda>(svcName, svc) st. updateImage env svc st) services st"

definition updateMessage :: "string \<Rightarrow> string" where
  "updateMessage appName = ''chore(image): update images for '' @ appName"

definition checkComposeFile :: "PollerEnv \<Rightarrow> string \<Rightarrow> string \<Rightarrow> string \<Rightarrow> string \<Rightarrow> PollerWorld \<Rightarrow> err option \<times> PollerWorld" where
  "checkComposeFile env appName repoURL filePath relPath w =
     (case pw_files w filePath of
        None \<Rightarrow> (Some (Errorf ''open %s: no such file or directory'' [filePath]), w)
      | Some data \<Rightarrow>
          (case pe_yaml env data of
             Inl e \<Rightarrow> (Some (Wrapf ''parsing compose file: %w'' [] e), w)
           | Inr services \<Rightarrow>
               (case updateImages env services (pw_events w, data, False) of
                  (evs, content, updated) \<Rightarrow>
                    (if \<not> updated then (None, w\<lparr>pw_events := evs\<rparr>)
                     else case pe_write env evs filePath of
                       Some e \<Rightarrow> (Some (Wrapf ''writing updated compose file: %w'' [] e),
                                  w\<lparr>pw_events := evs @ [WroteFile filePath content (Some e)]\<rparr>)
                     | None \<Rightarrow>
                         (let w = w\<lparr>pw_files := (pw_files w)(filePath \<mapsto> content), pw_events := evs @ [WroteFile filePath content None]\<rparr>;
                              rc = pe_commit env (pw_events w) repoURL (updateMessage appName) [relPath];
                              w = w\<lparr>pw_events := pw_events w @ [Committed repoURL (updateMessage appName) [relPath] rc]\<rparr>
                          in case rc of
                               Some e \<Rightarrow> (Some (Wrapf ''committing image update: %w'' [] e), w)
                             | None \<Rightarrow>
                                 (let rp = pe_push env (pw_events w) repoURL; w = w\<lparr>pw_events := pw_events w @ [Pushed repoURL rp]\<rparr>
                                  in case rp of
                                       Some e \<Rightarrow> (Some (Wrapf ''pushing image update: %w'' [] e), w)
                                     | None \<Rightarrow> (None, w\<lparr>pw_events := pw_events w @ [TriggeredReconcile appName]\<rparr>)))))))"

fun checkFiles :: "PollerEnv \<Rightarrow> string \<Rightarrow> string \<Rightarrow> string \<Rightarrow> string list \<Rightarrow> PollerWorld \<Rightarrow> PollerWorld" where
  "checkFiles env appName repoURL composePath [] w = w"
| "checkFiles env appName repoURL composePath (cf # cfs) w =
     checkFiles env appName repoURL composePath cfs (snd (checkComposeFile env appName repoURL (filepath_Join composePath cf) cf w))"

text \<open>An application of the poll: the name of its record and its manifest. The timeout of the check is an answer of the environment.\<close>

definition checkApplication :: "PollerEnv \<Rightarrow> string \<times> Application \<Rightarrow> PollerWorld \<Rightarrow> PollerWorld" where
  "checkApplication env target w =
     (let src = appSource (snd target); repoPath = pe_repoPath env (pw_events w) (RepoURL src)
      in if repoPath = [] then w
         else checkFiles env (fst target) (RepoURL src)
                (if Path src \<noteq> [] \<and> Path src \<noteq> ''.'' then filepath_Join repoPath (Path src) else repoPath) (ComposeFiles src) w)"

text \<open>\<open>rows\<close> is the answer of \<^verbatim>\<open>ListApplications\<close>: names and manifests as stored.\<close>

definition groupByRepo :: "(string \<Rightarrow> Application result) \<Rightarrow> (string \<times> string) list \<Rightarrow> (string \<times> Application) list gomap" where
  "groupByRepo unmarshal rows =
     fold (\<lambda>(name, manifest) byRepo. case unmarshal manifest of
         Inl e \<Rightarrow> byRepo
       | Inr application \<Rightarrow>
           (let url = RepoURL (appSource application)
            in AList.update url ((case map_of byRepo url of None \<Rightarrow> [] | Some ts \<Rightarrow> ts) @ [(name, application)]) byRepo)) rows []"

lemma sum_list_filter_nonempty: "(\<Sum>g\<leftarrow>filter (\<lambda>g. g \<noteq> []) gs. length g) = (\<Sum>g\<leftarrow>gs. length g)"
  by (induction gs) auto

lemma sum_list_update_tl:
  "i < length gs \<Longrightarrow> gs ! i \<noteq> [] \<Longrightarrow> (\<Sum>g\<leftarrow>gs[i := tl (gs ! i)]. length g) < (\<Sum>g\<leftarrow>gs. length g)"
proof (induction gs arbitrary: i)
  case (Cons g gs)
  then show ?case by (cases i) auto
qed simp

lemma nth_filter_nonempty: "i < length (filter (\<lambda>g. g \<noteq> []) gs) \<Longrightarrow> filter (\<lambda>g. g \<noteq> []) gs ! i \<noteq> []"
  using nth_mem by fastforce

text \<open>
  The workers take groups from the channel in turn and check the applications of a group one after the
  other. At any time the first \<open>workerCount\<close> unfinished groups are being worked on and the environment
  picks which of them makes the next check. The context is tested before each check; once it is done
  every worker returns.
\<close>

function runGroups :: "PollerEnv \<Rightarrow> nat \<Rightarrow> (string \<times> Application) list list \<Rightarrow> PollerWorld \<Rightarrow> PollerWorld" where
  "runGroups env workerCount groups w =
     (let gs = filter (\<lambda>g. g \<noteq> []) groups
      in if gs = [] \<or> workerCount = 0 \<or> pe_ctxErr env (pw_events w) \<noteq> None then w
         else let i = pe_pick env (pw_events w) mod min workerCount (length gs)
              in runGroups env workerCount (gs[i := tl (gs ! i)]) (checkApplication env (hd (gs ! i)) w))"
  by pat_completeness auto

termination
proof (relation "measure (\<lambda>(_, _, groups, _). \<Sum>g\<leftarrow>groups. length g)", goal_cases)
  case (2 env workerCount groups w gs i)
  then have "i < length gs" by (simp add: min_def) (metis mod_less_divisor gr_zeroI length_0_conv mod_less_divisor order.strict_trans2 not_le)
  with 2 show ?case
    using sum_list_update_tl [of i gs] nth_filter_nonempty [of i groups] by (simp add: sum_list_filter_nonempty)
qed simp

declare runGroups.simps [simp del]

definition checkAllApps :: "PollerEnv \<Rightarrow> nat \<Rightarrow> (string \<Rightarrow> Application result) \<Rightarrow> (string \<times> string) list result \<Rightarrow> PollerWorld \<Rightarrow> PollerWorld" where
  "checkAllApps env maxConcurrentChecks unmarshal apps w =
     (case apps of
        Inl e \<Rightarrow> w
      | Inr rows \<Rightarrow>
          (let byRepo = groupByRepo unmarshal rows
           in runGroups env (min maxConcurrentChecks (length byRepo)) (map snd byRepo) w))"

text \<open>\<^verbatim>\<open>NewPoller\<close> replaces settings that are not positive; durations are nanoseconds.\<close>

record PollerConfig =
  pc_PollInterval :: int
  pc_DefaultRegistry :: string
  pc_MaxConcurrentChecks :: int
  pc_CheckTimeout :: int

definition DefaultPollerConfig :: PollerConfig where
  "DefaultPollerConfig = \<lparr>pc_PollInterval = 300000000000, pc_DefaultRegistry = [], pc_MaxConcurrentChecks = 4, pc_CheckTimeout = 30000000000\<rparr>"

definition pollerConfig :: "PollerConfig \<Rightarrow> PollerConfig" where
  "pollerConfig cfg = cfg\<lparr>
     pc_PollInterval := (if pc_PollInterval cfg \<le> 0 then pc_PollInterval DefaultPollerConfig else pc_PollInterval cfg),
     pc_MaxConcurrentChecks := (if pc_MaxConcurrentChecks cfg \<le> 0 then pc_MaxConcurrentChecks DefaultPollerConfig else pc_MaxConcurrentChecks cfg),
     pc_CheckTimeout := (if pc_CheckTimeout cfg \<le> 0 then pc_CheckTimeout DefaultPollerConfig else pc_CheckTimeout cfg)\<rparr>"

section \<open>The chosen tag\<close>

text \<open>The order of versions: lexicographic on the three numbers, a release after its prereleases, prereleases not compared.\<close>

definition verLt :: "SemVer \<Rightarrow> SemVer \<Rightarrow> bool" where
  "verLt a b = (Major a < Major b \<or> Major a = Major b \<and> (Minor a < Minor b \<or> Minor a = Minor b \<and>
     (Patch a < Patch b \<or> Patch a = Patch b \<and> Prerelease a \<noteq> [] \<and> Prerelease b = [])))"

lemma Compare_verLt: "Compare a b > 0 \<longleftrightarrow> verLt b a" "Compare a b < 0 \<longleftrightarrow> verLt a b" "Compare a b = 0 \<longleftrightarrow> \<not> verLt a b \<and> \<not> verLt b a"
  by (auto simp: Compare_def verLt_def)

lemma newerFirst_iff: "newerFirst a b \<longleftrightarrow> verLt b a"
  by (simp add: newerFirst_def Compare_verLt)

lemma verLt_irrefl [simp]: "\<not> verLt a a"
  by (simp add: verLt_def)

lemma verLt_neg_trans: "\<not> verLt a b \<Longrightarrow> \<not> verLt b c \<Longrightarrow> \<not> verLt a c"
  by (auto simp: verLt_def)

text \<open>Two prereleases of one version compare equal, whatever their labels.\<close>

lemma Compare_prereleases:
  "Major a = Major b \<Longrightarrow> Minor a = Minor b \<Longrightarrow> Patch a = Patch b \<Longrightarrow> Prerelease a \<noteq> [] \<Longrightarrow> Prerelease b \<noteq> [] \<Longrightarrow> Compare a b = 0"
  by (simp add: Compare_def)

text \<open>A policy admits a version of the same line; a name that is no policy admits every version.\<close>

definition admits :: "ImagePolicy \<Rightarrow> SemVer \<Rightarrow> SemVer \<Rightarrow> bool" where
  "admits policy current v =
     ((Prerelease v \<noteq> [] \<longrightarrow> Prerelease current \<noteq> [])
      \<and> (policy \<in> {PolicyMajor, PolicyMinor} \<longrightarrow> Major v = Major current)
      \<and> (policy = PolicyMinor \<longrightarrow> Minor v = Minor current))"

definition upgrade :: "ImagePolicy \<Rightarrow> string \<Rightarrow> string \<Rightarrow> bool" where
  "upgrade policy currentTag t =
     (case (ParseSemVer currentTag, ParseSemVer t) of
        (Inr current, Inr v) \<Rightarrow> admits policy current v \<and> verLt current v
      | _ \<Rightarrow> False)"

definition newerTag :: "string \<Rightarrow> string \<Rightarrow> bool" where
  "newerTag t u = (case (ParseSemVer t, ParseSemVer u) of (Inr v, Inr w) \<Rightarrow> verLt w v | _ \<Rightarrow> False)"

lemma ParseSemVer_Raw: "ParseSemVer t = Inr v \<Longrightarrow> Raw v = t"
  by (auto simp: ParseSemVer_def Let_def split: if_splits option.splits)

lemma policy_distinct: "PolicyMajor \<noteq> PolicyMinor"
  by (simp add: PolicyMajor_def PolicyMinor_def)

lemma candidate_iff:
  assumes "ParseSemVer currentTag = Inr current"
  shows "candidate current policy t = Some v \<longleftrightarrow> upgrade policy currentTag t \<and> ParseSemVer t = Inr v"
  using assms policy_distinct
  by (auto simp: candidate_def upgrade_def admits_def Compare_verLt split: sum.splits if_splits)

lemma in_set_map_filter: "y \<in> set (List.map_filter f xs) \<longleftrightarrow> (\<exists>x\<in>set xs. f x = Some y)"
  by (induction xs) (auto simp: List.map_filter_simps split: option.splits)

lemma candidates_set:
  assumes "ParseSemVer currentTag = Inr current"
  shows "v \<in> set (List.map_filter (candidate current policy) tags) \<longleftrightarrow> (\<exists>t\<in>set tags. upgrade policy currentTag t \<and> ParseSemVer t = Inr v)"
  by (simp add: in_set_map_filter candidate_iff [OF assms])

lemma upgrade_parses: "upgrade policy currentTag t \<Longrightarrow> \<exists>current v. ParseSemVer currentTag = Inr current \<and> ParseSemVer t = Inr v"
  by (auto simp: upgrade_def split: sum.splits)

lemma sorts_head:
  assumes "sorts sortSlice lt" and "xs \<noteq> []" and "\<And>a. \<not> lt a a"
  shows "sortSlice lt xs ! 0 \<in> set xs" and "x \<in> set xs \<Longrightarrow> \<not> lt x (sortSlice lt xs ! 0)"
proof -
  from assms(1) have m: "mset (sortSlice lt xs) = mset xs" and s: "sorted_wrt (\<lambda>a b. \<not> lt b a) (sortSlice lt xs)"
    by (simp_all add: sorts_def)
  from m assms(2) obtain h r where h: "sortSlice lt xs = h # r" by (cases "sortSlice lt xs") auto
  with m have set: "set xs = insert h (set r)" by (metis list.simps(15) set_mset_mset)
  then show "sortSlice lt xs ! 0 \<in> set xs" by (simp add: h)
  show "\<not> lt x (sortSlice lt xs ! 0)" if "x \<in> set xs" using that set s assms(3) by (auto simp: h)
qed

lemma newerFirst_asym: "newerFirst a b \<Longrightarrow> \<not> newerFirst b a"
  by (auto simp: newerFirst_def Compare_verLt verLt_def)

text \<open>Updating converges: from the tag returned, the same list of tags offers no further update.\<close>

lemma verLt_trans: "verLt a b \<Longrightarrow> verLt b c \<Longrightarrow> verLt a c"
  using verLt_neg_trans [of a c b] newerFirst_asym [of b a] newerFirst_asym [of c b] by (auto simp: newerFirst_iff)

lemma upgrade_compose:
  assumes "upgrade policy a b" "upgrade policy b c"
  shows "upgrade policy a c" and "newerTag c b"
proof -
  obtain u v where uv: "ParseSemVer a = Inr u" "ParseSemVer b = Inr v" using upgrade_parses [OF assms(1)] by blast
  obtain w where w: "ParseSemVer c = Inr w" using upgrade_parses [OF assms(2)] by blast
  have lt: "verLt u v" "verLt v w" and ad: "admits policy u v" "admits policy v w" using assms by (simp_all add: upgrade_def uv w)
  have "admits policy u w" using ad by (simp add: admits_def)
  then show "upgrade policy a c" using verLt_trans [OF lt] by (simp add: upgrade_def uv w)
  show "newerTag c b" using lt(2) by (simp add: newerTag_def uv w)
qed

lemma FindLatestTag_none: "(\<forall>t\<in>set tags. \<not> upgrade policy currentTag t) \<Longrightarrow> FindLatestTag sortSlice tags currentTag policy = ([], False)"
proof (cases "ParseSemVer currentTag")
  case (Inr current)
  assume "\<forall>t\<in>set tags. \<not> upgrade policy currentTag t"
  then have "List.map_filter (candidate current policy) tags = []"
    using candidates_set [OF Inr, of _ policy tags] by (metis list.set_intros(1) neq_Nil_conv)
  then show ?thesis using Inr by (simp add: FindLatestTag_def)
qed (simp add: FindLatestTag_def)


text \<open>Insertion sort is one of the sorts the theorem speaks of.\<close>

fun insertBy :: "('a \<Rightarrow> 'a \<Rightarrow> bool) \<Rightarrow> 'a \<Rightarrow> 'a list \<Rightarrow> 'a list" where
  "insertBy lt x [] = [x]"
| "insertBy lt x (y # ys) = (if lt y x then y # insertBy lt x ys else x # y # ys)"

definition insertionSort :: "('a \<Rightarrow> 'a \<Rightarrow> bool) \<Rightarrow> 'a list \<Rightarrow> 'a list" where
  "insertionSort lt xs = foldr (insertBy lt) xs []"

lemma mset_insertBy [simp]: "mset (insertBy lt x ys) = add_mset x (mset ys)"
  by (induction ys) auto

lemma set_insertBy [simp]: "set (insertBy lt x ys) = insert x (set ys)"
  by (induction ys) auto

lemma newerFirst_trans: "\<not> newerFirst a b \<Longrightarrow> \<not> newerFirst b c \<Longrightarrow> \<not> newerFirst a c"
  unfolding newerFirst_def Compare_verLt using verLt_neg_trans by blast

lemma sorted_insertBy:
  "sorted_wrt (\<lambda>a b. \<not> newerFirst b a) ys \<Longrightarrow> sorted_wrt (\<lambda>a b. \<not> newerFirst b a) (insertBy newerFirst x ys)"
  by (induction ys) (auto dest: newerFirst_trans newerFirst_asym)

lemma insertionSort_sorts: "sorts insertionSort newerFirst"
proof -
  have "mset (insertionSort newerFirst xs) = mset xs \<and> sorted_wrt (\<lambda>a b. \<not> newerFirst b a) (insertionSort newerFirst xs)" for xs
    by (induction xs) (auto simp: insertionSort_def sorted_insertBy)
  then show ?thesis by (simp add: sorts_def)
qed


section \<open>Updating a compose file\<close>

fun isListing :: "PollEvent \<Rightarrow> bool" where
  "isListing (ListedTags i r) = True"
| "isListing _ = False"

text \<open>A service is up to date when it has no policy, no version tag, or the registry never lists an upgrade.\<close>

definition upToDate :: "PollerEnv \<Rightarrow> composeServiceRaw \<Rightarrow> bool" where
  "upToDate env svc =
     (case map_of (csr_Labels svc) ImagePolicyLabel of
        None \<Rightarrow> True
      | Some policy \<Rightarrow>
          (case ParseImageRef (csr_Image svc) of (name, tag) \<Rightarrow>
             tag = [] \<or> tag = ''latest'' \<or> (\<forall>evs tags. pe_tags env evs name = Inr tags \<longrightarrow> (\<forall>t\<in>set tags. \<not> upgrade policy tag t))))"

lemma updateImage_listing: "\<exists>ls. list_all isListing ls \<and> fst (updateImage env svc (evs, content, updated)) = evs @ ls"
  by (auto simp: updateImage_def Let_def split: option.split prod.split sum.split)

lemma updateImage_up_to_date: "upToDate env svc \<Longrightarrow> snd (updateImage env svc (evs, content, updated)) = (content, updated)"
  by (auto simp: updateImage_def upToDate_def Let_def FindLatestTag_none split: option.split prod.split sum.split)

lemma updateImages_listings: "\<exists>ls. list_all isListing ls \<and> fst (updateImages env services (evs, content, updated)) = evs @ ls"
proof (induction services arbitrary: evs content updated)
  case (Cons s services)
  obtain n svc where s: "s = (n, svc)" by (cases s)
  obtain evs' c' u' where st: "updateImage env svc (evs, content, updated) = (evs', c', u')" by (metis prod_cases3)
  with updateImage_listing [of env svc evs content updated] obtain ks where "list_all isListing ks" "evs' = evs @ ks" by auto
  with Cons.IH [of evs' c' u'] obtain ls where "list_all isListing (ks @ ls)" "fst (updateImages env services (evs', c', u')) = evs @ ks @ ls" by auto
  then show ?case by (auto simp: updateImages_def s st)
qed (simp add: updateImages_def)

lemma updateImages_up_to_date:
  "\<forall>(n, svc)\<in>set services. upToDate env svc \<Longrightarrow> snd (updateImages env services (evs, content, updated)) = (content, updated)"
proof (induction services arbitrary: evs)
  case (Cons s services)
  obtain n svc where s: "s = (n, svc)" by (cases s)
  with Cons.prems have "upToDate env svc" by simp
  then obtain evs' where "updateImage env svc (evs, content, updated) = (evs', content, updated)"
    using updateImage_up_to_date [of env svc evs content updated] by (metis prod.collapse)
  then show ?case using Cons.IH [of evs'] Cons.prems by (simp add: updateImages_def s)
qed (simp add: updateImages_def)

text \<open>
  A commit that fails is not made up for. When the commit of an image update fails, the new content
  is in the worktree already; as soon as that content names no outdated image, later checks of the
  file report success without writing, committing, pushing or triggering anything.
\<close>

theorem failed_commit_not_retried:
  assumes "checkComposeFile env appName repoURL filePath relPath w = (Some (Wrapf ''committing image update: %w'' [] e), w1)"
  shows "\<exists>content. pw_files w1 = (pw_files w)(filePath \<mapsto> content)
    \<and> (\<forall>services. pe_yaml env content = Inr services \<and> (\<forall>(n, svc)\<in>set services. upToDate env svc)
         \<longrightarrow> (\<exists>ls. list_all isListing ls \<and> checkComposeFile env appName repoURL filePath relPath w1 = (None, w1\<lparr>pw_events := pw_events w1 @ ls\<rparr>)))"
proof -
  from assms obtain content where c: "pw_files w1 = (pw_files w)(filePath \<mapsto> content)"
    by (auto simp: checkComposeFile_def Let_def split: option.splits sum.splits prod.splits if_splits)
  moreover have "\<exists>ls. list_all isListing ls \<and> checkComposeFile env appName repoURL filePath relPath w1 = (None, w1\<lparr>pw_events := pw_events w1 @ ls\<rparr>)"
    if y: "pe_yaml env content = Inr services" and u: "\<forall>(n, svc)\<in>set services. upToDate env svc" for services
  proof -
    obtain ls where ls: "list_all isListing ls" "fst (updateImages env services (pw_events w1, content, False)) = pw_events w1 @ ls"
      using updateImages_listings by blast
    with updateImages_up_to_date [OF u] have "updateImages env services (pw_events w1, content, False) = (pw_events w1 @ ls, content, False)"
      by (metis prod.collapse)
    with ls(1) c y show ?thesis by (auto simp: checkComposeFile_def)
  qed
  ultimately show ?thesis by blast
qed

text \<open>A poll in which the worktree has no file of the name the poller stages.\<close>

definition demoImage :: "string \<Rightarrow> composeServiceRaw" where
  "demoImage ref = \<lparr>csr_Image = ref, csr_Labels = [(ImagePolicyLabel, ''minor'')]\<rparr>"

definition demoPollerEnv :: PollerEnv where
  "demoPollerEnv = \<lparr>pe_sort = insertionSort, pe_repoPath = (\<lambda>evs u. ''/data/git''), pe_tags = (\<lambda>evs i. Inr [''1.2'', ''1.2.9'']),
     pe_yaml = (\<lambda>d. Inr [(''web'', demoImage d)]), pe_write = (\<lambda>evs p. None),
     pe_commit = (\<lambda>evs u m fs. Some (Errorf ''staging %s: entry not found'' fs)), pe_push = (\<lambda>evs u. None), pe_ctxErr = (\<lambda>evs. None), pe_pick = (\<lambda>evs. 0)\<rparr>"

theorem failed_commit_not_retried_witness:
  "let w1 = snd (checkComposeFile demoPollerEnv ''shop'' ''url'' ''f'' ''f'' \<lparr>pw_files = [''f'' \<mapsto> ''nginx:1.2''], pw_events = []\<rparr>)
   in fst (checkComposeFile demoPollerEnv ''shop'' ''url'' ''f'' ''f'' w1) = None \<and> pw_files w1 ''f'' = Some ''nginx:1.2.9''"
proof -
  let ?w = "\<lparr>pw_files = [''f'' \<mapsto> ''nginx:1.2''], pw_events = []\<rparr>"
  let ?ls = "[ListedTags ''nginx'' (Inr [''1.2'', ''1.2.9''])]"
  let ?cm = "Committed ''url'' (updateMessage ''shop'') [''f''] (Some (Errorf ''staging %s: entry not found'' [''f'']))"
  let ?w1 = "\<lparr>pw_files = [''f'' \<mapsto> ''nginx:1.2.9''], pw_events = ?ls @ [WroteFile ''f'' ''nginx:1.2.9'' None, ?cm]\<rparr>"
  have u: "updateImages demoPollerEnv [(''web'', demoImage ''nginx:1.2'')] ([], ''nginx:1.2'', False) = (?ls, ''nginx:1.2.9'', True)"
    by code_simp
  have c: "checkComposeFile demoPollerEnv ''shop'' ''url'' ''f'' ''f'' ?w
      = (Some (Wrapf ''committing image update: %w'' [] (Errorf ''staging %s: entry not found'' [''f''])), ?w1)"
    using u by (simp add: checkComposeFile_def demoPollerEnv_def)
  have "upToDate demoPollerEnv (demoImage ''nginx:1.2.9'')"
  proof -
    have "ParseImageRef ''nginx:1.2.9'' = (''nginx'', ''1.2.9'')" "\<not> upgrade ''minor'' ''1.2.9'' ''1.2''" "\<not> upgrade ''minor'' ''1.2.9'' ''1.2.9''"
      by code_simp+
    then show ?thesis by (simp add: upToDate_def demoImage_def demoPollerEnv_def)
  qed
  moreover have "pe_yaml demoPollerEnv ''nginx:1.2.9'' = Inr [(''web'', demoImage ''nginx:1.2.9'')]" by (simp add: demoPollerEnv_def)
  ultimately have "\<exists>ls. checkComposeFile demoPollerEnv ''shop'' ''url'' ''f'' ''f'' ?w1 = (None, ?w1\<lparr>pw_events := pw_events ?w1 @ ls\<rparr>)"
    using failed_commit_not_retried [OF c] by (auto dest!: fun_cong [of _ _ "''f''"])
  then show ?thesis unfolding c by auto
qed

text \<open>The first occurrence is replaced, also inside a longer reference: the other service changes its version.\<close>

lemma update_hits_longer_reference:
  "Replace1 ''a: nginx:1.25 b: nginx:1.2'' ''nginx:1.2'' ''nginx:1.2.9'' = ''a: nginx:1.2.95 b: nginx:1.2''"
  by code_simp

end
