(* ===== verification/Debounce.thy ===== *)
theory Debounce
  imports Prelude
begin

text \<open>
  The debouncer of container events (\<^verbatim>\<open>events/debounce.go\<close>) as a transition system. A timer made by
  \<^verbatim>\<open>time.AfterFunc\<close> has an identity; it is active until it fires or is stopped, and when it fires its
  function runs in a goroutine of its own that first has to take the lock. Between the two, another
  call of \<^verbatim>\<open>Debounce\<close> or \<^verbatim>\<open>StopAll\<close> may take the lock: \<^verbatim>\<open>Stop\<close> does not stop a timer that has fired.
\<close>

record Debouncer =
  d_timers :: "nat gomap"
  d_active :: "(nat \<times> string) list"
  d_fired :: "(nat \<times> string) list"
  d_next :: nat
  d_calls :: "string list"

definition NewDebouncer :: Debouncer where
  "NewDebouncer = \<lparr>d_timers = [], d_active = [], d_fired = [], d_next = 0, d_calls = []\<rparr>"

text \<open>\<^verbatim>\<open>t.Stop()\<close>.\<close>

definition stopTimer :: "nat \<Rightarrow> Debouncer \<Rightarrow> Debouncer" where
  "stopTimer t d = d\<lparr>d_active := AList.delete t (d_active d)\<rparr>"

text \<open>The callback of a key is identified with the key: the watcher passes the trigger of the application.\<close>

definition Debounce :: "string \<Rightarrow> Debouncer \<Rightarrow> Debouncer" where
  "Debounce key d =
     (let d = (case map_of (d_timers d) key of Some t \<Rightarrow> stopTimer t d | None \<Rightarrow> d)
      in d\<lparr>d_timers := AList.update key (d_next d) (d_timers d), d_active := (d_next d, key) # d_active d, d_next := Suc (d_next d)\<rparr>)"

definition StopAll :: "Debouncer \<Rightarrow> Debouncer" where
  "StopAll d = (fold (\<lambda>(key, t) d. stopTimer t d) (d_timers d) d)\<lparr>d_timers := []\<rparr>"

definition Pending :: "Debouncer \<Rightarrow> nat" where
  "Pending d = length (d_timers d)"

text \<open>A timer fires; its function takes the lock, deletes the entry of its key and then calls back.\<close>

definition fire :: "nat \<Rightarrow> string \<Rightarrow> Debouncer \<Rightarrow> Debouncer" where
  "fire t key d = d\<lparr>d_active := AList.delete t (d_active d), d_fired := (t, key) # d_fired d\<rparr>"

definition callback :: "nat \<Rightarrow> string \<Rightarrow> Debouncer \<Rightarrow> Debouncer" where
  "callback t key d = d\<lparr>d_timers := AList.delete key (d_timers d), d_fired := AList.delete t (d_fired d), d_calls := d_calls d @ [key]\<rparr>"

datatype DLabel = DebounceOf string | Fires nat | Runs nat | StopsAll

inductive deb_step :: "Debouncer \<Rightarrow> DLabel \<Rightarrow> Debouncer \<Rightarrow> bool" where
  debounce: "deb_step d (DebounceOf key) (Debounce key d)"
| fires: "(t, key) \<in> set (d_active d) \<Longrightarrow> deb_step d (Fires t) (fire t key d)"
| runs: "(t, key) \<in> set (d_fired d) \<Longrightarrow> deb_step d (Runs t) (callback t key d)"
| stops: "deb_step d StopsAll (StopAll d)"

inductive deb_run :: "Debouncer \<Rightarrow> DLabel list \<Rightarrow> Debouncer \<Rightarrow> bool" where
  deb_nil: "deb_run d [] d"
| deb_cons: "deb_step d l d' \<Longrightarrow> deb_run d' ls d'' \<Longrightarrow> deb_run d (l # ls) d''"

inductive_cases deb_stepE: "deb_step d l d'"

lemma deb_run_append: "deb_run d ls d' \<Longrightarrow> deb_run d' ks d'' \<Longrightarrow> deb_run d (ls @ ks) d''"
  by (induction rule: deb_run.induct) (auto intro: deb_run.intros)

section \<open>Timers belong to their keys\<close>

definition live :: "Debouncer \<Rightarrow> (nat \<times> string) set" where
  "live d = set (d_active d) \<union> set (d_fired d)"

definition deb_inv :: "Debouncer \<Rightarrow> bool" where
  "deb_inv d = ((\<forall>t k. (t, k) \<in> live d \<longrightarrow> t < d_next d \<and> (\<forall>k'. (t, k') \<in> live d \<longrightarrow> k' = k))
     \<and> (\<forall>k t. map_of (d_timers d) k = Some t \<longrightarrow> t < d_next d \<and> (\<forall>k'. (t, k') \<in> live d \<longrightarrow> k' = k)))"

lemma NewDebouncer_inv: "deb_inv NewDebouncer"
  by (simp add: deb_inv_def NewDebouncer_def live_def)

lemma in_delete: "(t, k) \<in> set (AList.delete s m) \<longleftrightarrow> (t, k) \<in> set m \<and> t \<noteq> s"
  by (auto simp: AList.delete_eq)

lemma stopTimer_sel [simp]: "d_timers (stopTimer t d) = d_timers d" "d_fired (stopTimer t d) = d_fired d"
  "d_next (stopTimer t d) = d_next d" "d_calls (stopTimer t d) = d_calls d" "d_active (stopTimer t d) = AList.delete t (d_active d)"
  by (simp_all add: stopTimer_def)

lemma deb_invI:
  assumes "\<And>t k. (t, k) \<in> live d \<Longrightarrow> t < d_next d" and "\<And>t k k'. (t, k) \<in> live d \<Longrightarrow> (t, k') \<in> live d \<Longrightarrow> k' = k"
    and "\<And>k t. map_of (d_timers d) k = Some t \<Longrightarrow> t < d_next d" and "\<And>k t k'. map_of (d_timers d) k = Some t \<Longrightarrow> (t, k') \<in> live d \<Longrightarrow> k' = k"
  shows "deb_inv d"
  unfolding deb_inv_def using assms by blast

lemma deb_invD:
  assumes "deb_inv d"
  shows "(t, k) \<in> live d \<Longrightarrow> t < d_next d" and "(t, k) \<in> live d \<Longrightarrow> (t, k') \<in> live d \<Longrightarrow> k' = k"
    and "map_of (d_timers d) k = Some t \<Longrightarrow> t < d_next d" and "map_of (d_timers d) k = Some t \<Longrightarrow> (t, k') \<in> live d \<Longrightarrow> k' = k"
  using assms unfolding deb_inv_def by blast+

lemma deb_inv_subset:
  assumes "deb_inv d" "live d' \<subseteq> live d" "d_next d' = d_next d" "map_of (d_timers d') \<subseteq>\<^sub>m map_of (d_timers d)"
  shows "deb_inv d'"
proof -
  have "map_of (d_timers d) k = Some t" if "map_of (d_timers d') k = Some t" for k t
    using assms(4) that by (metis domI map_le_def)
  then show ?thesis
    using deb_invD [OF assms(1)] assms(2,3) by (intro deb_invI) (simp_all, blast+)
qed

lemma stopTimer_inv: "deb_inv d \<Longrightarrow> deb_inv (stopTimer t d)"
  by (erule deb_inv_subset) (auto simp: live_def in_delete)

text \<open>A fresh timer for a key.\<close>

definition startTimer :: "string \<Rightarrow> Debouncer \<Rightarrow> Debouncer" where
  "startTimer key d = d\<lparr>d_timers := AList.update key (d_next d) (d_timers d), d_active := (d_next d, key) # d_active d, d_next := Suc (d_next d)\<rparr>"

lemma Debounce_eq: "Debounce key d = startTimer key (case map_of (d_timers d) key of Some t \<Rightarrow> stopTimer t d | None \<Rightarrow> d)"
  by (simp add: Debounce_def startTimer_def Let_def)

lemma live_startTimer: "live (startTimer key d) = insert (d_next d, key) (live d)"
  by (auto simp: live_def startTimer_def)

lemma startTimer_inv:
  assumes "deb_inv d"
  shows "deb_inv (startTimer key d)"
proof -
  have fresh: "(d_next d, k) \<notin> live d" for k using deb_invD(1) [OF assms] by blast
  have sel: "d_next (startTimer key d) = Suc (d_next d)" "map_of (d_timers (startTimer key d)) = (map_of (d_timers d))(key \<mapsto> d_next d)"
    by (simp_all add: startTimer_def)
  show ?thesis
  proof (rule deb_invI, unfold live_startTimer sel)
    show "t < Suc (d_next d)" if "(t, k) \<in> insert (d_next d, key) (live d)" for t k
      using that deb_invD(1) [OF assms] by (auto simp: less_SucI)
    show "k' = k" if "(t, k) \<in> insert (d_next d, key) (live d)" "(t, k') \<in> insert (d_next d, key) (live d)" for t k k'
      using that fresh deb_invD(2) [OF assms] by auto
    show "t < Suc (d_next d)" if "((map_of (d_timers d))(key \<mapsto> d_next d)) k = Some t" for k t
      using that deb_invD(3) [OF assms] by (auto simp: less_SucI split: if_splits)
    show "k' = k" if "((map_of (d_timers d))(key \<mapsto> d_next d)) k = Some t" "(t, k') \<in> insert (d_next d, key) (live d)" for k t k'
      using that fresh deb_invD(3,4) [OF assms] by (auto split: if_splits)
  qed
qed

lemma fold_stopTimer_inv: "deb_inv d \<Longrightarrow> deb_inv (fold (\<lambda>(key, t) d. stopTimer t d) ts d)"
  by (induction ts arbitrary: d) (auto simp: stopTimer_inv)

lemma live_fire: "deb_inv d \<Longrightarrow> (t, key) \<in> set (d_active d) \<Longrightarrow> live (fire t key d) = live d"
  using deb_invD(2) [of d t key] by (auto simp: live_def fire_def in_delete)

lemma deb_step_inv: "deb_step d l d' \<Longrightarrow> deb_inv d \<Longrightarrow> deb_inv d'"
proof (induction rule: deb_step.induct)
  case (debounce d key)
  then show ?case by (auto simp: Debounce_eq startTimer_inv stopTimer_inv split: option.split)
next
  case (fires t key d)
  have "d_next (fire t key d) = d_next d" "d_timers (fire t key d) = d_timers d" by (simp_all add: fire_def)
  with fires show ?case using deb_inv_subset [of d "fire t key d"] by (simp add: live_fire)
next
  case (runs t key d)
  have "live (callback t key d) \<subseteq> live d" by (auto simp: callback_def live_def in_delete)
  moreover have "d_next (callback t key d) = d_next d" "map_of (d_timers (callback t key d)) \<subseteq>\<^sub>m map_of (d_timers d)"
    by (auto simp: callback_def map_le_def)
  ultimately show ?case using runs deb_inv_subset by blast
next
  case (stops d)
  let ?d = "fold (\<lambda>(key, t) d. stopTimer t d) (d_timers d) d"
  have "deb_inv ?d" using stops by (rule fold_stopTimer_inv)
  moreover have "live (StopAll d) = live ?d" "d_next (StopAll d) = d_next ?d" "d_timers (StopAll d) = []"
    by (simp_all add: StopAll_def live_def)
  ultimately show ?case using deb_inv_subset [of ?d "StopAll d"] by simp
qed

lemma deb_run_inv: "deb_run d ls d' \<Longrightarrow> deb_inv d \<Longrightarrow> deb_inv d'"
  by (induction rule: deb_run.induct) (auto dest: deb_step_inv)

section \<open>No event is lost\<close>

text \<open>A key is due when a timer of it is active, or has fired and its callback is about to run.\<close>

definition due :: "string \<Rightarrow> Debouncer \<Rightarrow> bool" where
  "due key d = (\<exists>t. (t, key) \<in> live d)"

lemma Debounce_due: "due key (Debounce key d)"
  by (auto simp: due_def Debounce_eq live_startTimer)

lemma d_calls_Debounce [simp]: "d_calls (Debounce key d) = d_calls d"
  by (simp add: Debounce_eq startTimer_def split: option.split)

lemma Debounce_keeps_due: "deb_inv d \<Longrightarrow> due key d \<Longrightarrow> due key (Debounce key' d)"
proof (cases "key' = key")
  case False
  assume "deb_inv d" "due key d"
  then obtain t where t: "(t, key) \<in> live d" by (auto simp: due_def)
  have "map_of (d_timers d) key' \<noteq> Some t" using deb_invD(4) [OF \<open>deb_inv d\<close>] t False by blast
  with t have "(t, key) \<in> live (case map_of (d_timers d) key' of Some t \<Rightarrow> stopTimer t d | None \<Rightarrow> d)"
    by (auto simp: live_def in_delete split: option.split)
  then show ?thesis by (auto simp: due_def Debounce_eq live_startTimer)
qed (simp add: Debounce_due)

lemma deb_step_due:
  assumes "deb_step d l d'" "deb_inv d" "l \<noteq> StopsAll" "due key d"
  shows "due key d' \<or> d_calls d' = d_calls d @ [key]"
  using assms(1)
proof cases
  case (debounce key')
  then show ?thesis using assms by (simp add: Debounce_keeps_due)
next
  case (fires t key')
  then show ?thesis using assms by (simp add: due_def live_fire)
next
  case (runs t key')
  show ?thesis
  proof (cases "key' = key")
    case False
    from assms(4) obtain u where "(u, key) \<in> live d" by (auto simp: due_def)
    moreover have "u \<noteq> t" using deb_invD(2) [OF assms(2)] runs(3) calculation False by (auto simp: live_def)
    ultimately show ?thesis by (auto simp: due_def live_def runs callback_def in_delete)
  qed (simp add: runs callback_def)
qed (use assms in simp)

lemma deb_step_calls: "deb_step d l d' \<Longrightarrow> \<exists>ks. d_calls d' = d_calls d @ ks"
proof (induction rule: deb_step.induct)
  case (stops d)
  have "d_calls (fold (\<lambda>(key, t) d. stopTimer t d) ts d) = d_calls d" for ts by (induction ts arbitrary: d) auto
  from this [of "d_timers d"] show ?case by (simp add: StopAll_def)
qed (auto simp: fire_def callback_def)

lemma deb_run_calls: "deb_run d ls d' \<Longrightarrow> \<exists>ks. d_calls d' = d_calls d @ ks"
  by (induction rule: deb_run.induct) (auto dest!: deb_step_calls)

lemma deb_run_due:
  "deb_run d ls d' \<Longrightarrow> deb_inv d \<Longrightarrow> StopsAll \<notin> set ls \<Longrightarrow> due key d \<Longrightarrow> due key d' \<or> key \<in> set (drop (length (d_calls d)) (d_calls d'))"
proof (induction rule: deb_run.induct)
  case (deb_cons d l d' ls d'')
  then consider "due key d'" | "d_calls d' = d_calls d @ [key]" using deb_step_due [of d l d' key] by auto
  then show ?case
  proof cases
    case 1
    with deb_cons have "due key d'' \<or> key \<in> set (drop (length (d_calls d')) (d_calls d''))" by (simp add: deb_step_inv)
    moreover obtain ks where "d_calls d' = d_calls d @ ks" using deb_step_calls deb_cons.hyps(1) by blast
    ultimately show ?thesis using set_drop_subset_set_drop [of "length (d_calls d)" "length (d_calls d')" "d_calls d''"] by auto
  next
    case 2
    with deb_run_calls [OF deb_cons.hyps(2)] show ?thesis by auto
  qed
qed simp

text \<open>
  The callback of an earlier timer deletes the entry of the timer that replaced it, so \<^verbatim>\<open>StopAll\<close> does not
  stop that one: it fires, and calls back, after everything was stopped.
\<close>

lemma StopAll_misses_timer:
  "\<exists>d d'. deb_run NewDebouncer [DebounceOf k, Fires 0, DebounceOf k, Runs 0, StopsAll] d \<and> Pending d = 0 \<and> (1, k) \<in> set (d_active d)
     \<and> deb_run d [Fires 1, Runs 1] d' \<and> d_calls d' = [k, k]"
proof -
  let ?s1 = "\<lparr>d_timers = [(k, 0)], d_active = [(0, k)], d_fired = [], d_next = 1, d_calls = []\<rparr>"
  let ?s2 = "\<lparr>d_timers = [(k, 0)], d_active = [], d_fired = [(0, k)], d_next = 1, d_calls = []\<rparr>"
  let ?s3 = "\<lparr>d_timers = [(k, 1)], d_active = [(1, k)], d_fired = [(0, k)], d_next = 2, d_calls = []\<rparr>"
  let ?s4 = "\<lparr>d_timers = [], d_active = [(1, k)], d_fired = [], d_next = 2, d_calls = [k]\<rparr>"
  let ?s6 = "\<lparr>d_timers = [], d_active = [], d_fired = [(1, k)], d_next = 2, d_calls = [k]\<rparr>"
  let ?s7 = "\<lparr>d_timers = [], d_active = [], d_fired = [], d_next = 2, d_calls = [k, k]\<rparr>"
  note defs = Debounce_def NewDebouncer_def fire_def callback_def StopAll_def Let_def stopTimer_def
  have "deb_step NewDebouncer (DebounceOf k) ?s1" using deb_step.debounce [of NewDebouncer k] by (simp add: defs)
  moreover have "deb_step ?s1 (Fires 0) ?s2" using deb_step.fires [of 0 k ?s1] by (simp add: defs)
  moreover have "deb_step ?s2 (DebounceOf k) ?s3" using deb_step.debounce [of ?s2 k] by (simp add: defs numeral_2_eq_2)
  moreover have "deb_step ?s3 (Runs 0) ?s4" using deb_step.runs [of 0 k ?s3] by (simp add: defs)
  moreover have "deb_step ?s4 StopsAll ?s4" using deb_step.stops [of ?s4] by (simp add: defs)
  moreover have "deb_step ?s4 (Fires 1) ?s6" using deb_step.fires [of 1 k ?s4] by (simp add: defs)
  moreover have "deb_step ?s6 (Runs 1) ?s7" using deb_step.runs [of 1 k ?s6] by (simp add: defs)
  ultimately have "deb_run NewDebouncer [DebounceOf k, Fires 0, DebounceOf k, Runs 0, StopsAll] ?s4" "deb_run ?s4 [Fires 1, Runs 1] ?s7"
    by (meson deb_run.intros)+
  then show ?thesis by (intro exI [of _ ?s4] exI [of _ ?s7]) (simp add: Pending_def)
qed

end
