(* ===== verification/Watcher.thy ===== *)
theory Watcher
  imports Debounce Health
begin

text \<open>
  The watcher of Docker events (\<^verbatim>\<open>events/watcher.go\<close>): the map from compose projects to applications,
  the guard against events that a sync of the controller caused, the handling of one event, and the
  loop that reconnects a stream. The receiver of the events is the debouncer; what its callback does
  is to trigger the reconciliation of the application.
\<close>

record WatcherConfig =
  DebounceWindow :: duration
  SelfEventGuard :: duration
  ReconnectBackoff :: duration
  MaxBackoff :: duration

definition DefaultWatcherConfig :: WatcherConfig where
  "DefaultWatcherConfig = \<lparr>DebounceWindow = 2 * Second, SelfEventGuard = 5 * Second, ReconnectBackoff = Second, MaxBackoff = 30 * Second\<rparr>"

definition watcherConfig :: "WatcherConfig \<Rightarrow> WatcherConfig" where
  "watcherConfig cfg = \<lparr>
     DebounceWindow = (if DebounceWindow cfg \<le> 0 then DebounceWindow DefaultWatcherConfig else DebounceWindow cfg),
     SelfEventGuard = (if SelfEventGuard cfg \<le> 0 then SelfEventGuard DefaultWatcherConfig else SelfEventGuard cfg),
     ReconnectBackoff = (if ReconnectBackoff cfg \<le> 0 then ReconnectBackoff DefaultWatcherConfig else ReconnectBackoff cfg),
     MaxBackoff = (if MaxBackoff cfg \<le> 0 then MaxBackoff DefaultWatcherConfig else MaxBackoff cfg)\<rparr>"

record Watcher = World +
  wt_debounce :: Debouncer
  wt_recentSyncs :: "time gomap"
  wt_projectMap :: "string gomap"
  wt_hostWatchers :: "string list"

record Message =
  msg_Action :: string
  msg_Attributes :: "string gomap"

definition watcher_RecordSync :: "Env \<Rightarrow> string \<Rightarrow> 'w Watcher_scheme \<Rightarrow> 'w Watcher_scheme" where
  "watcher_RecordSync env appName w = w\<lparr>wt_recentSyncs := AList.update appName (e_now env (w_trace w)) (wt_recentSyncs w)\<rparr>"

definition projectMapOf :: "Env \<Rightarrow> ApplicationRecord list \<Rightarrow> string gomap" where
  "projectMapOf env apps =
     fold (\<lambda>a newMap. case unmarshalApp (e_codec env) (ar_Manifest a) of
         Inl e \<Rightarrow> newMap
       | Inr application \<Rightarrow>
           (let projectName = ProjectName (appDestination application)
            in AList.update (if projectName = [] then meta_Name (Metadata application) else projectName) (ar_Name a) newMap)) apps []"

definition refreshProjectMap :: "Env \<Rightarrow> 'w Watcher_scheme \<Rightarrow> unit result \<times> 'w Watcher_scheme" where
  "refreshProjectMap env w =
     (case ListApplications env w of
        (Inl e, w) \<Rightarrow> (Inl e, w)
      | (Inr apps, w) \<Rightarrow> (Inr (), w\<lparr>wt_projectMap := projectMapOf env apps\<rparr>))"

definition isSelfEvent :: "Env \<Rightarrow> WatcherConfig \<Rightarrow> string \<Rightarrow> 'w Watcher_scheme \<Rightarrow> bool \<times> 'w Watcher_scheme" where
  "isSelfEvent env cfg appName w =
     (case map_of (wt_recentSyncs w) appName of
        None \<Rightarrow> (False, w)
      | Some syncTime \<Rightarrow>
          (if e_now env (w_trace w) - syncTime \<le> SelfEventGuard cfg then (True, w)
           else (False, w\<lparr>wt_recentSyncs := AList.delete appName (wt_recentSyncs w)\<rparr>)))"

definition recordEvent :: "Env \<Rightarrow> string \<Rightarrow> Message \<Rightarrow> string \<Rightarrow> 'w World_scheme \<Rightarrow> 'w World_scheme" where
  "recordEvent env appName msg serviceName w =
     snd (RecordEvent env \<lparr>er_ID = [], er_AppName = appName, er_Type = ''ContainerEvent'',
        er_Message = Errorf ''Container %s: %s'' [msg_Action msg, serviceName], er_Severity = ''warning'', er_DataJSON = [], er_CreatedAt = 0\<rparr> w)"

definition handleEvent :: "Env \<Rightarrow> WatcherConfig \<Rightarrow> Receivers \<Rightarrow> Message \<Rightarrow> 'w Watcher_scheme \<Rightarrow> 'w Watcher_scheme" where
  "handleEvent env cfg rc msg w =
     (let projectName = strAt (msg_Attributes msg) ''com.docker.compose.project'';
          serviceName = strAt (msg_Attributes msg) ''com.docker.compose.service''
      in if projectName = [] then w
         else case map_of (wt_projectMap w) projectName of
                None \<Rightarrow> w
              | Some appName \<Rightarrow>
                  (if strAt (msg_Attributes msg) IgnoreDriftLabel = ''true'' then w
                   else case isSelfEvent env cfg appName w of
                          (True, w) \<Rightarrow> w
                        | (False, w) \<Rightarrow>
                            (let w = recordEvent env appName msg serviceName w;
                                 w = broadcast rc \<lparr>be_Type = ''container'', be_AppName = appName,
                                       be_Data = DataFields [(''action'', msg_Action msg), (''service'', serviceName)]\<rparr> w
                             in w\<lparr>wt_debounce := Debounce appName (wt_debounce w)\<rparr>)))"

section \<open>Streams\<close>

text \<open>
  One connection of \<^verbatim>\<open>streamEvents\<close>: whether the client could be made, the messages it delivered before the
  stream ended (with an error or by a closed channel), whether the context was done by then, and
  whether it became done during the wait that follows.
\<close>

record StreamRun =
  sr_connected :: bool
  sr_messages :: "Message list"
  sr_ctxDone :: bool
  sr_doneInWait :: bool

definition streamEvents :: "Env \<Rightarrow> WatcherConfig \<Rightarrow> Receivers \<Rightarrow> StreamRun \<Rightarrow> 'w Watcher_scheme \<Rightarrow> 'w Watcher_scheme" where
  "streamEvents env cfg rc run w = (if sr_connected run then fold (handleEvent env cfg rc) (sr_messages run) w else w)"

definition nextBackoff :: "WatcherConfig \<Rightarrow> duration \<Rightarrow> duration" where
  "nextBackoff cfg backoff = (let b = backoff * 2 in if b > MaxBackoff cfg then MaxBackoff cfg else b)"

text \<open>The loop, over the connections until the context is done: the waits between them and the state.\<close>

fun watchLoop :: "Env \<Rightarrow> WatcherConfig \<Rightarrow> Receivers \<Rightarrow> duration \<Rightarrow> StreamRun list \<Rightarrow> 'w Watcher_scheme \<Rightarrow> duration list \<times> 'w Watcher_scheme" where
  "watchLoop env cfg rc backoff [] w = ([], w)"
| "watchLoop env cfg rc backoff (run # runs) w =
     (let w = streamEvents env cfg rc run w
      in if sr_ctxDone run then ([], w)
         else if sr_doneInWait run then ([backoff], w)
         else case watchLoop env cfg rc (nextBackoff cfg backoff) runs w of (waits, w) \<Rightarrow> (backoff # waits, w))"

definition WatchHost :: "string \<Rightarrow> 'w Watcher_scheme \<Rightarrow> 'w Watcher_scheme" where
  "WatchHost host w = (if host \<in> set (wt_hostWatchers w) then w else w\<lparr>wt_hostWatchers := host # wt_hostWatchers w\<rparr>)"

definition UnwatchHost :: "string \<Rightarrow> 'w Watcher_scheme \<Rightarrow> 'w Watcher_scheme" where
  "UnwatchHost host w = w\<lparr>wt_hostWatchers := removeAll host (wt_hostWatchers w)\<rparr>"

text \<open>The state at the start: the project map is built once; a failure leaves it empty.\<close>

definition startWatcher :: "Env \<Rightarrow> 'w Watcher_scheme \<Rightarrow> 'w Watcher_scheme" where
  "startWatcher env w = snd (refreshProjectMap env w)"

section \<open>Events lead to reconciliation\<close>

lemma isSelfEvent_sel [simp]:
  "wt_debounce (snd (isSelfEvent env cfg a w)) = wt_debounce w" "wt_projectMap (snd (isSelfEvent env cfg a w)) = wt_projectMap w"
  "w_trace (snd (isSelfEvent env cfg a w)) = w_trace w"
  by (simp_all add: isSelfEvent_def split: option.split)

lemma exec_watcher: "wt_debounce (snd (exec env stmt f w)) = wt_debounce w" "wt_projectMap (snd (exec env stmt f w)) = wt_projectMap w"
  "wt_recentSyncs (snd (exec env stmt f w)) = wt_recentSyncs w"
  by (simp_all add: exec_def split: option.split prod.split)

lemma recordEvent_sel [simp]: "wt_debounce (recordEvent env a m s w) = wt_debounce w" "wt_projectMap (recordEvent env a m s w) = wt_projectMap w"
  by (simp_all add: recordEvent_def RecordEvent_def Let_def exec_watcher)

lemma broadcast_sel [simp]: "wt_debounce (broadcast rc ev w) = wt_debounce w" "wt_projectMap (broadcast rc ev w) = wt_projectMap w"
  by (simp_all add: broadcast_def)

text \<open>The application that an event asks to reconcile.\<close>

definition target :: "Env \<Rightarrow> WatcherConfig \<Rightarrow> Message \<Rightarrow> 'w Watcher_scheme \<Rightarrow> string option" where
  "target env cfg msg w =
     (let project = strAt (msg_Attributes msg) ''com.docker.compose.project''
      in case map_of (wt_projectMap w) project of
           None \<Rightarrow> None
         | Some appName \<Rightarrow>
             (if project \<noteq> [] \<and> strAt (msg_Attributes msg) IgnoreDriftLabel \<noteq> ''true''
                 \<and> (case map_of (wt_recentSyncs w) appName of None \<Rightarrow> True | Some t \<Rightarrow> e_now env (w_trace w) - t > SelfEventGuard cfg)
              then Some appName else None))"

lemma isSelfEvent_fst: "fst (isSelfEvent env cfg a w) = (case map_of (wt_recentSyncs w) a of None \<Rightarrow> False | Some t \<Rightarrow> \<not> e_now env (w_trace w) - t > SelfEventGuard cfg)"
  by (auto simp: isSelfEvent_def split: option.split)

lemma handleEvent_debounce:
  "wt_debounce (handleEvent env cfg rc msg w) = (case target env cfg msg w of None \<Rightarrow> wt_debounce w | Some a \<Rightarrow> Debounce a (wt_debounce w))"
proof (cases "map_of (wt_projectMap w) (strAt (msg_Attributes msg) ''com.docker.compose.project'')")
  case (Some a)
  obtain b w' where s: "isSelfEvent env cfg a w = (b, w')" by (cases "isSelfEvent env cfg a w")
  then have b: "b = (case map_of (wt_recentSyncs w) a of None \<Rightarrow> False | Some t \<Rightarrow> \<not> e_now env (w_trace w) - t > SelfEventGuard cfg)"
    using isSelfEvent_fst [of env cfg a w] by simp
  have w': "wt_debounce w' = wt_debounce w" using isSelfEvent_sel(1) [of env cfg a w] s by simp
  show ?thesis using Some s b w' by (auto simp: handleEvent_def target_def Let_def split: option.splits)
qed (simp add: handleEvent_def target_def Let_def)

text \<open>
  C32: No container event is lost. When an event of a managed project arrives that is not marked as
  ignored and not within the guard after a recorded sync, then at every later moment, in every
  interleaving of timers, callbacks and further events, the reconciliation of the application is still
  due or has been triggered since, unless the debouncer was stopped. Any other event leaves the timers
  as they are.
\<close>

theorem container_event_not_lost:
  assumes "deb_run NewDebouncer ls0 (wt_debounce w)"
    and "deb_run (wt_debounce (handleEvent env cfg rc msg w)) ls d" and "StopsAll \<notin> set ls"
  shows "case target env cfg msg w of
      None \<Rightarrow> wt_debounce (handleEvent env cfg rc msg w) = wt_debounce w
    | Some appName \<Rightarrow> due appName d \<or> appName \<in> set (drop (length (d_calls (wt_debounce w))) (d_calls d))"
proof (cases "target env cfg msg w")
  case None
  then show ?thesis by (simp add: handleEvent_debounce)
next
  case (Some a)
  have "deb_inv (wt_debounce w)" using deb_run_inv [OF assms(1) NewDebouncer_inv] .
  then have "deb_inv (Debounce a (wt_debounce w))" using deb_step.debounce deb_step_inv by blast
  moreover have "deb_run (Debounce a (wt_debounce w)) ls d" using assms(2) Some by (simp add: handleEvent_debounce)
  ultimately have "due a d \<or> a \<in> set (drop (length (d_calls (Debounce a (wt_debounce w)))) (d_calls d))"
    using assms(3) Debounce_due by (intro deb_run_due)
  then show ?thesis using Some by simp
qed

definition demoWatcher :: Watcher where
  "demoWatcher = \<lparr>w_trace = [], w_db = \<lparr>db_apps = [], db_syncs = [], db_events = [], db_hosts = []\<rparr>,
     wt_debounce = NewDebouncer, wt_recentSyncs = [], wt_projectMap = [(''shop'', ''web'')], wt_hostWatchers = []\<rparr>"

definition demoMessage :: Message where
  "demoMessage = \<lparr>msg_Action = ''die'', msg_Attributes = [(''com.docker.compose.project'', ''shop''), (''com.docker.compose.service'', ''db'')]\<rparr>"

theorem container_event_not_lost_witness:
  "let w = handleEvent (demoEnv (\<lambda>cs p. []) []) DefaultWatcherConfig \<lparr>rc_Notifier = False, rc_Broadcaster = True\<rparr> demoMessage demoWatcher
   in due ''web'' (fire 0 ''web'' (wt_debounce w)) \<or> ''web'' \<in> set (d_calls (fire 0 ''web'' (wt_debounce w)))"
proof -
  let ?env = "demoEnv (\<lambda>cs p. []) []" and ?rc = "\<lparr>rc_Notifier = False, rc_Broadcaster = True\<rparr>"
  let ?d = "wt_debounce (handleEvent ?env DefaultWatcherConfig ?rc demoMessage demoWatcher)"
  have t: "target ?env DefaultWatcherConfig demoMessage demoWatcher = Some ''web''"
    by (simp add: target_def demoMessage_def demoWatcher_def strAt_def IgnoreDriftLabel_def)
  have d: "?d = Debounce ''web'' NewDebouncer" by (simp add: handleEvent_debounce t) (simp add: demoWatcher_def)
  have "deb_run NewDebouncer [] (wt_debounce demoWatcher)" by (simp add: demoWatcher_def deb_run.deb_nil)
  moreover have "deb_run ?d [Fires 0] (fire 0 ''web'' ?d)"
    unfolding d by (rule deb_run.deb_cons [OF deb_step.fires deb_run.deb_nil]) (simp add: Debounce_def NewDebouncer_def)
  ultimately show ?thesis
    using container_event_not_lost [of "[]" demoWatcher ?env DefaultWatcherConfig ?rc demoMessage "[Fires 0]" "fire 0 ''web'' ?d"] t
    by (simp add: demoWatcher_def NewDebouncer_def Let_def)
qed

section \<open>Reconnection\<close>

lemma nextBackoff_bounds: "0 < b \<Longrightarrow> 0 < MaxBackoff cfg \<Longrightarrow> 0 < nextBackoff cfg b \<and> nextBackoff cfg b \<le> MaxBackoff cfg"
  by (auto simp: nextBackoff_def Let_def)

text \<open>The waits double up to the maximum; a connection that worked for a while does not reset them.\<close>

lemma watchLoop_waits:
  "i < length (fst (watchLoop env cfg rc b runs w)) \<Longrightarrow> fst (watchLoop env cfg rc b runs w) ! i = (nextBackoff cfg ^^ i) b"
proof (induction runs arbitrary: b w i)
  case (Cons run runs)
  let ?w = "streamEvents env cfg rc run w"
  obtain waits w' where r: "watchLoop env cfg rc (nextBackoff cfg b) runs ?w = (waits, w')" by fastforce
  have IH: "waits ! j = (nextBackoff cfg ^^ j) (nextBackoff cfg b)" if "j < length waits" for j
    using Cons.IH [of j "nextBackoff cfg b" ?w] that r by simp
  show ?case using Cons.prems IH r by (cases i) (auto simp: Let_def funpow_swap1 split: if_splits)
qed simp

text \<open>A project of a colour is not in the map unless an application has that very project name.\<close>

lemma unknown_project_ignored:
  "map_of (wt_projectMap w) (strAt (msg_Attributes msg) ''com.docker.compose.project'') = None \<Longrightarrow> handleEvent env cfg rc msg w = w"
  by (simp add: handleEvent_def Let_def)

end
