(* ===== verification/EventBus.thy ===== *)
theory EventBus
  imports Effects "HOL-Library.Sublist"
begin

text \<open>
  The event bus (\<^verbatim>\<open>eventbus/eventbus.go\<close>): subscribers with a buffered channel each, a broadcast that never
  blocks, and the end of a subscription. A channel keeps its identity after the end of its
  subscription, since its reader may still drain it. Subscriber identifiers are counted without the
  wrap-around of \<^verbatim>\<open>uint64\<close>, which takes \<open>2 ^ 64\<close> subscriptions.
\<close>

record Event = BusEvent +
  ev_Timestamp :: "time option"

text \<open>\<open>ch_read\<close> and \<open>ch_log\<close> are not in the code: what was read from the channel, and what was broadcast while it was subscribed.\<close>

record Chan =
  ch_buf :: "Event list"
  ch_closed :: bool
  ch_read :: "Event list"
  ch_log :: "Event list"

record Hub =
  h_subscribers :: "nat list"
  h_nextID :: nat
  h_chans :: "nat \<Rightarrow> Chan"

definition chanCap :: nat where "chanCap = 64"

definition newChan :: Chan where
  "newChan = \<lparr>ch_buf = [], ch_closed = False, ch_read = [], ch_log = []\<rparr>"

definition NewHub :: Hub where
  "NewHub = \<lparr>h_subscribers = [], h_nextID = 0, h_chans = (\<lambda>i. newChan)\<rparr>"

definition Subscribe :: "Hub \<Rightarrow> nat \<times> Hub" where
  "Subscribe h = (h_nextID h, h\<lparr>h_subscribers := h_nextID h # h_subscribers h, h_nextID := Suc (h_nextID h),
     h_chans := (h_chans h)(h_nextID h := newChan)\<rparr>)"

text \<open>Closing a closed channel panics: the value is \<open>None\<close>.\<close>

definition unsubscribe :: "nat \<Rightarrow> Hub \<Rightarrow> Hub option" where
  "unsubscribe i h =
     (if ch_closed (h_chans h i) then None
      else Some (h\<lparr>h_subscribers := removeAll i (h_subscribers h), h_chans := (h_chans h)(i := (h_chans h i)\<lparr>ch_closed := True\<rparr>)\<rparr>))"

text \<open>A send with a default case: the event is dropped when the buffer is full. Sending on a closed channel panics.\<close>

definition trySend :: "Event \<Rightarrow> Chan \<Rightarrow> Chan option" where
  "trySend ev c =
     (if ch_closed c then None
      else Some (c\<lparr>ch_buf := (if length (ch_buf c) < chanCap then ch_buf c @ [ev] else ch_buf c), ch_log := ch_log c @ [ev]\<rparr>))"

fun sendAll :: "Event \<Rightarrow> nat list \<Rightarrow> (nat \<Rightarrow> Chan) \<Rightarrow> (nat \<Rightarrow> Chan) option" where
  "sendAll ev [] cs = Some cs"
| "sendAll ev (i # is) cs = (case trySend ev (cs i) of None \<Rightarrow> None | Some c \<Rightarrow> sendAll ev is (cs(i := c)))"

definition Broadcast :: "time \<Rightarrow> Event \<Rightarrow> Hub \<Rightarrow> Hub option" where
  "Broadcast now event h =
     (let event = (if ev_Timestamp event = None then event\<lparr>ev_Timestamp := Some now\<rparr> else event)
      in map_option (\<lambda>cs. h\<lparr>h_chans := cs\<rparr>) (sendAll event (h_subscribers h) (h_chans h)))"

text \<open>A reader takes the next event of its channel.\<close>

definition receive :: "nat \<Rightarrow> Hub \<Rightarrow> (Event \<times> Hub) option" where
  "receive i h =
     (case ch_buf (h_chans h i) of
        [] \<Rightarrow> None
      | e # es \<Rightarrow> Some (e, h\<lparr>h_chans := (h_chans h)(i := (h_chans h i)\<lparr>ch_buf := es, ch_read := ch_read (h_chans h i) @ [e]\<rparr>)\<rparr>))"

text \<open>The steps of a program in which each subscription is ended at most once, by its subscriber.\<close>

inductive hub_step :: "Hub \<Rightarrow> Hub \<Rightarrow> bool" where
  subscribes: "hub_step h (snd (Subscribe h))"
| unsubscribes: "i \<in> set (h_subscribers h) \<Longrightarrow> unsubscribe i h = Some h' \<Longrightarrow> hub_step h h'"
| broadcasts: "Broadcast now ev h = Some h' \<Longrightarrow> hub_step h h'"
| receives: "receive i h = Some (e, h') \<Longrightarrow> hub_step h h'"

section \<open>Delivery\<close>

definition chan_ok :: "Chan \<Rightarrow> bool" where
  "chan_ok c = (length (ch_buf c) \<le> chanCap \<and> subseq (ch_read c @ ch_buf c) (ch_log c))"

definition hub_inv :: "Hub \<Rightarrow> bool" where
  "hub_inv h = (distinct (h_subscribers h) \<and> (\<forall>i\<in>set (h_subscribers h). i < h_nextID h \<and> \<not> ch_closed (h_chans h i))
     \<and> (\<forall>i. chan_ok (h_chans h i)))"

lemma trySend_open: "\<not> ch_closed c \<Longrightarrow> \<exists>c'. trySend ev c = Some c' \<and> \<not> ch_closed c'"
  by (simp add: trySend_def)

lemma trySend_ok: "chan_ok c \<Longrightarrow> trySend ev c = Some c' \<Longrightarrow> chan_ok c'"
proof -
  assume c: "chan_ok c" and t: "trySend ev c = Some c'"
  have "subseq ((ch_read c @ ch_buf c) @ [ev]) (ch_log c @ [ev])"
    using c by (intro list_emb_append_mono) (simp_all add: chan_ok_def)
  moreover have "subseq (ch_read c @ ch_buf c) (ch_log c @ [ev])" using c by (auto simp: chan_ok_def intro: subseq_order.trans)
  ultimately show ?thesis using c t by (auto simp: chan_ok_def trySend_def split: if_splits)
qed

lemma sendAll_spec:
  assumes "distinct is" "\<forall>i\<in>set is. \<not> ch_closed (cs i)"
  shows "sendAll ev is cs = Some (\<lambda>i. if i \<in> set is then the (trySend ev (cs i)) else cs i)"
  using assms
proof (induction "is" arbitrary: cs)
  case (Cons i "is")
  obtain c where c: "trySend ev (cs i) = Some c" using trySend_open [of "cs i" ev] Cons.prems(2) by auto
  have "sendAll ev is (cs(i := c)) = Some (\<lambda>j. if j \<in> set is then the (trySend ev ((cs(i := c)) j)) else (cs(i := c)) j)"
    using Cons.prems by (intro Cons.IH) auto
  then show ?case using Cons.prems(1) c by (auto simp: fun_eq_iff)
qed simp

lemma hub_inv_NewHub: "hub_inv NewHub"
  by (simp add: hub_inv_def NewHub_def chan_ok_def newChan_def)

lemma Broadcast_spec:
  assumes "hub_inv h"
  shows "\<exists>ev'. Broadcast now ev h = Some (h\<lparr>h_chans := (\<lambda>i. if i \<in> set (h_subscribers h) then the (trySend ev' (h_chans h i)) else h_chans h i)\<rparr>)
    \<and> be_Type ev' = be_Type ev \<and> be_AppName ev' = be_AppName ev \<and> be_Data ev' = be_Data ev
    \<and> ev_Timestamp ev' = Some (case ev_Timestamp ev of None \<Rightarrow> now | Some t \<Rightarrow> t)"
  using assms by (auto simp: Broadcast_def Let_def sendAll_spec hub_inv_def split: option.split)

lemma hub_step_inv: "hub_step h h' \<Longrightarrow> hub_inv h \<Longrightarrow> hub_inv h'"
proof (induction rule: hub_step.induct)
  case (subscribes h)
  then show ?case by (auto simp: Subscribe_def hub_inv_def chan_ok_def newChan_def less_SucI)
next
  case (unsubscribes i h h')
  then show ?case by (auto simp: unsubscribe_def hub_inv_def chan_ok_def distinct_removeAll split: if_splits)
next
  case (broadcasts now ev h h')
  from Broadcast_spec [OF broadcasts.prems, of now ev] broadcasts.hyps obtain ev'
    where h': "h' = h\<lparr>h_chans := (\<lambda>i. if i \<in> set (h_subscribers h) then the (trySend ev' (h_chans h i)) else h_chans h i)\<rparr>" by auto
  have "\<exists>c. trySend ev' (h_chans h i) = Some c \<and> \<not> ch_closed c \<and> chan_ok c" if "i \<in> set (h_subscribers h)" for i
    using that broadcasts.prems trySend_open trySend_ok unfolding hub_inv_def by meson
  then show ?case using broadcasts.prems by (fastforce simp: h' hub_inv_def)
next
  case (receives i h e h')
  then obtain es where es: "ch_buf (h_chans h i) = e # es"
    and h': "h' = h\<lparr>h_chans := (h_chans h)(i := (h_chans h i)\<lparr>ch_buf := es, ch_read := ch_read (h_chans h i) @ [e]\<rparr>)\<rparr>"
    by (auto simp: receive_def split: list.splits)
  have "chan_ok (h_chans h i)" using receives.prems by (simp add: hub_inv_def)
  then have "chan_ok ((h_chans h i)\<lparr>ch_buf := es, ch_read := ch_read (h_chans h i) @ [e]\<rparr>)" using es by (simp add: chan_ok_def)
  then show ?case using receives.prems by (simp add: h' hub_inv_def)
qed

lemma hub_reachable_inv: "hub_step\<^sup>*\<^sup>* NewHub h \<Longrightarrow> hub_inv h"
  by (induction rule: rtranclp_induct) (auto simp: hub_inv_NewHub intro: hub_step_inv)

text \<open>
  C38: The event bus. In every reachable state a broadcast succeeds without blocking, gives the event to
  every subscriber with room in its channel, with the time of the broadcast when it has none, and leaves
  the other channels as they are. A channel never holds more than its capacity, and what a subscriber has
  read and will read are events broadcast during its subscription in their order, without repetition.
\<close>

theorem hub_delivers_in_order:
  assumes "hub_step\<^sup>*\<^sup>* NewHub h"
  shows "(\<forall>i. length (ch_buf (h_chans h i)) \<le> 64 \<and> subseq (ch_read (h_chans h i) @ ch_buf (h_chans h i)) (ch_log (h_chans h i)))
    \<and> (\<exists>h' ev'. Broadcast now ev h = Some h' \<and> ev_Timestamp ev' = Some (case ev_Timestamp ev of None \<Rightarrow> now | Some t \<Rightarrow> t)
         \<and> be_Type ev' = be_Type ev \<and> be_AppName ev' = be_AppName ev \<and> be_Data ev' = be_Data ev
         \<and> (\<forall>i. ch_buf (h_chans h' i) = ch_buf (h_chans h i)
               @ (if i \<in> set (h_subscribers h) \<and> length (ch_buf (h_chans h i)) < 64 then [ev'] else [])))"
proof -
  note inv = hub_reachable_inv [OF assms]
  obtain ev' where b: "Broadcast now ev h = Some (h\<lparr>h_chans := (\<lambda>i. if i \<in> set (h_subscribers h) then the (trySend ev' (h_chans h i)) else h_chans h i)\<rparr>)"
    and ev': "be_Type ev' = be_Type ev" "be_AppName ev' = be_AppName ev" "be_Data ev' = be_Data ev" "ev_Timestamp ev' = Some (case ev_Timestamp ev of None \<Rightarrow> now | Some t \<Rightarrow> t)"
    using Broadcast_spec [OF inv] by blast
  have "ch_buf (the (trySend ev' (h_chans h i))) = ch_buf (h_chans h i) @ (if length (ch_buf (h_chans h i)) < 64 then [ev'] else [])"
    if "i \<in> set (h_subscribers h)" for i
    using inv that by (simp add: hub_inv_def trySend_def chanCap_def)
  then show ?thesis
    using inv b ev' by (auto simp: hub_inv_def chan_ok_def chanCap_def)
qed

theorem hub_delivers_in_order_witness:
  "\<exists>h'. Broadcast 5 \<lparr>be_Type = ''sync'', be_AppName = ''web'', be_Data = NoData, ev_Timestamp = None\<rparr> (snd (Subscribe NewHub)) = Some h'
     \<and> ch_buf (h_chans h' 0) = [\<lparr>be_Type = ''sync'', be_AppName = ''web'', be_Data = NoData, ev_Timestamp = Some 5\<rparr>]"
proof -
  let ?h = "snd (Subscribe NewHub)"
  have "hub_step\<^sup>*\<^sup>* NewHub ?h" by (rule r_into_rtranclp) (rule hub_step.subscribes)
  from hub_delivers_in_order [OF this, of 5 "\<lparr>be_Type = ''sync'', be_AppName = ''web'', be_Data = NoData, ev_Timestamp = None\<rparr>"]
  show ?thesis by (auto simp: Subscribe_def NewHub_def newChan_def)
qed

text \<open>A second call of the function that ends a subscription closes the channel again.\<close>

lemma unsubscribe_twice: "unsubscribe i h = Some h' \<Longrightarrow> unsubscribe i h' = None"
  by (auto simp: unsubscribe_def split: if_splits)

end
