(* ===== verification/HostMon.thy ===== *)
theory HostMon
  imports Health
begin

text \<open>
  The monitor of Docker hosts (\<^verbatim>\<open>hostmon/monitor.go\<close>) over the store. The probes of a host are a record of
  answers: the system information and the statistics as JSON text, \<open>None\<close> where marshalling fails. The
  goroutines of a sweep are a sequence of checks in an order that the environment chooses.
\<close>

record HostProbes =
  hp_info :: "trace \<Rightarrow> string \<Rightarrow> string option result"
  hp_stats :: "trace \<Rightarrow> string \<Rightarrow> string option result"
  hp_order :: "trace \<Rightarrow> DockerHostRecord list \<Rightarrow> DockerHostRecord list"

record HostMonConfig =
  hm_CheckInterval :: duration
  hm_Timeout :: duration
  hm_MaxConcurrent :: int

definition hostMonDefaultConfig :: HostMonConfig where
  "hostMonDefaultConfig = \<lparr>hm_CheckInterval = 60 * Second, hm_Timeout = 10 * Second, hm_MaxConcurrent = 5\<rparr>"

definition newHostMonitor :: "HostMonConfig \<Rightarrow> HostMonConfig" where
  "newHostMonitor cfg = cfg\<lparr>hm_MaxConcurrent := (if hm_MaxConcurrent cfg \<le> 0 then hm_MaxConcurrent hostMonDefaultConfig else hm_MaxConcurrent cfg)\<rparr>"

definition hostEvent :: "string \<Rightarrow> string \<Rightarrow> BusEvent" where
  "hostEvent host status = \<lparr>be_Type = ''host_health'', be_AppName = [], be_Data = DataFields [(''host'', host), (''status'', status)]\<rparr>"

definition broadcastHostHealth :: "Receivers \<Rightarrow> string \<Rightarrow> string \<Rightarrow> 'w World_scheme \<Rightarrow> 'w World_scheme" where
  "broadcastHostHealth rc hostName status w = broadcast rc (hostEvent hostName status) w"

definition checkHost :: "Env \<Rightarrow> HostProbes \<Rightarrow> Receivers \<Rightarrow> DockerHostRecord \<Rightarrow> 'w World_scheme \<Rightarrow> 'w World_scheme" where
  "checkHost env hp rc host w =
     (let now = e_now env (w_trace w);
          update = \<lparr>hu_HealthStatus = [], hu_LastCheck = Some now, hu_LastError = None, hu_InfoJSON = [], hu_StatsJSON = []\<rparr>
      in case hp_info hp (w_trace w) (dh_URL host) of
           Inl e \<Rightarrow>
             (let w = snd (UpdateDockerHostStatus env (dh_Name host) (update\<lparr>hu_HealthStatus := ''Unreachable'', hu_LastError := Some (Some e)\<rparr>) w)
              in if dh_HealthStatus host \<noteq> ''Unreachable'' then broadcastHostHealth rc (dh_Name host) ''Unreachable'' w else w)
         | Inr info \<Rightarrow>
             (let w = snd (UpdateDockerHostStatus env (dh_Name host) (update\<lparr>hu_HealthStatus := ''Healthy'', hu_LastError := Some None,
                    hu_InfoJSON := (case info of None \<Rightarrow> [] | Some json \<Rightarrow> json),
                    hu_StatsJSON := (case hp_stats hp (w_trace w) (dh_URL host) of Inr (Some json) \<Rightarrow> json | _ \<Rightarrow> [])\<rparr>) w)
              in if dh_HealthStatus host \<noteq> ''Healthy'' then broadcastHostHealth rc (dh_Name host) ''Healthy'' w else w))"

definition CheckHost :: "Env \<Rightarrow> HostProbes \<Rightarrow> Receivers \<Rightarrow> string \<Rightarrow> 'w World_scheme \<Rightarrow> err option \<times> 'w World_scheme" where
  "CheckHost env hp rc name w =
     (case GetDockerHost env name w of
        (Inl e, w) \<Rightarrow> (Some e, w)
      | (Inr None, w) \<Rightarrow> (None, w)
      | (Inr (Some host), w) \<Rightarrow> (None, checkHost env hp rc host w))"

definition hostSweep :: "Env \<Rightarrow> HostProbes \<Rightarrow> Receivers \<Rightarrow> 'w World_scheme \<Rightarrow> 'w World_scheme" where
  "hostSweep env hp rc w =
     (case ListDockerHosts env w of
        (Inl e, w) \<Rightarrow> w
      | (Inr hosts, w) \<Rightarrow> fold (checkHost env hp rc) (hp_order hp (w_trace w) hosts) w)"

section \<open>What a sweep records\<close>

text \<open>The status a probe that answers by the URL alone gives a host.\<close>

definition probeStatus :: "(string \<Rightarrow> string option result) \<Rightarrow> DockerHostRecord \<Rightarrow> string" where
  "probeStatus info host = (case info (dh_URL host) of Inl e \<Rightarrow> ''Unreachable'' | Inr i \<Rightarrow> ''Healthy'')"

definition hostEvents :: "trace \<Rightarrow> BusEvent list" where
  "hostEvents t = List.map_filter (\<lambda>e. case e of Broadcasted b \<Rightarrow> (if be_Type b = ''host_health'' then Some b else None) | _ \<Rightarrow> None) t"

lemma hostEvents_append [simp]: "hostEvents (t @ u) = hostEvents t @ hostEvents u"
  by (simp add: hostEvents_def List.map_filter_def)

lemma UpdateDockerHostStatus_up:
  assumes "e_dbErr env (w_trace w) = None" and "hu_HealthStatus u \<noteq> []"
  shows "w_db (snd (UpdateDockerHostStatus env n u w)) = (w_db w)\<lparr>db_hosts := updateRows dh_Name n (applyHostStatus u (e_now env (w_trace w))) (db_hosts (w_db w))\<rparr>"
    and "w_trace (snd (UpdateDockerHostStatus env n u w)) = w_trace w @ [Queried ''UpdateDockerHostStatus'' None]"
  using assms by (simp_all add: UpdateDockerHostStatus_def exec_def Let_def)

lemma broadcastHostHealth_sel [simp]:
  "w_db (broadcastHostHealth rc n s w) = w_db w"
  "rc_Broadcaster rc \<Longrightarrow> w_trace (broadcastHostHealth rc n s w) = w_trace w @ [Broadcasted (hostEvent n s)]"
  by (simp_all add: broadcastHostHealth_def broadcast_def)

lemma hostEvents_simps [simp]: "hostEvents [] = []" "hostEvents (Queried s r # t) = hostEvents t"
  "hostEvents (Broadcasted (hostEvent n s) # t) = hostEvent n s # hostEvents t"
  by (simp_all add: hostEvents_def List.map_filter_simps hostEvent_def)

text \<open>A row keeps its identity; its status is the given one.\<close>

definition hostRow :: "string \<Rightarrow> DockerHostRecord \<Rightarrow> DockerHostRecord \<Rightarrow> bool" where
  "hostRow status r r' = (dh_Name r' = dh_Name r \<and> dh_URL r' = dh_URL r \<and> dh_HealthStatus r' = status)"

definition changeOf :: "(string \<Rightarrow> string option result) \<Rightarrow> DockerHostRecord \<Rightarrow> BusEvent list" where
  "changeOf info h = (if dh_HealthStatus h \<noteq> probeStatus info h then [hostEvent (dh_Name h) (probeStatus info h)] else [])"

lemma checkHost_effect:
  assumes "e_dbErr env (w_trace w) = None" "hp_info hp (w_trace w) (dh_URL h) = info (dh_URL h)" "rc_Broadcaster rc"
  shows "list_all2 (\<lambda>r r'. hostRow (if dh_Name r = dh_Name h then probeStatus info h else dh_HealthStatus r) r r')
           (db_hosts (w_db w)) (db_hosts (w_db (checkHost env hp rc h w)))"
    and "hostEvents (w_trace (checkHost env hp rc h w)) = hostEvents (w_trace w) @ changeOf info h"
proof -
  show "list_all2 (\<lambda>r r'. hostRow (if dh_Name r = dh_Name h then probeStatus info h else dh_HealthStatus r) r r')
           (db_hosts (w_db w)) (db_hosts (w_db (checkHost env hp rc h w)))"
    using assms by (auto simp: checkHost_def Let_def UpdateDockerHostStatus_up updateRows_def list_all2_map2 list_all2_same hostRow_def
        probeStatus_def applyHostStatus_def split: sum.split)
  show "hostEvents (w_trace (checkHost env hp rc h w)) = hostEvents (w_trace w) @ changeOf info h"
    using assms by (auto simp: checkHost_def Let_def UpdateDockerHostStatus_up probeStatus_def changeOf_def split: sum.split)
qed

lemma list_all2_right: "list_all2 P xs ys \<Longrightarrow> y \<in> set ys \<Longrightarrow> \<exists>x\<in>set xs. P x y"
  by (metis in_set_conv_nth list_all2_conv_all_nth)

lemma checkHosts_effect:
  assumes "\<And>t. e_dbErr env t = None" "\<And>t u. hp_info hp t u = info u" "rc_Broadcaster rc"
  shows "(\<forall>h\<in>set hs. \<forall>r\<in>set (db_hosts (w_db w)). dh_Name r = dh_Name h \<longrightarrow> dh_URL r = dh_URL h) \<Longrightarrow>
      list_all2 (\<lambda>r r'. hostRow (if dh_Name r \<in> dh_Name ` set hs then probeStatus info r else dh_HealthStatus r) r r')
        (db_hosts (w_db w)) (db_hosts (w_db (fold (checkHost env hp rc) hs w)))
      \<and> hostEvents (w_trace (fold (checkHost env hp rc) hs w)) = hostEvents (w_trace w) @ concat (map (changeOf info) hs)"
proof (induction hs arbitrary: w)
  case Nil
  then show ?case by (simp add: list_all2_same hostRow_def)
next
  case (Cons h hs)
  let ?w = "checkHost env hp rc h w"
  note eff = checkHost_effect [where info = info, OF assms, of h w]
  have prem: "\<forall>h\<in>set hs. \<forall>r\<in>set (db_hosts (w_db ?w)). dh_Name r = dh_Name h \<longrightarrow> dh_URL r = dh_URL h"
  proof (intro ballI impI)
    fix g r' assume g: "g \<in> set hs" and r': "r' \<in> set (db_hosts (w_db ?w))" and n: "dh_Name r' = dh_Name g"
    obtain r where "r \<in> set (db_hosts (w_db w))" "dh_Name r' = dh_Name r" "dh_URL r' = dh_URL r"
      using list_all2_right [OF eff(1) r'] by (auto simp: hostRow_def)
    with Cons.prems g n show "dh_URL r' = dh_URL g" by simp
  qed
  note IH = Cons.IH [OF prem]
  have same: "probeStatus info r = probeStatus info h" if "r \<in> set (db_hosts (w_db w))" "dh_Name r = dh_Name h" for r
    using Cons.prems that by (simp add: probeStatus_def)
  have "list_all2 (\<lambda>r r'. hostRow (if dh_Name r \<in> dh_Name ` set (h # hs) then probeStatus info r else dh_HealthStatus r) r r')
      (db_hosts (w_db w)) (db_hosts (w_db (fold (checkHost env hp rc) hs ?w)))"
  proof (rule list_all2_all_nthI)
    show "length (db_hosts (w_db w)) = length (db_hosts (w_db (fold (checkHost env hp rc) hs ?w)))"
      using eff(1) IH by (auto dest!: list_all2_lengthD)
    fix i assume i: "i < length (db_hosts (w_db w))"
    then have "i < length (db_hosts (w_db ?w))" using eff(1) by (auto dest: list_all2_lengthD)
    then show "hostRow (if dh_Name (db_hosts (w_db w) ! i) \<in> dh_Name ` set (h # hs) then probeStatus info (db_hosts (w_db w) ! i)
        else dh_HealthStatus (db_hosts (w_db w) ! i)) (db_hosts (w_db w) ! i) (db_hosts (w_db (fold (checkHost env hp rc) hs ?w)) ! i)"
      using list_all2_nthD [OF eff(1) i] IH same [OF nth_mem [OF i]]
      by (auto dest!: list_all2_nthD [of _ _ _ i] simp: hostRow_def probeStatus_def split: if_splits)
  qed
  then show ?case using IH eff(2) by simp
qed

text \<open>
  Host monitoring. When the database answers and the probes are stable, one sweep gives every
  registered host the status of its probe, whatever order the checks run in; it changes no name or
  URL, and announces exactly the hosts whose status changed.
\<close>

theorem hostSweep_records_probes:
  assumes "\<And>t. e_dbErr env t = None" and "\<And>t u. hp_info hp t u = info u" and "\<And>t hs. mset (hp_order hp t hs) = mset hs"
    and "rc_Broadcaster rc" and "wf_db (w_db w)"
  shows "list_all2 (\<lambda>r r'. dh_Name r' = dh_Name r \<and> dh_URL r' = dh_URL r \<and> dh_HealthStatus r' = probeStatus info r)
           (db_hosts (w_db w)) (db_hosts (w_db (hostSweep env hp rc w)))
    \<and> (\<exists>evs. hostEvents (w_trace (hostSweep env hp rc w)) = hostEvents (w_trace w) @ evs
         \<and> mset evs = mset (map (\<lambda>h. hostEvent (dh_Name h) (probeStatus info h))
             (filter (\<lambda>h. dh_HealthStatus h \<noteq> probeStatus info h) (db_hosts (w_db w)))))"
proof -
  define w1 where "w1 = w\<lparr>w_trace := w_trace w @ [Queried ''ListDockerHosts'' None]\<rparr>"
  let ?hs = "hp_order hp (w_trace w1) (sort_key dh_Name (db_hosts (w_db w)))"
  have sweep: "hostSweep env hp rc w = fold (checkHost env hp rc) ?hs w1"
    using assms(1) by (simp add: hostSweep_def ListDockerHosts_def exec_def wrapErr_def w1_def)
  have m: "mset ?hs = mset (db_hosts (w_db w))" using assms(3) by simp
  then have set: "set ?hs = set (db_hosts (w_db w))" by (rule mset_eq_setD)
  have "inj_on dh_Name (set (db_hosts (w_db w)))" using assms(5) by (simp add: wf_db_def distinct_map)
  then have "\<forall>h\<in>set ?hs. \<forall>r\<in>set (db_hosts (w_db w1)). dh_Name r = dh_Name h \<longrightarrow> dh_URL r = dh_URL h"
    using set by (auto simp: w1_def dest: inj_onD)
  note eff = checkHosts_effect [where info = info, OF assms(1,2,4) this]
  have cm: "concat (map (changeOf info) hs) = map (\<lambda>h. hostEvent (dh_Name h) (probeStatus info h))
      (filter (\<lambda>h. dh_HealthStatus h \<noteq> probeStatus info h) hs)" for hs
    by (induction hs) (simp_all add: changeOf_def)
  have "mset (concat (map (changeOf info) ?hs)) = mset (map (\<lambda>h. hostEvent (dh_Name h) (probeStatus info h))
      (filter (\<lambda>h. dh_HealthStatus h \<noteq> probeStatus info h) (db_hosts (w_db w))))"
    by (simp add: cm assms(3))
  moreover have "hostEvents (w_trace w1) = hostEvents (w_trace w)" by (simp add: w1_def)
  moreover have "list_all2 (\<lambda>r r'. dh_Name r' = dh_Name r \<and> dh_URL r' = dh_URL r \<and> dh_HealthStatus r' = probeStatus info r)
      (db_hosts (w_db w)) (db_hosts (w_db (hostSweep env hp rc w)))"
    using eff unfolding sweep set by (auto simp: list_all2_conv_all_nth hostRow_def w1_def)
  ultimately show ?thesis using eff unfolding sweep by auto
qed

definition demoHost :: "string \<Rightarrow> DockerHostRecord" where
  "demoHost name = \<lparr>dh_ID = name, dh_Name = name, dh_URL = ''tcp://'' @ name, dh_TLSCertPath = [], dh_TLSVerify = False, dh_HealthStatus = ''Unknown'',
     dh_LastCheck = None, dh_LastError = None, dh_InfoJSON = [], dh_StatsJSON = [], dh_CreatedAt = 0, dh_UpdatedAt = 0\<rparr>"

definition demoProbes :: HostProbes where
  "demoProbes = \<lparr>hp_info = (\<lambda>t u. if u = ''tcp://a'' then Inr (Some ''{}'') else Inl DeadlineExceeded), hp_stats = (\<lambda>t u. Inl DeadlineExceeded), hp_order = (\<lambda>t hs. rev hs)\<rparr>"

theorem hostSweep_records_probes_witness:
  "map dh_HealthStatus (db_hosts (w_db (hostSweep (demoEnv (\<lambda>c p. []) []) demoProbes \<lparr>rc_Notifier = False, rc_Broadcaster = True\<rparr>
      (emptyWorld\<lparr>w_db := (w_db emptyWorld)\<lparr>db_hosts := [demoHost ''a'', demoHost ''b'']\<rparr>\<rparr>)))) = [''Healthy'', ''Unreachable'']"
proof -
  let ?w = "emptyWorld\<lparr>w_db := (w_db emptyWorld)\<lparr>db_hosts := [demoHost ''a'', demoHost ''b'']\<rparr>\<rparr>"
  let ?env = "demoEnv (\<lambda>c p. []) []" and ?rc = "\<lparr>rc_Notifier = False, rc_Broadcaster = True\<rparr>"
  let ?info = "\<lambda>u. if u = ''tcp://a'' then Inr (Some ''{}'') else Inl DeadlineExceeded"
  have "e_dbErr ?env t = None" "hp_info demoProbes t u = ?info u" "mset (hp_order demoProbes t hs) = mset hs" for t u hs
    by (simp_all add: demoEnv_def demoProbes_def)
  moreover have "rc_Broadcaster ?rc" "wf_db (w_db ?w)" by (simp_all add: wf_db_def emptyWorld_def demoHost_def)
  ultimately have "list_all2 (\<lambda>r r'. dh_HealthStatus r' = probeStatus ?info r) [demoHost ''a'', demoHost ''b''] (db_hosts (w_db (hostSweep ?env demoProbes ?rc ?w)))"
    using hostSweep_records_probes [of ?env demoProbes ?info ?rc ?w] by (auto elim!: list_all2_mono)
  then show ?thesis by (auto simp: list_all2_Cons1 probeStatus_def demoHost_def)
qed

end
