(* ===== verification/SingleFlight.thy ===== *)
theory SingleFlight
  imports App_Types
begin

text \<open>
  The request limits of the API server (\<^verbatim>\<open>api/server.go\<close>): the caches that share one collection of host
  statistics or of a capacity sample among concurrent requests, and the limit of concurrent requests.

  A caller of \<^verbatim>\<open>get\<close> is entering, collecting, or waiting on a channel; a step is one critical section or one
  wake-up. What a cache stores, when it is valid and what it answers is the contract of the locale
  \<open>single_flight\<close>, interpreted on both caches.
\<close>

section \<open>The caches\<close>

definition hostStatsCacheTTL :: duration where "hostStatsCacheTTL = 5 * Second"
definition capacityCacheTTL :: duration where "capacityCacheTTL = 5 * Second"
definition capacityFailureTTL :: duration where "capacityFailureTTL = Second"

text \<open>The cached pair and its time; the host statistics are kept with the answer that delivered them.\<close>

record 'v hostStatsCache =
  hs_stats :: "'v option"
  hs_fetchedAt :: "time option"

record 'v capacityCache =
  cc_sample :: "'v option"
  cc_err :: "err option"
  cc_fetchedAt :: "time option"

definition hostStatsFresh :: "time \<Rightarrow> 'v hostStatsCache \<Rightarrow> bool" where
  "hostStatsFresh now c = (hs_stats c \<noteq> None \<and> (case hs_fetchedAt c of None \<Rightarrow> False | Some t \<Rightarrow> now - t < hostStatsCacheTTL))"

definition hostStatsAnswer :: "'v hostStatsCache \<Rightarrow> 'v option \<times> err option" where
  "hostStatsAnswer c = (hs_stats c, None)"

definition hostStatsStore :: "time \<Rightarrow> 'v option \<times> err option \<Rightarrow> 'v hostStatsCache \<Rightarrow> 'v hostStatsCache" where
  "hostStatsStore now r c = (case r of (stats, e) \<Rightarrow> if e = None then c\<lparr>hs_stats := stats, hs_fetchedAt := Some now\<rparr> else c)"

definition capacityFresh :: "time \<Rightarrow> 'v capacityCache \<Rightarrow> bool" where
  "capacityFresh now c =
     (case cc_fetchedAt c of
        None \<Rightarrow> False
      | Some t \<Rightarrow> (cc_err c = None \<and> now - t < capacityCacheTTL) \<or> (cc_err c \<noteq> None \<and> now - t < capacityFailureTTL))"

definition capacityAnswer :: "'v capacityCache \<Rightarrow> 'v option \<times> err option" where
  "capacityAnswer c = (cc_sample c, cc_err c)"

definition capacityStore :: "time \<Rightarrow> 'v option \<times> err option \<Rightarrow> 'v capacityCache \<Rightarrow> 'v capacityCache" where
  "capacityStore now r c = (case r of (sample, e) \<Rightarrow> c\<lparr>cc_sample := sample, cc_err := e, cc_fetchedAt := Some now\<rparr>)"

section \<open>Callers\<close>

record ('c, 'r) CacheOps =
  co_fresh :: "time \<Rightarrow> 'c \<Rightarrow> bool"
  co_answer :: "'c \<Rightarrow> 'r"
  co_store :: "time \<Rightarrow> 'r \<Rightarrow> 'c \<Rightarrow> 'c"

text \<open>The wait channel, if a collection is under way; channels are numbered, and closed ones are remembered.\<close>

record 'c CacheState =
  cs_cache :: 'c
  cs_wait :: "nat option"
  cs_closed :: "nat list"
  cs_next :: nat

datatype Caller = Entering | Collecting nat | Waiting nat

datatype 'r GetResult = Answered 'r | MustCollect nat | MustWait nat

definition enterCache :: "('c, 'r) CacheOps \<Rightarrow> time \<Rightarrow> 'c CacheState \<Rightarrow> 'r GetResult \<times> 'c CacheState" where
  "enterCache ops now st =
     (if co_fresh ops now (cs_cache st) then (Answered (co_answer ops (cs_cache st)), st)
      else case cs_wait st of
             None \<Rightarrow> (MustCollect (cs_next st), st\<lparr>cs_wait := Some (cs_next st), cs_next := Suc (cs_next st)\<rparr>)
           | Some ch \<Rightarrow> (MustWait ch, st))"

definition finishCollection :: "('c, 'r) CacheOps \<Rightarrow> time \<Rightarrow> 'r \<Rightarrow> nat \<Rightarrow> 'c CacheState \<Rightarrow> 'c CacheState" where
  "finishCollection ops now r ch st = st\<lparr>cs_cache := co_store ops now r (cs_cache st), cs_wait := None, cs_closed := ch # cs_closed st\<rparr>"

datatype 'r CacheLabel = Internal | Served time 'r | Collected time 'r | GaveUp

type_synonym 'c CacheWorld = "'c CacheState \<times> Caller multiset"

inductive cache_step :: "('c, 'r) CacheOps \<Rightarrow> 'c CacheWorld \<Rightarrow> 'r CacheLabel \<Rightarrow> 'c CacheWorld \<Rightarrow> bool" for ops where
  arrives: "cache_step ops (st, M) Internal (st, add_mset Entering M)"
| serves: "enterCache ops now st = (Answered r, st') \<Longrightarrow> cache_step ops (st, add_mset Entering M) (Served now r) (st', M)"
| starts: "enterCache ops now st = (MustCollect ch, st') \<Longrightarrow> cache_step ops (st, add_mset Entering M) Internal (st', add_mset (Collecting ch) M)"
| waits: "enterCache ops now st = (MustWait ch, st') \<Longrightarrow> cache_step ops (st, add_mset Entering M) Internal (st', add_mset (Waiting ch) M)"
| collects: "cache_step ops (st, add_mset (Collecting ch) M) (Collected now r) (finishCollection ops now r ch st, M)"
| wakes: "ch \<in> set (cs_closed st) \<Longrightarrow> cache_step ops (st, add_mset (Waiting ch) M) Internal (st, add_mset Entering M)"
| gives_up: "cache_step ops (st, add_mset (Waiting ch) M) GaveUp (st, M)"

inductive cache_run :: "('c, 'r) CacheOps \<Rightarrow> 'c CacheWorld \<Rightarrow> 'r CacheLabel list \<Rightarrow> 'c CacheWorld \<Rightarrow> bool" for ops where
  cache_nil: "cache_run ops w [] w"
| cache_snoc: "cache_run ops w ls w' \<Longrightarrow> cache_step ops w' l w'' \<Longrightarrow> cache_run ops w (ls @ [l]) w''"

definition emptyCache :: "'c \<Rightarrow> 'c CacheState" where
  "emptyCache c = \<lparr>cs_cache = c, cs_wait = None, cs_closed = [], cs_next = 0\<rparr>"

section \<open>One collection at a time\<close>

fun collectingPhase :: "Caller \<Rightarrow> bool" where
  "collectingPhase (Collecting ch) = True"
| "collectingPhase c = False"

text \<open>Nobody waits on a channel that will not be closed: it is closed, or a collector is about to close it.\<close>

definition flight_inv :: "'c CacheWorld \<Rightarrow> bool" where
  "flight_inv w = (case w of (st, M) \<Rightarrow>
     filter_mset collectingPhase M = (case cs_wait st of None \<Rightarrow> {#} | Some ch \<Rightarrow> {#Collecting ch#})
     \<and> (\<forall>ch. Waiting ch \<in># M \<longrightarrow> ch \<in> set (cs_closed st) \<or> cs_wait st = Some ch))"

lemma flight_inv_step: "cache_step ops w l w' \<Longrightarrow> flight_inv w \<Longrightarrow> flight_inv w'"
  by (induction rule: cache_step.induct)
     (auto simp: flight_inv_def enterCache_def finishCollection_def split: if_splits option.splits)

lemma flight_inv_run: "cache_run ops w ls w' \<Longrightarrow> flight_inv w \<Longrightarrow> flight_inv w'"
  by (induction rule: cache_run.induct) (auto intro: flight_inv_step)

section \<open>Every request ends\<close>

text \<open>The channel of the collection under way is open; channels are never reused.\<close>

definition chan_inv :: "'c CacheWorld \<Rightarrow> bool" where
  "chan_inv w = (case w of (st, M) \<Rightarrow>
     (\<forall>ch. cs_wait st = Some ch \<longrightarrow> ch \<notin> set (cs_closed st) \<and> ch < cs_next st) \<and> (\<forall>ch\<in>set (cs_closed st). ch < cs_next st)
     \<and> (\<forall>ch. Collecting ch \<in># M \<longrightarrow> ch < cs_next st))"

lemma chan_inv_step: "cache_step ops w l w' \<Longrightarrow> chan_inv w \<Longrightarrow> chan_inv w'"
  by (induction rule: cache_step.induct)
     (auto simp: chan_inv_def enterCache_def finishCollection_def less_Suc_eq split: if_splits option.splits)

lemma chan_inv_run: "cache_run ops w ls w' \<Longrightarrow> chan_inv w \<Longrightarrow> chan_inv w'"
  by (induction rule: cache_run.induct) (auto intro: chan_inv_step)

text \<open>
  How far a caller is from its end: a caller on a closed channel has to enter again, and one on an open channel has to wait for
  the collector to leave.
\<close>

fun distance :: "nat list \<Rightarrow> Caller \<Rightarrow> nat" where
  "distance closed Entering = 2"
| "distance closed (Collecting ch) = 1"
| "distance closed (Waiting ch) = (if ch \<in> set closed then 3 else 1)"

definition callers_left :: "'c CacheWorld \<Rightarrow> nat \<times> nat" where
  "callers_left w = (size (snd w), \<Sum>c\<in>#snd w. distance (cs_closed (fst w)) c)"

lemma step_decreases:
  "cache_step ops w l w' \<Longrightarrow> chan_inv w \<Longrightarrow> size (snd w') \<le> size (snd w) \<Longrightarrow> (callers_left w', callers_left w) \<in> less_than <*lex*> less_than"
  by (induction rule: cache_step.induct)
     (auto simp: callers_left_def chan_inv_def enterCache_def finishCollection_def split: if_splits option.splits)

lemma cache_progress:
  assumes inv: "flight_inv (st, M)" and "M \<noteq> {#}"
  shows "\<exists>l v. cache_step ops (st, M) l v \<and> size (snd v) \<le> size M \<and> l \<noteq> GaveUp"
proof -
  obtain c N where M: "M = add_mset c N" using assms(2) by (cases M) auto
  have collect: ?thesis if mem: "Collecting ch \<in># M" for ch
  proof -
    obtain K where "M = add_mset (Collecting ch) K" using multi_member_split [OF mem] by blast
    then show ?thesis using collects [of ops st ch K] by fastforce
  qed
  show ?thesis
  proof (cases c)
    case Entering
    obtain g st' where e: "enterCache ops 0 st = (g, st')" by fastforce
    then show ?thesis
      using serves [of ops 0 st _ st' N] starts [of ops 0 st _ st' N] waits [of ops 0 st _ st' N] M Entering
      by (cases g) fastforce+
  next
    case (Collecting ch)
    then show ?thesis using collect M by auto
  next
    case (Waiting ch)
    show ?thesis
    proof (cases "ch \<in> set (cs_closed st)")
      case True
      then show ?thesis using wakes [of ch st ops N] M Waiting by fastforce
    next
      case False
      then have "cs_wait st = Some ch" using inv M Waiting by (auto simp: flight_inv_def)
      then have "Collecting ch \<in># filter_mset collectingPhase M" using inv by (auto simp: flight_inv_def)
      then show ?thesis using collect by simp
    qed
  qed
qed

text \<open>
  C36: Every request for a shared sample ends. From any reachable state, the requests that are present make only finitely many steps,
  however they interleave, as long as no new request arrives; and while one of them is present some step other than giving up is enabled. A
  collection that fails and wakes its waiters therefore cannot keep them going round.
\<close>

theorem cache_requests_end:
  fixes w :: "'c CacheWorld"
  assumes "cache_run ops (emptyCache c, {#}) ls w"
  shows "(\<nexists>f. f 0 = w \<and> (\<forall>i. \<exists>l. cache_step ops (f i) l (f (Suc i)) \<and> size (snd (f (Suc i))) \<le> size (snd (f i))))
    \<and> (snd w \<noteq> {#} \<longrightarrow> (\<exists>l v. cache_step ops w l v \<and> size (snd v) \<le> size (snd w) \<and> l \<noteq> GaveUp))"
proof (intro conjI impI notI)
  have chan: "chan_inv w" using chan_inv_run [OF assms] by (simp add: chan_inv_def emptyCache_def)
  assume "\<exists>f. f 0 = w \<and> (\<forall>i. \<exists>l. cache_step ops (f i) l (f (Suc i)) \<and> size (snd (f (Suc i))) \<le> size (snd (f i)))"
  then obtain f where f: "f 0 = w" "\<And>i. \<exists>l. cache_step ops (f i) l (f (Suc i)) \<and> size (snd (f (Suc i))) \<le> size (snd (f i))" by blast
  have inv: "chan_inv (f i)" for i
  proof (induction i)
    case (Suc i)
    then show ?case using f(2) [of i] chan_inv_step by blast
  qed (simp add: chan f(1))
  have "(callers_left (f (Suc i)), callers_left (f i)) \<in> less_than <*lex*> less_than" for i
    using f(2) [of i] step_decreases inv by blast
  then have "\<exists>g. \<forall>i. (g (Suc i), g i) \<in> less_than <*lex*> less_than" by (intro exI [of _ "\<lambda>i. callers_left (f i)"]) blast
  moreover have "wf (less_than <*lex*> less_than)" by (intro wf_lex_prod wf_less_than)
  ultimately show False unfolding wf_iff_no_infinite_down_chain by blast
next
  have inv: "flight_inv w" using flight_inv_run [OF assms] by (simp add: flight_inv_def emptyCache_def)
  assume "snd w \<noteq> {#}"
  then show "\<exists>l v. cache_step ops w l v \<and> size (snd v) \<le> size (snd w) \<and> l \<noteq> GaveUp"
    using cache_progress [of "fst w" "snd w" ops] inv by simp
qed

section \<open>The contract of a cache\<close>

locale single_flight =
  fixes ops :: "('c, 'r) CacheOps" and fetchedAt :: "'c \<Rightarrow> time option" and ttl :: duration
  assumes fresh_recent: "co_fresh ops now c \<Longrightarrow> \<exists>t. fetchedAt c = Some t \<and> now - t < ttl"
    and store_answers: "co_store ops t r c = c \<or> (fetchedAt (co_store ops t r c) = Some t \<and> co_answer ops (co_store ops t r c) = r)"
begin

definition origin :: "'r CacheLabel list \<Rightarrow> 'c \<Rightarrow> bool" where
  "origin ls c = (\<forall>t. fetchedAt c = Some t \<longrightarrow> Collected t (co_answer ops c) \<in> set ls)"

lemma origin_step: "cache_step ops w l w' \<Longrightarrow> origin ls (cs_cache (fst w)) \<Longrightarrow> origin (ls @ [l]) (cs_cache (fst w'))"
proof (induction rule: cache_step.induct)
  case (collects st ch M now r)
  then show ?case using store_answers [of now r "cs_cache st"] by (auto simp: origin_def finishCollection_def)
qed (auto simp: origin_def enterCache_def split: if_splits option.splits)

lemma origin_run: "cache_run ops w ls w' \<Longrightarrow> fetchedAt (cs_cache (fst w)) = None \<Longrightarrow> origin ls (cs_cache (fst w'))"
proof (induction rule: cache_run.induct)
  case (cache_nil w)
  then show ?case by (simp add: origin_def)
next
  case (cache_snoc w ls w' l w'')
  then show ?case by (blast intro: origin_step)
qed

text \<open>An answer from the cache is that of a collection less than the lifetime ago.\<close>

lemma served_is_recent:
  assumes "cache_run ops w ls (st, M)" "fetchedAt (cs_cache (fst w)) = None" "enterCache ops now st = (Answered r, st')"
  shows "\<exists>t. Collected t r \<in> set ls \<and> now - t < ttl"
proof -
  have "origin ls (cs_cache st)" using origin_run [OF assms(1,2)] by simp
  moreover have "co_fresh ops now (cs_cache st)" "r = co_answer ops (cs_cache st)"
    using assms(3) by (auto simp: enterCache_def split: if_splits option.splits)
  ultimately show ?thesis using fresh_recent [of now "cs_cache st"] by (auto simp: origin_def)
qed

end

definition hostStatsOps :: "('v hostStatsCache, 'v option \<times> err option) CacheOps" where
  "hostStatsOps = \<lparr>co_fresh = hostStatsFresh, co_answer = hostStatsAnswer, co_store = hostStatsStore\<rparr>"

definition capacityOps :: "('v capacityCache, 'v option \<times> err option) CacheOps" where
  "capacityOps = \<lparr>co_fresh = capacityFresh, co_answer = capacityAnswer, co_store = capacityStore\<rparr>"

interpretation hostStats: single_flight hostStatsOps hs_fetchedAt hostStatsCacheTTL
  by unfold_locales
     (auto simp: hostStatsOps_def hostStatsFresh_def hostStatsStore_def hostStatsAnswer_def split: option.splits prod.splits)

interpretation capacity: single_flight capacityOps cc_fetchedAt capacityCacheTTL
  by unfold_locales
     (auto simp: capacityOps_def capacityFresh_def capacityStore_def capacityAnswer_def capacityFailureTTL_def capacityCacheTTL_def
       split: option.splits prod.splits)

definition emptyCapacity :: "'v capacityCache" where
  "emptyCapacity = \<lparr>cc_sample = None, cc_err = None, cc_fetchedAt = None\<rparr>"

definition emptyHostStats :: "'v hostStatsCache" where
  "emptyHostStats = \<lparr>hs_stats = None, hs_fetchedAt = None\<rparr>"

lemma one_collection:
  assumes "cache_run ops (emptyCache c, {#}) ls (st, M)"
  shows "size (filter_mset collectingPhase M) \<le> 1"
    and "Waiting ch \<in># M \<Longrightarrow> ch \<in> set (cs_closed st) \<or> Collecting ch \<in># M"
proof -
  have "flight_inv (st, M)" using flight_inv_run [OF assms] by (simp add: flight_inv_def emptyCache_def)
  then have f: "filter_mset collectingPhase M = (case cs_wait st of None \<Rightarrow> {#} | Some ch \<Rightarrow> {#Collecting ch#})"
    and w: "\<forall>ch. Waiting ch \<in># M \<longrightarrow> ch \<in> set (cs_closed st) \<or> cs_wait st = Some ch" by (auto simp: flight_inv_def)
  then show "size (filter_mset collectingPhase M) \<le> 1" by (simp split: option.splits)
  have "Collecting ch \<in># M" if "cs_wait st = Some ch"
  proof -
    have "Collecting ch \<in># filter_mset collectingPhase M" using f that by simp
    then show ?thesis by simp
  qed
  with w show "Waiting ch \<in># M \<Longrightarrow> ch \<in> set (cs_closed st) \<or> Collecting ch \<in># M" by blast
qed

text \<open>
  Shared capacity samples. However requests interleave, at most one collection runs at a time, every
  waiting request waits for it or has been released, and a request that is answered from the cache gets the
  result of a collection that ended less than five seconds ago, or less than one second ago if it failed.
  The cache of the host statistics satisfies the same, and never answers with a failure.
\<close>

theorem capacity_shared:
  assumes "cache_run capacityOps (emptyCache emptyCapacity, {#}) ls (st, M)"
  shows "size (filter_mset collectingPhase M) \<le> 1
    \<and> (\<forall>ch. Waiting ch \<in># M \<longrightarrow> ch \<in> set (cs_closed st) \<or> Collecting ch \<in># M)
    \<and> (\<forall>now r st'. enterCache capacityOps now st = (Answered r, st') \<longrightarrow>
         (\<exists>t. Collected t r \<in> set ls \<and> now - t < (if snd r = None then 5 * Second else Second)))"
proof (intro conjI allI impI)
  fix now r st' assume e: "enterCache capacityOps now st = (Answered r, st')"
  have o: "capacity.origin ls (cs_cache st)" using capacity.origin_run [OF assms] by (simp add: emptyCache_def emptyCapacity_def)
  then have o': "\<forall>t. cc_fetchedAt (cs_cache st) = Some t \<longrightarrow> Collected t (capacityAnswer (cs_cache st)) \<in> set ls"
    unfolding capacity.origin_def by (simp add: capacityOps_def)
  from e have "capacityFresh now (cs_cache st)" "r = capacityAnswer (cs_cache st)"
    by (auto simp: enterCache_def capacityOps_def split: if_splits option.splits)
  with o' show "\<exists>t. Collected t r \<in> set ls \<and> now - t < (if snd r = None then 5 * Second else Second)"
    by (auto simp: capacityFresh_def capacityAnswer_def capacityCacheTTL_def capacityFailureTTL_def split: option.splits)
qed (use one_collection [OF assms] in auto)

lemma host_stats_shared:
  assumes "cache_run hostStatsOps (emptyCache emptyHostStats, {#}) ls (st, M)" "enterCache hostStatsOps now st = (Answered r, st')"
  shows "\<exists>t. Collected t r \<in> set ls \<and> now - t < hostStatsCacheTTL" "snd r = None"
  using hostStats.served_is_recent [OF assms(1) _ assms(2)] assms(2)
  by (auto simp: emptyCache_def emptyHostStats_def enterCache_def hostStatsOps_def hostStatsAnswer_def split: if_splits option.splits)

theorem capacity_shared_witness:
  "\<exists>ls st. cache_run capacityOps (emptyCache emptyCapacity, {#}) ls (st, {#}) \<and> Collected 10 (Some ''sample'', None) \<in> set ls
     \<and> (\<exists>st'. enterCache capacityOps 12 st = (Answered (Some ''sample'', None), st'))
     \<and> (\<exists>t. Collected t (Some ''sample'', None) \<in> set ls \<and> 12 - t < 5 * Second)"
proof -
  let ?c = "emptyCache emptyCapacity :: string capacityCache CacheState"
  have enter: "enterCache capacityOps 5 ?c = (MustCollect 0, ?c\<lparr>cs_wait := Some 0, cs_next := 1\<rparr>)"
    by (simp add: enterCache_def capacityOps_def capacityFresh_def emptyCache_def emptyCapacity_def)
  note r = cache_snoc [OF cache_snoc [OF cache_snoc [OF cache_nil arrives] starts [OF enter]] collects [where now = 10 and r = "(Some ''sample'', None)"]]
  let ?st = "finishCollection capacityOps 10 (Some ''sample'', None) 0 (?c\<lparr>cs_wait := Some 0, cs_next := 1\<rparr>)"
  have served: "enterCache capacityOps 12 ?st = (Answered (Some ''sample'', None), ?st)"
    by (simp add: enterCache_def finishCollection_def capacityOps_def capacityFresh_def capacityStore_def capacityAnswer_def emptyCache_def capacityCacheTTL_def)
  note recent = capacity_shared [OF r, THEN conjunct2, THEN conjunct2, rule_format, OF served]
  show ?thesis
    by (rule exI, rule exI [of _ ?st], intro conjI, rule r) (use recent served in auto)
qed

theorem cache_requests_end_witness:
  "\<exists>l v. cache_step capacityOps (emptyCache (emptyCapacity :: string capacityCache), {#Entering#}) l v \<and> size (snd v) \<le> 1 \<and> l \<noteq> GaveUp"
  using cache_requests_end [OF cache_snoc [OF cache_nil arrives], where ops = "capacityOps :: (string capacityCache, _) CacheOps" and c = emptyCapacity] by simp

section \<open>The limit of concurrent requests\<close>

definition maxConcurrentExpensiveRequests :: nat where "maxConcurrentExpensiveRequests = 4"
definition maxConcurrentPresentationReads :: nat where "maxConcurrentPresentationReads = 16"

text \<open>The semaphore of \<^verbatim>\<open>limitConcurrency\<close>: a request is admitted or answered 429, and leaves at its end.\<close>

definition limitEnter :: "nat \<Rightarrow> nat \<Rightarrow> nat option" where
  "limitEnter limit sem = (if sem < limit then Some (Suc sem) else None)"

inductive limit_step :: "nat \<Rightarrow> nat \<times> nat \<Rightarrow> nat \<times> nat \<Rightarrow> bool" for limit where
  admitted: "limitEnter limit sem = Some sem' \<Longrightarrow> limit_step limit (sem, running) (sem', Suc running)"
| rejected: "limitEnter limit sem = None \<Longrightarrow> limit_step limit (sem, running) (sem, running)"
| leaves: "limit_step limit (sem, Suc running) (sem - 1, running)"

lemma limit_inv: "(limit_step limit)\<^sup>*\<^sup>* (0, 0) w \<Longrightarrow> fst w = snd w \<and> snd w \<le> limit"
  by (induction rule: rtranclp_induct) (auto elim!: limit_step.cases simp: limitEnter_def split: if_splits)

end
