(* ===== verification/Base64.thy ===== *)
theory Base64
  imports Prelude
begin

text \<open>
  Go's package \<^verbatim>\<open>encoding/base64\<close> as the console uses it: the encodings without padding over the standard
  and the URL alphabet, for login challenges, session tokens and password verifiers. The encoding of an
  alphabet is a locale, interpreted on both alphabets, and decoding inverts encoding.
\<close>

named_theorems base64 \<open>round trip, length and characters of encoded strings\<close>

section \<open>Groups of six bits\<close>

fun encodeBytes :: "nat list \<Rightarrow> nat list" where
  "encodeBytes [] = []"
| "encodeBytes [a] = [a div 4, a mod 4 * 16]"
| "encodeBytes [a, b] = [a div 4, a mod 4 * 16 + b div 16, b mod 16 * 4]"
| "encodeBytes (a # b # c # xs) = [a div 4, a mod 4 * 16 + b div 16, b mod 16 * 4 + c div 64, c mod 64] @ encodeBytes xs"

text \<open>A last group of one character is corrupt input; bits that do not fill a byte are dropped.\<close>

fun decodeBytes :: "nat list \<Rightarrow> nat list option" where
  "decodeBytes [] = Some []"
| "decodeBytes [a] = None"
| "decodeBytes [a, b] = Some [a * 4 + b div 16]"
| "decodeBytes [a, b, c] = Some [a * 4 + b div 16, b mod 16 * 16 + c div 4]"
| "decodeBytes (a # b # c # d # xs) =
     map_option (\<lambda>r. [a * 4 + b div 16, b mod 16 * 16 + c div 4, c mod 4 * 64 + d] @ r) (decodeBytes xs)"

lemma regroup:
  "a mod 4 * 16 + b div 16 < 64 \<and> a div 4 * 4 + (a mod 4 * 16 + b div 16) div 16 = a
   \<and> (a mod 4 * 16 + b div 16) mod 16 * 16 + b mod 16 = b" if "b < 256" for a b :: nat
proof -
  have b: "b div 16 < 16" using that by auto
  then have "(a mod 4 * 16 + b div 16) div 16 = a mod 4" "(a mod 4 * 16 + b div 16) mod 16 = b div 16" by simp_all
  moreover have "a mod 4 < 4" by simp
  with b have "a mod 4 * 16 + b div 16 < 64" by linarith
  ultimately show ?thesis by simp
qed

lemma regroup_last:
  "b mod 16 * 4 + c div 64 < 64 \<and> (b mod 16 * 4 + c div 64) div 4 = b mod 16
   \<and> (b mod 16 * 4 + c div 64) mod 4 * 64 + c mod 64 = c" if "c < 256" for b c :: nat
proof -
  have c: "c div 64 < 4" using that by auto
  then have "(b mod 16 * 4 + c div 64) div 4 = b mod 16" "(b mod 16 * 4 + c div 64) mod 4 = c div 64" by simp_all
  moreover have "b mod 16 < 16" by simp
  with c have "b mod 16 * 4 + c div 64 < 64" by linarith
  ultimately show ?thesis by simp
qed

lemma decode_encodeBytes: "\<forall>x\<in>set xs. x < 256 \<Longrightarrow> decodeBytes (encodeBytes xs) = Some xs"
proof (induction xs rule: encodeBytes.induct)
  case (2 a)
  then show ?case using regroup [of 0 a] by simp
next
  case (3 a b)
  then show ?case using regroup [of b a] by simp
next
  case (4 a b c xs)
  then have "decodeBytes (encodeBytes xs) = Some xs" "b < 256" "c < 256" by auto
  then show ?case using regroup [of b a] regroup_last [of c b] by simp
qed simp

lemma encodeBytes_range: "\<forall>x\<in>set xs. x < 256 \<Longrightarrow> v \<in> set (encodeBytes xs) \<Longrightarrow> v < 64"
proof (induction xs rule: encodeBytes.induct)
  case (2 a)
  then show ?case using regroup [of 0 a] by (auto simp: less_mult_imp_div_less)
next
  case (3 a b)
  then show ?case using regroup [of b a] regroup_last [of 0 b] by (auto simp: less_mult_imp_div_less)
next
  case (4 a b c xs)
  then show ?case using regroup [of b a] regroup_last [of c b] by (auto simp: less_mult_imp_div_less)
qed simp

lemma length_encodeBytes: "length (encodeBytes xs) = (4 * length xs + 2) div 3"
  by (induction xs rule: encodeBytes.induct) auto

section \<open>Alphabets\<close>

definition encodeStd :: string where
  "encodeStd = ''ABCDEFGHIJKLMNOPQRSTUVWXYZabcdefghijklmnopqrstuvwxyz0123456789+/''"

definition encodeURL :: string where
  "encodeURL = ''ABCDEFGHIJKLMNOPQRSTUVWXYZabcdefghijklmnopqrstuvwxyz0123456789-_''"

definition EncodeToString :: "string \<Rightarrow> string \<Rightarrow> string" where
  "EncodeToString alphabet s = map (\<lambda>v. alphabet ! v) (encodeBytes (map of_char s))"

text \<open>The decoder skips line breaks wherever they are.\<close>

definition lineBreak :: "char \<Rightarrow> bool" where
  "lineBreak c = ((of_char c :: nat) = 10 \<or> (of_char c :: nat) = 13)"

fun sixBits :: "string \<Rightarrow> string \<Rightarrow> nat list option" where
  "sixBits alphabet [] = Some []"
| "sixBits alphabet (c # cs) =
     (case map_of (zip alphabet [0..<length alphabet]) c of
        None \<Rightarrow> None
      | Some v \<Rightarrow> map_option (Cons v) (sixBits alphabet cs))"

definition DecodeString :: "string \<Rightarrow> string \<Rightarrow> string option" where
  "DecodeString alphabet s =
     (case sixBits alphabet (filter (\<lambda>c. \<not> lineBreak c) s) of
        None \<Rightarrow> None
      | Some vs \<Rightarrow> map_option (map char_of) (decodeBytes vs))"

locale base64_alphabet =
  fixes alphabet :: string
  assumes size: "length alphabet = 64"
    and unambiguous: "distinct alphabet"
    and printable: "list_all (\<lambda>c. \<not> lineBreak c) alphabet"
begin

lemma sixBits_nth: "\<forall>v\<in>set vs. v < 64 \<Longrightarrow> sixBits alphabet (map (\<lambda>v. alphabet ! v) vs) = Some vs"
proof (induction vs)
  case (Cons v vs)
  then have "(alphabet ! v, v) \<in> set (zip alphabet [0..<length alphabet])" by (auto simp: set_zip size)
  then have "map_of (zip alphabet [0..<length alphabet]) (alphabet ! v) = Some v"
    using unambiguous by (simp add: map_of_eq_iff_mem)
  with Cons show ?case by simp
qed simp

lemma of_char_range: "\<forall>x\<in>set (map of_char s). x < (256 :: nat)"
  by simp

lemma encoded_in_alphabet [base64]: "c \<in> set (EncodeToString alphabet s) \<Longrightarrow> c \<in> set alphabet"
  using encodeBytes_range [OF of_char_range] by (force simp: EncodeToString_def size)

lemma length_encoded [base64]: "length (EncodeToString alphabet s) = (4 * length s + 2) div 3"
  by (simp add: EncodeToString_def length_encodeBytes)

lemma decode_encode [base64]: "DecodeString alphabet (EncodeToString alphabet s) = Some s"
proof -
  have "\<forall>c\<in>set (EncodeToString alphabet s). \<not> lineBreak c"
    using encoded_in_alphabet printable by (auto simp: list_all_iff)
  then have "filter (\<lambda>c. \<not> lineBreak c) (EncodeToString alphabet s) = EncodeToString alphabet s" by simp
  moreover have "sixBits alphabet (EncodeToString alphabet s) = Some (encodeBytes (map of_char s))"
    unfolding EncodeToString_def using encodeBytes_range [OF of_char_range] by (blast intro: sixBits_nth)
  ultimately show ?thesis
    by (simp add: DecodeString_def decode_encodeBytes comp_def)
qed

lemma encode_empty [base64]: "EncodeToString alphabet s = [] \<longleftrightarrow> s = []"
  using length_encoded [of s] by (cases s) (auto simp flip: length_0_conv)

end

interpretation rawStd: base64_alphabet encodeStd
proof
  show "length encodeStd = 64" "distinct encodeStd" "list_all (\<lambda>c. \<not> lineBreak c) encodeStd" by code_simp+
qed

interpretation rawURL: base64_alphabet encodeURL
proof
  show "length encodeURL = 64" "distinct encodeURL" "list_all (\<lambda>c. \<not> lineBreak c) encodeURL" by code_simp+
qed

lemma separators_not_encoded [base64]:
  "CHR ''.'' \<notin> set (EncodeToString encodeURL s)" "CHR ''$'' \<notin> set (EncodeToString encodeStd s)"
proof -
  have "CHR ''.'' \<notin> set encodeURL" "CHR ''$'' \<notin> set encodeStd" by code_simp+
  then show "CHR ''.'' \<notin> set (EncodeToString encodeURL s)" "CHR ''$'' \<notin> set (EncodeToString encodeStd s)"
    by (blast dest: rawURL.encoded_in_alphabet rawStd.encoded_in_alphabet)+
qed

end
