(* ===== verification/LocalAuth.thy ===== *)
theory LocalAuth
  imports App_Types Base64
begin

text \<open>
  The web console's local identity boundary (\<^verbatim>\<open>src/web/internal/localauth/authenticator.go\<close>): the registry of
  users and its Argon2id verifiers, signed login challenges, the rate limit, and sessions.

  HMAC-SHA-256 and Argon2id are parameters (record \<open>Crypto\<close>), and the bytes that the random source
  delivers, or its failure, are arguments. The file system and the JSON decoder are parameters (record \<open>UserFiles\<close>).
  The receiver and the request are never nil. A zero \<^verbatim>\<open>time.Time\<close> is \<open>None\<close>.
\<close>

section \<open>Constants and types\<close>

definition maxUserRegistryBytes :: nat where "maxUserRegistryBytes = 128 * 1024"
definition maxPasswordBytes :: nat where "maxPasswordBytes = 1024"
definition defaultArgonMemory :: nat where "defaultArgonMemory = 65536"
definition defaultArgonTime :: nat where "defaultArgonTime = 3"
definition defaultArgonParallel :: nat where "defaultArgonParallel = 1"
definition maxSessions :: nat where "maxSessions = 1024"
definition rateBucketCount :: nat where "rateBucketCount = 1024"
definition maxPasswordChecks :: nat where "maxPasswordChecks = 1"
definition defaultSessionTTL :: duration where "defaultSessionTTL = 8 * 60 * Minute"
definition defaultLoginFlowTTL :: duration where "defaultLoginFlowTTL = 10 * Minute"
definition lockoutAfterFailures :: nat where "lockoutAfterFailures = 5"
definition lockoutDuration :: duration where "lockoutDuration = 15 * Minute"
definition sessionCookieName :: string where "sessionCookieName = ''dockercd_web_session''"
definition loginCookieName :: string where "loginCookieName = ''dockercd_web_login''"

lemmas localauth_consts = maxPasswordBytes_def maxSessions_def rateBucketCount_def maxPasswordChecks_def
  lockoutAfterFailures_def lockoutDuration_def

definition ErrInvalidCredentials :: err where "ErrInvalidCredentials = Errorf ''local login failed'' []"
definition ErrRateLimited :: err where "ErrRateLimited = Errorf ''local login is temporarily rate limited'' []"
definition ErrInvalidCSRF :: err where "ErrInvalidCSRF = Errorf ''local login request is invalid'' []"

text \<open>\<open>c_mac key data\<close>, and \<open>c_argon password salt time memory parallelism length\<close>.\<close>

record Crypto =
  c_mac :: "string \<Rightarrow> string \<Rightarrow> string"
  c_argon :: "string \<Rightarrow> string \<Rightarrow> nat \<Rightarrow> nat \<Rightarrow> nat \<Rightarrow> nat \<Rightarrow> string"

record argon2idHash =
  ah_memory :: nat
  ah_time :: nat
  ah_parallelism :: nat
  ah_salt :: string
  ah_hash :: string

record user =
  u_subject :: string
  u_passwordHash :: argon2idHash
  u_controllerToken :: string

record session =
  s_subject :: string
  s_controllerToken :: string
  s_csrf :: string
  s_expiresAt :: time

record rateBucket =
  rb_failures :: nat
  rb_inFlight :: nat
  rb_until :: "time option"
  rb_updated :: "time option"

record registryUser =
  ru_Subject :: string
  ru_PasswordHash :: string
  ru_ControllerToken :: string

record registry =
  rg_Version :: int
  rg_Users :: "registryUser list"

record Config =
  cf_UsersFile :: string
  cf_CookieSecure :: bool
  cf_SessionTTL :: duration
  cf_LoginFlowTTL :: duration

text \<open>What does not change after \<^verbatim>\<open>New\<close>, and what the mutex and the channel guard.\<close>

record Authenticator =
  a_users :: "user gomap"
  a_cookieSecure :: bool
  a_sessionTTL :: duration
  a_loginFlowTTL :: duration
  a_fallbackHash :: argon2idHash
  a_loginKey :: string
  a_rateKey :: string

record AuthState =
  a_sessions :: "session gomap"
  a_rateBuckets :: "rateBucket list"
  a_passwordChecks :: nat

section \<open>Password verifiers\<close>

text \<open>\<^verbatim>\<open>strconv.ParseUint(value, 10, 32)\<close> and the range check.\<close>

definition parseBoundedUint32 :: "string \<Rightarrow> nat \<Rightarrow> nat \<Rightarrow> nat result" where
  "parseBoundedUint32 value minimum maximum =
     (if value = [] \<or> \<not> list_all isDigit value \<or> digitsVal value \<ge> 2 ^ 32
         \<or> digitsVal value < int minimum \<or> digitsVal value > int maximum
      then Inl (Errorf ''outside permitted range'' [])
      else Inr (nat (digitsVal value)))"

fun parseParams :: "string list \<Rightarrow> string gomap \<Rightarrow> string gomap option" where
  "parseParams [] params = Some params"
| "parseParams (item # items) params =
     (case cut (CHR ''='') item of
        None \<Rightarrow> None
      | Some (key, parameter) \<Rightarrow>
          if strAt params key \<noteq> [] then None else parseParams items (AList.update key parameter params))"

definition phcErr :: "string \<Rightarrow> argon2idHash result" where
  "phcErr s = Inl (Errorf s [])"

definition parseArgon2id :: "string \<Rightarrow> argon2idHash result" where
  "parseArgon2id value =
     (case Split value (CHR ''$'') of
        [part0, part1, part2, part3, part4, part5] \<Rightarrow>
          if part0 \<noteq> [] \<or> part1 \<noteq> ''argon2id'' \<or> part2 \<noteq> ''v=19'' then phcErr ''must be an Argon2id PHC verifier''
          else (case parseParams (Split part3 (CHR '','')) [] of
                  None \<Rightarrow> phcErr ''has invalid Argon2id parameters''
                | Some params \<Rightarrow>
                    (case parseBoundedUint32 (strAt params ''m'') 32768 262144 of
                       Inl e \<Rightarrow> phcErr ''has invalid Argon2id memory cost''
                     | Inr memory \<Rightarrow>
                         (case parseBoundedUint32 (strAt params ''t'') 1 10 of
                            Inl e \<Rightarrow> phcErr ''has invalid Argon2id time cost''
                          | Inr timeCost \<Rightarrow>
                              (case parseBoundedUint32 (strAt params ''p'') 1 4 of
                                 Inl e \<Rightarrow> phcErr ''has invalid Argon2id parallelism''
                               | Inr parallelism \<Rightarrow>
                                   (case DecodeString encodeStd part4 of
                                      None \<Rightarrow> phcErr ''has invalid Argon2id salt''
                                    | Some salt \<Rightarrow>
                                        if length salt < 16 \<or> length salt > 64 then phcErr ''has invalid Argon2id salt''
                                        else (case DecodeString encodeStd part5 of
                                                None \<Rightarrow> phcErr ''has invalid Argon2id digest''
                                              | Some hash \<Rightarrow>
                                                  if length hash \<noteq> 32 then phcErr ''has invalid Argon2id digest''
                                                  else Inr \<lparr>ah_memory = memory, ah_time = timeCost, ah_parallelism = parallelism,
                                                         ah_salt = salt, ah_hash = hash\<rparr>))))))
      | _ \<Rightarrow> phcErr ''must be an Argon2id PHC verifier'')"

definition sameArgon2idParameters :: "argon2idHash \<Rightarrow> argon2idHash \<Rightarrow> bool" where
  "sameArgon2idParameters left right =
     (ah_memory left = ah_memory right \<and> ah_time left = ah_time right \<and> ah_parallelism left = ah_parallelism right)"

definition verify :: "Crypto \<Rightarrow> argon2idHash \<Rightarrow> string \<Rightarrow> bool" where
  "verify c hash password =
     (c_argon c password (ah_salt hash) (ah_time hash) (ah_memory hash) (ah_parallelism hash) (length (ah_hash hash)) = ah_hash hash)"

text \<open>The salt is what the random source delivers for 16 bytes.\<close>

definition HashPassword :: "Crypto \<Rightarrow> string result \<Rightarrow> string \<Rightarrow> string result" where
  "HashPassword c random password =
     (if length password = 0 \<or> length password > maxPasswordBytes
      then Inl (Errorf ''local password must be between 1 and 1024 bytes'' [])
      else case random of
             Inl e \<Rightarrow> Inl (Wrapf ''creating Argon2id salt: %w'' [] e)
           | Inr salt \<Rightarrow>
               (let digest = c_argon c password salt defaultArgonTime defaultArgonMemory defaultArgonParallel 32
                in Inr (''$argon2id$v=19$m='' @ Itoa defaultArgonMemory @ '',t='' @ Itoa defaultArgonTime @ '',p='' @ Itoa defaultArgonParallel
                     @ ''$'' @ EncodeToString encodeStd salt @ ''$'' @ EncodeToString encodeStd digest)))"

section \<open>The registry of users\<close>

definition isSubjectChar :: "char \<Rightarrow> bool" where
  "isSubjectChar c = (isDigit c \<or> (65 \<le> (of_char c :: nat) \<and> (of_char c :: nat) \<le> 90) \<or> (97 \<le> (of_char c :: nat) \<and> (of_char c :: nat) \<le> 122))"

text \<open>The regular expression \<^verbatim>\<open>^[a-zA-Z0-9][a-zA-Z0-9._-]{0,63}$\<close>.\<close>

definition localSubject :: "string \<Rightarrow> bool" where
  "localSubject s =
     (case s of
        [] \<Rightarrow> False
      | c # cs \<Rightarrow> isSubjectChar c \<and> length cs \<le> 63 \<and> list_all (\<lambda>x. isSubjectChar x \<or> x \<in> set ''._-'') cs)"

text \<open>
  The loop over the entries, with the users in the order of the file, the subject of each token, and the
  verifier of the first entry.
\<close>

fun loadUsers :: "registryUser list \<Rightarrow> user gomap \<Rightarrow> string gomap \<Rightarrow> argon2idHash option \<Rightarrow> (user gomap \<times> argon2idHash option) result" where
  "loadUsers [] users tokenSubjects fallback = Inr (users, fallback)"
| "loadUsers (entry # entries) users tokenSubjects fallback =
     (let subject = TrimSpace (ru_Subject entry)
      in if subject \<noteq> ru_Subject entry \<or> \<not> localSubject subject
         then Inl (Errorf ''local user registry contains an invalid subject'' [])
         else if map_of users subject \<noteq> None
         then Inl (Errorf ''local user registry contains a duplicate subject'' [])
         else case parseArgon2id (TrimSpace (ru_PasswordHash entry)) of
                Inl e \<Rightarrow> Inl (Wrapf ''local user registry password hash for %q: %w'' [subject] e)
              | Inr hash \<Rightarrow>
                  if (case fallback of None \<Rightarrow> False | Some f \<Rightarrow> \<not> sameArgon2idParameters hash f)
                  then Inl (Errorf ''local user registry must use one Argon2id cost profile'' [])
                  else let token = TrimSpace (ru_ControllerToken entry)
                       in if token = [] \<or> length token > 4096
                          then Inl (Errorf ''local user registry contains an invalid scoped controller credential'' [])
                          else case map_of tokenSubjects token of
                                 Some existing \<Rightarrow> Inl (Errorf ''local user registry reuses a scoped controller credential for %q and %q'' [existing, subject])
                               | None \<Rightarrow>
                                   loadUsers entries
                                     (AList.update subject \<lparr>u_subject = subject, u_passwordHash = hash, u_controllerToken = token\<rparr> users)
                                     (AList.update token subject tokenSubjects)
                                     (case fallback of None \<Rightarrow> Some hash | Some f \<Rightarrow> Some f))"

definition sessionTTLOf :: "Config \<Rightarrow> duration" where
  "sessionTTLOf config = (if cf_SessionTTL config = 0 then defaultSessionTTL else cf_SessionTTL config)"

definition loginFlowTTLOf :: "Config \<Rightarrow> duration" where
  "loginFlowTTLOf config = (if cf_LoginFlowTTL config = 0 then defaultLoginFlowTTL else cf_LoginFlowTTL config)"

definition zeroBucket :: rateBucket where
  "zeroBucket = \<lparr>rb_failures = 0, rb_inFlight = 0, rb_until = None, rb_updated = None\<rparr>"

definition initialAuthState :: AuthState where
  "initialAuthState = \<lparr>a_sessions = [], a_rateBuckets = replicate rateBucketCount zeroBucket, a_passwordChecks = 0\<rparr>"

text \<open>
  What the file system and the JSON decoder answer: whether a path is a regular file and its size, whether
  it opens, what reading it up to a limit gives; the first document of the file and what follows it.
\<close>

record UserFiles =
  uf_Lstat :: "string \<Rightarrow> (bool \<times> int) result"
  uf_Open :: "string \<Rightarrow> err option"
  uf_ReadAll :: "string \<Rightarrow> nat \<Rightarrow> string result"
  uf_Decode :: "string \<Rightarrow> (registry \<times> JSONRest) result"

definition readBoundedFile :: "UserFiles \<Rightarrow> string \<Rightarrow> nat \<Rightarrow> string result" where
  "readBoundedFile fs path maximum =
     (case uf_Lstat fs path of
        Inl e \<Rightarrow> Inl (Wrapf ''reading local user secret file: %w'' [] e)
      | Inr (regular, bytes) \<Rightarrow>
          if \<not> regular \<or> bytes < 1 \<or> bytes > int maximum
          then Inl (Errorf ''local user secret file must be a bounded regular file'' [])
          else case uf_Open fs path of
                 Some e \<Rightarrow> Inl (Wrapf ''reading local user secret file: %w'' [] e)
               | None \<Rightarrow>
                   (case uf_ReadAll fs path (maximum + 1) of
                      Inl e \<Rightarrow> Inl (Wrapf ''reading local user secret file: %w'' [] e)
                    | Inr raw \<Rightarrow>
                        if length raw > maximum then Inl (Errorf ''local user secret file must be a bounded regular file'' [])
                        else Inr raw))"

definition requireJSONEOF :: "JSONRest \<Rightarrow> err option" where
  "requireJSONEOF rest =
     (case rest of JSONEOF \<Rightarrow> None | JSONDocument \<Rightarrow> Some (Errorf ''multiple JSON documents'' []) | JSONError e \<Rightarrow> Some e)"

text \<open>\<^verbatim>\<open>New\<close> up to the decoded registry, and from there. The registry has an entry, so there is a first verifier.\<close>

definition loadRegistry :: "UserFiles \<Rightarrow> Config \<Rightarrow> registry result" where
  "loadRegistry fs config =
     (let path = TrimSpace (cf_UsersFile config)
      in if path = [] then Inl (Errorf ''local user secret file is required'' [])
         else case readBoundedFile fs path maxUserRegistryBytes of
                Inl e \<Rightarrow> Inl e
              | Inr raw \<Rightarrow>
                  (case uf_Decode fs raw of
                     Inl e \<Rightarrow> Inl (Wrapf ''decoding local user registry: %w'' [] e)
                   | Inr (loaded, rest) \<Rightarrow>
                       (case requireJSONEOF rest of
                          Some e \<Rightarrow> Inl (Wrapf ''decoding local user registry: %w'' [] e)
                        | None \<Rightarrow>
                            if rg_Version loaded \<noteq> 1 \<or> length (rg_Users loaded) = 0 \<or> length (rg_Users loaded) > 128
                            then Inl (Errorf ''local user registry must be version 1 with 1 to 128 users'' [])
                            else Inr loaded)))"

definition New :: "UserFiles \<Rightarrow> Config \<Rightarrow> string result \<Rightarrow> string result \<Rightarrow> (Authenticator \<times> AuthState) result" where
  "New fs config loginKey rateKey =
     (case loadRegistry fs config of
        Inl e \<Rightarrow> Inl e
      | Inr loaded \<Rightarrow>
          (case loadUsers (rg_Users loaded) [] [] None of
             Inl e \<Rightarrow> Inl e
           | Inr (users, fallback) \<Rightarrow>
               if sessionTTLOf config < 5 * Minute \<or> sessionTTLOf config > 24 * 60 * Minute
               then Inl (Errorf ''local session lifetime must be between 5 minutes and 24 hours'' [])
               else if loginFlowTTLOf config < Minute \<or> loginFlowTTLOf config > 30 * Minute
               then Inl (Errorf ''local login flow lifetime must be between 1 and 30 minutes'' [])
               else case loginKey of
                      Inl e \<Rightarrow> Inl (Wrapf ''creating local login challenge key: %w'' [] e)
                    | Inr lk \<Rightarrow>
                        (case rateKey of
                           Inl e \<Rightarrow> Inl (Wrapf ''creating local login rate key: %w'' [] e)
                         | Inr rk \<Rightarrow>
                             Inr (\<lparr>a_users = users, a_cookieSecure = cf_CookieSecure config, a_sessionTTL = sessionTTLOf config,
                                   a_loginFlowTTL = loginFlowTTLOf config, a_fallbackHash = the fallback, a_loginKey = lk, a_rateKey = rk\<rparr>,
                                  initialAuthState))))"

section \<open>Cookies\<close>

type_synonym Request = "(string \<times> string) list"

record Cookie =
  ck_Name :: string
  ck_Value :: string
  ck_MaxAge :: int
  ck_HttpOnly :: bool
  ck_Secure :: bool
  ck_SameSite :: string
  ck_Path :: string

definition setCookie :: "Authenticator \<Rightarrow> string \<Rightarrow> string \<Rightarrow> int \<Rightarrow> Cookie" where
  "setCookie a name value maxAge = \<lparr>ck_Name = name, ck_Value = value, ck_MaxAge = maxAge, ck_HttpOnly = True,
     ck_Secure = a_cookieSecure a, ck_SameSite = ''Lax'', ck_Path = ''/''\<rparr>"

definition clearCookie :: "Authenticator \<Rightarrow> string \<Rightarrow> Cookie" where
  "clearCookie a name = setCookie a name [] (- 1)"

text \<open>The first cookie of the request with the name.\<close>

definition cookieValue :: "Request \<Rightarrow> string \<Rightarrow> string result" where
  "cookieValue r name =
     (case map_of r name of
        None \<Rightarrow> Inl (Errorf ''missing local session cookie'' [])
      | Some v \<Rightarrow> if TrimSpace v = [] \<or> length v > 256 then Inl (Errorf ''missing local session cookie'' []) else Inr v)"

definition randomToken :: "string result \<Rightarrow> string result" where
  "randomToken random =
     (case random of Inl e \<Rightarrow> Inl (Wrapf ''creating local session token: %w'' [] e) | Inr bytes \<Rightarrow> Inr (EncodeToString encodeURL bytes))"

section \<open>Login challenges\<close>

text \<open>\<^verbatim>\<open>%d\<close> of a 64-bit integer, and \<^verbatim>\<open>time.Time.Unix\<close>.\<close>

definition formatInt :: "int \<Rightarrow> string" where
  "formatInt n = (if n < 0 then ''-'' @ Itoa (nat (- n)) else Itoa (nat n))"

definition Unix :: "time \<Rightarrow> int" where
  "Unix t = t div Second"

definition loginChallenge :: "Crypto \<Rightarrow> Authenticator \<Rightarrow> time \<Rightarrow> string \<Rightarrow> string \<Rightarrow> string result" where
  "loginChallenge c a expiresAt csrf nonce =
     (if length (a_loginKey a) \<noteq> 32 then Inl ErrInvalidCSRF
      else let payload = formatInt (Unix expiresAt) @ ''.'' @ csrf @ ''.'' @ nonce
           in Inr (EncodeToString encodeURL payload @ ''.'' @ EncodeToString encodeURL (c_mac c (a_loginKey a) payload)))"

text \<open>\<^verbatim>\<open>strconv.ParseInt(s, 10, 64)\<close> is \<^const>\<open>Atoi\<close>.\<close>

definition verifyLoginChallenge :: "Crypto \<Rightarrow> Authenticator \<Rightarrow> string \<Rightarrow> string \<Rightarrow> time \<Rightarrow> bool" where
  "verifyLoginChallenge c a value csrf now =
     (if length (a_loginKey a) \<noteq> 32 \<or> length value > 256 then False
      else case cut (CHR ''.'') value of
             None \<Rightarrow> False
           | Some (encodedPayload, encodedMAC) \<Rightarrow>
               if encodedPayload = [] \<or> encodedMAC = [] \<or> Contains encodedMAC ''.'' then False
               else case DecodeString encodeURL encodedPayload of
                      None \<Rightarrow> False
                    | Some payload \<Rightarrow>
                        if length payload > 192 then False
                        else case DecodeString encodeURL encodedMAC of
                               None \<Rightarrow> False
                             | Some providedMAC \<Rightarrow>
                                 if length providedMAC \<noteq> 32 \<or> providedMAC \<noteq> c_mac c (a_loginKey a) payload then False
                                 else case Split payload (CHR ''.'') of
                                        [part0, part1, part2] \<Rightarrow>
                                          if length part1 > 64 \<or> length part2 > 64 then False
                                          else (case Atoi part0 of
                                                  None \<Rightarrow> False
                                                | Some expiresUnix \<Rightarrow> now < expiresUnix * Second \<and> part1 = csrf)
                                      | _ \<Rightarrow> False)"

definition verifyLoginChallengeFromRequest :: "Crypto \<Rightarrow> Authenticator \<Rightarrow> Request \<Rightarrow> string \<Rightarrow> time \<Rightarrow> bool" where
  "verifyLoginChallengeFromRequest c a r csrf now =
     (case cookieValue r loginCookieName of Inl e \<Rightarrow> False | Inr flow \<Rightarrow> verifyLoginChallenge c a flow csrf now)"

text \<open>The CSRF token for the form and the cookie that is set.\<close>

definition BeginLogin :: "Crypto \<Rightarrow> Authenticator \<Rightarrow> time \<Rightarrow> string result \<Rightarrow> string result \<Rightarrow> (string \<times> Cookie) result" where
  "BeginLogin c a now random1 random2 =
     (case randomToken random1 of
        Inl e \<Rightarrow> Inl e
      | Inr csrf \<Rightarrow>
          (case randomToken random2 of
             Inl e \<Rightarrow> Inl e
           | Inr nonce \<Rightarrow>
               (case loginChallenge c a (now + a_loginFlowTTL a) csrf nonce of
                  Inl e \<Rightarrow> Inl e
                | Inr flow \<Rightarrow> Inr (csrf, setCookie a loginCookieName flow (a_loginFlowTTL a div Second)))))"

section \<open>The rate limit\<close>

text \<open>Every operation of this section runs under the mutex.\<close>

definition beforeTime :: "time \<Rightarrow> time option \<Rightarrow> bool" where
  "beforeTime now t = (case t of None \<Rightarrow> False | Some u \<Rightarrow> now < u)"

definition cleanBucket :: "time \<Rightarrow> rateBucket \<Rightarrow> rateBucket" where
  "cleanBucket now b =
     (if rb_inFlight b > 0 then b
      else if rb_until b \<noteq> None \<and> beforeTime now (rb_until b) then b
      else if rb_until b \<noteq> None \<or> (case rb_updated b of None \<Rightarrow> True | Some u \<Rightarrow> now - u > lockoutDuration) then zeroBucket
      else b)"

definition cleanupLocked :: "time \<Rightarrow> AuthState \<Rightarrow> AuthState" where
  "cleanupLocked now st = st\<lparr>a_sessions := filter (\<lambda>(i, s). now < s_expiresAt s) (a_sessions st),
     a_rateBuckets := map (cleanBucket now) (a_rateBuckets st)\<rparr>"

text \<open>\<^verbatim>\<open>binary.BigEndian.Uint64\<close> of the first eight bytes of the digest, modulo the number of buckets; \<open>None\<close> is \<^verbatim>\<open>-1\<close>.\<close>

definition bigEndian :: "string \<Rightarrow> nat" where
  "bigEndian s = fold (\<lambda>c n. 256 * n + of_char c) s 0"

definition rateBucketIndex :: "Crypto \<Rightarrow> Authenticator \<Rightarrow> AuthState \<Rightarrow> string \<Rightarrow> nat option" where
  "rateBucketIndex c a st subject =
     (if length (a_rateKey a) \<noteq> 32 \<or> length (a_rateBuckets st) = 0 then None
      else Some (bigEndian (take 8 (c_mac c (a_rateKey a) subject)) mod length (a_rateBuckets st)))"

definition admitBucket :: "time \<Rightarrow> rateBucket \<Rightarrow> rateBucket option" where
  "admitBucket now b =
     (if beforeTime now (rb_until b) then None
      else if rb_failures b + rb_inFlight b \<ge> lockoutAfterFailures then None
      else Some (b\<lparr>rb_inFlight := Suc (rb_inFlight b), rb_updated := Some now\<rparr>))"

definition admitAttempt :: "nat option \<Rightarrow> time \<Rightarrow> AuthState \<Rightarrow> bool \<times> AuthState" where
  "admitAttempt index now st =
     (let st = cleanupLocked now st
      in case index of
           None \<Rightarrow> (False, st)
         | Some i \<Rightarrow>
             if i \<ge> length (a_rateBuckets st) then (False, st)
             else case admitBucket now (a_rateBuckets st ! i) of
                    None \<Rightarrow> (False, st)
                  | Some b \<Rightarrow> (True, st\<lparr>a_rateBuckets := (a_rateBuckets st)[i := b]\<rparr>))"

definition cancelBucket :: "time \<Rightarrow> rateBucket \<Rightarrow> rateBucket" where
  "cancelBucket now b =
     (if rb_inFlight b = 0 then b else b\<lparr>rb_inFlight := rb_inFlight b - 1, rb_updated := Some now\<rparr>)"

definition finishBucket :: "time \<Rightarrow> bool \<Rightarrow> rateBucket \<Rightarrow> rateBucket" where
  "finishBucket now successful b =
     (if rb_inFlight b = 0 then b
      else let b = b\<lparr>rb_inFlight := rb_inFlight b - 1,
                 rb_failures := (if successful then 0 else Suc (rb_failures b)), rb_updated := Some now\<rparr>
           in if rb_failures b \<ge> lockoutAfterFailures
              then b\<lparr>rb_failures := 0, rb_until := Some (now + lockoutDuration)\<rparr> else b)"

definition onBucket :: "(rateBucket \<Rightarrow> rateBucket) \<Rightarrow> nat option \<Rightarrow> AuthState \<Rightarrow> AuthState" where
  "onBucket f index st =
     (case index of
        None \<Rightarrow> st
      | Some i \<Rightarrow>
          if i \<ge> length (a_rateBuckets st) then st
          else st\<lparr>a_rateBuckets := (a_rateBuckets st)[i := f (a_rateBuckets st ! i)]\<rparr>)"

definition cancelAttempt :: "nat option \<Rightarrow> time \<Rightarrow> AuthState \<Rightarrow> AuthState" where
  "cancelAttempt index now = onBucket (cancelBucket now) index"

definition finishAttempt :: "nat option \<Rightarrow> time \<Rightarrow> bool \<Rightarrow> AuthState \<Rightarrow> AuthState" where
  "finishAttempt index now successful = onBucket (finishBucket now successful) index"

text \<open>The channel of capacity \<^const>\<open>maxPasswordChecks\<close> that limits concurrent password checks.\<close>

definition acquirePasswordCheck :: "AuthState \<Rightarrow> AuthState option" where
  "acquirePasswordCheck st =
     (if a_passwordChecks st < maxPasswordChecks then Some (st\<lparr>a_passwordChecks := Suc (a_passwordChecks st)\<rparr>) else None)"

definition releasePasswordCheck :: "AuthState \<Rightarrow> AuthState" where
  "releasePasswordCheck st = st\<lparr>a_passwordChecks := a_passwordChecks st - 1\<rparr>"

section \<open>Login, sessions and logout\<close>

definition candidateHash :: "Authenticator \<Rightarrow> string \<Rightarrow> argon2idHash" where
  "candidateHash a subject = (case map_of (a_users a) subject of None \<Rightarrow> a_fallbackHash a | Some account \<Rightarrow> u_passwordHash account)"

text \<open>The password check of one attempt, and whether the attempt is successful.\<close>

definition checkPassword :: "Crypto \<Rightarrow> Authenticator \<Rightarrow> string \<Rightarrow> string \<Rightarrow> bool" where
  "checkPassword c a subject password =
     (let candidatePassword = (if length password > maxPasswordBytes then [] else password);
          verified = verify c (candidateHash a subject) candidatePassword
      in map_of (a_users a) subject \<noteq> None \<and> length password > 0 \<and> length password \<le> maxPasswordBytes \<and> verified)"

text \<open>The last critical section of a login.\<close>

definition createSession :: "Authenticator \<Rightarrow> time \<Rightarrow> user \<Rightarrow> string \<Rightarrow> string \<Rightarrow> AuthState \<Rightarrow> err option \<times> AuthState" where
  "createSession a now account sessionID sessionCSRF st =
     (let st = cleanupLocked now st
      in if length (a_sessions st) \<ge> maxSessions then (Some ErrRateLimited, st)
         else (None, st\<lparr>a_sessions := AList.update sessionID
                 \<lparr>s_subject = u_subject account, s_controllerToken = u_controllerToken account, s_csrf = sessionCSRF,
                  s_expiresAt = now + a_sessionTTL a\<rparr> (a_sessions st)\<rparr>))"

text \<open>
  What one login reads from outside: the clock at the verification of the challenge, at the admission and
  at the end of the check, and the two reads of the random source.
\<close>

record LoginInputs =
  li_challengeTime :: time
  li_now :: time
  li_finishTime :: time
  li_sessionID :: "string result"
  li_sessionCSRF :: "string result"

definition Login :: "Crypto \<Rightarrow> Authenticator \<Rightarrow> LoginInputs \<Rightarrow> Request \<Rightarrow> string \<Rightarrow> string \<Rightarrow> string \<Rightarrow> AuthState
    \<Rightarrow> (Cookie list) result \<times> AuthState" where
  "Login c a inp r subject password csrf st =
     (if \<not> verifyLoginChallengeFromRequest c a r csrf (li_challengeTime inp) then (Inl ErrInvalidCSRF, st)
      else
        let subject = TrimSpace subject;
            index = rateBucketIndex c a st subject;
            now = li_now inp
        in case admitAttempt index now st of
             (False, st) \<Rightarrow> (Inl ErrRateLimited, st)
           | (True, st) \<Rightarrow>
               (case acquirePasswordCheck st of
                  None \<Rightarrow> (Inl ErrRateLimited, cancelAttempt index now st)
                | Some st \<Rightarrow>
                    (let successful = checkPassword c a subject password;
                         st = releasePasswordCheck st;
                         st = finishAttempt index (li_finishTime inp) successful st
                     in if \<not> successful then (Inl ErrInvalidCredentials, st)
                        else case randomToken (li_sessionID inp) of
                               Inl e \<Rightarrow> (Inl e, st)
                             | Inr sessionID \<Rightarrow>
                                 (case randomToken (li_sessionCSRF inp) of
                                    Inl e \<Rightarrow> (Inl e, st)
                                  | Inr sessionCSRF \<Rightarrow>
                                      (case createSession a now (the (map_of (a_users a) subject)) sessionID sessionCSRF st of
                                         (Some e, st) \<Rightarrow> (Inl e, st)
                                       | (None, st) \<Rightarrow>
                                           (Inr [clearCookie a loginCookieName, setCookie a sessionCookieName sessionID (a_sessionTTL a div Second)], st))))))"

definition Logout :: "Authenticator \<Rightarrow> time \<Rightarrow> Request \<Rightarrow> string \<Rightarrow> AuthState \<Rightarrow> (Cookie list) result \<times> AuthState" where
  "Logout a now r csrf st =
     (case cookieValue r sessionCookieName of
        Inl e \<Rightarrow> (Inl ErrInvalidCSRF, st)
      | Inr sessionID \<Rightarrow>
          (let st = cleanupLocked now st
           in case map_of (a_sessions st) sessionID of
                None \<Rightarrow> (Inl ErrInvalidCSRF, st)
              | Some value \<Rightarrow>
                  if s_csrf value \<noteq> csrf then (Inl ErrInvalidCSRF, st)
                  else (Inr [clearCookie a sessionCookieName], st\<lparr>a_sessions := AList.delete sessionID (a_sessions st)\<rparr>)))"

definition current :: "time \<Rightarrow> Request \<Rightarrow> AuthState \<Rightarrow> (string \<times> session) option \<times> AuthState" where
  "current now r st =
     (case cookieValue r sessionCookieName of
        Inl e \<Rightarrow> (None, st)
      | Inr sessionID \<Rightarrow>
          (let st = cleanupLocked now st
           in (map_option (\<lambda>v. (sessionID, v)) (map_of (a_sessions st) sessionID), st)))"

text \<open>\<^verbatim>\<open>presentation.ErrUnauthenticatedSession\<close>, and the session with its controller token as its token source.\<close>

definition ErrUnauthenticatedSession :: err where
  "ErrUnauthenticatedSession = Errorf ''presentation session is not authenticated'' []"

definition ResolvePresentationSession :: "time \<Rightarrow> Request \<Rightarrow> AuthState \<Rightarrow> (string \<times> string \<times> string) result \<times> AuthState" where
  "ResolvePresentationSession now r st =
     (case current now r st of
        (None, st) \<Rightarrow> (Inl ErrUnauthenticatedSession, st)
      | (Some (sessionID, value), st) \<Rightarrow> (Inr (sessionID, s_subject value, s_controllerToken value), st))"

definition Current :: "time \<Rightarrow> Request \<Rightarrow> AuthState \<Rightarrow> (string \<times> string) option \<times> AuthState" where
  "Current now r st =
     (case current now r st of
        (None, st) \<Rightarrow> (None, st)
      | (Some (sessionID, value), st) \<Rightarrow> (Some (s_subject value, s_csrf value), st))"

section \<open>A concrete authenticator\<close>

definition demoCrypto :: Crypto where
  "demoCrypto = \<lparr>c_mac = (\<lambda>k s. take 32 (s @ replicate 32 (CHR ''0''))), c_argon = (\<lambda>p s t m k n. take n (p @ s @ replicate n (CHR ''0'')))\<rparr>"

definition demoVerifier :: argon2idHash where
  "demoVerifier = \<lparr>ah_memory = 65536, ah_time = 3, ah_parallelism = 1, ah_salt = replicate 16 (CHR ''s''),
     ah_hash = ''secret'' @ replicate 16 (CHR ''s'') @ replicate 10 (CHR ''0'')\<rparr>"

definition demoAuthenticator :: Authenticator where
  "demoAuthenticator = \<lparr>a_users = [(''ada'', \<lparr>u_subject = ''ada'', u_passwordHash = demoVerifier, u_controllerToken = ''t1''\<rparr>)],
     a_cookieSecure = True, a_sessionTTL = defaultSessionTTL, a_loginFlowTTL = defaultLoginFlowTTL, a_fallbackHash = demoVerifier,
     a_loginKey = replicate 32 (CHR ''k''), a_rateKey = replicate 32 (CHR ''r'')\<rparr>"

section \<open>Round trips\<close>

lemma base64_not_space:
  "c \<in> set (EncodeToString encodeStd s) \<Longrightarrow> \<not> isSpace c" "c \<in> set (EncodeToString encodeURL s) \<Longrightarrow> \<not> isSpace c"
proof -
  have "list_all (\<lambda>c. \<not> isSpace c) encodeStd" "list_all (\<lambda>c. \<not> isSpace c) encodeURL" by code_simp+
  then show "c \<in> set (EncodeToString encodeStd s) \<Longrightarrow> \<not> isSpace c" "c \<in> set (EncodeToString encodeURL s) \<Longrightarrow> \<not> isSpace c"
    by (auto simp: list_all_iff dest: rawStd.encoded_in_alphabet rawURL.encoded_in_alphabet)
qed

lemma digits_not_sep: "list_all isDigit s \<Longrightarrow> \<not> isDigit c \<Longrightarrow> c \<notin> set s"
  by (auto simp: list_all_iff)

lemma parseBoundedUint32_spec:
  "parseBoundedUint32 s lo hi = Inr n \<Longrightarrow> lo \<le> n \<and> n \<le> hi \<and> n < 2 ^ 32"
  by (auto simp: parseBoundedUint32_def split: if_splits)

lemma parseArgon2id_bounds:
  assumes "parseArgon2id v = Inr h"
  shows "32768 \<le> ah_memory h" "ah_memory h \<le> 262144" "1 \<le> ah_time h" "ah_time h \<le> 10"
    "1 \<le> ah_parallelism h" "ah_parallelism h \<le> 4" "16 \<le> length (ah_salt h)" "length (ah_salt h) \<le> 64" "length (ah_hash h) = 32"
  using assms unfolding parseArgon2id_def
  by (auto simp: phcErr_def dest!: parseBoundedUint32_spec split: list.splits if_splits option.splits sum.splits)

lemma default_costs: "Itoa defaultArgonMemory = ''65536''" "Itoa defaultArgonTime = ''3''" "Itoa defaultArgonParallel = ''1''"
  by (simp_all add: defaultArgonMemory_def defaultArgonTime_def defaultArgonParallel_def Itoa.simps char_of_def bit_0)

lemma parse_defaults:
  "parseParams (Split (''m='' @ Itoa defaultArgonMemory @ '',t='' @ Itoa defaultArgonTime @ '',p='' @ Itoa defaultArgonParallel) (CHR '','')) []
     = Some [(''m'', ''65536''), (''t'', ''3''), (''p'', ''1'')]"
  by (simp add: default_costs strAt_def)

lemma phc_split:
  "Split (''$argon2id$v=19$m='' @ Itoa defaultArgonMemory @ '',t='' @ Itoa defaultArgonTime @ '',p='' @ Itoa defaultArgonParallel
     @ ''$'' @ EncodeToString encodeStd salt @ ''$'' @ EncodeToString encodeStd digest) (CHR ''$'')
   = ['''', ''argon2id'', ''v=19'', ''m='' @ Itoa defaultArgonMemory @ '',t='' @ Itoa defaultArgonTime @ '',p='' @ Itoa defaultArgonParallel,
      EncodeToString encodeStd salt, EncodeToString encodeStd digest]"
proof -
  have digits: "CHR ''$'' \<notin> set (Itoa n)" for n using Itoa_digits [of n] by (auto simp: list_all_iff isDigit_def)
  have "CHR ''$'' \<notin> set (''m='' @ Itoa defaultArgonMemory @ '',t='' @ Itoa defaultArgonTime @ '',p='' @ Itoa defaultArgonParallel)"
    using digits by simp
  from Split_append [OF this] Split_append [OF separators_not_encoded(2)] separators_not_encoded(2)
  show ?thesis by simp
qed

lemma parseArgon2id_print:
  assumes "length salt = 16" "length digest = 32"
  shows "parseArgon2id (''$argon2id$v=19$m='' @ Itoa defaultArgonMemory @ '',t='' @ Itoa defaultArgonTime @ '',p='' @ Itoa defaultArgonParallel
     @ ''$'' @ EncodeToString encodeStd salt @ ''$'' @ EncodeToString encodeStd digest)
   = Inr \<lparr>ah_memory = 65536, ah_time = 3, ah_parallelism = 1, ah_salt = salt, ah_hash = digest\<rparr>"
proof -
  have "parseBoundedUint32 ''65536'' 32768 262144 = Inr 65536" "parseBoundedUint32 ''3'' 1 10 = Inr 3" "parseBoundedUint32 ''1'' 1 4 = Inr 1"
    by (simp_all add: parseBoundedUint32_def isDigit_def digitsVal_def digitVal_def)
  then show ?thesis
    unfolding parseArgon2id_def phc_split
    using assms by (simp only: list.case parse_defaults option.case) (simp add: strAt_def rawStd.decode_encode)
qed

text \<open>
  A verifier produced for a password is accepted by the registry's parser, surrounding white space
  included, and verifies exactly the passwords that have the digest of that password under its salt, the
  password itself among them.
\<close>

theorem HashPassword_parse:
  assumes "\<And>p s t m k n. length (c_argon c p s t m k n) = n"
    and "HashPassword c (Inr salt) password = Inr v" and "length salt = 16"
  shows "\<exists>h. parseArgon2id (TrimSpace v) = Inr h \<and> verify c h password
    \<and> (\<forall>p. verify c h p \<longleftrightarrow> c_argon c p salt 3 65536 1 32 = c_argon c password salt 3 65536 1 32)"
proof -
  let ?d = "c_argon c password salt 3 65536 1 32"
  let ?h = "\<lparr>ah_memory = 65536, ah_time = 3, ah_parallelism = 1, ah_salt = salt, ah_hash = ?d\<rparr>"
  have v: "v = ''$argon2id$v=19$m='' @ Itoa defaultArgonMemory @ '',t='' @ Itoa defaultArgonTime @ '',p='' @ Itoa defaultArgonParallel
     @ ''$'' @ EncodeToString encodeStd salt @ ''$'' @ EncodeToString encodeStd ?d"
    using assms(2) by (auto simp: HashPassword_def Let_def defaultArgonMemory_def defaultArgonTime_def defaultArgonParallel_def split: if_splits)
  have d: "length ?d = 32" using assms(1) by simp
  then have ne: "EncodeToString encodeStd ?d \<noteq> []" by (subst rawStd.encode_empty) auto
  then have "\<not> isSpace (last v)" unfolding v using base64_not_space(1) last_in_set by fastforce
  moreover have "\<not> isSpace (hd v)" unfolding v by (simp add: isSpace_def)
  ultimately have "TrimSpace v = v" by (intro TrimSpace_id) (auto simp: v)
  moreover have "parseArgon2id v = Inr ?h" unfolding v by (rule parseArgon2id_print [OF assms(3) d])
  ultimately show ?thesis using d by (auto simp: verify_def)
qed

theorem HashPassword_parse_witness:
  "\<exists>v h. HashPassword demoCrypto (Inr (replicate 16 (CHR ''s''))) ''secret'' = Inr v
     \<and> parseArgon2id (TrimSpace v) = Inr h \<and> verify demoCrypto h ''secret'' \<and> \<not> verify demoCrypto h ''guess''"
proof -
  obtain v where v: "HashPassword demoCrypto (Inr (replicate 16 (CHR ''s''))) ''secret'' = Inr v"
    by (simp add: HashPassword_def maxPasswordBytes_def Let_def)
  have "length (c_argon demoCrypto p s t m k n) = n" for p s t m k n by (simp add: demoCrypto_def)
  from HashPassword_parse [OF this v] obtain h where h: "parseArgon2id (TrimSpace v) = Inr h" "verify demoCrypto h ''secret''"
    "verify demoCrypto h ''guess'' \<longleftrightarrow> c_argon demoCrypto ''guess'' (replicate 16 (CHR ''s'')) 3 65536 1 32 = c_argon demoCrypto ''secret'' (replicate 16 (CHR ''s'')) 3 65536 1 32"
    by auto
  have "c_argon demoCrypto ''guess'' (replicate 16 (CHR ''s'')) 3 65536 1 32 \<noteq> c_argon demoCrypto ''secret'' (replicate 16 (CHR ''s'')) 3 65536 1 32"
    by (simp add: demoCrypto_def)
  with v h show ?thesis by blast
qed

lemma Itoa_length: "0 < k \<Longrightarrow> n < 10 ^ k \<Longrightarrow> length (Itoa n) \<le> k"
proof (induction k arbitrary: n)
  case (Suc k)
  show ?case
  proof (cases "n < 10")
    case True
    then show ?thesis by (simp add: Itoa.simps)
  next
    case False
    then have "0 < k" using Suc.prems by (cases k) auto
    moreover have "n div 10 < 10 ^ k" using Suc.prems by (simp add: less_mult_imp_div_less mult.commute)
    ultimately have "length (Itoa (n div 10)) \<le> k" by (rule Suc.IH)
    then show ?thesis using False by (simp add: Itoa.simps [of n])
  qed
qed simp

text \<open>The challenge verifier on a payload with its MAC: the length bounds, the expiry and the token.\<close>

definition signed :: "Crypto \<Rightarrow> Authenticator \<Rightarrow> string \<Rightarrow> string" where
  "signed c a payload = EncodeToString encodeURL payload @ ''.'' @ EncodeToString encodeURL (c_mac c (a_loginKey a) payload)"

lemma verify_signed:
  assumes key: "length (a_loginKey a) = 32" and mac: "length (c_mac c (a_loginKey a) payload) = 32"
    and payload: "payload = exp @ ''.'' @ csrf @ ''.'' @ nonce" "CHR ''.'' \<notin> set exp" "CHR ''.'' \<notin> set csrf" "CHR ''.'' \<notin> set nonce"
    and bounds: "length exp \<le> 19" "length csrf \<le> 64" "length nonce \<le> 64" "length payload \<le> 150"
  shows "verifyLoginChallenge c a (signed c a payload) csrf' now
    \<longleftrightarrow> csrf' = csrf \<and> (case Atoi exp of None \<Rightarrow> False | Some n \<Rightarrow> now < n * Second)"
proof -
  have len: "length (signed c a payload) \<le> 256"
    using bounds(4) mac by (simp add: signed_def rawURL.length_encoded)
  have cutp: "cut (CHR ''.'') (signed c a payload) = Some (EncodeToString encodeURL payload, EncodeToString encodeURL (c_mac c (a_loginKey a) payload))"
    by (simp add: signed_def separators_not_encoded)
  have "c_mac c (a_loginKey a) payload \<noteq> []" "payload \<noteq> []" using mac payload(1) by auto
  then have ne: "EncodeToString encodeURL payload \<noteq> []" "EncodeToString encodeURL (c_mac c (a_loginKey a) payload) \<noteq> []"
    by (simp_all add: rawURL.encode_empty)
  have "Split payload (CHR ''.'') = [exp, csrf, nonce]" using payload by (simp add: Split_append)
  then show ?thesis
    using key len cutp ne mac bounds
    by (auto simp: verifyLoginChallenge_def Contains_byte separators_not_encoded rawURL.decode_encode split: option.splits)
qed

lemma signed_not_blank:
  assumes "payload \<noteq> []"
  shows "TrimSpace (signed c a payload) \<noteq> []"
proof -
  have ne: "EncodeToString encodeURL payload \<noteq> []" using assms by (simp add: rawURL.encode_empty)
  have "\<forall>x\<in>set (signed c a payload). \<not> isSpace x"
    by (auto simp: signed_def isSpace_def dest: base64_not_space(2))
  then have "TrimSpace (signed c a payload) = signed c a payload"
    by (intro TrimSpace_id) (auto simp: signed_def ne)
  then show ?thesis by (simp add: signed_def)
qed

lemma verifyLoginChallenge_accepts:
  assumes "verifyLoginChallenge c a value csrf now"
  obtains payload exp nonce n where "DecodeString encodeURL (fst (the (cut (CHR ''.'') value))) = Some payload"
    "DecodeString encodeURL (snd (the (cut (CHR ''.'') value))) = Some (c_mac c (a_loginKey a) payload)"
    "payload = exp @ ''.'' @ csrf @ ''.'' @ nonce" "Atoi exp = Some n" "now < n * Second"
proof -
  from assms obtain p m where cutv: "cut (CHR ''.'') value = Some (p, m)"
    by (auto simp: verifyLoginChallenge_def split: option.splits if_splits)
  with assms obtain payload where payload: "DecodeString encodeURL p = Some payload"
    by (auto simp: verifyLoginChallenge_def split: option.splits if_splits)
  with assms cutv obtain mac where mac: "DecodeString encodeURL m = Some mac"
    by (auto simp: verifyLoginChallenge_def split: option.splits if_splits)
  from assms have body: "mac = c_mac c (a_loginKey a) payload \<and>
     (case Split payload (CHR ''.'') of
        [part0, part1, part2] \<Rightarrow>
          if length part1 > 64 \<or> length part2 > 64 then False
          else (case Atoi part0 of None \<Rightarrow> False | Some expiresUnix \<Rightarrow> now < expiresUnix * Second \<and> part1 = csrf)
      | _ \<Rightarrow> False)"
    by (simp add: verifyLoginChallenge_def cutv payload mac split: if_split_asm)
  then obtain exp nonce n where v: "mac = c_mac c (a_loginKey a) payload"
    "Split payload (CHR ''.'') = [exp, csrf, nonce]" "Atoi exp = Some n" "now < n * Second"
    by (auto split: list.split_asm if_split_asm option.split_asm)
  then have "payload = exp @ ''.'' @ csrf @ ''.'' @ nonce" using Join_Split [of payload "CHR ''.''"] by simp
  with v cutv payload mac that show thesis by simp
qed

lemma BeginLogin_signed:
  assumes "BeginLogin c a now (Inr r) (Inr r') = Inr (csrf, ck)"
  shows "csrf = EncodeToString encodeURL r" "ck_Name ck = loginCookieName" "length (a_loginKey a) = 32"
    "ck_Value ck = signed c a (formatInt (Unix (now + a_loginFlowTTL a)) @ ''.'' @ csrf @ ''.'' @ EncodeToString encodeURL r')"
  using assms by (auto simp: BeginLogin_def randomToken_def loginChallenge_def signed_def setCookie_def Let_def split: if_splits)

lemma formatInt_Unix:
  assumes "0 \<le> t" "t < 2 ^ 63 * Second"
  shows "formatInt (Unix t) = Itoa (nat (Unix t))" "length (formatInt (Unix t)) \<le> 19" "Atoi (formatInt (Unix t)) = Some (Unix t)"
    "CHR ''.'' \<notin> set (formatInt (Unix t))"
proof -
  have u: "0 \<le> Unix t" "Unix t < 2 ^ 63" using assms by (auto simp: Unix_def pos_imp_zdiv_nonneg_iff int_div_less_self intro: div_less_iff_less_mult [THEN iffD2])
  then show f: "formatInt (Unix t) = Itoa (nat (Unix t))" by (simp add: formatInt_def)
  show "length (formatInt (Unix t)) \<le> 19" unfolding f using u by (intro Itoa_length) auto
  show "Atoi (formatInt (Unix t)) = Some (Unix t)" unfolding f using u Atoi_Itoa [of "nat (Unix t)"] by simp
  show "CHR ''.'' \<notin> set (formatInt (Unix t))" unfolding f using Itoa_digits [of "nat (Unix t)"] by (auto simp: list_all_iff isDigit_def)
qed

text \<open>
  Login challenges. The cookie that starts a login is accepted exactly with the form token issued
  with it and until its lifetime has passed, in whole seconds; and whatever value is accepted with a form
  token carries that token and an expiry in the future under the server's MAC.
\<close>

theorem login_challenge_roundtrip:
  assumes mac: "\<And>k s. length (c_mac c k s) = 32"
    and begin_login: "BeginLogin c a now (Inr r) (Inr r') = Inr (csrf, ck)" and "length r = 32" "length r' = 32"
    and "0 \<le> now + a_loginFlowTTL a" "now + a_loginFlowTTL a < 2 ^ 63 * Second"
  shows "(verifyLoginChallengeFromRequest c a [(ck_Name ck, ck_Value ck)] token t
          \<longleftrightarrow> token = csrf \<and> t < (now + a_loginFlowTTL a) div Second * Second)
    \<and> (\<forall>req. verifyLoginChallengeFromRequest c a req token t \<longrightarrow>
         (\<exists>value payload exp nonce n. map_of req loginCookieName = Some value
            \<and> DecodeString encodeURL (fst (the (cut (CHR ''.'') value))) = Some payload
            \<and> DecodeString encodeURL (snd (the (cut (CHR ''.'') value))) = Some (c_mac c (a_loginKey a) payload)
            \<and> payload = exp @ ''.'' @ token @ ''.'' @ nonce \<and> Atoi exp = Some n \<and> t < n * Second))"
proof (intro conjI allI impI)
  note b = BeginLogin_signed [OF begin_login]
  let ?exp = "formatInt (Unix (now + a_loginFlowTTL a))"
  let ?payload = "?exp @ ''.'' @ csrf @ ''.'' @ EncodeToString encodeURL r'"
  note e = formatInt_Unix [OF assms(5,6)]
  have tok: "length csrf = 43" "length (EncodeToString encodeURL r') = 43"
    using b(1) assms(3,4) by (simp_all add: rawURL.length_encoded)
  have "cookieValue [(ck_Name ck, ck_Value ck)] loginCookieName = Inr (signed c a ?payload)"
    using tok e(2) mac signed_not_blank [of ?payload c a] b(2,4)
    by (simp add: cookieValue_def) (simp add: signed_def rawURL.length_encoded)
  then have "verifyLoginChallengeFromRequest c a [(ck_Name ck, ck_Value ck)] token t = verifyLoginChallenge c a (signed c a ?payload) token t"
    by (simp add: verifyLoginChallengeFromRequest_def)
  also have "\<dots> \<longleftrightarrow> token = csrf \<and> t < Unix (now + a_loginFlowTTL a) * Second"
    using b(1,3) mac tok e(2-4) verify_signed [of a c ?payload ?exp csrf "EncodeToString encodeURL r'" token t]
    by (simp add: separators_not_encoded)
  finally show "verifyLoginChallengeFromRequest c a [(ck_Name ck, ck_Value ck)] token t
          \<longleftrightarrow> token = csrf \<and> t < (now + a_loginFlowTTL a) div Second * Second"
    by (simp add: Unix_def)
next
  fix req
  assume "verifyLoginChallengeFromRequest c a req token t"
  then obtain flow where "map_of req loginCookieName = Some flow" "verifyLoginChallenge c a flow token t"
    by (auto simp: verifyLoginChallengeFromRequest_def cookieValue_def split: sum.splits option.splits if_splits)
  then show "\<exists>value payload exp nonce n. map_of req loginCookieName = Some value
            \<and> DecodeString encodeURL (fst (the (cut (CHR ''.'') value))) = Some payload
            \<and> DecodeString encodeURL (snd (the (cut (CHR ''.'') value))) = Some (c_mac c (a_loginKey a) payload)
            \<and> payload = exp @ ''.'' @ token @ ''.'' @ nonce \<and> Atoi exp = Some n \<and> t < n * Second"
    by (blast elim: verifyLoginChallenge_accepts)
qed

theorem login_challenge_roundtrip_witness:
  "\<exists>csrf ck. BeginLogin demoCrypto demoAuthenticator 0 (Inr (replicate 32 (CHR ''a''))) (Inr (replicate 32 (CHR ''b''))) = Inr (csrf, ck)
     \<and> verifyLoginChallengeFromRequest demoCrypto demoAuthenticator [(ck_Name ck, ck_Value ck)] csrf (599 * Second)
     \<and> \<not> verifyLoginChallengeFromRequest demoCrypto demoAuthenticator [(ck_Name ck, ck_Value ck)] csrf (600 * Second)"
proof -
  obtain csrf ck where b: "BeginLogin demoCrypto demoAuthenticator 0 (Inr (replicate 32 (CHR ''a''))) (Inr (replicate 32 (CHR ''b''))) = Inr (csrf, ck)"
    by (simp add: BeginLogin_def randomToken_def loginChallenge_def demoAuthenticator_def Let_def)
  have mac: "length (c_mac demoCrypto k s) = 32" for k s by (simp add: demoCrypto_def)
  have "a_loginFlowTTL demoAuthenticator = 600 * Second" by (simp add: demoAuthenticator_def defaultLoginFlowTTL_def)
  then show ?thesis
    using b login_challenge_roundtrip [OF mac b, of csrf "599 * Second"] login_challenge_roundtrip [OF mac b, of csrf "600 * Second"]
    by auto
qed

section \<open>Accepted registries\<close>

definition verifierOk :: "argon2idHash \<Rightarrow> bool" where
  "verifierOk h = (32768 \<le> ah_memory h \<and> ah_memory h \<le> 262144 \<and> 1 \<le> ah_time h \<and> ah_time h \<le> 10
     \<and> 1 \<le> ah_parallelism h \<and> ah_parallelism h \<le> 4 \<and> 16 \<le> length (ah_salt h) \<and> length (ah_salt h) \<le> 64 \<and> length (ah_hash h) = 32)"

definition userOk :: "argon2idHash \<Rightarrow> string \<Rightarrow> user \<Rightarrow> bool" where
  "userOk fallback subject u = (u_subject u = subject \<and> localSubject subject \<and> verifierOk (u_passwordHash u)
     \<and> sameArgon2idParameters (u_passwordHash u) fallback \<and> 0 < length (u_controllerToken u) \<and> length (u_controllerToken u) \<le> 4096)"

definition loadInv :: "user gomap \<Rightarrow> string gomap \<Rightarrow> argon2idHash option \<Rightarrow> bool" where
  "loadInv users tokens fallback =
     (wf_map users \<and> (fallback = None \<longleftrightarrow> users = []) \<and> (fallback \<noteq> None \<longrightarrow> verifierOk (the fallback))
      \<and> (\<forall>(k, u)\<in>set users. userOk (the fallback) k u \<and> map_of tokens (u_controllerToken u) = Some k))"

lemma loadInv_step:
  assumes inv: "loadInv users tokens fallback"
    and new: "map_of users subject = None" "map_of tokens token = None"
    and u: "u_controllerToken u = token" "u_passwordHash u = hash"
    and ok: "userOk (case fallback of None \<Rightarrow> hash | Some f \<Rightarrow> f) subject u"
  shows "loadInv (AList.update subject u users) (AList.update token subject tokens)
           (case fallback of None \<Rightarrow> Some hash | Some f \<Rightarrow> Some f)"
proof -
  have upd: "AList.update subject u users = users @ [(subject, u)]" using new(1) by (induction users) auto
  show ?thesis
  proof (cases fallback)
    case None
    then show ?thesis using inv ok u by (auto simp: loadInv_def userOk_def)
  next
    case (Some f)
    have "u_controllerToken v \<noteq> token" if "(k, v) \<in> set users" for k v
      using that inv new(2) Some by (fastforce simp: loadInv_def)
    then show ?thesis
      using inv new(1) ok u Some by (auto simp: loadInv_def upd map_of_eq_None_iff)
  qed
qed

lemma loadUsers_inv:
  "loadUsers entries users tokens fallback = Inr (users', fallback') \<Longrightarrow> loadInv users tokens fallback
     \<Longrightarrow> (\<exists>tokens'. loadInv users' tokens' fallback') \<and> length users' = length users + length entries"
proof (induction entries arbitrary: users tokens fallback)
  case (Cons entry entries)
  let ?subject = "TrimSpace (ru_Subject entry)" and ?token = "TrimSpace (ru_ControllerToken entry)"
  from Cons.prems(1) obtain hash where hash: "parseArgon2id (TrimSpace (ru_PasswordHash entry)) = Inr hash"
    and subject: "localSubject ?subject" "map_of users ?subject = None"
    and cost: "case fallback of None \<Rightarrow> True | Some f \<Rightarrow> sameArgon2idParameters hash f"
    and token: "?token \<noteq> []" "length ?token \<le> 4096" "map_of tokens ?token = None"
    by (auto simp: Let_def split: if_splits sum.splits option.splits)
  let ?u = "\<lparr>u_subject = ?subject, u_passwordHash = hash, u_controllerToken = ?token\<rparr>"
  have rest: "loadUsers entries (AList.update ?subject ?u users) (AList.update ?token ?subject tokens)
      (case fallback of None \<Rightarrow> Some hash | Some f \<Rightarrow> Some f) = Inr (users', fallback')"
    using Cons.prems(1) hash subject cost token by (auto simp: Let_def split: if_splits option.splits)
  have "userOk (case fallback of None \<Rightarrow> hash | Some f \<Rightarrow> f) ?subject ?u"
    using subject cost token parseArgon2id_bounds [OF hash]
    by (auto simp: userOk_def verifierOk_def sameArgon2idParameters_def split: option.splits)
  then have "loadInv (AList.update ?subject ?u users) (AList.update ?token ?subject tokens) (case fallback of None \<Rightarrow> Some hash | Some f \<Rightarrow> Some f)"
    by (intro loadInv_step [OF Cons.prems(2)]) (use subject token in simp_all)
  moreover have "length (AList.update ?subject ?u users) = Suc (length users)" using subject(2) by (induction users) auto
  ultimately show ?case using Cons.IH [OF rest] by simp
qed auto

definition authenticatorOk :: "Authenticator \<Rightarrow> bool" where
  "authenticatorOk a = (1 \<le> length (a_users a) \<and> length (a_users a) \<le> 128 \<and> wf_map (a_users a)
     \<and> (\<forall>(k, u)\<in>set (a_users a). userOk (a_fallbackHash a) k u)
     \<and> (\<forall>(k, u)\<in>set (a_users a). \<forall>(k', u')\<in>set (a_users a). u_controllerToken u = u_controllerToken u' \<longrightarrow> k = k')
     \<and> verifierOk (a_fallbackHash a)
     \<and> 5 * Minute \<le> a_sessionTTL a \<and> a_sessionTTL a \<le> 24 * 60 * Minute \<and> Minute \<le> a_loginFlowTTL a \<and> a_loginFlowTTL a \<le> 30 * Minute)"

lemma New_load:
  assumes "New fs config lk rk = Inr (a, st)"
  obtains loaded fallback where "loadRegistry fs config = Inr loaded" "loadUsers (rg_Users loaded) [] [] None = Inr (a_users a, fallback)"
    "a_fallbackHash a = the fallback" "a_sessionTTL a = sessionTTLOf config" "a_loginFlowTTL a = loginFlowTTLOf config"
    "5 * Minute \<le> a_sessionTTL a \<and> a_sessionTTL a \<le> 24 * 60 * Minute \<and> Minute \<le> a_loginFlowTTL a \<and> a_loginFlowTTL a \<le> 30 * Minute"
    "st = initialAuthState" "Inr (a_loginKey a) = lk" "Inr (a_rateKey a) = rk"
  using assms unfolding New_def by (auto split: sum.splits if_splits)

lemma loadRegistry_size: "loadRegistry fs config = Inr loaded \<Longrightarrow> 1 \<le> length (rg_Users loaded) \<and> length (rg_Users loaded) \<le> 128"
  by (auto simp: loadRegistry_def Let_def Suc_le_eq split: if_splits sum.splits option.splits)

lemma New_ok: assumes "New fs config lk rk = Inr (a, st)" shows "authenticatorOk a \<and> st = initialAuthState"
proof -
  from assms obtain loaded fallback where l: "loadRegistry fs config = Inr loaded" "loadUsers (rg_Users loaded) [] [] None = Inr (a_users a, fallback)"
    "a_fallbackHash a = the fallback" "5 * Minute \<le> a_sessionTTL a \<and> a_sessionTTL a \<le> 24 * 60 * Minute \<and> Minute \<le> a_loginFlowTTL a \<and> a_loginFlowTTL a \<le> 30 * Minute"
    "st = initialAuthState" by (rule New_load) blast
  from loadUsers_inv [OF l(2)] obtain tokens where inv: "loadInv (a_users a) tokens fallback" and n: "length (a_users a) = length (rg_Users loaded)"
    by (auto simp: loadInv_def)
  obtain k u where u: "(k, u) \<in> set (a_users a)" using n loadRegistry_size [OF l(1)] by (cases "a_users a") auto
  then have "verifierOk (the fallback)" using inv by (auto simp: loadInv_def)
  moreover have "map_of tokens (u_controllerToken u) = Some k" if "(k, u) \<in> set (a_users a)" for k u
    using inv that by (auto simp: loadInv_def)
  then have "k = k'" if "(k, u) \<in> set (a_users a)" "(k', u') \<in> set (a_users a)" "u_controllerToken u = u_controllerToken u'" for k k' u u'
    using that by (metis option.inject)
  moreover have "\<forall>(k, u)\<in>set (a_users a). userOk (a_fallbackHash a) k u" "wf_map (a_users a)" using inv l(3) by (auto simp: loadInv_def)
  ultimately show ?thesis
    using n l(3-5) loadRegistry_size [OF l(1)] unfolding authenticatorOk_def by auto
qed

text \<open>
  C34: Registries accepted at start. An authenticator is made only from a registry of 1 to 128 users with
  distinct, valid subjects, verifiers within the cost bounds that share one cost profile with the fallback
  verifier, and scoped tokens that no two users share; lifetimes are within their bounds, and it starts
  with no session and empty rate buckets.
\<close>

theorem New_well_formed:
  assumes "New fs config lk rk = Inr (a, st)"
  shows "authenticatorOk a \<and> st = initialAuthState \<and> Inr (a_loginKey a) = lk \<and> Inr (a_rateKey a) = rk"
  using New_ok [OF assms] assms by (blast elim: New_load)

definition demoFiles :: "string \<Rightarrow> UserFiles" where
  "demoFiles v = \<lparr>uf_Lstat = (\<lambda>p. Inr (True, 100)), uf_Open = (\<lambda>p. None), uf_ReadAll = (\<lambda>p n. Inr ''{}''),
     uf_Decode = (\<lambda>s. Inr (\<lparr>rg_Version = 1, rg_Users = [\<lparr>ru_Subject = ''ada'', ru_PasswordHash = v, ru_ControllerToken = ''t1''\<rparr>]\<rparr>, JSONEOF))\<rparr>"

definition demoVerifierText :: string where
  "demoVerifierText = ''$argon2id$v=19$m='' @ Itoa defaultArgonMemory @ '',t='' @ Itoa defaultArgonTime @ '',p='' @ Itoa defaultArgonParallel
     @ ''$'' @ EncodeToString encodeStd (replicate 16 (CHR ''s'')) @ ''$'' @ EncodeToString encodeStd (ah_hash demoVerifier)"

definition demoAuthConfig :: Config where
  "demoAuthConfig = \<lparr>cf_UsersFile = ''/run/secrets/users'', cf_CookieSecure = True, cf_SessionTTL = 0, cf_LoginFlowTTL = 0\<rparr>"

lemma demo_verifier_parses: "parseArgon2id (TrimSpace demoVerifierText) = Inr demoVerifier"
proof -
  have "ah_hash demoVerifier \<noteq> []" by (simp add: demoVerifier_def)
  then have "EncodeToString encodeStd (ah_hash demoVerifier) \<noteq> []" by (simp add: rawStd.encode_empty)
  then have "\<not> isSpace (last demoVerifierText)" unfolding demoVerifierText_def using base64_not_space(1) last_in_set by fastforce
  moreover have "\<not> isSpace (hd demoVerifierText)" by (simp add: demoVerifierText_def isSpace_def)
  ultimately have "TrimSpace demoVerifierText = demoVerifierText" by (intro TrimSpace_id) (auto simp: demoVerifierText_def)
  then show ?thesis
    unfolding demoVerifierText_def using parseArgon2id_print [of "replicate 16 (CHR ''s'')" "ah_hash demoVerifier"]
    by (simp add: demoVerifier_def)
qed

lemma demo_New: "New (demoFiles demoVerifierText) demoAuthConfig (Inr (replicate 32 (CHR ''k''))) (Inr (replicate 32 (CHR ''r'')))
  = Inr (demoAuthenticator, initialAuthState)"
proof -
  have trim: "TrimSpace ''/run/secrets/users'' = ''/run/secrets/users''" "TrimSpace ''ada'' = ''ada''" "TrimSpace ''t1'' = ''t1''" by code_simp+
  have subject: "localSubject ''ada''" by code_simp
  show ?thesis
    by (simp add: New_def loadRegistry_def readBoundedFile_def requireJSONEOF_def demoFiles_def demoAuthConfig_def maxUserRegistryBytes_def trim
        subject demo_verifier_parses sessionTTLOf_def loginFlowTTLOf_def defaultSessionTTL_def defaultLoginFlowTTL_def demoAuthenticator_def Let_def)
qed

theorem New_well_formed_witness:
  "\<exists>a st. New (demoFiles demoVerifierText) demoAuthConfig (Inr (replicate 32 (CHR ''k''))) (Inr (replicate 32 (CHR ''r''))) = Inr (a, st)
     \<and> authenticatorOk a \<and> a_loginKey a = replicate 32 (CHR ''k'')"
  using demo_New New_well_formed [OF demo_New] by (metis sum.inject(2))

end
