(* ===== verification/LocalAuth_Safety.thy ===== *)
theory LocalAuth_Safety
  imports LocalAuth
begin

text \<open>
  Concurrent logins. Every request runs in its own goroutine, and between the critical sections of one
  login those of others may run. A pending login is the point it has reached, the world is the state of the
  authenticator with the multiset of pending logins, and a step is one critical section or one use of the
  channel of password checks. The label of a step is what it did and the clock reading it used; readings
  are arbitrary, so a login may be delayed between reading the clock and entering a section.
\<close>

section \<open>Steps\<close>

datatype LoginPhase =
    Admitting "nat option" string string time
  | Admitted "nat option" string string time
  | Cancelling "nat option" time
  | Checking "nat option" string string time
  | Finishing "nat option" string string time bool
  | Authenticated string time

datatype LoginLabel =
    Silent
  | Cleans time
  | Admits "nat option" time
  | Cancels "nat option" time
  | Finishes "nat option" string string time time bool

type_synonym LoginWorld = "AuthState \<times> LoginPhase multiset"

inductive login_step :: "Crypto \<Rightarrow> Authenticator \<Rightarrow> LoginWorld \<Rightarrow> LoginLabel \<Rightarrow> LoginWorld \<Rightarrow> bool" for c a where
  begins: "verifyLoginChallengeFromRequest c a r csrf t \<Longrightarrow> subject = TrimSpace name
    \<Longrightarrow> login_step c a (st, M) Silent (st, add_mset (Admitting (rateBucketIndex c a st subject) subject password now) M)"
| admits: "admitAttempt i now st = (True, st')
    \<Longrightarrow> login_step c a (st, add_mset (Admitting i subject password now) M) (Admits i now) (st', add_mset (Admitted i subject password now) M)"
| refuses: "admitAttempt i now st = (False, st')
    \<Longrightarrow> login_step c a (st, add_mset (Admitting i subject password now) M) (Cleans now) (st', M)"
| acquires: "acquirePasswordCheck st = Some st'
    \<Longrightarrow> login_step c a (st, add_mset (Admitted i subject password now) M) Silent (st', add_mset (Checking i subject password now) M)"
| busy: "acquirePasswordCheck st = None
    \<Longrightarrow> login_step c a (st, add_mset (Admitted i subject password now) M) Silent (st, add_mset (Cancelling i now) M)"
| cancels: "login_step c a (st, add_mset (Cancelling i now) M) (Cancels i now) (cancelAttempt i now st, M)"
| checks: "login_step c a (st, add_mset (Checking i subject password now) M) Silent
    (releasePasswordCheck st, add_mset (Finishing i subject password now (checkPassword c a subject password)) M)"
| finishes: "login_step c a (st, add_mset (Finishing i subject password now ok) M) (Finishes i subject password now t ok)
    (finishAttempt i t ok st, if ok then add_mset (Authenticated subject now) M else M)"
| noRandom: "login_step c a (st, add_mset (Authenticated subject now) M) Silent (st, M)"
| creates: "createSession a now (the (map_of (a_users a) subject)) sessionID sessionCSRF st = (e, st')
    \<Longrightarrow> login_step c a (st, add_mset (Authenticated subject now) M) (Cleans now) (st', M)"
| logsOut: "Logout a now r csrf st = (res, st') \<Longrightarrow> login_step c a (st, M) (Cleans now) (st', M)"
| resolves: "current now r st = (res, st') \<Longrightarrow> login_step c a (st, M) (Cleans now) (st', M)"

inductive login_run :: "Crypto \<Rightarrow> Authenticator \<Rightarrow> LoginWorld \<Rightarrow> LoginLabel list \<Rightarrow> LoginWorld \<Rightarrow> bool" for c a where
  run_nil: "login_run c a w [] w"
| run_snoc: "login_run c a w ls w' \<Longrightarrow> login_step c a w' l w'' \<Longrightarrow> login_run c a w (ls @ [l]) w''"

section \<open>The handlers as sequences of steps\<close>

lemma login_run_step: "login_step c a w l w' \<Longrightarrow> login_run c a w [l] w'"
  using run_snoc [OF run_nil] by fastforce

lemma login_run_trans: "login_run c a w' ls' w'' \<Longrightarrow> login_run c a w ls w' \<Longrightarrow> login_run c a w (ls @ ls') w''"
proof (induction rule: login_run.induct)
  case (run_snoc w ls' w' l w'')
  then show ?case using login_run.run_snoc [of c a _ "ls @ ls'"] by simp
qed simp

lemma login_run_two: "login_step c a w l w' \<Longrightarrow> login_run c a w' ls w'' \<Longrightarrow> login_run c a w (l # ls) w''"
  using login_run_trans [OF _ login_run_step] by fastforce

text \<open>The part of a login after its password check.\<close>

definition afterCheck :: "Authenticator \<Rightarrow> LoginInputs \<Rightarrow> string \<Rightarrow> AuthState \<Rightarrow> (Cookie list) result \<times> AuthState" where
  "afterCheck a inp subject st =
     (case randomToken (li_sessionID inp) of
        Inl e \<Rightarrow> (Inl e, st)
      | Inr sessionID \<Rightarrow>
          (case randomToken (li_sessionCSRF inp) of
             Inl e \<Rightarrow> (Inl e, st)
           | Inr sessionCSRF \<Rightarrow>
               (case createSession a (li_now inp) (the (map_of (a_users a) subject)) sessionID sessionCSRF st of
                  (Some e, st) \<Rightarrow> (Inl e, st)
                | (None, st) \<Rightarrow> (Inr [clearCookie a loginCookieName, setCookie a sessionCookieName sessionID (a_sessionTTL a div Second)], st))))"

lemma afterCheck_run:
  assumes "afterCheck a inp subject st = (res, st')"
  shows "\<exists>ls. login_run c a (st, add_mset (Authenticated subject (li_now inp)) M) ls (st', M)"
proof (cases "st' = st")
  case True
  then show ?thesis using login_run_step [OF login_step.noRandom] by blast
next
  case False
  with assms obtain sid tok e where "createSession a (li_now inp) (the (map_of (a_users a) subject)) sid tok st = (e, st')"
    by (auto simp: afterCheck_def split: sum.splits prod.splits option.splits)
  then show ?thesis using login_run_step [OF login_step.creates] by blast
qed

lemma Login_run:
  assumes "Login c a inp r subject password csrf st = (res, st')"
  shows "\<exists>ls. login_run c a (st, M) ls (st', M)"
proof (cases "verifyLoginChallengeFromRequest c a r csrf (li_challengeTime inp)")
  case False
  then have "st' = st" using assms by (simp add: Login_def)
  then show ?thesis using run_nil by blast
next
  case True
  let ?s = "TrimSpace subject" and ?now = "li_now inp"
  let ?i = "rateBucketIndex c a st ?s" and ?ok = "checkPassword c a (TrimSpace subject) password"
  note begin_step = login_step.begins [OF True refl, of st M subject password ?now]
  obtain admitted st1 where admit: "admitAttempt ?i ?now st = (admitted, st1)" by fastforce
  show ?thesis
  proof (cases admitted)
    case False
    then have "st' = st1" using assms True admit by (simp add: Login_def Let_def)
    moreover have "admitAttempt ?i ?now st = (False, st1)" using admit False by simp
    ultimately show ?thesis using login_run_two [OF begin_step login_run_step [OF login_step.refuses]] by blast
  next
    case adm: True
    then have "admitAttempt ?i ?now st = (True, st1)" using admit by simp
    note admit_step = login_step.admits [OF this, of c a ?s password M]
    show ?thesis
    proof (cases "acquirePasswordCheck st1")
      case None
      then have "st' = cancelAttempt ?i ?now st1" using assms True admit adm by (simp add: Login_def Let_def)
      then show ?thesis
        using login_run_two [OF begin_step login_run_two [OF admit_step login_run_two [OF login_step.busy [OF None] login_run_step [OF login_step.cancels]]]] by blast
    next
      case (Some st2)
      let ?st3 = "finishAttempt ?i (li_finishTime inp) ?ok (releasePasswordCheck st2)"
      note to_finish = login_run_two [OF begin_step login_run_two [OF admit_step login_run_two [OF login_step.acquires [OF Some]
            login_run_two [OF login_step.checks login_run_step [OF login_step.finishes [where t = "li_finishTime inp"]]]]]]
      show ?thesis
      proof (cases ?ok)
        case False
        then have "st' = ?st3" using assms True admit adm Some by (simp add: Login_def Let_def)
        then show ?thesis using to_finish False by auto
      next
        case ok: True
        then have "afterCheck a inp ?s ?st3 = (res, st')" using assms True admit adm Some by (simp add: Login_def afterCheck_def Let_def)
        then obtain ls where "login_run c a (?st3, add_mset (Authenticated ?s ?now) M) ls (st', M)" using afterCheck_run by blast
        then show ?thesis using to_finish ok login_run_trans by fastforce
      qed
    qed
  qed
qed

section \<open>Invariant\<close>

definition bucketOk :: "rateBucket \<Rightarrow> bool" where
  "bucketOk b = (rb_failures b + rb_inFlight b \<le> lockoutAfterFailures \<and> rb_failures b < lockoutAfterFailures
     \<and> (rb_until b \<noteq> None \<longrightarrow> rb_failures b = 0 \<and> rb_inFlight b = 0))"

fun inFlightOn :: "nat \<Rightarrow> LoginPhase \<Rightarrow> bool" where
  "inFlightOn k (Admitted i subject password now) = (i = Some k)"
| "inFlightOn k (Cancelling i now) = (i = Some k)"
| "inFlightOn k (Checking i subject password now) = (i = Some k)"
| "inFlightOn k (Finishing i subject password now ok) = (i = Some k)"
| "inFlightOn k p = False"

fun checkingPhase :: "LoginPhase \<Rightarrow> bool" where
  "checkingPhase (Checking i subject password now) = True"
| "checkingPhase p = False"

definition pendingOn :: "nat \<Rightarrow> LoginPhase multiset \<Rightarrow> nat" where
  "pendingOn k M = size (filter_mset (inFlightOn k) M)"

definition login_inv :: "LoginWorld \<Rightarrow> bool" where
  "login_inv w = (case w of (st, M) \<Rightarrow>
     length (a_rateBuckets st) = rateBucketCount
     \<and> (\<forall>k<rateBucketCount. bucketOk (a_rateBuckets st ! k) \<and> rb_inFlight (a_rateBuckets st ! k) = pendingOn k M)
     \<and> a_passwordChecks st = size (filter_mset checkingPhase M) \<and> a_passwordChecks st \<le> maxPasswordChecks
     \<and> wf_map (a_sessions st) \<and> length (a_sessions st) \<le> maxSessions)"

lemma pendingOn_add [simp]: "pendingOn k (add_mset p M) = (if inFlightOn k p then Suc (pendingOn k M) else pendingOn k M)"
  by (simp add: pendingOn_def)

lemma bucketOk_zero [simp]: "bucketOk zeroBucket" "rb_inFlight zeroBucket = 0"
  by (simp_all add: bucketOk_def zeroBucket_def lockoutAfterFailures_def)

lemma cleanBucket_ok: "bucketOk b \<Longrightarrow> bucketOk (cleanBucket now b)"
  by (auto simp: cleanBucket_def)

lemma cleanBucket_inFlight [simp]: "rb_inFlight (cleanBucket now b) = rb_inFlight b"
  by (auto simp: cleanBucket_def)

lemma cleanup_inv: "login_inv (st, M) \<Longrightarrow> login_inv (cleanupLocked now st, M)"
  by (auto simp: login_inv_def cleanupLocked_def cleanBucket_ok intro: le_trans [OF length_filter_le])

text \<open>After the clean-up of an admission the bucket is not locked unless the attempt is refused.\<close>

lemma admitBucket_ok:
  assumes "bucketOk b" "admitBucket now (cleanBucket now b) = Some b'"
  shows "bucketOk b' \<and> rb_inFlight b' = Suc (rb_inFlight b) \<and> rb_until b' = None \<and> rb_failures b' \<le> rb_failures b"
  using assms
  by (auto simp: bucketOk_def admitBucket_def cleanBucket_def beforeTime_def zeroBucket_def lockoutAfterFailures_def split: if_splits option.splits)

lemma cancelBucket_ok: "bucketOk b \<Longrightarrow> bucketOk (cancelBucket now b) \<and> rb_inFlight (cancelBucket now b) = rb_inFlight b - 1"
  by (auto simp: bucketOk_def cancelBucket_def)

lemma finishBucket_ok: "bucketOk b \<Longrightarrow> bucketOk (finishBucket now ok b) \<and> rb_inFlight (finishBucket now ok b) = rb_inFlight b - 1"
  by (auto simp: bucketOk_def finishBucket_def lockoutAfterFailures_def Let_def)

lemma admitAttempt_cases:
  assumes "admitAttempt i now st = (True, st')"
  obtains k b where "i = Some k" "k < length (a_rateBuckets st)" "admitBucket now (cleanBucket now (a_rateBuckets st ! k)) = Some b"
    "st' = (cleanupLocked now st)\<lparr>a_rateBuckets := (a_rateBuckets (cleanupLocked now st))[k := b]\<rparr>"
  using assms by (auto simp: admitAttempt_def cleanupLocked_def Let_def split: option.splits if_splits)

lemma admitAttempt_refused: "admitAttempt i now st = (False, st') \<Longrightarrow> st' = cleanupLocked now st"
  by (auto simp: admitAttempt_def Let_def split: option.splits if_splits)

lemma onBucket_inv:
  assumes inv: "login_inv (st, add_mset p M)" and p: "\<And>k. inFlightOn k p \<longleftrightarrow> i = Some k" "\<not> checkingPhase p"
    and f: "\<And>b. bucketOk b \<Longrightarrow> bucketOk (f b) \<and> rb_inFlight (f b) = rb_inFlight b - 1"
  shows "login_inv (onBucket f i st, M)"
proof -
  have "bucketOk (a_rateBuckets (onBucket f i st) ! k) \<and> rb_inFlight (a_rateBuckets (onBucket f i st) ! k) = pendingOn k M"
    if "k < rateBucketCount" for k
    using inv that f [of "a_rateBuckets st ! k"] p(1) [of k]
    by (cases i) (auto simp: login_inv_def onBucket_def nth_list_update)
  then show ?thesis
    using inv p(2) by (auto simp: login_inv_def onBucket_def split: option.splits)
qed

lemma swap_phase_inv:
  assumes "login_inv (st, add_mset p M)" "\<And>k. inFlightOn k p = inFlightOn k q" "checkingPhase p = checkingPhase q"
  shows "login_inv (st, add_mset q M)"
  using assms by (simp add: login_inv_def)

lemma drop_phase_inv:
  assumes "login_inv (st, add_mset p M)" "\<And>k. \<not> inFlightOn k p" "\<not> checkingPhase p"
  shows "login_inv (st, M)"
  using assms by (simp add: login_inv_def)

lemma sessions_inv:
  assumes "login_inv (st, M)" "wf_map ss" "length ss \<le> maxSessions"
  shows "login_inv (st\<lparr>a_sessions := ss\<rparr>, M)"
  using assms by (simp add: login_inv_def)

lemma login_inv_initial: "login_inv (initialAuthState, {#})"
  by (simp add: login_inv_def initialAuthState_def pendingOn_def)

lemma length_update_le: "length (AList.update k v xs) \<le> Suc (length xs)"
  by (induction xs) auto

lemma length_delete_le: "length (AList.delete k xs) \<le> length xs"
  by (simp add: AList.delete_eq)

lemma admits_inv:
  assumes "login_inv (st, add_mset (Admitting i subject password now) M)" "admitAttempt i now st = (True, st')"
  shows "login_inv (st', add_mset (Admitted i subject password now) M)"
proof -
  from assms(2) obtain k b where i: "i = Some k" "k < length (a_rateBuckets st)" "admitBucket now (cleanBucket now (a_rateBuckets st ! k)) = Some b"
    and st': "st' = (cleanupLocked now st)\<lparr>a_rateBuckets := (a_rateBuckets (cleanupLocked now st))[k := b]\<rparr>"
    by (rule admitAttempt_cases)
  have inv: "login_inv (cleanupLocked now st, M)" by (rule drop_phase_inv [OF cleanup_inv [OF assms(1)]]) simp_all
  have "bucketOk b \<and> rb_inFlight b = Suc (pendingOn k M)"
    using assms(1) i admitBucket_ok [OF _ i(3)] by (simp add: login_inv_def)
  then show ?thesis
    using inv i(1,2) by (auto simp: st' login_inv_def nth_list_update)
qed

lemma login_step_inv: "login_step c a w l w' \<Longrightarrow> login_inv w \<Longrightarrow> login_inv w'"
proof (induction rule: login_step.induct)
  case (begins r csrf t subject name st M password now)
  then show ?case by (simp add: login_inv_def)
next
  case (admits i now st st' subject password M)
  then show ?case by (rule admits_inv [rotated])
next
  case (refuses i now st st' subject password M)
  have "login_inv (cleanupLocked now st, M)" by (rule drop_phase_inv [OF cleanup_inv [OF refuses.prems]]) simp_all
  then show ?case by (simp add: admitAttempt_refused [OF refuses.hyps])
next
  case (acquires st st' i subject password now M)
  then show ?case by (auto simp: login_inv_def acquirePasswordCheck_def split: if_splits)
next
  case (busy st i subject password now M)
  show ?case by (rule swap_phase_inv [OF busy.prems]) simp_all
next
  case (cancels st i now M)
  then show ?case unfolding cancelAttempt_def by (rule onBucket_inv) (auto simp: cancelBucket_ok)
next
  case (checks st i subject password now M)
  then show ?case by (auto simp: login_inv_def releasePasswordCheck_def)
next
  case (finishes st i subject password now ok M t)
  then have "login_inv (finishAttempt i t ok st, M)" unfolding finishAttempt_def by (rule onBucket_inv) (auto simp: finishBucket_ok)
  then show ?case by (simp add: login_inv_def)
next
  case (noRandom st subject now M)
  show ?case by (rule drop_phase_inv [OF noRandom.prems]) simp_all
next
  case (creates now subject sessionID sessionCSRF st e st' M)
  have "login_inv (cleanupLocked now st, M)" by (rule drop_phase_inv [OF cleanup_inv [OF creates.prems]]) simp_all
  then show ?case
    using creates.hyps by (auto simp: createSession_def Let_def not_le Suc_le_eq split: if_splits intro!: sessions_inv le_trans [OF length_update_le]) (auto simp: login_inv_def)
next
  case (logsOut now r csrf st res st' M)
  then show ?case
    using cleanup_inv [OF logsOut.prems]
    by (auto simp: Logout_def Let_def split: sum.splits option.splits if_splits intro!: sessions_inv) (auto simp: login_inv_def intro: le_trans [OF length_delete_le])
next
  case (resolves now r st res st' M)
  then show ?case using cleanup_inv [OF resolves.prems] by (auto simp: current_def Let_def split: sum.splits)
qed

lemma login_run_inv: "login_run c a w ls w' \<Longrightarrow> login_inv w \<Longrightarrow> login_inv w'"
  by (induction rule: login_run.induct) (auto intro: login_step_inv)

text \<open>
  Concurrent logins. However logins, logouts and session lookups interleave, there are never more
  than 1024 sessions and never more than one password check at a time, and in each rate bucket the attempts
  under way are exactly those counted, at most five together with the failures, and none while it is locked.
\<close>

theorem concurrent_logins_bounded:
  assumes "New fs config lk rk = Inr (a, st0)" "login_run c a (st0, {#}) ls (st, M)"
  shows "length (a_sessions st) \<le> 1024 \<and> size (filter_mset checkingPhase M) \<le> 1
    \<and> length (a_rateBuckets st) = 1024
    \<and> (\<forall>b. b < 1024 \<longrightarrow> rb_inFlight (a_rateBuckets st ! b) = pendingOn b M
          \<and> rb_failures (a_rateBuckets st ! b) + pendingOn b M \<le> 5
          \<and> (rb_until (a_rateBuckets st ! b) \<noteq> None \<longrightarrow> pendingOn b M = 0))"
proof -
  have "login_inv (st0, {#})" using New_ok [OF assms(1)] login_inv_initial by simp
  from login_run_inv [OF assms(2) this] show ?thesis
    by (auto simp: login_inv_def bucketOk_def localauth_consts)
qed

section \<open>Guesses\<close>

fun failedOn :: "nat \<Rightarrow> LoginLabel \<Rightarrow> bool" where
  "failedOn k (Finishes i subject password now t ok) = (i = Some k \<and> \<not> ok)"
| "failedOn k l = False"

fun succeededOn :: "nat \<Rightarrow> LoginLabel \<Rightarrow> bool" where
  "succeededOn k (Finishes i subject password now t ok) = (i = Some k \<and> ok)"
| "succeededOn k l = False"

text \<open>The clock readings of a step are in the lockout period that starts at \<open>s\<close>.\<close>

definition inWindow :: "time \<Rightarrow> time \<Rightarrow> bool" where
  "inWindow s t = (s \<le> t \<and> t < s + lockoutDuration)"

fun labelWithin :: "time \<Rightarrow> LoginLabel \<Rightarrow> bool" where
  "labelWithin s Silent = True"
| "labelWithin s (Cleans t) = inWindow s t"
| "labelWithin s (Admits i t) = inWindow s t"
| "labelWithin s (Cancels i t) = inWindow s t"
| "labelWithin s (Finishes i subject password now t ok) = inWindow s t"

definition guessed :: "nat \<Rightarrow> LoginLabel list \<Rightarrow> nat" where
  "guessed k ls = length (filter (failedOn k) ls)"

text \<open>
  What \<open>n\<close> failures since \<open>s\<close> leave in a bucket: they are counted in it and it was updated since, or it
  is locked past the end of the period.
\<close>

definition accounts :: "time \<Rightarrow> nat \<Rightarrow> rateBucket \<Rightarrow> bool" where
  "accounts s n b = (n = 0 \<or> (n \<le> rb_failures b \<and> (\<exists>u. rb_updated b = Some u \<and> s \<le> u))
     \<or> (n \<le> lockoutAfterFailures \<and> (\<exists>u. rb_until b = Some u \<and> s + lockoutDuration \<le> u)))"

lemma accounts_clean: "bucketOk b \<Longrightarrow> inWindow s now \<Longrightarrow> accounts s n b \<Longrightarrow> accounts s n (cleanBucket now b)"
  by (auto simp: accounts_def inWindow_def cleanBucket_def beforeTime_def bucketOk_def split: option.splits)

lemma accounts_admit: "inWindow s now \<Longrightarrow> accounts s n b \<Longrightarrow> admitBucket now b = Some b' \<Longrightarrow> accounts s n b'"
  by (auto simp: accounts_def inWindow_def admitBucket_def beforeTime_def split: if_splits)

lemma accounts_cancel: "bucketOk b \<Longrightarrow> inWindow s now \<Longrightarrow> accounts s n b \<Longrightarrow> accounts s n (cancelBucket now b)"
  by (auto simp: accounts_def inWindow_def cancelBucket_def bucketOk_def)

lemma accounts_finish:
  "bucketOk b \<Longrightarrow> inWindow s now \<Longrightarrow> 0 < rb_inFlight b \<Longrightarrow> accounts s n b \<Longrightarrow> accounts s (Suc n) (finishBucket now False b)"
  by (auto simp: accounts_def inWindow_def finishBucket_def bucketOk_def Let_def lockoutAfterFailures_def)

lemma accounts_le: "bucketOk b \<Longrightarrow> accounts s n b \<Longrightarrow> n \<le> lockoutAfterFailures"
  by (auto simp: accounts_def bucketOk_def)

lemma accounts_cleanup:
  "login_inv (st, M) \<Longrightarrow> k < rateBucketCount \<Longrightarrow> inWindow s now \<Longrightarrow> accounts s n (a_rateBuckets st ! k)
     \<Longrightarrow> accounts s n (a_rateBuckets (cleanupLocked now st) ! k)"
  by (auto simp: login_inv_def cleanupLocked_def intro: accounts_clean)

lemma login_step_accounts:
  assumes "login_step c a w l w'" "login_inv w" "k < rateBucketCount" "labelWithin s l" "\<not> succeededOn k l"
    and "accounts s n (a_rateBuckets (fst w) ! k)"
  shows "accounts s (if failedOn k l then Suc n else n) (a_rateBuckets (fst w') ! k)"
  using assms
proof (induction rule: login_step.induct)
  case (admits i now st st' subject password M)
  from admits.hyps obtain j b where j: "i = Some j" "j < length (a_rateBuckets st)" "admitBucket now (cleanBucket now (a_rateBuckets st ! j)) = Some b"
    and st': "st' = (cleanupLocked now st)\<lparr>a_rateBuckets := (a_rateBuckets (cleanupLocked now st))[j := b]\<rparr>"
    by (rule admitAttempt_cases)
  have clean: "accounts s n (cleanBucket now (a_rateBuckets st ! k))"
    using admits.prems by (intro accounts_clean) (auto simp: login_inv_def)
  with j admits.prems accounts_admit [of s now n _ b] show ?case
    by (auto simp: st' cleanupLocked_def nth_list_update login_inv_def)
next
  case (refuses i now st st' subject password M)
  then show ?case by (auto simp: admitAttempt_refused [OF refuses.hyps] intro: accounts_cleanup)
next
  case (cancels st i now M)
  then have "accounts s n (cancelBucket now (a_rateBuckets st ! k))" by (intro accounts_cancel) (auto simp: login_inv_def)
  with cancels.prems show ?case by (auto simp: cancelAttempt_def onBucket_def nth_list_update split: option.splits)
next
  case (finishes st i subject password now ok M t)
  show ?case
  proof (cases "i = Some k")
    case True
    then have "0 < rb_inFlight (a_rateBuckets st ! k)" "bucketOk (a_rateBuckets st ! k)" "k < length (a_rateBuckets st)"
      using finishes.prems by (auto simp: login_inv_def)
    then show ?thesis
      using True finishes.prems accounts_finish [of "a_rateBuckets st ! k" s t n] by (simp add: finishAttempt_def onBucket_def)
  next
    case False
    then show ?thesis using finishes.prems by (auto simp: finishAttempt_def onBucket_def nth_list_update split: option.splits)
  qed
next
  case (creates now subject sessionID sessionCSRF st e st' M)
  then have "accounts s n (a_rateBuckets (cleanupLocked now st) ! k)" by (auto intro: accounts_cleanup)
  with creates.hyps show ?case by (auto simp: createSession_def Let_def split: if_splits)
next
  case (logsOut now r csrf st res st' M)
  then have "accounts s n (a_rateBuckets (cleanupLocked now st) ! k)" by (auto intro: accounts_cleanup)
  with logsOut show ?case by (auto simp: Logout_def Let_def split: sum.splits option.splits if_splits)
next
  case (resolves now r st res st' M)
  then have "accounts s n (a_rateBuckets (cleanupLocked now st) ! k)" by (auto intro: accounts_cleanup)
  with resolves show ?case by (auto simp: current_def Let_def split: sum.splits)
qed (auto simp: acquirePasswordCheck_def releasePasswordCheck_def split: if_splits)

lemma login_run_accounts:
  "login_run c a w ls w' \<Longrightarrow> login_inv w \<Longrightarrow> k < rateBucketCount \<Longrightarrow> list_all (labelWithin s) ls \<Longrightarrow> list_all (\<lambda>l. \<not> succeededOn k l) ls
     \<Longrightarrow> accounts s (guessed k ls) (a_rateBuckets (fst w') ! k)"
proof (induction rule: login_run.induct)
  case (run_snoc w ls w' l w'')
  then have "accounts s (guessed k ls) (a_rateBuckets (fst w') ! k)" by simp
  with run_snoc.hyps(2) login_run_inv [OF run_snoc.hyps(1)] run_snoc.prems
    login_step_accounts [of c a w' l w'' k s "guessed k ls"]
  have "accounts s (if failedOn k l then Suc (guessed k ls) else guessed k ls) (a_rateBuckets (fst w'') ! k)" by simp
  moreover have "guessed k (ls @ [l]) = (if failedOn k l then Suc (guessed k ls) else guessed k ls)" by (simp add: guessed_def)
  ultimately show ?case by simp
qed (simp add: guessed_def accounts_def)

text \<open>
  C17: Guessing is bounded. In any period of 15 minutes, whatever came before it and however requests
  interleave, at most five password checks fail in a rate bucket unless one in that bucket succeeds.
\<close>

theorem guesses_bounded:
  assumes "New fs config lk rk = Inr (a, st0)" "login_run c a (st0, {#}) before w" "login_run c a w ls w'"
    and "list_all (labelWithin s) ls" "list_all (\<lambda>l. \<not> succeededOn k l) ls" "k < 1024"
  shows "guessed k ls \<le> 5"
proof -
  have "login_inv (st0, {#})" using New_ok [OF assms(1)] login_inv_initial by simp
  then have inv: "login_inv w" by (rule login_run_inv [OF assms(2)])
  have k: "k < rateBucketCount" using assms(6) by (simp add: rateBucketCount_def)
  have "accounts s (guessed k ls) (a_rateBuckets (fst w') ! k)" by (rule login_run_accounts [OF assms(3) inv k assms(4,5)])
  moreover have "bucketOk (a_rateBuckets (fst w') ! k)" using login_run_inv [OF assms(3) inv] k by (auto simp: login_inv_def)
  ultimately show ?thesis using accounts_le by (force simp: lockoutAfterFailures_def)
qed

section \<open>Sessions\<close>

text \<open>A login of the subject, begun at the clock reading \<open>issued\<close>, passed its password check.\<close>

definition proven :: "Crypto \<Rightarrow> Authenticator \<Rightarrow> LoginLabel list \<Rightarrow> string \<Rightarrow> time \<Rightarrow> bool" where
  "proven c a ls subject issued = (\<exists>i password t. Finishes i subject password issued t True \<in> set ls \<and> checkPassword c a subject password)"

fun phaseOk :: "Crypto \<Rightarrow> Authenticator \<Rightarrow> LoginLabel list \<Rightarrow> LoginPhase \<Rightarrow> bool" where
  "phaseOk c a ls (Finishing i subject password now ok) = (ok = checkPassword c a subject password)"
| "phaseOk c a ls (Authenticated subject now) = proven c a ls subject now"
| "phaseOk c a ls p = True"

definition sessionOk :: "Crypto \<Rightarrow> Authenticator \<Rightarrow> LoginLabel list \<Rightarrow> session \<Rightarrow> bool" where
  "sessionOk c a ls s = (\<exists>issued u. proven c a ls (s_subject s) issued \<and> s_expiresAt s = issued + a_sessionTTL a
     \<and> map_of (a_users a) (s_subject s) = Some u \<and> s_controllerToken s = u_controllerToken u)"

definition session_inv :: "Crypto \<Rightarrow> Authenticator \<Rightarrow> LoginLabel list \<Rightarrow> LoginWorld \<Rightarrow> bool" where
  "session_inv c a ls w = (case w of (st, M) \<Rightarrow> (\<forall>p\<in>#M. phaseOk c a ls p) \<and> (\<forall>(i, s)\<in>set (a_sessions st). sessionOk c a ls s))"

lemma proven_more: "proven c a ls subject issued \<Longrightarrow> proven c a (ls @ [l]) subject issued"
  by (auto simp: proven_def)

lemma phaseOk_more: "phaseOk c a ls p \<Longrightarrow> phaseOk c a (ls @ [l]) p"
  by (cases p) (auto intro: proven_more)

lemma session_inv_more: "session_inv c a ls w \<Longrightarrow> session_inv c a (ls @ [l]) w"
  by (fastforce simp: session_inv_def sessionOk_def intro: phaseOk_more proven_more)

lemma session_inv_sessions:
  "session_inv c a ls (st, M) \<Longrightarrow> set (a_sessions st') \<subseteq> set (a_sessions st) \<Longrightarrow> N \<subseteq># M \<Longrightarrow> session_inv c a ls (st', N)"
  by (auto simp: session_inv_def dest: mset_subset_eqD)

lemma sessions_kept [simp]:
  "a_sessions (cancelAttempt i now st) = a_sessions st" "a_sessions (finishAttempt i now ok st) = a_sessions st"
  "a_sessions (releasePasswordCheck st) = a_sessions st"
  by (auto simp: cancelAttempt_def finishAttempt_def onBucket_def releasePasswordCheck_def split: option.splits)

lemma cleanup_sessions: "set (a_sessions (cleanupLocked now st)) \<subseteq> set (a_sessions st)"
  by (auto simp: cleanupLocked_def)

lemma admit_sessions: "admitAttempt i now st = (x, st') \<Longrightarrow> set (a_sessions st') \<subseteq> set (a_sessions st)"
  by (auto simp: admitAttempt_def cleanupLocked_def Let_def split: option.splits if_splits)

lemma proven_user: "proven c a ls subject issued \<Longrightarrow> map_of (a_users a) subject \<noteq> None"
  by (auto simp: proven_def checkPassword_def Let_def)

lemma in_set_update: "(i, s) \<in> set (AList.update k v m) \<Longrightarrow> (i = k \<and> s = v) \<or> (i, s) \<in> set m"
  by (induction m) (auto split: if_splits)

lemma createSession_inv:
  assumes inv: "session_inv c a ls (st, add_mset (Authenticated subject now) M)"
    and ok: "authenticatorOk a" and create: "createSession a now (the (map_of (a_users a) subject)) sessionID sessionCSRF st = (e, st')"
  shows "session_inv c a ls (st', M)"
proof -
  have p: "proven c a ls subject now" using inv by (simp add: session_inv_def)
  then obtain u where u: "map_of (a_users a) subject = Some u" using proven_user by blast
  then have "u_subject u = subject" using ok by (auto simp: authenticatorOk_def userOk_def dest!: map_of_SomeD)
  then have "sessionOk c a ls \<lparr>s_subject = u_subject u, s_controllerToken = u_controllerToken u, s_csrf = sessionCSRF, s_expiresAt = now + a_sessionTTL a\<rparr>"
    using p u by (auto simp: sessionOk_def)
  moreover have "\<forall>(i, s)\<in>set (a_sessions (cleanupLocked now st)). sessionOk c a ls s"
    using inv cleanup_sessions by (fastforce simp: session_inv_def)
  moreover have "\<forall>p\<in>#M. phaseOk c a ls p" using inv by (simp add: session_inv_def)
  ultimately show ?thesis
    using create u by (auto simp: createSession_def Let_def session_inv_def split: if_splits dest!: in_set_update)
qed

lemma session_inv_phase:
  "session_inv c a ls (st, M) \<Longrightarrow> a_sessions st' = a_sessions st \<Longrightarrow> phaseOk c a ls q \<Longrightarrow> session_inv c a (ls @ [l]) (st', add_mset q M)"
  using session_inv_more [of c a ls "(st, add_mset q M)"] by (simp add: session_inv_def)

lemma session_inv_drop:
  "session_inv c a ls (st, add_mset p M) \<Longrightarrow> a_sessions st' = a_sessions st \<Longrightarrow> session_inv c a (ls @ [l]) (st', M)"
  using session_inv_more [of c a ls "(st, M)"] by (simp add: session_inv_def)

lemma session_inv_step:
  "session_inv c a ls (st, add_mset p M) \<Longrightarrow> a_sessions st' = a_sessions st \<Longrightarrow> phaseOk c a ls q \<Longrightarrow> session_inv c a (ls @ [l]) (st', add_mset q M)"
  by (rule session_inv_phase [where st = st]) (auto simp: session_inv_def)

lemma acquire_sessions: "acquirePasswordCheck st = Some st' \<Longrightarrow> a_sessions st' = a_sessions st"
  by (auto simp: acquirePasswordCheck_def split: if_splits)

lemma login_step_sessions:
  "login_step c a w l w' \<Longrightarrow> authenticatorOk a \<Longrightarrow> session_inv c a ls w \<Longrightarrow> session_inv c a (ls @ [l]) w'"
proof (induction rule: login_step.induct)
  case (creates now subject sessionID sessionCSRF st e st' M)
  then show ?case by (blast intro: createSession_inv session_inv_more)
next
  case (finishes st i subject password now ok M t)
  have "proven c a (ls @ [Finishes i subject password now t ok]) subject now" if ok
    using finishes.prems that by (force simp: session_inv_def proven_def)
  with session_inv_more [OF finishes.prems(2)] show ?case by (auto simp: session_inv_def)
next
  case (admits i now st st' subject password M)
  then show ?case using admit_sessions session_inv_more by (fastforce simp: session_inv_def)
next
  case (refuses i now st st' subject password M)
  then show ?case using admit_sessions session_inv_more by (fastforce simp: session_inv_def)
next
  case (logsOut now r csrf st res st' M)
  have "set (a_sessions st') \<subseteq> set (a_sessions st)"
    using logsOut.hyps cleanup_sessions [of now st] by (auto simp: Logout_def Let_def AList.delete_eq split: sum.splits option.splits if_splits)
  then show ?case by (rule session_inv_sessions [OF session_inv_more [OF logsOut.prems(2)]]) simp
next
  case (resolves now r st res st' M)
  have "set (a_sessions st') \<subseteq> set (a_sessions st)"
    using resolves.hyps cleanup_sessions by (auto simp: current_def Let_def split: sum.splits)
  then show ?case by (rule session_inv_sessions [OF session_inv_more [OF resolves.prems(2)]]) simp
qed (auto simp: acquire_sessions intro: session_inv_phase session_inv_step session_inv_drop)

lemma login_run_sessions:
  "login_run c a w ls w' \<Longrightarrow> authenticatorOk a \<Longrightarrow> session_inv c a [] w \<Longrightarrow> session_inv c a ls w'"
  by (induction rule: login_run.induct) (auto intro: login_step_sessions)

text \<open>
  C16: Sessions are earned. A request is given a presentation session, with a user's controller token, only
  if its cookie names one that was created for a login whose password passed the check against that user's
  verifier, and only before the session's lifetime, counted from the start of that login, is over.
\<close>

theorem session_requires_password:
  assumes "New fs config lk rk = Inr (a, st0)" "login_run c a (st0, {#}) ls (st, M)"
    and "ResolvePresentationSession now r st = (Inr (sessionID, subject, token), st')"
  shows "\<exists>i password issued t u. Finishes i subject password issued t True \<in> set ls \<and> map_of (a_users a) subject = Some u
    \<and> token = u_controllerToken u \<and> verify c (u_passwordHash u) password \<and> 1 \<le> length password \<and> length password \<le> 1024
    \<and> now < issued + a_sessionTTL a \<and> map_of r sessionCookieName = Some sessionID"
proof -
  have new: "authenticatorOk a" "st0 = initialAuthState" using New_ok [OF assms(1)] by auto
  then have "session_inv c a [] (st0, {#})" by (simp add: session_inv_def initialAuthState_def)
  then have inv: "session_inv c a ls (st, M)" by (rule login_run_sessions [OF assms(2) new(1)])
  from assms(3) obtain s where cookie: "map_of r sessionCookieName = Some sessionID"
    and found: "map_of (a_sessions (cleanupLocked now st)) sessionID = Some s" and s: "s_subject s = subject" "s_controllerToken s = token"
    by (auto simp: ResolvePresentationSession_def current_def cookieValue_def Let_def split: prod.splits sum.splits option.splits if_splits)
  then have "(sessionID, s) \<in> set (a_sessions st)" "now < s_expiresAt s" by (auto simp: cleanupLocked_def dest!: map_of_SomeD)
  with inv s obtain issued u where p: "proven c a ls subject issued" and u: "s_expiresAt s = issued + a_sessionTTL a"
    "map_of (a_users a) subject = Some u" "token = u_controllerToken u"
    by (auto simp: session_inv_def sessionOk_def)
  from p obtain i password t where "Finishes i subject password issued t True \<in> set ls" "checkPassword c a subject password"
    by (auto simp: proven_def)
  moreover from this(2) u have "verify c (u_passwordHash u) password \<and> 1 \<le> length password \<and> length password \<le> 1024"
    by (auto simp: checkPassword_def candidateHash_def Let_def maxPasswordBytes_def Suc_le_eq split: if_splits)
  ultimately show ?thesis using u cookie \<open>now < s_expiresAt s\<close> by metis
qed

text \<open>After a logout the session of the request is gone.\<close>

lemma Logout_ends_session:
  assumes "Logout a now r csrf st = (Inr cs, st')" "wf_map (a_sessions st)"
  shows "ResolvePresentationSession t r st' = (Inl ErrUnauthenticatedSession, cleanupLocked t st')"
proof -
  obtain sid where sid: "cookieValue r sessionCookieName = Inr sid" "map_of (a_sessions st') sid = None"
    using assms by (auto simp: Logout_def Let_def split: sum.splits option.splits if_splits)
  then have "map_of (a_sessions (cleanupLocked t st')) sid = None" by (auto simp: cleanupLocked_def map_of_eq_None_iff)
  then show ?thesis using sid by (simp add: ResolvePresentationSession_def current_def Let_def)
qed

section \<open>A run\<close>

definition demoRequest :: "string \<times> Request" where
  "demoRequest = (let csrf = EncodeToString encodeURL (replicate 32 (CHR ''a''));
      nonce = EncodeToString encodeURL (replicate 32 (CHR ''b''))
    in (csrf, [(loginCookieName, signed demoCrypto demoAuthenticator (formatInt (Unix (600 * Second)) @ ''.'' @ csrf @ ''.'' @ nonce))]))"

lemma demo_challenge: "verifyLoginChallengeFromRequest demoCrypto demoAuthenticator (snd demoRequest) (fst demoRequest) 0"
proof -
  let ?csrf = "EncodeToString encodeURL (replicate 32 (CHR ''a''))" and ?nonce = "EncodeToString encodeURL (replicate 32 (CHR ''b''))"
  let ?exp = "formatInt (Unix (600 * Second))"
  let ?payload = "?exp @ ''.'' @ ?csrf @ ''.'' @ ?nonce"
  note e = formatInt_Unix [of "600 * Second"]
  have mac: "length (c_mac demoCrypto k s) = 32" for k s by (simp add: demoCrypto_def)
  have tok: "length ?csrf = 43" "length ?nonce = 43" by (simp_all add: rawURL.length_encoded)
  have "length (signed demoCrypto demoAuthenticator ?payload) \<le> 256" using e(2) tok mac by (simp add: signed_def rawURL.length_encoded)
  moreover have "TrimSpace (signed demoCrypto demoAuthenticator ?payload) \<noteq> []" by (rule signed_not_blank) simp
  moreover have "verifyLoginChallenge demoCrypto demoAuthenticator (signed demoCrypto demoAuthenticator ?payload) ?csrf 0"
    using verify_signed [of demoAuthenticator demoCrypto ?payload ?exp ?csrf ?nonce ?csrf 0] e(2-4) tok mac
    by (simp add: separators_not_encoded demoAuthenticator_def Unix_def)
  ultimately show ?thesis
    by (simp add: demoRequest_def Let_def verifyLoginChallengeFromRequest_def cookieValue_def)
qed

lemma demo_bucket: "\<exists>k<rateBucketCount. rateBucketIndex demoCrypto demoAuthenticator initialAuthState subject = Some k"
  by (simp add: rateBucketIndex_def initialAuthState_def demoAuthenticator_def rateBucketCount_def)

lemma cleanup_initial [simp]: "cleanupLocked now initialAuthState = initialAuthState"
  by (simp add: cleanupLocked_def initialAuthState_def cleanBucket_def zeroBucket_def)

lemma demo_run:
  assumes k: "k < rateBucketCount" "rateBucketIndex demoCrypto demoAuthenticator initialAuthState ''ada'' = Some k"
    and ok: "ok = checkPassword demoCrypto demoAuthenticator ''ada'' password"
  shows "\<exists>st. login_run demoCrypto demoAuthenticator (initialAuthState, {#})
     [Silent, Admits (Some k) 0, Silent, Silent, Finishes (Some k) ''ada'' password 0 1 ok]
     (st, if ok then {#Authenticated ''ada'' 0#} else {#}) \<and> a_sessions st = []"
proof -
  let ?run = "login_run demoCrypto demoAuthenticator (initialAuthState, {#})"
  have trim: "TrimSpace ''ada'' = ''ada''" by code_simp
  have "login_step demoCrypto demoAuthenticator (initialAuthState, {#}) Silent (initialAuthState, {#Admitting (Some k) ''ada'' password 0#})"
    using login_step.begins [OF demo_challenge trim [symmetric], of initialAuthState "{#}" password 0] k by simp
  from run_snoc [OF run_nil this] have r1: "?run [Silent] (initialAuthState, {#Admitting (Some k) ''ada'' password 0#})" by simp
  obtain st1 where st1: "admitAttempt (Some k) 0 initialAuthState = (True, st1)" "a_passwordChecks st1 = 0" "a_sessions st1 = []"
    using k by (auto simp: admitAttempt_def admitBucket_def initialAuthState_def zeroBucket_def beforeTime_def lockoutAfterFailures_def
        cleanupLocked_def cleanBucket_def)
  from run_snoc [OF r1 login_step.admits [OF st1(1)]] have r2: "?run [Silent, Admits (Some k) 0] (st1, {#Admitted (Some k) ''ada'' password 0#})" by simp
  obtain st2 where st2: "acquirePasswordCheck st1 = Some st2" "a_sessions st2 = []" using st1 by (auto simp: acquirePasswordCheck_def maxPasswordChecks_def)
  from run_snoc [OF r2 login_step.acquires [OF st2(1)]] have r3: "?run [Silent, Admits (Some k) 0, Silent] (st2, {#Checking (Some k) ''ada'' password 0#})" by simp
  from run_snoc [OF r3 login_step.checks]
  have r4: "?run [Silent, Admits (Some k) 0, Silent, Silent] (releasePasswordCheck st2, {#Finishing (Some k) ''ada'' password 0 ok#})" by (simp add: ok)
  from run_snoc [OF r4 login_step.finishes [where t = 1]] show ?thesis using st2(2) by force
qed

lemma demo_passwords:
  "checkPassword demoCrypto demoAuthenticator ''ada'' ''secret''" "\<not> checkPassword demoCrypto demoAuthenticator ''ada'' ''guess''"
  by (simp_all add: checkPassword_def candidateHash_def verify_def demoCrypto_def demoAuthenticator_def demoVerifier_def maxPasswordBytes_def Let_def)

theorem concurrent_logins_bounded_witness:
  "\<exists>k ls st M. login_run demoCrypto demoAuthenticator (initialAuthState, {#}) ls (st, M) \<and> length ls = 5
     \<and> length (a_sessions st) \<le> 1024 \<and> rb_inFlight (a_rateBuckets st ! k) = pendingOn k M"
proof -
  obtain k where k: "k < rateBucketCount" "rateBucketIndex demoCrypto demoAuthenticator initialAuthState ''ada'' = Some k" using demo_bucket by blast
  obtain st M where run: "login_run demoCrypto demoAuthenticator (initialAuthState, {#})
     [Silent, Admits (Some k) 0, Silent, Silent, Finishes (Some k) ''ada'' ''secret'' 0 1 True] (st, M)"
    using demo_run [OF k, of True "''secret''"] demo_passwords by auto
  show ?thesis
    using run k(1) concurrent_logins_bounded [OF demo_New run] by (intro exI conjI) (assumption | auto simp: rateBucketCount_def)+
qed

theorem guesses_bounded_witness:
  "\<exists>k ls w. login_run demoCrypto demoAuthenticator (initialAuthState, {#}) ls w \<and> list_all (labelWithin 0) ls \<and> guessed k ls = 1 \<and> guessed k ls \<le> 5"
proof -
  obtain k where k: "k < rateBucketCount" "rateBucketIndex demoCrypto demoAuthenticator initialAuthState ''ada'' = Some k" using demo_bucket by blast
  let ?ls = "[Silent, Admits (Some k) 0, Silent, Silent, Finishes (Some k) ''ada'' ''guess'' 0 1 False]"
  obtain w where run: "login_run demoCrypto demoAuthenticator (initialAuthState, {#}) ?ls w"
    using demo_run [OF k, of False "''guess''"] demo_passwords by auto
  have within: "list_all (labelWithin 0) ?ls" "list_all (\<lambda>l. \<not> succeededOn k l) ?ls" "k < 1024"
    using k(1) by (simp_all add: inWindow_def lockoutDuration_def rateBucketCount_def)
  have "guessed k ?ls = 1" by (simp add: guessed_def)
  moreover note guesses_bounded [OF demo_New run_nil run within]
  ultimately show ?thesis using run within(1) by blast
qed

theorem session_requires_password_witness:
  "\<exists>ls st M st' password u. login_run demoCrypto demoAuthenticator (initialAuthState, {#}) ls (st, M)
     \<and> ResolvePresentationSession 2 [(sessionCookieName, ''s1'')] st = (Inr (''s1'', ''ada'', ''t1''), st')
     \<and> map_of (a_users demoAuthenticator) ''ada'' = Some u \<and> verify demoCrypto (u_passwordHash u) password"
proof -
  obtain k where k: "k < rateBucketCount" "rateBucketIndex demoCrypto demoAuthenticator initialAuthState ''ada'' = Some k" using demo_bucket by blast
  let ?ls = "[Silent, Admits (Some k) 0, Silent, Silent, Finishes (Some k) ''ada'' ''secret'' 0 1 True]"
  obtain st where run: "login_run demoCrypto demoAuthenticator (initialAuthState, {#}) ?ls (st, {#Authenticated ''ada'' 0#})" "a_sessions st = []"
    using demo_run [OF k, of True "''secret''"] demo_passwords by auto
  let ?u = "the (map_of (a_users demoAuthenticator) ''ada'')"
  obtain st1 where st1: "createSession demoAuthenticator 0 ?u ''s1'' ''c1'' st = (None, st1)"
    and sess: "a_sessions st1 = [(''s1'', \<lparr>s_subject = ''ada'', s_controllerToken = ''t1'', s_csrf = ''c1'', s_expiresAt = defaultSessionTTL\<rparr>)]"
    using run(2) by (simp add: createSession_def cleanupLocked_def Let_def maxSessions_def demoAuthenticator_def)
  note run' = run_snoc [OF run(1) login_step.creates [OF st1]]
  have "TrimSpace ''s1'' = ''s1''" by code_simp
  then have res: "ResolvePresentationSession 2 [(sessionCookieName, ''s1'')] st1 = (Inr (''s1'', ''ada'', ''t1''), cleanupLocked 2 st1)"
    using sess by (simp add: ResolvePresentationSession_def current_def cookieValue_def cleanupLocked_def Let_def defaultSessionTTL_def)
  from session_requires_password [OF demo_New run' res] run' res show ?thesis by blast
qed

end
