(* ===== verification/Inspector.thy ===== *)
theory Inspector
  imports Differ "HOL-Library.Word"
begin

text \<open>
  The state inspector (\<^verbatim>\<open>inspector/inspector.go\<close>, \<^verbatim>\<open>inspector/mapping.go\<close>): which containers belong to a project,
  how a container becomes a service state, the log lines of a service, and the bounded capacity sample
  (\<^verbatim>\<open>inspector/capacity.go\<close>) with its baselines. The cache of Docker clients is in theory \<open>ClientCache\<close>.

  What the Docker API answers is a parameter: the containers a listing with a filter gives, the
  details of a container, its logs and its counters. A Go map in an answer (labels, published ports, networks) is a list in one of its iteration
  orders. Percentages and sizes in MiB are floating-point values and are left out.
\<close>

section \<open>Answers of the Docker API\<close>

record Summary =
  c_ID :: string
  c_Names :: "string list"
  c_Image :: string
  c_State :: string
  c_Labels :: "string gomap"

record ContainerConfig =
  cg_Env :: "string list"
  cg_Cmd :: "string list"
  cg_Entrypoint :: "string list"

record MountPoint =
  mp_Source :: string
  mp_Destination :: string
  mp_RW :: bool

text \<open>The published ports map a port with its protocol to the host ports bound to it.\<close>

record NetworkSettings =
  ns_Ports :: "string list gomap"
  ns_Networks :: "string list"

text \<open>\<open>i_Health\<close> is the status of the health check, where the container has a state and a health check.\<close>

record InspectResponse =
  i_Config :: "ContainerConfig option"
  i_Health :: "string option"
  i_Mounts :: "MountPoint list"
  i_NetworkSettings :: "NetworkSettings option"
  i_RestartPolicy :: "string option"

text \<open>
  The filters of \<^verbatim>\<open>ContainerList\<close> the inspector uses: the labels a container must have, or a name it must contain. A log stream
  is what the demultiplexer makes of it, standard output and standard error or an error, and its raw bytes; the number tells the first
  request from the second.
\<close>

datatype ListFilter = ByLabels "(string \<times> string) list" | ByName string

record LogStream =
  ls_StdCopy :: "(string \<times> string) option"
  ls_raw :: string

record Docker =
  dk_List :: "ListFilter \<Rightarrow> Summary list result"
  dk_Inspect :: "string \<Rightarrow> InspectResponse result"
  dk_Logs :: "nat \<Rightarrow> string \<Rightarrow> string \<Rightarrow> LogStream result"

section \<open>Health\<close>

definition mapRunningHealth :: "InspectResponse \<Rightarrow> HealthStatus" where
  "mapRunningHealth detail =
     (case i_Health detail of
        None \<Rightarrow> Healthy
      | Some status \<Rightarrow>
          if status = ''healthy'' then Healthy
          else if status = ''starting'' then Progressing
          else if status = ''unhealthy'' then Degraded
          else Healthy)"

definition mapHealth :: "string \<Rightarrow> InspectResponse \<Rightarrow> HealthStatus" where
  "mapHealth containerState detail =
     (if containerState = ''running'' then mapRunningHealth detail
      else if containerState = ''created'' \<or> containerState = ''paused'' then Progressing
      else if containerState = ''restarting'' then Degraded
      else HealthUnknown)"

section \<open>Containers as service states\<close>

definition projectLabel :: string where "projectLabel = ''com.docker.compose.project''"
definition serviceLabel :: string where "serviceLabel = ''com.docker.compose.service''"

definition parseEnvList :: "string list \<Rightarrow> string gomap" where
  "parseEnvList env = fold (\<lambda>e m. case cut (CHR ''='') e of None \<Rightarrow> m | Some (k, v) \<Rightarrow> AList.update k v m) env []"

definition filterComposeLabels :: "string gomap \<Rightarrow> string gomap" where
  "filterComposeLabels labels = filter (\<lambda>(k, v). \<not> HasPrefix k ''com.docker.compose.'') labels"

definition portsOf :: "string \<times> string list \<Rightarrow> PortMapping list" where
  "portsOf pb =
     (case pb of (containerPort, bindings) \<Rightarrow>
        let (port, proto) = (case cut (CHR ''/'') containerPort of None \<Rightarrow> (containerPort, ''tcp'') | Some (a, b) \<Rightarrow> (a, b))
        in if bindings = [] then [\<lparr>HostPort = [], ContainerPort = port, Protocol = proto\<rparr>]
           else map (\<lambda>b. \<lparr>HostPort = b, ContainerPort = port, Protocol = proto\<rparr>) bindings)"

definition extractPorts :: "InspectResponse \<Rightarrow> PortMapping list" where
  "extractPorts detail = (case i_NetworkSettings detail of None \<Rightarrow> [] | Some n \<Rightarrow> concat (map portsOf (ns_Ports n)))"

text \<open>The API gives every container at least one name.\<close>

definition mapContainerToState :: "Summary \<Rightarrow> InspectResponse \<Rightarrow> ServiceState" where
  "mapContainerToState c detail =
     \<lparr>lv_Name = strAt (c_Labels c) serviceLabel, lv_Image = c_Image c, lv_ContainerName = TrimPrefix (hd (c_Names c)) ''/'',
      lv_Status = c_State c, lv_Health = mapHealth (c_State c) detail,
      lv_Environment = (case i_Config detail of None \<Rightarrow> [] | Some g \<Rightarrow> parseEnvList (cg_Env g)),
      lv_Ports = extractPorts detail,
      lv_Volumes = map (\<lambda>m. \<lparr>vm_Source = mp_Source m, vm_Target = mp_Destination m, vm_ReadOnly = \<not> mp_RW m\<rparr>) (i_Mounts detail),
      lv_Networks = (case i_NetworkSettings detail of None \<Rightarrow> [] | Some n \<Rightarrow> ns_Networks n),
      lv_Labels = filterComposeLabels (c_Labels c),
      lv_RestartPolicy = (case i_RestartPolicy detail of None \<Rightarrow> [] | Some p \<Rightarrow> p),
      lv_Command = (case i_Config detail of None \<Rightarrow> [] | Some g \<Rightarrow> cg_Cmd g),
      lv_Entrypoint = (case i_Config detail of None \<Rightarrow> [] | Some g \<Rightarrow> cg_Entrypoint g)\<rparr>"

section \<open>Inspection of a project\<close>

fun inspectAll :: "Docker \<Rightarrow> Summary list \<Rightarrow> ServiceState list result" where
  "inspectAll dk [] = Inr []"
| "inspectAll dk (c # cs) =
     (case dk_Inspect dk (c_ID c) of
        Inl e \<Rightarrow> Inl (Wrapf ''inspecting container %s: %w'' [c_ID c] e)
      | Inr detail \<Rightarrow>
          (case inspectAll dk cs of
             Inl e \<Rightarrow> Inl e
           | Inr states \<Rightarrow> Inr (mapContainerToState c detail # states)))"

text \<open>With a client of the host at hand; what creating one can fail with is part of the cache below.\<close>

definition insp_Inspect :: "Docker result \<Rightarrow> DestinationSpec \<Rightarrow> ServiceState list result" where
  "insp_Inspect client dest =
     (case client of
        Inl e \<Rightarrow> Inl (Wrapf ''creating docker client for %q: %w'' [DockerHost dest] e)
      | Inr dk \<Rightarrow>
          (case dk_List dk (ByLabels [(projectLabel, ProjectName dest)]) of
             Inl e \<Rightarrow> Inl (Wrapf ''listing containers for project %q: %w'' [ProjectName dest] e)
           | Inr containers \<Rightarrow>
               if containers = []
               then (case dk_List dk (ByName (ProjectName dest)) of
                       Inl e \<Rightarrow> Inl (Wrapf ''listing containers by name %q: %w'' [ProjectName dest] e)
                     | Inr candidates \<Rightarrow> inspectAll dk (filter (\<lambda>c. (CHR ''/'' # ProjectName dest) \<in> set (c_Names c)) candidates))
               else inspectAll dk containers))"

definition serviceFilter :: "DestinationSpec \<Rightarrow> string \<Rightarrow> ListFilter" where
  "serviceFilter dest service = ByLabels [(projectLabel, ProjectName dest), (serviceLabel, service)]"

definition InspectService :: "Docker result \<Rightarrow> DestinationSpec \<Rightarrow> string \<Rightarrow> ServiceState option result" where
  "InspectService client dest service =
     (case client of
        Inl e \<Rightarrow> Inl (Wrapf ''creating docker client: %w'' [] e)
      | Inr dk \<Rightarrow>
          (case dk_List dk (serviceFilter dest service) of
             Inl e \<Rightarrow> Inl (Wrapf ''listing containers for service %q: %w'' [service] e)
           | Inr [] \<Rightarrow> Inr None
           | Inr (c # cs) \<Rightarrow>
               (case dk_Inspect dk (c_ID c) of
                  Inl e \<Rightarrow> Inl (Wrapf ''inspecting container %q: %w'' [c_ID c] e)
                | Inr detail \<Rightarrow> Inr (Some (mapContainerToState c detail)))))"

definition InspectServiceDetail :: "Docker result \<Rightarrow> DestinationSpec \<Rightarrow> string \<Rightarrow> ServiceDetail option result" where
  "InspectServiceDetail client dest service =
     (case client of
        Inl e \<Rightarrow> Inl (Wrapf ''creating docker client: %w'' [] e)
      | Inr dk \<Rightarrow>
          (case dk_List dk (serviceFilter dest service) of
             Inl e \<Rightarrow> Inl (Wrapf ''listing containers for service %q: %w'' [service] e)
           | Inr [] \<Rightarrow> Inr None
           | Inr (c # cs) \<Rightarrow>
               (case dk_Inspect dk (c_ID c) of
                  Inl e \<Rightarrow> Inl (Wrapf ''inspecting container %q: %w'' [c_ID c] e)
                | Inr detail \<Rightarrow> Inr (Some (ServiceState.extend (mapContainerToState c detail) (ServiceDetail.fields (c_ID c)))))))"

text \<open>A container that cannot be inspected is left out here.\<close>

definition InspectWithMetrics :: "Docker result \<Rightarrow> DestinationSpec \<Rightarrow> ServiceStatus list result" where
  "InspectWithMetrics client dest =
     (case client of
        Inl e \<Rightarrow> Inl (Wrapf ''creating docker client: %w'' [] e)
      | Inr dk \<Rightarrow>
          (case dk_List dk (ByLabels [(projectLabel, ProjectName dest)]) of
             Inl e \<Rightarrow> Inl (Wrapf ''listing containers: %w'' [] e)
           | Inr containers \<Rightarrow>
               Inr (List.map_filter (\<lambda>c. case dk_Inspect dk (c_ID c) of
                      Inl e \<Rightarrow> None
                    | Inr detail \<Rightarrow> Some \<lparr>ss_Name = strAt (c_Labels c) serviceLabel, ss_Image = c_Image c, ss_Health = mapHealth (c_State c) detail,
                        ss_State = c_State c, ss_Ports = extractPorts detail\<rparr>) containers)))"

section \<open>Logs\<close>

text \<open>
  \<^verbatim>\<open>bufio.Scanner\<close> with its default split function: a line without its terminator and one carriage return before it; the scanner
  stops at a line that does not fit its buffer of 64 KiB.
\<close>

definition MaxScanTokenSize :: nat where "MaxScanTokenSize = 64 * 1024"

definition dropCR :: "string \<Rightarrow> string" where
  "dropCR l = (if l \<noteq> [] \<and> last l = CHR 0x0D then butlast l else l)"

definition rawLines :: "string \<Rightarrow> string list" where
  "rawLines bytes = (let ls = Split bytes (CHR 0x0A) in if last ls = [] then butlast ls else ls)"

definition splitLines :: "string \<Rightarrow> string list" where
  "splitLines bytes = map dropCR (takeWhile (\<lambda>l. length l < MaxScanTokenSize) (rawLines bytes))"

definition logTail :: "int \<Rightarrow> string" where
  "logTail n = (if n < 0 then CHR ''-'' # Itoa (nat (- n)) else Itoa (nat n))"

definition GetServiceLogs :: "Docker result \<Rightarrow> DestinationSpec \<Rightarrow> string \<Rightarrow> int \<Rightarrow> string list result" where
  "GetServiceLogs client dest service tail =
     (case client of
        Inl e \<Rightarrow> Inl (Wrapf ''creating docker client: %w'' [] e)
      | Inr dk \<Rightarrow>
          (case dk_List dk (serviceFilter dest service) of
             Inl e \<Rightarrow> Inl (Wrapf ''listing containers for service %q: %w'' [service] e)
           | Inr [] \<Rightarrow> Inr []
           | Inr (c # cs) \<Rightarrow>
               (case dk_Logs dk 0 (c_ID c) (logTail tail) of
                  Inl e \<Rightarrow> Inl (Wrapf ''getting logs for service %q: %w'' [service] e)
                | Inr rc \<Rightarrow>
                    (case ls_StdCopy rc of
                       Some (stdout, stderr) \<Rightarrow> Inr (splitLines (stdout @ stderr))
                     | None \<Rightarrow>
                         (case dk_Logs dk 1 (c_ID c) (logTail tail) of
                            Inl e \<Rightarrow> Inl (Wrapf ''getting logs (fallback): %w'' [] e)
                          | Inr rc \<Rightarrow> Inr (splitLines (take (2 ^ 20) (ls_raw rc))))))))"

section \<open>Capacity samples\<close>

text \<open>
  The counters of a container are unsigned 64-bit numbers. \<open>capacityCPU\<close> keeps those of the last sample. Results arrive on a channel in
  the order the workers finish: \<open>arrivals\<close> are the containers that were dispatched before the deadline, in that order, each with the
  time its result is recorded.
\<close>

record capacityCounters =
  cc_total :: "64 word"
  cc_system :: "64 word"
  cc_online :: int
  cc_observedAt :: time

record StatsResponse =
  sr_TotalUsage :: "64 word"
  sr_SystemUsage :: "64 word"
  sr_OnlineCPUs :: int

record CapacityClient =
  cp_Info :: "(int \<times> int) result"
  cp_List :: "string list result"
  cp_Stats :: "string \<Rightarrow> (string \<times> err option) result"
  cp_Unmarshal :: "string \<Rightarrow> StatsResponse result"

record CapacitySample =
  sm_CPUCores :: int
  sm_RunningContainers :: int
  sm_EligibleContainers :: int
  sm_ObservedContainers :: int
  sm_usage :: "(64 word \<times> 64 word \<times> int) list"
  sm_Completeness :: string

definition capacityMaxContainers :: nat where "capacityMaxContainers = 64"
definition capacityMaxBody :: nat where "capacityMaxBody = 2 ^ 20"
definition capacityBaselineTTL :: duration where "capacityBaselineTTL = 2 * Minute"

text \<open>A body is the bytes it delivers and the error it ends with, if it does not end regularly.\<close>

definition decodeCapacityJSON :: "(string \<Rightarrow> 'a result) \<Rightarrow> string \<times> err option \<Rightarrow> int \<Rightarrow> 'a result" where
  "decodeCapacityJSON unmarshal body contentLength =
     (if contentLength > int capacityMaxBody then Inl (Errorf ''capacity metadata response exceeds limit'' [])
      else if length (fst body) > capacityMaxBody then Inl (Errorf ''capacity metadata response exceeds limit'' [])
      else case snd body of
        Some e \<Rightarrow> Inl (Wrapf ''reading capacity metadata: %w'' [] e)
      | None \<Rightarrow> (case unmarshal (fst body) of Inl e \<Rightarrow> Inl (Wrapf ''decoding capacity metadata: %w'' [] e) | Inr x \<Rightarrow> Inr x))"

definition capacityContainerStat :: "CapacityClient \<Rightarrow> string \<Rightarrow> StatsResponse option" where
  "capacityContainerStat cp i =
     (case cp_Stats cp i of
        Inl e \<Rightarrow> None
      | Inr body \<Rightarrow> (case decodeCapacityJSON (cp_Unmarshal cp) body (- 1) of Inl e \<Rightarrow> None | Inr stats \<Rightarrow> Some stats))"

definition pruneCapacityBaselines :: "time \<Rightarrow> capacityCounters gomap \<Rightarrow> capacityCounters gomap" where
  "pruneCapacityBaselines now baselines = filter (\<lambda>(i, c). \<not> now - cc_observedAt c > capacityBaselineTTL) baselines"

fun checkContainerIDs :: "string list \<Rightarrow> string list \<Rightarrow> err option" where
  "checkContainerIDs seen [] = None"
| "checkContainerIDs seen (i # ids) =
     (if i = [] then Some (Errorf ''docker returned capacity container without an ID'' [])
      else if i \<in> set seen then Some (Errorf ''docker returned duplicate capacity container ID'' [])
      else checkContainerIDs (i # seen) ids)"

text \<open>One result: the baseline is replaced, and the usage since the previous one counts when the counters did not go back.\<close>

definition capacityResult ::
    "CapacityClient \<Rightarrow> string \<times> time \<Rightarrow> CapacitySample \<times> bool \<times> capacityCounters gomap \<Rightarrow> CapacitySample \<times> bool \<times> capacityCounters gomap" where
  "capacityResult cp arrival acc =
     (case (arrival, acc) of ((i, now), (sample, partial, baselines)) \<Rightarrow>
        case capacityContainerStat cp i of
          None \<Rightarrow> (sample, True, baselines)
        | Some stats \<Rightarrow>
            let counters = \<lparr>cc_total = sr_TotalUsage stats, cc_system = sr_SystemUsage stats, cc_online = sr_OnlineCPUs stats, cc_observedAt = now\<rparr>;
                sample = sample\<lparr>sm_ObservedContainers := sm_ObservedContainers sample + 1\<rparr>;
                baselines' = AList.update i counters baselines
            in case map_of baselines i of
                 None \<Rightarrow> (sample, True, baselines')
               | Some previous \<Rightarrow>
                   if cc_total counters \<ge> cc_total previous \<and> cc_system counters > cc_system previous \<and> cc_online counters > 0
                   then (sample\<lparr>sm_usage := sm_usage sample
                           @ [(cc_total counters - cc_total previous, cc_system counters - cc_system previous, cc_online counters)]\<rparr>, partial, baselines')
                   else (sample, True, baselines'))"

definition insp_CapacitySample ::
    "CapacityClient result \<Rightarrow> time \<Rightarrow> (string \<times> time) list \<Rightarrow> capacityCounters gomap \<Rightarrow> CapacitySample result \<times> capacityCounters gomap" where
  "insp_CapacitySample client started arrivals baselines =
     (case client of
        Inl e \<Rightarrow> (Inl e, baselines)
      | Inr cp \<Rightarrow>
          (case cp_Info cp of
             Inl e \<Rightarrow> (Inl e, baselines)
           | Inr (ncpu, running) \<Rightarrow>
               (case cp_List cp of
                  Inl e \<Rightarrow> (Inl e, baselines)
                | Inr ids \<Rightarrow>
                    if length ids > capacityMaxContainers
                    then (Inl (Errorf ''docker returned %d capacity containers, limit is %d'' []), baselines)
                    else case checkContainerIDs [] ids of
                      Some e \<Rightarrow> (Inl e, baselines)
                    | None \<Rightarrow>
                        let sample = \<lparr>sm_CPUCores = ncpu, sm_RunningContainers = running, sm_EligibleContainers = int (length ids),
                              sm_ObservedContainers = 0, sm_usage = [], sm_Completeness = []\<rparr>;
                            truncated = running > int (length ids);
                            (sample, partial, baselines') =
                              fold (capacityResult cp) arrivals (sample, False, pruneCapacityBaselines started baselines);
                            partial = (partial \<or> ncpu \<le> 0);
                            completeness = (if truncated then ''truncated''
                              else if partial \<or> sm_ObservedContainers sample \<noteq> sm_EligibleContainers sample then ''partial''
                              else ''complete'')
                        in (Inr (sample\<lparr>sm_Completeness := completeness\<rparr>), baselines'))))"

section \<open>What an inspection observes\<close>

lemma inspectAll_complete:
  "inspectAll dk cs = Inr states \<longleftrightarrow>
     list_all2 (\<lambda>c s. \<exists>detail. dk_Inspect dk (c_ID c) = Inr detail \<and> s = mapContainerToState c detail) cs states"
proof (induction cs arbitrary: states)
  case (Cons c cs)
  show ?case
    by (cases "dk_Inspect dk (c_ID c)"; cases "inspectAll dk cs"; cases states) (auto simp: Cons.IH [symmetric])
qed auto

lemma inspectAll_fails: "(\<exists>e. inspectAll dk cs = Inl e) \<longleftrightarrow> (\<exists>c\<in>set cs. \<exists>e. dk_Inspect dk (c_ID c) = Inl e)"
  by (induction cs) (auto split: sum.splits)

text \<open>
  What the daemon documents of its filters, for the containers \<open>cs\<close> of the host: labels must all be there with their values, and a
  name matches where it is part of one of the container's names.
\<close>

definition labelled :: "(string \<times> string) list \<Rightarrow> Summary \<Rightarrow> bool" where
  "labelled ls c = list_all (\<lambda>(k, v). map_of (c_Labels c) k = Some v) ls"

definition honours_filters :: "Docker \<Rightarrow> Summary list \<Rightarrow> bool" where
  "honours_filters dk cs =
     ((\<forall>ls. dk_List dk (ByLabels ls) = Inr (filter (labelled ls) cs))
      \<and> (\<forall>name. dk_List dk (ByName name) = Inr (filter (\<lambda>c. list_ex (\<lambda>n. Contains n name) (c_Names c)) cs)))"

text \<open>The containers of a project: those with its label, and only when there are none, those with exactly its name.\<close>

definition projectContainers :: "DestinationSpec \<Rightarrow> Summary list \<Rightarrow> Summary list" where
  "projectContainers dest cs =
     (let own = filter (labelled [(projectLabel, ProjectName dest)]) cs
      in if own = [] then filter (\<lambda>c. (CHR ''/'' # ProjectName dest) \<in> set (c_Names c)) cs else own)"

lemma exact_name_found:
  "filter (\<lambda>c. (CHR ''/'' # name) \<in> set (c_Names c)) (filter (\<lambda>c. list_ex (\<lambda>n. Contains n name) (c_Names c)) cs)
   = filter (\<lambda>c. (CHR ''/'' # name) \<in> set (c_Names c)) cs"
proof -
  have "Contains (CHR ''/'' # name) name" unfolding Contains_iff by (metis append_Cons append_Nil append_Nil2)
  then show ?thesis by (auto simp: list_ex_iff intro!: filter_cong)
qed

lemma Inspect_containers:
  "honours_filters dk cs \<Longrightarrow> insp_Inspect (Inr dk) dest = inspectAll dk (projectContainers dest cs)"
  by (simp add: insp_Inspect_def honours_filters_def projectContainers_def Let_def exact_name_found del: filter_filter)

text \<open>
  C21: an inspection is complete or an error. It succeeds exactly with the states of all containers of the project, each inspected
  and in the order of the listing, and it fails exactly when one of them cannot be inspected.
\<close>

theorem Inspect_complete:
  assumes "honours_filters dk cs"
  shows "(insp_Inspect (Inr dk) dest = Inr states \<longleftrightarrow>
            list_all2 (\<lambda>c s. \<exists>detail. dk_Inspect dk (c_ID c) = Inr detail \<and> s = mapContainerToState c detail)
              (projectContainers dest cs) states)
       \<and> ((\<exists>e. insp_Inspect (Inr dk) dest = Inl e) \<longleftrightarrow> (\<exists>c\<in>set (projectContainers dest cs). \<exists>e. dk_Inspect dk (c_ID c) = Inl e))"
  unfolding Inspect_containers [OF assms] using inspectAll_complete inspectAll_fails by blast

text \<open>A service of a project is looked up by both labels, the first container of the listing.\<close>

lemma InspectService_first:
  "honours_filters dk cs \<Longrightarrow>
   InspectService (Inr dk) dest service =
     (case filter (labelled [(projectLabel, ProjectName dest), (serviceLabel, service)]) cs of
        [] \<Rightarrow> Inr None
      | c # rest \<Rightarrow> (case dk_Inspect dk (c_ID c) of
            Inl e \<Rightarrow> Inl (Wrapf ''inspecting container %q: %w'' [c_ID c] e)
          | Inr detail \<Rightarrow> Inr (Some (mapContainerToState c detail))))"
  by (simp add: InspectService_def honours_filters_def serviceFilter_def split: list.split)

text \<open>The environment of a container is read back from the list the daemon keeps of it.\<close>

lemma parseEnvList_lookup:
  "map_of (fold (\<lambda>e m. case cut (CHR ''='') e of None \<Rightarrow> m | Some (k, v) \<Rightarrow> AList.update k v m)
     (map (\<lambda>(k, v). k @ CHR ''='' # v) env) m) key
   = (case map_of (rev env) key of None \<Rightarrow> map_of m key | Some v \<Rightarrow> Some v)"
  if "\<forall>(k, v)\<in>set env. CHR ''='' \<notin> set k"
  using that by (induction env arbitrary: m) (auto simp: AList.update_conv' map_add_def split: option.split)

text \<open>
  The environment a container was created with, as a list of assignments in which later ones win, is the environment the
  inspector reports, whatever the values contain.
\<close>

theorem environment_read_back:
  assumes "\<forall>(k, v)\<in>set env. CHR ''='' \<notin> set k"
    and "i_Config detail = Some g" and "cg_Env g = map (\<lambda>(k, v). k @ CHR ''='' # v) env"
  shows "map_of (lv_Environment (mapContainerToState c detail)) key = map_of (rev env) key"
  using parseEnvList_lookup [OF assms(1), of "[]" key] assms(2,3)
  by (simp add: mapContainerToState_def parseEnvList_def split: option.split)

text \<open>A line that does not fit the scanner's buffer ends the log: it and every line after it are dropped.\<close>

lemma rawLines_unlines:
  "\<forall>l\<in>set ls. CHR 0x0A \<notin> set l \<Longrightarrow> rawLines (concat (map (\<lambda>l. l @ [CHR 0x0A]) ls)) = ls"
proof -
  have "\<forall>l\<in>set ls. CHR 0x0A \<notin> set l \<Longrightarrow> Split (concat (map (\<lambda>l. l @ [CHR 0x0A]) ls)) (CHR 0x0A) = ls @ [[]]"
    by (induction ls) (auto simp: Split_append)
  then show "\<forall>l\<in>set ls. CHR 0x0A \<notin> set l \<Longrightarrow> ?thesis" by (simp add: rawLines_def)
qed

lemma long_line_ends_log:
  assumes "\<forall>l\<in>set (before @ long # after). CHR 0x0A \<notin> set l" and "\<forall>l\<in>set before. length l < MaxScanTokenSize"
    and "MaxScanTokenSize \<le> length long"
  shows "splitLines (concat (map (\<lambda>l. l @ [CHR 0x0A]) (before @ long # after))) = map dropCR before"
  using assms by (simp only: splitLines_def rawLines_unlines) (simp add: takeWhile_append)

section \<open>What a complete capacity sample means\<close>

lemma checkContainerIDs_None:
  "checkContainerIDs seen ids = None \<longleftrightarrow> distinct ids \<and> set ids \<inter> set seen = {} \<and> [] \<notin> set ids"
  by (induction ids arbitrary: seen) auto

text \<open>The usage a container contributes, against the baseline it had before the sample.\<close>

definition usageSince :: "CapacityClient \<Rightarrow> capacityCounters gomap \<Rightarrow> string \<Rightarrow> (64 word \<times> 64 word \<times> int) option" where
  "usageSince cp baselines i =
     (case (capacityContainerStat cp i, map_of baselines i) of
        (Some stats, Some previous) \<Rightarrow>
          if sr_TotalUsage stats \<ge> cc_total previous \<and> sr_SystemUsage stats > cc_system previous \<and> sr_OnlineCPUs stats > 0
          then Some (sr_TotalUsage stats - cc_total previous, sr_SystemUsage stats - cc_system previous, sr_OnlineCPUs stats) else None
      | _ \<Rightarrow> None)"

lemma capacityResult_cases:
  "capacityResult cp (i, now) (sample, partial, baselines) =
     (sample\<lparr>sm_ObservedContainers := sm_ObservedContainers sample + (if capacityContainerStat cp i = None then 0 else 1),
        sm_usage := sm_usage sample @ (case usageSince cp baselines i of None \<Rightarrow> [] | Some u \<Rightarrow> [u])\<rparr>,
      partial \<or> usageSince cp baselines i = None,
      case capacityContainerStat cp i of None \<Rightarrow> baselines
      | Some stats \<Rightarrow> AList.update i \<lparr>cc_total = sr_TotalUsage stats, cc_system = sr_SystemUsage stats, cc_online = sr_OnlineCPUs stats,
          cc_observedAt = now\<rparr> baselines)"
  by (auto simp: capacityResult_def usageSince_def Let_def split: option.split)

lemma usageSince_update: "i \<noteq> j \<Longrightarrow> usageSince cp (AList.update j c baselines) i = usageSince cp baselines i"
  by (simp add: usageSince_def AList.update_conv')

lemma usageSince_observed: "capacityContainerStat cp i = None \<Longrightarrow> usageSince cp baselines i = None"
  by (simp add: usageSince_def)

lemma map_filter_same: "\<forall>x\<in>set xs. f x = g x \<Longrightarrow> List.map_filter f xs = List.map_filter g xs"
  by (induction xs) (auto simp: List.map_filter_simps split: option.split)

lemma map_filter_mem: "x \<in> set xs \<Longrightarrow> f x = Some y \<Longrightarrow> y \<in> set (List.map_filter f xs)"
  by (induction xs) (auto simp: List.map_filter_simps split: option.split)

text \<open>With every container arriving once, each is compared with its baseline from before the sample.\<close>

lemma capacityResults:
  assumes "distinct (map fst arrivals)"
  shows "case fold (capacityResult cp) arrivals (sample, partial, baselines) of
     (sample', partial', baselines') \<Rightarrow>
       sm_ObservedContainers sample' = sm_ObservedContainers sample + int (length (filter (\<lambda>i. capacityContainerStat cp i \<noteq> None) (map fst arrivals)))
       \<and> sm_usage sample' = sm_usage sample @ List.map_filter (usageSince cp baselines) (map fst arrivals)
       \<and> sm_EligibleContainers sample' = sm_EligibleContainers sample
       \<and> (partial' \<longleftrightarrow> partial \<or> (\<exists>i\<in>set (map fst arrivals). usageSince cp baselines i = None))"
  using assms
proof (induction arrivals arbitrary: sample partial baselines)
  case (Cons a arrivals)
  obtain i now where a: "a = (i, now)" by (cases a)
  obtain b where b: "b = (case capacityContainerStat cp i of None \<Rightarrow> baselines
      | Some stats \<Rightarrow> AList.update i \<lparr>cc_total = sr_TotalUsage stats, cc_system = sr_SystemUsage stats, cc_online = sr_OnlineCPUs stats,
          cc_observedAt = now\<rparr> baselines)" by simp
  have "i \<notin> set (map fst arrivals)" using Cons.prems a by simp
  then have same: "\<forall>j\<in>set (map fst arrivals). usageSince cp b j = usageSince cp baselines j"
    unfolding b by (metis (no_types, lifting) usageSince_update option.case_eq_if)
  let ?s = "sample\<lparr>sm_ObservedContainers := sm_ObservedContainers sample + (if capacityContainerStat cp i = None then 0 else 1),
        sm_usage := sm_usage sample @ (case usageSince cp baselines i of None \<Rightarrow> [] | Some u \<Rightarrow> [u])\<rparr>"
  have "fold (capacityResult cp) (a # arrivals) (sample, partial, baselines)
      = fold (capacityResult cp) arrivals (?s, partial \<or> usageSince cp baselines i = None, b)"
    by (simp add: a capacityResult_cases b)
  moreover have "distinct (map fst arrivals)" using Cons.prems by simp
  note Cons.IH [OF this, where baselines = b and sample = ?s and partial = "partial \<or> usageSince cp baselines i = None"]
  moreover have "(\<exists>i\<in>set (map fst arrivals). usageSince cp b i = None) = (\<exists>i\<in>set (map fst arrivals). usageSince cp baselines i = None)"
    using same by simp
  moreover obtain s' p' b' where "fold (capacityResult cp) (a # arrivals) (sample, partial, baselines) = (s', p', b')"
    by (metis prod_cases3)
  ultimately show ?case
    by (cases "usageSince cp baselines i"; cases "capacityContainerStat cp i")
      (simp_all add: a map_filter_same [OF same] List.map_filter_simps usageSince_observed)
qed (simp add: List.map_filter_simps)

lemma sample_complete_iff:
  assumes "insp_CapacitySample (Inr cp) started arrivals baselines = (Inr sample, baselines')" and "cp_List cp = Inr ids"
    and "cp_Info cp = Inr (ncpu, running)" and "distinct (map fst arrivals)"
  shows "sm_Completeness sample = ''complete'' \<longleftrightarrow>
      running \<le> int (length ids) \<and> 0 < ncpu \<and> (\<forall>i\<in>set (map fst arrivals). usageSince cp (pruneCapacityBaselines started baselines) i \<noteq> None)
      \<and> length (filter (\<lambda>i. capacityContainerStat cp i \<noteq> None) (map fst arrivals)) = length ids"
    and "sm_usage sample = List.map_filter (usageSince cp (pruneCapacityBaselines started baselines)) (map fst arrivals)"
    and "distinct ids"
  using assms(1-3) capacityResults [OF assms(4), where cp = cp and partial = False and baselines = "pruneCapacityBaselines started baselines"
      and sample = "\<lparr>sm_CPUCores = ncpu, sm_RunningContainers = running, sm_EligibleContainers = int (length ids),
        sm_ObservedContainers = 0, sm_usage = [], sm_Completeness = []\<rparr>"]
  by (auto simp: insp_CapacitySample_def Let_def checkContainerIDs_None not_less split: prod.splits option.splits if_splits)

lemma pruned_lookup:
  "wf_map baselines \<Longrightarrow> map_of (pruneCapacityBaselines now baselines) i = Some c \<longleftrightarrow>
     map_of baselines i = Some c \<and> now - cc_observedAt c \<le> capacityBaselineTTL"
  by (auto simp: pruneCapacityBaselines_def wf_map_filter not_less)

lemma unat_minus_pos: "b < a \<Longrightarrow> unat (a - b) = unat a - unat b \<and> 0 < unat (a - b)" for a b :: "64 word"
  by (metis unat_sub order.strict_implies_order unat_mono zero_less_diff)

text \<open>
  C35: a capacity sample that calls itself complete is one. No running container was left out of the listing, every listed container
  was observed, and each contributes its usage against a baseline at most two minutes old, a difference of its counters that does not wrap
  around and has a positive interval to divide by.
\<close>

theorem complete_sample_is_complete:
  assumes "insp_CapacitySample (Inr cp) started arrivals baselines = (Inr sample, baselines')" and "sm_Completeness sample = ''complete''"
    and "cp_List cp = Inr ids" and "cp_Info cp = Inr (ncpu, running)"
    and "wf_map baselines" and "distinct (map fst arrivals)" and "set (map fst arrivals) \<subseteq> set ids"
  shows "running \<le> int (length ids) \<and> set (map fst arrivals) = set ids
     \<and> (\<forall>i\<in>set ids. \<exists>stats previous. capacityContainerStat cp i = Some stats \<and> map_of baselines i = Some previous
          \<and> started - cc_observedAt previous \<le> capacityBaselineTTL
          \<and> (sr_TotalUsage stats - cc_total previous, sr_SystemUsage stats - cc_system previous, sr_OnlineCPUs stats) \<in> set (sm_usage sample)
          \<and> unat (sr_TotalUsage stats - cc_total previous) = unat (sr_TotalUsage stats) - unat (cc_total previous)
          \<and> unat (sr_SystemUsage stats - cc_system previous) = unat (sr_SystemUsage stats) - unat (cc_system previous)
          \<and> 0 < unat (sr_SystemUsage stats - cc_system previous))"
proof -
  let ?b = "pruneCapacityBaselines started baselines"
  note facts = sample_complete_iff [OF assms(1,3,4,6)]
  have len: "length (filter (\<lambda>i. capacityContainerStat cp i \<noteq> None) (map fst arrivals)) = length ids"
    and use: "\<forall>i\<in>set (map fst arrivals). usageSince cp ?b i \<noteq> None" and run: "running \<le> int (length ids)"
    using facts(1) assms(2) by auto
  have "card (set ids) \<le> card (set (map fst arrivals))"
    using len facts(3) assms(6) length_filter_le [of _ "map fst arrivals"] by (metis distinct_card)
  then have eq: "set (map fst arrivals) = set ids" using assms(7) by (simp add: card_seteq)
  have "\<exists>stats previous. capacityContainerStat cp i = Some stats \<and> map_of baselines i = Some previous
          \<and> started - cc_observedAt previous \<le> capacityBaselineTTL
          \<and> (sr_TotalUsage stats - cc_total previous, sr_SystemUsage stats - cc_system previous, sr_OnlineCPUs stats) \<in> set (sm_usage sample)
          \<and> unat (sr_TotalUsage stats - cc_total previous) = unat (sr_TotalUsage stats) - unat (cc_total previous)
          \<and> unat (sr_SystemUsage stats - cc_system previous) = unat (sr_SystemUsage stats) - unat (cc_system previous)
          \<and> 0 < unat (sr_SystemUsage stats - cc_system previous)" if "i \<in> set ids" for i
  proof -
    from that use eq obtain u where u: "usageSince cp ?b i = Some u" by blast
    then have "u \<in> set (sm_usage sample)"
      unfolding facts(2) using that eq by (metis map_filter_mem)
    moreover from u obtain stats previous where "capacityContainerStat cp i = Some stats" "map_of ?b i = Some previous"
      "cc_total previous \<le> sr_TotalUsage stats" "cc_system previous < sr_SystemUsage stats"
      "u = (sr_TotalUsage stats - cc_total previous, sr_SystemUsage stats - cc_system previous, sr_OnlineCPUs stats)"
      by (auto simp: usageSince_def split: option.splits if_splits)
    ultimately show ?thesis
      by (intro exI [of _ stats] exI [of _ previous])
        (simp add: pruned_lookup [OF assms(5)] unat_sub unat_minus_pos unat_mono)
  qed
  with run eq show ?thesis by blast
qed

section \<open>Witnesses\<close>

definition demoSummary :: "string \<Rightarrow> string \<Rightarrow> Summary" where
  "demoSummary i project = \<lparr>c_ID = i, c_Names = [''/web''], c_Image = ''nginx'', c_State = ''running'', c_Labels = [(projectLabel, project)]\<rparr>"

definition demoDetail :: InspectResponse where
  "demoDetail = \<lparr>i_Config = Some \<lparr>cg_Env = [''A=1'', ''B=x=y''], cg_Cmd = [], cg_Entrypoint = []\<rparr>, i_Health = None, i_Mounts = [],
     i_NetworkSettings = None, i_RestartPolicy = None\<rparr>"

definition demoDocker :: "Summary list \<Rightarrow> Docker" where
  "demoDocker cs =
     \<lparr>dk_List = (\<lambda>f. Inr (case f of ByLabels ls \<Rightarrow> filter (labelled ls) cs
        | ByName name \<Rightarrow> filter (\<lambda>c. list_ex (\<lambda>n. Contains n name) (c_Names c)) cs)),
      dk_Inspect = (\<lambda>i. if i = ''gone'' then Inl (Errorf ''no such container'' []) else Inr demoDetail),
      dk_Logs = (\<lambda>n i t. Inl (Errorf ''none'' []))\<rparr>"

definition demoDest :: DestinationSpec where
  "demoDest = \<lparr>DockerHost = [], ProjectName = ''web''\<rparr>"

theorem Inspect_complete_witness:
  "insp_Inspect (Inr (demoDocker [demoSummary ''a'' ''web'', demoSummary ''b'' ''db''])) demoDest
     = Inr [mapContainerToState (demoSummary ''a'' ''web'') demoDetail]
   \<and> (\<exists>e. insp_Inspect (Inr (demoDocker [demoSummary ''a'' ''web'', demoSummary ''gone'' ''web''])) demoDest = Inl e)"
proof -
  have served: "honours_filters (demoDocker cs) cs" for cs by (simp add: honours_filters_def demoDocker_def)
  have own: "projectContainers demoDest [demoSummary ''a'' ''web'', demoSummary ''b'' ''db''] = [demoSummary ''a'' ''web'']"
    "projectContainers demoDest [demoSummary ''a'' ''web'', demoSummary ''gone'' ''web''] = [demoSummary ''a'' ''web'', demoSummary ''gone'' ''web'']"
    by (simp_all add: projectContainers_def labelled_def demoSummary_def demoDest_def)
  show ?thesis
    using Inspect_complete [OF served, of "[demoSummary ''a'' ''web'', demoSummary ''b'' ''db'']" demoDest
        "[mapContainerToState (demoSummary ''a'' ''web'') demoDetail]"]
      Inspect_complete [OF served, of "[demoSummary ''a'' ''web'', demoSummary ''gone'' ''web'']" demoDest "[]"]
    unfolding own by (simp add: demoDocker_def demoSummary_def)
qed

theorem environment_read_back_witness:
  "map_of (lv_Environment (mapContainerToState (demoSummary ''a'' ''web'') demoDetail)) ''B'' = Some ''x=y''"
  using environment_read_back [of "[(''A'', ''1''), (''B'', ''x=y'')]" demoDetail "\<lparr>cg_Env = [''A=1'', ''B=x=y''], cg_Cmd = [], cg_Entrypoint = []\<rparr>"
      "demoSummary ''a'' ''web''" "''B''"]
  by (simp add: demoDetail_def)

definition demoCapacity :: CapacityClient where
  "demoCapacity = \<lparr>cp_Info = Inr (2, 1), cp_List = Inr [''a''], cp_Stats = (\<lambda>i. Inr ([], None)),
     cp_Unmarshal = (\<lambda>b. Inr \<lparr>sr_TotalUsage = 15, sr_SystemUsage = 30, sr_OnlineCPUs = 2\<rparr>)\<rparr>"

definition demoBaselines :: "capacityCounters gomap" where
  "demoBaselines = [(''a'', \<lparr>cc_total = 5, cc_system = 10, cc_online = 2, cc_observedAt = 0\<rparr>)]"

definition demoCapacityRun :: "CapacitySample result \<times> capacityCounters gomap" where
  "demoCapacityRun = insp_CapacitySample (Inr demoCapacity) (10 * Second) [(''a'', 11 * Second)] demoBaselines"

lemma demoCapacityRun_eval:
  "demoCapacityRun =
     (Inr \<lparr>sm_CPUCores = 2, sm_RunningContainers = 1, sm_EligibleContainers = 1, sm_ObservedContainers = 1, sm_usage = [(10, 20, 2)],
        sm_Completeness = ''complete''\<rparr>,
      [(''a'', \<lparr>cc_total = 15, cc_system = 30, cc_online = 2, cc_observedAt = 11 * Second\<rparr>)])"
  by (simp add: demoCapacityRun_def insp_CapacitySample_def demoCapacity_def demoBaselines_def capacityMaxContainers_def
      capacityResult_def capacityContainerStat_def decodeCapacityJSON_def capacityMaxBody_def pruneCapacityBaselines_def
      capacityBaselineTTL_def Let_def)

theorem complete_sample_is_complete_witness:
  "\<exists>stats previous. capacityContainerStat demoCapacity ''a'' = Some stats \<and> map_of demoBaselines ''a'' = Some previous
     \<and> unat (sr_TotalUsage stats - cc_total previous) = unat (sr_TotalUsage stats) - unat (cc_total previous)"
  using complete_sample_is_complete [OF demoCapacityRun_eval [unfolded demoCapacityRun_def], of "[''a'']" 2 1]
  by (simp add: demoCapacity_def demoBaselines_def) blast

end
