(* ===== verification/Webhook.thy ===== *)
theory Webhook
  imports Scheduler
begin

text \<open>
  The Git webhook (\<^verbatim>\<open>api/webhook.go\<close>): signature check, comparison of repository addresses, and the
  reconciliations it triggers. HMAC-SHA-256 and the decoder of the payload are parameters.
\<close>

section \<open>Signatures\<close>

text \<open>\<^verbatim>\<open>hex.DecodeString\<close>.\<close>

definition hexVal :: "char \<Rightarrow> nat option" where
  "hexVal c =
     (let n = of_char c :: nat
      in if 48 \<le> n \<and> n \<le> 57 then Some (n - 48)
         else if 97 \<le> n \<and> n \<le> 102 then Some (n - 87)
         else if 65 \<le> n \<and> n \<le> 70 then Some (n - 55)
         else None)"

fun hexDecode :: "string \<Rightarrow> string option" where
  "hexDecode [] = Some []"
| "hexDecode [c] = None"
| "hexDecode (c # d # cs) =
     (case (hexVal c, hexVal d) of
        (Some x, Some y) \<Rightarrow> map_option (Cons (char_of (16 * x + y))) (hexDecode cs)
      | _ \<Rightarrow> None)"

definition validateHMAC :: "(string \<Rightarrow> string \<Rightarrow> string) \<Rightarrow> string \<Rightarrow> string \<Rightarrow> string \<Rightarrow> bool" where
  "validateHMAC mac body signature secret =
     (if \<not> HasPrefix signature ''sha256='' then False
      else case hexDecode (TrimPrefix signature ''sha256='') of
             None \<Rightarrow> False
           | Some sig \<Rightarrow> sig = mac secret body)"

section \<open>Repository addresses\<close>

text \<open>\<^verbatim>\<open>strings.ToLower\<close> on ASCII.\<close>

definition lowerChar :: "char \<Rightarrow> char" where
  "lowerChar c = (if 65 \<le> (of_char c :: nat) \<and> (of_char c :: nat) \<le> 90 then char_of ((of_char c :: nat) + 32) else c)"

definition ToLower :: "string \<Rightarrow> string" where
  "ToLower s = map lowerChar s"

definition stripProtocol :: "string \<Rightarrow> string" where
  "stripProtocol u = fold (\<lambda>prefix u. TrimPrefix u prefix) [''https://'', ''http://'', ''git@'', ''ssh://''] u"

definition normalizeRepoURL :: "string \<Rightarrow> string" where
  "normalizeRepoURL u =
     (let u = stripProtocol (TrimSuffix (TrimSpace u) ''.git'');
          u = (case cut (CHR ''@'') u of None \<Rightarrow> u | Some (a, b) \<Rightarrow> b);
          u = (case cut (CHR '':'') u of None \<Rightarrow> u | Some (a, b) \<Rightarrow> a @ ''/'' @ b)
      in ToLower u)"

definition matchesRepo :: "string \<Rightarrow> string \<Rightarrow> bool" where
  "matchesRepo configuredURL webhookURL = (normalizeRepoURL configuredURL = normalizeRepoURL webhookURL)"

section \<open>The handler\<close>

text \<open>
  What the handler reads: the body or the error of reading it, and the two signature headers (empty when
  absent); the secret, and the decoder, which gives the clone and the HTML address of the repository.
\<close>

record WebhookEnv =
  we_env :: Env
  we_secret :: string
  we_mac :: "string \<Rightarrow> string \<Rightarrow> string"
  we_decode :: "string \<Rightarrow> (string \<times> string) result"

record WebhookRequest =
  wr_body :: "string result"
  wr_hubSignature :: string
  wr_giteaSignature :: string

datatype WebhookResponse = WebhookError nat err | WebhookOK nat

definition signatureOf :: "WebhookRequest \<Rightarrow> string" where
  "signatureOf r =
     (if wr_hubSignature r = [] then (if wr_giteaSignature r \<noteq> [] then ''sha256='' @ wr_giteaSignature r else [])
      else wr_hubSignature r)"

definition matchesRecord :: "Env \<Rightarrow> string \<Rightarrow> ApplicationRecord \<Rightarrow> bool" where
  "matchesRecord env repoURL appRec =
     (case unmarshalApp (e_codec env) (ar_Manifest appRec) of
        Inl e \<Rightarrow> False
      | Inr application \<Rightarrow> matchesRepo (RepoURL (appSource application)) repoURL)"

fun triggerMatching :: "Env \<Rightarrow> string \<Rightarrow> ApplicationRecord list \<Rightarrow> nat \<Rightarrow> 's SState_scheme \<Rightarrow> nat \<times> 's SState_scheme" where
  "triggerMatching env repoURL [] n s = (n, s)"
| "triggerMatching env repoURL (appRec # apps) n s =
     (if matchesRecord env repoURL appRec then triggerMatching env repoURL apps (Suc n) (TriggerReconcile (ar_Name appRec) s)
      else triggerMatching env repoURL apps n s)"

definition HandleGitWebhook :: "WebhookEnv \<Rightarrow> WebhookRequest \<Rightarrow> 's SState_scheme \<Rightarrow> WebhookResponse \<times> 's SState_scheme" where
  "HandleGitWebhook we r s =
     (case wr_body r of
        Inl e \<Rightarrow> (WebhookError 400 (Wrapf ''reading body: %v'' [] e), s)
      | Inr body \<Rightarrow>
          if we_secret we = [] then (WebhookError 503 (Errorf ''webhook secret is not configured'' []), s)
          else if \<not> validateHMAC (we_mac we) body (signatureOf r) (we_secret we) then (WebhookError 401 (Errorf ''invalid signature'' []), s)
          else case we_decode we body of
                 Inl e \<Rightarrow> (WebhookError 400 (Wrapf ''invalid payload: %v'' [] e), s)
               | Inr (cloneURL, htmlURL) \<Rightarrow>
                   (let repoURL = (if cloneURL = [] then htmlURL else cloneURL)
                    in if repoURL = [] then (WebhookError 400 (Errorf ''no repository URL in payload'' []), s)
                       else case ListApplications (we_env we) s of
                              (Inl e, s) \<Rightarrow> (WebhookError 500 (Wrapf ''listing apps: %v'' [] e), s)
                            | (Inr apps, s) \<Rightarrow>
                                (case triggerMatching (we_env we) repoURL apps 0 s of (triggered, s) \<Rightarrow> (WebhookOK triggered, s))))"

section \<open>Spellings of an address\<close>

lemma ToLower_append [simp]: "ToLower (a @ b) = ToLower a @ ToLower b"
  by (simp add: ToLower_def)

text \<open>The addresses under which a host serves one repository, with and without a user and a suffix.\<close>

definition spellings :: "string \<Rightarrow> string \<Rightarrow> string \<Rightarrow> string list" where
  "spellings user host path =
     [''https://'' @ host @ ''/'' @ path, ''https://'' @ host @ ''/'' @ path @ ''.git'',
      ''http://'' @ host @ ''/'' @ path, ''https://'' @ user @ ''@'' @ host @ ''/'' @ path @ ''.git'',
      ''git@'' @ host @ '':'' @ path @ ''.git'', ''git@'' @ host @ '':'' @ path,
      ''ssh://'' @ user @ ''@'' @ host @ ''/'' @ path @ ''.git'', ''ssh://'' @ host @ ''/'' @ path]"

definition plainAddress :: "string \<Rightarrow> string \<Rightarrow> string \<Rightarrow> bool" where
  "plainAddress user host path =
     (list_all (\<lambda>c. c \<notin> set host) ''@:/'' \<and> list_all (\<lambda>c. c \<notin> set path) ''@:'' \<and> list_all (\<lambda>c. c \<notin> set user) ''@/''
      \<and> list_all (\<lambda>c. \<not> isSpace c) (user @ host @ path)
      \<and> path \<noteq> [] \<and> hd path \<noteq> CHR ''/'' \<and> \<not> HasSuffix path ''.git'')"

lemma HasPrefix_mem: "HasPrefix s p \<Longrightarrow> c \<in> set p \<Longrightarrow> c \<in> set s"
  by (auto simp: HasPrefix_iff)

lemma TrimPrefix_none: "c \<in> set p \<Longrightarrow> c \<notin> set s \<Longrightarrow> TrimPrefix s p = s"
  by (auto simp: TrimPrefix_def dest: HasPrefix_mem)

lemma HasPrefix_sep:
  assumes "HasPrefix (a @ c # b) (p @ c # q)" "c \<notin> set a" "c \<notin> set p"
  shows "a = p \<and> HasPrefix b q"
proof -
  from assms(1) obtain t where "a @ c # b = p @ c # (q @ t)" by (auto simp: HasPrefix_iff)
  then have "cut c (a @ c # b) = cut c (p @ c # (q @ t))" by simp
  then show ?thesis using assms(2,3) by simp
qed

lemma HasPrefix_before: "HasPrefix (a @ d # b) p \<Longrightarrow> d \<notin> set p \<Longrightarrow> HasPrefix a p"
  by (auto simp: HasPrefix_iff append_eq_append_conv2 Cons_eq_append_conv)

lemma HasSuffix_after: "c \<notin> set suf \<Longrightarrow> HasSuffix (a @ c # b) suf \<longleftrightarrow> HasSuffix b suf"
  using HasPrefix_before [of "rev b" c "rev a" "rev suf"] by (auto simp: HasSuffix_def HasPrefix_iff)

lemma dropWhile_nospace: "\<forall>c\<in>set s. \<not> isSpace c \<Longrightarrow> dropWhile isSpace s = s"
  by (cases s) auto

lemma TrimSpace_nospace: "\<forall>c\<in>set s. \<not> isSpace c \<Longrightarrow> TrimSpace s = s"
  by (simp add: TrimSpace_def dropWhile_nospace)

section \<open>Spellings agree\<close>

lemma stripProtocol_eq:
  "stripProtocol u = TrimPrefix (TrimPrefix (TrimPrefix (TrimPrefix u ''https://'') ''http://'') ''git@'') ''ssh://''"
  by (simp add: stripProtocol_def)

lemma strip_known:
  "TrimPrefix (''https://'' @ s) ''https://'' = s" "TrimPrefix (''http://'' @ s) ''http://'' = s"
  "TrimPrefix (''git@'' @ s) ''git@'' = s" "TrimPrefix (''ssh://'' @ s) ''ssh://'' = s"
  "TrimPrefix (''http://'' @ s) ''https://'' = ''http://'' @ s" "TrimPrefix (''ssh://'' @ s) ''https://'' = ''ssh://'' @ s"
  "TrimPrefix (''ssh://'' @ s) ''http://'' = ''ssh://'' @ s" "TrimPrefix (''ssh://'' @ s) ''git@'' = ''ssh://'' @ s"
  "TrimPrefix (''git@'' @ s) ''https://'' = ''git@'' @ s" "TrimPrefix (''git@'' @ s) ''http://'' = ''git@'' @ s"
  by (simp_all add: TrimPrefix_def HasPrefix_def)

lemma strip_none:
  assumes "CHR '':'' \<notin> set s" "CHR ''@'' \<notin> set s"
  shows "TrimPrefix s ''https://'' = s" "TrimPrefix s ''http://'' = s" "TrimPrefix s ''git@'' = s" "TrimPrefix s ''ssh://'' = s"
proof -
  have "TrimPrefix s p = s" if "CHR '':'' \<in> set p \<or> CHR ''@'' \<in> set p" for p using that assms TrimPrefix_none by blast
  then show "TrimPrefix s ''https://'' = s" "TrimPrefix s ''http://'' = s" "TrimPrefix s ''git@'' = s" "TrimPrefix s ''ssh://'' = s" by simp_all
qed

lemma strip_user:
  assumes "CHR ''@'' \<notin> set user" "CHR ''/'' \<notin> set user"
  shows "TrimPrefix (user @ ''@'' @ s) ''http://'' = user @ ''@'' @ s" "TrimPrefix (user @ ''@'' @ s) ''ssh://'' = user @ ''@'' @ s"
    "TrimPrefix (user @ ''@'' @ s) ''git@'' = (if user = ''git'' then s else user @ ''@'' @ s)"
proof -
  have "\<not> HasPrefix (user @ CHR ''@'' # s) p" if "CHR ''@'' \<notin> set p" "CHR ''/'' \<in> set p" for p
    using that assms(2) HasPrefix_before [of user "CHR ''@''" s p] HasPrefix_mem by blast
  then show "TrimPrefix (user @ ''@'' @ s) ''http://'' = user @ ''@'' @ s" "TrimPrefix (user @ ''@'' @ s) ''ssh://'' = user @ ''@'' @ s"
    by (auto simp: TrimPrefix_def)
  show "TrimPrefix (user @ ''@'' @ s) ''git@'' = (if user = ''git'' then s else user @ ''@'' @ s)"
  proof (cases "user = ''git''")
    case False
    then have "\<not> HasPrefix (user @ ''@'' @ s) ''git@''" using HasPrefix_sep [of user "CHR ''@''" s "''git''" "[]"] assms(1) by auto
    with False show ?thesis by (simp add: TrimPrefix_def)
  qed (simp add: TrimPrefix_def HasPrefix_def)
qed

lemma normalize_via:
  assumes "\<forall>c\<in>set u. \<not> isSpace c" "TrimSuffix u ''.git'' = v" "stripProtocol v = x"
    and "(case cut (CHR ''@'') x of None \<Rightarrow> x | Some (a, b) \<Rightarrow> b) = y"
    and "(case cut (CHR '':'') y of None \<Rightarrow> y | Some (a, b) \<Rightarrow> a @ ''/'' @ b) = z"
  shows "normalizeRepoURL u = ToLower z"
  unfolding normalizeRepoURL_def Let_def TrimSpace_nospace [OF assms(1)] assms(2-5) ..

lemma normalize_plain:
  assumes "plainAddress user host path" "u \<in> set (spellings user host path)"
  shows "normalizeRepoURL u = ToLower (host @ ''/'' @ path)"
proof -
  let ?s = "host @ ''/'' @ path" and ?g = "host @ '':'' @ path"
  have chars: "CHR '':'' \<notin> set ?s" "CHR ''@'' \<notin> set ?s" "CHR ''@'' \<notin> set user" "CHR ''/'' \<notin> set user" "CHR '':'' \<notin> set host" "CHR ''@'' \<notin> set ?g"
    using assms(1) by (simp_all add: plainAddress_def)
  have "list_all (\<lambda>c. \<not> isSpace c) host" "list_all (\<lambda>c. \<not> isSpace c) path" "list_all (\<lambda>c. \<not> isSpace c) user"
    using assms(1) by (simp_all add: plainAddress_def)
  moreover have "list_all (\<lambda>c. \<not> isSpace c) ''htps:/@gi.''" by code_simp
  ultimately have "\<forall>v\<in>set (spellings user host path). list_all (\<lambda>c. \<not> isSpace c) v" by (simp add: spellings_def)
  with assms(2) have nosp: "\<forall>c\<in>set u. \<not> isSpace c" by (simp add: list_all_iff)
  have suf: "TrimSuffix (a @ c # path) ''.git'' = a @ c # path" if "c \<notin> set ''.git''" for a c
    using assms(1) that HasSuffix_after [of c "''.git''" a path] by (simp add: TrimSuffix_def plainAddress_def)
  have ssh: "TrimPrefix ?g ''ssh://'' = ?g"
    using HasPrefix_sep [of host "CHR '':''" path "''ssh''" "''//''"] chars assms(1)
    by (auto simp: TrimPrefix_def plainAddress_def HasPrefix_iff)
  have ends: "(case cut (CHR ''@'') ?s of None \<Rightarrow> ?s | Some (a, b) \<Rightarrow> b) = ?s" "(case cut (CHR '':'') ?s of None \<Rightarrow> ?s | Some (a, b) \<Rightarrow> a @ ''/'' @ b) = ?s"
    "(case cut (CHR ''@'') ?g of None \<Rightarrow> ?g | Some (a, b) \<Rightarrow> b) = ?g" "(case cut (CHR '':'') ?g of None \<Rightarrow> ?g | Some (a, b) \<Rightarrow> a @ ''/'' @ b) = ?s"
    "(case cut (CHR ''@'') (user @ ''@'' @ ?s) of None \<Rightarrow> user @ ''@'' @ ?s | Some (a, b) \<Rightarrow> b) = ?s"
    using chars cut_None [of "CHR ''@''" ?s] cut_None [of "CHR '':''" ?s] cut_None [of "CHR ''@''" ?g] by simp_all
  have strip: "stripProtocol (''https://'' @ ?s) = ?s" "stripProtocol (''http://'' @ ?s) = ?s" "stripProtocol (''ssh://'' @ ?s) = ?s"
    "stripProtocol (''git@'' @ ?g) = ?g" "stripProtocol (''ssh://'' @ user @ ''@'' @ ?s) = user @ ''@'' @ ?s"
    "stripProtocol (''https://'' @ user @ ''@'' @ ?s) = (if user = ''git'' then ?s else user @ ''@'' @ ?s)"
    unfolding stripProtocol_eq using strip_none [OF chars(1,2)] strip_user [OF chars(3,4), of ?s] ssh
    by (simp_all only: strip_known split: if_split) auto
  have "u \<in> {''https://'' @ ?s, (''https://'' @ ?s) @ ''.git'', ''http://'' @ ?s, (''https://'' @ user @ ''@'' @ ?s) @ ''.git'', (''git@'' @ ?g) @ ''.git'',
      ''git@'' @ ?g, (''ssh://'' @ user @ ''@'' @ ?s) @ ''.git'', ''ssh://'' @ ?s}"
    using assms(2) by (simp add: spellings_def)
  moreover have "TrimSuffix (p @ ?s) ''.git'' = p @ ?s" "TrimSuffix (p @ ?g) ''.git'' = p @ ?g" for p
    using suf [of "CHR ''/''" "p @ host"] suf [of "CHR '':''" "p @ host"] by simp_all
  ultimately obtain v where v: "TrimSuffix u ''.git'' = v" "v \<in> {''https://'' @ ?s, ''http://'' @ ?s, ''https://'' @ user @ ''@'' @ ?s, ''git@'' @ ?g,
      ''ssh://'' @ user @ ''@'' @ ?s, ''ssh://'' @ ?s}"
    using TrimSuffix_append by blast
  then have "stripProtocol v \<in> {?s, ?g, user @ ''@'' @ ?s}" using strip by (cases "user = ''git''") auto
  then consider "stripProtocol v = ?s" | "stripProtocol v = ?g" | "stripProtocol v = user @ ''@'' @ ?s" by blast
  then show ?thesis
    by cases (rule normalize_via [OF nosp v(1) _ ends(1,2)] normalize_via [OF nosp v(1) _ ends(3,4)] normalize_via [OF nosp v(1) _ ends(5,2)], assumption)+
qed

text \<open>
  The address of a pushed repository matches a configured one whichever way each is written: over
  HTTPS, HTTP, SSH or the short SSH form, with or without user information and the suffix \<^verbatim>\<open>.git\<close>, in any case.
\<close>

theorem matchesRepo_spellings:
  assumes "plainAddress user host path" "plainAddress user' host' path'" "ToLower host = ToLower host'" "ToLower path = ToLower path'"
  shows "\<forall>u\<in>set (spellings user host path). \<forall>v\<in>set (spellings user' host' path'). matchesRepo u v"
  using assms normalize_plain [OF assms(1)] normalize_plain [OF assms(2)] by (simp add: matchesRepo_def ToLower_def)

theorem matchesRepo_spellings_witness:
  "matchesRepo ''git@github.com:acme/infra.git'' ''https://ci:pw@GitHub.com/acme/infra.git''"
proof -
  have "plainAddress ''git'' ''github.com'' ''acme/infra''" "plainAddress ''ci:pw'' ''GitHub.com'' ''acme/infra''"
    "ToLower ''github.com'' = ToLower ''GitHub.com''" "ToLower ''acme/infra'' = ToLower ''acme/infra''" by code_simp+
  from matchesRepo_spellings [OF this] show ?thesis by (simp add: spellings_def)
qed

section \<open>What a webhook triggers\<close>

lemma triggerMatching_spec:
  assumes "length (s_trigger s) \<le> triggerCap"
  shows "triggerMatching env repoURL apps n s =
    (n + length (filter (matchesRecord env repoURL) apps),
     s\<lparr>s_trigger := s_trigger s @ take (triggerCap - length (s_trigger s)) (map ar_Name (filter (matchesRecord env repoURL) apps))\<rparr>)"
  using assms
proof (induction apps arbitrary: n s)
  case (Cons a apps)
  show ?case
  proof (cases "matchesRecord env repoURL a \<and> length (s_trigger s) < triggerCap")
    case True
    then have "length (s_trigger (TriggerReconcile (ar_Name a) s)) \<le> triggerCap" by (simp add: TriggerReconcile_def)
    moreover obtain m where "triggerCap - length (s_trigger s) = Suc m" "triggerCap - Suc (length (s_trigger s)) = m"
      using True by (cases "triggerCap - length (s_trigger s)") auto
    ultimately show ?thesis using Cons.IH [of "TriggerReconcile (ar_Name a) s"] True by (simp add: TriggerReconcile_def)
  next
    case False
    then show ?thesis using Cons.IH [OF Cons.prems] Cons.prems by (auto simp: TriggerReconcile_def)
  qed
qed simp

lemma ListApplications_form:
  "ListApplications env s = (r, s') \<Longrightarrow> (\<exists>t. s' = s\<lparr>w_trace := t\<rparr>) \<and> (\<forall>apps. r = Inr apps \<longrightarrow> apps = orderApplications (db_apps (w_db s)))"
  by (auto simp: ListApplications_def wrapErr_def exec_def split: option.splits)

text \<open>
  A webhook is obeyed only when it is signed: it triggers nothing unless the secret is set and the
  signature header is the MAC of the body under it. A signed push triggers, in the order of the list of
  applications, those whose manifest names the pushed repository, as many as the trigger channel has room
  for, and changes nothing else; the number it reports counts all of them, the dropped ones included.
\<close>

theorem webhook_triggers_matching:
  assumes "HandleGitWebhook we r s = (resp, s')" "length (s_trigger s) \<le> 16"
  shows "\<exists>t. (case resp of
       WebhookError code e \<Rightarrow> s' = s\<lparr>w_trace := t\<rparr>
     | WebhookOK n \<Rightarrow>
         \<exists>body repoURL. wr_body r = Inr body \<and> we_secret we \<noteq> []
           \<and> hexDecode (TrimPrefix (signatureOf r) ''sha256='') = Some (we_mac we (we_secret we) body)
           \<and> (\<exists>c h. we_decode we body = Inr (c, h) \<and> repoURL \<in> {c, h} \<and> repoURL \<noteq> [])
           \<and> (let hits = filter (matchesRecord (we_env we) repoURL) (orderApplications (db_apps (w_db s)))
              in n = length hits
                 \<and> s' = s\<lparr>w_trace := t, s_trigger := s_trigger s @ take (16 - length (s_trigger s)) (map ar_Name hits)\<rparr>))"
proof (cases resp)
  case (WebhookError code e)
  then show ?thesis
    using assms(1) exI [of _ "w_trace s"]
    by (auto simp: HandleGitWebhook_def Let_def dest!: ListApplications_form split: sum.splits if_splits prod.splits)
next
  case (WebhookOK n)
  then obtain body c h s1 apps where h: "wr_body r = Inr body" "we_secret we \<noteq> []" "validateHMAC (we_mac we) body (signatureOf r) (we_secret we)"
    "we_decode we body = Inr (c, h)" "(if c = [] then h else c) \<noteq> []" "ListApplications (we_env we) s = (Inr apps, s1)"
    "triggerMatching (we_env we) (if c = [] then h else c) apps 0 s1 = (n, s')"
    using assms(1) by (auto simp: HandleGitWebhook_def Let_def split: sum.splits if_splits prod.splits)
  from ListApplications_form [OF h(6)] obtain t where s1: "s1 = s\<lparr>w_trace := t\<rparr>" and apps: "apps = orderApplications (db_apps (w_db s))" by auto
  have cap: "length (s_trigger s1) \<le> triggerCap" using assms(2) s1 by (simp add: triggerCap_def)
  have "hexDecode (TrimPrefix (signatureOf r) ''sha256='') = Some (we_mac we (we_secret we) body)"
    using h(3) by (auto simp: validateHMAC_def split: if_splits option.splits)
  moreover have "n = length (filter (matchesRecord (we_env we) (if c = [] then h else c)) apps)"
    "s' = s\<lparr>w_trace := t, s_trigger := s_trigger s @ take (16 - length (s_trigger s))
        (map ar_Name (filter (matchesRecord (we_env we) (if c = [] then h else c)) apps))\<rparr>"
    using h(7) triggerMatching_spec [OF cap, of "we_env we" "if c = [] then h else c" apps 0] s1 by (auto simp: triggerCap_def)
  moreover have "(if c = [] then h else c) \<in> {c, h}" by simp
  ultimately show ?thesis
    unfolding WebhookOK WebhookResponse.case Let_def using h(1,2,4,5) apps by blast
qed

definition demoWebhook :: WebhookEnv where
  "demoWebhook = \<lparr>we_env = demoEnv (\<lambda>c p. []) [], we_secret = ''k'', we_mac = (\<lambda>k b. ''AB''),
     we_decode = (\<lambda>b. Inr (''git@git.example.com:infra.git'', []))\<rparr>"

definition demoPush :: WebhookRequest where
  "demoPush = \<lparr>wr_body = Inr ''{}'', wr_hubSignature = [], wr_giteaSignature = ''4142''\<rparr>"

theorem webhook_triggers_matching_witness:
  "fst (HandleGitWebhook demoWebhook demoPush ((demoSched [])\<lparr>w_db := \<lparr>db_apps = [demoRecord], db_syncs = [], db_events = [], db_hosts = []\<rparr>\<rparr>)) = WebhookOK 1
   \<and> s_trigger (snd (HandleGitWebhook demoWebhook demoPush ((demoSched [])\<lparr>w_db := \<lparr>db_apps = [demoRecord], db_syncs = [], db_events = [], db_hosts = []\<rparr>\<rparr>))) = [''web'']"
proof -
  let ?s = "(demoSched [])\<lparr>w_db := \<lparr>db_apps = [demoRecord], db_syncs = [], db_events = [], db_hosts = []\<rparr>\<rparr>"
  have ok: "fst (HandleGitWebhook demoWebhook demoPush ?s) = WebhookOK 1" by code_simp
  then obtain s' where h: "HandleGitWebhook demoWebhook demoPush ?s = (WebhookOK 1, s')" by (metis prod.collapse)
  have "length (s_trigger ?s) \<le> 16" by (simp add: demoSched_def)
  from webhook_triggers_matching [OF h this] obtain t url where
    "url \<noteq> []" "(\<exists>c h. we_decode demoWebhook ''{}'' = Inr (c, h) \<and> url \<in> {c, h})"
    and s': "1 = length (filter (matchesRecord (we_env demoWebhook) url) (orderApplications (db_apps (w_db ?s))))"
      "s' = ?s\<lparr>w_trace := t, s_trigger := s_trigger ?s @ take (16 - length (s_trigger ?s)) (map ar_Name (filter (matchesRecord (we_env demoWebhook) url) (orderApplications (db_apps (w_db ?s)))))\<rparr>"
    by (auto simp: Let_def demoPush_def)
  moreover have "orderApplications (db_apps (w_db ?s)) = [demoRecord]" by (simp add: orderApplications_def demoRecord_def)
  ultimately have "s_trigger s' = [''web'']" by (auto simp: demoSched_def demoRecord_def split: if_splits)
  with h show ?thesis by simp
qed

end
