(* ===== verification/Presentation.thy ===== *)
theory Presentation
  imports Store
begin

text \<open>
  The scoped presentation interface (\<^verbatim>\<open>api/presentation_auth.go\<close>, \<^verbatim>\<open>api/presentation_registry.go\<close>, the
  \<^verbatim>\<open>/api/v1/presentation\<close> routes of \<^verbatim>\<open>api/server.go\<close> and their handlers in \<^verbatim>\<open>api/handlers.go\<close>) over the store.
  The SHA-256 digest of a token is a parameter. Times in responses are the times themselves, and the
  time at which a response was generated is left out of it.
\<close>

section \<open>Credentials\<close>

definition validCapabilities :: "string list" where
  "validCapabilities = [''fleet:read'', ''application:read'', ''logs:read'', ''application:sync'', ''application:write'', ''application:delete'',
     ''controller:admin'', ''controller:status'', ''capacity:read'']"

definition maxPresentationApplicationGrants :: nat where
  "maxPresentationApplicationGrants = 100"

record Principal =
  pr_Subject :: string
  pr_CredentialID :: string
  pr_Audience :: string
  pr_IssuedAt :: time
  pr_ExpiresAt :: time
  pr_capabilities :: "string list"
  pr_applications :: "string list"

definition Allows :: "Principal \<Rightarrow> string \<Rightarrow> string \<Rightarrow> bool" where
  "Allows p capability application =
     (capability \<in> set (pr_capabilities p)
      \<and> (application = [] \<or> ''*'' \<in> set (pr_applications p) \<or> application \<in> set (pr_applications p)))"

text \<open>The sets of a principal are lists without repetition; listing them sorts them.\<close>

definition principal_Capabilities :: "Principal \<Rightarrow> string list" where
  "principal_Capabilities p = sort (remdups (pr_capabilities p))"

definition principal_Applications :: "Principal \<Rightarrow> string list" where
  "principal_Applications p = sort (remdups (pr_applications p))"

text \<open>\<open>None\<close> is the zero time.\<close>

record PresentationCredential =
  pc_TokenDigest :: string
  pc_CredentialID :: string
  pc_Subject :: string
  pc_Audience :: string
  pc_IssuedAt :: "time option"
  pc_ExpiresAt :: "time option"
  pc_Capabilities :: "string list"
  pc_Applications :: "string list"
  pc_Revoked :: bool

definition requiresApplicationGrant :: "string list \<Rightarrow> bool" where
  "requiresApplicationGrant capabilities =
     list_ex (\<lambda>c. c \<in> set [''fleet:read'', ''application:read'', ''logs:read'', ''application:sync'', ''application:write'', ''application:delete'']) capabilities"

definition trimCredential :: "PresentationCredential \<Rightarrow> PresentationCredential" where
  "trimCredential c = c\<lparr>pc_CredentialID := TrimSpace (pc_CredentialID c), pc_Subject := TrimSpace (pc_Subject c), pc_Audience := TrimSpace (pc_Audience c)\<rparr>"

definition validPeriod :: "PresentationCredential \<Rightarrow> bool" where
  "validPeriod c = (case (pc_IssuedAt c, pc_ExpiresAt c) of (Some i, Some x) \<Rightarrow> x > i | _ \<Rightarrow> False)"

definition credentialErr :: "nat \<Rightarrow> PresentationCredential \<Rightarrow> PresentationCredential list \<Rightarrow> err option" where
  "credentialErr index c before =
     (if pc_CredentialID c = [] \<or> pc_Subject c = [] \<or> pc_Audience c = []
      then Some (Errorf ''presentation credential %d requires id, subject, and audience'' [Itoa index])
      else if \<not> validPeriod c then Some (Errorf ''presentation credential %q has invalid validity'' [pc_CredentialID c])
      else if pc_Capabilities c = [] then Some (Errorf ''presentation credential %q has no capabilities'' [pc_CredentialID c])
      else if length (pc_Applications c) > maxPresentationApplicationGrants
      then Some (Errorf ''presentation credential %q exceeds %d application grants'' [pc_CredentialID c, Itoa maxPresentationApplicationGrants])
      else case find (\<lambda>x. x \<notin> set validCapabilities) (pc_Capabilities c) of
        Some x \<Rightarrow> Some (Errorf ''presentation credential %q has unknown capability %q'' [pc_CredentialID c, x])
      | None \<Rightarrow>
          (case find (\<lambda>a. TrimSpace a = [] \<or> TrimSpace a = ''*'') (pc_Applications c) of
             Some a \<Rightarrow> Some (Errorf (if TrimSpace a = [] then ''presentation credential %q has an empty application grant''
                                     else ''presentation credential %q must name explicit application grants'') [pc_CredentialID c])
           | None \<Rightarrow>
               (if requiresApplicationGrant (pc_Capabilities c) \<and> pc_Applications c = []
                then Some (Errorf ''presentation credential %q requires at least one application grant'' [pc_CredentialID c])
                else if pc_CredentialID c \<in> pc_CredentialID ` set before
                then Some (Errorf ''duplicate presentation credential id %q'' [pc_CredentialID c])
                else if pc_TokenDigest c \<in> pc_TokenDigest ` set before
                then Some (Errorf ''duplicate presentation credential digest'' [])
                else None)))"

fun checkCredentials :: "PresentationCredential list \<Rightarrow> PresentationCredential list \<Rightarrow> PresentationCredential list result" where
  "checkCredentials before [] = Inr before"
| "checkCredentials before (c # cs) =
     (let c = trimCredential c
      in case credentialErr (length before) c before of
           Some e \<Rightarrow> Inl e
         | None \<Rightarrow> checkCredentials (before @ [c]) cs)"

definition NewOpaquePresentationAuthenticator :: "PresentationCredential list \<Rightarrow> PresentationCredential list result" where
  "NewOpaquePresentationAuthenticator credentials = checkCredentials [] credentials"

definition invalidCredential :: err where
  "invalidCredential = Errorf ''invalid presentation credential'' []"

text \<open>The last credential with the digest of the token is the one that counts.\<close>

definition AuthenticatePresentation :: "(string \<Rightarrow> string) \<Rightarrow> PresentationCredential list \<Rightarrow> time \<Rightarrow> string \<Rightarrow> Principal result" where
  "AuthenticatePresentation digest credentials now token =
     (if TrimSpace token = [] then Inl invalidCredential
      else case find (\<lambda>c. pc_TokenDigest c = digest token) (rev credentials) of
             None \<Rightarrow> Inl invalidCredential
           | Some c \<Rightarrow>
               (case (pc_IssuedAt c, pc_ExpiresAt c) of
                  (Some issued, Some expires) \<Rightarrow>
                    (if pc_Revoked c \<or> now < issued \<or> \<not> now < expires then Inl invalidCredential
                     else Inr \<lparr>pr_Subject = pc_Subject c, pr_CredentialID = pc_CredentialID c, pr_Audience = pc_Audience c,
                            pr_IssuedAt = issued, pr_ExpiresAt = expires, pr_capabilities = pc_Capabilities c, pr_applications = pc_Applications c\<rparr>)
                | _ \<Rightarrow> Inl invalidCredential))"

section \<open>Routes\<close>

datatype Route = GetPermissions | GetPresentationCapabilities | GetController | GetFleet | GetPresentationApplication string | GetActivity string

datatype Response =
    Error nat string
  | PermissionsResponse string string string time "string list" "string list"
  | CapabilitiesResponse "string list" time nat
  | ControllerResponse bool
  | FleetResponse "(ApplicationStatusSummary \<times> string) list"
  | ApplicationResponse ApplicationStatusSummary string
  | ActivityResponse "ActivityMetadata list"

definition healthText :: "HealthStatus \<Rightarrow> string" where
  "healthText h = (case h of Healthy \<Rightarrow> ''Healthy'' | Progressing \<Rightarrow> ''Progressing'' | Degraded \<Rightarrow> ''Degraded'' | HealthUnknown \<Rightarrow> ''Unknown'' | HealthOther s \<Rightarrow> s)"

definition presentationObservationCompleteness :: "HealthStatus option \<Rightarrow> time option \<Rightarrow> string" where
  "presentationObservationCompleteness status observedAt =
     (if (case status of None \<Rightarrow> False | Some h \<Rightarrow> TrimSpace (healthText h) \<noteq> []) \<and> observedAt \<noteq> None then ''complete'' else ''unavailable'')"

definition queryInt :: "string \<Rightarrow> int \<Rightarrow> int" where
  "queryInt v defaultVal = (if v = [] then defaultVal else case Atoi v of None \<Rightarrow> defaultVal | Some n \<Rightarrow> if n < 1 then defaultVal else n)"

definition PresentationPermissions :: "Principal \<Rightarrow> Response" where
  "PresentationPermissions p = PermissionsResponse (pr_Subject p) (pr_CredentialID p) (pr_Audience p) (pr_ExpiresAt p)
     (principal_Capabilities p) (principal_Applications p)"

definition PresentationCapabilities :: "Principal \<Rightarrow> Response" where
  "PresentationCapabilities p = CapabilitiesResponse
     ([''presentation.permissions'']
      @ (if Allows p ''fleet:read'' [] then [''presentation.fleet''] else [])
      @ (if Allows p ''application:read'' [] then [''presentation.application'', ''presentation.activity''] else [])
      @ (if Allows p ''controller:status'' [] then [''presentation.controller''] else [])
      @ (if Allows p ''capacity:read'' [] then [''presentation.capacity''] else [])
      @ (if Allows p ''fleet:read'' [] \<or> Allows p ''application:read'' [] then [''presentation.status-metadata''] else []))
     (pr_ExpiresAt p) maxPresentationApplicationGrants"

definition CheckReadiness :: "Env \<Rightarrow> 'w World_scheme \<Rightarrow> err option \<times> 'w World_scheme" where
  "CheckReadiness env w = (case exec env ''SELECT 1'' (\<lambda>db. (Inr (), db)) w of (Inl e, w) \<Rightarrow> (Some e, w) | (Inr x, w) \<Rightarrow> (None, w))"

definition PresentationController :: "Env \<Rightarrow> Principal \<Rightarrow> 'w World_scheme \<Rightarrow> Response \<times> 'w World_scheme" where
  "PresentationController env p w =
     (if \<not> Allows p ''controller:status'' [] then (Error 403 ''missing required capability'', w)
      else case CheckReadiness env w of (e, w) \<Rightarrow> (ControllerResponse (e = None), w))"

definition summaryOf :: "ApplicationStatusSummary \<Rightarrow> ApplicationStatusSummary \<times> string" where
  "summaryOf a = (a, presentationObservationCompleteness (sum_LastObservedHealthStatus a) (sum_LastObservationTime a))"

fun fleetSummaries :: "Env \<Rightarrow> Principal \<Rightarrow> string list \<Rightarrow> 'w World_scheme \<Rightarrow> (ApplicationStatusSummary \<times> string) list option \<times> 'w World_scheme" where
  "fleetSummaries env p [] w = (Some [], w)"
| "fleetSummaries env p (name # names) w =
     (case GetApplicationStatusSummary env name w of
        (Inl e, w) \<Rightarrow> (None, w)
      | (Inr None, w) \<Rightarrow> fleetSummaries env p names w
      | (Inr (Some a), w) \<Rightarrow>
          (case fleetSummaries env p names w of
             (None, w) \<Rightarrow> (None, w)
           | (Some rest, w) \<Rightarrow> (Some (if Allows p ''fleet:read'' (sum_Name a) then summaryOf a # rest else rest), w)))"

definition PresentationFleet :: "Env \<Rightarrow> Principal \<Rightarrow> 'w World_scheme \<Rightarrow> Response \<times> 'w World_scheme" where
  "PresentationFleet env p w =
     (if \<not> Allows p ''fleet:read'' [] then (Error 403 ''missing required capability'', w)
      else case fleetSummaries env p (principal_Applications p) w of
             (None, w) \<Rightarrow> (Error 500 ''reading authorized application summary'', w)
           | (Some summaries, w) \<Rightarrow> (FleetResponse summaries, w))"

definition PresentationApplication :: "Env \<Rightarrow> Principal \<Rightarrow> string \<Rightarrow> 'w World_scheme \<Rightarrow> Response \<times> 'w World_scheme" where
  "PresentationApplication env p name w =
     (if \<not> Allows p ''application:read'' name then (Error 404 ''application not found'', w)
      else case GetApplicationStatusSummary env name w of
             (Inl e, w) \<Rightarrow> (Error 500 ''reading authorized application'', w)
           | (Inr None, w) \<Rightarrow> (Error 404 ''application not found'', w)
           | (Inr (Some a), w) \<Rightarrow> (case summaryOf a of (s, c) \<Rightarrow> (ApplicationResponse s c, w)))"

definition PresentationActivity :: "Env \<Rightarrow> Principal \<Rightarrow> string \<Rightarrow> 'w World_scheme \<Rightarrow> Response \<times> 'w World_scheme" where
  "PresentationActivity env p limitParam w =
     (if \<not> Allows p ''application:read'' [] then (Error 403 ''missing required capability'', w)
      else let limit = queryInt limitParam 50; limit = (if limit < 1 then 1 else limit); limit = (if limit > 100 then 100 else limit)
           in case ListEventsForApplications env (principal_Applications p) limit w of
                (Inl e, w) \<Rightarrow> (Error 500 ''reading authorized activity'', w)
              | (Inr events, w) \<Rightarrow> (ActivityResponse events, w))"

text \<open>\<^verbatim>\<open>strings.Count(authorization, "Bearer ")\<close>: occurrences that do not overlap.\<close>

function countSub :: "string \<Rightarrow> string \<Rightarrow> nat" where
  "countSub s sub = (if sub = [] then Suc (length s) else case cutSub sub s of None \<Rightarrow> 0 | Some (a, b) \<Rightarrow> Suc (countSub b sub))"
  by pat_completeness auto
termination
  by (relation "measure (\<lambda>(s, sub). length s)") (auto dest!: cutSub_Some)

declare countSub.simps [simp del]

definition presentationAuth :: "(string \<Rightarrow> string) \<Rightarrow> PresentationCredential list \<Rightarrow> string \<Rightarrow> time \<Rightarrow> string \<Rightarrow> Principal option" where
  "presentationAuth digest credentials audience now authorization =
     (if \<not> HasPrefix authorization ''Bearer '' \<or> countSub authorization ''Bearer '' \<noteq> 1 then None
      else case AuthenticatePresentation digest credentials now (TrimPrefix authorization ''Bearer '') of
             Inl e \<Rightarrow> None
           | Inr p \<Rightarrow> if pr_Audience p \<noteq> audience then None else Some p)"

definition servePresentation :: "Env \<Rightarrow> (string \<Rightarrow> string) \<Rightarrow> PresentationCredential list \<Rightarrow> string \<Rightarrow> string \<Rightarrow> Route
    \<Rightarrow> 'w World_scheme \<Rightarrow> Response \<times> 'w World_scheme" where
  "servePresentation env digest credentials audience authorization route w =
     (case presentationAuth digest credentials audience (e_now env (w_trace w)) authorization of
        None \<Rightarrow> (Error 401 ''missing or invalid presentation credential'', w)
      | Some p \<Rightarrow>
          (case route of
             GetPermissions \<Rightarrow> (PresentationPermissions p, w)
           | GetPresentationCapabilities \<Rightarrow> (PresentationCapabilities p, w)
           | GetController \<Rightarrow> PresentationController env p w
           | GetFleet \<Rightarrow> PresentationFleet env p w
           | GetPresentationApplication name \<Rightarrow> PresentationApplication env p name w
           | GetActivity limit \<Rightarrow> PresentationActivity env p limit w))"

section \<open>Confinement\<close>

text \<open>Two databases agree on a set of applications when they have the same rows and the same events for each.\<close>

definition agreeOn :: "string set \<Rightarrow> DB \<Rightarrow> DB \<Rightarrow> bool" where
  "agreeOn names db db' = (\<forall>a\<in>names. selectRow ar_Name a (db_apps db) = selectRow ar_Name a (db_apps db')
     \<and> filter (\<lambda>r. er_AppName r = a) (db_events db) = filter (\<lambda>r. er_AppName r = a) (db_events db'))"

text \<open>A read of the database: its answer depends on the tables only through \<open>g\<close>, and it changes nothing.\<close>

lemma exec_read:
  assumes "g db' = g (w_db w)"
  shows "exec env stmt (\<lambda>db. (Inr (g db), db)) (w\<lparr>w_db := db'\<rparr>)
    = (fst (exec env stmt (\<lambda>db. (Inr (g db), db)) w), (snd (exec env stmt (\<lambda>db. (Inr (g db), db)) w))\<lparr>w_db := db'\<rparr>)"
  using assms by (simp add: exec_def split: option.split)

lemma GetApplicationStatusSummary_agree:
  assumes "agreeOn names (w_db w) db'" "a \<in> names"
  shows "GetApplicationStatusSummary env a (w\<lparr>w_db := db'\<rparr>)
    = (fst (GetApplicationStatusSummary env a w), (snd (GetApplicationStatusSummary env a w))\<lparr>w_db := db'\<rparr>)"
  unfolding GetApplicationStatusSummary_def using assms
  by (subst exec_read) (auto simp: agreeOn_def wrapErr_def split: prod.splits sum.splits)

lemma read_keeps_db: "w_db (snd (GetApplicationStatusSummary env a w)) = w_db w" "w_db (snd (ListEventsForApplications env as n w)) = w_db w"
  "w_db (snd (CheckReadiness env w)) = w_db w"
  by (auto simp: GetApplicationStatusSummary_def ListEventsForApplications_def CheckReadiness_def exec_def Let_def split: option.split prod.splits sum.splits)

lemma set_dedupNames: "set (dedupNames seen ns) \<subseteq> set ns"
  by (induction seen ns rule: dedupNames.induct) auto

lemma ListEventsForApplications_agree:
  assumes "agreeOn (set as) (w_db w) db'"
  shows "fst (ListEventsForApplications env as n (w\<lparr>w_db := db'\<rparr>)) = fst (ListEventsForApplications env as n w)"
proof -
  have "map (\<lambda>a. take k (recentEvents (filter (\<lambda>r. er_AppName r = a) (db_events db')))) (dedupNames [] as)
      = map (\<lambda>a. take k (recentEvents (filter (\<lambda>r. er_AppName r = a) (db_events (w_db w))))) (dedupNames [] as)" for k
    using assms set_dedupNames [of "[]" as] by (auto simp: agreeOn_def)
  from this [of "nat n"] show ?thesis
    by (simp add: ListEventsForApplications_def Let_def exec_def wrapErr_def del: map_eq_conv split: option.split)
qed

lemma fleetSummaries_agree:
  assumes "agreeOn (set names) (w_db w) db'"
  shows "fst (fleetSummaries env p names (w\<lparr>w_db := db'\<rparr>)) = fst (fleetSummaries env p names w)"
  using assms
proof (induction names arbitrary: w)
  case (Cons a names)
  obtain r w1 where g: "GetApplicationStatusSummary env a w = (r, w1)" by fastforce
  have g': "GetApplicationStatusSummary env a (w\<lparr>w_db := db'\<rparr>) = (r, w1\<lparr>w_db := db'\<rparr>)"
    using GetApplicationStatusSummary_agree [OF Cons.prems, of a env] g by simp
  have "w_db w1 = w_db w" using read_keeps_db(1) [of env a w] g by simp
  then have "fst (fleetSummaries env p names (w1\<lparr>w_db := db'\<rparr>)) = fst (fleetSummaries env p names w1)"
    using Cons.prems by (intro Cons.IH) (simp add: agreeOn_def)
  then show ?case by (auto simp: g g' split: sum.split option.split prod.split)
qed simp

lemma fleetSummaries_keeps_db: "w_db (snd (fleetSummaries env p names w)) = w_db w"
proof (induction names arbitrary: w)
  case (Cons a names)
  have "w_db (snd (GetApplicationStatusSummary env a w)) = w_db w" by (rule read_keeps_db)
  then show ?case using Cons.IH by (auto split: sum.splits option.splits prod.splits) (metis snd_conv)+
qed simp

lemma set_principal_Applications [simp]: "set (principal_Applications p) = set (pr_applications p)"
  by (simp add: principal_Applications_def)

lemma fst_case_result: "fst (case x of (Inl e, w) \<Rightarrow> (f e, w) | (Inr y, w) \<Rightarrow> (g y, w)) = (case fst x of Inl e \<Rightarrow> f e | Inr y \<Rightarrow> g y)"
  by (simp split: prod.split sum.split)

lemma routes_keep_db:
  "w_db (snd (PresentationController env p w)) = w_db w" "w_db (snd (PresentationFleet env p w)) = w_db w"
  "w_db (snd (PresentationApplication env p name w)) = w_db w" "w_db (snd (PresentationActivity env p limit w)) = w_db w"
proof -
  show "w_db (snd (PresentationController env p w)) = w_db w"
    using read_keeps_db(3) [of env w] by (auto simp: PresentationController_def split: prod.split)
  show "w_db (snd (PresentationFleet env p w)) = w_db w"
    using fleetSummaries_keeps_db [of env p "principal_Applications p" w] by (auto simp: PresentationFleet_def split: prod.split option.split)
  show "w_db (snd (PresentationApplication env p name w)) = w_db w"
    using read_keeps_db(1) [of env name w] by (auto simp: PresentationApplication_def split: prod.split option.split sum.split)
  show "w_db (snd (PresentationActivity env p limit w)) = w_db w"
    by (simp add: PresentationActivity_def Let_def snd_case_result read_keeps_db)
qed

lemma routes_agree:
  assumes "agreeOn (set (pr_applications p)) (w_db w) db'" "''*'' \<notin> set (pr_applications p)"
  shows "fst (PresentationController env p (w\<lparr>w_db := db'\<rparr>)) = fst (PresentationController env p w)"
    and "fst (PresentationFleet env p (w\<lparr>w_db := db'\<rparr>)) = fst (PresentationFleet env p w)"
    and "name \<noteq> [] \<Longrightarrow> fst (PresentationApplication env p name (w\<lparr>w_db := db'\<rparr>)) = fst (PresentationApplication env p name w)"
    and "fst (PresentationActivity env p limit (w\<lparr>w_db := db'\<rparr>)) = fst (PresentationActivity env p limit w)"
proof -
  show "fst (PresentationController env p (w\<lparr>w_db := db'\<rparr>)) = fst (PresentationController env p w)"
    by (simp add: PresentationController_def CheckReadiness_def exec_def split: option.split)
  show "fst (PresentationFleet env p (w\<lparr>w_db := db'\<rparr>)) = fst (PresentationFleet env p w)"
    using fleetSummaries_agree [of "principal_Applications p" w db' env p] assms(1)
    by (auto simp: PresentationFleet_def split: prod.split option.split)
  show "fst (PresentationActivity env p limit (w\<lparr>w_db := db'\<rparr>)) = fst (PresentationActivity env p limit w)"
    using ListEventsForApplications_agree [of "principal_Applications p" w db' env] assms(1)
    by (simp add: PresentationActivity_def Let_def fst_case_result)
  assume "name \<noteq> []"
  show "fst (PresentationApplication env p name (w\<lparr>w_db := db'\<rparr>)) = fst (PresentationApplication env p name w)"
  proof (cases "Allows p ''application:read'' name")
    case True
    then have "name \<in> set (pr_applications p)" using \<open>name \<noteq> []\<close> assms(2) by (simp add: Allows_def)
    from GetApplicationStatusSummary_agree [OF assms(1) this, of env] show ?thesis
      by (auto simp: PresentationApplication_def split: prod.split sum.split option.split)
  qed (simp add: PresentationApplication_def)
qed

lemma credentialErr_no_wildcard: "credentialErr i c before = None \<Longrightarrow> ''*'' \<notin> set (pc_Applications c)"
proof
  assume "credentialErr i c before = None" and star: "''*'' \<in> set (pc_Applications c)"
  then have "find (\<lambda>a. TrimSpace a = [] \<or> TrimSpace a = ''*'') (pc_Applications c) = None"
    by (auto simp: credentialErr_def split: if_splits option.splits)
  moreover have "TrimSpace ''*'' = ''*''" by code_simp
  ultimately show False using star by (auto simp: find_None_iff)
qed

lemma checkCredentials_no_wildcard:
  "checkCredentials before cs = Inr out \<Longrightarrow> \<forall>c\<in>set before. ''*'' \<notin> set (pc_Applications c) \<Longrightarrow> \<forall>c\<in>set out. ''*'' \<notin> set (pc_Applications c)"
proof (induction before cs rule: checkCredentials.induct)
  case (2 before c cs)
  then have "credentialErr (length before) (trimCredential c) before = None" by (auto simp: Let_def split: option.splits)
  with 2 credentialErr_no_wildcard show ?case by (auto simp: Let_def)
qed simp

lemma find_SomeD: "find P xs = Some x \<Longrightarrow> x \<in> set xs \<and> P x"
  by (induction xs) (auto split: if_splits)

lemma presentationAuth_Some:
  assumes "presentationAuth digest credentials audience now authorization = Some p"
  shows "\<exists>c\<in>set credentials. pc_TokenDigest c = digest (TrimPrefix authorization ''Bearer '') \<and> \<not> pc_Revoked c
    \<and> pc_IssuedAt c = Some (pr_IssuedAt p) \<and> pc_ExpiresAt c = Some (pr_ExpiresAt p) \<and> pr_IssuedAt p \<le> now \<and> now < pr_ExpiresAt p
    \<and> pr_Audience p = audience \<and> pr_applications p = pc_Applications c \<and> pr_capabilities p = pc_Capabilities c"
proof -
  let ?t = "TrimPrefix authorization ''Bearer ''"
  have a: "AuthenticatePresentation digest credentials now ?t = Inr p" "pr_Audience p = audience"
    using assms by (auto simp: presentationAuth_def split: if_splits sum.splits)
  then obtain c where c: "find (\<lambda>c. pc_TokenDigest c = digest ?t) (rev credentials) = Some c"
    by (auto simp: AuthenticatePresentation_def split: if_splits option.splits)
  then have "c \<in> set credentials" "pc_TokenDigest c = digest ?t" by (auto dest: find_SomeD)
  with a c show ?thesis by (intro bexI [of _ c]) (auto simp: AuthenticatePresentation_def split: if_splits option.splits)
qed


definition demoCredential :: PresentationCredential where
  "demoCredential = \<lparr>pc_TokenDigest = ''s3cret'', pc_CredentialID = ''web-ui'', pc_Subject = ''console'', pc_Audience = ''prod'',
     pc_IssuedAt = Some 0, pc_ExpiresAt = Some 10, pc_Capabilities = [''application:read''], pc_Applications = [''web''], pc_Revoked = False\<rparr>"


end
