(* ===== verification/Api.thy ===== *)
theory Api
  imports Webhook Presentation
begin

text \<open>
  The administrative REST interface (\<^verbatim>\<open>api/server.go\<close>, \<^verbatim>\<open>api/handlers.go\<close>, \<^verbatim>\<open>api/responses.go\<close>): routes,
  bearer authentication, and one definition per handler over the state of the scheduler and the store.

  A handler is the sequence of its calls with no other request in between; how the reconciliations it
  starts interleave with others is the subject of theory \<open>Dispatch\<close>. Decoders of request bodies and the parts of
  the inspector that only read (system information, metrics, details, logs) are parameters. The event
  stream is a subscription of the event bus and is modelled there.
\<close>

section \<open>Responses\<close>

definition CodeNotFound :: string where "CodeNotFound = ''NOT_FOUND''"
definition CodeBadRequest :: string where "CodeBadRequest = ''BAD_REQUEST''"
definition CodeInternalError :: string where "CodeInternalError = ''INTERNAL_ERROR''"
definition CodeConflict :: string where "CodeConflict = ''CONFLICT''"
definition CodeUnavailable :: string where "CodeUnavailable = ''UNAVAILABLE''"

record AppStatusResponse =
  as_SyncStatus :: SyncStatus
  as_HealthStatus :: HealthStatus
  as_LastSyncedSHA :: string
  as_HeadSHA :: string
  as_LastSyncTime :: "time option"
  as_LastError :: "err option"
  as_Services :: "ServiceStatus list"

record AppResponse =
  rp_Metadata :: AppMetadata
  rp_Spec :: AppSpec
  rp_Status :: AppStatusResponse
  rp_RecentHistory :: "SyncRecord list"

datatype ApiResponse =
    ErrorResponse nat err string
  | TextResponse nat string
  | HealthResponse
  | ReadyResponse nat "err option"
  | FeaturesResponse "string list"
  | AppResponseBody nat AppResponse
  | AppListResponse "AppResponse list"
  | DeletedResponse string
  | SyncResponse "SyncResult option"
  | DryRunResponse "DiffResult option" string
  | DiffResponse "DiffResult option"
  | RenderedDesiredResponse string string "ComposeSpec option"
  | EventListResponse "EventRecord list"
  | HistoryResponse "SyncRecord list"
  | SystemInfoResponse string
  | HostStatsResponse string
  | MetricsResponse "ServiceStatus list"
  | ServiceDetailResponse "ServiceDetail option"
  | LogsResponse "string list"
  | AdoptedResponse string nat
  | PollIntervalResponse int
  | HookResponse WebhookResponse

fun responseStatus :: "ApiResponse \<Rightarrow> nat" where
  "responseStatus (ErrorResponse code e c) = code"
| "responseStatus (TextResponse code s) = code"
| "responseStatus (ReadyResponse code e) = code"
| "responseStatus (AppResponseBody code b) = code"
| "responseStatus (HookResponse (WebhookError code e)) = code"
| "responseStatus r = 200"

definition internalError :: "string \<Rightarrow> err \<Rightarrow> ApiResponse" where
  "internalError prefix e = ErrorResponse 500 (Wrapf prefix [] e) CodeInternalError"

definition notFound :: "string \<Rightarrow> string \<Rightarrow> ApiResponse" where
  "notFound what name = ErrorResponse 404 (Errorf what [name]) CodeNotFound"

definition badRequest :: "err \<Rightarrow> ApiResponse" where
  "badRequest e = ErrorResponse 400 e CodeBadRequest"

section \<open>What a handler has access to\<close>

record ApiEnv =
  ae_env :: Env
  ae_cfg :: SchedDeps
  ae_token :: string
  ae_webhook :: WebhookEnv
  ae_scoped :: bool
  ae_inspector :: bool
  ae_decodeApp :: "string \<Rightarrow> Application result"
  ae_decodeRollback :: "string \<Rightarrow> string result"
  ae_decodePoll :: "string \<Rightarrow> int result"
  ae_SystemInfo :: "trace \<Rightarrow> string result"
  ae_HostStats :: "trace \<Rightarrow> string result"
  ae_InspectWithMetrics :: "trace \<Rightarrow> DestinationSpec \<Rightarrow> ServiceStatus list result"
  ae_InspectServiceDetail :: "trace \<Rightarrow> DestinationSpec \<Rightarrow> string \<Rightarrow> ServiceDetail option result"
  ae_GetServiceLogs :: "trace \<Rightarrow> DestinationSpec \<Rightarrow> string \<Rightarrow> int \<Rightarrow> string list result"

section \<open>Responses for applications\<close>

definition redactAppSpec :: "NetLib \<Rightarrow> AppSpec \<Rightarrow> AppSpec" where
  "redactAppSpec net spec = spec\<lparr>spec_Source := (spec_Source spec)\<lparr>RepoURL := RedactRepoURL net (RepoURL (spec_Source spec))\<rparr>\<rparr>"

text \<open>A list of services that does not decode is left out.\<close>

definition buildAppResponse :: "Env \<Rightarrow> ApplicationRecord \<Rightarrow> AppResponse result" where
  "buildAppResponse env rec =
     (case unmarshalApp (e_codec env) (ar_Manifest rec) of
        Inl e \<Rightarrow> Inl e
      | Inr application \<Rightarrow>
          Inr \<lparr>rp_Metadata = Metadata application, rp_Spec = redactAppSpec (e_net env) (Spec application),
               rp_Status = \<lparr>as_SyncStatus = ar_SyncStatus rec, as_HealthStatus = ar_HealthStatus rec, as_LastSyncedSHA = ar_LastSyncedSHA rec,
                 as_HeadSHA = ar_HeadSHA rec, as_LastSyncTime = ar_LastSyncTime rec, as_LastError = ar_LastError rec,
                 as_Services = (if ar_ServicesJSON rec = [] then []
                                else case unmarshalServices (e_codec env) (ar_ServicesJSON rec) of Inl e \<Rightarrow> [] | Inr services \<Rightarrow> services)\<rparr>,
               rp_RecentHistory = []\<rparr>)"

text \<open>The start of every handler of one application: its record, or the answer 404 or 500.\<close>

definition withApplication :: "ApiEnv \<Rightarrow> string \<Rightarrow> 's SState_scheme \<Rightarrow> (ApplicationRecord \<Rightarrow> 's SState_scheme \<Rightarrow> ApiResponse \<times> 's SState_scheme)
    \<Rightarrow> ApiResponse \<times> 's SState_scheme" where
  "withApplication ae name s body =
     (case GetApplication (ae_env ae) name s of
        (Inl e, s) \<Rightarrow> (internalError ''getting application: %v'' e, s)
      | (Inr None, s) \<Rightarrow> (notFound ''application not found: %s'' name, s)
      | (Inr (Some appRec), s) \<Rightarrow> body appRec s)"

definition withManifest :: "ApiEnv \<Rightarrow> ApplicationRecord \<Rightarrow> 's SState_scheme \<Rightarrow> (Application \<Rightarrow> ApiResponse \<times> 's SState_scheme)
    \<Rightarrow> ApiResponse \<times> 's SState_scheme" where
  "withManifest ae appRec s body =
     (case unmarshalApp (e_codec (ae_env ae)) (ar_Manifest appRec) of
        Inl e \<Rightarrow> (internalError ''parsing manifest: %v'' e, s)
      | Inr application \<Rightarrow> body application)"

definition noInspector :: ApiResponse where
  "noInspector = ErrorResponse 503 (Errorf ''inspector not available'' []) CodeUnavailable"

section \<open>Probes, capabilities and settings\<close>

definition h_Readyz :: "ApiEnv \<Rightarrow> 's SState_scheme \<Rightarrow> ApiResponse \<times> 's SState_scheme" where
  "h_Readyz ae s =
     (case ListApplications (ae_env ae) s of
        (Inl e, s) \<Rightarrow> (ReadyResponse 503 (Some (Wrapf ''error: %v'' [] e)), s)
      | (Inr apps, s) \<Rightarrow> (ReadyResponse 200 None, s))"

definition h_Capabilities :: "ApiEnv \<Rightarrow> ApiResponse" where
  "h_Capabilities ae = FeaturesResponse ([''applications.create'', ''applications.update'', ''applications.delete'', ''applications.desired'',
     ''events.sse'', ''services.metrics''] @ (if ae_scoped ae \<and> ae_token ae \<noteq> [] then [''presentation.scoped-auth''] else []))"

abbreviation Millisecond :: duration where "Millisecond \<equiv> 1000000"

text \<open>Go's int64 arithmetic wraps around.\<close>

definition wrap64 :: "int \<Rightarrow> int" where
  "wrap64 x = (x + 2 ^ 63) mod 2 ^ 64 - 2 ^ 63"

text \<open>Division of durations truncates towards zero.\<close>

definition h_GetPollInterval :: "'s SState_scheme \<Rightarrow> ApiResponse" where
  "h_GetPollInterval s =
     PollIntervalResponse (if s_pollOverride s < 0 then - ((- s_pollOverride s) div Millisecond) else s_pollOverride s div Millisecond)"

definition h_SetPollInterval :: "ApiEnv \<Rightarrow> string \<Rightarrow> 's SState_scheme \<Rightarrow> ApiResponse \<times> 's SState_scheme" where
  "h_SetPollInterval ae body s =
     (case ae_decodePoll ae body of
        Inl e \<Rightarrow> (badRequest (Errorf ''invalid request body'' []), s)
      | Inr intervalMs \<Rightarrow>
          if intervalMs < 0 then (badRequest (Errorf ''intervalMs must be >= 0'' []), s)
          else let d = wrap64 (intervalMs * Millisecond)
               in if d > 0 \<and> d < 30 * Second then (badRequest (Errorf ''intervalMs must be >= 30000 (30s) or 0 to clear'' []), s)
                  else (PollIntervalResponse intervalMs, SetPollOverride d s))"

section \<open>Applications\<close>

definition newRecord :: "string \<Rightarrow> string \<Rightarrow> ApplicationRecord" where
  "newRecord name manifest = \<lparr>ar_ID = [], ar_Name = name, ar_Manifest = manifest, ar_Source = [],
     ar_SyncStatus = SyncStatusUnknown, ar_HealthStatus = HealthUnknown, ar_LastSyncedSHA = [], ar_HeadSHA = [], ar_LastSyncTime = None,
     ar_LastObservationTime = None, ar_LastObservedHealthStatus = None, ar_LastError = None, ar_ServicesJSON = [], ar_ConditionsJSON = [],
     ar_CreatedAt = 0, ar_UpdatedAt = 0\<rparr>"

definition h_CreateApplication :: "ApiEnv \<Rightarrow> string \<Rightarrow> 's SState_scheme \<Rightarrow> ApiResponse \<times> 's SState_scheme" where
  "h_CreateApplication ae body s =
     (case ae_decodeApp ae body of
        Inl e \<Rightarrow> (badRequest (Wrapf ''invalid JSON: %v'' [] e), s)
      | Inr application0 \<Rightarrow>
          (let application = ApplyDefaults application0; name = meta_Name (Metadata application)
           in case Validate (e_net (ae_env ae)) application of
                Some e \<Rightarrow> (badRequest e, s)
              | None \<Rightarrow>
                  (case GetApplication (ae_env ae) name s of
                     (Inl e, s) \<Rightarrow> (internalError ''checking application: %v'' e, s)
                   | (Inr (Some existing), s) \<Rightarrow> (ErrorResponse 409 (Errorf ''application already exists: %s'' [name]) CodeConflict, s)
                   | (Inr None, s) \<Rightarrow>
                       (let rec = newRecord name (marshalApp (e_codec (ae_env ae)) application)
                        in case CreateApplication (ae_env ae) rec s of
                             (Inl e, s) \<Rightarrow> (internalError ''creating application: %v'' e, s)
                           | (Inr u, s) \<Rightarrow>
                               (case buildAppResponse (ae_env ae) rec of
                                  Inl e \<Rightarrow> (internalError ''building response: %v'' e, s)
                                | Inr resp \<Rightarrow> (AppResponseBody 201 resp, s))))))"

definition h_UpdateApplication :: "ApiEnv \<Rightarrow> string \<Rightarrow> string \<Rightarrow> 's SState_scheme \<Rightarrow> ApiResponse \<times> 's SState_scheme" where
  "h_UpdateApplication ae name body s =
     (case ae_decodeApp ae body of
        Inl e \<Rightarrow> (badRequest (Wrapf ''invalid JSON: %v'' [] e), s)
      | Inr application0 \<Rightarrow>
          (let application = ApplyDefaults application0
           in if meta_Name (Metadata application) \<noteq> name
              then (badRequest (Errorf ''application metadata.name must match the URL name'' []), s)
              else case Validate (e_net (ae_env ae)) application of
                     Some e \<Rightarrow> (badRequest e, s)
                   | None \<Rightarrow>
                       withApplication ae name s (\<lambda>record s.
                         let manifest = marshalApp (e_codec (ae_env ae)) application
                         in case UpdateManifest (ae_env ae) name manifest s of
                              (Inl e, s) \<Rightarrow> (internalError ''updating application: %v'' e, s)
                            | (Inr u, s) \<Rightarrow>
                                (case buildAppResponse (ae_env ae) (record\<lparr>ar_Manifest := manifest\<rparr>) of
                                   Inl e \<Rightarrow> (internalError ''building response: %v'' e, s)
                                 | Inr resp \<Rightarrow> (AppResponseBody 200 resp, s)))))"

definition h_DeleteApplication :: "ApiEnv \<Rightarrow> string \<Rightarrow> 's SState_scheme \<Rightarrow> ApiResponse \<times> 's SState_scheme" where
  "h_DeleteApplication ae name s =
     withApplication ae name s (\<lambda>appRec s.
       case DeleteApplication (ae_env ae) name s of
         (Inl e, s) \<Rightarrow> (internalError ''deleting application: %v'' e, s)
       | (Inr u, s) \<Rightarrow> (DeletedResponse name, s))"

definition h_ListApplications :: "ApiEnv \<Rightarrow> 's SState_scheme \<Rightarrow> ApiResponse \<times> 's SState_scheme" where
  "h_ListApplications ae s =
     (case ListApplications (ae_env ae) s of
        (Inl e, s) \<Rightarrow> (internalError ''listing applications: %v'' e, s)
      | (Inr apps, s) \<Rightarrow>
          (case ListRecentSyncHistory (ae_env ae) 5 s of
             (Inl e, s) \<Rightarrow> (internalError ''listing recent sync history: %v'' e, s)
           | (Inr history, s) \<Rightarrow>
               (AppListResponse (List.map_filter (\<lambda>a.
                  case buildAppResponse (ae_env ae) a of
                    Inl e \<Rightarrow> None
                  | Inr resp \<Rightarrow> Some (resp\<lparr>rp_RecentHistory := (case map_of history (ar_Name a) of None \<Rightarrow> [] | Some h \<Rightarrow> h)\<rparr>)) apps), s)))"

definition h_GetApplication :: "ApiEnv \<Rightarrow> string \<Rightarrow> 's SState_scheme \<Rightarrow> ApiResponse \<times> 's SState_scheme" where
  "h_GetApplication ae name s =
     withApplication ae name s (\<lambda>appRec s.
       case buildAppResponse (ae_env ae) appRec of
         Inl e \<Rightarrow> (internalError ''building response: %v'' e, s)
       | Inr resp \<Rightarrow> (AppResponseBody 200 resp, s))"

section \<open>Reconciliation\<close>

text \<open>\<^verbatim>\<open>ReconcileNow\<close> and \<^verbatim>\<open>Rollback\<close> take the lock of the application first; here it is free.\<close>

definition ReconcileNow :: "Env \<Rightarrow> SchedDeps \<Rightarrow> string \<Rightarrow> 's SState_scheme \<Rightarrow> (SyncResult option \<times> err option) \<times> 's SState_scheme" where
  "ReconcileNow env cfg name s = reconcileApp env (sd_deps cfg) name True (snd (getAppLock name s))"

definition lockedRollback :: "Env \<Rightarrow> SchedDeps \<Rightarrow> string \<Rightarrow> string \<Rightarrow> 's SState_scheme \<Rightarrow> (SyncResult option \<times> err option) \<times> 's SState_scheme" where
  "lockedRollback env cfg name sha s = Rollback env (sd_deps cfg) name sha (snd (getAppLock name s))"

definition h_SyncApplication :: "ApiEnv \<Rightarrow> string \<Rightarrow> string \<Rightarrow> 's SState_scheme \<Rightarrow> ApiResponse \<times> 's SState_scheme" where
  "h_SyncApplication ae name dryRun s =
     withApplication ae name s (\<lambda>appRec s.
       if dryRun = ''true''
       then (case DryRun (ae_env ae) name s of
               ((diff, headSHA, Some e), s) \<Rightarrow> (internalError ''dry-run failed: %v'' e, s)
             | ((diff, headSHA, None), s) \<Rightarrow> (DryRunResponse (RedactDiff diff) headSHA, s))
       else (case ReconcileNow (ae_env ae) (ae_cfg ae) name s of
               ((result, Some e), s) \<Rightarrow>
                 (if result \<noteq> None then SyncResponse (RedactSyncResult result) else internalError ''sync failed: %v'' e, s)
             | ((result, None), s) \<Rightarrow> (SyncResponse (RedactSyncResult result), s)))"

definition h_DiffApplication :: "ApiEnv \<Rightarrow> string \<Rightarrow> 's SState_scheme \<Rightarrow> ApiResponse \<times> 's SState_scheme" where
  "h_DiffApplication ae name s =
     withApplication ae name s (\<lambda>appRec s.
       case DryRun (ae_env ae) name s of
         ((diff, headSHA, Some e), s) \<Rightarrow> (internalError ''diff failed: %v'' e, s)
       | ((diff, headSHA, None), s) \<Rightarrow> (DiffResponse (RedactDiff diff), s))"

definition h_GetRenderedDesired :: "ApiEnv \<Rightarrow> string \<Rightarrow> 's SState_scheme \<Rightarrow> ApiResponse \<times> 's SState_scheme" where
  "h_GetRenderedDesired ae name s =
     withApplication ae name s (\<lambda>appRec s.
       case RenderDesired (ae_env ae) name s of
         ((compose, headSHA, Some e), s) \<Rightarrow> (internalError ''render desired state failed: %v'' e, s)
       | ((compose, headSHA, None), s) \<Rightarrow> (RenderedDesiredResponse name headSHA (RedactComposeSpec compose), s))"

definition h_RollbackApplication :: "ApiEnv \<Rightarrow> string \<Rightarrow> string \<Rightarrow> 's SState_scheme \<Rightarrow> ApiResponse \<times> 's SState_scheme" where
  "h_RollbackApplication ae name body s =
     withApplication ae name s (\<lambda>appRec s.
       case ae_decodeRollback ae body of
         Inl e \<Rightarrow> (badRequest (Wrapf ''invalid JSON: %v'' [] e), s)
       | Inr targetSHA \<Rightarrow>
           if targetSHA = [] then (badRequest (Errorf ''targetSHA is required'' []), s)
           else (case lockedRollback (ae_env ae) (ae_cfg ae) name targetSHA s of
                   ((result, Some e), s) \<Rightarrow> (if result \<noteq> None then SyncResponse result else internalError ''rollback failed: %v'' e, s)
                 | ((result, None), s) \<Rightarrow> (SyncResponse result, s)))"

text \<open>
  Without an inspector the call panics, which the recovering middleware answers with an empty 500. The
  failure of the last update is only logged.
\<close>

definition adoptRecord :: "string \<Rightarrow> ApplicationRecord \<Rightarrow> time \<Rightarrow> SyncRecord" where
  "adoptRecord name appRec now = \<lparr>sy_ID = [], sy_AppName = name, sy_StartedAt = now, sy_FinishedAt = Some now, sy_CommitSHA = ar_HeadSHA appRec,
     sy_Operation = OpAdopt, sy_Result = ResSuccess, sy_DiffJSON = [], sy_ComposeSpecJSON = [], sy_Error = None, sy_DurationMs = 0, sy_CreatedAt = 0\<rparr>"

definition h_AdoptApplication :: "ApiEnv \<Rightarrow> string \<Rightarrow> 's SState_scheme \<Rightarrow> ApiResponse \<times> 's SState_scheme" where
  "h_AdoptApplication ae name s =
     withApplication ae name s (\<lambda>appRec s. withManifest ae appRec s (\<lambda>application.
       if \<not> ae_inspector ae then (TextResponse 500 [], s)
       else case onTrace (Inspect (ae_env ae) (appDestination application)) s of
              (Inl e, s) \<Rightarrow> (internalError ''inspecting live state: %v'' e, s)
            | (Inr liveStates, s) \<Rightarrow>
                (let now = e_now (ae_env ae) (w_trace s)
                 in case RecordSync (ae_env ae) (adoptRecord name appRec now) s of
                      (Inl e, s) \<Rightarrow> (internalError ''recording sync: %v'' e, s)
                    | (Inr u, s) \<Rightarrow>
                        (AdoptedResponse name (length liveStates),
                         snd (UpdateApplicationStatus (ae_env ae) name (noUpdate\<lparr>su_SyncStatus := Some Synced, su_LastSyncTime := Some now,
                           su_ServicesJSON := marshalServices (e_codec (ae_env ae)) (serviceStatusesFromStates liveStates), su_LastError := Some None\<rparr>) s)))))"

section \<open>History and inspection\<close>

definition h_GetEvents :: "ApiEnv \<Rightarrow> string \<Rightarrow> string \<Rightarrow> 's SState_scheme \<Rightarrow> ApiResponse \<times> 's SState_scheme" where
  "h_GetEvents ae name limitParam s =
     (let limit = queryInt limitParam 50; limit = (if limit > 1000 then 1000 else limit)
      in case ListEvents (ae_env ae) name limit s of
           (Inl e, s) \<Rightarrow> (internalError ''listing events: %v'' e, s)
         | (Inr events, s) \<Rightarrow> (EventListResponse events, s))"

definition h_GetHistory :: "ApiEnv \<Rightarrow> string \<Rightarrow> string \<Rightarrow> 's SState_scheme \<Rightarrow> ApiResponse \<times> 's SState_scheme" where
  "h_GetHistory ae name limitParam s =
     (let limit = queryInt limitParam 20; limit = (if limit > 100 then 100 else limit)
      in case ListSyncHistory (ae_env ae) name limit s of
           (Inl e, s) \<Rightarrow> (internalError ''listing sync history: %v'' e, s)
         | (Inr records, s) \<Rightarrow> (HistoryResponse records, s))"

definition h_GetSystemInfo :: "ApiEnv \<Rightarrow> 's SState_scheme \<Rightarrow> ApiResponse" where
  "h_GetSystemInfo ae s =
     (if \<not> ae_inspector ae then noInspector
      else case ae_SystemInfo ae (w_trace s) of
             Inl e \<Rightarrow> internalError ''getting system info: %v'' e
           | Inr info \<Rightarrow> SystemInfoResponse info)"

definition h_GetHostStats :: "ApiEnv \<Rightarrow> 's SState_scheme \<Rightarrow> ApiResponse" where
  "h_GetHostStats ae s =
     (if \<not> ae_inspector ae then noInspector
      else case ae_HostStats ae (w_trace s) of
             Inl e \<Rightarrow> internalError ''getting host stats: %v'' e
           | Inr stats \<Rightarrow> HostStatsResponse stats)"

definition h_GetAppMetrics :: "ApiEnv \<Rightarrow> string \<Rightarrow> 's SState_scheme \<Rightarrow> ApiResponse \<times> 's SState_scheme" where
  "h_GetAppMetrics ae name s =
     (if \<not> ae_inspector ae then (noInspector, s)
      else withApplication ae name s (\<lambda>appRec s. withManifest ae appRec s (\<lambda>application.
        case ae_InspectWithMetrics ae (w_trace s) (appDestination application) of
          Inl e \<Rightarrow> (internalError ''inspecting metrics: %v'' e, s)
        | Inr services \<Rightarrow> (MetricsResponse services, s))))"

definition h_GetServiceDetail :: "ApiEnv \<Rightarrow> string \<Rightarrow> string \<Rightarrow> 's SState_scheme \<Rightarrow> ApiResponse \<times> 's SState_scheme" where
  "h_GetServiceDetail ae name service s =
     (if \<not> ae_inspector ae then (noInspector, s)
      else withApplication ae name s (\<lambda>appRec s. withManifest ae appRec s (\<lambda>application.
        case ae_InspectServiceDetail ae (w_trace s) (appDestination application) service of
          Inl e \<Rightarrow> (internalError ''inspecting service: %v'' e, s)
        | Inr None \<Rightarrow> (notFound ''service not found: %s'' service, s)
        | Inr (Some detail) \<Rightarrow> (ServiceDetailResponse (RedactServiceDetail (Some detail)), s))))"

definition h_GetServiceLogs :: "ApiEnv \<Rightarrow> string \<Rightarrow> string \<Rightarrow> string \<Rightarrow> 's SState_scheme \<Rightarrow> ApiResponse \<times> 's SState_scheme" where
  "h_GetServiceLogs ae name service tailParam s =
     (let tail = queryInt tailParam 200; tail = (if tail > 5000 then 5000 else tail)
      in if \<not> ae_inspector ae then (noInspector, s)
         else withApplication ae name s (\<lambda>appRec s. withManifest ae appRec s (\<lambda>application.
           case ae_GetServiceLogs ae (w_trace s) (appDestination application) service tail of
             Inl e \<Rightarrow> (internalError ''getting logs: %v'' e, s)
           | Inr lines \<Rightarrow> (LogsResponse lines, s))))"

section \<open>Routes\<close>

datatype ApiRoute =
    Healthz | Readyz | Capabilities | SystemInfo | SystemStats | GetPollInterval | SetPollInterval string
  | ListApps | CreateApp string | GetApp string | UpdateApp string string | DeleteApp string
  | SyncApp string string | RollbackApp string string | AdoptApp string | DiffApp string | DesiredApp string
  | EventsOf string string | HistoryOf string string | MetricsOf string
  | ServiceDetailOf string string | ServiceMetricsOf string string | ServiceLogsOf string string string
  | GitWebhook WebhookRequest

text \<open>The routes behind \<^verbatim>\<open>bearerAuth\<close>: all but the probes and the webhook, which has its own signature.\<close>

fun guarded :: "ApiRoute \<Rightarrow> bool" where
  "guarded Healthz = False"
| "guarded Readyz = False"
| "guarded (GitWebhook r) = False"
| "guarded route = True"

fun handle :: "ApiEnv \<Rightarrow> ApiRoute \<Rightarrow> 's SState_scheme \<Rightarrow> ApiResponse \<times> 's SState_scheme" where
  "handle ae Healthz s = (HealthResponse, s)"
| "handle ae Readyz s = h_Readyz ae s"
| "handle ae Capabilities s = (h_Capabilities ae, s)"
| "handle ae SystemInfo s = (h_GetSystemInfo ae s, s)"
| "handle ae SystemStats s = (h_GetHostStats ae s, s)"
| "handle ae GetPollInterval s = (h_GetPollInterval s, s)"
| "handle ae (SetPollInterval body) s = h_SetPollInterval ae body s"
| "handle ae ListApps s = h_ListApplications ae s"
| "handle ae (CreateApp body) s = h_CreateApplication ae body s"
| "handle ae (GetApp name) s = h_GetApplication ae name s"
| "handle ae (UpdateApp name body) s = h_UpdateApplication ae name body s"
| "handle ae (DeleteApp name) s = h_DeleteApplication ae name s"
| "handle ae (SyncApp name dryRun) s = h_SyncApplication ae name dryRun s"
| "handle ae (RollbackApp name body) s = h_RollbackApplication ae name body s"
| "handle ae (AdoptApp name) s = h_AdoptApplication ae name s"
| "handle ae (DiffApp name) s = h_DiffApplication ae name s"
| "handle ae (DesiredApp name) s = h_GetRenderedDesired ae name s"
| "handle ae (EventsOf name limit) s = h_GetEvents ae name limit s"
| "handle ae (HistoryOf name limit) s = h_GetHistory ae name limit s"
| "handle ae (MetricsOf name) s = h_GetAppMetrics ae name s"
| "handle ae (ServiceDetailOf name service) s = h_GetServiceDetail ae name service s"
| "handle ae (ServiceMetricsOf name service) s = h_GetServiceDetail ae name service s"
| "handle ae (ServiceLogsOf name service tail) s = h_GetServiceLogs ae name service tail s"
| "handle ae (GitWebhook r) s = (case HandleGitWebhook (ae_webhook ae) r s of (resp, s) \<Rightarrow> (HookResponse resp, s))"

definition bearerAuth :: "string \<Rightarrow> string \<Rightarrow> ApiResponse option" where
  "bearerAuth token authorization =
     (let provided = (if HasPrefix authorization ''Bearer '' then TrimPrefix authorization ''Bearer '' else [])
      in if provided = [] then Some (TextResponse 401 ''missing or invalid Authorization header'')
         else if provided \<noteq> token then Some (TextResponse 401 ''invalid token'')
         else None)"

definition serveApi :: "ApiEnv \<Rightarrow> string \<Rightarrow> ApiRoute \<Rightarrow> 's SState_scheme \<Rightarrow> ApiResponse \<times> 's SState_scheme" where
  "serveApi ae authorization route s =
     (if guarded route \<and> ae_token ae \<noteq> []
      then (case bearerAuth (ae_token ae) authorization of
              Some resp \<Rightarrow> (resp, s)
            | None \<Rightarrow> handle ae route s)
      else handle ae route s)"

section \<open>Authentication\<close>

lemma bearerAuth_iff: "token \<noteq> [] \<Longrightarrow> bearerAuth token authorization = None \<longleftrightarrow> authorization = ''Bearer '' @ token"
  by (auto simp: bearerAuth_def Let_def HasPrefix_iff TrimPrefix_def split: if_splits)

text \<open>
  With a token configured, every administrative route is closed to a request whose authorization
  header is not exactly that bearer token: it is answered 401 and nothing is read, changed or run. With
  the token the request reaches its handler.
\<close>

theorem api_requires_token:
  assumes "guarded route" "ae_token ae \<noteq> []"
  shows "if authorization = ''Bearer '' @ ae_token ae then serveApi ae authorization route s = handle ae route s
    else responseStatus (fst (serveApi ae authorization route s)) = 401 \<and> snd (serveApi ae authorization route s) = s"
proof (cases "authorization = ''Bearer '' @ ae_token ae")
  case False
  then obtain r where "bearerAuth (ae_token ae) authorization = Some r" using bearerAuth_iff [OF assms(2)] by blast
  moreover from this have "responseStatus r = 401" by (auto simp: bearerAuth_def Let_def split: if_splits)
  ultimately show ?thesis using False assms by (simp add: serveApi_def)
next
  case True
  have "bearerAuth (ae_token ae) authorization = None" by (rule iffD2 [OF bearerAuth_iff [OF assms(2)] True])
  then have "serveApi ae authorization route s = handle ae route s" by (simp add: serveApi_def)
  then show ?thesis by (simp only: if_P [OF True])
qed

section \<open>Environment values in responses\<close>

definition diffEnv :: "DiffResult option \<Rightarrow> string set" where
  "diffEnv d = (case d of None \<Rightarrow> {} | Some x \<Rightarrow> envValues (ToCreate x @ ToUpdate x @ ToRemove x))"

fun responseEnv :: "ApiResponse \<Rightarrow> string set" where
  "responseEnv (SyncResponse r) = (case r of None \<Rightarrow> {} | Some x \<Rightarrow> diffEnv (res_Diff x) \<union> {res_ComposeSpecJSON x})"
| "responseEnv (DryRunResponse d headSHA) = diffEnv d"
| "responseEnv (DiffResponse d) = diffEnv d"
| "responseEnv (RenderedDesiredResponse name headSHA c) =
     (case c of None \<Rightarrow> {} | Some x \<Rightarrow> (\<Union>s\<in>set (cs_Services x). snd ` set (sp_Environment s)))"
| "responseEnv (ServiceDetailResponse d) = (case d of None \<Rightarrow> {} | Some x \<Rightarrow> snd ` set (lv_Environment x))"
| "responseEnv r = {}"

lemma diffEnv_redacted: "diffEnv (RedactDiff d) \<subseteq> {[], RedactedValue}"
  using envValues_redact by (cases d) (auto simp: diffEnv_def RedactDiff_def RedactDiffResult_def redactServiceDiffs_def simp flip: map_append)

lemma syncEnv_redacted: "responseEnv (SyncResponse (RedactSyncResult r)) \<subseteq> {[], RedactedValue}"
  using diffEnv_redacted by (cases r) (auto simp: RedactSyncResult_def)

lemma desiredEnv_redacted: "responseEnv (RenderedDesiredResponse n h (RedactComposeSpec c)) \<subseteq> {[], RedactedValue}"
  by (cases c) (auto simp: RedactComposeSpec_def dest: redactEnvironment_values)

lemma detailEnv_redacted: "responseEnv (ServiceDetailResponse (RedactServiceDetail d)) \<subseteq> {[], RedactedValue}"
  by (cases d) (auto simp: RedactServiceDetail_def dest: redactEnvironment_values)

text \<open>The result of a rollback carries no diff and no snapshot, so that there is nothing to redact in it.\<close>

definition plainResult :: "SyncResult \<Rightarrow> bool" where
  "plainResult r = (res_Diff r = None \<and> res_ComposeSpecJSON r = [])"

lemma finishResult_plain:
  "finishResult env deps res st m w = ((Some r, e), w') \<Longrightarrow> plainResult res \<Longrightarrow> plainResult r"
  by (auto simp: finishResult_def completeResult_def plainResult_def Let_def)

lemma finishResult_some: "fst (fst (finishResult env deps res st m w)) = Some (completeResult res st m (e_now env (w_trace w)))"
  by (simp add: finishResult_def Let_def)

lemma completeResult_plain [simp]: "plainResult (completeResult r st m t) = plainResult r"
  by (simp add: completeResult_def plainResult_def)

lemma newResult_plain [simp]: "plainResult (newResult n t op sha)"
  by (simp add: newResult_def plainResult_def)

definition plainOutcome :: "(SyncResult option \<times> err option) \<times> 'w \<Rightarrow> bool" where
  "plainOutcome o1 = (case fst (fst o1) of None \<Rightarrow> True | Some r \<Rightarrow> plainResult r)"

lemma plainOutcome_finish [simp]: "plainResult res \<Longrightarrow> plainOutcome (finishResult env deps res st m w)"
  by (simp add: plainOutcome_def finishResult_some)

lemma plainOutcome_rollbackTo: "plainResult res \<Longrightarrow> plainOutcome (rollbackTo env deps n sha res a w)"
  by (auto simp: rollbackTo_def Let_def split: prod.split sum.split option.split)

lemma plainOutcome_Rollback: "plainOutcome (Rollback env deps n sha w)"
  by (auto simp: Rollback_def Let_def intro: plainOutcome_rollbackTo split: prod.split sum.split option.split)

lemma rollbackEnv:
  assumes "lockedRollback env cfg n sha s = ((r, e), s')"
  shows "responseEnv (SyncResponse r) \<subseteq> {[], RedactedValue}"
  using plainOutcome_Rollback [of env "sd_deps cfg" n sha "snd (getAppLock n s)"] assms
  by (auto simp: lockedRollback_def plainOutcome_def plainResult_def diffEnv_def split: option.splits)

lemma errors_no_env [simp]:
  "responseEnv (internalError p e) = {}" "responseEnv (notFound p n) = {}" "responseEnv (badRequest e) = {}" "responseEnv noInspector = {}"
  by (simp_all add: internalError_def notFound_def badRequest_def noInspector_def)

definition clean :: "ApiResponse \<Rightarrow> bool" where
  "clean r = (responseEnv r \<subseteq> {[], RedactedValue})"

lemma clean_simps [simp]:
  "clean (internalError p e)" "clean (notFound p n)" "clean (badRequest e)" "clean noInspector" "clean (ErrorResponse c er co)" "clean (TextResponse c t)"
  "clean HealthResponse" "clean (ReadyResponse c oe)" "clean (FeaturesResponse fs)" "clean (AppResponseBody c b)" "clean (AppListResponse bs)"
  "clean (DeletedResponse n)" "clean (EventListResponse es)" "clean (HistoryResponse hs)" "clean (SystemInfoResponse i)" "clean (HostStatsResponse i)"
  "clean (MetricsResponse ms)" "clean (LogsResponse ls)" "clean (AdoptedResponse n k)" "clean (PollIntervalResponse ms1)" "clean (HookResponse w)"
  "clean (SyncResponse (RedactSyncResult r))" "clean (DryRunResponse (RedactDiff d) h)" "clean (DiffResponse (RedactDiff d))"
  "clean (RenderedDesiredResponse n h (RedactComposeSpec cs))" "clean (ServiceDetailResponse (RedactServiceDetail sd))"
  using diffEnv_redacted syncEnv_redacted desiredEnv_redacted detailEnv_redacted by (simp_all add: clean_def)

lemma clean_withApplication: "(\<And>r s. clean (fst (body r s))) \<Longrightarrow> clean (fst (withApplication ae n s body))"
  by (auto simp: withApplication_def split: prod.split sum.split option.split)

lemma clean_withManifest: "(\<And>a. clean (fst (body a))) \<Longrightarrow> clean (fst (withManifest ae r s body))"
  by (auto simp: withManifest_def split: sum.split)

lemmas handler_defs = h_Readyz_def h_Capabilities_def h_GetPollInterval_def h_SetPollInterval_def h_CreateApplication_def h_UpdateApplication_def
  h_DeleteApplication_def h_ListApplications_def h_GetApplication_def h_SyncApplication_def h_DiffApplication_def h_GetRenderedDesired_def
  h_AdoptApplication_def h_GetEvents_def h_GetHistory_def h_GetSystemInfo_def h_GetHostStats_def h_GetAppMetrics_def h_GetServiceDetail_def
  h_GetServiceLogs_def

lemma clean_rollback: "clean (fst (h_RollbackApplication ae n body s))"
  unfolding h_RollbackApplication_def
  by (rule clean_withApplication) (auto intro: rollbackEnv [folded clean_def] split: sum.split prod.split option.split)

lemma clean_handle: "clean (fst (handle ae route s))"
  by (cases route)
     (auto simp: handler_defs Let_def clean_rollback intro!: clean_withApplication clean_withManifest split: prod.split sum.split option.split)

lemma application_response_redacts_repo:
  assumes "buildAppResponse env rec = Inr resp"
  shows "\<exists>application. unmarshalApp (e_codec env) (ar_Manifest rec) = Inr application
    \<and> RepoURL (spec_Source (rp_Spec resp)) = RedactRepoURL (e_net env) (RepoURL (appSource application))"
  using assms by (auto simp: buildAppResponse_def redactAppSpec_def split: sum.splits)


section \<open>Creating, changing and deleting applications\<close>

text \<open>A statement on the applications leaves everything outside the tables and the trace alone.\<close>

lemma GetApplication_form:
  "GetApplication env n s = (r, s') \<Longrightarrow> \<exists>t. s' = s\<lparr>w_trace := t\<rparr> \<and> (\<forall>x. r = Inr x \<longrightarrow> x = appIn s n)"
  by (auto simp: GetApplication_def wrapErr_def exec_def appIn_def split: option.splits)

lemma GetApplication_up: "e_dbErr env (w_trace s) = None \<Longrightarrow> fst (GetApplication env n s) = Inr (appIn s n)"
  by (simp add: GetApplication_def wrapErr_def exec_def appIn_def)

lemma CreateApplication_form:
  "CreateApplication env rec s = (r, s') \<Longrightarrow> \<exists>t. (case r of
       Inl e \<Rightarrow> s' = s\<lparr>w_trace := t\<rparr>
     | Inr u \<Rightarrow> \<exists>row. s' = s\<lparr>w_trace := t, w_db := (w_db s)\<lparr>db_apps := db_apps (w_db s) @ [row]\<rparr>\<rparr> \<and> appIn s (ar_Name rec) = None
         \<and> ar_Name row = ar_Name rec \<and> ar_Manifest row = ar_Manifest rec \<and> ar_SyncStatus row = ar_SyncStatus rec \<and> ar_HealthStatus row = ar_HealthStatus rec
         \<and> ar_LastSyncedSHA row = [] \<and> ar_HeadSHA row = [] \<and> ar_LastSyncTime row = None \<and> ar_LastError row = None \<and> ar_ServicesJSON row = [])"
  by (rule exI [of _ "w_trace s'"])
     (cases r; force simp: CreateApplication_def wrapErr_def exec_def Let_def appIn_def selectRow_None list_ex_iff
        split: option.splits if_splits intro!: exI [of _ "last (db_apps (w_db s'))"])

lemma UpdateManifest_form:
  "UpdateManifest env n m s = (r, s') \<Longrightarrow> \<exists>t now. s' = (case r of
       Inl e \<Rightarrow> s\<lparr>w_trace := t\<rparr>
     | Inr u \<Rightarrow> s\<lparr>w_trace := t, w_db := (w_db s)\<lparr>db_apps := updateRows ar_Name n (\<lambda>r. r\<lparr>ar_Manifest := m, ar_UpdatedAt := now\<rparr>) (db_apps (w_db s))\<rparr>\<rparr>)"
  by (rule exI [of _ "w_trace s'"], rule exI [of _ "e_now env (w_trace s)"])
     (auto simp: UpdateManifest_def wrapErr_def exec_def Let_def split: option.splits)

lemma DeleteApplication_form:
  "DeleteApplication env n s = (r, s') \<Longrightarrow> \<exists>t. (case r of
       Inl e \<Rightarrow> (\<exists>t. s' = s\<lparr>w_trace := t\<rparr>) \<or> appIn s n = None
     | Inr u \<Rightarrow> s' = s\<lparr>w_trace := t, w_db := (w_db s)\<lparr>db_apps := deleteRows ar_Name n (db_apps (w_db s)),
         db_syncs := deleteRows sy_AppName n (db_syncs (w_db s)), db_events := deleteRows er_AppName n (db_events (w_db s))\<rparr>\<rparr>)"
  by (rule exI [of _ "w_trace s'"]) (auto simp: DeleteApplication_def exec_def appIn_def rowsAffected_0 split: option.splits if_splits)

lemma withApplication_cases:
  assumes "withApplication ae n s body = (resp, s')"
  obtains t code e kind where "s' = s\<lparr>w_trace := t\<rparr>" "resp = ErrorResponse code e kind"
    | t appRec where "appIn s n = Some appRec" "body appRec (s\<lparr>w_trace := t\<rparr>) = (resp, s')"
proof -
  obtain r s1 where g: "GetApplication (ae_env ae) n s = (r, s1)" by fastforce
  from GetApplication_form [OF g] obtain t where s1: "s1 = s\<lparr>w_trace := t\<rparr>" and r: "\<forall>x. r = Inr x \<longrightarrow> x = appIn s n" by blast
  show thesis
  proof (cases r)
    case (Inl e)
    then show thesis using that(1) assms g s1 by (auto simp: withApplication_def internalError_def)
  next
    case (Inr x)
    then show thesis
      using that assms g s1 r by (cases x) (auto simp: withApplication_def notFound_def)
  qed
qed

lemma h_GetApplication_up:
  assumes "e_dbErr (ae_env ae) (w_trace s) = None"
  shows "fst (h_GetApplication ae n s) = (case appIn s n of
     None \<Rightarrow> notFound ''application not found: %s'' n
   | Some r \<Rightarrow> (case buildAppResponse (ae_env ae) r of Inl e \<Rightarrow> internalError ''building response: %v'' e | Inr resp \<Rightarrow> AppResponseBody 200 resp))"
  using GetApplication_up [OF assms, of n]
  by (cases "GetApplication (ae_env ae) n s") (auto simp: h_GetApplication_def withApplication_def split: option.split sum.split)

text \<open>What a successful creation, update or deletion does to the record of an application.\<close>

lemma h_CreateApplication_ok:
  assumes "h_CreateApplication ae body s = (AppResponseBody code resp, s')"
  obtains row application where "appIn s (ar_Name row) = None" "appIn s' (ar_Name row) = Some row" "buildAppResponse (ae_env ae) row = Inr resp"
    "ar_Name row = meta_Name (Metadata application)" "ar_Manifest row = marshalApp (e_codec (ae_env ae)) application" "World.more s' = World.more s" "code = 201"
proof -
  from assms obtain a0 s1 u rec where a: "rec = newRecord (meta_Name (Metadata (ApplyDefaults a0))) (marshalApp (e_codec (ae_env ae)) (ApplyDefaults a0))"
    "GetApplication (ae_env ae) (meta_Name (Metadata (ApplyDefaults a0))) s = (Inr None, s1)"
    "CreateApplication (ae_env ae) rec s1 = (Inr u, s')" "buildAppResponse (ae_env ae) rec = Inr resp" "code = 201"
    by (auto simp: h_CreateApplication_def Let_def internalError_def badRequest_def split: sum.splits option.splits prod.splits)
  from GetApplication_form [OF a(2)] obtain t where s1: "s1 = s\<lparr>w_trace := t\<rparr>" by blast
  from CreateApplication_form [OF a(3)] obtain t' row where s': "s' = s1\<lparr>w_trace := t', w_db := (w_db s1)\<lparr>db_apps := db_apps (w_db s1) @ [row]\<rparr>\<rparr>"
    and row: "appIn s1 (ar_Name rec) = None" "ar_Name row = ar_Name rec" "ar_Manifest row = ar_Manifest rec" "ar_SyncStatus row = ar_SyncStatus rec" "ar_HealthStatus row = ar_HealthStatus rec"
      "ar_LastSyncedSHA row = []" "ar_HeadSHA row = []" "ar_LastSyncTime row = None" "ar_LastError row = None" "ar_ServicesJSON row = []"
    by auto
  have "buildAppResponse (ae_env ae) row = buildAppResponse (ae_env ae) rec"
    using row a(1) by (auto simp: buildAppResponse_def newRecord_def split: sum.split)
  moreover have "appIn s (ar_Name row) = None" using row(1,2) s1 by (simp add: appIn_def)
  moreover from this have "appIn s' (ar_Name row) = Some row" by (simp add: appIn_def s' s1 selectRow_append)
  ultimately show thesis
    using that [of row "ApplyDefaults a0"] row a by (simp add: s' s1 newRecord_def)
qed

lemma h_UpdateApplication_ok:
  assumes "h_UpdateApplication ae n body s = (AppResponseBody code resp, s')"
  obtains row row' where "appIn s n = Some row" "appIn s' n = Some row'" "buildAppResponse (ae_env ae) row' = Inr resp" "World.more s' = World.more s" "code = 200"
    "\<exists>m now. row' = row\<lparr>ar_Manifest := m, ar_UpdatedAt := now\<rparr>"
proof -
  from assms obtain a0 where w: "withApplication ae n s (\<lambda>record s.
      case UpdateManifest (ae_env ae) n (marshalApp (e_codec (ae_env ae)) (ApplyDefaults a0)) s of
        (Inl e, s) \<Rightarrow> (internalError ''updating application: %v'' e, s)
      | (Inr u, s) \<Rightarrow>
          (case buildAppResponse (ae_env ae) (record\<lparr>ar_Manifest := marshalApp (e_codec (ae_env ae)) (ApplyDefaults a0)\<rparr>) of
             Inl e \<Rightarrow> (internalError ''building response: %v'' e, s)
           | Inr resp \<Rightarrow> (AppResponseBody 200 resp, s))) = (AppResponseBody code resp, s')"
    by (auto simp: h_UpdateApplication_def Let_def badRequest_def split: sum.splits if_splits option.splits)
  let ?m = "marshalApp (e_codec (ae_env ae)) (ApplyDefaults a0)"
  from w show thesis
  proof (rule withApplication_cases)
    fix t row assume row: "appIn s n = Some row" and b: "(case UpdateManifest (ae_env ae) n ?m (s\<lparr>w_trace := t\<rparr>) of
        (Inl e, s) \<Rightarrow> (internalError ''updating application: %v'' e, s)
      | (Inr u, s) \<Rightarrow>
          (case buildAppResponse (ae_env ae) (row\<lparr>ar_Manifest := ?m\<rparr>) of
             Inl e \<Rightarrow> (internalError ''building response: %v'' e, s)
           | Inr resp \<Rightarrow> (AppResponseBody 200 resp, s))) = (AppResponseBody code resp, s')"
    then obtain u where u: "UpdateManifest (ae_env ae) n ?m (s\<lparr>w_trace := t\<rparr>) = (Inr u, s')" "buildAppResponse (ae_env ae) (row\<lparr>ar_Manifest := ?m\<rparr>) = Inr resp" "code = 200"
      by (auto simp: internalError_def split: prod.splits sum.splits)
    from UpdateManifest_form [OF u(1)] obtain t' now where s': "s' = s\<lparr>w_trace := t', w_db := (w_db s)\<lparr>db_apps :=
        updateRows ar_Name n (\<lambda>r. r\<lparr>ar_Manifest := ?m, ar_UpdatedAt := now\<rparr>) (db_apps (w_db s))\<rparr>\<rparr>" by auto
    let ?row' = "row\<lparr>ar_Manifest := ?m, ar_UpdatedAt := now\<rparr>"
    have "appIn s' n = Some ?row'" using row by (simp add: s' appIn_def selectRow_update)
    moreover have "buildAppResponse (ae_env ae) ?row' = Inr resp" using u(2) by (auto simp: buildAppResponse_def split: sum.splits)
    ultimately show thesis using that [of row ?row'] row u(3) by (auto simp: s')
  qed simp
qed

lemma h_DeleteApplication_ok:
  assumes "h_DeleteApplication ae n s = (DeletedResponse m, s')"
  shows "appIn s n \<noteq> None \<and> m = n \<and> World.more s' = World.more s \<and> (\<forall>k. appIn s' k = (if k = n then None else appIn s k))"
proof -
  from assms have w: "withApplication ae n s (\<lambda>appRec s.
       case DeleteApplication (ae_env ae) n s of
         (Inl e, s) \<Rightarrow> (internalError ''deleting application: %v'' e, s)
       | (Inr u, s) \<Rightarrow> (DeletedResponse n, s)) = (DeletedResponse m, s')"
    by (simp add: h_DeleteApplication_def)
  then show ?thesis
  proof (rule withApplication_cases)
    fix t row assume row: "appIn s n = Some row" and b: "(case DeleteApplication (ae_env ae) n (s\<lparr>w_trace := t\<rparr>) of
         (Inl e, s) \<Rightarrow> (internalError ''deleting application: %v'' e, s)
       | (Inr u, s) \<Rightarrow> (DeletedResponse n, s)) = (DeletedResponse m, s')"
    then obtain u where "DeleteApplication (ae_env ae) n (s\<lparr>w_trace := t\<rparr>) = (Inr u, s')" "m = n" by (auto simp: internalError_def split: prod.splits sum.splits)
    with DeleteApplication_form [OF this(1)] row show ?thesis by (auto simp: appIn_def selectRow_delete)
  qed simp
qed


section \<open>The poll interval\<close>

lemma wrap64_id: "- (2 ^ 63) \<le> x \<Longrightarrow> x < 2 ^ 63 \<Longrightarrow> wrap64 x = x"
  by (simp add: wrap64_def)

text \<open>
  The poll interval. A request either is refused and changes nothing, or sets the override to the
  interval it names, which is read back; an override in force is never below 30 seconds. This holds for
  intervals up to 9223372036854 ms: the product with a millisecond of a larger one wraps around.
\<close>

theorem poll_interval_set:
  assumes "h_SetPollInterval ae body s = (resp, s')" "ae_decodePoll ae body = Inr ms" "ms \<le> 9223372036854"
  shows "if 0 \<le> ms \<and> (ms = 0 \<or> 30000 \<le> ms)
    then resp = PollIntervalResponse ms \<and> s' = s\<lparr>s_pollOverride := ms * 1000000\<rparr> \<and> h_GetPollInterval s' = PollIntervalResponse ms
    else responseStatus resp = 400 \<and> s' = s"
proof -
  have "wrap64 (ms * 1000000) = ms * 1000000" if "0 \<le> ms" using that assms(3) by (intro wrap64_id) auto
  then have set_eq: "h_SetPollInterval ae body s =
     (if ms < 0 then (badRequest (Errorf ''intervalMs must be >= 0'' []), s)
      else if ms \<noteq> 0 \<and> ms < 30000 then (badRequest (Errorf ''intervalMs must be >= 30000 (30s) or 0 to clear'' []), s)
      else (PollIntervalResponse ms, s\<lparr>s_pollOverride := ms * 1000000\<rparr>))"
    by (simp add: h_SetPollInterval_def assms(2) SetPollOverride_def Let_def)
  have "h_GetPollInterval (s\<lparr>s_pollOverride := ms * 1000000\<rparr>) = PollIntervalResponse ms" if "0 \<le> ms"
    using that by (simp add: h_GetPollInterval_def)
  then show ?thesis using assms(1) unfolding set_eq by (auto simp: badRequest_def split: if_split_asm)
qed

lemma poll_interval_overflow:
  assumes "ae_decodePoll ae body = Inr 9223372036855"
  shows "h_SetPollInterval ae body s = (PollIntervalResponse 9223372036855, s\<lparr>s_pollOverride := - 9223372036854551616\<rparr>)"
  using assms by (simp add: h_SetPollInterval_def wrap64_def SetPollOverride_def)

section \<open>Adoption\<close>

text \<open>
  Adoption marks the application as synced but leaves the commit it is synced to as it was, so that the next
  reconciliation compares and deploys as if nothing had been adopted.
\<close>

lemma RecordSync_apps: "RecordSync env rec s = (r, s') \<Longrightarrow> appIn s' n = appIn s n"
  by (auto simp: RecordSync_def wrapErr_def exec_def Let_def appIn_def split: option.splits if_splits)

lemma adopt_keeps_synced_commit:
  assumes "h_AdoptApplication ae n s = (AdoptedResponse m k, s')" "appIn s n = Some r"
  shows "\<exists>r'. appIn s' n = Some r' \<and> ar_LastSyncedSHA r' = ar_LastSyncedSHA r"
proof -
  have "\<exists>r'. appIn s' n = Some r' \<and> ar_LastSyncedSHA r' = ar_LastSyncedSHA r"
    if "withManifest ae r0 (s\<lparr>w_trace := t\<rparr>) (\<lambda>application.
       if \<not> ae_inspector ae then (TextResponse 500 [], s\<lparr>w_trace := t\<rparr>)
       else case onTrace (Inspect (ae_env ae) (appDestination application)) (s\<lparr>w_trace := t\<rparr>) of
              (Inl e, s) \<Rightarrow> (internalError ''inspecting live state: %v'' e, s)
            | (Inr liveStates, s) \<Rightarrow>
                (let now = e_now (ae_env ae) (w_trace s)
                 in case RecordSync (ae_env ae) (adoptRecord n r0 now) s of
                      (Inl e, s) \<Rightarrow> (internalError ''recording sync: %v'' e, s)
                    | (Inr u, s) \<Rightarrow>
                        (AdoptedResponse n (length liveStates),
                         snd (UpdateApplicationStatus (ae_env ae) n (noUpdate\<lparr>su_SyncStatus := Some Synced, su_LastSyncTime := Some now,
                           su_ServicesJSON := marshalServices (e_codec (ae_env ae)) (serviceStatusesFromStates liveStates), su_LastError := Some None\<rparr>) s))))
       = (AdoptedResponse m k, s')" for r0 t
  proof -
    from that obtain s1 s2 live u now where rs: "RecordSync (ae_env ae) (adoptRecord n r0 now) s1 = (Inr u, s2)" and s1: "w_db s1 = w_db s"
      and s': "s' = snd (UpdateApplicationStatus (ae_env ae) n (noUpdate\<lparr>su_SyncStatus := Some Synced, su_LastSyncTime := Some now,
                           su_ServicesJSON := marshalServices (e_codec (ae_env ae)) (serviceStatusesFromStates live), su_LastError := Some None\<rparr>) s2)"
      by (auto simp: withManifest_def Let_def internalError_def onTrace_def split: sum.splits if_splits prod.splits)
    have "appIn s2 n = Some r" using RecordSync_apps [OF rs, of n] s1 assms(2) by (simp add: appIn_def)
    then show ?thesis by (auto simp: s' appIn_UpdateApplicationStatus applyStatus_def noUpdate_def)
  qed
  with assms(1) show ?thesis
    unfolding h_AdoptApplication_def by (elim withApplication_cases) auto
qed

section \<open>A concrete server\<close>

definition demoApi :: ApiEnv where
  "demoApi = \<lparr>ae_env = demoEnv (\<lambda>c p. []) [], ae_cfg = \<lparr>sd_deps = demoDeps (demoEnv (\<lambda>c p. []) []), sd_WorkerCount = 2, sd_DefaultPollInterval = 0, sd_ConfigDir = [],
       sd_ManifestRepoURL = [], sd_ManifestRepoPath = [], sd_ManifestRevision = []\<rparr>,
     ae_token = ''t0ken'', ae_webhook = demoWebhook, ae_scoped = False, ae_inspector = True, ae_decodeApp = (\<lambda>b. Inr demoApplication),
     ae_decodeRollback = (\<lambda>b. Inr ''9c1d''), ae_decodePoll = (\<lambda>b. Inr 60000), ae_SystemInfo = (\<lambda>t. Inr ''info''), ae_HostStats = (\<lambda>t. Inr ''stats''),
     ae_InspectWithMetrics = (\<lambda>t d. Inr []), ae_InspectServiceDetail = (\<lambda>t d n. Inr None), ae_GetServiceLogs = (\<lambda>t d n k. Inr [])\<rparr>"

theorem api_requires_token_witness:
  "responseStatus (fst (serveApi demoApi ''Bearer guess'' (DeleteApp ''web'') (demoSched []))) = 401
   \<and> snd (serveApi demoApi ''Bearer guess'' (DeleteApp ''web'') (demoSched [])) = demoSched []"
  using api_requires_token [of "DeleteApp ''web''" demoApi "''Bearer guess''" "demoSched []"] by (simp add: demoApi_def)

theorem poll_interval_set_witness:
  "\<exists>s'. h_SetPollInterval demoApi ''{}'' (demoSched []) = (PollIntervalResponse 60000, s') \<and> h_GetPollInterval s' = PollIntervalResponse 60000"
proof -
  obtain resp s' where h: "h_SetPollInterval demoApi ''{}'' (demoSched []) = (resp, s')" by fastforce
  have "ae_decodePoll demoApi ''{}'' = Inr 60000" by (simp add: demoApi_def)
  from poll_interval_set [OF h this] h show ?thesis by auto
qed


end
