(* ===== verification/GitSync.thy ===== *)
theory GitSync
  imports Manifest
begin

text \<open>
  Git repositories (\<^verbatim>\<open>gitsync/host_policy.go\<close>, \<^verbatim>\<open>gitsync/cache.go\<close>, \<^verbatim>\<open>gitsync/gitsync.go\<close>): the allow-list of hosts, the
  directories of the clones, and the operations of the syncer. The go-git library and the file system
  are answers that depend on the trace of requests so far; what the syncer asks of them is the trace.
\<close>

section \<open>Host policy\<close>

text \<open>\<^verbatim>\<open>strings.Trim(host, "[]")\<close>, and \<^verbatim>\<open>strings.ToLower\<close> on ASCII.\<close>

definition trimSet :: "char set \<Rightarrow> string \<Rightarrow> string" where
  "trimSet cs s = rev (dropWhile (\<lambda>c. c \<in> cs) (rev (dropWhile (\<lambda>c. c \<in> cs) s)))"

definition toLowerChar :: "char \<Rightarrow> char" where
  "toLowerChar c = (if 65 \<le> (of_char c :: nat) \<and> (of_char c :: nat) \<le> 90 then char_of ((of_char c :: nat) + 32) else c)"

definition ToLower :: "string \<Rightarrow> string" where
  "ToLower s = map toLowerChar s"

definition normalizeHost :: "string \<Rightarrow> string" where
  "normalizeHost host = ToLower (TrimSpace (trimSet {CHR ''['', CHR '']''} host))"

definition ContainsAny :: "string \<Rightarrow> string \<Rightarrow> bool" where
  "ContainsAny s chars = list_ex (\<lambda>c. c \<in> set chars) s"

type_synonym HostPolicy = "string list"

fun addHosts :: "string list \<Rightarrow> HostPolicy \<Rightarrow> HostPolicy result" where
  "addHosts [] allowed = Inr allowed"
| "addHosts (h # hs) allowed =
     (let host = normalizeHost h
      in if host = [] then addHosts hs allowed
         else if ContainsAny host ''/:@'' then Inl (Errorf ''invalid allowed Git host %q'' [host])
         else addHosts hs (List.insert host allowed))"

definition NewHostPolicy :: "string list \<Rightarrow> HostPolicy result" where
  "NewHostPolicy hosts =
     (case addHosts hosts [] of
        Inl e \<Rightarrow> Inl e
      | Inr allowed \<Rightarrow> if allowed = [] then Inl (Errorf ''at least one allowed Git host is required'' []) else Inr allowed)"

definition repoHost :: "NetLib \<Rightarrow> string \<Rightarrow> string result" where
  "repoHost net repoURL =
     (if HasPrefix repoURL ''git@'' then
        (case cut CHR '':'' (TrimPrefix repoURL ''git@'') of
           None \<Rightarrow> Inl (Errorf ''invalid SSH repository URL'' [])
         | Some (host, _) \<Rightarrow> if normalizeHost host = [] then Inl (Errorf ''invalid SSH repository URL'' []) else Inr (normalizeHost host))
      else case url_Parse net repoURL of
        Inl e \<Rightarrow> Inl (Wrapf ''invalid repository URL: %w'' [] e)
      | Inr u \<Rightarrow>
          (if Scheme u \<noteq> ''https'' \<and> Scheme u \<noteq> ''http'' \<and> Scheme u \<noteq> ''ssh'' then Inl (Errorf ''repository scheme %q is not allowed'' [Scheme u])
           else if Hostname u = [] then Inl (Errorf ''repository URL must include a hostname'' [])
           else if User u \<noteq> None \<and> (Scheme u \<noteq> ''ssh'' \<or> userName u = [] \<or> repoURLHasPassword u)
           then Inl (Errorf ''embedded repository credentials are not allowed'' [])
           else Inr (normalizeHost (Hostname u))))"

definition policy_ValidateRepoURL :: "NetLib \<Rightarrow> HostPolicy \<Rightarrow> string \<Rightarrow> err option" where
  "policy_ValidateRepoURL net allowed repoURL =
     (case repoHost net repoURL of
        Inl e \<Rightarrow> Some e
      | Inr host \<Rightarrow> if host \<in> set allowed then None else Some (Errorf ''Git host %q is not in the allowed-host policy'' [host]))"

definition CheckRedirect :: "NetLib \<Rightarrow> HostPolicy \<Rightarrow> string \<Rightarrow> err option" where
  "CheckRedirect net allowed url = map_option (Wrapf ''Git redirect denied: %w'' []) (policy_ValidateRepoURL net allowed url)"

section \<open>Requests\<close>

text \<open>Credentials: none, the configured token, or those of the URL. An answer is success, "already up to date" or an error.\<close>

datatype GitAuth = NoAuth | TokenAuth string | URLAuth string string

datatype GitAnswer = GitOk | AlreadyUpToDate | GitErr err

datatype GitEvent =
    GitClone string string string GitAuth "err option"
  | GitPull string string string GitAuth GitAnswer
  | GitFetch string string GitAuth GitAnswer
  | GitPush string string GitAuth GitAnswer
  | GitOpen string "err option"
  | GitWorktree string "err option"
  | GitHead string "string result"
  | GitCommitObject string string "err option"
  | GitCheckout string string "err option"
  | GitAdd string string "err option"
  | GitCommit string string "err option"
  | RemoveDir string "err option"

record GitEnv =
  ge_net :: NetLib
  ge_root :: string
  ge_hash :: "string \<Rightarrow> string"
  ge_policy :: "HostPolicy option"
  ge_token :: string
  ge_isDir :: "GitEvent list \<Rightarrow> string \<Rightarrow> bool"
  ge_stat :: "GitEvent list \<Rightarrow> string \<Rightarrow> bool"
  ge_clone :: "GitEvent list \<Rightarrow> string \<Rightarrow> err option"
  ge_net_answer :: "GitEvent list \<Rightarrow> string \<Rightarrow> GitAnswer"
  ge_local :: "GitEvent list \<Rightarrow> string \<Rightarrow> err option"
  ge_remove :: "GitEvent list \<Rightarrow> string \<Rightarrow> err option"
  ge_head :: "GitEvent list \<Rightarrow> string \<Rightarrow> string result"

text \<open>The state: the paths with a cached repository object, and the trace.\<close>

record Syncer =
  gs_repos :: "string list"
  gs_trace :: "GitEvent list"

definition cleanURL :: "GitEnv \<Rightarrow> string \<Rightarrow> string" where
  "cleanURL ge repoURL = (case url_Parse (ge_net ge) repoURL of
      Inl e \<Rightarrow> repoURL
    | Inr u \<Rightarrow> if User u = None then repoURL else url_StringNoUser (ge_net ge) repoURL)"

definition urlHash :: "GitEnv \<Rightarrow> string \<Rightarrow> string" where
  "urlHash ge raw = ge_hash ge (case url_Parse (ge_net ge) raw of
      Inr u \<Rightarrow> if User u \<noteq> None then url_StringNoUser (ge_net ge) raw else raw
    | Inl e \<Rightarrow> raw)"

definition PathFor :: "GitEnv \<Rightarrow> string \<Rightarrow> string" where
  "PathFor ge repoURL = filepath_Join (ge_root ge) (urlHash ge repoURL)"

definition cacheExists :: "GitEnv \<Rightarrow> string \<Rightarrow> Syncer \<Rightarrow> bool" where
  "cacheExists ge repoURL s = ge_isDir ge (gs_trace s) (PathFor ge repoURL)"

definition RepoPath :: "GitEnv \<Rightarrow> string \<Rightarrow> Syncer \<Rightarrow> string" where
  "RepoPath ge repoURL s = (if ge_stat ge (gs_trace s) (PathFor ge repoURL) then PathFor ge repoURL else [])"

definition authFor :: "GitEnv \<Rightarrow> string \<Rightarrow> GitAuth" where
  "authFor ge repoURL =
     (let global = (if ge_token ge \<noteq> [] then TokenAuth (ge_token ge) else NoAuth)
      in case url_Parse (ge_net ge) repoURL of
           Inl e \<Rightarrow> global
         | Inr u \<Rightarrow>
             (case User u of
                None \<Rightarrow> global
              | Some (name, pw) \<Rightarrow>
                  (let password = (case pw of None \<Rightarrow> [] | Some p \<Rightarrow> p)
                   in if name \<noteq> [] \<or> password \<noteq> [] then URLAuth name password else global)))"

section \<open>Operations\<close>

definition logGit :: "GitEvent \<Rightarrow> Syncer \<Rightarrow> Syncer" where
  "logGit e s = s\<lparr>gs_trace := gs_trace s @ [e]\<rparr>"

text \<open>A local request: its event is made from the answer.\<close>

definition localGit :: "GitEnv \<Rightarrow> string \<Rightarrow> (err option \<Rightarrow> GitEvent) \<Rightarrow> Syncer \<Rightarrow> err option \<times> Syncer" where
  "localGit ge path ev s = (let r = ge_local ge (gs_trace s) path in (r, logGit (ev r) s))"

definition removeDir :: "GitEnv \<Rightarrow> string \<Rightarrow> Syncer \<Rightarrow> err option \<times> Syncer" where
  "removeDir ge path s = (let r = ge_remove ge (gs_trace s) path in (r, logGit (RemoveDir path r) s))"

text \<open>\<^verbatim>\<open>if err != nil { return wrap(err) }\<close> after a call.\<close>

definition orReturn :: "err option \<times> Syncer \<Rightarrow> (err \<Rightarrow> err) \<Rightarrow> (Syncer \<Rightarrow> err option \<times> Syncer) \<Rightarrow> err option \<times> Syncer" where
  "orReturn call wrap rest = (case call of (Some e, s) \<Rightarrow> (Some (wrap e), s) | (None, s) \<Rightarrow> rest s)"

definition getOrOpenRepo :: "GitEnv \<Rightarrow> string \<Rightarrow> Syncer \<Rightarrow> err option \<times> Syncer" where
  "getOrOpenRepo ge path s =
     (if path \<in> set (gs_repos s) then (None, s)
      else orReturn (localGit ge path (GitOpen path) s) id (\<lambda>s. (None, s\<lparr>gs_repos := path # gs_repos s\<rparr>)))"

definition cacheRepo :: "string \<Rightarrow> Syncer \<Rightarrow> Syncer" where
  "cacheRepo path s = s\<lparr>gs_repos := List.insert path (gs_repos s)\<rparr>"

definition evictRepo :: "string \<Rightarrow> Syncer \<Rightarrow> Syncer" where
  "evictRepo path s = s\<lparr>gs_repos := removeAll path (gs_repos s)\<rparr>"

definition closeSyncer :: "Syncer \<Rightarrow> Syncer" where
  "closeSyncer s = s\<lparr>gs_repos := []\<rparr>"

text \<open>A request to the remote of a clone; being up to date already is no error.\<close>

definition netGit :: "GitEnv \<Rightarrow> string \<Rightarrow> (GitAnswer \<Rightarrow> GitEvent) \<Rightarrow> Syncer \<Rightarrow> err option \<times> Syncer" where
  "netGit ge repoURL ev s =
     (let r = ge_net_answer ge (gs_trace s) repoURL
      in (case r of GitErr e \<Rightarrow> Some e | GitOk \<Rightarrow> None | AlreadyUpToDate \<Rightarrow> None, logGit (ev r) s))"

definition cloneRepo :: "GitEnv \<Rightarrow> string \<Rightarrow> string \<Rightarrow> string \<Rightarrow> Syncer \<Rightarrow> err option \<times> Syncer" where
  "cloneRepo ge repoURL path ref s =
     (let r = ge_clone ge (gs_trace s) repoURL
      in orReturn (r, logGit (GitClone repoURL path ref (authFor ge repoURL) r) s) (Wrapf ''cloning %q: %w'' [cleanURL ge repoURL]) (\<lambda>s. (None, s)))"

definition pullRepo :: "GitEnv \<Rightarrow> string \<Rightarrow> string \<Rightarrow> string \<Rightarrow> Syncer \<Rightarrow> err option \<times> Syncer" where
  "pullRepo ge path ref repoURL s =
     orReturn (getOrOpenRepo ge path s) (Wrapf ''opening repo at %q: %w'' [path]) (\<lambda>s.
     orReturn (localGit ge path (GitWorktree path) s) (Wrapf ''getting worktree: %w'' []) (\<lambda>s.
     orReturn (netGit ge repoURL (GitPull repoURL path ref (authFor ge repoURL)) s) (Wrapf ''pulling %q: %w'' [ref]) (\<lambda>s. (None, s))))"

text \<open>The check of the policy with which each operation starts.\<close>

definition deniedBy :: "GitEnv \<Rightarrow> string \<Rightarrow> err option" where
  "deniedBy ge repoURL = (case ge_policy ge of None \<Rightarrow> None | Some p \<Rightarrow> policy_ValidateRepoURL (ge_net ge) p repoURL)"

text \<open>Of \<^verbatim>\<open>Sync\<close>: pull, and when that fails remove the directory and clone again; or clone.\<close>

definition refreshClone :: "GitEnv \<Rightarrow> string \<Rightarrow> string \<Rightarrow> Syncer \<Rightarrow> err option \<times> Syncer" where
  "refreshClone ge repoURL ref s =
     (let repoPath = PathFor ge repoURL
      in if cacheExists ge repoURL s then
           (case pullRepo ge repoPath ref repoURL s of
              (None, s) \<Rightarrow> (None, s)
            | (Some e, s) \<Rightarrow>
                orReturn (removeDir ge repoPath (evictRepo repoPath s)) (Wrapf ''removing corrupted repo %q: %w'' [repoPath]) (\<lambda>s.
                orReturn (cloneRepo ge repoURL repoPath ref s) (Wrapf ''re-clone after pull failure: %w'' []) (\<lambda>s.
                (None, cacheRepo repoPath s))))
         else orReturn (cloneRepo ge repoURL repoPath ref s) id (\<lambda>s. (None, cacheRepo repoPath s)))"

definition Sync :: "GitEnv \<Rightarrow> SourceSpec \<Rightarrow> Syncer \<Rightarrow> string result \<times> Syncer" where
  "Sync ge source s =
     (case deniedBy ge (RepoURL source) of
        Some e \<Rightarrow> (Inl e, s)
      | None \<Rightarrow>
          (let branch = (if TargetRevision source = [] then ''main'' else TargetRevision source); repoPath = PathFor ge (RepoURL source)
           in case refreshClone ge (RepoURL source) branch s of
                (Some e, s) \<Rightarrow> (Inl e, s)
              | (None, s) \<Rightarrow>
                  (let r = ge_head ge (gs_trace s) repoPath; s = logGit (GitHead repoPath r) s
                   in (case r of Inl e \<Rightarrow> Inl (Wrapf ''getting HEAD: %w'' [] e) | Inr sha \<Rightarrow> Inr sha, s))))"

text \<open>The rest of \<^verbatim>\<open>CheckoutSHA\<close> once the commit is there.\<close>

definition checkoutCommit :: "GitEnv \<Rightarrow> string \<Rightarrow> string \<Rightarrow> Syncer \<Rightarrow> err option \<times> Syncer" where
  "checkoutCommit ge path sha s =
     orReturn (localGit ge path (GitWorktree path) s) (Wrapf ''getting worktree: %w'' []) (\<lambda>s.
     orReturn (localGit ge path (GitCheckout path sha) s) (Wrapf ''checking out %s: %w'' [sha]) (\<lambda>s. (None, s)))"

definition CheckoutSHA :: "GitEnv \<Rightarrow> string \<Rightarrow> string \<Rightarrow> Syncer \<Rightarrow> err option \<times> Syncer" where
  "CheckoutSHA ge repoURL sha s =
     (case deniedBy ge repoURL of
        Some e \<Rightarrow> (Some e, s)
      | None \<Rightarrow>
          (let repoPath = PathFor ge repoURL
           in orReturn (getOrOpenRepo ge repoPath s) (Wrapf ''opening repo at %q: %w'' [repoPath]) (\<lambda>s.
              case localGit ge repoPath (GitCommitObject repoPath sha) s of
                (None, s) \<Rightarrow> checkoutCommit ge repoPath sha s
              | (Some e, s) \<Rightarrow>
                  orReturn (netGit ge repoURL (GitFetch repoURL repoPath (authFor ge repoURL)) s) (Wrapf ''fetching full history: %w'' []) (\<lambda>s.
                  orReturn (localGit ge repoPath (GitCommitObject repoPath sha) s) (Wrapf ''commit %s not found after fetch: %w'' [sha])
                    (checkoutCommit ge repoPath sha)))))"

fun stageFiles :: "GitEnv \<Rightarrow> string \<Rightarrow> string list \<Rightarrow> Syncer \<Rightarrow> err option \<times> Syncer" where
  "stageFiles ge path [] s = (None, s)"
| "stageFiles ge path (f # fs) s = orReturn (localGit ge path (GitAdd path f) s) (Wrapf ''staging %s: %w'' [f]) (stageFiles ge path fs)"

definition Commit :: "GitEnv \<Rightarrow> string \<Rightarrow> string \<Rightarrow> string list \<Rightarrow> Syncer \<Rightarrow> err option \<times> Syncer" where
  "Commit ge repoURL message files s =
     (case deniedBy ge repoURL of
        Some e \<Rightarrow> (Some e, s)
      | None \<Rightarrow>
          (let repoPath = PathFor ge repoURL
           in orReturn (getOrOpenRepo ge repoPath s) (Wrapf ''opening repo: %w'' []) (\<lambda>s.
              orReturn (localGit ge repoPath (GitWorktree repoPath) s) (Wrapf ''getting worktree: %w'' []) (\<lambda>s.
              orReturn (stageFiles ge repoPath files s) id (\<lambda>s.
              orReturn (localGit ge repoPath (GitCommit repoPath message) s) (Wrapf ''creating commit: %w'' []) (\<lambda>s. (None, s)))))))"

definition Push :: "GitEnv \<Rightarrow> string \<Rightarrow> Syncer \<Rightarrow> err option \<times> Syncer" where
  "Push ge repoURL s =
     (case deniedBy ge repoURL of
        Some e \<Rightarrow> (Some e, s)
      | None \<Rightarrow>
          (let repoPath = PathFor ge repoURL
           in orReturn (getOrOpenRepo ge repoPath s) (Wrapf ''opening repo: %w'' []) (\<lambda>s.
              orReturn (netGit ge repoURL (GitPush repoURL repoPath (authFor ge repoURL)) s) (Wrapf ''pushing to origin: %w'' []) (\<lambda>s. (None, s)))))"

section \<open>What the syncer asks of the network\<close>

fun netRequest :: "GitEvent \<Rightarrow> (string \<times> string \<times> GitAuth) option" where
  "netRequest (GitClone u p ref a r) = Some (u, p, a)"
| "netRequest (GitPull u p ref a r) = Some (u, p, a)"
| "netRequest (GitFetch u p a r) = Some (u, p, a)"
| "netRequest (GitPush u p a r) = Some (u, p, a)"
| "netRequest _ = None"

definition asksOnly :: "GitEnv \<Rightarrow> string \<Rightarrow> Syncer \<Rightarrow> Syncer \<Rightarrow> bool" where
  "asksOnly ge u s s' = (\<exists>es. gs_trace s' = gs_trace s @ es
     \<and> list_all (\<lambda>e. netRequest e = None \<or> netRequest e = Some (u, PathFor ge u, authFor ge u)) es)"

named_theorems asks \<open>the requests of an operation\<close>

lemma asksOnly_refl [simp, asks]: "asksOnly ge u s s"
  by (simp add: asksOnly_def)

lemma asksOnly_trans: "asksOnly ge u s s' \<Longrightarrow> asksOnly ge u s' s'' \<Longrightarrow> asksOnly ge u s s''"
  unfolding asksOnly_def by auto

lemma asksOnly_log [asks]: "netRequest e = None \<or> netRequest e = Some (u, PathFor ge u, authFor ge u) \<Longrightarrow> asksOnly ge u s (logGit e s)"
  unfolding asksOnly_def logGit_def by auto

lemma asksOnly_repos [simp]: "asksOnly ge u s (s'\<lparr>gs_repos := rs\<rparr>) = asksOnly ge u s s'" "asksOnly ge u (s\<lparr>gs_repos := rs\<rparr>) s' = asksOnly ge u s s'"
  by (simp_all add: asksOnly_def)

lemma orReturn_asks [asks]: "asksOnly ge u s (snd call) \<Longrightarrow> (\<And>s. asksOnly ge u s (snd (rest s))) \<Longrightarrow> asksOnly ge u s (snd (orReturn call wrap rest))"
  by (auto simp: orReturn_def split: prod.splits option.splits intro: asksOnly_trans)

lemma localGit_asks [asks]: "(\<And>r. netRequest (ev r) = None) \<Longrightarrow> asksOnly ge u s (snd (localGit ge path ev s))"
  by (simp add: localGit_def Let_def asksOnly_log)

lemma netGit_asks [asks]: "(\<And>r. netRequest (ev r) = Some (u, PathFor ge u, authFor ge u)) \<Longrightarrow> asksOnly ge u s (snd (netGit ge u ev s))"
  by (simp add: netGit_def Let_def asksOnly_log)

lemma removeDir_asks [asks]: "asksOnly ge u s (snd (removeDir ge path s))"
  by (simp add: removeDir_def Let_def asksOnly_log)

lemma getOrOpenRepo_asks [asks]: "asksOnly ge u s (snd (getOrOpenRepo ge path s))"
  by (auto simp: getOrOpenRepo_def intro!: asks)

lemma cloneRepo_asks [asks]: "asksOnly ge u s (snd (cloneRepo ge u (PathFor ge u) ref s))"
  by (auto simp: cloneRepo_def Let_def intro!: asks)

lemma pullRepo_asks [asks]: "asksOnly ge u s (snd (pullRepo ge (PathFor ge u) ref u s))"
  by (auto simp: pullRepo_def intro!: asks)

lemma stageFiles_asks [asks]: "asksOnly ge u s (snd (stageFiles ge path fs s))"
  by (induction fs arbitrary: s) (auto intro!: asks)

lemma checkoutCommit_asks [asks]: "asksOnly ge u s (snd (checkoutCommit ge path sha s))"
  by (auto simp: checkoutCommit_def intro!: asks)

lemma refreshClone_asks: "asksOnly ge u s (snd (refreshClone ge u ref s))"
proof (cases "cacheExists ge u s")
  case True
  obtain r s1 where p: "pullRepo ge (PathFor ge u) ref u s = (r, s1)" by fastforce
  then have 1: "asksOnly ge u s s1" using pullRepo_asks [of ge u s ref] by simp
  let ?rest = "orReturn (removeDir ge (PathFor ge u) (evictRepo (PathFor ge u) s1)) (Wrapf ''removing corrupted repo %q: %w'' [PathFor ge u]) (\<lambda>s.
    orReturn (cloneRepo ge u (PathFor ge u) ref s) (Wrapf ''re-clone after pull failure: %w'' []) (\<lambda>s. (None, cacheRepo (PathFor ge u) s)))"
  have "asksOnly ge u (evictRepo (PathFor ge u) s1) (snd ?rest)" by (auto simp: cacheRepo_def intro!: asks)
  then have "asksOnly ge u s (snd ?rest)" using asksOnly_trans [OF 1] by (simp add: evictRepo_def)
  then show ?thesis using True p 1 by (simp add: refreshClone_def Let_def split: option.split)
qed (auto simp: refreshClone_def Let_def cacheRepo_def intro!: asks)

lemma Sync_asks: "if deniedBy ge (RepoURL source) = None then asksOnly ge (RepoURL source) s (snd (Sync ge source s)) else snd (Sync ge source s) = s"
proof (cases "deniedBy ge (RepoURL source)")
  case None
  let ?ref = "if TargetRevision source = [] then ''main'' else TargetRevision source"
  obtain r s1 where c: "refreshClone ge (RepoURL source) ?ref s = (r, s1)" by fastforce
  have 1: "asksOnly ge (RepoURL source) s s1" using refreshClone_asks [of ge "RepoURL source" s ?ref] c by simp
  have "asksOnly ge (RepoURL source) s (logGit (GitHead (PathFor ge (RepoURL source)) x) s1)" for x
    by (rule asksOnly_trans [OF 1]) (simp add: asksOnly_log)
  then show ?thesis using 1 c None by (simp add: Sync_def Let_def split: option.split)
qed (simp add: Sync_def)

lemma CheckoutSHA_asks: "if deniedBy ge u = None then asksOnly ge u s (snd (CheckoutSHA ge u sha s)) else snd (CheckoutSHA ge u sha s) = s"
proof (cases "deniedBy ge u")
  case None
  let ?p = "PathFor ge u"
  let ?find = "\<lambda>s. case localGit ge ?p (GitCommitObject ?p sha) s of
      (None, s) \<Rightarrow> checkoutCommit ge ?p sha s
    | (Some e, s) \<Rightarrow>
        orReturn (netGit ge u (GitFetch u ?p (authFor ge u)) s) (Wrapf ''fetching full history: %w'' []) (\<lambda>s.
        orReturn (localGit ge ?p (GitCommitObject ?p sha) s) (Wrapf ''commit %s not found after fetch: %w'' [sha]) (checkoutCommit ge ?p sha))"
  have "asksOnly ge u s (snd (?find s))" for s
  proof -
    obtain r s1 where l: "localGit ge ?p (GitCommitObject ?p sha) s = (r, s1)" by fastforce
    have 1: "asksOnly ge u s s1" using localGit_asks [of "GitCommitObject ?p sha" ge u s ?p] l by simp
    have "asksOnly ge u s1 (snd (case r of None \<Rightarrow> checkoutCommit ge ?p sha s1
       | Some e \<Rightarrow> orReturn (netGit ge u (GitFetch u ?p (authFor ge u)) s1) (Wrapf ''fetching full history: %w'' []) (\<lambda>s.
           orReturn (localGit ge ?p (GitCommitObject ?p sha) s) (Wrapf ''commit %s not found after fetch: %w'' [sha]) (checkoutCommit ge ?p sha))))"
      by (auto split: option.split intro!: asks)
    from asksOnly_trans [OF 1 this] show ?thesis by (simp add: l split: option.split)
  qed
  then show ?thesis using None by (auto simp: CheckoutSHA_def Let_def intro!: asks)
qed (simp add: CheckoutSHA_def)

lemma Commit_asks: "if deniedBy ge u = None then asksOnly ge u s (snd (Commit ge u m fs s)) else snd (Commit ge u m fs s) = s"
  by (cases "deniedBy ge u") (auto simp: Commit_def Let_def intro!: asks)

lemma Push_asks: "if deniedBy ge u = None then asksOnly ge u s (snd (Push ge u s)) else snd (Push ge u s) = s"
  by (cases "deniedBy ge u") (auto simp: Push_def Let_def intro!: asks)

text \<open>A use of the syncer: any sequence of its operations.\<close>

datatype GitOp = OpSync SourceSpec | OpCheckout string string | OpCommit string string "string list" | OpPush string | OpClose

fun gitOp :: "GitEnv \<Rightarrow> GitOp \<Rightarrow> Syncer \<Rightarrow> Syncer" where
  "gitOp ge (OpSync src) s = snd (Sync ge src s)"
| "gitOp ge (OpCheckout u sha) s = snd (CheckoutSHA ge u sha s)"
| "gitOp ge (OpCommit u m fs) s = snd (Commit ge u m fs s)"
| "gitOp ge (OpPush u) s = snd (Push ge u s)"
| "gitOp ge OpClose s = closeSyncer s"

lemma gitOp_asks: "\<exists>u. gs_trace (gitOp ge op s) = gs_trace s \<or> deniedBy ge u = None \<and> asksOnly ge u s (gitOp ge op s)"
proof (cases op)
  case (OpSync src)
  then show ?thesis using Sync_asks [of ge src s] by (auto split: if_splits)
next
  case (OpCheckout u sha)
  then show ?thesis using CheckoutSHA_asks [of ge u s sha] by (auto split: if_splits)
next
  case (OpCommit u m fs)
  then show ?thesis using Commit_asks [of ge u s m fs] by (auto split: if_splits)
next
  case (OpPush u)
  then show ?thesis using Push_asks [of ge u s] by (auto split: if_splits)
qed (simp add: closeSyncer_def)

definition polite :: "GitEnv \<Rightarrow> GitEvent \<Rightarrow> bool" where
  "polite ge e = (case netRequest e of None \<Rightarrow> True | Some (u, p, a) \<Rightarrow> deniedBy ge u = None \<and> p = PathFor ge u \<and> a = authFor ge u)"

lemma gitOp_polite: "\<exists>es. gs_trace (gitOp ge op s) = gs_trace s @ es \<and> list_all (polite ge) es"
  using gitOp_asks [of ge op s] unfolding asksOnly_def list_all_iff polite_def by (elim exE disjE conjE) (simp, fastforce)

lemma gitOps_polite: "\<exists>es. gs_trace (fold (gitOp ge) ops s) = gs_trace s @ es \<and> list_all (polite ge) es"
proof (induction ops arbitrary: s)
  case (Cons op ops)
  from gitOp_polite [of ge op s] obtain es where es: "gs_trace (gitOp ge op s) = gs_trace s @ es" "list_all (polite ge) es" by blast
  from Cons.IH [of "gitOp ge op s"] obtain fs where "gs_trace (fold (gitOp ge) ops (gitOp ge op s)) = gs_trace (gitOp ge op s) @ fs" "list_all (polite ge) fs" by blast
  with es have "gs_trace (fold (gitOp ge) (op # ops) s) = gs_trace s @ es @ fs \<and> list_all (polite ge) (es @ fs)" by simp
  then show ?case by blast
qed simp

text \<open>What an accepted URL is: its host is on the list, and an HTTP URL carries no credentials.\<close>

lemma deniedBy_None:
  assumes "ge_policy ge = Some allowed" "deniedBy ge u = None"
  shows "\<exists>host. repoHost (ge_net ge) u = Inr host \<and> host \<in> set allowed"
  using assms by (auto simp: deniedBy_def policy_ValidateRepoURL_def split: sum.splits if_splits)

lemma authFor_accepted:
  assumes "repoHost (ge_net ge) u = Inr host" "\<not> HasPrefix u ''git@''" "authFor ge u = URLAuth name pw"
  shows "pw = [] \<and> (\<exists>U. url_Parse (ge_net ge) u = Inr U \<and> Scheme U = ''ssh'')"
  using assms
  by (auto simp: repoHost_def authFor_def Let_def repoURLHasPassword_def split: sum.splits if_splits option.splits)


definition demoGit :: GitEnv where
  "demoGit = \<lparr>ge_net = demoNet, ge_root = ''/data/git'', ge_hash = id, ge_policy = Some [''git.example.com''], ge_token = ''t0k'',
     ge_isDir = (\<lambda>t p. RemoveDir p None \<notin> set t), ge_stat = (\<lambda>t p. True), ge_clone = (\<lambda>t u. None),
     ge_net_answer = (\<lambda>t u. GitErr (Errorf ''object not found'' [])), ge_local = (\<lambda>t p. None), ge_remove = (\<lambda>t p. None), ge_head = (\<lambda>t p. Inr ''4f2a'')\<rparr>"

definition demoSource :: SourceSpec where
  "demoSource = \<lparr>RepoURL = ''https://git.example.com/infra'', TargetRevision = [], Path = [], ComposeFiles = []\<rparr>"

lemma demoGit_sync: "gs_trace (snd (Sync demoGit demoSource \<lparr>gs_repos = [], gs_trace = []\<rparr>))
   = (let p = PathFor demoGit (RepoURL demoSource) in
      [GitOpen p None, GitWorktree p None, GitPull (RepoURL demoSource) p ''main'' (TokenAuth ''t0k'') (GitErr (Errorf ''object not found'' [])),
       RemoveDir p None, GitClone (RepoURL demoSource) p ''main'' (TokenAuth ''t0k'') None, GitHead p (Inr ''4f2a'')])"
proof -
  have "policy_ValidateRepoURL demoNet [''git.example.com''] ''https://git.example.com/infra'' = None" by code_simp
  then show ?thesis
    by (simp add: Sync_def demoGit_def demoSource_def deniedBy_def Let_def refreshClone_def cacheExists_def pullRepo_def orReturn_def getOrOpenRepo_def
        localGit_def logGit_def netGit_def removeDir_def cloneRepo_def evictRepo_def cacheRepo_def authFor_def demoNet_def)
qed


section \<open>A sync recovers\<close>

lemma pullRepo_cached: "pullRepo ge p ref u s = (None, s') \<Longrightarrow> p \<in> set (gs_repos s')"
  by (auto simp: pullRepo_def orReturn_def getOrOpenRepo_def localGit_def netGit_def logGit_def Let_def split: prod.splits option.splits if_splits)

text \<open>
  Whatever state the cached directory of an accepted repository is in, and whatever the pull answers,
  a sync returns a head commit as long as the remote can be cloned, the directory can be removed and the
  head can be read. A clone that could be pulled is kept; one that could not is removed first and then
  cloned again; the repository is cached afterwards.
\<close>

theorem Sync_recovers:
  fixes ge s source
  defines "u \<equiv> RepoURL source" and "p \<equiv> PathFor ge (RepoURL source)"
    and "ref \<equiv> (if TargetRevision source = [] then ''main'' else TargetRevision source)"
  defines "cloned \<equiv> GitClone (RepoURL source) (PathFor ge (RepoURL source)) (if TargetRevision source = [] then ''main'' else TargetRevision source)
      (authFor ge (RepoURL source)) None"
  assumes "deniedBy ge u = None" and "\<And>t. ge_clone ge t u = None" and "\<And>t. ge_remove ge t p = None" and "\<And>t. \<exists>sha. ge_head ge t p = Inr sha"
  shows "\<exists>sha s'. Sync ge source s = (Inr sha, s') \<and> p \<in> set (gs_repos s')
    \<and> gs_trace s' = (if \<not> cacheExists ge u s then gs_trace s @ [cloned, GitHead p (Inr sha)]
         else case pullRepo ge p ref u s of
                (None, s1) \<Rightarrow> gs_trace s1 @ [GitHead p (Inr sha)]
              | (Some e, s1) \<Rightarrow> gs_trace s1 @ [RemoveDir p None, cloned, GitHead p (Inr sha)])"
proof -
  have "\<exists>s'. refreshClone ge u ref s = (None, s') \<and> p \<in> set (gs_repos s')
      \<and> gs_trace s' = (if \<not> cacheExists ge u s then gs_trace s @ [cloned]
         else case pullRepo ge p ref u s of (None, s1) \<Rightarrow> gs_trace s1 | (Some e, s1) \<Rightarrow> gs_trace s1 @ [RemoveDir p None, cloned])"
    using assms(6,7) pullRepo_cached [of ge p ref u s]
    by (auto simp: refreshClone_def Let_def u_def p_def ref_def cloned_def orReturn_def removeDir_def cloneRepo_def evictRepo_def cacheRepo_def logGit_def
        split: option.splits prod.splits)
  then obtain s1 where s1: "refreshClone ge u ref s = (None, s1)" "p \<in> set (gs_repos s1)" and
    t: "gs_trace s1 = (if \<not> cacheExists ge u s then gs_trace s @ [cloned]
         else case pullRepo ge p ref u s of (None, s1) \<Rightarrow> gs_trace s1 | (Some e, s1) \<Rightarrow> gs_trace s1 @ [RemoveDir p None, cloned])" by blast
  obtain sha where "ge_head ge (gs_trace s1) p = Inr sha" using assms(8) by blast
  then have "Sync ge source s = (Inr sha, logGit (GitHead p (Inr sha)) s1)"
    using assms(5) s1(1) by (simp add: Sync_def Let_def u_def p_def ref_def)
  then show ?thesis using s1(2) t by (auto simp: logGit_def split: prod.splits option.splits)
qed

theorem Sync_recovers_witness:
  "\<exists>sha s'. Sync demoGit demoSource \<lparr>gs_repos = [], gs_trace = []\<rparr> = (Inr sha, s') \<and> PathFor demoGit (RepoURL demoSource) \<in> set (gs_repos s')"
proof -
  have "deniedBy demoGit (RepoURL demoSource) = None" by code_simp
  then show ?thesis
    using Sync_recovers [of demoGit demoSource "\<lparr>gs_repos = [], gs_trace = []\<rparr>"] by (auto simp: demoGit_def)
qed

text \<open>
  The directory depends on the URL without its user, and not on the revision: two sources that differ in
  these share one worktree, while the mutex of the syncer is one per URL as written.
\<close>

lemma PathFor_ignores_user:
  assumes "url_Parse (ge_net ge) u = Inr U" "User U \<noteq> None" "url_Parse (ge_net ge) v = Inr V" "User V \<noteq> None"
    and "url_StringNoUser (ge_net ge) u = url_StringNoUser (ge_net ge) v"
  shows "PathFor ge u = PathFor ge v"
  using assms by (simp add: PathFor_def urlHash_def)

end
