(* ===== verification/DaemonConfig.thy ===== *)
theory DaemonConfig
  imports GitSync
begin

text \<open>
  The configuration of the daemon (\<^verbatim>\<open>config/config.go\<close>, \<^verbatim>\<open>config/defaults.go\<close>): its record, the
  defaults, the checks of \<^verbatim>\<open>Validate\<close> and the rejection of retired settings. Reading files and environment variables
  with viper is a parameter; the headers of notification webhooks, which no check reads, are left out.
\<close>

section \<open>Data\<close>

record TLSHostConfig =
  th_Host :: string
  th_CertPath :: string
  th_InsecureSkipVerify :: bool
  th_DevelopmentAcknowledgement :: string

record Config =
  cfg_DataDir :: string
  cfg_ConfigDir :: string
  cfg_LogLevel :: string
  cfg_APIHost :: string
  cfg_APIPort :: int
  cfg_DockerHost :: string
  cfg_WorkerCount :: int
  cfg_DefaultPollInterval :: duration
  cfg_GitToken :: string
  cfg_GitAllowedHosts :: "string list"
  cfg_WebhookSecret :: string
  cfg_TLS :: "TLSHostConfig list"
  cfg_APIToken :: string
  cfg_AllowInsecureNoAuth :: bool
  cfg_PresentationCredentialsFile :: string
  cfg_PresentationAudience :: string
  cfg_ImagePollInterval :: duration
  cfg_ManifestRepoURL :: string
  cfg_ManifestRepoPath :: string
  cfg_ManifestRevision :: string

definition defaultConfig :: Config where
  "defaultConfig =
     \<lparr>cfg_DataDir = ''/data'', cfg_ConfigDir = ''/config/applications'', cfg_LogLevel = ''info'', cfg_APIHost = ''127.0.0.1'',
      cfg_APIPort = 8080, cfg_DockerHost = ''unix:///var/run/docker.sock'', cfg_WorkerCount = 4, cfg_DefaultPollInterval = 180 * Second,
      cfg_GitToken = [], cfg_GitAllowedHosts = [''github.com''], cfg_WebhookSecret = [], cfg_TLS = [], cfg_APIToken = [],
      cfg_AllowInsecureNoAuth = False, cfg_PresentationCredentialsFile = [], cfg_PresentationAudience = [],
      cfg_ImagePollInterval = 300 * Second, cfg_ManifestRepoURL = [], cfg_ManifestRepoPath = ''applications'',
      cfg_ManifestRevision = ''main''\<rparr>"

section \<open>Checks\<close>

definition InsecureTLSDevelopmentAcknowledgement :: string where
  "InsecureTLSDevelopmentAcknowledgement = ''I_UNDERSTAND_INSECURE_TLS_IS_FOR_LOCAL_DEVELOPMENT_ONLY''"

text \<open>\<^verbatim>\<open>strings.EqualFold\<close> against an ASCII word.\<close>

definition EqualFold :: "string \<Rightarrow> string \<Rightarrow> bool" where
  "EqualFold s t = (ToLower s = ToLower t)"

definition isLoopbackName :: "NetLib \<Rightarrow> string \<Rightarrow> bool" where
  "isLoopbackName net host =
     (EqualFold host ''localhost'' \<or> (case ParseIP net host of None \<Rightarrow> False | Some ip \<Rightarrow> IsLoopback ip))"

definition isLoopbackAPIHost :: "NetLib \<Rightarrow> string \<Rightarrow> bool" where
  "isLoopbackAPIHost net host = isLoopbackName net (TrimSpace host)"

definition isLoopbackDockerHost :: "NetLib \<Rightarrow> string \<Rightarrow> bool" where
  "isLoopbackDockerHost net host =
     (case url_Parse net host of
        Inl e \<Rightarrow> False
      | Inr parsed \<Rightarrow> Scheme parsed = ''tcp'' \<and> isLoopbackName net (Hostname parsed))"

definition tls_Validate :: "NetLib \<Rightarrow> TLSHostConfig \<Rightarrow> err option" where
  "tls_Validate net c =
     (if TrimSpace (th_Host c) = [] then Some (Errorf ''host must not be empty'' [])
      else if TrimSpace (th_CertPath c) = [] then Some (Errorf ''cert_path must not be empty'' [])
      else if \<not> th_InsecureSkipVerify c then None
      else if th_DevelopmentAcknowledgement c \<noteq> InsecureTLSDevelopmentAcknowledgement
      then Some (Errorf ''insecure_skip_verify requires development_acknowledgement %q'' [InsecureTLSDevelopmentAcknowledgement])
      else if \<not> isLoopbackDockerHost net (th_Host c)
      then Some (Errorf ''insecure_skip_verify is only allowed for a loopback Docker host'' [])
      else None)"

definition validatePresentationAPI :: "Config \<Rightarrow> err option" where
  "validatePresentationAPI c =
     (let registryPath = TrimSpace (cfg_PresentationCredentialsFile c); audience = TrimSpace (cfg_PresentationAudience c)
      in if registryPath = [] \<and> audience = [] then None
         else if registryPath = [] \<or> audience = []
         then Some (Errorf ''presentation_credentials_file and presentation_audience must be configured together'' [])
         else if length (cfg_APIToken c) < 32
         then Some (Errorf ''presentation API requires api_token to be at least 32 characters'' [])
         else if audience \<noteq> cfg_PresentationAudience c \<or> length audience > 128 \<or> ContainsAny audience [CHR '' '', CHR 0x09, CHR 0x0D, CHR 0x0A]
         then Some (Errorf ''presentation_audience must be a non-whitespace identifier of at most 128 characters'' [])
         else None)"

fun checkAllowedHosts :: "string list \<Rightarrow> err option" where
  "checkAllowedHosts [] = None"
| "checkAllowedHosts (h # hs) =
     (let host = TrimSpace h
      in if host = [] \<or> ContainsAny host ''/:@'' then Some (Errorf ''git_allowed_hosts contains invalid host %q'' [host])
         else checkAllowedHosts hs)"

fun checkTLS :: "NetLib \<Rightarrow> nat \<Rightarrow> TLSHostConfig list \<Rightarrow> err option" where
  "checkTLS net i [] = None"
| "checkTLS net i (t # ts) =
     (case tls_Validate net t of
        Some e \<Rightarrow> Some (Wrapf ''invalid tls[%d]: %w'' [Itoa i] e)
      | None \<Rightarrow> checkTLS net (Suc i) ts)"

definition validLevels :: "string list" where
  "validLevels = [''debug'', ''info'', ''warn'', ''error'']"

definition cfg_Validate :: "NetLib \<Rightarrow> Config \<Rightarrow> err option" where
  "cfg_Validate net c =
     (if cfg_DataDir c = [] then Some (Errorf ''data_dir must not be empty'' [])
      else if cfg_ConfigDir c = [] then Some (Errorf ''config_dir must not be empty'' [])
      else if cfg_APIPort c < 1 \<or> cfg_APIPort c > 65535 then Some (Errorf ''api_port must be 1-65535, got %d'' [])
      else if TrimSpace (cfg_APIHost c) = [] then Some (Errorf ''api_host must not be empty'' [])
      else if \<not> isLoopbackAPIHost net (cfg_APIHost c) \<and> length (cfg_APIToken c) < 32 \<and> \<not> cfg_AllowInsecureNoAuth c
      then Some (Errorf ''api_token must be at least 32 characters when api_host %q is not loopback'' [cfg_APIHost c])
      else case validatePresentationAPI c of
        Some e \<Rightarrow> Some e
      | None \<Rightarrow>
          if cfg_WorkerCount c < 1 \<or> cfg_WorkerCount c > 32 then Some (Errorf ''worker_count must be 1-32, got %d'' [])
          else if cfg_DefaultPollInterval c < 30 * Second then Some (Errorf ''default_poll_interval must be >= 30s, got %s'' [])
          else if cfg_GitAllowedHosts c = [] then Some (Errorf ''git_allowed_hosts must include at least one host'' [])
          else case checkAllowedHosts (cfg_GitAllowedHosts c) of
            Some e \<Rightarrow> Some e
          | None \<Rightarrow>
              if cfg_LogLevel c \<notin> set validLevels then Some (Errorf ''log_level must be one of debug/info/warn/error, got %q'' [cfg_LogLevel c])
              else checkTLS net 0 (cfg_TLS c))"

datatype Level = LevelDebug | LevelInfo | LevelWarn | LevelError

definition SlogLevel :: "Config \<Rightarrow> Level" where
  "SlogLevel c =
     (if cfg_LogLevel c = ''debug'' then LevelDebug
      else if cfg_LogLevel c = ''warn'' then LevelWarn
      else if cfg_LogLevel c = ''error'' then LevelError
      else LevelInfo)"

text \<open>\<^verbatim>\<open>net.JoinHostPort\<close>: a host with a colon is an IPv6 address and goes into brackets.\<close>

definition APIAddr :: "Config \<Rightarrow> string" where
  "APIAddr c =
     (let host = cfg_APIHost c; port = Itoa (nat (cfg_APIPort c))
      in if CHR '':'' \<in> set host then ''['' @ host @ '']:'' @ port else host @ '':'' @ port)"

section \<open>Loading\<close>

definition toUpperChar :: "char \<Rightarrow> char" where
  "toUpperChar c = (if 97 \<le> (of_char c :: nat) \<and> (of_char c :: nat) \<le> 122 then char_of ((of_char c :: nat) - 32) else c)"

definition ToUpper :: "string \<Rightarrow> string" where
  "ToUpper s = map toUpperChar s"

definition retiredVariable :: "string \<Rightarrow> bool" where
  "retiredVariable entry =
     (let key = (case cut CHR ''='' entry of None \<Rightarrow> entry | Some (k, v) \<Rightarrow> k); upper = ToUpper key
      in upper = ''DOCKERCD_CLUSTER'' \<or> HasPrefix upper ''DOCKERCD_CLUSTER_'')"

definition retiredKey :: "string \<Rightarrow> bool" where
  "retiredKey key = (ToLower key = ''cluster'' \<or> HasPrefix (ToLower key) ''cluster.'')"

text \<open>
  What viper and the file system answer: whether the configuration file could be read (a missing file is no error), its top-level
  keys as viper sees them and all its keys, the path of the file, the keys of the document decoded from it, and the decoded record.
\<close>

record ConfigEnv =
  ce_environ :: "string list"
  ce_ReadInConfig :: "err option"
  ce_InConfig :: "string \<Rightarrow> bool"
  ce_AllKeys :: "string list"
  ce_ConfigFileUsed :: string
  ce_document :: "string list result"
  ce_Unmarshal :: "Config result"

definition rejectRetiredClusterInputs :: "ConfigEnv \<Rightarrow> err option" where
  "rejectRetiredClusterInputs ce =
     (case List.find retiredVariable (ce_environ ce) of
        Some entry \<Rightarrow> Some (Errorf ''cluster configuration is not supported in v0.1; remove %s''
          [case cut CHR ''='' entry of None \<Rightarrow> entry | Some (k, v) \<Rightarrow> k])
      | None \<Rightarrow>
          if ce_InConfig ce ''cluster'' \<or> list_ex retiredKey (ce_AllKeys ce)
          then Some (Errorf ''cluster configuration is not supported in v0.1; remove the cluster key'' [])
          else None)"

definition rejectRetiredClusterConfigFile :: "ConfigEnv \<Rightarrow> err option" where
  "rejectRetiredClusterConfigFile ce =
     (if TrimSpace (ce_ConfigFileUsed ce) = [] then None
      else case ce_document ce of
        Inl e \<Rightarrow> Some (Wrapf ''reading configuration: %w'' [] e)
      | Inr keys \<Rightarrow>
          if list_ex (\<lambda>key. retiredKey (TrimSpace key)) keys
          then Some (Errorf ''cluster configuration is not supported in v0.1; remove the cluster key'' [])
          else None)"

definition Load :: "NetLib \<Rightarrow> ConfigEnv \<Rightarrow> Config result" where
  "Load net ce =
     (case ce_ReadInConfig ce of
        Some e \<Rightarrow> Inl (Wrapf ''reading config: %w'' [] e)
      | None \<Rightarrow>
          case rejectRetiredClusterInputs ce of
            Some e \<Rightarrow> Inl e
          | None \<Rightarrow>
              case rejectRetiredClusterConfigFile ce of
                Some e \<Rightarrow> Inl e
              | None \<Rightarrow>
                  case ce_Unmarshal ce of
                    Inl e \<Rightarrow> Inl (Wrapf ''unmarshaling config: %w'' [] e)
                  | Inr cfg \<Rightarrow>
                      case cfg_Validate net cfg of
                        Some e \<Rightarrow> Inl (Wrapf ''invalid config: %w'' [] e)
                      | None \<Rightarrow> Inr cfg)"

section \<open>What an accepted configuration guarantees\<close>

lemma checkAllowedHosts_None:
  "checkAllowedHosts hs = None \<longleftrightarrow> (\<forall>h\<in>set hs. TrimSpace h \<noteq> [] \<and> \<not> ContainsAny (TrimSpace h) ''/:@'')"
  by (induction hs) (auto simp: Let_def)

lemma checkTLS_None: "checkTLS net i ts = None \<longleftrightarrow> (\<forall>t\<in>set ts. tls_Validate net t = None)"
  by (induction ts arbitrary: i) (auto split: option.splits)

lemma tls_Validate_None:
  "tls_Validate net t = None \<longleftrightarrow>
     TrimSpace (th_Host t) \<noteq> [] \<and> TrimSpace (th_CertPath t) \<noteq> []
     \<and> (th_InsecureSkipVerify t \<longrightarrow>
          th_DevelopmentAcknowledgement t = InsecureTLSDevelopmentAcknowledgement \<and> isLoopbackDockerHost net (th_Host t))"
  by (simp add: tls_Validate_def)

lemma cfg_Validate_None:
  "cfg_Validate net c = None \<longleftrightarrow>
     cfg_DataDir c \<noteq> [] \<and> cfg_ConfigDir c \<noteq> [] \<and> 1 \<le> cfg_APIPort c \<and> cfg_APIPort c \<le> 65535 \<and> TrimSpace (cfg_APIHost c) \<noteq> []
     \<and> (isLoopbackAPIHost net (cfg_APIHost c) \<or> 32 \<le> length (cfg_APIToken c) \<or> cfg_AllowInsecureNoAuth c)
     \<and> validatePresentationAPI c = None \<and> 1 \<le> cfg_WorkerCount c \<and> cfg_WorkerCount c \<le> 32
     \<and> 30 * Second \<le> cfg_DefaultPollInterval c \<and> cfg_GitAllowedHosts c \<noteq> [] \<and> checkAllowedHosts (cfg_GitAllowedHosts c) = None
     \<and> cfg_LogLevel c \<in> set validLevels \<and> checkTLS net 0 (cfg_TLS c) = None"
  by (auto simp: cfg_Validate_def not_less split: option.split if_splits)

lemma Load_iff:
  "Load net ce = Inr cfg \<longleftrightarrow>
     ce_ReadInConfig ce = None \<and> rejectRetiredClusterInputs ce = None \<and> rejectRetiredClusterConfigFile ce = None
     \<and> ce_Unmarshal ce = Inr cfg \<and> cfg_Validate net cfg = None"
  by (auto simp: Load_def split: option.split sum.split)

text \<open>The host policy of the Git synchroniser normalises the hosts once more; what the configuration accepts it does not refuse.\<close>

lemma set_dropWhile: "set (dropWhile P xs) \<subseteq> set xs"
  by (auto dest: set_dropWhileD)

lemma set_trimSet: "set (trimSet cs s) \<subseteq> set s"
  unfolding trimSet_def set_rev by (rule order_trans [OF set_dropWhile]) (simp add: set_dropWhile)

lemma set_TrimSpace: "set (TrimSpace s) \<subseteq> set s"
  unfolding TrimSpace_def set_rev by (rule order_trans [OF set_dropWhile]) (simp add: set_dropWhile)

lemma dropWhile_keeps: "c \<in> set xs \<Longrightarrow> \<not> P c \<Longrightarrow> c \<in> set (dropWhile P xs)"
  by (induction xs) auto

lemma TrimSpace_keeps: "c \<in> set s \<Longrightarrow> \<not> isSpace c \<Longrightarrow> c \<in> set (TrimSpace s)"
  unfolding TrimSpace_def set_rev by (simp add: dropWhile_keeps)

lemma ContainsAny_iff: "ContainsAny s chars \<longleftrightarrow> set s \<inter> set chars \<noteq> {}"
  by (auto simp: ContainsAny_def list_ex_iff)

lemma toLowerChar_eq: "toLowerChar c = d \<Longrightarrow> (of_char d :: nat) < 97 \<Longrightarrow> c = d"
  by (auto simp: toLowerChar_def split: if_splits)

lemma accepted_host_normalised:
  assumes "\<not> ContainsAny (TrimSpace h) ''/:@''"
  shows "\<not> ContainsAny (normalizeHost h) ''/:@''"
proof
  assume "ContainsAny (normalizeHost h) ''/:@''"
  then obtain d where d: "d \<in> set ''/:@''" "d \<in> set (normalizeHost h)" by (auto simp: ContainsAny_iff)
  then obtain c where c: "c \<in> set (TrimSpace (trimSet {CHR ''['', CHR '']''} h))" "d = toLowerChar c"
    by (auto simp: normalizeHost_def ToLower_def)
  moreover have "(of_char d :: nat) < 97" using d(1) by auto
  then have "c = d" by (rule toLowerChar_eq [OF c(2) [symmetric]])
  ultimately have "d \<in> set (trimSet {CHR ''['', CHR '']''} h)" using set_TrimSpace by (metis subsetD)
  then have "d \<in> set h" using set_trimSet by (metis subsetD)
  moreover have "\<not> isSpace d" using d(1) by (auto simp: isSpace_def)
  ultimately have "d \<in> set (TrimSpace h)" by (rule TrimSpace_keeps)
  with assms d(1) show False by (auto simp: ContainsAny_iff)
qed

lemma addHosts_accepted:
  "checkAllowedHosts hs = None \<Longrightarrow>
   \<exists>P. addHosts hs allowed = Inr P \<and> set P = set allowed \<union> (normalizeHost ` set hs - {[]})"
proof (induction hs arbitrary: allowed)
  case (Cons h hs)
  then have "\<not> ContainsAny (normalizeHost h) ''/:@''" "checkAllowedHosts hs = None"
    by (auto simp: Let_def accepted_host_normalised split: if_splits)
  then show ?case using Cons.IH [of allowed] Cons.IH [of "List.insert (normalizeHost h) allowed"]
    by (cases "normalizeHost h = []") (auto simp: Let_def simp flip: insert_Diff_if)
qed simp

text \<open>
  An accepted configuration never makes the Git synchroniser refuse a host: the policy built from its allowed hosts is exactly
  their normalised names, and it can only fail when every one of them consists of brackets and blanks.
\<close>

theorem accepted_hosts_make_policy:
  assumes "cfg_Validate net c = None"
  shows "case NewHostPolicy (cfg_GitAllowedHosts c) of
           Inl e \<Rightarrow> (\<forall>h\<in>set (cfg_GitAllowedHosts c). normalizeHost h = [])
         | Inr policy \<Rightarrow> set policy = normalizeHost ` set (cfg_GitAllowedHosts c) - {[]}"
proof -
  have "checkAllowedHosts (cfg_GitAllowedHosts c) = None" using assms by (simp add: cfg_Validate_None)
  from addHosts_accepted [OF this, of "[]"] obtain P where
    "addHosts (cfg_GitAllowedHosts c) [] = Inr P" "set P = normalizeHost ` set (cfg_GitAllowedHosts c) - {[]}" by auto
  then show ?thesis by (auto simp: NewHostPolicy_def)
qed

definition bareNet :: NetLib where
  "bareNet = \<lparr>url_Parse = (\<lambda>s. Inl (Errorf ''no url'' [])), url_StringNoUser = (\<lambda>s. s),
     ParseIP = (\<lambda>s. if s = ''127.0.0.1'' then Some [127, 0, 0, 1] else None)\<rparr>"

lemma default_config_accepted: "cfg_Validate bareNet defaultConfig = None"
  by (simp add: cfg_Validate_None defaultConfig_def bareNet_def isLoopbackAPIHost_def isLoopbackName_def validatePresentationAPI_def
      TrimSpace_def isSpace_def IsLoopback_def To4_def validLevels_def ContainsAny_def)

theorem accepted_hosts_make_policy_witness:
  "case NewHostPolicy (cfg_GitAllowedHosts defaultConfig) of
     Inl e \<Rightarrow> (\<forall>h\<in>set (cfg_GitAllowedHosts defaultConfig). normalizeHost h = [])
   | Inr policy \<Rightarrow> set policy = normalizeHost ` set (cfg_GitAllowedHosts defaultConfig) - {[]}"
  by (rule accepted_hosts_make_policy [OF default_config_accepted])

end
