(* ===== verification/ClientCache.thy ===== *)
theory ClientCache
  imports DaemonConfig "HOL-Library.Multiset"
begin

text \<open>
  Docker clients of the inspector (\<^verbatim>\<open>inspector/inspector.go\<close>): the TLS configuration of a host, the factory that loads its
  certificates, and the cache with one client per host. The locked sections of \<^verbatim>\<open>getClient\<close>, \<^verbatim>\<open>RegisterTLS\<close> and
  \<^verbatim>\<open>UnregisterTLS\<close> are steps of their own, because calls interleave between them.

  Key pairs, files and PEM blocks are read through a parameter, and so is the constructor of the Docker SDK.
\<close>

section \<open>TLS configurations\<close>

record TLSConfig =
  tl_CertPath :: string
  tl_InsecureSkipVerify :: bool
  tl_DevelopmentAcknowledgement :: string

record tls_Config =
  tc_Certificate :: string
  tc_RootCAs :: "string list"
  tc_InsecureSkipVerify :: bool

record CertFiles =
  cf_LoadX509KeyPair :: "string \<Rightarrow> string \<Rightarrow> string result"
  cf_ReadFile :: "string \<Rightarrow> string result"
  cf_CertsFromPEM :: "string \<Rightarrow> string list"

definition hostConfig :: "string \<Rightarrow> TLSConfig \<Rightarrow> TLSHostConfig" where
  "hostConfig host c = \<lparr>th_Host = host, th_CertPath = tl_CertPath c, th_InsecureSkipVerify = tl_InsecureSkipVerify c,
     th_DevelopmentAcknowledgement = tl_DevelopmentAcknowledgement c\<rparr>"

definition LoadTLSConfig :: "NetLib \<Rightarrow> CertFiles \<Rightarrow> string \<Rightarrow> TLSConfig \<Rightarrow> tls_Config result" where
  "LoadTLSConfig net cf host c =
     (case tls_Validate net (hostConfig host c) of
        Some e \<Rightarrow> Inl (Wrapf ''validating TLS configuration: %w'' [] e)
      | None \<Rightarrow>
          (case cf_LoadX509KeyPair cf (filepath_Join (tl_CertPath c) ''cert.pem'') (filepath_Join (tl_CertPath c) ''key.pem'') of
             Inl e \<Rightarrow> Inl (Wrapf ''loading client certificate: %w'' [] e)
           | Inr cert \<Rightarrow>
               (case cf_ReadFile cf (filepath_Join (tl_CertPath c) ''ca.pem'') of
                  Inl e \<Rightarrow> Inl (Wrapf ''reading TLS CA certificate: %w'' [] e)
                | Inr pem \<Rightarrow>
                    if cf_CertsFromPEM cf pem = [] then Inl (Errorf ''parsing TLS CA certificate: no certificates found'' [])
                    else Inr \<lparr>tc_Certificate = cert, tc_RootCAs = cf_CertsFromPEM cf pem, tc_InsecureSkipVerify = tl_InsecureSkipVerify c\<rparr>)))"

section \<open>The cache\<close>

text \<open>A client, with the configuration of its host it was made from.\<close>

record DockerClient =
  cl_id :: nat
  cl_Host :: string
  cl_From :: "TLSConfig option"
  cl_TLS :: "tls_Config option"

record ClientEnv =
  cl_net :: NetLib
  cl_files :: CertFiles
  cl_NewClientWithOpts :: "string \<Rightarrow> tls_Config option \<Rightarrow> err option"

record DockerInspector =
  tlsConfigs :: "TLSConfig gomap"
  clientCache :: "DockerClient gomap"
  di_closed :: "DockerClient list"
  di_next :: nat

definition NewWithTLS :: "TLSConfig gomap \<Rightarrow> DockerInspector" where
  "NewWithTLS configs = \<lparr>tlsConfigs = configs, clientCache = [], di_closed = [], di_next = 0\<rparr>"

definition tlsAwareClientFactory :: "ClientEnv \<Rightarrow> string \<Rightarrow> DockerInspector \<Rightarrow> DockerClient result \<times> DockerInspector" where
  "tlsAwareClientFactory env host d =
     (let made = (\<lambda>cfg t. case cl_NewClientWithOpts env host t of
            Some e \<Rightarrow> (Inl e, d)
          | None \<Rightarrow> (Inr \<lparr>cl_id = di_next d, cl_Host = host, cl_From = cfg, cl_TLS = t\<rparr>, d\<lparr>di_next := Suc (di_next d)\<rparr>))
      in case map_of (tlsConfigs d) host of
           None \<Rightarrow> made None None
         | Some cfg \<Rightarrow>
             (case LoadTLSConfig (cl_net env) (cl_files env) host cfg of
                Inl e \<Rightarrow> (Inl (Wrapf ''loading TLS config for %q: %w'' [host] e), d)
              | Inr t \<Rightarrow> made (Some cfg) (Some t)))"

text \<open>The last section of \<^verbatim>\<open>getClient\<close>, under the lock: a client another call stored in the meantime wins.\<close>

definition storeClient :: "string \<Rightarrow> DockerClient \<Rightarrow> DockerInspector \<Rightarrow> DockerClient \<times> DockerInspector" where
  "storeClient host cli d =
     (case map_of (clientCache d) host of
        Some existing \<Rightarrow> (existing, d\<lparr>di_closed := cli # di_closed d\<rparr>)
      | None \<Rightarrow> (cli, d\<lparr>clientCache := AList.update host cli (clientCache d)\<rparr>))"

text \<open>\<^verbatim>\<open>getClient\<close> with nothing in between.\<close>

definition getClient :: "ClientEnv \<Rightarrow> string \<Rightarrow> DockerInspector \<Rightarrow> DockerClient result \<times> DockerInspector" where
  "getClient env host d =
     (case map_of (clientCache d) host of
        Some cli \<Rightarrow> (Inr cli, d)
      | None \<Rightarrow>
          (case tlsAwareClientFactory env host d of
             (Inl e, d) \<Rightarrow> (Inl e, d)
           | (Inr cli, d) \<Rightarrow> (case storeClient host cli d of (c, d) \<Rightarrow> (Inr c, d))))"

definition setTLS :: "string \<Rightarrow> TLSConfig option \<Rightarrow> DockerInspector \<Rightarrow> DockerInspector" where
  "setTLS host cfg d =
     d\<lparr>tlsConfigs := (case cfg of None \<Rightarrow> AList.delete host (tlsConfigs d) | Some c \<Rightarrow> AList.update host c (tlsConfigs d))\<rparr>"

definition dropClient :: "string \<Rightarrow> DockerInspector \<Rightarrow> DockerInspector" where
  "dropClient host d =
     (case map_of (clientCache d) host of
        None \<Rightarrow> d
      | Some cli \<Rightarrow> d\<lparr>clientCache := AList.delete host (clientCache d), di_closed := cli # di_closed d\<rparr>)"

definition RegisterTLS :: "string \<Rightarrow> TLSConfig \<Rightarrow> DockerInspector \<Rightarrow> DockerInspector" where
  "RegisterTLS host cfg d = dropClient host (setTLS host (Some cfg) d)"

definition UnregisterTLS :: "string \<Rightarrow> DockerInspector \<Rightarrow> DockerInspector" where
  "UnregisterTLS host d = dropClient host (setTLS host None d)"

definition GetTLSCertPath :: "string \<Rightarrow> DockerInspector \<Rightarrow> string" where
  "GetTLSCertPath host d = (case map_of (tlsConfigs d) host of None \<Rightarrow> [] | Some cfg \<Rightarrow> tl_CertPath cfg)"

definition CloseAllClients :: "DockerInspector \<Rightarrow> DockerInspector" where
  "CloseAllClients d = d\<lparr>clientCache := [], di_closed := map snd (clientCache d) @ di_closed d\<rparr>"

section \<open>Interleaved calls\<close>

text \<open>
  A call of \<^verbatim>\<open>getClient\<close> that missed the cache, one whose client is made and not stored, and a registration whose configuration is
  set and whose client is not dropped. A step says which client it hands to a caller.
\<close>

datatype ClientCall = Missed string | Made string DockerClient | Registering string

type_synonym ClientWorld = "DockerInspector \<times> ClientCall multiset"

inductive client_step :: "ClientEnv \<Rightarrow> ClientWorld \<Rightarrow> (string \<times> DockerClient) option \<Rightarrow> ClientWorld \<Rightarrow> bool" for env where
  hit: "map_of (clientCache d) host = Some cli \<Longrightarrow> client_step env (d, M) (Some (host, cli)) (d, M)"
| miss: "map_of (clientCache d) host = None \<Longrightarrow> client_step env (d, M) None (d, add_mset (Missed host) M)"
| makes: "tlsAwareClientFactory env host d = (Inr cli, d') \<Longrightarrow>
    client_step env (d, add_mset (Missed host) M) None (d', add_mset (Made host cli) M)"
| fails: "tlsAwareClientFactory env host d = (Inl e, d') \<Longrightarrow> client_step env (d, add_mset (Missed host) M) None (d', M)"
| stores: "storeClient host cli d = (c, d') \<Longrightarrow> client_step env (d, add_mset (Made host cli) M) (Some (host, c)) (d', M)"
| sets: "client_step env (d, M) None (setTLS host cfg d, add_mset (Registering host) M)"
| drops: "client_step env (d, add_mset (Registering host) M) None (dropClient host d, M)"
| closes: "client_step env (d, M) None (CloseAllClients d, M)"

inductive client_run :: "ClientEnv \<Rightarrow> ClientWorld \<Rightarrow> (string \<times> DockerClient) list \<Rightarrow> ClientWorld \<Rightarrow> bool" for env where
  client_nil: "client_run env w [] w"
| client_snoc: "client_run env w ls v \<Longrightarrow> client_step env v l u \<Longrightarrow> client_run env w (ls @ (case l of None \<Rightarrow> [] | Some x \<Rightarrow> [x])) u"

inductive_cases client_stepE: "client_step env w l v"

section \<open>Safety of the cache\<close>

text \<open>
  A client skips the verification of the server only for an acknowledged loopback host, and its certificates are those of the
  configuration it was made from.
\<close>

definition trusted :: "ClientEnv \<Rightarrow> DockerClient \<Rightarrow> bool" where
  "trusted env cli =
     (case cl_From cli of
        None \<Rightarrow> cl_TLS cli = None
      | Some cfg \<Rightarrow> (\<exists>t. cl_TLS cli = Some t \<and> LoadTLSConfig (cl_net env) (cl_files env) (cl_Host cli) cfg = Inr t))"

text \<open>Where the clients are that were ever made: in the cache, closed, or with a call that is about to store one.\<close>

fun madeOf :: "ClientCall \<Rightarrow> nat multiset" where
  "madeOf (Missed host) = {#}"
| "madeOf (Made host cli) = {#cl_id cli#}"
| "madeOf (Registering host) = {#}"

definition whereabouts :: "ClientWorld \<Rightarrow> nat multiset" where
  "whereabouts w =
     (case w of (d, M) \<Rightarrow> image_mset cl_id (mset (map snd (clientCache d))) + image_mset cl_id (mset (di_closed d)) + (\<Sum>c\<in>#M. madeOf c))"

definition cache_inv :: "ClientEnv \<Rightarrow> ClientWorld \<Rightarrow> bool" where
  "cache_inv env w =
     (case w of (d, M) \<Rightarrow>
        wf_map (clientCache d)
        \<and> (\<forall>(host, cli)\<in>set (clientCache d). cl_Host cli = host \<and> trusted env cli)
        \<and> (\<forall>host cli. Made host cli \<in># M \<longrightarrow> cl_Host cli = host \<and> trusted env cli)
        \<and> whereabouts w = mset [0..<di_next d])"

lemma mset_update_new: "map_of m k = None \<Longrightarrow> image_mset snd (mset (AList.update k v m)) = add_mset v (image_mset snd (mset m))"
  by (induction m) auto

lemma mset_delete_present:
  "wf_map m \<Longrightarrow> map_of m k = Some v \<Longrightarrow> image_mset snd (mset m) = add_mset v (image_mset snd (mset (AList.delete k m)))"
proof (induction m)
  case (Cons a m)
  then show ?case by (cases "fst a = k") (auto simp: AList.delete_id)
qed simp

lemma set_update_new: "map_of m k = None \<Longrightarrow> set (AList.update k v m) = insert (k, v) (set m)"
  by (induction m) auto

lemma factory_trusted:
  assumes "tlsAwareClientFactory env host d = (Inr cli, d')"
  shows "cl_Host cli = host" "trusted env cli" "cl_id cli = di_next d" "d' = d\<lparr>di_next := Suc (di_next d)\<rparr>"
  using assms by (auto simp: tlsAwareClientFactory_def trusted_def Let_def split: option.splits sum.splits)

lemma factory_fails: "tlsAwareClientFactory env host d = (Inl e, d') \<Longrightarrow> d' = d"
  by (auto simp: tlsAwareClientFactory_def Let_def split: option.splits sum.splits)

lemma cache_invD:
  assumes "cache_inv env (d, M)"
  shows "wf_map (clientCache d)" "(host, cli) \<in> set (clientCache d) \<Longrightarrow> cl_Host cli = host \<and> trusted env cli"
    "Made host cli \<in># M \<Longrightarrow> cl_Host cli = host \<and> trusted env cli" "whereabouts (d, M) = mset [0..<di_next d]"
  using assms unfolding cache_inv_def by blast+

lemma cache_invI:
  assumes "wf_map (clientCache d)" "\<And>host cli. (host, cli) \<in> set (clientCache d) \<Longrightarrow> cl_Host cli = host \<and> trusted env cli"
    "\<And>host cli. Made host cli \<in># M \<Longrightarrow> cl_Host cli = host \<and> trusted env cli" "whereabouts (d, M) = mset [0..<di_next d]"
  shows "cache_inv env (d, M)"
  using assms unfolding cache_inv_def by blast

lemma cache_inv_store:
  assumes "cache_inv env (d, add_mset (Made host cli) M)" "storeClient host cli d = (c, d')"
  shows "cache_inv env (d', M) \<and> cl_Host c = host \<and> trusted env c"
proof (cases "map_of (clientCache d) host")
  case None
  then have d': "d' = d\<lparr>clientCache := AList.update host cli (clientCache d)\<rparr>" "c = cli"
    using assms(2) by (auto simp: storeClient_def)
  have cli: "cl_Host cli = host \<and> trusted env cli" by (rule cache_invD(3) [OF assms(1)]) simp
  have "cache_inv env (d', M)"
  proof (rule cache_invI)
    show "wf_map (clientCache d')" using cache_invD(1) [OF assms(1)] by (simp add: d' AList.distinct_update)
    show "cl_Host k = h \<and> trusted env k" if "(h, k) \<in> set (clientCache d')" for h k
      using that cli cache_invD(2) [OF assms(1)] by (auto simp: d' set_update_new [OF None])
    show "cl_Host k = h \<and> trusted env k" if "Made h k \<in># M" for h k
      by (rule cache_invD(3) [OF assms(1)]) (simp add: that)
    have "whereabouts (d', M) = whereabouts (d, add_mset (Made host cli) M)"
      by (simp add: whereabouts_def d' mset_update_new [OF None])
    also note cache_invD(4) [OF assms(1)]
    finally show "whereabouts (d', M) = mset [0..<di_next d']" by (simp add: d')
  qed
  with cli show ?thesis by (simp add: d'(2))
next
  case (Some existing)
  then have d': "d' = d\<lparr>di_closed := cli # di_closed d\<rparr>" "c = existing"
    using assms(2) by (auto simp: storeClient_def)
  have "cache_inv env (d', M)"
  proof (rule cache_invI)
    show "wf_map (clientCache d')" using cache_invD(1) [OF assms(1)] by (simp add: d')
    show "cl_Host k = h \<and> trusted env k" if "(h, k) \<in> set (clientCache d')" for h k
      using that cache_invD(2) [OF assms(1)] by (simp add: d')
    show "cl_Host k = h \<and> trusted env k" if "Made h k \<in># M" for h k
      by (rule cache_invD(3) [OF assms(1)]) (simp add: that)
    have "whereabouts (d', M) = whereabouts (d, add_mset (Made host cli) M)" by (simp add: whereabouts_def d')
    also note cache_invD(4) [OF assms(1)]
    finally show "whereabouts (d', M) = mset [0..<di_next d']" by (simp add: d')
  qed
  with cache_invD(2) [OF assms(1) map_of_SomeD [OF Some]] show ?thesis by (simp add: d'(2))
qed

lemma cache_inv_drop:
  assumes "cache_inv env (d, add_mset (Registering host) M)"
  shows "cache_inv env (dropClient host d, M)"
proof (cases "map_of (clientCache d) host")
  case (Some cli)
  have wf: "wf_map (clientCache d)" using assms by (simp add: cache_inv_def)
  from assms have "\<forall>(host, cli)\<in>set (AList.delete host (clientCache d)). cl_Host cli = host \<and> trusted env cli"
    by (auto simp: cache_inv_def AList.delete_eq)
  moreover have "whereabouts (dropClient host d, M) = whereabouts (d, add_mset (Registering host) M)"
    using mset_delete_present [OF wf Some] by (simp add: whereabouts_def dropClient_def Some)
  ultimately show ?thesis using assms AList.distinct_delete [OF wf] by (simp add: cache_inv_def) (simp add: dropClient_def Some)
qed (use assms in \<open>simp_all add: dropClient_def cache_inv_def whereabouts_def\<close>)

lemma cache_inv_step:
  assumes "client_step env w l v" "cache_inv env w"
  shows "cache_inv env v \<and> (\<forall>host cli. l = Some (host, cli) \<longrightarrow> cl_Host cli = host \<and> trusted env cli)"
  using assms
proof cases
  case (makes host d cli d' M)
  with assms(2) show ?thesis using factory_trusted [OF makes(4)] by (auto simp: cache_inv_def whereabouts_def atLeast0_lessThan_Suc)
next
  case (fails host d e d' M)
  with assms(2) show ?thesis using factory_fails [OF fails(4)] by (auto simp: cache_inv_def whereabouts_def)
next
  case (stores host cli d c d' M)
  with assms(2) show ?thesis using cache_inv_store by auto
next
  case (drops d host M)
  with assms(2) show ?thesis using cache_inv_drop by auto
qed (auto simp: cache_inv_def whereabouts_def setTLS_def CloseAllClients_def dest: map_of_SomeD)

lemma cache_inv_run:
  "client_run env w ls v \<Longrightarrow> cache_inv env w \<Longrightarrow> cache_inv env v \<and> (\<forall>(host, cli)\<in>set ls. cl_Host cli = host \<and> trusted env cli)"
  by (induction rule: client_run.induct) (auto dest: cache_inv_step split: option.splits)

lemma cache_inv_New: "cache_inv env (NewWithTLS configs, {#})"
  by (simp add: cache_inv_def NewWithTLS_def whereabouts_def)

text \<open>
  C27: however calls for clients, registrations and the shutdown interleave, every client that was made is in exactly one place: cached once,
  closed once, or in the hands of a call that has not stored it yet. None leaks, none is closed twice, and a cached one is open.
\<close>

theorem clients_accounted_for:
  assumes "client_run env (NewWithTLS configs, {#}) ls (d, M)"
  shows "whereabouts (d, M) = mset [0..<di_next d]
    \<and> (\<forall>host cli. map_of (clientCache d) host = Some cli \<longrightarrow> cl_Host cli = host \<and> cl_id cli \<notin> cl_id ` set (di_closed d))"
proof -
  have inv: "cache_inv env (d, M)" using cache_inv_run [OF assms cache_inv_New] by simp
  then have w: "whereabouts (d, M) = mset [0..<di_next d]" by (simp add: cache_inv_def)
  have "cl_id cli \<notin> cl_id ` set (di_closed d)" if "map_of (clientCache d) host = Some cli" for host cli
  proof
    assume closed: "cl_id cli \<in> cl_id ` set (di_closed d)"
    have "cl_id cli \<in># image_mset cl_id (mset (map snd (clientCache d)))" using map_of_SomeD [OF that] by force
    moreover from closed have "cl_id cli \<in># image_mset cl_id (mset (di_closed d))" by auto
    ultimately have "2 \<le> count (whereabouts (d, M)) (cl_id cli)"
      unfolding whereabouts_def prod.case count_union count_greater_eq_one_iff [symmetric] by linarith
    moreover have "count (mset [0..<di_next d]) (cl_id cli) \<le> 1" by (simp add: count_mset_set')
    ultimately show False using w by simp
  qed
  moreover have "cl_Host cli = host" if "map_of (clientCache d) host = Some cli" for host cli
    using inv map_of_SomeD [OF that] by (auto simp: cache_inv_def)
  ultimately show ?thesis using w by blast
qed

lemma LoadTLSConfig_insecure:
  "LoadTLSConfig net cf host cfg = Inr t \<Longrightarrow>
     tc_InsecureSkipVerify t = tl_InsecureSkipVerify cfg \<and> tc_RootCAs t \<noteq> []
     \<and> (tl_InsecureSkipVerify cfg \<longrightarrow>
          tl_DevelopmentAcknowledgement cfg = InsecureTLSDevelopmentAcknowledgement \<and> isLoopbackDockerHost net host)"
  by (auto simp: LoadTLSConfig_def tls_Validate_None hostConfig_def split: option.splits sum.splits if_splits)

text \<open>
  C28: every client that is handed to a caller is one for the requested host, and when TLS is configured it verifies the server against
  a certificate authority from the configured directory; verification is skipped only for a loopback host over TCP whose
  configuration carries the acknowledgement, although registrations themselves are not validated.
\<close>

theorem verification_skipped_only_on_loopback:
  assumes "client_run env (NewWithTLS configs, {#}) ls (d, M)" and "(host, cli) \<in> set ls" and "cl_TLS cli = Some t"
  shows "cl_Host cli = host \<and> tc_RootCAs t \<noteq> []
    \<and> (tc_InsecureSkipVerify t \<longrightarrow> isLoopbackDockerHost (cl_net env) host
         \<and> (\<exists>cfg. cl_From cli = Some cfg \<and> tl_DevelopmentAcknowledgement cfg = InsecureTLSDevelopmentAcknowledgement))"
proof -
  have "cl_Host cli = host" "trusted env cli"
    using cache_inv_run [OF assms(1) cache_inv_New] assms(2) by auto
  then show ?thesis using assms(3)
    by (auto simp: trusted_def split: option.splits dest!: LoadTLSConfig_insecure)
qed

section \<open>Freshness of the cache\<close>

text \<open>One call after another, a client is always made from the current configuration of its host.\<close>

definition fresh_cache :: "DockerInspector \<Rightarrow> bool" where
  "fresh_cache d = (\<forall>host cli. map_of (clientCache d) host = Some cli \<longrightarrow> cl_From cli = map_of (tlsConfigs d) host)"

lemma sequential_calls_fresh:
  assumes "fresh_cache d"
  shows "fresh_cache (snd (getClient env host d))" "fresh_cache (RegisterTLS host cfg d)" "fresh_cache (UnregisterTLS host d)"
    "fresh_cache (CloseAllClients d)"
  using assms
  by (auto simp: fresh_cache_def getClient_def RegisterTLS_def UnregisterTLS_def CloseAllClients_def storeClient_def setTLS_def dropClient_def
      tlsAwareClientFactory_def Let_def AList.update_conv' AList.delete_conv' split: option.splits sum.splits if_splits)

text \<open>
  A registration between the making and the storing of a client finds nothing to drop, and the client of the old configuration is
  cached afterwards, with no call pending that would drop it.
\<close>

definition openEnv :: ClientEnv where
  "openEnv = \<lparr>cl_net = bareNet, cl_files = \<lparr>cf_LoadX509KeyPair = (\<lambda>c k. Inr c), cf_ReadFile = (\<lambda>f. Inr f), cf_CertsFromPEM = (\<lambda>p. [p])\<rparr>,
     cl_NewClientWithOpts = (\<lambda>h t. None)\<rparr>"

definition demoTLS :: TLSConfig where
  "demoTLS = \<lparr>tl_CertPath = ''/certs'', tl_InsecureSkipVerify = False, tl_DevelopmentAcknowledgement = []\<rparr>"

definition plainClient :: DockerClient where
  "plainClient = \<lparr>cl_id = 0, cl_Host = ''tcp://h:2376'', cl_From = None, cl_TLS = None\<rparr>"

lemma stale_client_cached:
  "\<exists>d. client_run openEnv (NewWithTLS [], {#}) [(''tcp://h:2376'', plainClient)] (d, {#})
     \<and> map_of (tlsConfigs d) ''tcp://h:2376'' = Some demoTLS \<and> map_of (clientCache d) ''tcp://h:2376'' = Some plainClient"
proof -
  let ?h = "''tcp://h:2376''" and ?d = "NewWithTLS []"
  let ?made = "?d\<lparr>di_next := 1\<rparr>" let ?set = "setTLS ?h (Some demoTLS) ?made"
  have make: "tlsAwareClientFactory openEnv ?h ?d = (Inr plainClient, ?made)"
    by (simp add: tlsAwareClientFactory_def openEnv_def NewWithTLS_def plainClient_def)
  have dropped: "dropClient ?h ?set = ?set" by (simp add: dropClient_def setTLS_def NewWithTLS_def)
  have s: "client_step openEnv (?d, {#}) None (?d, {#Missed ?h#})" by (rule miss) (simp add: NewWithTLS_def)
  note r1 = client_snoc [OF client_nil s]
  note r2 = client_snoc [OF r1 makes [OF make]]
  have "client_step openEnv (?set, {#Registering ?h, Made ?h plainClient#}) None (?set, {#Made ?h plainClient#})"
    using drops [of openEnv ?set ?h "{#Made ?h plainClient#}"] unfolding dropped .
  note r3 = client_snoc [OF client_snoc [OF r2 sets [where host = ?h and cfg = "Some demoTLS"]] this]
  have store: "storeClient ?h plainClient ?set = (plainClient, ?set\<lparr>clientCache := [(?h, plainClient)]\<rparr>)"
    by (simp add: storeClient_def setTLS_def NewWithTLS_def)
  note r4 = client_snoc [OF r3 stores [OF store]]
  show ?thesis
    by (rule exI [of _ "?set\<lparr>clientCache := [(?h, plainClient)]\<rparr>"]) (use r4 in \<open>simp add: setTLS_def NewWithTLS_def\<close>)
qed

section \<open>Witnesses\<close>

definition demoTLSClient :: DockerClient where
  "demoTLSClient = \<lparr>cl_id = 0, cl_Host = ''tcp://h:2376'', cl_From = Some demoTLS,
     cl_TLS = Some \<lparr>tc_Certificate = ''/certs/cert.pem'', tc_RootCAs = [''/certs/ca.pem''], tc_InsecureSkipVerify = False\<rparr>\<rparr>"

lemma demo_client_run:
  "client_run openEnv (NewWithTLS [(''tcp://h:2376'', demoTLS)], {#}) [(''tcp://h:2376'', demoTLSClient)]
     (\<lparr>tlsConfigs = [(''tcp://h:2376'', demoTLS)], clientCache = [(''tcp://h:2376'', demoTLSClient)], di_closed = [], di_next = 1\<rparr>, {#})"
proof -
  let ?h = "''tcp://h:2376''" and ?d = "NewWithTLS [(''tcp://h:2376'', demoTLS)]"
  have "LoadTLSConfig bareNet (cl_files openEnv) ?h demoTLS
      = Inr \<lparr>tc_Certificate = ''/certs/cert.pem'', tc_RootCAs = [''/certs/ca.pem''], tc_InsecureSkipVerify = False\<rparr>"
    by code_simp
  then have make: "tlsAwareClientFactory openEnv ?h ?d = (Inr demoTLSClient, ?d\<lparr>di_next := 1\<rparr>)"
    by (simp add: tlsAwareClientFactory_def openEnv_def NewWithTLS_def demoTLSClient_def)
  have s: "client_step openEnv (?d, {#}) None (?d, {#Missed ?h#})" by (rule miss) (simp add: NewWithTLS_def)
  have store: "storeClient ?h demoTLSClient (?d\<lparr>di_next := 1\<rparr>)
      = (demoTLSClient, \<lparr>tlsConfigs = [(?h, demoTLS)], clientCache = [(?h, demoTLSClient)], di_closed = [], di_next = 1\<rparr>)"
    by (simp add: storeClient_def NewWithTLS_def)
  show ?thesis using client_snoc [OF client_snoc [OF client_snoc [OF client_nil s] makes [OF make]] stores [OF store]] by simp
qed

theorem clients_accounted_for_witness:
  "\<exists>d. client_run openEnv (NewWithTLS [(''tcp://h:2376'', demoTLS)], {#}) [(''tcp://h:2376'', demoTLSClient)] (d, {#})
     \<and> whereabouts (d, {#}) = mset [0..<di_next d] \<and> di_next d = 1"
  using clients_accounted_for [OF demo_client_run] demo_client_run by force

theorem verification_skipped_only_on_loopback_witness:
  "cl_Host demoTLSClient = ''tcp://h:2376'' \<and> (\<exists>t. cl_TLS demoTLSClient = Some t \<and> tc_RootCAs t \<noteq> [])"
  using verification_skipped_only_on_loopback [OF demo_client_run, of "''tcp://h:2376''" demoTLSClient]
  by (simp add: demoTLSClient_def)

end
