(* ===== verification/Startup.thy ===== *)
theory Startup
  imports Api ConfigSync ClientCache
begin

text \<open>
  The start of the daemon (\<^verbatim>\<open>cli/serve.go\<close>): the registration of the manifests of the configuration directory, the TLS configurations
  of the inspector and of the deployer, and what an accepted configuration means for the listening API. Logging, the wiring of the
  components and the shutdown sequence are not modelled.
\<close>

section \<open>Registration of manifests\<close>

definition manifestRecord :: "Env \<Rightarrow> Application \<Rightarrow> ApplicationRecord" where
  "manifestRecord env application =
     \<lparr>ar_ID = [], ar_Name = meta_Name (Metadata application), ar_Manifest = marshalApp (e_codec env) application, ar_Source = ''manifest'',
      ar_SyncStatus = SyncStatusUnknown, ar_HealthStatus = HealthUnknown, ar_LastSyncedSHA = [], ar_HeadSHA = [],
      ar_LastSyncTime = None, ar_LastObservationTime = None, ar_LastObservedHealthStatus = None,
      ar_LastError = None, ar_ServicesJSON = [], ar_ConditionsJSON = [], ar_CreatedAt = 0, ar_UpdatedAt = 0\<rparr>"

definition registerManifest :: "Env \<Rightarrow> Application \<Rightarrow> 'w World_scheme \<Rightarrow> 'w World_scheme" where
  "registerManifest env application w =
     (let name = meta_Name (Metadata application); manifestJSON = marshalApp (e_codec env) application
      in case GetApplication env name w of
           (Inl e, w) \<Rightarrow> w
         | (Inr (Some existing), w) \<Rightarrow>
             (let w = (if ar_Source existing \<noteq> ''manifest'' then snd (SetApplicationSource env name ''manifest'' w) else w)
              in if ar_Manifest existing \<noteq> manifestJSON then snd (UpdateManifest env name manifestJSON w) else w)
         | (Inr None, w) \<Rightarrow> snd (CreateApplication env (manifestRecord env application) w))"

definition loadManifest :: "Env \<Rightarrow> Files \<Rightarrow> string \<Rightarrow> DirEntry \<Rightarrow> 'w World_scheme \<Rightarrow> 'w World_scheme" where
  "loadManifest env fs configDir entry w =
     (case readManifest env fs (w_trace w) configDir entry of None \<Rightarrow> w | Some application \<Rightarrow> registerManifest env application w)"

definition loadApplicationManifests :: "(err \<Rightarrow> bool) \<Rightarrow> Env \<Rightarrow> Files \<Rightarrow> string \<Rightarrow> 'w World_scheme \<Rightarrow> err option \<times> 'w World_scheme" where
  "loadApplicationManifests isNotExist env fs configDir w =
     (case fs_ReadDir fs (w_trace w) configDir of
        Inl e \<Rightarrow> (if isNotExist e then None else Some (Wrapf ''reading config directory %q: %w'' [configDir] e), w)
      | Inr entries \<Rightarrow> (None, fold (loadManifest env fs configDir) entries w))"

section \<open>TLS\<close>

definition tlsConfigOf :: "TLSHostConfig \<Rightarrow> TLSConfig" where
  "tlsConfigOf tc = \<lparr>tl_CertPath = th_CertPath tc, tl_InsecureSkipVerify = th_InsecureSkipVerify tc,
     tl_DevelopmentAcknowledgement = th_DevelopmentAcknowledgement tc\<rparr>"

definition registerHost :: "DockerHostRecord \<Rightarrow> DockerInspector \<Rightarrow> DockerInspector" where
  "registerHost h insp =
     (if dh_TLSCertPath h \<noteq> []
      then RegisterTLS (dh_URL h) \<lparr>tl_CertPath = dh_TLSCertPath h, tl_InsecureSkipVerify = False, tl_DevelopmentAcknowledgement = []\<rparr> insp
      else insp)"

definition startInspector :: "Env \<Rightarrow> Config \<Rightarrow> 'w World_scheme \<Rightarrow> DockerInspector \<times> 'w World_scheme" where
  "startInspector env cfg w =
     (let insp = NewWithTLS (fold (\<lambda>tc m. AList.update (th_Host tc) (tlsConfigOf tc) m) (cfg_TLS cfg) [])
      in case ListDockerHosts env w of
           (Inl e, w) \<Rightarrow> (insp, w)
         | (Inr dbHosts, w) \<Rightarrow> (fold registerHost dbHosts insp, w))"

definition tlsLookup :: "Env \<Rightarrow> Config \<Rightarrow> string \<Rightarrow> 'w World_scheme \<Rightarrow> string \<times> 'w World_scheme" where
  "tlsLookup env cfg host w =
     (if host = [] then ([], w)
      else case List.find (\<lambda>tc. th_Host tc = host) (cfg_TLS cfg) of
        Some tc \<Rightarrow> (th_CertPath tc, w)
      | None \<Rightarrow>
          (case GetDockerHostByURL env host w of
             (Inr (Some h), w) \<Rightarrow> (dh_TLSCertPath h, w)
           | (r, w) \<Rightarrow> ([], w)))"

section \<open>What the registration leaves in the store\<close>

definition manifestView :: "'w World_scheme \<Rightarrow> string \<Rightarrow> (string \<times> string) option" where
  "manifestView w n = map_option (\<lambda>r. (ar_Manifest r, ar_Source r)) (appIn w n)"

lemma get_up:
  assumes "dbUp env"
  shows "fst (GetApplication env n w) = Inr (appIn w n)" "appIn (snd (GetApplication env n w)) m = appIn w m"
    "freshIDs env w \<Longrightarrow> freshIDs env (snd (GetApplication env n w))"
proof -
  show "freshIDs env w \<Longrightarrow> freshIDs env (snd (GetApplication env n w))"
    by (erule freshIDs_step) (use assms in \<open>auto simp: GetApplication_def exec_db\<close>)
qed (use assms in \<open>simp_all add: GetApplication_def exec_db exec_fst appIn_def\<close>)

lemma source_up:
  assumes "dbUp env"
  shows "freshIDs env w \<Longrightarrow> freshIDs env (snd (SetApplicationSource env n src w))"
    "appIn (snd (SetApplicationSource env n src w)) m =
       (if m = n then map_option (\<lambda>r. r\<lparr>ar_Source := src, ar_UpdatedAt := e_now env (w_trace w)\<rparr>) (appIn w n) else appIn w m)"
proof -
  show "freshIDs env w \<Longrightarrow> freshIDs env (snd (SetApplicationSource env n src w))"
    by (erule freshIDs_step) (use assms in \<open>auto simp: SetApplicationSource_def Let_def exec_db updateRows_def\<close>)
qed (use assms in \<open>simp_all add: SetApplicationSource_def Let_def exec_db exec_fst appIn_def selectRow_update\<close>)

lemma registerManifest_up:
  fixes w :: "'w World_scheme"
  assumes "dbUp env" "freshIDs env w"
  shows "freshIDs env (registerManifest env a w)
    \<and> manifestView (registerManifest env a w) m =
        (if m = meta_Name (Metadata a) then Some (marshalApp (e_codec env) a, ''manifest'') else manifestView w m)"
proof -
  let ?n = "meta_Name (Metadata a)" and ?rec = "manifestRecord env a"
  obtain v where v: "GetApplication env ?n w = (Inr (appIn w ?n), v)"
    using get_up(1) [OF assms(1), where n = ?n and w = w] by (metis fst_conv surj_pair)
  have same: "\<And>m. appIn v m = appIn w m" and fresh: "freshIDs env v"
    using get_up(2) [OF assms(1), where n = ?n and w = w] get_up(3) [OF assms, where n = ?n] assms(2) v by auto
  have rec: "ar_Name ?rec = ?n" "ar_ID ?rec = []" "ar_Source ?rec = ''manifest''" "ar_Manifest ?rec = marshalApp (e_codec env) a"
    by (simp_all add: manifestRecord_def)
  show ?thesis
  proof (cases "appIn w ?n")
    case None
    then have "registerManifest env a w = snd (CreateApplication env ?rec v)" by (simp add: registerManifest_def Let_def v)
    moreover have "appIn v (ar_Name ?rec) = None" by (simp add: rec same None)
    ultimately show ?thesis
      using create_fresh [OF assms(1) fresh, of ?rec] create_up(2) [OF assms(1) fresh, of ?rec] create_other [OF assms(1), of m ?rec v]
      by (auto simp: rec manifestView_def same)
  next
    case (Some r)
    then show ?thesis
      using fresh
      by (auto simp: registerManifest_def Let_def v manifestView_def same source_up(2) [OF assms(1)] update_up(3) [OF assms(1)]
          intro!: update_up(2) [OF assms(1)] source_up(1) [OF assms(1)])
  qed
qed

text \<open>The files do not change while they are read.\<close>

definition steadyFiles :: "Files \<Rightarrow> bool" where
  "steadyFiles fs \<longleftrightarrow> (\<forall>t p. fs_ReadFile fs t p = fs_ReadFile fs [] p)"

lemma readManifest_steady: "steadyFiles fs \<Longrightarrow> readManifest env fs t dir entry = readManifest env fs [] dir entry"
proof -
  assume "steadyFiles fs"
  then have "fs_ReadFile fs t p = fs_ReadFile fs [] p" for p unfolding steadyFiles_def by blast
  then show ?thesis by (simp only: readManifest_def)
qed

definition scanned :: "Env \<Rightarrow> Files \<Rightarrow> string \<Rightarrow> DirEntry list \<Rightarrow> Application gomap \<Rightarrow> Application gomap" where
  "scanned env fs dir entries dst = fold (\<lambda>entry dst. case readManifest env fs [] dir entry of
     None \<Rightarrow> dst | Some application \<Rightarrow> AList.update (meta_Name (Metadata application)) application dst) entries dst"

lemma loadManifests_view:
  assumes "dbUp env" "steadyFiles fs"
  shows "freshIDs env w \<Longrightarrow> \<forall>n. manifestView w n = (case map_of dst n of None \<Rightarrow> before n | Some a \<Rightarrow> Some (marshalApp (e_codec env) a, ''manifest''))
    \<Longrightarrow> manifestView (fold (loadManifest env fs dir) entries w) m =
      (case map_of (scanned env fs dir entries dst) m of None \<Rightarrow> before m | Some a \<Rightarrow> Some (marshalApp (e_codec env) a, ''manifest''))"
proof (induction entries arbitrary: w dst)
  case (Cons entry entries)
  have r: "readManifest env fs (w_trace w) dir entry = readManifest env fs [] dir entry" by (rule readManifest_steady [OF assms(2)])
  show ?case
  proof (cases "readManifest env fs [] dir entry")
    case None
    with Cons show ?thesis by (simp add: loadManifest_def r scanned_def)
  next
    case (Some a)
    let ?w = "registerManifest env a w" and ?dst = "AList.update (meta_Name (Metadata a)) a dst"
    have "freshIDs env ?w" using registerManifest_up [OF assms(1) Cons.prems(1)] by blast
    moreover have "\<forall>n. manifestView ?w n =
        (case map_of ?dst n of None \<Rightarrow> before n | Some a \<Rightarrow> Some (marshalApp (e_codec env) a, ''manifest''))"
      using registerManifest_up [OF assms(1) Cons.prems(1), of a] Cons.prems(2) by (simp add: AList.update_conv')
    ultimately show ?thesis using Cons.IH [of ?w ?dst] Some by (simp add: loadManifest_def r scanned_def)
  qed
qed (simp add: scanned_def)

text \<open>
  the registration at startup agrees with the periodic scan of the same directory. Afterwards the store holds, under each name
  the scan finds, exactly the manifest of the last file that declares it, marked as coming from a manifest, and every other
  application as before.
\<close>

theorem startup_registers_scan:
  assumes "dbUp env" "freshIDs env w" "steadyFiles fs" "fs_ReadDir fs (w_trace w) configDir = Inr entries"
  shows "fst (loadApplicationManifests isNotExist env fs configDir w) = None
    \<and> manifestView (snd (loadApplicationManifests isNotExist env fs configDir w)) n =
      (case map_of (scanManifestDir env fs (w_trace w) configDir []) n of
         None \<Rightarrow> manifestView w n
       | Some a \<Rightarrow> Some (marshalApp (e_codec env) a, ''manifest''))"
proof -
  have "scanManifestDir env fs (w_trace w) configDir [] = scanned env fs configDir entries []"
    using assms(4) by (simp add: scanManifestDir_def scanned_def readManifest_steady [OF assms(3), of env "w_trace w"])
  then show ?thesis
    using loadManifests_view [OF assms(1,3,2), where dst = "[]" and before = "manifestView w" and dir = configDir and entries = entries and m = n] assms(4)
    by (simp add: loadApplicationManifests_def)
qed

section \<open>The configuration and the API\<close>


section \<open>Two answers to which certificates a host uses\<close>

text \<open>
  The inspector and the deployer agree on the certificates of a host that is configured once, in the file or in the database.
\<close>

lemma find_absent: "u \<notin> f ` set xs \<Longrightarrow> List.find (\<lambda>x. f x = u \<and> P x) xs = None" "u \<notin> f ` set xs \<Longrightarrow> List.find (\<lambda>x. f x = u) xs = None"
  by (induction xs) auto

lemma find_unique: "distinct (map f xs) \<Longrightarrow> List.find (\<lambda>x. f x = u \<and> P x) xs = Some x \<longleftrightarrow> x \<in> set xs \<and> f x = u \<and> P x"
proof (induction xs)
  case (Cons y xs)
  then show ?case by (cases "f y = u"; cases "x \<in> set xs") (auto simp: find_absent image_iff)
qed simp

lemma find_restricted:
  assumes "distinct (map dh_URL hs)"
  shows "List.find (\<lambda>h. dh_URL h = u \<and> dh_TLSCertPath h \<noteq> []) hs =
    (case selectRow dh_URL u hs of Some h \<Rightarrow> if dh_TLSCertPath h = [] then None else Some h | None \<Rightarrow> None)"
  using assms
proof (induction hs)
  case (Cons h hs)
  then show ?case by (cases "dh_URL h = u") (auto simp: selectRow_def find_absent)
qed (simp add: selectRow_def)

lemma static_configs:
  "distinct (map th_Host ts) \<Longrightarrow> map_of (fold (\<lambda>tc m. AList.update (th_Host tc) (tlsConfigOf tc) m) ts m) host =
     (case List.find (\<lambda>tc. th_Host tc = host) ts of Some tc \<Rightarrow> Some (tlsConfigOf tc) | None \<Rightarrow> map_of m host)"
proof (induction ts arbitrary: m)
  case (Cons t ts)
  have "List.find (\<lambda>tc. th_Host tc = host) ts = None" if "th_Host t = host"
    using Cons.prems that by (intro find_absent) auto
  with Cons show ?case by (auto simp: AList.update_conv' split: option.split)
qed simp

lemma tlsConfigs_registerHost:
  "tlsConfigs (registerHost h d) = (if dh_TLSCertPath h = [] then tlsConfigs d
     else AList.update (dh_URL h) \<lparr>tl_CertPath = dh_TLSCertPath h, tl_InsecureSkipVerify = False, tl_DevelopmentAcknowledgement = []\<rparr> (tlsConfigs d))"
  by (simp add: registerHost_def RegisterTLS_def setTLS_def dropClient_def split: option.split)

lemma db_configs:
  "distinct (map dh_URL hs) \<Longrightarrow> GetTLSCertPath url (fold registerHost hs d) =
     (case List.find (\<lambda>h. dh_URL h = url \<and> dh_TLSCertPath h \<noteq> []) hs of Some h \<Rightarrow> dh_TLSCertPath h | None \<Rightarrow> GetTLSCertPath url d)"
proof (induction hs arbitrary: d)
  case (Cons h hs)
  have "List.find (\<lambda>h. dh_URL h = url \<and> dh_TLSCertPath h \<noteq> []) hs = None" if "dh_URL h = url"
    using Cons.prems that by (intro find_absent) auto
  with Cons show ?case
    by (auto simp: GetTLSCertPath_def tlsConfigs_registerHost AList.update_conv' split: option.split)
qed simp

lemma find_same_set:
  assumes "distinct (map f xs)" "distinct (map f ys)" "set xs = set ys"
  shows "List.find (\<lambda>x. f x = u \<and> P x) xs = List.find (\<lambda>x. f x = u \<and> P x) ys"
  using find_unique [OF assms(1), of u P] find_unique [OF assms(2), of u P] assms(3) by (metis option.exhaust)

lemma tls_paths_agree:
  assumes "dbUp env" "distinct (map th_Host (cfg_TLS cfg))" "wf_db (w_db w)" "host \<noteq> []"
    and once: "host \<in> th_Host ` set (cfg_TLS cfg) \<Longrightarrow> host \<notin> dh_URL ` set (db_hosts (w_db w))"
  shows "GetTLSCertPath host (fst (startInspector env cfg w)) = fst (tlsLookup env cfg host w)"
proof -
  let ?hs = "db_hosts (w_db w)" let ?P = "\<lambda>h. dh_URL h = host \<and> dh_TLSCertPath h \<noteq> []"
  have d: "distinct (map dh_URL ?hs)" using assms(3) by (simp add: wf_db_def)
  moreover have "mset (map dh_URL (sort_key dh_Name ?hs)) = mset (map dh_URL ?hs)" by simp
  ultimately have ds: "distinct (map dh_URL (sort_key dh_Name ?hs))" by (metis mset_eq_imp_distinct_iff)
  have same: "List.find ?P (sort_key dh_Name ?hs) = List.find ?P ?hs" by (rule find_same_set [OF ds d]) simp
  let ?d = "NewWithTLS (fold (\<lambda>tc m. AList.update (th_Host tc) (tlsConfigOf tc) m) (cfg_TLS cfg) [])"
  have static: "GetTLSCertPath host ?d = (case List.find (\<lambda>tc. th_Host tc = host) (cfg_TLS cfg) of Some tc \<Rightarrow> th_CertPath tc | None \<Rightarrow> [])"
    using static_configs [OF assms(2), of "[]" host]
    by (cases "List.find (\<lambda>tc. th_Host tc = host) (cfg_TLS cfg)") (simp_all add: GetTLSCertPath_def NewWithTLS_def tlsConfigOf_def)
  have "fst (startInspector env cfg w) = fold registerHost (sort_key dh_Name ?hs) ?d"
    using assms(1) by (auto simp: startInspector_def Let_def ListDockerHosts_def wrapErr_def exec_def split: prod.split)
  then have insp: "GetTLSCertPath host (fst (startInspector env cfg w)) =
      (case List.find ?P ?hs of Some h \<Rightarrow> dh_TLSCertPath h
       | None \<Rightarrow> (case List.find (\<lambda>tc. th_Host tc = host) (cfg_TLS cfg) of Some tc \<Rightarrow> th_CertPath tc | None \<Rightarrow> []))"
    by (simp only: db_configs [OF ds] same static)
  show ?thesis
  proof (cases "List.find (\<lambda>tc. th_Host tc = host) (cfg_TLS cfg)")
    case (Some tc)
    then have "host \<in> th_Host ` set (cfg_TLS cfg)" by (auto simp: find_Some_iff)
    then have "List.find ?P ?hs = None" using once by (intro find_absent) blast
    then show ?thesis using Some assms(4) insp by (simp add: tlsLookup_def)
  next
    case None
    have "List.find ?P ?hs = (case selectRow dh_URL host ?hs of Some h \<Rightarrow> if dh_TLSCertPath h = [] then None else Some h | None \<Rightarrow> None)"
      by (rule find_restricted [OF d])
    then show ?thesis using None assms(1,4) insp
      by (auto simp: tlsLookup_def GetDockerHostByURL_def wrapErr_def exec_def split: prod.split option.split)
  qed
qed

text \<open>A host that is in both is used with the certificates of the database by the inspector and with those of the file by the deployer.\<close>

definition twiceConfig :: Config where
  "twiceConfig = defaultConfig\<lparr>cfg_TLS := [\<lparr>th_Host = ''tcp://h:2376'', th_CertPath = ''/etc/certs'', th_InsecureSkipVerify = False,
     th_DevelopmentAcknowledgement = []\<rparr>]\<rparr>"

definition twiceWorld :: World where
  "twiceWorld = \<lparr>w_trace = [], w_db = \<lparr>db_apps = [], db_syncs = [], db_events = [], db_hosts = [\<lparr>dh_ID = ''1'', dh_Name = ''h'', dh_URL = ''tcp://h:2376'',
     dh_TLSCertPath = ''/data/certs'', dh_TLSVerify = True, dh_HealthStatus = [], dh_LastCheck = None, dh_LastError = None,
     dh_InfoJSON = [], dh_StatsJSON = [], dh_CreatedAt = 0, dh_UpdatedAt = 0\<rparr>]\<rparr>\<rparr>"

lemma tls_paths_disagree:
  "GetTLSCertPath ''tcp://h:2376'' (fst (startInspector (configEnv x) twiceConfig twiceWorld)) = ''/data/certs''"
  "fst (tlsLookup (configEnv x) twiceConfig ''tcp://h:2376'' twiceWorld) = ''/etc/certs''"
proof -
  let ?cfg = "[(''tcp://h:2376'', \<lparr>tl_CertPath = ''/etc/certs'', tl_InsecureSkipVerify = False, tl_DevelopmentAcknowledgement = []\<rparr>)]"
  have "fst (startInspector (configEnv x) twiceConfig twiceWorld) = fold registerHost (db_hosts (w_db twiceWorld)) (NewWithTLS ?cfg)"
    using config_site(1) by (simp add: startInspector_def ListDockerHosts_def wrapErr_def exec_def twiceConfig_def twiceWorld_def tlsConfigOf_def)
  then show "GetTLSCertPath ''tcp://h:2376'' (fst (startInspector (configEnv x) twiceConfig twiceWorld)) = ''/data/certs''"
    by (simp add: twiceWorld_def GetTLSCertPath_def tlsConfigs_registerHost NewWithTLS_def)
  show "fst (tlsLookup (configEnv x) twiceConfig ''tcp://h:2376'' twiceWorld) = ''/etc/certs''"
    by (simp add: tlsLookup_def twiceConfig_def)
qed

section \<open>Witnesses\<close>

theorem startup_registers_scan_witness:
  "manifestView (snd (loadApplicationManifests (\<lambda>e. False) (configEnv (Inr ''4f2a'')) (configFiles (Inr webManifest)) ''/config'' (demoSched []))) ''web''
     = Some (marshalApp demoCodec (ApplyDefaults demoApplication), ''manifest'')"
  using startup_registers_scan [OF config_site(1) config_fresh, of "configFiles (Inr webManifest)" "''/config''" webManifest "\<lambda>e. False" "Inr ''4f2a''" "''web''"]
  by (simp add: config_scan config_site steadyFiles_def) (simp add: configFiles_def)

definition remoteConfig :: Config where
  "remoteConfig = defaultConfig\<lparr>cfg_APIHost := ''0.0.0.0'', cfg_APIToken := replicate 32 CHR ''t''\<rparr>"

definition remoteConfigEnv :: ConfigEnv where
  "remoteConfigEnv = \<lparr>ce_environ = [''HOME=/root''], ce_ReadInConfig = None, ce_InConfig = (\<lambda>k. False), ce_AllKeys = [], ce_ConfigFileUsed = [],
     ce_document = Inr [], ce_Unmarshal = Inr remoteConfig\<rparr>"


end
