(* ===== verification/ControlPlane.thy ===== *)
theory ControlPlane
  imports Complex_Main LocalAuth GitSync
begin

text \<open>
  The web console's client of the presentation API (\<^verbatim>\<open>src/web/internal/controlplane/client.go\<close>): its configuration,
  the one request function, and the typed reads over it.

  What the controller answers is a function of the requests so far; a request is recorded with its answer in a
  trace. URL parsing and JSON decoding are parameters. The receiver and its fields are never nil.
\<close>

section \<open>Representations\<close>

text \<open>A float64 where it is only stored and compared.\<close>

datatype float64 = NaN | Inf bool | Finite rat

record cpCapabilities =
  cap_APIVersion :: string
  cap_ServerTime :: string
  cap_Features :: "string list"
  cap_ExpiresAt :: string
  cap_MaxApplications :: int

record cpPermissions =
  prm_Subject :: string
  prm_CredentialID :: string
  prm_Audience :: string
  prm_ExpiresAt :: string
  prm_Capabilities :: "string list"
  prm_Applications :: "string list"

record cpController =
  cn_StateDatabaseReady :: bool
  cn_ResponseGeneratedAt :: string

record cpCapacity =
  cy_CPUPercent :: float64
  cy_CPUCores :: int
  cy_MemoryUsageMiB :: float64
  cy_MemoryTotalMiB :: float64
  cy_RunningContainers :: int
  cy_EligibleContainers :: int
  cy_ObservedContainers :: int
  cy_Completeness :: string
  cy_SampleStartedAt :: string
  cy_SampleCompletedAt :: string
  cy_ResponseGeneratedAt :: string

record cpApplication =
  ca_Name :: string
  ca_SyncStatus :: string
  ca_HealthStatus :: string
  ca_LastSyncedSHA :: string
  ca_HeadSHA :: string
  ca_LastSyncTime :: string
  ca_LastObservedAt :: string
  ca_ObservedHealthStatus :: string
  ca_ObservationCompleteness :: string
  ca_ResponseGeneratedAt :: string

record cpFleet =
  cf_Applications :: "cpApplication list"
  cf_Total :: int
  cf_ResponseGeneratedAt :: string

record cpActivityEvent =
  ce_Application :: string
  ce_Type :: string
  ce_Severity :: string
  ce_OccurredAt :: string

record cpActivity =
  cv_Events :: "cpActivityEvent list"
  cv_Total :: int
  cv_ResponseGeneratedAt :: string

section \<open>Errors\<close>

definition ErrUnauthorized :: err where "ErrUnauthorized = Errorf ''presentation credential rejected'' []"
definition ErrForbidden :: err where "ErrForbidden = Errorf ''presentation permission denied'' []"
definition ErrNotFound :: err where "ErrNotFound = Errorf ''presentation resource not found'' []"
definition ErrFeatureUnavailable :: err where "ErrFeatureUnavailable = Errorf ''presentation feature unavailable'' []"

text \<open>\<^verbatim>\<open>errors.Is\<close> for a sentinel.\<close>

fun errorsIs :: "err \<Rightarrow> err \<Rightarrow> bool" where
  "errorsIs (Wrapf f xs e) target = (Wrapf f xs e = target \<or> errorsIs e target)"
| "errorsIs e target = (e = target)"

definition presentationStatusError :: "int \<Rightarrow> err" where
  "presentationStatusError status =
     (if status = 401 then ErrUnauthorized
      else if status = 403 then ErrForbidden
      else if status = 404 then ErrNotFound
      else if status = 429 \<or> status = 501 then ErrFeatureUnavailable
      else Errorf ''controller request failed with status %d'' [formatInt status])"

section \<open>The client\<close>

record Endpoint =
  ep_Scheme :: string
  ep_Host :: string
  ep_User :: bool
  ep_RawQuery :: string
  ep_Fragment :: string
  ep_Path :: string

text \<open>The token source of a session answers with its credential.\<close>

record Client =
  cl_baseURL :: Endpoint
  cl_tokens :: "string result"
  cl_timeout :: duration

definition defaultRequestTimeout :: duration where "defaultRequestTimeout = 5 * Second"
definition maxResponseBody :: nat where "maxResponseBody = 2 ^ 20"

definition NewClient :: "(string \<Rightarrow> Endpoint result) \<Rightarrow> string \<Rightarrow> string result option \<Rightarrow> duration \<Rightarrow> Client result" where
  "NewClient parse baseURL tokenSource requestTimeout =
     (case parse (TrimSpace baseURL) of
        Inl e \<Rightarrow> Inl (Errorf ''invalid controller URL'' [])
      | Inr endpoint \<Rightarrow>
          if ep_Scheme endpoint = [] \<or> ep_Host endpoint = [] then Inl (Errorf ''invalid controller URL'' [])
          else if ep_Scheme endpoint \<noteq> ''https'' \<and> ep_Scheme endpoint \<noteq> ''http'' then Inl (Errorf ''controller URL must use http or https'' [])
          else if ep_User endpoint \<or> ep_RawQuery endpoint \<noteq> [] \<or> ep_Fragment endpoint \<noteq> []
          then Inl (Errorf ''controller URL must not include credentials, query, or fragment'' [])
          else case tokenSource of
            None \<Rightarrow> Inl (Errorf ''presentation token source is required'' [])
          | Some tokens \<Rightarrow>
              (let timeout = (if requestTimeout = 0 then defaultRequestTimeout else requestTimeout)
               in if timeout \<le> 0 \<or> timeout > 30 * Second then Inl (Errorf ''controller request timeout must be between 1ns and 30s'' [])
                  else Inr \<lparr>cl_baseURL = endpoint\<lparr>ep_Path := TrimSuffix (ep_Path endpoint) ''/''\<rparr>, cl_tokens = tokens, cl_timeout = timeout\<rparr>))"

text \<open>A request of the client is a GET without a body; redirects are answers like any other, they are not followed.\<close>

record CRequest =
  rq_URL :: Endpoint
  rq_Query :: "(string \<times> string) list"
  rq_Authorization :: string

record CResponse =
  rs_StatusCode :: int
  rs_ContentType :: string
  rs_Body :: "string \<times> err option"

type_synonym ctrace = "(CRequest \<times> CResponse result) list"

record ControllerNet =
  cn_NewRequest :: "CRequest \<Rightarrow> err option"
  cn_Do :: "ctrace \<Rightarrow> CRequest \<Rightarrow> CResponse result"

type_synonym 'a decoder = "string \<Rightarrow> ('a \<times> JSONRest) result"

definition decodeResponse :: "'a decoder \<Rightarrow> CResponse \<Rightarrow> 'a result" where
  "decodeResponse decode response =
     (if rs_StatusCode response \<noteq> 200 then Inl (presentationStatusError (rs_StatusCode response))
      else if \<not> HasPrefix (ToLower (rs_ContentType response)) ''application/json'' then Inl (Errorf ''controller returned unexpected content type'' [])
      else if length (fst (rs_Body response)) > maxResponseBody then Inl (Errorf ''controller response exceeds %d bytes'' [Itoa maxResponseBody])
      else case snd (rs_Body response) of
        Some e \<Rightarrow> Inl (Wrapf ''reading controller response: %w'' [] e)
      | None \<Rightarrow>
          (case decode (fst (rs_Body response)) of
             Inl e \<Rightarrow> Inl (Wrapf ''decoding controller response: %w'' [] e)
           | Inr (x, rest) \<Rightarrow>
               (case rest of
                  JSONEOF \<Rightarrow> Inr x
                | JSONDocument \<Rightarrow> Inl (Errorf ''controller returned multiple JSON documents'' [])
                | JSONError e \<Rightarrow> Inl (Wrapf ''reading controller response: %w'' [] e))))"

definition getWithQuery :: "ControllerNet \<Rightarrow> 'a decoder \<Rightarrow> Client \<Rightarrow> string \<Rightarrow> (string \<times> string) list \<Rightarrow> ctrace \<Rightarrow> 'a result \<times> ctrace" where
  "getWithQuery net decode c path query t =
     (case cl_tokens c of
        Inl e \<Rightarrow> (Inl (Wrapf ''obtaining presentation credential: %w'' [] e), t)
      | Inr token \<Rightarrow>
          if TrimSpace token = [] then (Inl ErrUnauthorized, t)
          else
            let request = \<lparr>rq_URL = (cl_baseURL c)\<lparr>ep_Path := TrimSuffix (ep_Path (cl_baseURL c)) ''/'' @ path\<rparr>, rq_Query = query,
                  rq_Authorization = ''Bearer '' @ token\<rparr>
            in case cn_NewRequest net request of
                 Some e \<Rightarrow> (Inl (Wrapf ''building controller request: %w'' [] e), t)
               | None \<Rightarrow>
                   let answer = cn_Do net t request
                   in (case answer of
                         Inl e \<Rightarrow> Inl (Wrapf ''requesting controller: %w'' [] e)
                       | Inr response \<Rightarrow> decodeResponse decode response,
                       t @ [(request, answer)]))"

record Decoders =
  dec_Capabilities :: "cpCapabilities decoder"
  dec_Permissions :: "cpPermissions decoder"
  dec_Fleet :: "cpFleet decoder"
  dec_Controller :: "cpController decoder"
  dec_Capacity :: "cpCapacity decoder"
  dec_Activity :: "cpActivity decoder"
  dec_Application :: "cpApplication decoder"

definition cl_Capabilities :: "ControllerNet \<Rightarrow> Decoders \<Rightarrow> Client \<Rightarrow> ctrace \<Rightarrow> cpCapabilities result \<times> ctrace" where
  "cl_Capabilities net ds c t =
     (case getWithQuery net (dec_Capabilities ds) c ''/api/v1/presentation/capabilities'' [] t of
        (Inl e, t) \<Rightarrow> (Inl e, t)
      | (Inr response, t) \<Rightarrow> (if cap_APIVersion response \<noteq> ''v1'' then Inl ErrFeatureUnavailable else Inr response, t))"

definition cl_Permissions :: "ControllerNet \<Rightarrow> Decoders \<Rightarrow> Client \<Rightarrow> ctrace \<Rightarrow> cpPermissions result \<times> ctrace" where
  "cl_Permissions net ds c t = getWithQuery net (dec_Permissions ds) c ''/api/v1/presentation/permissions'' [] t"

definition cl_Fleet :: "ControllerNet \<Rightarrow> Decoders \<Rightarrow> Client \<Rightarrow> ctrace \<Rightarrow> cpFleet result \<times> ctrace" where
  "cl_Fleet net ds c t = getWithQuery net (dec_Fleet ds) c ''/api/v1/presentation/fleet'' [] t"

definition cl_Controller :: "ControllerNet \<Rightarrow> Decoders \<Rightarrow> Client \<Rightarrow> ctrace \<Rightarrow> cpController result \<times> ctrace" where
  "cl_Controller net ds c t = getWithQuery net (dec_Controller ds) c ''/api/v1/presentation/controller'' [] t"

definition cl_Capacity :: "ControllerNet \<Rightarrow> Decoders \<Rightarrow> Client \<Rightarrow> ctrace \<Rightarrow> cpCapacity result \<times> ctrace" where
  "cl_Capacity net ds c t = getWithQuery net (dec_Capacity ds) c ''/api/v1/presentation/capacity'' [] t"

definition cl_Activity :: "ControllerNet \<Rightarrow> Decoders \<Rightarrow> Client \<Rightarrow> int \<Rightarrow> ctrace \<Rightarrow> cpActivity result \<times> ctrace" where
  "cl_Activity net ds c limit t =
     (if limit < 1 \<or> limit > 100 then (Inl ErrFeatureUnavailable, t)
      else getWithQuery net (dec_Activity ds) c ''/api/v1/presentation/activity'' [(''limit'', Itoa (nat limit))] t)"

definition cl_Application :: "ControllerNet \<Rightarrow> Decoders \<Rightarrow> Client \<Rightarrow> string \<Rightarrow> ctrace \<Rightarrow> cpApplication result \<times> ctrace" where
  "cl_Application net ds c name t =
     (if \<not> dnsLabelMatch (TrimSpace name) then (Inl ErrNotFound, t)
      else getWithQuery net (dec_Application ds) c (''/api/v1/presentation/applications/'' @ TrimSpace name) [] t)"

lemmas client_reads = cl_Capabilities_def cl_Permissions_def cl_Fleet_def cl_Controller_def cl_Capacity_def cl_Activity_def cl_Application_def

section \<open>What the client asks\<close>

text \<open>
  The requests a client may make: below the path of the presentation API at the configured address, with the credential of
  its token source and no other.
\<close>

definition presentationRequest :: "Client \<Rightarrow> CRequest \<Rightarrow> bool" where
  "presentationRequest c rq =
     (\<exists>token sub. cl_tokens c = Inr token \<and> TrimSpace token \<noteq> [] \<and> rq_Authorization rq = ''Bearer '' @ token
        \<and> rq_URL rq = (cl_baseURL c)\<lparr>ep_Path := TrimSuffix (ep_Path (cl_baseURL c)) ''/'' @ ''/api/v1/presentation/'' @ sub\<rparr>)"

definition asked :: "Client \<Rightarrow> ctrace \<Rightarrow> ctrace \<Rightarrow> bool" where
  "asked c t t' = (\<exists>new. t' = t @ new \<and> list_all (\<lambda>(rq, ans). presentationRequest c rq) new)"

lemma asked_refl [simp]: "asked c t t"
  by (simp add: asked_def)

lemma asked_trans: "asked c t t' \<Longrightarrow> asked c t' t'' \<Longrightarrow> asked c t t''"
  by (auto simp: asked_def)

lemma getWithQuery_asked:
  assumes "path = ''/api/v1/presentation/'' @ sub"
  shows "asked c t (snd (getWithQuery net decode c path query t))"
  using assms by (auto simp: getWithQuery_def asked_def presentationRequest_def Let_def split: sum.split option.split)

lemma client_asked:
  "asked c t (snd (cl_Capabilities net ds c t))" "asked c t (snd (cl_Permissions net ds c t))" "asked c t (snd (cl_Fleet net ds c t))"
  "asked c t (snd (cl_Controller net ds c t))" "asked c t (snd (cl_Capacity net ds c t))" "asked c t (snd (cl_Activity net ds c limit t))"
  "asked c t (snd (cl_Application net ds c name t))"
proof -
  note get = getWithQuery_asked [of _ _ c t net]
  show "asked c t (snd (cl_Capabilities net ds c t))"
    using get [of "''/api/v1/presentation/capabilities''" "''capabilities''" "dec_Capabilities ds" "[]"]
    by (auto simp: cl_Capabilities_def split: prod.splits sum.splits)
  show "asked c t (snd (cl_Permissions net ds c t))" unfolding cl_Permissions_def by (rule get [where sub = "''permissions''"]) simp
  show "asked c t (snd (cl_Fleet net ds c t))" unfolding cl_Fleet_def by (rule get [where sub = "''fleet''"]) simp
  show "asked c t (snd (cl_Controller net ds c t))" unfolding cl_Controller_def by (rule get [where sub = "''controller''"]) simp
  show "asked c t (snd (cl_Capacity net ds c t))" unfolding cl_Capacity_def by (rule get [where sub = "''capacity''"]) simp
  show "asked c t (snd (cl_Activity net ds c limit t))"
    using get [of "''/api/v1/presentation/activity''" "''activity''" "dec_Activity ds" "[(''limit'', Itoa (nat limit))]"] by (simp add: cl_Activity_def)
  show "asked c t (snd (cl_Application net ds c name t))"
    using get [of "''/api/v1/presentation/applications/'' @ TrimSpace name" "''applications/'' @ TrimSpace name" "dec_Application ds" "[]"] by (simp add: cl_Application_def)
qed

end
