(* ===== verification/LiveSource.thy ===== *)
theory LiveSource
  imports ControlPlane
begin

text \<open>
  The pages' data in the web console (\<^verbatim>\<open>src/web/internal/presentation/live_source.go\<close>, \<^verbatim>\<open>session_provider.go\<close>, and the view
  models of \<^verbatim>\<open>fixture.go\<close>): the reader that checks whose credential it holds before every read, the source
  that maps the controller's answers to views, and the provider that makes one for a session.

  Parsing and formatting of RFC 3339 times are parameters. The clock is a sequence of
  readings, one per call. The
  fixtures of the demonstration mode, which never reach a controller, are data and are left out.
\<close>

section \<open>Views\<close>

text \<open>The glyphs and the middle dot of the texts, in UTF-8.\<close>

abbreviation Tick :: string where "Tick \<equiv> [CHR 0xE2, CHR 0x9C, CHR 0x93]"
abbreviation Bang :: string where "Bang \<equiv> ''!''"
abbreviation Query :: string where "Query \<equiv> ''?''"
abbreviation Tilde :: string where "Tilde \<equiv> ''~''"
abbreviation middot :: string where "middot \<equiv> [CHR 0xC2, CHR 0xB7]"

record State =
  st_Label :: string
  st_Tone :: string
  st_Glyph :: string

abbreviation mkState :: "string \<Rightarrow> string \<Rightarrow> string \<Rightarrow> State" where
  "mkState label tone g \<equiv> \<lparr>st_Label = label, st_Tone = tone, st_Glyph = g\<rparr>"

record Service =
  sv_Name :: string
  sv_Image :: string
  sv_State :: State
  sv_Description :: string
  sv_CPU :: string
  sv_Memory :: string

record Event =
  ev_Application :: string
  ev_Kind :: string
  ev_Message :: string
  ev_Occurred :: string
  ev_OccurredAt :: time
  ev_Tone :: string
  ev_Revision :: string
  ev_Operation :: string

record AppView =
  vw_Name :: string
  vw_Project :: string
  vw_Repository :: string
  vw_Revision :: string
  vw_Sync :: State
  vw_Health :: State
  vw_Observation :: string
  vw_LastDeployment :: string
  vw_LastEvent :: string
  vw_Services :: "Service list"
  vw_IntentionalEmpty :: bool
  vw_DesiredSummary :: string
  vw_LiveSummary :: string
  vw_Events :: "Event list"
  vw_LogPreview :: "string list"

record EnvironmentIssue =
  ei_Name :: string
  ei_Summary :: string
  ei_State :: State
  ei_Path :: string

record CapacityView =
  cw_Available :: bool
  cw_State :: State
  cw_CPUPercent :: float64
  cw_CPUCores :: int
  cw_MemoryUsageMiB :: float64
  cw_MemoryTotalMiB :: float64
  cw_RunningContainers :: int
  cw_EligibleContainers :: int
  cw_ObservedContainers :: int
  cw_Completeness :: string
  cw_SampleCompletedAt :: string

record FleetView =
  fl_Controller :: string
  fl_Environment :: string
  fl_FetchedAt :: string
  fl_ObservationNote :: string
  fl_Connection :: State
  fl_ErrorMessage :: string
  fl_HealthyCount :: nat
  fl_AttentionCount :: nat
  fl_HealthArc :: nat
  fl_Applications :: "AppView list"
  fl_Attention :: "AppView list"
  fl_EnvironmentAttention :: "EnvironmentIssue list"
  fl_ControllerState :: State
  fl_ControllerResponseAt :: string
  fl_Capacity :: CapacityView

record ViewContext =
  vc_Controller :: string
  vc_Environment :: string
  vc_Freshness :: string
  vc_Connection :: State
  vc_Fixture :: bool

section \<open>Mapping of answers\<close>

text \<open>\<^verbatim>\<open>time.Parse(time.RFC3339, s)\<close>, the zero time it may give, and \<^verbatim>\<open>t.UTC().Format(time.RFC3339)\<close>.\<close>

record TimeLib =
  tm_Parse :: "string \<Rightarrow> time result"
  tm_zero :: time
  tm_Format :: "time \<Rightarrow> string"

definition relativeTime :: "TimeLib \<Rightarrow> time \<Rightarrow> time \<Rightarrow> string" where
  "relativeTime tm t now =
     (if t = tm_zero tm then ''at an unavailable time''
      else
        let age = now - t
        in if age < 0 then ''at '' @ tm_Format tm t @ '' (controller clock ahead)''
           else if age = 0 then ''just now''
           else if age < Minute then Itoa (nat (age div Second)) @ '' sec ago''
           else if age < 60 * Minute then Itoa (nat (age div Minute)) @ '' min ago''
           else if age < 24 * 60 * Minute then Itoa (nat (age div (60 * Minute))) @ '' hr ago''
           else Itoa (nat (age div (24 * 60 * Minute))) @ '' days ago'')"

definition syncState :: "string \<Rightarrow> State" where
  "syncState status =
     (let s = ToLower (TrimSpace status)
      in if s = ''synced'' then mkState ''Synced'' ''mint'' Tick
         else if s = ''outofsync'' \<or> s = ''out of sync'' then mkState ''Out of sync'' ''amber'' Tilde
         else if s = ''failed'' \<or> s = ''error'' then mkState ''Sync failed'' ''coral'' Bang
         else mkState ''Sync unknown'' ''slate'' Query)"

definition observedStatusState :: "string \<Rightarrow> State" where
  "observedStatusState observedStatus =
     (let s = ToLower (TrimSpace observedStatus)
      in if s = ''healthy'' then mkState ''Healthy'' ''mint'' Tick
         else if s = ''degraded'' \<or> s = ''unhealthy'' \<or> s = ''failed'' then mkState ''Needs review'' ''coral'' Bang
         else mkState ''Health unknown'' ''slate'' Query)"

definition healthState :: "TimeLib \<Rightarrow> string \<Rightarrow> string \<Rightarrow> string \<Rightarrow> State" where
  "healthState tm observedStatus observedAt completeness =
     (if completeness = ''unavailable'' then mkState ''Not observed'' ''slate'' Query
      else if completeness = ''complete'' then
        (case tm_Parse tm observedAt of
           Inl e \<Rightarrow> mkState ''Observation incomplete'' ''slate'' Query
         | Inr t \<Rightarrow>
             if t = tm_zero tm \<or> TrimSpace observedStatus = [] then mkState ''Observation incomplete'' ''slate'' Query
             else observedStatusState observedStatus)
      else mkState ''Observation availability unknown'' ''slate'' Query)"

definition observation :: "TimeLib \<Rightarrow> string \<Rightarrow> string \<Rightarrow> string \<Rightarrow> time \<Rightarrow> string" where
  "observation tm status v completeness now =
     (if completeness \<noteq> ''complete'' \<or> TrimSpace status = [] then ''No service observation''
      else case tm_Parse tm v of
        Inl e \<Rightarrow> ''No service observation''
      | Inr t \<Rightarrow> if t = tm_zero tm then ''No service observation'' else ''Observed '' @ relativeTime tm t now)"

definition deploymentTime :: "TimeLib \<Rightarrow> string \<Rightarrow> time \<Rightarrow> string" where
  "deploymentTime tm v now =
     (case tm_Parse tm v of Inl e \<Rightarrow> ''No recorded deployment'' | Inr t \<Rightarrow> ''Deployed '' @ relativeTime tm t now)"

definition controllerResponseTime :: "TimeLib \<Rightarrow> string \<Rightarrow> string" where
  "controllerResponseTime tm v =
     (case tm_Parse tm v of Inl e \<Rightarrow> ''Controller response time unavailable'' | Inr t \<Rightarrow> ''Controller response '' @ middot @ '' '' @ tm_Format tm t)"

definition severityTone :: "string \<Rightarrow> string" where
  "severityTone v =
     (let s = ToLower (TrimSpace v)
      in if s = ''error'' \<or> s = ''critical'' then ''coral'' else if s = ''warning'' \<or> s = ''warn'' then ''amber'' else ''mint'')"

definition activityKind :: "string \<Rightarrow> string" where
  "activityKind v =
     (if v = ''SyncSuccess'' then ''Sync succeeded''
      else if v = ''SyncError'' \<or> v = ''SyncFailed'' then ''Sync failed''
      else if v = ''HealthObservation'' then ''Health observed''
      else ''Controller event'')"

definition applicationView :: "TimeLib \<Rightarrow> time \<Rightarrow> time \<Rightarrow> cpApplication \<Rightarrow> AppView" where
  "applicationView tm now now2 source =
     (let head = TrimSpace (ca_HeadSHA source); synced = TrimSpace (ca_LastSyncedSHA source);
          revision = (if head \<noteq> [] then head else if synced \<noteq> [] then synced else ''No displayed revision'')
      in \<lparr>vw_Name = ca_Name source, vw_Project = ca_Name source, vw_Repository = [], vw_Revision = revision, vw_Sync = syncState (ca_SyncStatus source),
          vw_Health = healthState tm (ca_ObservedHealthStatus source) (ca_LastObservedAt source) (ca_ObservationCompleteness source),
          vw_Observation = observation tm (ca_ObservedHealthStatus source) (ca_LastObservedAt source) (ca_ObservationCompleteness source) now,
          vw_LastDeployment = deploymentTime tm (ca_LastSyncTime source) now2,
          vw_LastEvent = ''Live status is limited to the scoped controller response.'', vw_Services = [], vw_IntentionalEmpty = False,
          vw_DesiredSummary = ''Desired topology is not requested in this live read.'',
          vw_LiveSummary = ''No service-level inference is made from fleet status.'',
          vw_Events = [], vw_LogPreview = []\<rparr>)"

definition activityView :: "TimeLib \<Rightarrow> time \<Rightarrow> cpActivityEvent \<Rightarrow> Event" where
  "activityView tm now source =
     (let occurredAt = (case tm_Parse tm (ce_OccurredAt source) of Inl e \<Rightarrow> tm_zero tm | Inr t \<Rightarrow> t)
      in \<lparr>ev_Application = ce_Application source, ev_Kind = activityKind (ce_Type source), ev_Message = ''Redacted controller activity metadata.'',
          ev_Occurred = relativeTime tm occurredAt now, ev_OccurredAt = occurredAt, ev_Tone = severityTone (ce_Severity source), ev_Revision = [],
          ev_Operation = ''Controller event''\<rparr>)"

definition mapControllerState :: "TimeLib \<Rightarrow> cpController \<Rightarrow> State \<times> string" where
  "mapControllerState tm v =
     (case tm_Parse tm (cn_ResponseGeneratedAt v) of
        Inl e \<Rightarrow> (mkState ''Controller status malformed'' ''coral'' Bang, [])
      | Inr t \<Rightarrow>
          if t = tm_zero tm then (mkState ''Controller status malformed'' ''coral'' Bang, [])
          else (if cn_StateDatabaseReady v then mkState ''State database ready'' ''mint'' Tick else mkState ''State database not ready'' ''coral'' Bang,
                ''Controller response '' @ middot @ '' '' @ tm_Format tm t))"

text \<open>Comparisons of float64 values: none holds of a NaN.\<close>

fun flt_less :: "float64 \<Rightarrow> float64 \<Rightarrow> bool" where
  "flt_less (Finite x) (Finite y) = (x < y)"
| "flt_less (Inf pos) (Finite y) = (\<not> pos)"
| "flt_less (Finite x) (Inf pos) = pos"
| "flt_less (Inf a) (Inf b) = (\<not> a \<and> b)"
| "flt_less _ _ = False"

fun flt_bad :: "float64 \<Rightarrow> bool" where
  "flt_bad NaN = True"
| "flt_bad (Inf pos) = True"
| "flt_bad (Finite x) = False"

definition malformedNumbers :: "cpCapacity \<Rightarrow> bool" where
  "malformedNumbers v =
     (cy_CPUCores v \<le> 0 \<or> flt_less (cy_CPUPercent v) (Finite 0) \<or> flt_less (Finite 100) (cy_CPUPercent v) \<or> flt_bad (cy_CPUPercent v)
      \<or> flt_less (cy_MemoryUsageMiB v) (Finite 0) \<or> flt_less (cy_MemoryTotalMiB v) (Finite 0) \<or> cy_MemoryTotalMiB v = Finite 0
      \<or> flt_less (cy_MemoryTotalMiB v) (cy_MemoryUsageMiB v) \<or> flt_bad (cy_MemoryUsageMiB v) \<or> flt_bad (cy_MemoryTotalMiB v)
      \<or> cy_RunningContainers v < 0 \<or> cy_EligibleContainers v < 0 \<or> cy_EligibleContainers v > 64 \<or> cy_ObservedContainers v < 0
      \<or> cy_ObservedContainers v > cy_EligibleContainers v \<or> cy_RunningContainers v < cy_ObservedContainers v)"

definition emptyCapacityView :: "State \<Rightarrow> CapacityView" where
  "emptyCapacityView s = \<lparr>cw_Available = False, cw_State = s, cw_CPUPercent = Finite 0, cw_CPUCores = 0, cw_MemoryUsageMiB = Finite 0,
     cw_MemoryTotalMiB = Finite 0, cw_RunningContainers = 0, cw_EligibleContainers = 0, cw_ObservedContainers = 0, cw_Completeness = [],
     cw_SampleCompletedAt = []\<rparr>"

text \<open>The view of an answer without figures, in a state, and the view with them.\<close>

definition hiddenCapacity :: "cpCapacity \<Rightarrow> State \<Rightarrow> CapacityView" where
  "hiddenCapacity v state = (emptyCapacityView state)\<lparr>cw_Completeness := cy_Completeness v, cw_SampleCompletedAt := cy_SampleCompletedAt v,
     cw_EligibleContainers := cy_EligibleContainers v, cw_ObservedContainers := cy_ObservedContainers v\<rparr>"

definition shownCapacity :: "cpCapacity \<Rightarrow> CapacityView" where
  "shownCapacity v = (hiddenCapacity v (mkState ''Current container sample'' ''mint'' Tick))\<lparr>cw_Available := True,
     cw_CPUPercent := cy_CPUPercent v, cw_CPUCores := cy_CPUCores v, cw_MemoryUsageMiB := cy_MemoryUsageMiB v,
     cw_MemoryTotalMiB := cy_MemoryTotalMiB v, cw_RunningContainers := cy_RunningContainers v\<rparr>"

definition mapCapacity :: "TimeLib \<Rightarrow> cpCapacity \<Rightarrow> CapacityView" where
  "mapCapacity tm v =
     (let malformed = hiddenCapacity v (mkState ''Capacity sample malformed'' ''coral'' Bang);
          inconsistent = hiddenCapacity v (mkState ''Capacity sample inconsistent'' ''coral'' Bang)
      in if cy_Completeness v = ''unavailable'' then hiddenCapacity v (mkState ''Capacity sample unavailable'' ''slate'' Query)
         else case (tm_Parse tm (cy_SampleStartedAt v), tm_Parse tm (cy_SampleCompletedAt v), tm_Parse tm (cy_ResponseGeneratedAt v)) of
           (Inr started, Inr completed, Inr generated) \<Rightarrow>
             if started = tm_zero tm \<or> completed = tm_zero tm then malformed
             else if completed < started \<or> generated < completed then inconsistent
             else if generated - completed > 15 * Second then hiddenCapacity v (mkState ''Capacity sample stale'' ''amber'' Tilde)
             else if malformedNumbers v then malformed
             else if cy_Completeness v = ''truncated'' then hiddenCapacity v (mkState ''Capacity sample truncated'' ''amber'' Tilde)
             else if cy_Completeness v = ''partial'' \<or> cy_ObservedContainers v \<noteq> cy_EligibleContainers v
             then hiddenCapacity v (mkState ''Capacity sample partial'' ''amber'' Tilde)
             else if cy_Completeness v \<noteq> ''complete'' then malformed
             else if cy_RunningContainers v \<noteq> cy_EligibleContainers v then inconsistent
             else shownCapacity v
         | _ \<Rightarrow> malformed)"

section \<open>The fleet\<close>

definition needsAttention :: "AppView \<Rightarrow> bool" where
  "needsAttention a = (st_Tone (vw_Health a) = ''coral'' \<or> st_Tone (vw_Sync a) = ''amber'' \<or> st_Tone (vw_Sync a) = ''coral'')"

definition environmentIssue :: "string \<Rightarrow> State \<Rightarrow> string \<Rightarrow> EnvironmentIssue list" where
  "environmentIssue name s path =
     (if st_Tone s = ''coral'' \<or> st_Tone s = ''amber'' then [\<lparr>ei_Name = name, ei_Summary = st_Label s, ei_State = s, ei_Path = path\<rparr>] else [])"

definition deriveCounts :: "FleetView \<Rightarrow> FleetView" where
  "deriveCounts f =
     (let healthy = length (filter (\<lambda>a. st_Tone (vw_Health a) = ''mint'') (fl_Applications f));
          attention = filter needsAttention (fl_Applications f)
      in f\<lparr>fl_HealthyCount := healthy, fl_AttentionCount := length attention, fl_Attention := attention,
           fl_HealthArc := (if fl_Applications f \<noteq> [] then 302 * healthy div length (fl_Applications f) else fl_HealthArc f),
           fl_EnvironmentAttention := environmentIssue ''Controller evidence'' (fl_ControllerState f) ''/controller''
             @ environmentIssue ''Fleet connection'' (fl_Connection f) ''/controller''
             @ environmentIssue ''Capacity evidence'' (cw_State (fl_Capacity f)) ''/fleet#capacity-evidence''\<rparr>)"

definition filterApplications :: "AppView list \<Rightarrow> string \<Rightarrow> string \<Rightarrow> AppView list" where
  "filterApplications applications q state =
     (let q = ToLower (TrimSpace q); state = ToLower (TrimSpace state)
      in filter (\<lambda>a. (q = [] \<or> Contains (ToLower (vw_Name a)) q \<or> Contains (ToLower (vw_Project a)) q)
           \<and> (state = [] \<or> (state = ''attention'' \<and> needsAttention a) \<or> (state = ''healthy'' \<and> st_Tone (vw_Health a) = ''mint'')
              \<or> (state = ''context'' \<and> vw_IntentionalEmpty a))) applications)"

section \<open>The reader bound to a subject\<close>

record Lib =
  lb_net :: ControllerNet
  lb_dec :: Decoders
  lb_tm :: TimeLib

text \<open>
  \<^verbatim>\<open>subjectBoundReader\<close>: \<open>rd_once\<close> is None until the check has run, then its result. A reader belongs to
  one browser request.
\<close>

record reader =
  rd_client :: Client
  rd_subject :: string
  rd_once :: "err option option"

definition checkSubject :: "string \<Rightarrow> cpPermissions result \<Rightarrow> err option" where
  "checkSubject subject permissions =
     (case permissions of
        Inl e \<Rightarrow> Some (Wrapf ''verifying scoped controller subject: %w'' [] e)
      | Inr p \<Rightarrow> if prm_Subject p \<noteq> subject then Some (Wrapf ''%w: controller subject binding mismatch'' [] ErrUnauthenticatedSession) else None)"

definition authorize :: "Lib \<Rightarrow> reader \<Rightarrow> ctrace \<Rightarrow> err option \<times> reader \<times> ctrace" where
  "authorize lb r t =
     (if TrimSpace (rd_subject r) = [] then (Some ErrUnauthenticatedSession, r, t)
      else case rd_once r of
        Some e \<Rightarrow> (e, r, t)
      | None \<Rightarrow>
          (case cl_Permissions (lb_net lb) (lb_dec lb) (rd_client r) t of
             (permissions, t) \<Rightarrow> (let e = checkSubject (rd_subject r) permissions in (e, r\<lparr>rd_once := Some e\<rparr>, t))))"

text \<open>The six reads of the reader have this body around the read of the client.\<close>

definition boundRead :: "Lib \<Rightarrow> (Client \<Rightarrow> ctrace \<Rightarrow> 'a result \<times> ctrace) \<Rightarrow> reader \<Rightarrow> ctrace \<Rightarrow> 'a result \<times> reader \<times> ctrace" where
  "boundRead lb read r t =
     (case authorize lb r t of
        (Some e, r, t) \<Rightarrow> (Inl e, r, t)
      | (None, r, t) \<Rightarrow> (case read (rd_client r) t of (res, t) \<Rightarrow> (res, r, t)))"

definition rd_Capabilities :: "Lib \<Rightarrow> reader \<Rightarrow> ctrace \<Rightarrow> cpCapabilities result \<times> reader \<times> ctrace" where
  "rd_Capabilities lb = boundRead lb (cl_Capabilities (lb_net lb) (lb_dec lb))"

definition rd_Fleet :: "Lib \<Rightarrow> reader \<Rightarrow> ctrace \<Rightarrow> cpFleet result \<times> reader \<times> ctrace" where
  "rd_Fleet lb = boundRead lb (cl_Fleet (lb_net lb) (lb_dec lb))"

definition rd_Activity :: "Lib \<Rightarrow> int \<Rightarrow> reader \<Rightarrow> ctrace \<Rightarrow> cpActivity result \<times> reader \<times> ctrace" where
  "rd_Activity lb limit = boundRead lb (\<lambda>c. cl_Activity (lb_net lb) (lb_dec lb) c limit)"

definition rd_Controller :: "Lib \<Rightarrow> reader \<Rightarrow> ctrace \<Rightarrow> cpController result \<times> reader \<times> ctrace" where
  "rd_Controller lb = boundRead lb (cl_Controller (lb_net lb) (lb_dec lb))"

definition rd_Capacity :: "Lib \<Rightarrow> reader \<Rightarrow> ctrace \<Rightarrow> cpCapacity result \<times> reader \<times> ctrace" where
  "rd_Capacity lb = boundRead lb (cl_Capacity (lb_net lb) (lb_dec lb))"

definition rd_Application :: "Lib \<Rightarrow> string \<Rightarrow> reader \<Rightarrow> ctrace \<Rightarrow> cpApplication result \<times> reader \<times> ctrace" where
  "rd_Application lb name = boundRead lb (\<lambda>c. cl_Application (lb_net lb) (lb_dec lb) c name)"

lemmas reader_reads = rd_Capabilities_def rd_Fleet_def rd_Activity_def rd_Controller_def rd_Capacity_def rd_Application_def

section \<open>The live source\<close>

text \<open>
  \<open>ls_capabilities\<close> is None until the capabilities have been read; \<open>ls_now\<close> are the clock's readings by number and
  \<open>ls_reads\<close> how many there have been.
\<close>

record LiveSource =
  ls_reader :: reader
  ls_controllerLabel :: string
  ls_environment :: string
  ls_now :: "nat \<Rightarrow> time"
  ls_reads :: nat
  ls_capabilities :: "cpCapabilities result option"
  ls_freshness :: string

definition NewLiveSource :: "reader option \<Rightarrow> string \<Rightarrow> string \<Rightarrow> (nat \<Rightarrow> time) \<Rightarrow> LiveSource result" where
  "NewLiveSource reader controllerLabel environment clock =
     (case reader of
        None \<Rightarrow> Inl (Errorf ''scoped controller reader is required'' [])
      | Some r \<Rightarrow>
          Inr \<lparr>ls_reader = r,
               ls_controllerLabel = (if TrimSpace controllerLabel = [] then ''Scoped controller'' else TrimSpace controllerLabel),
               ls_environment = (if TrimSpace environment = [] then ''Scoped presentation session'' else TrimSpace environment),
               ls_now = clock, ls_reads = 0, ls_capabilities = None, ls_freshness = []\<rparr>)"

text \<open>A call of a method of the source's reader.\<close>

definition callReader :: "(reader \<Rightarrow> ctrace \<Rightarrow> 'a \<times> reader \<times> ctrace) \<Rightarrow> LiveSource \<Rightarrow> ctrace \<Rightarrow> 'a \<times> LiveSource \<times> ctrace" where
  "callReader f s t = (case f (ls_reader s) t of (res, r, t) \<Rightarrow> (res, s\<lparr>ls_reader := r\<rparr>, t))"

definition loadCapabilities :: "Lib \<Rightarrow> LiveSource \<Rightarrow> ctrace \<Rightarrow> cpCapabilities result \<times> LiveSource \<times> ctrace" where
  "loadCapabilities lb s t =
     (case ls_capabilities s of
        Some c \<Rightarrow> (c, s, t)
      | None \<Rightarrow> (case callReader (rd_Capabilities lb) s t of (c, s, t) \<Rightarrow> (c, s\<lparr>ls_capabilities := Some c\<rparr>, t)))"

definition requireFeature :: "Lib \<Rightarrow> string \<Rightarrow> LiveSource \<Rightarrow> ctrace \<Rightarrow> err option \<times> LiveSource \<times> ctrace" where
  "requireFeature lb feature s t =
     (case loadCapabilities lb s t of
        (Inl e, s, t) \<Rightarrow> (Some (Wrapf ''preflighting scoped controller: %w'' [] e), s, t)
      | (Inr c, s, t) \<Rightarrow> (if feature \<in> set (cap_Features c) then None else Some ErrFeatureUnavailable, s, t))"

text \<open>Two features are required in order; the first error is the result.\<close>

definition requireBoth :: "Lib \<Rightarrow> string \<Rightarrow> string \<Rightarrow> LiveSource \<Rightarrow> ctrace \<Rightarrow> err option \<times> LiveSource \<times> ctrace" where
  "requireBoth lb f g s t =
     (case requireFeature lb f s t of (Some e, s, t) \<Rightarrow> (Some e, s, t) | (None, s, t) \<Rightarrow> requireFeature lb g s t)"

definition setFreshness :: "Lib \<Rightarrow> string \<Rightarrow> LiveSource \<Rightarrow> LiveSource" where
  "setFreshness lb v s = s\<lparr>ls_freshness := controllerResponseTime (lb_tm lb) v\<rparr>"

text \<open>Mapping an application reads the clock twice, mapping an event once.\<close>

fun mapApplications :: "TimeLib \<Rightarrow> cpApplication list \<Rightarrow> LiveSource \<Rightarrow> AppView list \<times> LiveSource" where
  "mapApplications tm [] s = ([], s)"
| "mapApplications tm (a # as) s =
     (let v = applicationView tm (ls_now s (ls_reads s)) (ls_now s (ls_reads s + 1)) a
      in case mapApplications tm as (s\<lparr>ls_reads := ls_reads s + 2\<rparr>) of (vs, s) \<Rightarrow> (v # vs, s))"

fun mapEvents :: "TimeLib \<Rightarrow> cpActivityEvent list \<Rightarrow> LiveSource \<Rightarrow> Event list \<times> LiveSource" where
  "mapEvents tm [] s = ([], s)"
| "mapEvents tm (e # es) s =
     (let v = activityView tm (ls_now s (ls_reads s)) e
      in case mapEvents tm es (s\<lparr>ls_reads := ls_reads s + 1\<rparr>) of (vs, s) \<Rightarrow> (v # vs, s))"

definition zeroFleet :: FleetView where
  "zeroFleet = \<lparr>fl_Controller = [], fl_Environment = [], fl_FetchedAt = [], fl_ObservationNote = [], fl_Connection = mkState [] [] [],
     fl_ErrorMessage = [], fl_HealthyCount = 0, fl_AttentionCount = 0, fl_HealthArc = 0, fl_Applications = [], fl_Attention = [],
     fl_EnvironmentAttention = [], fl_ControllerState = mkState [] [] [], fl_ControllerResponseAt = [],
     fl_Capacity = emptyCapacityView (mkState [] [] [])\<rparr>"

text \<open>The three parts of \<^verbatim>\<open>LoadFleet\<close> after the preflight.\<close>

definition unavailableFleet :: "LiveSource \<Rightarrow> FleetView" where
  "unavailableFleet s = zeroFleet\<lparr>fl_Controller := ls_controllerLabel s, fl_Environment := ls_environment s,
     fl_FetchedAt := ''Fleet response unavailable'',
     fl_ObservationNote := ''Application fleet evidence is unavailable; independent controller and capacity evidence remains below.'',
     fl_Connection := mkState ''Fleet response failed'' ''coral'' Bang,
     fl_ErrorMessage := ''The scoped application fleet response is unavailable. No retained application state is shown as current.''\<rparr>"

definition fleetApplications :: "Lib \<Rightarrow> FleetView \<Rightarrow> LiveSource \<Rightarrow> ctrace \<Rightarrow> FleetView \<times> LiveSource \<times> ctrace" where
  "fleetApplications lb fleet s t =
     (case callReader (rd_Fleet lb) s t of
        (Inl e, s, t) \<Rightarrow> (fleet, s, t)
      | (Inr response, s, t) \<Rightarrow>
          (case mapApplications (lb_tm lb) (cf_Applications response) (setFreshness lb (cf_ResponseGeneratedAt response) s) of
             (applications, s) \<Rightarrow>
               (fleet\<lparr>fl_FetchedAt := controllerResponseTime (lb_tm lb) (cf_ResponseGeneratedAt response),
                  fl_ObservationNote := ''Displayed health and observation times come from the scoped controller response.'',
                  fl_Connection := mkState ''Scoped data loaded'' ''mint'' Tick, fl_ErrorMessage := [], fl_Applications := applications\<rparr>, s, t)))"

definition fleetController :: "Lib \<Rightarrow> FleetView \<Rightarrow> LiveSource \<Rightarrow> ctrace \<Rightarrow> FleetView \<times> LiveSource \<times> ctrace" where
  "fleetController lb fleet s t =
     (let fleet = fleet\<lparr>fl_ControllerState := mkState ''Controller status unavailable to this session'' ''slate'' Query\<rparr>
      in case requireFeature lb ''presentation.controller'' s t of
        (Some e, s, t) \<Rightarrow> (fleet, s, t)
      | (None, s, t) \<Rightarrow>
          (case callReader (rd_Controller lb) s t of
             (Inl e, s, t) \<Rightarrow> (fleet\<lparr>fl_ControllerState := mkState ''Controller status request failed'' ''coral'' Bang\<rparr>, s, t)
           | (Inr controller, s, t) \<Rightarrow>
               (case mapControllerState (lb_tm lb) controller of
                  (state, responseAt) \<Rightarrow> (fleet\<lparr>fl_ControllerState := state, fl_ControllerResponseAt := responseAt\<rparr>, s, t))))"

definition fleetCapacity :: "Lib \<Rightarrow> FleetView \<Rightarrow> LiveSource \<Rightarrow> ctrace \<Rightarrow> FleetView \<times> LiveSource \<times> ctrace" where
  "fleetCapacity lb fleet s t =
     (let fleet = fleet\<lparr>fl_Capacity := emptyCapacityView (mkState ''Capacity unavailable to this session'' ''slate'' Query)\<rparr>
      in case requireFeature lb ''presentation.capacity'' s t of
        (Some e, s, t) \<Rightarrow> (fleet, s, t)
      | (None, s, t) \<Rightarrow>
          (case callReader (rd_Capacity lb) s t of
             (Inl e, s, t) \<Rightarrow> (fleet\<lparr>fl_Capacity := emptyCapacityView (mkState ''Capacity collection unavailable'' ''coral'' Bang)\<rparr>, s, t)
           | (Inr capacity, s, t) \<Rightarrow> (fleet\<lparr>fl_Capacity := mapCapacity (lb_tm lb) capacity\<rparr>, s, t)))"

definition LoadFleet :: "Lib \<Rightarrow> LiveSource \<Rightarrow> ctrace \<Rightarrow> FleetView result \<times> LiveSource \<times> ctrace" where
  "LoadFleet lb s t =
     (case requireBoth lb ''presentation.fleet'' ''presentation.status-metadata'' s t of
        (Some e, s, t) \<Rightarrow> (Inl e, s, t)
      | (None, s, t) \<Rightarrow>
          (case fleetApplications lb (unavailableFleet s) s t of
             (fleet, s, t) \<Rightarrow>
               (case fleetController lb fleet s t of
                  (fleet, s, t) \<Rightarrow>
                    (case fleetCapacity lb fleet s t of (fleet, s, t) \<Rightarrow> (Inr (deriveCounts fleet), s, t)))))"

definition LoadActivity :: "Lib \<Rightarrow> int \<Rightarrow> LiveSource \<Rightarrow> ctrace \<Rightarrow> (Event list) result \<times> LiveSource \<times> ctrace" where
  "LoadActivity lb limit s t =
     (if limit < 1 \<or> limit > 100 then (Inl ErrFeatureUnavailable, s, t)
      else case requireBoth lb ''presentation.activity'' ''presentation.status-metadata'' s t of
        (Some e, s, t) \<Rightarrow> (Inl e, s, t)
      | (None, s, t) \<Rightarrow>
          (case callReader (rd_Activity lb limit) s t of
             (Inl e, s, t) \<Rightarrow> (Inl (Wrapf ''loading scoped activity: %w'' [] e), s, t)
           | (Inr response, s, t) \<Rightarrow>
               (case mapEvents (lb_tm lb) (cv_Events response) (setFreshness lb (cv_ResponseGeneratedAt response) s) of
                  (events, s) \<Rightarrow> (Inr events, s, t))))"

definition LoadApplication :: "Lib \<Rightarrow> string \<Rightarrow> LiveSource \<Rightarrow> ctrace \<Rightarrow> AppView result \<times> LiveSource \<times> ctrace" where
  "LoadApplication lb name s t =
     (case requireBoth lb ''presentation.application'' ''presentation.status-metadata'' s t of
        (Some e, s, t) \<Rightarrow> (Inl e, s, t)
      | (None, s, t) \<Rightarrow>
          (case callReader (rd_Application lb name) s t of
             (Inl e, s, t) \<Rightarrow> (Inl (Wrapf ''loading scoped application: %w'' [] e), s, t)
           | (Inr response, s, t) \<Rightarrow>
               (let s = setFreshness lb (ca_ResponseGeneratedAt response) s
                in (Inr (applicationView (lb_tm lb) (ls_now s (ls_reads s)) (ls_now s (ls_reads s + 1)) response), s\<lparr>ls_reads := ls_reads s + 2\<rparr>, t))))"

definition live_ViewContext :: "LiveSource \<Rightarrow> ViewContext" where
  "live_ViewContext s = \<lparr>vc_Controller = ls_controllerLabel s, vc_Environment = ls_environment s,
     vc_Freshness = (if ls_freshness s = [] then ''Awaiting controller response'' else ls_freshness s),
     vc_Connection = mkState ''Scoped session'' ''mint'' Tick, vc_Fixture = False\<rparr>"

definition IsFeatureUnavailable :: "err \<Rightarrow> bool" where
  "IsFeatureUnavailable e = errorsIs e ErrFeatureUnavailable"

definition live_Applications :: "Lib \<Rightarrow> string \<Rightarrow> string \<Rightarrow> LiveSource \<Rightarrow> ctrace \<Rightarrow> (FleetView \<times> AppView list) result \<times> LiveSource \<times> ctrace" where
  "live_Applications lb q state s t =
     (case LoadFleet lb s t of
        (Inl e, s, t) \<Rightarrow> (Inl e, s, t)
      | (Inr fleet, s, t) \<Rightarrow> (Inr (fleet, filterApplications (fl_Applications fleet) q state), s, t))"

definition live_Application :: "Lib \<Rightarrow> string \<Rightarrow> LiveSource \<Rightarrow> ctrace \<Rightarrow> (AppView option) result \<times> LiveSource \<times> ctrace" where
  "live_Application lb name s t =
     (case LoadApplication lb name s t of
        (Inl e, s, t) \<Rightarrow> (if errorsIs e ErrNotFound then Inr None else Inl e, s, t)
      | (Inr application, s, t) \<Rightarrow> (Inr (Some application), s, t))"

definition live_Activity :: "Lib \<Rightarrow> LiveSource \<Rightarrow> ctrace \<Rightarrow> (Event list) result \<times> LiveSource \<times> ctrace" where
  "live_Activity lb s t = LoadActivity lb 50 s t"

section \<open>A source for a session\<close>

record SessionSourceProvider =
  sp_baseURL :: string
  sp_requestTimeout :: duration
  sp_controllerLabel :: string
  sp_environment :: string

definition NewSessionSourceProvider :: "(string \<Rightarrow> Endpoint result) \<Rightarrow> bool \<Rightarrow> string \<Rightarrow> duration \<Rightarrow> string \<Rightarrow> string \<Rightarrow> SessionSourceProvider result" where
  "NewSessionSourceProvider parse hasResolver controllerURL requestTimeout controllerLabel environment =
     (if \<not> hasResolver then Inl (Errorf ''presentation session resolver is required'' [])
      else case NewClient parse controllerURL (Some (Inl ErrUnauthenticatedSession)) requestTimeout of
        Inl e \<Rightarrow> Inl e
      | Inr c \<Rightarrow> Inr \<lparr>sp_baseURL = controllerURL, sp_requestTimeout = requestTimeout, sp_controllerLabel = controllerLabel, sp_environment = environment\<rparr>)"

text \<open>
  \<^verbatim>\<open>SourceForRequest\<close> on what the resolver answered for the browser's request: the session's identifier, its subject and its
  controller token.
\<close>

definition sourceForSession :: "(string \<Rightarrow> Endpoint result) \<Rightarrow> SessionSourceProvider \<Rightarrow> (nat \<Rightarrow> time) \<Rightarrow> (string \<times> string \<times> string) result \<Rightarrow> LiveSource result" where
  "sourceForSession parse p clock resolved =
     (case resolved of
        Inl e \<Rightarrow> Inl ErrUnauthenticatedSession
      | Inr (sessionID, subject, token) \<Rightarrow>
          if TrimSpace sessionID = [] \<or> TrimSpace subject = [] then Inl ErrUnauthenticatedSession
          else case NewClient parse (sp_baseURL p) (Some (Inr token)) (sp_requestTimeout p) of
            Inl e \<Rightarrow> Inl e
          | Inr c \<Rightarrow> NewLiveSource (Some \<lparr>rd_client = c, rd_subject = subject, rd_once = None\<rparr>) (sp_controllerLabel p) (sp_environment p) clock)"

end
