(* ===== verification/LiveSource_Safety.thy ===== *)
theory LiveSource_Safety
  imports LiveSource
begin

text \<open>
  What a live source asks of the controller, and when it shows data. The operations of the source see the controller
  only through its reader, so an invariant of the reader that the subject check and the reads after it keep is kept
  by them all: \<open>reader_invariant\<close> states this interface, and the discipline of the requests and the lasting of a
  successful check are its two instances.
\<close>

section \<open>Invariants of the reader\<close>

lemma callReader_cases:
  assumes "callReader f s t = (x, s', t')"
  obtains r' where "f (ls_reader s) t = (x, r', t')" "s' = s\<lparr>ls_reader := r'\<rparr>"
  using assms by (auto simp: callReader_def split: prod.splits)

lemma authorize_once: "authorize lb r t = (None, r', t') \<Longrightarrow> rd_once r' = Some None"
  by (auto simp: authorize_def Let_def split: if_splits option.splits prod.splits)

definition reads :: "(Client \<Rightarrow> ctrace \<Rightarrow> 'a \<times> ctrace) \<Rightarrow> bool" where
  "reads f = (\<forall>c t. asked c t (snd (f c t)))"

lemma client_reads_only:
  "reads (cl_Capabilities net ds)" "reads (cl_Fleet net ds)" "reads (cl_Controller net ds)" "reads (cl_Capacity net ds)"
  "reads (\<lambda>c. cl_Activity net ds c limit)" "reads (\<lambda>c. cl_Application net ds c name)"
  by (simp_all add: reads_def client_asked)

locale reader_invariant =
  fixes lb :: Lib and P :: "reader \<Rightarrow> ctrace \<Rightarrow> bool"
  assumes authorized: "P r t \<Longrightarrow> authorize lb r t = (e, r', t') \<Longrightarrow> P r' t'"
    and read: "P r t \<Longrightarrow> rd_once r = Some None \<Longrightarrow> asked (rd_client r) t t' \<Longrightarrow> P r t'"
begin

lemma boundRead_keeps:
  assumes "P r t" "reads f" "boundRead lb f r t = (x, r', t')"
  shows "P r' t'"
proof -
  obtain e r1 t1 where a: "authorize lb r t = (e, r1, t1)" by (metis prod_cases3)
  have P1: "P r1 t1" by (rule authorized [OF assms(1) a])
  show ?thesis
  proof (cases e)
    case None
    then have "P r1 (snd (f (rd_client r1) t1))"
      using authorize_once a assms(2) by (intro read [OF P1]) (auto simp: reads_def)
    then show ?thesis using assms(3) a None by (auto simp: boundRead_def split: prod.splits)
  next
    case (Some err)
    then show ?thesis using assms(3) a P1 by (auto simp: boundRead_def)
  qed
qed

lemma reader_keeps:
  "rd_Capabilities lb r t = (a, r', t') \<Longrightarrow> P r t \<Longrightarrow> P r' t'"
  "rd_Fleet lb r t = (b, r', t') \<Longrightarrow> P r t \<Longrightarrow> P r' t'"
  "rd_Activity lb limit r t = (c, r', t') \<Longrightarrow> P r t \<Longrightarrow> P r' t'"
  "rd_Controller lb r t = (d, r', t') \<Longrightarrow> P r t \<Longrightarrow> P r' t'"
  "rd_Capacity lb r t = (e, r', t') \<Longrightarrow> P r t \<Longrightarrow> P r' t'"
  "rd_Application lb name r t = (g, r', t') \<Longrightarrow> P r t \<Longrightarrow> P r' t'"
  by (auto simp: reader_reads intro: boundRead_keeps client_reads_only)

abbreviation kept :: "LiveSource \<Rightarrow> ctrace \<Rightarrow> bool" where
  "kept s t \<equiv> P (ls_reader s) t"

lemma callReader_keeps:
  "callReader (rd_Capabilities lb) s t = (a, s', t') \<Longrightarrow> kept s t \<Longrightarrow> kept s' t'"
  "callReader (rd_Fleet lb) s t = (b, s', t') \<Longrightarrow> kept s t \<Longrightarrow> kept s' t'"
  "callReader (rd_Activity lb limit) s t = (c, s', t') \<Longrightarrow> kept s t \<Longrightarrow> kept s' t'"
  "callReader (rd_Controller lb) s t = (d, s', t') \<Longrightarrow> kept s t \<Longrightarrow> kept s' t'"
  "callReader (rd_Capacity lb) s t = (e, s', t') \<Longrightarrow> kept s t \<Longrightarrow> kept s' t'"
  "callReader (rd_Application lb name) s t = (g, s', t') \<Longrightarrow> kept s t \<Longrightarrow> kept s' t'"
  by (auto elim!: callReader_cases dest!: reader_keeps)

lemma requireFeature_keeps: "requireFeature lb f s t = (e, s', t') \<Longrightarrow> kept s t \<Longrightarrow> kept s' t'"
  by (auto simp: requireFeature_def loadCapabilities_def split: prod.splits sum.splits option.splits dest!: callReader_keeps(1))

lemma requireBoth_keeps: "requireBoth lb f g s t = (e, s', t') \<Longrightarrow> kept s t \<Longrightarrow> kept s' t'"
  by (auto simp: requireBoth_def split: prod.splits option.splits dest!: requireFeature_keeps)

lemma mapApplications_keeps: "mapApplications tm as s = (vs, s') \<Longrightarrow> ls_reader s' = ls_reader s"
proof (induction as arbitrary: s vs)
  case (Cons x xs)
  then show ?case by (fastforce simp: Let_def split: prod.splits)
qed simp

lemma mapEvents_keeps: "mapEvents tm es s = (vs, s') \<Longrightarrow> ls_reader s' = ls_reader s"
proof (induction es arbitrary: s vs)
  case (Cons x xs)
  then show ?case by (fastforce simp: Let_def split: prod.splits)
qed simp

lemma setFreshness_keeps [simp]: "ls_reader (setFreshness lb v s) = ls_reader s"
  by (simp add: setFreshness_def)

lemma fleetApplications_keeps: "fleetApplications lb f s t = (x, s', t') \<Longrightarrow> kept s t \<Longrightarrow> kept s' t'"
  by (auto simp: fleetApplications_def split: prod.splits sum.splits dest!: callReader_keeps(2) mapApplications_keeps)

lemma fleetController_keeps: "fleetController lb f s t = (x, s', t') \<Longrightarrow> kept s t \<Longrightarrow> kept s' t'"
  by (auto simp: fleetController_def Let_def split: prod.splits sum.splits option.splits dest!: requireFeature_keeps callReader_keeps(4))

lemma fleetCapacity_keeps: "fleetCapacity lb f s t = (x, s', t') \<Longrightarrow> kept s t \<Longrightarrow> kept s' t'"
  by (auto simp: fleetCapacity_def Let_def split: prod.splits sum.splits option.splits dest!: requireFeature_keeps callReader_keeps(5))

lemma LoadFleet_keeps: "LoadFleet lb s t = (x, s', t') \<Longrightarrow> kept s t \<Longrightarrow> kept s' t'"
  by (auto simp: LoadFleet_def split: prod.splits option.splits
      dest!: requireBoth_keeps fleetApplications_keeps fleetController_keeps fleetCapacity_keeps)

lemma LoadActivity_keeps: "LoadActivity lb limit s t = (x, s', t') \<Longrightarrow> kept s t \<Longrightarrow> kept s' t'"
  by (auto simp: LoadActivity_def split: prod.splits option.splits sum.splits if_splits
      dest!: requireBoth_keeps callReader_keeps(3) mapEvents_keeps)

lemma LoadApplication_keeps: "LoadApplication lb name s t = (x, s', t') \<Longrightarrow> kept s t \<Longrightarrow> kept s' t'"
  by (auto simp: LoadApplication_def Let_def split: prod.splits option.splits sum.splits
      dest!: requireBoth_keeps callReader_keeps(6))

lemma live_keeps:
  "live_Applications lb q state s t = (a, s', t') \<Longrightarrow> kept s t \<Longrightarrow> kept s' t'"
  "live_Application lb name s t = (b, s', t') \<Longrightarrow> kept s t \<Longrightarrow> kept s' t'"
  "live_Activity lb s t = (c, s', t') \<Longrightarrow> kept s t \<Longrightarrow> kept s' t'"
  by (auto simp: live_Applications_def live_Application_def live_Activity_def split: prod.splits sum.splits
      dest!: LoadFleet_keeps LoadApplication_keeps LoadActivity_keeps)

end

section \<open>The discipline of the requests\<close>

definition permissionsURL :: "Client \<Rightarrow> Endpoint" where
  "permissionsURL c = (cl_baseURL c)\<lparr>ep_Path := TrimSuffix (ep_Path (cl_baseURL c)) ''/'' @ ''/api/v1/presentation/permissions''\<rparr>"

text \<open>An answer that names the subject as the holder of the credential.\<close>

definition confirms :: "Lib \<Rightarrow> string \<Rightarrow> CResponse result \<Rightarrow> bool" where
  "confirms lb subject answer =
     (\<exists>response p. answer = Inr response \<and> decodeResponse (dec_Permissions (lb_dec lb)) response = Inr p \<and> prm_Subject p = subject)"

text \<open>
  The requests of one page: all go to the presentation API with the client's credential, the first asks whose
  credential it is, and others follow only if the answer names the subject.
\<close>

definition disciplined :: "Lib \<Rightarrow> Client \<Rightarrow> string \<Rightarrow> ctrace \<Rightarrow> bool" where
  "disciplined lb c subject new =
     (list_all (\<lambda>(rq, ans). presentationRequest c rq) new
      \<and> (new \<noteq> [] \<longrightarrow> rq_URL (fst (hd new)) = permissionsURL c)
      \<and> (length new > 1 \<longrightarrow> confirms lb subject (snd (hd new))))"

definition boundReader :: "Lib \<Rightarrow> Client \<Rightarrow> string \<Rightarrow> ctrace \<Rightarrow> reader \<Rightarrow> ctrace \<Rightarrow> bool" where
  "boundReader lb c subject t0 r t =
     (rd_client r = c \<and> rd_subject r = subject
      \<and> (\<exists>new. t = t0 @ new \<and> disciplined lb c subject new
           \<and> (rd_once r = None \<longrightarrow> new = []) \<and> (length new > 1 \<longrightarrow> rd_once r = Some None)
           \<and> (rd_once r = Some None \<longrightarrow> new \<noteq> [] \<and> confirms lb subject (snd (hd new)))))"

lemma cl_Permissions_cases:
  assumes "cl_Permissions net ds c t = (res, t')"
  obtains (refused) e where "res = Inl e" "t' = t"
  | (asked) rq ans where "t' = t @ [(rq, ans)]" "presentationRequest c rq" "rq_URL rq = permissionsURL c"
      "\<And>p. res = Inr p \<Longrightarrow> \<exists>response. ans = Inr response \<and> decodeResponse (dec_Permissions ds) response = Inr p"
proof (cases "t' = t")
  case True
  then have "isl res"
    using assms by (auto simp: cl_Permissions_def getWithQuery_def Let_def split: sum.splits if_splits option.splits)
  then show ?thesis using True refused by (auto simp: isl_def)
next
  case False
  then obtain token rq where token: "cl_tokens c = Inr token" "TrimSpace token \<noteq> []"
    and rq: "rq = \<lparr>rq_URL = permissionsURL c, rq_Query = [], rq_Authorization = ''Bearer '' @ token\<rparr>"
    and t': "t' = t @ [(rq, cn_Do net t rq)]"
    and res: "res = (case cn_Do net t rq of Inl e \<Rightarrow> Inl (Wrapf ''requesting controller: %w'' [] e) | Inr response \<Rightarrow> decodeResponse (dec_Permissions ds) response)"
    using assms by (auto simp: cl_Permissions_def getWithQuery_def permissionsURL_def Let_def split: sum.splits if_splits option.splits)
  have "presentationRequest c rq"
    using token by (auto simp: presentationRequest_def rq permissionsURL_def)
  moreover have "\<exists>response. cn_Do net t rq = Inr response \<and> decodeResponse (dec_Permissions ds) response = Inr p" if "res = Inr p" for p
    using that res by (cases "cn_Do net t rq") auto
  ultimately show ?thesis using asked [of rq "cn_Do net t rq"] t' by (simp add: rq)
qed

interpretation bound: reader_invariant lb "boundReader lb c subject t0" for lb c subject t0
proof
  fix r t e r' t'
  assume inv: "boundReader lb c subject t0 r t" and a: "authorize lb r t = (e, r', t')"
  show "boundReader lb c subject t0 r' t'"
  proof (cases "TrimSpace (rd_subject r) = [] \<or> rd_once r \<noteq> None")
    case True
    then have "r' = r" "t' = t" using a by (auto simp: authorize_def split: if_splits option.splits)
    then show ?thesis using inv by simp
  next
    case False
    then obtain res where p: "cl_Permissions (lb_net lb) (lb_dec lb) (rd_client r) t = (res, t')"
      and r': "r' = r\<lparr>rd_once := Some (checkSubject (rd_subject r) res)\<rparr>"
      using a by (auto simp: authorize_def Let_def split: prod.splits)
    have "t = t0" using inv False by (auto simp: boundReader_def)
    from p show ?thesis
    proof (cases rule: cl_Permissions_cases)
      case (refused e)
      then show ?thesis using inv False \<open>t = t0\<close> r' by (auto simp: boundReader_def checkSubject_def)
    next
      case (asked rq ans)
      have "confirms lb subject ans" if "checkSubject subject res = None"
        using that asked(4) by (auto simp: checkSubject_def confirms_def split: sum.splits if_splits)
      then show ?thesis
        using inv asked(1-3) \<open>t = t0\<close> r' by (auto simp: boundReader_def disciplined_def)
    qed
  qed
next
  fix r t t'
  assume "boundReader lb c subject t0 r t" "rd_once r = Some None" "asked (rd_client r) t t'"
  then show "boundReader lb c subject t0 r t'"
    by (auto simp: boundReader_def asked_def disciplined_def)
qed

interpretation checked: reader_invariant lb "\<lambda>r t. rd_once r = Some None" for lb
  by standard (auto simp: authorize_def split: if_splits)

section \<open>Data only after the check\<close>

text \<open>Capabilities are only remembered from a reader that has passed the check.\<close>

definition capsChecked :: "LiveSource \<Rightarrow> bool" where
  "capsChecked s = (\<forall>x. ls_capabilities s = Some (Inr x) \<longrightarrow> rd_once (ls_reader s) = Some None)"

lemma boundRead_checked: "boundRead lb f r t = (Inr x, r', t') \<Longrightarrow> rd_once r' = Some None"
  by (auto simp: boundRead_def split: prod.splits option.splits dest: authorize_once)

lemma loadCapabilities_checked:
  "loadCapabilities lb s t = (Inr x, s', t') \<Longrightarrow> capsChecked s \<Longrightarrow> rd_once (ls_reader s') = Some None"
  by (auto simp: loadCapabilities_def rd_Capabilities_def callReader_def capsChecked_def split: option.splits prod.splits dest: boundRead_checked)

lemma requireFeature_checked: "requireFeature lb f s t = (None, s', t') \<Longrightarrow> capsChecked s \<Longrightarrow> rd_once (ls_reader s') = Some None"
  by (auto simp: requireFeature_def split: prod.splits sum.splits if_splits dest: loadCapabilities_checked)

lemma requireBoth_checked:
  "requireBoth lb f g s t = (None, s', t') \<Longrightarrow> capsChecked s \<Longrightarrow> rd_once (ls_reader s') = Some None"
  by (auto simp: requireBoth_def split: prod.splits option.splits dest: requireFeature_checked checked.requireFeature_keeps)

lemma data_checked:
  "LoadFleet lb s t = (Inr a, s', t') \<Longrightarrow> capsChecked s \<Longrightarrow> rd_once (ls_reader s') = Some None"
  "LoadActivity lb limit s t = (Inr b, s', t') \<Longrightarrow> capsChecked s \<Longrightarrow> rd_once (ls_reader s') = Some None"
  "LoadApplication lb name s t = (Inr c, s', t') \<Longrightarrow> capsChecked s \<Longrightarrow> rd_once (ls_reader s') = Some None"
  subgoal
    by (auto simp: LoadFleet_def split: prod.splits option.splits dest!: requireBoth_checked checked.fleetApplications_keeps
        checked.fleetController_keeps checked.fleetCapacity_keeps)
  subgoal
    by (auto simp: LoadActivity_def split: prod.splits option.splits sum.splits if_splits dest!: requireBoth_checked
        checked.callReader_keeps(3) checked.mapEvents_keeps)
  subgoal
    by (auto simp: LoadApplication_def Let_def split: prod.splits option.splits sum.splits dest!: requireBoth_checked checked.callReader_keeps(6))
  done

section \<open>Capacity\<close>

lemma finite_between:
  "\<not> flt_less x (Finite lo) \<and> \<not> flt_bad x \<longleftrightarrow> (\<exists>q\<ge>lo. x = Finite q)"
  "\<not> flt_less (Finite hi) x \<and> \<not> flt_bad x \<longleftrightarrow> (\<exists>q\<le>hi. x = Finite q)"
  by (cases x; auto)+

lemma wellFormedNumbers:
  "\<not> malformedNumbers v \<longleftrightarrow>
     (\<exists>cpu used total. cy_CPUPercent v = Finite cpu \<and> 0 \<le> cpu \<and> cpu \<le> 100 \<and> cy_MemoryUsageMiB v = Finite used \<and> cy_MemoryTotalMiB v = Finite total
        \<and> 0 \<le> used \<and> used \<le> total \<and> 0 < total)
     \<and> 0 < cy_CPUCores v \<and> 0 \<le> cy_ObservedContainers v \<and> cy_ObservedContainers v \<le> cy_EligibleContainers v \<and> cy_EligibleContainers v \<le> 64
     \<and> cy_ObservedContainers v \<le> cy_RunningContainers v"
  by (cases "cy_CPUPercent v"; cases "cy_MemoryUsageMiB v"; cases "cy_MemoryTotalMiB v") (auto simp: malformedNumbers_def)

definition soundSample :: "TimeLib \<Rightarrow> cpCapacity \<Rightarrow> bool" where
  "soundSample tm v =
     ((\<exists>started completed generated.
         tm_Parse tm (cy_SampleStartedAt v) = Inr started \<and> tm_Parse tm (cy_SampleCompletedAt v) = Inr completed
         \<and> tm_Parse tm (cy_ResponseGeneratedAt v) = Inr generated \<and> started \<noteq> tm_zero tm \<and> completed \<noteq> tm_zero tm
         \<and> started \<le> completed \<and> completed \<le> generated \<and> generated \<le> completed + 15 * Second)
      \<and> (\<exists>cpu used total. cy_CPUPercent v = Finite cpu \<and> 0 \<le> cpu \<and> cpu \<le> 100 \<and> cy_MemoryUsageMiB v = Finite used \<and> cy_MemoryTotalMiB v = Finite total
           \<and> 0 \<le> used \<and> used \<le> total \<and> 0 < total)
      \<and> 0 < cy_CPUCores v \<and> cy_Completeness v = ''complete''
      \<and> 0 \<le> cy_RunningContainers v \<and> cy_RunningContainers v \<le> 64
      \<and> cy_ObservedContainers v = cy_RunningContainers v \<and> cy_EligibleContainers v = cy_RunningContainers v)"

lemma hidden_figures [simp]:
  "cw_Available (hiddenCapacity v state) = False" "cw_State (hiddenCapacity v state) = state" "cw_CPUPercent (hiddenCapacity v state) = Finite 0"
  "cw_CPUCores (hiddenCapacity v state) = 0" "cw_MemoryUsageMiB (hiddenCapacity v state) = Finite 0"
  "cw_MemoryTotalMiB (hiddenCapacity v state) = Finite 0" "cw_RunningContainers (hiddenCapacity v state) = 0"
  by (simp_all add: hiddenCapacity_def emptyCapacityView_def)

lemma shown_figures [simp]:
  "cw_Available (shownCapacity v)" "st_Tone (cw_State (shownCapacity v)) = ''mint''" "cw_CPUPercent (shownCapacity v) = cy_CPUPercent v"
  "cw_CPUCores (shownCapacity v) = cy_CPUCores v" "cw_MemoryUsageMiB (shownCapacity v) = cy_MemoryUsageMiB v"
  "cw_MemoryTotalMiB (shownCapacity v) = cy_MemoryTotalMiB v" "cw_RunningContainers (shownCapacity v) = cy_RunningContainers v"
  by (simp_all add: shownCapacity_def)

lemma mapCapacity_cases:
  assumes hidden: "\<And>label tone g. tone \<in> {''slate'', ''amber'', ''coral''} \<Longrightarrow> P (hiddenCapacity v (mkState label tone g))"
    and shown: "soundSample tm v \<Longrightarrow> P (shownCapacity v)"
  shows "P (mapCapacity tm v)"
proof -
  have outcomes: "P (hiddenCapacity v (mkState label ''slate'' g))" "P (hiddenCapacity v (mkState label ''amber'' g))"
    "P (hiddenCapacity v (mkState label ''coral'' g))" for label g
    by (rule hidden, simp)+
  show ?thesis
  proof (cases "\<exists>started completed generated. tm_Parse tm (cy_SampleStartedAt v) = Inr started
      \<and> tm_Parse tm (cy_SampleCompletedAt v) = Inr completed \<and> tm_Parse tm (cy_ResponseGeneratedAt v) = Inr generated")
    case True
    then obtain started completed generated where times: "tm_Parse tm (cy_SampleStartedAt v) = Inr started"
      "tm_Parse tm (cy_SampleCompletedAt v) = Inr completed" "tm_Parse tm (cy_ResponseGeneratedAt v) = Inr generated" by blast
    have "P (shownCapacity v)" if "started \<noteq> tm_zero tm" "completed \<noteq> tm_zero tm" "\<not> completed < started" "\<not> generated < completed"
      "\<not> 15 * Second < generated - completed" "\<not> malformedNumbers v" "cy_ObservedContainers v = cy_EligibleContainers v"
      "cy_Completeness v = ''complete''" "cy_RunningContainers v = cy_EligibleContainers v"
      using that wellFormedNumbers [of v] by (intro shown) (auto simp: soundSample_def times)
    then show ?thesis by (simp add: mapCapacity_def Let_def times outcomes)
  next
    case False
    then show ?thesis by (auto simp: mapCapacity_def Let_def outcomes split: sum.split)
  qed
qed

lemma mapCapacity_sound:
  assumes "soundSample tm v"
  shows "mapCapacity tm v = shownCapacity v"
proof -
  have "\<not> malformedNumbers v" using assms wellFormedNumbers [of v] by (auto simp: soundSample_def)
  then show ?thesis
    using assms unfolding soundSample_def by (elim conjE exE) (simp add: mapCapacity_def Let_def)
qed

text \<open>
  C37: Capacity on a page. The console shows figures exactly for a sample that is complete, at most 15 seconds old when the
  controller answered, with times in order and figures in range that agree with each other; then it shows the sample's own
  figures. Any other answer is shown without figures and never in the colour of a good state.
\<close>

theorem capacity_shown_iff_sound:
  "(if soundSample tm v
    then cw_Available (mapCapacity tm v) \<and> st_Tone (cw_State (mapCapacity tm v)) = ''mint''
      \<and> cw_CPUPercent (mapCapacity tm v) = cy_CPUPercent v \<and> cw_CPUCores (mapCapacity tm v) = cy_CPUCores v
      \<and> cw_MemoryUsageMiB (mapCapacity tm v) = cy_MemoryUsageMiB v \<and> cw_MemoryTotalMiB (mapCapacity tm v) = cy_MemoryTotalMiB v
      \<and> cw_RunningContainers (mapCapacity tm v) = cy_RunningContainers v
    else \<not> cw_Available (mapCapacity tm v) \<and> st_Tone (cw_State (mapCapacity tm v)) \<in> {''slate'', ''amber'', ''coral''}
      \<and> cw_CPUPercent (mapCapacity tm v) = Finite 0 \<and> cw_CPUCores (mapCapacity tm v) = 0
      \<and> cw_MemoryUsageMiB (mapCapacity tm v) = Finite 0 \<and> cw_MemoryTotalMiB (mapCapacity tm v) = Finite 0
      \<and> cw_RunningContainers (mapCapacity tm v) = 0)"
proof (cases "soundSample tm v")
  case True
  then show ?thesis by (simp add: mapCapacity_sound)
next
  case False
  show ?thesis
    by (rule mapCapacity_cases) (use False in auto)
qed

end
