(* ===== verification/Fixture.thy ===== *)
theory Fixture
  imports LiveSource_Safety
begin

text \<open>
  The sample data the web console shows when it runs without an identity (\<^verbatim>\<open>src/web/internal/presentation/fixture.go\<close>), its
  variants, and the two sources of a page behind the one interface \<^verbatim>\<open>Source\<close>.
\<close>

section \<open>The sample fleet\<close>

definition fixtureNow :: time where "fixtureNow = 1789482720 * Second"

definition minutesAgo :: "int \<Rightarrow> time" where "minutesAgo n = fixtureNow - n * Minute"

definition fixtureHealthy :: State where "fixtureHealthy = mkState ''Healthy'' ''mint'' Tick"
definition fixtureSynced :: State where "fixtureSynced = mkState ''Synced'' ''mint'' Tick"
definition fixtureDegraded :: State where "fixtureDegraded = mkState ''Degraded'' ''coral'' Bang"
definition fixtureOutOfSync :: State where "fixtureOutOfSync = mkState ''Out of sync'' ''amber'' Tilde"
definition fixtureUnknown :: State where "fixtureUnknown = mkState ''Unknown'' ''slate'' Query"

definition fixture_signal :: AppView where
  "fixture_signal = \<lparr>vw_Name = ''signal'', vw_Project = ''signal'', vw_Repository = ''github.com/acme/signal'', vw_Revision = ''9b84c0d1'',
     vw_Sync = fixtureSynced, vw_Health = fixtureHealthy,
     vw_Observation = ''Observed 18 sec ago'', vw_LastDeployment = ''Deployed 22 min ago'',
     vw_LastEvent = ''Deployment completed with all services healthy'',
     vw_Services =
      [\<lparr>sv_Name = ''signal'', sv_Image = ''ghcr.io/acme/signal:2026.09.15'', sv_State = fixtureHealthy, sv_Description = ''Owner-facing operations workspace'', sv_CPU = ''4.2%'', sv_Memory = ''138 MB''\<rparr>,
       \<lparr>sv_Name = ''signal-worker'', sv_Image = ''ghcr.io/acme/signal:2026.09.15'', sv_State = fixtureHealthy, sv_Description = ''Background delivery worker'', sv_CPU = ''1.1%'', sv_Memory = ''82 MB''\<rparr>],
     vw_IntentionalEmpty = False,
     vw_DesiredSummary = ''2 Compose services declared'', vw_LiveSummary = ''2 running services match the displayed revision'',
     vw_Events =
      [\<lparr>ev_Application = [], ev_Kind = ''Sync succeeded'', ev_Message = ''Reconciled revision 9b84c0d1'', ev_Occurred = ''22 min ago'', ev_OccurredAt = minutesAgo 22, ev_Tone = ''mint'', ev_Revision = ''9b84c0d1'', ev_Operation = ''Sync''\<rparr>,
       \<lparr>ev_Application = [], ev_Kind = ''Health confirmed'', ev_Message = ''signal-worker reported healthy'', ev_Occurred = ''21 min ago'', ev_OccurredAt = minutesAgo 21, ev_Tone = ''mint'', ev_Revision = ''9b84c0d1'', ev_Operation = ''Observe''\<rparr>],
     vw_LogPreview = [''14:11:48Z signal-worker completed delivery batch'',
       ''14:11:49Z health check returned 200'',
       ''14:12:00Z fixture log preview only '' @ [CHR 0xE2, CHR 0x80, CHR 0x94] @ '' no controller log was requested'']\<rparr>"

definition fixture_edge_api :: AppView where
  "fixture_edge_api = \<lparr>vw_Name = ''edge-api'', vw_Project = ''edge-api'', vw_Repository = ''github.com/acme/edge-api'', vw_Revision = ''e713ab42'',
     vw_Sync = fixtureOutOfSync, vw_Health = fixtureDegraded,
     vw_Observation = ''Observed 43 sec ago'', vw_LastDeployment = ''Deployment failed 8 min ago'',
     vw_LastEvent = ''api did not become healthy before the deployment timeout'',
     vw_Services =
      [\<lparr>sv_Name = ''api'', sv_Image = ''ghcr.io/acme/edge-api:2026.09.15'', sv_State = fixtureDegraded, sv_Description = ''Public request service'', sv_CPU = ''0.0%'', sv_Memory = [CHR 0xE2, CHR 0x80, CHR 0x94]\<rparr>,
       \<lparr>sv_Name = ''migrations'', sv_Image = ''ghcr.io/acme/edge-api:2026.09.15'', sv_State = fixtureHealthy, sv_Description = ''One-shot schema migration'', sv_CPU = [CHR 0xE2, CHR 0x80, CHR 0x94], sv_Memory = ''Completed''\<rparr>,
       \<lparr>sv_Name = ''cache'', sv_Image = ''redis:7.4-alpine'', sv_State = fixtureHealthy, sv_Description = ''Request cache'', sv_CPU = ''0.8%'', sv_Memory = ''64 MB''\<rparr>],
     vw_IntentionalEmpty = False,
     vw_DesiredSummary = ''3 Compose services declared'', vw_LiveSummary = ''1 service needs review before another deployment'',
     vw_Events =
      [\<lparr>ev_Application = [], ev_Kind = ''Sync failed'', ev_Message = ''api exceeded the health timeout'', ev_Occurred = ''8 min ago'', ev_OccurredAt = minutesAgo 8, ev_Tone = ''coral'', ev_Revision = ''e713ab42'', ev_Operation = ''Sync''\<rparr>,
       \<lparr>ev_Application = [], ev_Kind = ''Diff available'', ev_Message = ''Desired revision differs from live state'', ev_Occurred = ''9 min ago'', ev_OccurredAt = minutesAgo 9, ev_Tone = ''amber'', ev_Revision = ''e713ab42'', ev_Operation = ''Inspect''\<rparr>],
     vw_LogPreview = [''14:23:11Z api waiting for health endpoint'',
       ''14:23:41Z health check deadline exceeded'',
       ''14:24:02Z fixture log preview only '' @ [CHR 0xE2, CHR 0x80, CHR 0x94] @ '' no controller log was requested'']\<rparr>"

definition fixture_registry :: AppView where
  "fixture_registry = \<lparr>vw_Name = ''registry'', vw_Project = ''registry'', vw_Repository = ''github.com/acme/registry'', vw_Revision = ''9b84c0d1'',
     vw_Sync = fixtureSynced, vw_Health = fixtureHealthy,
     vw_Observation = ''Observed 31 sec ago'', vw_LastDeployment = ''Deployed yesterday'',
     vw_LastEvent = ''Registry catalog reconciled without drift'',
     vw_Services =
      [\<lparr>sv_Name = ''registry'', sv_Image = ''registry:3.0'', sv_State = fixtureHealthy, sv_Description = ''Private OCI image registry'', sv_CPU = ''0.4%'', sv_Memory = ''96 MB''\<rparr>],
     vw_IntentionalEmpty = False,
     vw_DesiredSummary = ''1 Compose service declared'', vw_LiveSummary = ''Registry service matches the displayed revision'',
     vw_Events =
      [\<lparr>ev_Application = [], ev_Kind = ''Sync succeeded'', ev_Message = ''Registry is current'', ev_Occurred = ''1 day ago'', ev_OccurredAt = minutesAgo 1440, ev_Tone = ''mint'', ev_Revision = ''9b84c0d1'', ev_Operation = ''Sync''\<rparr>],
     vw_LogPreview = [''14:08:27Z registry catalog reconciled'',
       ''14:08:28Z fixture log preview only '' @ [CHR 0xE2, CHR 0x80, CHR 0x94] @ '' no controller log was requested'']\<rparr>"

definition fixture_infra :: AppView where
  "fixture_infra = \<lparr>vw_Name = ''infra'', vw_Project = ''infra'', vw_Repository = ''github.com/acme/infra'', vw_Revision = ''9b84c0d1'',
     vw_Sync = fixtureSynced, vw_Health = fixtureUnknown,
     vw_Observation = ''No service observation'', vw_LastDeployment = ''No deployment required'',
     vw_LastEvent = ''Manifest declares no managed Compose services'',
     vw_Services =
      [],
     vw_IntentionalEmpty = True,
     vw_DesiredSummary = ''No Compose services declared'', vw_LiveSummary = ''Context-only manifest; no health inference is made'',
     vw_Events =
      [\<lparr>ev_Application = [], ev_Kind = ''Manifest context'', ev_Message = ''No managed services declared'', ev_Occurred = ''2 days ago'', ev_OccurredAt = minutesAgo 2880, ev_Tone = ''slate'', ev_Revision = ''9b84c0d1'', ev_Operation = ''Observe''\<rparr>],
     vw_LogPreview = []\<rparr>"

record FixtureSource =
  fx_fleet :: FleetView

text \<open>The CPU figure is the double nearest to 14.2.\<close>

definition NewFixtureSource :: FixtureSource where
  "NewFixtureSource = \<lparr>fx_fleet = deriveCounts (zeroFleet\<lparr>
     fl_Controller := ''My Apps'', fl_Environment := ''Development controller'',
     fl_FetchedAt := ''Fixture snapshot '' @ middot @ '' 14:32 UTC'',
     fl_ObservationNote := ''Displayed state is fixture data. It is not a live controller observation.'',
     fl_Connection := mkState ''Fixture connected'' ''mint'' Tick, fl_ControllerState := mkState ''State database ready'' ''mint'' Tick,
     fl_ControllerResponseAt := ''Fixture controller response '' @ middot @ '' 14:32 UTC'',
     fl_Capacity := \<lparr>cw_Available = True, cw_State = mkState ''Current fixture container sample'' ''mint'' Tick,
       cw_CPUPercent = Finite (3996944669291315 / 281474976710656), cw_CPUCores = 10, cw_MemoryUsageMiB = Finite 812,
       cw_MemoryTotalMiB = Finite 7936, cw_RunningContainers = 13, cw_EligibleContainers = 13, cw_ObservedContainers = 13,
       cw_Completeness = ''complete'', cw_SampleCompletedAt = ''Fixture sample '' @ middot @ '' 14:32 UTC''\<rparr>,
     fl_Applications := [fixture_signal, fixture_edge_api, fixture_registry, fixture_infra]\<rparr>)\<rparr>"

section \<open>Variants\<close>

definition healthyApplication :: "AppView \<Rightarrow> AppView" where
  "healthyApplication a =
     (if vw_IntentionalEmpty a then a
      else a\<lparr>vw_Sync := mkState ''Synced'' ''mint'' Tick, vw_Health := mkState ''Healthy'' ''mint'' Tick,
             vw_LastEvent := ''Displayed services match the desired revision'', vw_LiveSummary := ''Displayed services match the desired revision'',
             vw_Services := map (\<lambda>s. s\<lparr>sv_State := mkState ''Healthy'' ''mint'' Tick\<rparr>) (vw_Services a)\<rparr>)"

definition Scenario :: "FixtureSource \<Rightarrow> string \<Rightarrow> FixtureSource" where
  "Scenario s name =
     (let f = fx_fleet s
      in if name = [] \<or> name = ''attention'' then s
         else if name = ''healthy'' then
           \<lparr>fx_fleet = deriveCounts (f\<lparr>fl_Applications := map healthyApplication (fl_Applications f),
              fl_ObservationNote := ''Fixture simulates a fully healthy displayed fleet. It is not a live controller observation.''\<rparr>)\<rparr>
         else if name = ''stale'' then
           \<lparr>fx_fleet = deriveCounts (f\<lparr>fl_Connection := mkState ''Last data retained'' ''amber'' Tilde,
              fl_FetchedAt := ''Last successful fixture snapshot '' @ middot @ '' 14:12 UTC'',
              fl_ObservationNote := ''Fixture simulates controller connection degradation. Displayed data may be stale.''\<rparr>)\<rparr>
         else if name = ''error'' then
           \<lparr>fx_fleet = deriveCounts (f\<lparr>fl_Connection := mkState ''Controller unavailable'' ''coral'' Bang,
              fl_FetchedAt := ''No current fixture response'',
              fl_ObservationNote := ''Fixture simulates an unavailable controller. No displayed status is current.'',
              fl_ErrorMessage := ''The fixture controller did not respond. Review retained evidence only after reconnection.''\<rparr>)\<rparr>
         else s)"

section \<open>The fixture as a source\<close>

definition fixture_ViewContext :: "FixtureSource \<Rightarrow> ViewContext" where
  "fixture_ViewContext s = \<lparr>vc_Controller = fl_Controller (fx_fleet s), vc_Environment = fl_Environment (fx_fleet s),
     vc_Freshness = fl_FetchedAt (fx_fleet s), vc_Connection = fl_Connection (fx_fleet s), vc_Fixture = True\<rparr>"

definition fixture_Applications :: "FixtureSource \<Rightarrow> string \<Rightarrow> string \<Rightarrow> FleetView \<times> AppView list" where
  "fixture_Applications s q state = (fx_fleet s, filterApplications (fl_Applications (fx_fleet s)) q state)"

definition fixture_Application :: "FixtureSource \<Rightarrow> string \<Rightarrow> AppView option" where
  "fixture_Application s name = find (\<lambda>a. vw_Name a = name) (fl_Applications (fx_fleet s))"

text \<open>The events of all applications, stably sorted with the latest first.\<close>

definition fixture_Activity :: "FixtureSource \<Rightarrow> Event list" where
  "fixture_Activity s = sort_key (\<lambda>e. - ev_OccurredAt e)
     (concat (map (\<lambda>a. map (\<lambda>e. e\<lparr>ev_Application := vw_Name a, ev_Message := vw_Name a @ '' '' @ middot @ '' '' @ ev_Message e\<rparr>) (vw_Events a))
       (fl_Applications (fx_fleet s))))"

section \<open>The interface of the pages\<close>

datatype Source = FixtureOf FixtureSource | LiveOf LiveSource

definition src_ViewContext :: "Source \<Rightarrow> ViewContext" where
  "src_ViewContext src = (case src of FixtureOf f \<Rightarrow> fixture_ViewContext f | LiveOf s \<Rightarrow> live_ViewContext s)"

definition onLive :: "(LiveSource \<Rightarrow> ctrace \<Rightarrow> 'a \<times> LiveSource \<times> ctrace) \<Rightarrow> (FixtureSource \<Rightarrow> 'a) \<Rightarrow> Source \<Rightarrow> ctrace \<Rightarrow> 'a \<times> Source \<times> ctrace" where
  "onLive l f src t =
     (case src of
        FixtureOf x \<Rightarrow> (f x, src, t)
      | LiveOf s \<Rightarrow> (case l s t of (res, s, t) \<Rightarrow> (res, LiveOf s, t)))"

definition src_Fleet :: "Lib \<Rightarrow> Source \<Rightarrow> ctrace \<Rightarrow> FleetView result \<times> Source \<times> ctrace" where
  "src_Fleet lb = onLive (LoadFleet lb) (\<lambda>x. Inr (fx_fleet x))"

definition src_Applications :: "Lib \<Rightarrow> string \<Rightarrow> string \<Rightarrow> Source \<Rightarrow> ctrace \<Rightarrow> (FleetView \<times> AppView list) result \<times> Source \<times> ctrace" where
  "src_Applications lb q state = onLive (live_Applications lb q state) (\<lambda>x. Inr (fixture_Applications x q state))"

definition src_Application :: "Lib \<Rightarrow> string \<Rightarrow> Source \<Rightarrow> ctrace \<Rightarrow> (AppView option) result \<times> Source \<times> ctrace" where
  "src_Application lb name = onLive (live_Application lb name) (\<lambda>x. Inr (fixture_Application x name))"

definition src_Activity :: "Lib \<Rightarrow> Source \<Rightarrow> ctrace \<Rightarrow> (Event list) result \<times> Source \<times> ctrace" where
  "src_Activity lb = onLive (live_Activity lb) (\<lambda>x. Inr (fixture_Activity x))"

lemmas src_reads = src_Fleet_def src_Applications_def src_Application_def src_Activity_def

section \<open>Counts of a fleet\<close>

text \<open>A page lists as needing attention exactly the applications that do, and its arc never exceeds the full circle of 302.\<close>

lemma deriveCounts_consistent:
  "fl_Attention (deriveCounts f) = filter needsAttention (fl_Applications f)"
  "fl_AttentionCount (deriveCounts f) = length (fl_Attention (deriveCounts f))"
  "fl_HealthyCount (deriveCounts f) \<le> length (fl_Applications f)"
  "fl_HealthArc f \<le> 302 \<Longrightarrow> fl_HealthArc (deriveCounts f) \<le> 302"
proof -
  show "fl_HealthyCount (deriveCounts f) \<le> length (fl_Applications f)" by (simp add: deriveCounts_def Let_def)
  let ?h = "length (filter (\<lambda>a. st_Tone (vw_Health a) = ''mint'') (fl_Applications f))"
  have "302 * ?h div length (fl_Applications f) \<le> 302 * length (fl_Applications f) div length (fl_Applications f)"
    by (intro div_le_mono mult_le_mono2) (rule length_filter_le)
  then show "fl_HealthArc f \<le> 302 \<Longrightarrow> fl_HealthArc (deriveCounts f) \<le> 302" by (simp add: deriveCounts_def Let_def split: if_splits)
qed (simp_all add: deriveCounts_def Let_def)

lemma healthy_scenario_calm: "filter needsAttention (map healthyApplication as) = filter needsAttention (filter vw_IntentionalEmpty as)"
  by (induction as) (auto simp: healthyApplication_def needsAttention_def)

end
