(* ===== verification/WebConsole.thy ===== *)
theory WebConsole
  imports Fixture DaemonConfig
begin

text \<open>
  The HTTP handlers of the web console (\<^verbatim>\<open>src/web/internal/httpui/server.go\<close>) and its start
  (\<^verbatim>\<open>src/web/cmd/dockercd-web/main.go\<close>).

  A handler gets the response writer, the state of the authenticator and the trace of controller requests, and gives
  them back. Rendering a template, escaping, URL parsing, the form parser and the file server are parameters or part of
  the request. A request runs alone on the authenticator's state; every read of the clock has its own value.
\<close>

section \<open>Pages\<close>

record navigationItem =
  nv_Label :: string
  nv_Path :: string
  nv_Active :: bool

record pageData =
  pg_Title :: string
  pg_Page :: string
  pg_Section :: string
  pg_Navigation :: "navigationItem list"
  pg_View :: ViewContext
  pg_Fleet :: FleetView
  pg_Applications :: "AppView list"
  pg_Application :: "AppView option"
  pg_Activity :: "Event list"
  pg_RecentActivity :: "Event list"
  pg_ActivityAvailable :: bool
  pg_ActivityState :: State
  pg_Query :: string
  pg_StateFilter :: string
  pg_Notice :: string
  pg_Action :: string
  pg_RefreshPath :: string
  pg_Subject :: string
  pg_CSRF :: string
  pg_LoginError :: string

definition zeroPage :: pageData where
  "zeroPage = \<lparr>pg_Title = [], pg_Page = [], pg_Section = [], pg_Navigation = [],
     pg_View = \<lparr>vc_Controller = [], vc_Environment = [], vc_Freshness = [], vc_Connection = mkState [] [] [], vc_Fixture = False\<rparr>,
     pg_Fleet = zeroFleet, pg_Applications = [], pg_Application = None, pg_Activity = [], pg_RecentActivity = [],
     pg_ActivityAvailable = False, pg_ActivityState = mkState [] [] [], pg_Query = [], pg_StateFilter = [], pg_Notice = [], pg_Action = [],
     pg_RefreshPath = [], pg_Subject = [], pg_CSRF = [], pg_LoginError = []\<rparr>"

definition navigation :: "string \<Rightarrow> navigationItem list" where
  "navigation active =
     map (\<lambda>(label, path). \<lparr>nv_Label = label, nv_Path = path, nv_Active = EqualFold label active\<rparr>)
       [(''Fleet'', ''/fleet''), (''Applications'', ''/applications''), (''Activity'', ''/activity''), (''Settings'', ''/settings'')]"

section \<open>Requests and responses\<close>

record HTTPRequest =
  hr_Method :: string
  hr_Path :: string
  hr_EscapedPath :: string
  hr_RawQuery :: string
  hr_Query :: "string gomap"
  hr_Cookies :: Request
  hr_ContentLength :: int
  hr_ContentType :: string
  hr_PostForm :: "((string list) gomap) result"

text \<open>What is written: a template with its data, a text, or the note of a redirect.\<close>

datatype chunk = Rendered string pageData | Text string | RedirectNote string

record ResponseWriter =
  w_Header :: "string gomap"
  w_Cookies :: "Cookie list"
  w_Status :: "nat option"
  w_Body :: "chunk list"

text \<open>Headers can be set until the status is written; the first status wins, and a body without one means 200.\<close>

definition setHeader :: "string \<Rightarrow> string \<Rightarrow> ResponseWriter \<Rightarrow> ResponseWriter" where
  "setHeader k v w = (if w_Status w = None then w\<lparr>w_Header := AList.update k v (w_Header w)\<rparr> else w)"

definition addCookies :: "Cookie list \<Rightarrow> ResponseWriter \<Rightarrow> ResponseWriter" where
  "addCookies cs w = (if w_Status w = None then w\<lparr>w_Cookies := w_Cookies w @ cs\<rparr> else w)"

definition writeHeader :: "nat \<Rightarrow> ResponseWriter \<Rightarrow> ResponseWriter" where
  "writeHeader n w = (if w_Status w = None then w\<lparr>w_Status := Some n\<rparr> else w)"

definition writeBody :: "chunk \<Rightarrow> ResponseWriter \<Rightarrow> ResponseWriter" where
  "writeBody x w = (let w = writeHeader 200 w in w\<lparr>w_Body := w_Body w @ [x]\<rparr>)"

text \<open>\<^verbatim>\<open>http.Error\<close> and \<^verbatim>\<open>http.Redirect\<close>; only a GET without a content type gets the note.\<close>

definition httpError :: "string \<Rightarrow> nat \<Rightarrow> ResponseWriter \<Rightarrow> ResponseWriter" where
  "httpError msg code w =
     writeBody (Text msg) (writeHeader code (setHeader ''X-Content-Type-Options'' ''nosniff'' (setHeader ''Content-Type'' ''text/plain; charset=utf-8'' w)))"

definition httpRedirect :: "HTTPRequest \<Rightarrow> string \<Rightarrow> nat \<Rightarrow> ResponseWriter \<Rightarrow> ResponseWriter" where
  "httpRedirect r url code w =
     (let hadCT = map_of (w_Header w) ''Content-Type'' \<noteq> None;
          w = setHeader ''Location'' url w;
          w = (if \<not> hadCT \<and> (hr_Method r = ''GET'' \<or> hr_Method r = ''HEAD'') then setHeader ''Content-Type'' ''text/html; charset=utf-8'' w else w);
          w = writeHeader code w
      in if \<not> hadCT \<and> hr_Method r = ''GET'' then writeBody (RedirectNote url) w else w)"

definition securityHeaders :: "string gomap" where
  "securityHeaders =
     [(''Cache-Control'', ''no-store''), (''X-Content-Type-Options'', ''nosniff''), (''X-Frame-Options'', ''DENY''),
      (''Referrer-Policy'', ''no-referrer''), (''Permissions-Policy'', ''camera=(), geolocation=(), microphone=()''),
      (''Content-Security-Policy'', ''default-src '' @ [CHR 0x27] @ ''self'' @ [CHR 0x27] @ ''; base-uri '' @ [CHR 0x27] @ ''none'' @ [CHR 0x27]
         @ ''; frame-ancestors '' @ [CHR 0x27] @ ''none'' @ [CHR 0x27] @ ''; form-action '' @ [CHR 0x27] @ ''self'' @ [CHR 0x27]
         @ ''; script-src '' @ [CHR 0x27] @ ''none'' @ [CHR 0x27] @ ''; object-src '' @ [CHR 0x27] @ ''none'' @ [CHR 0x27]
         @ ''; style-src '' @ [CHR 0x27] @ ''self'' @ [CHR 0x27] @ ''; img-src '' @ [CHR 0x27] @ ''self'' @ [CHR 0x27] @ '' data:'')]"

definition setSecurityHeaders :: "ResponseWriter \<Rightarrow> ResponseWriter" where
  "setSecurityHeaders w = fold (\<lambda>(k, v). setHeader k v) securityHeaders w"

section \<open>The server\<close>

datatype SourceProvider = StaticProvider Source | SessionProvider SessionSourceProvider

record Server =
  sr_provider :: SourceProvider
  sr_auth :: "Authenticator option"

text \<open>
  The libraries: what a template writes (whether anything, and its error), the escapes and the file server; and what one
  request reads from outside, a clock value per place that reads it.
\<close>

record Web =
  wb_lib :: Lib
  wb_crypto :: Crypto
  wb_ParseURL :: "string \<Rightarrow> Endpoint result"
  wb_Execute :: "string \<Rightarrow> pageData \<Rightarrow> bool \<times> err option"
  wb_PathEscape :: "string \<Rightarrow> string"
  wb_QueryEscape :: "string \<Rightarrow> string"
  wb_static :: "HTTPRequest \<Rightarrow> ResponseWriter \<Rightarrow> ResponseWriter"

record Inputs =
  in_resolve :: time
  in_resolveAgain :: time
  in_current :: time
  in_begin :: time
  in_random1 :: "string result"
  in_random2 :: "string result"
  in_login :: LoginInputs
  in_logout :: time
  in_clock :: "nat \<Rightarrow> time"

type_synonym outcome = "ResponseWriter \<times> AuthState \<times> ctrace"

definition ExecuteTemplate :: "Web \<Rightarrow> string \<Rightarrow> pageData \<Rightarrow> ResponseWriter \<Rightarrow> err option \<times> ResponseWriter" where
  "ExecuteTemplate web name data w =
     (case wb_Execute web name data of (wrote, e) \<Rightarrow> (e, if wrote then writeBody (Rendered name data) w else w))"

definition refreshPath :: "HTTPRequest \<Rightarrow> string" where
  "refreshPath r =
     (if hr_Method r \<noteq> ''GET'' then ''/fleet''
      else if hr_EscapedPath r = [] \<or> \<not> HasPrefix (hr_EscapedPath r) ''/'' then ''/fleet''
      else if hr_RawQuery r \<noteq> [] then hr_EscapedPath r @ ''?'' @ hr_RawQuery r
      else hr_EscapedPath r)"

definition isFixtureAction :: "string \<Rightarrow> bool" where
  "isFixtureAction section = (section = ''sync'' \<or> section = ''rollback'' \<or> section = ''edit'' \<or> section = ''delete'')"

definition sourceForRequest :: "Web \<Rightarrow> Server \<Rightarrow> time \<Rightarrow> (nat \<Rightarrow> time) \<Rightarrow> HTTPRequest \<Rightarrow> AuthState \<Rightarrow> Source result \<times> AuthState" where
  "sourceForRequest web srv now clock r st =
     (case sr_provider srv of
        StaticProvider src \<Rightarrow>
          (Inr (case src of FixtureOf x \<Rightarrow> FixtureOf (Scenario x (strAt (hr_Query r) ''scenario'')) | LiveOf s \<Rightarrow> src), st)
      | SessionProvider p \<Rightarrow>
          (case ResolvePresentationSession now (hr_Cookies r) st of
             (resolved, st) \<Rightarrow>
               (case sourceForSession (wb_ParseURL web) p clock resolved of Inl e \<Rightarrow> Inl e | Inr s \<Rightarrow> Inr (LiveOf s), st)))"

definition unavailablePage :: string where
  \<open>unavailablePage = ''<!doctype html><html lang="en"><title>Presentation unavailable</title><main><h1>Presentation unavailable</h1>''
     @ ''<p>Refresh after your session and controller connection are available.</p></main></html>''\<close>

definition unavailable :: "ResponseWriter \<Rightarrow> ResponseWriter" where
  "unavailable w = writeBody (Text unavailablePage)
     (writeHeader 503 (setSecurityHeaders (setHeader ''Content-Type'' ''text/html; charset=utf-8'' w)))"

definition sourceError :: "Server \<Rightarrow> HTTPRequest \<Rightarrow> err \<Rightarrow> ResponseWriter \<Rightarrow> ResponseWriter" where
  "sourceError srv r e w =
     (if sr_auth srv \<noteq> None \<and> errorsIs e ErrUnauthenticatedSession then httpRedirect r ''/login'' 303 w else unavailable w)"

definition addSessionContext :: "Server \<Rightarrow> time \<Rightarrow> HTTPRequest \<Rightarrow> pageData \<Rightarrow> AuthState \<Rightarrow> pageData \<times> AuthState" where
  "addSessionContext srv now r data st =
     (case sr_auth srv of
        None \<Rightarrow> (data, st)
      | Some a \<Rightarrow>
          (case Current now (hr_Cookies r) st of
             (None, st) \<Rightarrow> (data\<lparr>pg_Subject := [], pg_CSRF := []\<rparr>, st)
           | (Some (subject, csrf), st) \<Rightarrow> (data\<lparr>pg_Subject := subject, pg_CSRF := csrf\<rparr>, st)))"

definition render :: "Web \<Rightarrow> Server \<Rightarrow> Inputs \<Rightarrow> HTTPRequest \<Rightarrow> string \<Rightarrow> pageData \<Rightarrow> ResponseWriter \<Rightarrow> AuthState \<Rightarrow> ctrace \<Rightarrow> outcome" where
  "render web srv inp r name data w st t =
     (case addSessionContext srv (in_current inp) r (data\<lparr>pg_Navigation := navigation (pg_Page data)\<rparr>) st of
        (data, st) \<Rightarrow>
          (case ExecuteTemplate web name data (setSecurityHeaders (setHeader ''Content-Type'' ''text/html; charset=utf-8'' w)) of
             (None, w) \<Rightarrow> (w, st, t)
           | (Some e, w) \<Rightarrow> (httpError ''template render failed'' 500 w, st, t)))"

text \<open>How every page handler begins.\<close>

definition withSource :: "Web \<Rightarrow> Server \<Rightarrow> time \<Rightarrow> (nat \<Rightarrow> time) \<Rightarrow> HTTPRequest \<Rightarrow> ResponseWriter \<Rightarrow> AuthState \<Rightarrow> ctrace
    \<Rightarrow> (Source \<Rightarrow> AuthState \<Rightarrow> outcome) \<Rightarrow> outcome" where
  "withSource web srv now clock r w st t k =
     (case sourceForRequest web srv now clock r st of
        (Inl e, st) \<Rightarrow> (sourceError srv r e w, st, t)
      | (Inr src, st) \<Rightarrow> k src st)"

definition notFound :: "Web \<Rightarrow> Server \<Rightarrow> Inputs \<Rightarrow> HTTPRequest \<Rightarrow> ResponseWriter \<Rightarrow> AuthState \<Rightarrow> ctrace \<Rightarrow> outcome" where
  "notFound web srv inp r w st t =
     withSource web srv (in_resolveAgain inp) (in_clock inp) r w st t (\<lambda>src st.
       (let data = zeroPage\<lparr>pg_Title := ''Not found '' @ middot @ '' dockercd'', pg_View := src_ViewContext src, pg_RefreshPath := ''/fleet''\<rparr>
        in case addSessionContext srv (in_current inp) r (data\<lparr>pg_Navigation := navigation (pg_Page data)\<rparr>) st of
             (data, st) \<Rightarrow>
               (snd (ExecuteTemplate web ''not-found'' data
                  (writeHeader 404 (setSecurityHeaders (setHeader ''Content-Type'' ''text/html; charset=utf-8'' w)))), st, t)))"

section \<open>Page handlers\<close>

definition activityPanel :: "(Event list) result \<Rightarrow> State" where
  "activityPanel activity =
     (case activity of
        Inl e \<Rightarrow> if IsFeatureUnavailable e then mkState ''Activity unavailable to this session'' ''slate'' Query
                 else mkState ''Activity request failed'' ''coral'' Bang
      | Inr events \<Rightarrow> mkState ''Activity unavailable to this session'' ''slate'' Query)"

definition fleetPage :: "Web \<Rightarrow> Server \<Rightarrow> Inputs \<Rightarrow> HTTPRequest \<Rightarrow> ResponseWriter \<Rightarrow> AuthState \<Rightarrow> ctrace \<Rightarrow> outcome" where
  "fleetPage web srv inp r w st t =
     withSource web srv (in_resolve inp) (in_clock inp) r w st t (\<lambda>src st.
       (case src_Fleet (wb_lib web) src t of
          (Inl e, src, t) \<Rightarrow> (unavailable w, st, t)
        | (Inr fleet, src, t) \<Rightarrow>
            (let view = src_ViewContext src
             in case src_Activity (wb_lib web) src t of
                  (activity, src, t) \<Rightarrow>
                    (let events = (case activity of Inl e \<Rightarrow> [] | Inr es \<Rightarrow> es)
                     in render web srv inp r ''fleet''
                          (zeroPage\<lparr>pg_Title := ''Fleet '' @ middot @ '' dockercd'', pg_Page := ''fleet'', pg_View := view, pg_Fleet := fleet,
                             pg_Applications := fl_Applications fleet, pg_Activity := events, pg_RecentActivity := take 3 events,
                             pg_ActivityAvailable := \<not> isl activity, pg_ActivityState := activityPanel activity,
                             pg_Notice := strAt (hr_Query r) ''notice'', pg_RefreshPath := refreshPath r\<rparr>) w st t))))"

definition controllerPage :: "Web \<Rightarrow> Server \<Rightarrow> Inputs \<Rightarrow> HTTPRequest \<Rightarrow> ResponseWriter \<Rightarrow> AuthState \<Rightarrow> ctrace \<Rightarrow> outcome" where
  "controllerPage web srv inp r w st t =
     withSource web srv (in_resolve inp) (in_clock inp) r w st t (\<lambda>src st.
       (case src_Fleet (wb_lib web) src t of
          (Inl e, src, t) \<Rightarrow> (unavailable w, st, t)
        | (Inr fleet, src, t) \<Rightarrow>
            render web srv inp r ''controller''
              (zeroPage\<lparr>pg_Title := ''Controller evidence '' @ middot @ '' dockercd'', pg_Page := ''controller'', pg_View := src_ViewContext src,
                 pg_Fleet := fleet, pg_RefreshPath := refreshPath r\<rparr>) w st t))"

definition applicationsPage :: "Web \<Rightarrow> Server \<Rightarrow> Inputs \<Rightarrow> HTTPRequest \<Rightarrow> ResponseWriter \<Rightarrow> AuthState \<Rightarrow> ctrace \<Rightarrow> outcome" where
  "applicationsPage web srv inp r w st t =
     (let q = strAt (hr_Query r) ''q''; state = strAt (hr_Query r) ''state''
      in withSource web srv (in_resolve inp) (in_clock inp) r w st t (\<lambda>src st.
           (case src_Applications (wb_lib web) q state src t of
              (Inl e, src, t) \<Rightarrow> (unavailable w, st, t)
            | (Inr (fleet, applications), src, t) \<Rightarrow>
                render web srv inp r ''applications''
                  (zeroPage\<lparr>pg_Title := ''Applications '' @ middot @ '' dockercd'', pg_Page := ''applications'', pg_View := src_ViewContext src,
                     pg_Fleet := fleet, pg_Applications := applications, pg_Query := q, pg_StateFilter := state, pg_RefreshPath := refreshPath r\<rparr>) w st t)))"

definition activityPage :: "Web \<Rightarrow> Server \<Rightarrow> Inputs \<Rightarrow> HTTPRequest \<Rightarrow> ResponseWriter \<Rightarrow> AuthState \<Rightarrow> ctrace \<Rightarrow> outcome" where
  "activityPage web srv inp r w st t =
     withSource web srv (in_resolve inp) (in_clock inp) r w st t (\<lambda>src st.
       (case src_Activity (wb_lib web) src t of
          (Inl e, src, t) \<Rightarrow> (unavailable w, st, t)
        | (Inr activity, src, t) \<Rightarrow>
            render web srv inp r ''activity''
              (zeroPage\<lparr>pg_Title := ''Activity '' @ middot @ '' dockercd'', pg_Page := ''activity'', pg_View := src_ViewContext src,
                 pg_Activity := activity, pg_RefreshPath := refreshPath r\<rparr>) w st t))"

definition settingsPage :: "Web \<Rightarrow> Server \<Rightarrow> Inputs \<Rightarrow> HTTPRequest \<Rightarrow> ResponseWriter \<Rightarrow> AuthState \<Rightarrow> ctrace \<Rightarrow> outcome" where
  "settingsPage web srv inp r w st t =
     withSource web srv (in_resolve inp) (in_clock inp) r w st t (\<lambda>src st.
       render web srv inp r ''settings''
         (zeroPage\<lparr>pg_Title := ''Settings '' @ middot @ '' dockercd'', pg_Page := ''settings'', pg_View := src_ViewContext src,
            pg_RefreshPath := refreshPath r\<rparr>) w st t)"

definition confirmation :: "Web \<Rightarrow> Server \<Rightarrow> Inputs \<Rightarrow> HTTPRequest \<Rightarrow> AppView \<Rightarrow> ViewContext \<Rightarrow> string \<Rightarrow> bool
    \<Rightarrow> ResponseWriter \<Rightarrow> AuthState \<Rightarrow> ctrace \<Rightarrow> outcome" where
  "confirmation web srv inp r application view action confirmed w st t =
     (if confirmed then
        (httpRedirect r (''/applications/'' @ wb_PathEscape web (vw_Name application) @ ''/timeline?notice=''
           @ wb_QueryEscape web (''Fixture confirmation recorded for '' @ action @ ''. No controller operation was sent.'')) 303 w, st, t)
      else render web srv inp r ''confirmation''
        (zeroPage\<lparr>pg_Title := ''Confirm '' @ action @ '' '' @ middot @ '' '' @ vw_Name application, pg_Page := ''applications'', pg_View := view,
           pg_Application := Some application, pg_Action := action, pg_Section := ''application-'' @ action,
           pg_RefreshPath := ''/applications/'' @ wb_PathEscape web (vw_Name application)\<rparr>) w st t)"

text \<open>The part of \<^verbatim>\<open>applicationRoute\<close> after the application has been found.\<close>

definition applicationSection :: "Web \<Rightarrow> Server \<Rightarrow> Inputs \<Rightarrow> HTTPRequest \<Rightarrow> string list \<Rightarrow> AppView \<Rightarrow> ViewContext
    \<Rightarrow> ResponseWriter \<Rightarrow> AuthState \<Rightarrow> ctrace \<Rightarrow> outcome" where
  "applicationSection web srv inp r parts application view w st t =
     (let n = length parts; section = (if n > 1 then parts ! 1 else ''overview'')
      in if hr_Method r = ''POST'' \<and> isFixtureAction section \<and> vc_Fixture view \<and> (n = 2 \<or> (n = 3 \<and> parts ! 2 = ''confirm''))
         then confirmation web srv inp r application view section (n = 3) w st t
         else if hr_Method r \<noteq> ''GET'' then (httpError ''method not allowed'' 405 (setHeader ''Allow'' ''GET, POST'' w), st, t)
         else if section = ''manage'' \<and> \<not> vc_Fixture view then notFound web srv inp r w st t
         else if n > 2 then notFound web srv inp r w st t
         else
           let data = zeroPage\<lparr>pg_Title := vw_Name application @ '' '' @ middot @ '' dockercd'', pg_Page := ''applications'', pg_View := view,
                 pg_Application := Some application, pg_Notice := strAt (hr_Query r) ''notice'', pg_Section := ''application-'' @ section,
                 pg_RefreshPath := refreshPath r\<rparr>
           in if section = ''overview'' then render web srv inp r ''application-overview'' data w st t
              else if section = ''deploy'' then render web srv inp r (if vc_Fixture view then ''application-deploy'' else ''application-limited'') data w st t
              else if section = ''timeline'' then render web srv inp r (if vc_Fixture view then ''application-timeline'' else ''application-limited'') data w st t
              else if section = ''inspect'' then render web srv inp r (if vc_Fixture view then ''application-inspect'' else ''application-limited'') data w st t
              else if section = ''manage'' then render web srv inp r ''application-manage'' data w st t
              else notFound web srv inp r w st t)"

definition applicationRoute :: "Web \<Rightarrow> Server \<Rightarrow> Inputs \<Rightarrow> HTTPRequest \<Rightarrow> ResponseWriter \<Rightarrow> AuthState \<Rightarrow> ctrace \<Rightarrow> outcome" where
  "applicationRoute web srv inp r w st t =
     (let parts = Split (TrimPrefix (Clean (hr_Path r)) ''/applications/'') (CHR ''/'')
      in if parts = [] \<or> hd parts = ''.'' \<or> hd parts = [] then notFound web srv inp r w st t
         else withSource web srv (in_resolve inp) (in_clock inp) r w st t (\<lambda>src st.
           (case src_Application (wb_lib web) (hd parts) src t of
              (Inl e, src, t) \<Rightarrow> (unavailable w, st, t)
            | (Inr None, src, t) \<Rightarrow> notFound web srv inp r w st t
            | (Inr (Some application), src, t) \<Rightarrow>
                applicationSection web srv inp r parts application (src_ViewContext src) w st t)))"

section \<open>Signing in and out\<close>

definition loginPage :: "Web \<Rightarrow> Server \<Rightarrow> Inputs \<Rightarrow> HTTPRequest \<Rightarrow> string \<Rightarrow> nat \<Rightarrow> ResponseWriter \<Rightarrow> AuthState \<Rightarrow> ctrace \<Rightarrow> outcome" where
  "loginPage web srv inp r message status w st t =
     (case sr_auth srv of
        None \<Rightarrow> notFound web srv inp r w st t
      | Some a \<Rightarrow>
          (case Current (in_current inp) (hr_Cookies r) st of
             (Some session, st) \<Rightarrow> (httpRedirect r ''/fleet'' 303 w, st, t)
           | (None, st) \<Rightarrow>
               (case BeginLogin (wb_crypto web) a (in_begin inp) (in_random1 inp) (in_random2 inp) of
                  Inl e \<Rightarrow> (unavailable w, st, t)
                | Inr (csrf, cookie) \<Rightarrow>
                    (let w = setSecurityHeaders (setHeader ''Content-Type'' ''text/html; charset=utf-8'' (addCookies [cookie] w));
                         w = (if status \<noteq> 200 then writeHeader status w else w)
                     in (snd (ExecuteTemplate web ''login''
                           (zeroPage\<lparr>pg_Title := ''Sign in '' @ middot @ '' dockercd'', pg_CSRF := csrf, pg_LoginError := message\<rparr>) w), st, t)))))"

definition boundedForm :: "HTTPRequest \<Rightarrow> ((string list) gomap) option" where
  "boundedForm r =
     (if hr_ContentLength r > 4096 then None
      else if ToLower (TrimSpace (hd (Split (hr_ContentType r) (CHR '';'')))) \<noteq> ''application/x-www-form-urlencoded'' then None
      else case hr_PostForm r of
        Inl e \<Rightarrow> None
      | Inr form \<Rightarrow> if length form > 3 then None else Some form)"

definition singleFormValue :: "(string list) gomap \<Rightarrow> string \<Rightarrow> string option" where
  "singleFormValue form name = (case map_of form name of Some [v] \<Rightarrow> Some v | _ \<Rightarrow> None)"

definition loginForm :: "(string list) gomap \<Rightarrow> (string \<times> string \<times> string) option" where
  "loginForm form =
     (case (singleFormValue form ''subject'', singleFormValue form ''password'', singleFormValue form ''csrf'') of
        (Some subject, Some password, Some csrf) \<Rightarrow> if length form \<noteq> 3 then None else Some (subject, password, csrf)
      | _ \<Rightarrow> None)"

definition login :: "Web \<Rightarrow> Server \<Rightarrow> Inputs \<Rightarrow> HTTPRequest \<Rightarrow> ResponseWriter \<Rightarrow> AuthState \<Rightarrow> ctrace \<Rightarrow> outcome" where
  "login web srv inp r w st t =
     (case sr_auth srv of
        None \<Rightarrow> notFound web srv inp r w st t
      | Some a \<Rightarrow>
          (case Option.bind (boundedForm r) loginForm of
             None \<Rightarrow> loginPage web srv inp r ''Sign-in failed. Start again.'' 400 w st t
           | Some (subject, password, csrf) \<Rightarrow>
               (case Login (wb_crypto web) a (in_login inp) (hr_Cookies r) subject password csrf st of
                  (Inl e, st) \<Rightarrow> loginPage web srv inp r ''Sign-in failed. Check your details and try again.'' 401 w st t
                | (Inr cookies, st) \<Rightarrow> (httpRedirect r ''/fleet'' 303 (addCookies cookies w), st, t))))"

definition logoutForm :: "HTTPRequest \<Rightarrow> string option" where
  "logoutForm r = (case boundedForm r of None \<Rightarrow> None | Some form \<Rightarrow> if length form \<noteq> 1 then None else singleFormValue form ''csrf'')"

definition invalidSignOut :: "ResponseWriter \<Rightarrow> ResponseWriter" where
  "invalidSignOut w = httpError ''invalid sign-out request'' 403 (setSecurityHeaders (setHeader ''Content-Type'' ''text/plain; charset=utf-8'' w))"

definition logout :: "Web \<Rightarrow> Server \<Rightarrow> Inputs \<Rightarrow> HTTPRequest \<Rightarrow> ResponseWriter \<Rightarrow> AuthState \<Rightarrow> ctrace \<Rightarrow> outcome" where
  "logout web srv inp r w st t =
     (case sr_auth srv of
        None \<Rightarrow> notFound web srv inp r w st t
      | Some a \<Rightarrow>
          (case logoutForm r of
             None \<Rightarrow> (invalidSignOut w, st, t)
           | Some csrf \<Rightarrow>
               (case Logout a (in_logout inp) (hr_Cookies r) csrf st of
                  (Inl e, st) \<Rightarrow> (invalidSignOut w, st, t)
                | (Inr cookies, st) \<Rightarrow> (httpRedirect r ''/login'' 303 (addCookies cookies w), st, t))))"

section \<open>Routing\<close>

definition rootPage :: "Server \<Rightarrow> Inputs \<Rightarrow> HTTPRequest \<Rightarrow> ResponseWriter \<Rightarrow> AuthState \<Rightarrow> ctrace \<Rightarrow> outcome" where
  "rootPage srv inp r w st t =
     (case sr_auth srv of
        None \<Rightarrow> (httpRedirect r ''/fleet'' 303 w, st, t)
      | Some a \<Rightarrow>
          (case Current (in_current inp) (hr_Cookies r) st of
             (None, st) \<Rightarrow> (httpRedirect r ''/login'' 303 w, st, t)
           | (Some session, st) \<Rightarrow> (httpRedirect r ''/fleet'' 303 w, st, t)))"

definition ServeHTTP :: "Web \<Rightarrow> Server \<Rightarrow> Inputs \<Rightarrow> HTTPRequest \<Rightarrow> ResponseWriter \<Rightarrow> AuthState \<Rightarrow> ctrace \<Rightarrow> outcome" where
  "ServeHTTP web srv inp r w st t =
     (let w = setSecurityHeaders w; get = (hr_Method r = ''GET''); post = (hr_Method r = ''POST''); path = hr_Path r
      in if path = ''/styles.css'' then (wb_static web r w, st, t)
         else if path = ''/'' then rootPage srv inp r w st t
         else if get \<and> path = ''/login'' then loginPage web srv inp r [] 200 w st t
         else if post \<and> path = ''/login'' then login web srv inp r w st t
         else if post \<and> path = ''/logout'' then logout web srv inp r w st t
         else if get \<and> path = ''/fleet'' then fleetPage web srv inp r w st t
         else if get \<and> path = ''/controller'' then controllerPage web srv inp r w st t
         else if get \<and> path = ''/applications'' then applicationsPage web srv inp r w st t
         else if get \<and> path = ''/activity'' then activityPage web srv inp r w st t
         else if get \<and> path = ''/settings'' then settingsPage web srv inp r w st t
         else if HasPrefix path ''/applications/'' then applicationRoute web srv inp r w st t
         else notFound web srv inp r w st t)"

section \<open>Start\<close>

definition NewWithSourceProvider :: "SourceProvider \<Rightarrow> Server" where
  "NewWithSourceProvider provider = \<lparr>sr_provider = provider, sr_auth = None\<rparr>"

definition NewWithSourceProviderAndAuthenticator :: "SourceProvider \<Rightarrow> Authenticator \<Rightarrow> Server" where
  "NewWithSourceProviderAndAuthenticator provider auth = \<lparr>sr_provider = provider, sr_auth = Some auth\<rparr>"

definition requireHTTPSOrigin :: "(string \<Rightarrow> Endpoint result) \<Rightarrow> string \<Rightarrow> err option" where
  "requireHTTPSOrigin parse v =
     (let refused = Some (Errorf ''DOCKERCD_WEB_PUBLIC_ORIGIN must be an https origin without credentials, path, query, or fragment'' [])
      in case parse (TrimSpace v) of
           Inl e \<Rightarrow> refused
         | Inr origin \<Rightarrow>
             if ep_Scheme origin \<noteq> ''https'' \<or> ep_Host origin = [] \<or> ep_User origin \<or> ep_RawQuery origin \<noteq> [] \<or> ep_Fragment origin \<noteq> [] \<or> ep_Path origin \<noteq> []
             then refused else None)"

text \<open>The users file, the random source and the split of host and port are parameters.\<close>

definition webHandlerFromEnvironment :: "(string \<Rightarrow> Endpoint result) \<Rightarrow> UserFiles \<Rightarrow> string result \<Rightarrow> string result \<Rightarrow> (string \<Rightarrow> string)
    \<Rightarrow> (Server \<times> AuthState \<times> string) result" where
  "webHandlerFromEnvironment parse fs loginKey rateKey getenv =
     (let usersFile = TrimSpace (getenv ''DOCKERCD_WEB_AUTH_USERS_FILE'')
      in if usersFile = [] then Inr (NewWithSourceProvider (StaticProvider (FixtureOf NewFixtureSource)), initialAuthState, ''fixture mockup'')
         else case requireHTTPSOrigin parse (getenv ''DOCKERCD_WEB_PUBLIC_ORIGIN'') of
           Some e \<Rightarrow> Inl e
         | None \<Rightarrow>
             (case New fs \<lparr>cf_UsersFile = usersFile, cf_CookieSecure = True, cf_SessionTTL = 0, cf_LoginFlowTTL = 0\<rparr> loginKey rateKey of
                Inl e \<Rightarrow> Inl (Wrapf ''configuring local Web UI authentication: %w'' [] e)
              | Inr (authenticator, st) \<Rightarrow>
                  (let controllerURL = TrimSpace (getenv ''DOCKERCD_WEB_CONTROLLER_URL'')
                   in if controllerURL = [] then Inl (Errorf ''DOCKERCD_WEB_CONTROLLER_URL is required with local Web UI authentication'' [])
                      else case NewSessionSourceProvider parse True controllerURL 0 (TrimSpace (getenv ''DOCKERCD_WEB_CONTROLLER_LABEL''))
                             (TrimSpace (getenv ''DOCKERCD_WEB_ENVIRONMENT'')) of
                        Inl e \<Rightarrow> Inl (Wrapf ''configuring scoped controller presentation: %w'' [] e)
                      | Inr provider \<Rightarrow>
                          Inr (NewWithSourceProviderAndAuthenticator (SessionProvider provider) authenticator, st, ''local-auth presentation''))))"

definition webListenAddress :: "(string \<Rightarrow> (string \<times> string) result) \<Rightarrow> string \<Rightarrow> string result" where
  "webListenAddress splitHostPort v =
     (let v = TrimSpace v
      in if v = [] then Inr ''127.0.0.1:8092''
         else case splitHostPort v of
           Inl e \<Rightarrow> Inl (Wrapf ''invalid DOCKERCD_WEB_LISTEN_ADDR: %w'' [] e)
         | Inr (host, port) \<Rightarrow>
             (case Atoi port of
                None \<Rightarrow> Inl (Errorf ''DOCKERCD_WEB_LISTEN_ADDR must use a port from 1 to 65535'' [])
              | Some n \<Rightarrow>
                  if n < 1 \<or> n > 65535 then Inl (Errorf ''DOCKERCD_WEB_LISTEN_ADDR must use a port from 1 to 65535'' [])
                  else if host \<in> {''127.0.0.1'', ''::1'', ''0.0.0.0'', ''::''} then Inr v
                  else Inl (Errorf ''DOCKERCD_WEB_LISTEN_ADDR host must be loopback or unspecified'' [])))"

end
