(* ===== verification/WebConsole_Safety.thy ===== *)
theory WebConsole_Safety
  imports WebConsole
begin

text \<open>
  What a browser's request makes the web console do: which requests reach the controller and with whose credential, when a
  page carries data, what a browser without a session gets, and the headers of every response.
\<close>

section \<open>Pages without data\<close>

definition carriesData :: "pageData \<Rightarrow> bool" where
  "carriesData d = (pg_Fleet d \<noteq> zeroFleet \<or> pg_Applications d \<noteq> [] \<or> pg_Application d \<noteq> None \<or> pg_Activity d \<noteq> [] \<or> pg_RecentActivity d \<noteq> [])"

definition dataFree :: "ResponseWriter \<Rightarrow> bool" where
  "dataFree w = (\<forall>name d. Rendered name d \<in> set (w_Body w) \<longrightarrow> \<not> carriesData d)"

lemma zeroPage_free [simp]: "\<not> carriesData zeroPage"
  by (simp add: carriesData_def zeroPage_def)

lemma body_kept [simp]:
  "w_Body (setHeader k v w) = w_Body w" "w_Body (addCookies cs w) = w_Body w" "w_Body (writeHeader n w) = w_Body w"
  by (simp_all add: setHeader_def addCookies_def writeHeader_def)

lemma body_fold_headers [simp]: "w_Body (fold (\<lambda>(k, v). setHeader k v) hs w) = w_Body w"
  by (induction hs arbitrary: w) (auto simp: split_beta)

lemma body_security [simp]: "w_Body (setSecurityHeaders w) = w_Body w"
  by (simp add: setSecurityHeaders_def)

lemma body_writeBody [simp]: "w_Body (writeBody x w) = w_Body w @ [x]"
  by (simp add: writeBody_def Let_def)

lemma dataFree_writes [simp]:
  "dataFree (httpError msg code w) = dataFree w" "dataFree (httpRedirect r url code w) = dataFree w" "dataFree (unavailable w) = dataFree w"
  "dataFree (sourceError srv r e w) = dataFree w" "dataFree (invalidSignOut w) = dataFree w"
  by (auto simp: dataFree_def httpError_def httpRedirect_def unavailable_def sourceError_def invalidSignOut_def Let_def)

lemma dataFree_headers [simp]:
  "dataFree (setSecurityHeaders w) = dataFree w" "dataFree (setHeader k v w) = dataFree w" "dataFree (addCookies cs w) = dataFree w"
  "dataFree (writeHeader n w) = dataFree w"
  by (simp_all add: dataFree_def)

lemma ExecuteTemplate_free: "\<not> carriesData d \<Longrightarrow> dataFree w \<Longrightarrow> dataFree (snd (ExecuteTemplate web name d w))"
  by (auto simp: ExecuteTemplate_def dataFree_def split: prod.splits)

lemma addSessionContext_data: "addSessionContext srv now r d st = (d', st') \<Longrightarrow> carriesData d' = carriesData d"
  by (auto simp: addSessionContext_def carriesData_def split: option.splits prod.splits)

lemma carriesData_fields [simp]:
  "carriesData (d\<lparr>pg_Navigation := n\<rparr>) = carriesData d" "carriesData (d\<lparr>pg_Title := x\<rparr>) = carriesData d"
  "carriesData (d\<lparr>pg_Page := x\<rparr>) = carriesData d" "carriesData (d\<lparr>pg_View := v\<rparr>) = carriesData d"
  "carriesData (d\<lparr>pg_RefreshPath := x\<rparr>) = carriesData d" "carriesData (d\<lparr>pg_CSRF := x\<rparr>) = carriesData d"
  "carriesData (d\<lparr>pg_LoginError := x\<rparr>) = carriesData d"
  by (simp_all add: carriesData_def)

lemma render_trace: "render web srv inp r name d w st t = (w', st', t') \<Longrightarrow> t' = t"
  by (auto simp: render_def split: prod.splits option.splits)

lemma render_free:
  assumes "render web srv inp r name d w st t = (w', st', t')" "\<not> carriesData d" "dataFree w"
  shows "dataFree w'"
proof -
  let ?d = "d\<lparr>pg_Navigation := navigation (pg_Page d)\<rparr>" and ?w = "setSecurityHeaders (setHeader ''Content-Type'' ''text/html; charset=utf-8'' w)"
  obtain d' st1 where d': "addSessionContext srv (in_current inp) r ?d st = (d', st1)" by fastforce
  then have "dataFree (snd (ExecuteTemplate web name d' ?w))"
    using assms addSessionContext_data by (intro ExecuteTemplate_free) auto
  then show ?thesis
    using assms(1) d' by (auto simp: render_def split: prod.splits option.splits)
qed

section \<open>The session behind a page\<close>

text \<open>The browser's cookie names a live session, and the client is the one made with the token of that session.\<close>

definition signedIn :: "Web \<Rightarrow> SessionSourceProvider \<Rightarrow> time \<Rightarrow> HTTPRequest \<Rightarrow> AuthState \<Rightarrow> session \<Rightarrow> Client \<Rightarrow> bool" where
  "signedIn web p now r st s c =
     (\<exists>sessionID. cookieValue (hr_Cookies r) sessionCookieName = Inr sessionID
        \<and> map_of (a_sessions (cleanupLocked now st)) sessionID = Some s
        \<and> NewClient (wb_ParseURL web) (sp_baseURL p) (Some (Inr (s_controllerToken s))) (sp_requestTimeout p) = Inr c)"

definition freshSource :: "LiveSource \<Rightarrow> Client \<Rightarrow> string \<Rightarrow> bool" where
  "freshSource ls c subject = (ls_reader ls = \<lparr>rd_client = c, rd_subject = subject, rd_once = None\<rparr> \<and> ls_capabilities ls = None)"

lemma sourceForSession_fresh:
  assumes "sourceForSession parse p clock (Inr (i, subject, token)) = Inr ls"
  shows "\<exists>c. NewClient parse (sp_baseURL p) (Some (Inr token)) (sp_requestTimeout p) = Inr c \<and> freshSource ls c subject"
  using assms by (auto simp: sourceForSession_def NewLiveSource_def freshSource_def split: if_splits sum.splits)

lemma sourceForRequest_signedIn:
  assumes "sr_provider srv = SessionProvider p" "sourceForRequest web srv now clock r st = (Inr src, st')"
  obtains ls s c where "src = LiveOf ls" "signedIn web p now r st s c" "freshSource ls c (s_subject s)"
proof -
  obtain resolved where res: "ResolvePresentationSession now (hr_Cookies r) st = (resolved, st')"
    and src: "(case sourceForSession (wb_ParseURL web) p clock resolved of Inl e \<Rightarrow> Inl e | Inr s \<Rightarrow> Inr (LiveOf s)) = Inr src"
    using assms by (auto simp: sourceForRequest_def split: prod.splits)
  obtain ls where ls: "sourceForSession (wb_ParseURL web) p clock resolved = Inr ls" "src = LiveOf ls"
    using src by (auto split: sum.splits)
  then obtain i subject token where r: "resolved = Inr (i, subject, token)"
    by (auto simp: sourceForSession_def split: sum.splits)
  from res r obtain s where s: "cookieValue (hr_Cookies r) sessionCookieName = Inr i" "map_of (a_sessions (cleanupLocked now st)) i = Some s"
    "subject = s_subject s" "token = s_controllerToken s"
    by (auto simp: ResolvePresentationSession_def current_def Let_def split: sum.splits prod.splits option.splits)
  from sourceForSession_fresh [OF ls(1) [unfolded r]] obtain c
    where "NewClient (wb_ParseURL web) (sp_baseURL p) (Some (Inr token)) (sp_requestTimeout p) = Inr c" "freshSource ls c subject" by blast
  then show thesis using that [OF ls(2), of s c] s by (auto simp: signedIn_def)
qed

definition safe :: "Web \<Rightarrow> SessionSourceProvider \<Rightarrow> Inputs \<Rightarrow> HTTPRequest \<Rightarrow> AuthState \<Rightarrow> ctrace \<Rightarrow> outcome \<Rightarrow> bool" where
  "safe web p inp r st t out =
     (case out of (w', st', t') \<Rightarrow>
        (t' = t \<and> dataFree w')
        \<or> (\<exists>s c new. signedIn web p (in_resolve inp) r st s c \<and> t' = t @ new \<and> disciplined (wb_lib web) c (s_subject s) new
             \<and> (dataFree w' \<or> new \<noteq> [] \<and> confirms (wb_lib web) (s_subject s) (snd (hd new)))))"

lemma safe_free [intro]: "dataFree w' \<Longrightarrow> safe web p inp r st t (w', st', t)"
  by (simp add: safe_def)

lemma safe_bound:
  assumes "signedIn web p (in_resolve inp) r st s c" "boundReader (wb_lib web) c (s_subject s) t rd t'" "rd_once rd = Some None \<or> dataFree w'"
  shows "safe web p inp r st t (w', st', t')"
  using assms unfolding safe_def boundReader_def by auto

lemma fresh_bound: "freshSource ls c subject \<Longrightarrow> boundReader lb c subject t (ls_reader ls) t"
  by (simp add: freshSource_def boundReader_def disciplined_def)

lemma fresh_checked: "freshSource ls c subject \<Longrightarrow> capsChecked ls"
  by (simp add: freshSource_def capsChecked_def)

text \<open>A handler that starts with its source is safe if what it does with a fresh source of a signed-in browser is.\<close>

lemma withSource_safe:
  assumes "sr_provider srv = SessionProvider p" "dataFree w"
    and "\<And>ls s c st'. signedIn web p (in_resolve inp) r st s c \<Longrightarrow> freshSource ls c (s_subject s) \<Longrightarrow> safe web p inp r st t (k (LiveOf ls) st')"
  shows "safe web p inp r st t (withSource web srv (in_resolve inp) clock r w st t k)"
proof -
  obtain res st' where res: "sourceForRequest web srv (in_resolve inp) clock r st = (res, st')" by fastforce
  show ?thesis
  proof (cases res)
    case (Inl e)
    then show ?thesis using res assms(2) by (auto simp: withSource_def)
  next
    case (Inr src)
    with res show ?thesis
      using assms(3) by (auto simp: withSource_def elim!: sourceForRequest_signedIn [OF assms(1)])
  qed
qed

lemma notFound_free:
  assumes "dataFree w" "notFound web srv inp r w st t = (w', st', t')"
  shows "dataFree w' \<and> t' = t"
  using assms by (auto simp: notFound_def withSource_def Let_def split: prod.splits sum.splits
      intro!: ExecuteTemplate_free dest!: addSessionContext_data)

section \<open>The handlers\<close>

lemma applicationSection_trace:
  "applicationSection web srv inp r parts a v w st t = (w', st', t') \<Longrightarrow> dataFree w \<Longrightarrow> t' = t"
  by (auto simp: applicationSection_def confirmation_def Let_def split: if_splits dest: render_trace notFound_free)

lemma safe_render:
  assumes "signedIn web p (in_resolve inp) r st s c" "boundReader (wb_lib web) c (s_subject s) t rd t1" "rd_once rd = Some None"
  shows "safe web p inp r st t (render web srv inp r name d w st1 t1)"
proof -
  obtain w' st' t' where o: "render web srv inp r name d w st1 t1 = (w', st', t')" by (metis prod_cases3)
  then show ?thesis using safe_bound [OF assms(1,2), of w' st'] assms(3) by (simp add: render_trace [OF o])
qed

lemma safe_unavailable:
  assumes "signedIn web p (in_resolve inp) r st s c" "boundReader (wb_lib web) c (s_subject s) t rd t1" "dataFree w"
  shows "safe web p inp r st t (unavailable w, st', t1)"
  using safe_bound [OF assms(1,2)] assms(3) by simp

lemma fleetPage_safe:
  assumes "sr_provider srv = SessionProvider p" "dataFree w"
  shows "safe web p inp r st t (fleetPage web srv inp r w st t)"
  unfolding fleetPage_def
proof (rule withSource_safe [OF assms], goal_cases)
  case (1 ls s c st')
  obtain x l1 t1 where f: "LoadFleet (wb_lib web) ls t = (x, l1, t1)" by (metis prod_cases3)
  obtain y l2 t2 where a: "live_Activity (wb_lib web) l1 t1 = (y, l2, t2)" by (metis prod_cases3)
  note b1 = bound.LoadFleet_keeps [OF f fresh_bound [OF 1(2)]]
  note b2 = bound.live_keeps(3) [OF a b1]
  have "rd_once (ls_reader l2) = Some None" if "x = Inr fleet" for fleet
    using data_checked(1) f fresh_checked [OF 1(2)] checked.live_keeps(3) [OF a] that by blast
  then show ?case
    using safe_unavailable [OF 1(1) b1 assms(2)] safe_render [OF 1(1) b2]
    by (cases x) (simp_all add: src_Fleet_def src_Activity_def onLive_def f a Let_def)
qed

lemma controllerPage_safe:
  assumes "sr_provider srv = SessionProvider p" "dataFree w"
  shows "safe web p inp r st t (controllerPage web srv inp r w st t)"
  unfolding controllerPage_def
proof (rule withSource_safe [OF assms], goal_cases)
  case (1 ls s c st')
  obtain x l1 t1 where f: "LoadFleet (wb_lib web) ls t = (x, l1, t1)" by (metis prod_cases3)
  note b1 = bound.LoadFleet_keeps [OF f fresh_bound [OF 1(2)]]
  have "rd_once (ls_reader l1) = Some None" if "x = Inr fleet" for fleet
    using data_checked(1) f fresh_checked [OF 1(2)] that by blast
  then show ?case
    using safe_unavailable [OF 1(1) b1 assms(2)] safe_render [OF 1(1) b1]
    by (cases x) (simp_all add: src_Fleet_def onLive_def f)
qed

lemma applicationsPage_safe:
  assumes "sr_provider srv = SessionProvider p" "dataFree w"
  shows "safe web p inp r st t (applicationsPage web srv inp r w st t)"
  unfolding applicationsPage_def Let_def
proof (rule withSource_safe [OF assms], goal_cases)
  case (1 ls s c st')
  obtain x l1 t1 where f: "LoadFleet (wb_lib web) ls t = (x, l1, t1)" by (metis prod_cases3)
  note b1 = bound.LoadFleet_keeps [OF f fresh_bound [OF 1(2)]]
  have "rd_once (ls_reader l1) = Some None" if "x = Inr fleet" for fleet
    using data_checked(1) f fresh_checked [OF 1(2)] that by blast
  then show ?case
    using safe_unavailable [OF 1(1) b1 assms(2)] safe_render [OF 1(1) b1]
    by (cases x) (simp_all add: src_Applications_def live_Applications_def onLive_def f)
qed

lemma activityPage_safe:
  assumes "sr_provider srv = SessionProvider p" "dataFree w"
  shows "safe web p inp r st t (activityPage web srv inp r w st t)"
  unfolding activityPage_def
proof (rule withSource_safe [OF assms], goal_cases)
  case (1 ls s c st')
  obtain x l1 t1 where f: "LoadActivity (wb_lib web) 50 ls t = (x, l1, t1)" by (metis prod_cases3)
  note b1 = bound.LoadActivity_keeps [OF f fresh_bound [OF 1(2)]]
  have "rd_once (ls_reader l1) = Some None" if "x = Inr events" for events
    using data_checked(2) f fresh_checked [OF 1(2)] that by blast
  then show ?case
    using safe_unavailable [OF 1(1) b1 assms(2)] safe_render [OF 1(1) b1]
    by (cases x) (simp_all add: src_Activity_def live_Activity_def onLive_def f)
qed

lemma settingsPage_safe:
  assumes "sr_provider srv = SessionProvider p" "dataFree w"
  shows "safe web p inp r st t (settingsPage web srv inp r w st t)"
  unfolding settingsPage_def
proof (rule withSource_safe [OF assms], goal_cases)
  case (1 ls s c st')
  let ?d = "zeroPage\<lparr>pg_Title := ''Settings '' @ middot @ '' dockercd'', pg_Page := ''settings'', pg_View := src_ViewContext (LiveOf ls), pg_RefreshPath := refreshPath r\<rparr>"
  obtain w' st1 t' where o: "render web srv inp r ''settings'' ?d w st' t = (w', st1, t')" by (metis prod_cases3)
  then have "dataFree w'" "t' = t" using render_free [OF o] render_trace [OF o] assms(2) by simp_all
  then show ?case unfolding o by auto
qed

lemma applicationRoute_safe:
  assumes "sr_provider srv = SessionProvider p" "dataFree w"
  shows "safe web p inp r st t (applicationRoute web srv inp r w st t)"
proof (cases "let parts = Split (TrimPrefix (Clean (hr_Path r)) ''/applications/'') (CHR ''/'') in parts = [] \<or> hd parts = ''.'' \<or> hd parts = []")
  case True
  then have "applicationRoute web srv inp r w st t = notFound web srv inp r w st t" by (simp add: applicationRoute_def Let_def)
  then show ?thesis using notFound_free [OF assms(2)] by (metis prod_cases3 safe_free)
next
  case False
  define parts where "parts = Split (TrimPrefix (Clean (hr_Path r)) ''/applications/'') (CHR ''/'')"
  have "safe web p inp r st t (withSource web srv (in_resolve inp) (in_clock inp) r w st t (\<lambda>src st.
           (case src_Application (wb_lib web) (hd parts) src t of
              (Inl e, src, t) \<Rightarrow> (unavailable w, st, t)
            | (Inr None, src, t) \<Rightarrow> notFound web srv inp r w st t
            | (Inr (Some application), src, t) \<Rightarrow>
                applicationSection web srv inp r parts application (src_ViewContext src) w st t)))"
  proof (rule withSource_safe [OF assms], goal_cases)
    case (1 ls s c st')
    obtain x l1 t1 where f: "LoadApplication (wb_lib web) (hd parts) ls t = (x, l1, t1)" by (metis prod_cases3)
    note b1 = bound.LoadApplication_keeps [OF f fresh_bound [OF 1(2)]]
    obtain w2 st2 t2 where nf: "notFound web srv inp r w st' t1 = (w2, st2, t2)" by (metis prod_cases3)
    note nf' = notFound_free [OF assms(2) nf]
    show ?case
    proof (cases x)
      case (Inl e)
      then show ?thesis
        using safe_unavailable [OF 1(1) b1 assms(2)] safe_bound [OF 1(1) b1, of w2 st2] nf nf'
        by (simp add: src_Application_def live_Application_def onLive_def f)
    next
      case (Inr application)
      obtain w3 st3 t3 where o: "applicationSection web srv inp r parts application (src_ViewContext (LiveOf l1)) w st' t1 = (w3, st3, t3)"
        by (metis prod_cases3)
      have "rd_once (ls_reader l1) = Some None" using data_checked(3) f fresh_checked [OF 1(2)] Inr by blast
      then show ?thesis
        using Inr o safe_bound [OF 1(1) b1, of w3 st3] applicationSection_trace [OF o assms(2)]
        by (simp add: src_Application_def live_Application_def onLive_def f)
    qed
  qed
  then show ?thesis using False unfolding applicationRoute_def Let_def parts_def [symmetric] by simp
qed

lemma notFound_safe: "dataFree w \<Longrightarrow> safe web p inp r st t (notFound web srv inp r w st t)"
  using notFound_free by (metis prod_cases3 safe_free)

lemma loginPage_free:
  assumes "dataFree w" "loginPage web srv inp r message status w st t = (w', st', t')"
  shows "dataFree w' \<and> t' = t"
  using assms by (auto simp: loginPage_def Let_def split: prod.splits sum.splits option.splits dest: notFound_free
      intro!: ExecuteTemplate_free)

lemma signing_free:
  "dataFree w \<Longrightarrow> login web srv inp r w st t = (w', st', t') \<Longrightarrow> dataFree w' \<and> t' = t"
  "dataFree w \<Longrightarrow> logout web srv inp r w st t = (w', st', t') \<Longrightarrow> dataFree w' \<and> t' = t"
  "dataFree w \<Longrightarrow> rootPage srv inp r w st t = (w', st', t') \<Longrightarrow> dataFree w' \<and> t' = t"
  by (auto simp: login_def logout_def rootPage_def split: option.splits prod.splits sum.splits dest: notFound_free loginPage_free)

lemma signing_safe:
  "dataFree w \<Longrightarrow> safe web p inp r st t (loginPage web srv inp r message status w st t)"
  "dataFree w \<Longrightarrow> safe web p inp r st t (login web srv inp r w st t)"
  "dataFree w \<Longrightarrow> safe web p inp r st t (logout web srv inp r w st t)"
  "dataFree w \<Longrightarrow> safe web p inp r st t (rootPage srv inp r w st t)"
  using loginPage_free signing_free by (metis prod_cases3 safe_free)+

lemmas pages_safe = fleetPage_safe controllerPage_safe applicationsPage_safe activityPage_safe settingsPage_safe applicationRoute_safe

lemma ServeHTTP_safe:
  assumes "sr_provider srv = SessionProvider p" "dataFree w" "hr_Path r \<noteq> ''/styles.css''"
  shows "safe web p inp r st t (ServeHTTP web srv inp r w st t)"
  using assms by (simp add: ServeHTTP_def Let_def pages_safe signing_safe notFound_safe)

lemma NewClient_token: "NewClient parse url (Some tokens) timeout = Inr c \<Longrightarrow> cl_tokens c = tokens"
  by (auto simp: NewClient_def Let_def split: sum.splits if_splits)

lemma live_session: "map_of (a_sessions (cleanupLocked now st)) i = Some s \<Longrightarrow> (i, s) \<in> set (a_sessions st) \<and> now < s_expiresAt s"
  by (drule map_of_SomeD) (simp add: cleanupLocked_def)

text \<open>
  C18: A browser's request to the live console. Whatever it asks, the controller is only asked for the presentation API at the
  configured address, with the credential of the unexpired session that the browser's cookie names, first for the
  holder of that credential, and for anything more only if the controller names the session's own subject; the response
  carries fleet, application or activity data only after such an answer.
\<close>

theorem console_acts_for_its_session:
  assumes "ServeHTTP web srv inp r w st t = (w', st', t')"
    and "sr_provider srv = SessionProvider p" "dataFree w" "hr_Path r \<noteq> ''/styles.css''"
  shows "\<exists>new. t' = t @ new \<and> (new \<noteq> [] \<or> \<not> dataFree w' \<longrightarrow>
           (\<exists>sessionID s c. cookieValue (hr_Cookies r) sessionCookieName = Inr sessionID
              \<and> (sessionID, s) \<in> set (a_sessions st) \<and> in_resolve inp < s_expiresAt s
              \<and> NewClient (wb_ParseURL web) (sp_baseURL p) (Some (Inr (s_controllerToken s))) (sp_requestTimeout p) = Inr c
              \<and> list_all (\<lambda>(rq, ans). rq_Authorization rq = ''Bearer '' @ s_controllerToken s
                   \<and> (\<exists>sub. rq_URL rq = (cl_baseURL c)\<lparr>ep_Path := TrimSuffix (ep_Path (cl_baseURL c)) ''/'' @ ''/api/v1/presentation/'' @ sub\<rparr>)) new
              \<and> (new \<noteq> [] \<longrightarrow> rq_URL (fst (hd new)) = permissionsURL c)
              \<and> (length new > 1 \<or> \<not> dataFree w' \<longrightarrow> new \<noteq> [] \<and> confirms (wb_lib web) (s_subject s) (snd (hd new)))))"
proof -
  have "safe web p inp r st t (w', st', t')" using ServeHTTP_safe [OF assms(2-4)] assms(1) by metis
  then consider (free) "t' = t" "dataFree w'"
    | (session) s c new where "signedIn web p (in_resolve inp) r st s c" "t' = t @ new" "disciplined (wb_lib web) c (s_subject s) new"
        "dataFree w' \<or> new \<noteq> [] \<and> confirms (wb_lib web) (s_subject s) (snd (hd new))"
    by (auto simp: safe_def)
  then show ?thesis
  proof cases
    case free
    then show ?thesis by simp
  next
    case session
    then obtain i where i: "cookieValue (hr_Cookies r) sessionCookieName = Inr i" "map_of (a_sessions (cleanupLocked (in_resolve inp) st)) i = Some s"
      and c: "NewClient (wb_ParseURL web) (sp_baseURL p) (Some (Inr (s_controllerToken s))) (sp_requestTimeout p) = Inr c"
      by (auto simp: signedIn_def)
    have "list_all (\<lambda>(rq, ans). rq_Authorization rq = ''Bearer '' @ s_controllerToken s
        \<and> (\<exists>sub. rq_URL rq = (cl_baseURL c)\<lparr>ep_Path := TrimSuffix (ep_Path (cl_baseURL c)) ''/'' @ ''/api/v1/presentation/'' @ sub\<rparr>)) new"
      using session(3) NewClient_token [OF c] by (auto simp: disciplined_def presentationRequest_def list_all_iff)
    then show ?thesis
      using session(2-4) i(1) c live_session [OF i(2)] unfolding disciplined_def by blast
  qed
qed

text \<open>A console with one signed-in browser, before a controller that answers every request.\<close>

definition demoLib :: Lib where
  "demoLib = \<lparr>lb_net = \<lparr>cn_NewRequest = (\<lambda>rq. None), cn_Do = (\<lambda>t rq. Inr \<lparr>rs_StatusCode = 200, rs_ContentType = ''application/json'', rs_Body = (''{}'', None)\<rparr>)\<rparr>,
     lb_dec = \<lparr>
       dec_Capabilities = (\<lambda>s. Inr (\<lparr>cap_APIVersion = ''v1'', cap_ServerTime = [], cap_Features = [''presentation.fleet'', ''presentation.status-metadata''],
         cap_ExpiresAt = [], cap_MaxApplications = 1\<rparr>, JSONEOF)),
       dec_Permissions = (\<lambda>s. Inr (\<lparr>prm_Subject = ''ada'', prm_CredentialID = [], prm_Audience = [], prm_ExpiresAt = [], prm_Capabilities = [],
         prm_Applications = []\<rparr>, JSONEOF)),
       dec_Fleet = (\<lambda>s. Inr (\<lparr>cf_Applications = [\<lparr>ca_Name = ''web'', ca_SyncStatus = ''Synced'', ca_HealthStatus = ''Healthy'', ca_LastSyncedSHA = [],
         ca_HeadSHA = [], ca_LastSyncTime = [], ca_LastObservedAt = [], ca_ObservedHealthStatus = [], ca_ObservationCompleteness = ''unavailable'',
         ca_ResponseGeneratedAt = []\<rparr>], cf_Total = 1, cf_ResponseGeneratedAt = []\<rparr>, JSONEOF)),
       dec_Controller = (\<lambda>s. Inl (Errorf ''none'' [])), dec_Capacity = (\<lambda>s. Inl (Errorf ''none'' [])),
       dec_Activity = (\<lambda>s. Inl (Errorf ''none'' [])), dec_Application = (\<lambda>s. Inl (Errorf ''none'' []))\<rparr>,
     lb_tm = \<lparr>tm_Parse = (\<lambda>s. Inl (Errorf ''none'' [])), tm_zero = 0, tm_Format = (\<lambda>t. [])\<rparr>\<rparr>"

definition demoWeb :: Web where
  "demoWeb = \<lparr>wb_lib = demoLib, wb_crypto = demoCrypto,
     wb_ParseURL = (\<lambda>s. Inr \<lparr>ep_Scheme = ''https'', ep_Host = ''controller'', ep_User = False, ep_RawQuery = [], ep_Fragment = [], ep_Path = []\<rparr>),
     wb_Execute = (\<lambda>name d. (True, None)), wb_PathEscape = (\<lambda>s. s), wb_QueryEscape = (\<lambda>s. s), wb_static = (\<lambda>r w. w)\<rparr>"

definition demoProvider :: SessionSourceProvider where
  "demoProvider = \<lparr>sp_baseURL = ''https://controller'', sp_requestTimeout = 0, sp_controllerLabel = [], sp_environment = []\<rparr>"

definition demoServer :: Server where
  "demoServer = \<lparr>sr_provider = SessionProvider demoProvider, sr_auth = Some demoAuthenticator\<rparr>"

definition demoSession :: session where
  "demoSession = \<lparr>s_subject = ''ada'', s_controllerToken = ''t1'', s_csrf = ''x'', s_expiresAt = 10\<rparr>"

definition demoInputs :: Inputs where
  "demoInputs = \<lparr>in_resolve = 1, in_resolveAgain = 1, in_current = 1, in_begin = 1, in_random1 = Inl (Errorf ''none'' []), in_random2 = Inl (Errorf ''none'' []),
     in_login = \<lparr>li_challengeTime = 1, li_now = 1, li_finishTime = 1, li_sessionID = Inl (Errorf ''none'' []), li_sessionCSRF = Inl (Errorf ''none'' [])\<rparr>,
     in_logout = 1, in_clock = (\<lambda>n. 1)\<rparr>"

definition demoGet :: "string \<Rightarrow> Request \<Rightarrow> HTTPRequest" where
  "demoGet path cookies = \<lparr>hr_Method = ''GET'', hr_Path = path, hr_EscapedPath = path, hr_RawQuery = [], hr_Query = [], hr_Cookies = cookies,
     hr_ContentLength = 0, hr_ContentType = [], hr_PostForm = Inr []\<rparr>"

definition emptyWriter :: ResponseWriter where
  "emptyWriter = \<lparr>w_Header = [], w_Cookies = [], w_Status = None, w_Body = []\<rparr>"

definition demoStore :: AuthState where
  "demoStore = initialAuthState\<lparr>a_sessions := [(''sid'', demoSession)], a_rateBuckets := []\<rparr>"

lemma demo_strings:
  "TrimSpace ''https://controller'' = ''https://controller''" "TrimSpace ''sid'' = ''sid''" "TrimSpace ''ada'' = ''ada''" "TrimSpace ''t1'' = ''t1''" "TrimSpace [] = []"
  "TrimSuffix [] ''/'' = []" "HasPrefix (ToLower ''application/json'') ''application/json''"
  by code_simp+

definition demoClient :: Client where
  "demoClient = \<lparr>cl_baseURL = \<lparr>ep_Scheme = ''https'', ep_Host = ''controller'', ep_User = False, ep_RawQuery = [], ep_Fragment = [], ep_Path = []\<rparr>,
     cl_tokens = Inr ''t1'', cl_timeout = defaultRequestTimeout\<rparr>"

lemma demo_client: "NewClient (wb_ParseURL demoWeb) ''https://controller'' (Some (Inr ''t1'')) 0 = Inr demoClient"
  by (simp add: NewClient_def demoWeb_def demoClient_def demo_strings defaultRequestTimeout_def)

definition demoAnswer :: CResponse where
  "demoAnswer = \<lparr>rs_StatusCode = 200, rs_ContentType = ''application/json'', rs_Body = (''{}'', None)\<rparr>"

definition demoRequest2 :: "string \<Rightarrow> (string \<times> string) list \<Rightarrow> CRequest" where
  "demoRequest2 path query = \<lparr>rq_URL = (cl_baseURL demoClient)\<lparr>ep_Path := path\<rparr>, rq_Query = query, rq_Authorization = ''Bearer t1''\<rparr>"

lemma demo_read: "getWithQuery (lb_net demoLib) decode demoClient path query t
    = (decodeResponse decode demoAnswer, t @ [(demoRequest2 path query, Inr demoAnswer)])"
  by (simp add: getWithQuery_def demoLib_def demoClient_def demo_strings demoAnswer_def demoRequest2_def Let_def)

lemma demo_decode: "decodeResponse (\<lambda>s. Inr (x, JSONEOF)) demoAnswer = Inr x"
  by (simp add: decodeResponse_def demo_strings maxResponseBody_def demoAnswer_def)

lemma demo_permissions: "\<exists>x. decodeResponse (dec_Permissions (lb_dec demoLib)) demoAnswer = Inr x \<and> prm_Subject x = ''ada''"
  by (simp add: demoLib_def demo_decode)

lemma demo_capabilities: "\<exists>x. decodeResponse (dec_Capabilities (lb_dec demoLib)) demoAnswer = Inr x \<and> cap_APIVersion x = ''v1''
    \<and> cap_Features x = [''presentation.fleet'', ''presentation.status-metadata'']"
  by (simp add: demoLib_def demo_decode)

lemma demo_fleet: "\<exists>x a. decodeResponse (dec_Fleet (lb_dec demoLib)) demoAnswer = Inr x \<and> cf_Applications x = [a]"
  by (simp add: demoLib_def demo_decode)

definition demoLive :: LiveSource where
  "demoLive = \<lparr>ls_reader = \<lparr>rd_client = demoClient, rd_subject = ''ada'', rd_once = None\<rparr>, ls_controllerLabel = ''Scoped controller'',
     ls_environment = ''Scoped presentation session'', ls_now = (\<lambda>n. 1), ls_reads = 0, ls_capabilities = None, ls_freshness = []\<rparr>"

lemma demo_source: "sourceForRequest demoWeb demoServer 1 (\<lambda>n. 1) (demoGet path [(''dockercd_web_session'', ''sid'')]) demoStore = (Inr (LiveOf demoLive), demoStore)"
  using demo_client by (simp add: sourceForRequest_def demoServer_def demoProvider_def ResolvePresentationSession_def current_def cookieValue_def demoGet_def
      sessionCookieName_def cleanupLocked_def demoStore_def demoSession_def sourceForSession_def NewLiveSource_def demo_strings demoLive_def)

lemma demo_load: "\<exists>f l t. LoadFleet demoLib demoLive [] = (Inr f, l, t) \<and> fl_Applications f \<noteq> [] \<and> length t = 3"
proof -
  obtain x y z a where "decodeResponse (dec_Permissions (lb_dec demoLib)) demoAnswer = Inr x" "prm_Subject x = ''ada''"
    "decodeResponse (dec_Capabilities (lb_dec demoLib)) demoAnswer = Inr y" "cap_APIVersion y = ''v1''"
    "cap_Features y = [''presentation.fleet'', ''presentation.status-metadata'']"
    "decodeResponse (dec_Fleet (lb_dec demoLib)) demoAnswer = Inr z" "cf_Applications z = [a]"
    using demo_permissions demo_capabilities demo_fleet by blast
  then show ?thesis
    by (simp add: LoadFleet_def requireBoth_def requireFeature_def loadCapabilities_def callReader_def reader_reads boundRead_def authorize_def
        client_reads checkSubject_def demoLive_def demo_read demo_strings fleetApplications_def fleetController_def fleetCapacity_def
        deriveCounts_def setFreshness_def Let_def)
qed

lemma render_shows:
  assumes "render web srv inp r name d w st t = (w', st', t')" "carriesData d" "\<And>d. wb_Execute web name d = (True, None)"
  shows "\<not> dataFree w'"
  using assms by (auto simp: render_def ExecuteTemplate_def dataFree_def split: prod.splits dest!: addSessionContext_data) blast

lemma demo_page:
  "\<exists>w' st' t'. ServeHTTP demoWeb demoServer demoInputs (demoGet ''/fleet'' [(''dockercd_web_session'', ''sid'')]) emptyWriter demoStore [] = (w', st', t')
     \<and> \<not> dataFree w'"
proof -
  let ?r = "demoGet ''/fleet'' [(''dockercd_web_session'', ''sid'')]"
  obtain f l t where f: "LoadFleet demoLib demoLive [] = (Inr f, l, t)" "fl_Applications f \<noteq> []" using demo_load by blast
  obtain y l2 t2 where a: "live_Activity demoLib l t = (y, l2, t2)" by (metis prod_cases3)
  let ?d = "zeroPage\<lparr>pg_Title := ''Fleet '' @ middot @ '' dockercd'', pg_Page := ''fleet'', pg_View := src_ViewContext (LiveOf l), pg_Fleet := f,
     pg_Applications := fl_Applications f, pg_Activity := (case y of Inl e \<Rightarrow> [] | Inr es \<Rightarrow> es), pg_RecentActivity := take 3 (case y of Inl e \<Rightarrow> [] | Inr es \<Rightarrow> es),
     pg_ActivityAvailable := \<not> isl y, pg_ActivityState := activityPanel y, pg_Notice := strAt (hr_Query ?r) ''notice'', pg_RefreshPath := refreshPath ?r\<rparr>"
  obtain w' st' t' where o: "render demoWeb demoServer demoInputs ?r ''fleet'' ?d (setSecurityHeaders emptyWriter) demoStore t2 = (w', st', t')"
    by (metis prod_cases3)
  have "\<not> dataFree w'" by (rule render_shows [OF o]) (use f(2) in \<open>simp_all add: carriesData_def demoWeb_def\<close>)
  moreover have "ServeHTTP demoWeb demoServer demoInputs ?r emptyWriter demoStore [] = (w', st', t')"
  proof -
    have "hr_Path ?r = ''/fleet''" "hr_Method ?r = ''GET''" "wb_lib demoWeb = demoLib" "in_resolve demoInputs = 1" "in_clock demoInputs = (\<lambda>n. 1)"
      by (simp_all add: demoGet_def demoWeb_def demoInputs_def)
    then show ?thesis
      using demo_source [of "''/fleet''"] f(1) a o
      by (simp add: ServeHTTP_def fleetPage_def withSource_def src_Fleet_def src_Activity_def onLive_def Let_def)
  qed
  ultimately show ?thesis by blast
qed

theorem console_acts_for_its_session_witness:
  "\<exists>w' st' new c. ServeHTTP demoWeb demoServer demoInputs (demoGet ''/fleet'' [(''dockercd_web_session'', ''sid'')]) emptyWriter demoStore [] = (w', st', new)
     \<and> \<not> dataFree w' \<and> new \<noteq> [] \<and> list_all (\<lambda>(rq, ans). rq_Authorization rq = ''Bearer t1'') new
     \<and> rq_URL (fst (hd new)) = permissionsURL c \<and> confirms demoLib ''ada'' (snd (hd new))"
proof -
  obtain w' st' new where o: "ServeHTTP demoWeb demoServer demoInputs (demoGet ''/fleet'' [(''dockercd_web_session'', ''sid'')]) emptyWriter demoStore [] = (w', st', new)"
    and shown: "\<not> dataFree w'" using demo_page by blast
  have store: "(i, s) \<in> set (a_sessions demoStore) \<Longrightarrow> s = demoSession" for i s by (simp add: demoStore_def)
  have "sr_provider demoServer = SessionProvider demoProvider" "dataFree emptyWriter" "hr_Path (demoGet ''/fleet'' [(''dockercd_web_session'', ''sid'')]) \<noteq> ''/styles.css''"
    by (simp_all add: demoServer_def dataFree_def emptyWriter_def demoGet_def)
  from console_acts_for_its_session [OF o this] shown obtain i s c where s: "(i, s) \<in> set (a_sessions demoStore)"
    and new: "list_all (\<lambda>(rq, ans). rq_Authorization rq = ''Bearer '' @ s_controllerToken s
                   \<and> (\<exists>sub. rq_URL rq = (cl_baseURL c)\<lparr>ep_Path := TrimSuffix (ep_Path (cl_baseURL c)) ''/'' @ ''/api/v1/presentation/'' @ sub\<rparr>)) new"
      "new \<noteq> []" "rq_URL (fst (hd new)) = permissionsURL c" "confirms (wb_lib demoWeb) (s_subject s) (snd (hd new))"
    by auto
  then have "list_all (\<lambda>(rq, ans). rq_Authorization rq = ''Bearer t1'') new" "confirms demoLib ''ada'' (snd (hd new))"
    using store [OF s] by (auto simp: demoSession_def demoWeb_def list_all_iff)
  with o shown new show ?thesis by blast
qed

section \<open>A browser without a session\<close>

definition stranger :: "HTTPRequest \<Rightarrow> AuthState \<Rightarrow> bool" where
  "stranger r st = (\<forall>sessionID. cookieValue (hr_Cookies r) sessionCookieName = Inr sessionID \<longrightarrow> map_of (a_sessions st) sessionID = None)"

lemma map_of_filter_None: "map_of xs k = None \<Longrightarrow> map_of (filter P xs) k = None"
  by (auto simp: map_of_eq_None_iff)

lemma stranger_current: "stranger r st \<Longrightarrow> \<exists>st'. current now (hr_Cookies r) st = (None, st')"
  by (auto simp: current_def stranger_def cleanupLocked_def Let_def map_of_filter_None split: sum.splits)

lemma stranger_source:
  assumes "sr_provider srv = SessionProvider p" "stranger r st"
  shows "\<exists>st'. sourceForRequest web srv now clock r st = (Inl ErrUnauthenticatedSession, st')"
  using stranger_current [OF assms(2), of now] assms(1)
  by (auto simp: sourceForRequest_def ResolvePresentationSession_def sourceForSession_def)

definition redirected :: "HTTPRequest \<Rightarrow> ResponseWriter \<Rightarrow> bool" where
  "redirected r w = (w_Status w = Some 303 \<and> map_of (w_Header w) ''Location'' = Some ''/login'' \<and> set (w_Body w) \<subseteq> {RedirectNote ''/login''})"

lemma httpRedirect_redirected: "w_Status w = None \<Longrightarrow> w_Body w = [] \<Longrightarrow> redirected r (httpRedirect r ''/login'' 303 w)"
  by (simp add: redirected_def httpRedirect_def writeBody_def writeHeader_def setHeader_def update_conv' Let_def)

lemma stranger_page:
  assumes "sr_provider srv = SessionProvider p" "sr_auth srv \<noteq> None" "stranger r st" "w_Status w = None" "w_Body w = []"
  shows "\<exists>w' st'. withSource web srv now clock r w st t k = (w', st', t) \<and> redirected r w'"
  using stranger_source [OF assms(1,3), of web now clock] httpRedirect_redirected [OF assms(4,5)] assms(2)
  by (auto simp: withSource_def sourceError_def ErrUnauthenticatedSession_def)

lemma status_security [simp]: "w_Status (setSecurityHeaders w) = w_Status w"
proof -
  have "w_Status (fold (\<lambda>(k, v). setHeader k v) hs w) = w_Status w" for hs
    by (induction hs arbitrary: w) (auto simp: setHeader_def split_beta)
  then show ?thesis by (simp add: setSecurityHeaders_def)
qed

text \<open>
  A browser without a session. When the cookie of a request names no session, every request but those for the style sheet, the
  sign-in form, a sign-in or a sign-out is answered with a redirect to the sign-in form, without a page and without a request to
  the controller.
\<close>

theorem stranger_redirected:
  assumes "sr_provider srv = SessionProvider p" "sr_auth srv \<noteq> None" "stranger r st"
    and "hr_Path r \<noteq> ''/styles.css''" "hr_Path r = ''/login'' \<longrightarrow> hr_Method r \<noteq> ''GET'' \<and> hr_Method r \<noteq> ''POST''"
    and "hr_Path r = ''/logout'' \<longrightarrow> hr_Method r \<noteq> ''POST''" "w_Status w = None" "w_Body w = []"
  shows "\<exists>w' st'. ServeHTTP web srv inp r w st t = (w', st', t) \<and> redirected r w'"
proof -
  let ?w = "setSecurityHeaders w"
  define turned where "turned out = (\<exists>w' st'. out = (w', st', t) \<and> redirected r w')" for out :: outcome
  have page: "turned (withSource web srv now clock r ?w st t k)" for now clock k
    using assms unfolding turned_def by (intro stranger_page) auto
  have root: "turned (rootPage srv inp r ?w st t)"
    using stranger_current [OF assms(3), of "in_current inp"] assms httpRedirect_redirected [of ?w r]
    by (auto simp: rootPage_def Current_def turned_def)
  have nf: "turned (notFound web srv inp r ?w st t)"
    unfolding notFound_def by (rule page)
  have pages: "turned (fleetPage web srv inp r ?w st t)" "turned (controllerPage web srv inp r ?w st t)" "turned (applicationsPage web srv inp r ?w st t)"
    "turned (activityPage web srv inp r ?w st t)" "turned (settingsPage web srv inp r ?w st t)"
    unfolding fleetPage_def controllerPage_def applicationsPage_def activityPage_def settingsPage_def Let_def by (rule page)+
  have route: "turned (applicationRoute web srv inp r ?w st t)"
    unfolding applicationRoute_def Let_def by (intro if_split [where P = turned, THEN iffD2] conjI impI nf page)
  have "turned (ServeHTTP web srv inp r w st t)"
    unfolding ServeHTTP_def Let_def
    by (intro if_split [where P = turned, THEN iffD2] conjI impI pages root nf route) (use assms(4-6) in \<open>simp_all\<close>)
  then show ?thesis by (simp add: turned_def)
qed

theorem stranger_redirected_witness:
  "\<exists>w' st'. ServeHTTP demoWeb demoServer demoInputs (demoGet ''/applications/web'' [(''dockercd_web_session'', ''guess'')]) emptyWriter demoStore [] = (w', st', [])
     \<and> w_Status w' = Some 303 \<and> map_of (w_Header w') ''Location'' = Some ''/login'' \<and> (\<forall>name d. Rendered name d \<notin> set (w_Body w'))"
proof -
  let ?r = "demoGet ''/applications/web'' [(''dockercd_web_session'', ''guess'')]"
  have "sr_provider demoServer = SessionProvider demoProvider" "sr_auth demoServer \<noteq> None" "w_Status emptyWriter = None" "w_Body emptyWriter = []"
    "hr_Path ?r \<noteq> ''/styles.css''" "hr_Path ?r = ''/login'' \<longrightarrow> hr_Method ?r \<noteq> ''GET'' \<and> hr_Method ?r \<noteq> ''POST''"
    "hr_Path ?r = ''/logout'' \<longrightarrow> hr_Method ?r \<noteq> ''POST''"
    by (simp_all add: demoServer_def emptyWriter_def demoGet_def)
  moreover have "stranger ?r demoStore"
    by (auto simp: stranger_def cookieValue_def demoGet_def demoStore_def sessionCookieName_def split: if_splits)
  ultimately obtain w' st' where "ServeHTTP demoWeb demoServer demoInputs ?r emptyWriter demoStore [] = (w', st', [])" "redirected ?r w'"
    using stranger_redirected [of demoServer demoProvider ?r demoStore emptyWriter demoWeb demoInputs "[]"] by blast
  then show ?thesis by (auto simp: redirected_def)
qed

text \<open>Live application pages are read only; the refusal of a POST still names POST as allowed.\<close>

lemma live_application_read_only:
  "hr_Method r = ''POST'' \<Longrightarrow> \<not> vc_Fixture v \<Longrightarrow>
     applicationSection web srv inp r parts a v w st t = (httpError ''method not allowed'' 405 (setHeader ''Allow'' ''GET, POST'' w), st, t)"
  by (simp add: applicationSection_def Let_def)

section \<open>Headers\<close>

definition secured :: "ResponseWriter \<Rightarrow> bool" where
  "secured w = (\<forall>(k, v)\<in>set securityHeaders. map_of (w_Header w) k = Some v)"

lemma secured_kept [simp]: "secured w \<Longrightarrow> secured (addCookies cs w)" "secured w \<Longrightarrow> secured (writeHeader n w)" "secured w \<Longrightarrow> secured (writeBody x w)"
  by (simp_all add: secured_def addCookies_def writeHeader_def writeBody_def Let_def)

text \<open>No handler changes one of the headers to another value.\<close>

lemma secured_setHeader: "secured w \<Longrightarrow> (\<forall>v'. (k, v') \<in> set securityHeaders \<longrightarrow> v' = v) \<Longrightarrow> secured (setHeader k v w)"
  by (auto simp: secured_def setHeader_def update_conv')

lemma secured_other [simp]:
  "secured w \<Longrightarrow> secured (setHeader ''Content-Type'' v w)" "secured w \<Longrightarrow> secured (setHeader ''Location'' v w)"
  "secured w \<Longrightarrow> secured (setHeader ''Allow'' v w)" "secured w \<Longrightarrow> secured (setHeader ''X-Content-Type-Options'' ''nosniff'' w)"
  by (rule secured_setHeader, assumption, simp add: securityHeaders_def)+

lemma securityHeaders_distinct: "distinct (map fst securityHeaders)"
  by (simp add: securityHeaders_def)

lemma setSecurityHeaders_header:
  "w_Status w = None \<Longrightarrow> distinct (map fst hs) \<Longrightarrow> w_Status (fold (\<lambda>(k, v). setHeader k v) hs w) = None
     \<and> map_of (w_Header (fold (\<lambda>(k, v). setHeader k v) hs w)) = map_of (w_Header w) ++ map_of hs"
proof (induction hs arbitrary: w)
  case (Cons h hs)
  obtain k v where h: "h = (k, v)" by fastforce
  have "map_of hs k = None" using Cons.prems(2) h by (simp add: map_of_eq_None_iff)
  moreover have "w_Status (setHeader k v w) = None" "map_of (w_Header (setHeader k v w)) = (map_of (w_Header w))(k \<mapsto> v)"
    using Cons.prems(1) by (simp_all add: setHeader_def update_conv')
  ultimately show ?case using Cons.IH [of "setHeader k v w"] Cons.prems(2) h by (auto simp: map_add_def fun_eq_iff)
qed simp

lemma secured_set [simp]: "secured w \<or> w_Status w = None \<Longrightarrow> secured (setSecurityHeaders w)"
proof (cases "w_Status w = None")
  case True
  then show ?thesis
    using setSecurityHeaders_header [OF True securityHeaders_distinct] securityHeaders_distinct
    by (auto simp: secured_def setSecurityHeaders_def map_add_Some_iff)
next
  case False
  have "fold (\<lambda>(k, v). setHeader k v) hs w = w" for hs
    by (induction hs) (use False in \<open>auto simp: setHeader_def\<close>)
  then show "secured w \<or> w_Status w = None \<Longrightarrow> ?thesis" using False by (simp add: setSecurityHeaders_def)
qed

lemma secured_writes [simp]:
  assumes "secured w"
  shows "secured (httpError msg code w)" "secured (httpRedirect r url code w)" "secured (unavailable w)" "secured (sourceError srv r e w)"
    "secured (invalidSignOut w)" "secured (snd (ExecuteTemplate web name d w))"
  using assms by (simp_all add: httpError_def httpRedirect_def unavailable_def sourceError_def invalidSignOut_def ExecuteTemplate_def Let_def split: prod.split)

lemma secured_render [simp]: "secured w \<Longrightarrow> secured (fst (render web srv inp r name d w st t))"
proof -
  assume w: "secured w"
  obtain d' st' where d': "addSessionContext srv (in_current inp) r (d\<lparr>pg_Navigation := navigation (pg_Page d)\<rparr>) st = (d', st')" by fastforce
  obtain e w' where e: "ExecuteTemplate web name d' (setSecurityHeaders (setHeader ''Content-Type'' ''text/html; charset=utf-8'' w)) = (e, w')" by fastforce
  have "secured w'" using secured_writes(6) [of "setSecurityHeaders (setHeader ''Content-Type'' ''text/html; charset=utf-8'' w)" web name d'] w e by simp
  then show ?thesis by (simp add: render_def d' e split: option.split)
qed

lemma secured_withSource:
  "secured w \<Longrightarrow> (\<And>src st'. secured (fst (k src st'))) \<Longrightarrow> secured (fst (withSource web srv now clock r w st t k))"
  by (simp add: withSource_def split: prod.split sum.split)

lemma secured_notFound [simp]: "secured w \<Longrightarrow> secured (fst (notFound web srv inp r w st t))"
  unfolding notFound_def by (rule secured_withSource) (simp_all add: Let_def split: prod.split)

lemma secured_applicationSection [simp]: "secured w \<Longrightarrow> secured (fst (applicationSection web srv inp r parts a v w st t))"
  by (simp add: applicationSection_def confirmation_def Let_def)

lemma secured_pages:
  assumes "secured w"
  shows "secured (fst (fleetPage web srv inp r w st t))" "secured (fst (controllerPage web srv inp r w st t))"
    "secured (fst (applicationsPage web srv inp r w st t))" "secured (fst (activityPage web srv inp r w st t))"
    "secured (fst (settingsPage web srv inp r w st t))" "secured (fst (applicationRoute web srv inp r w st t))"
    "secured (fst (loginPage web srv inp r message status w st t))" "secured (fst (logout web srv inp r w st t))" "secured (fst (rootPage srv inp r w st t))"
  using assms
  by (auto simp: fleetPage_def controllerPage_def applicationsPage_def activityPage_def settingsPage_def applicationRoute_def loginPage_def
      logout_def rootPage_def Let_def intro!: secured_withSource split: prod.split sum.split option.split)

lemma secured_login: "secured w \<Longrightarrow> secured (fst (login web srv inp r w st t))"
  by (simp add: login_def secured_pages split: prod.split sum.split option.split)

text \<open>
  Headers of the console. Every response of every handler, whether sample data or live, an error or a redirect, forbids caching,
  framing, sniffing of the content type, referrers and scripts.
\<close>

theorem responses_carry_security_headers:
  assumes "w_Status w = None" "hr_Path r \<noteq> ''/styles.css''"
  shows "\<forall>(k, v)\<in>set securityHeaders. map_of (w_Header (fst (ServeHTTP web srv inp r w st t))) k = Some v"
proof -
  have "secured (fst (ServeHTTP web srv inp r w st t))"
    using assms by (simp add: ServeHTTP_def Let_def secured_pages secured_login)
  then show ?thesis by (simp add: secured_def)
qed

theorem responses_carry_security_headers_witness:
  "map_of (w_Header (fst (ServeHTTP demoWeb demoServer demoInputs (demoGet ''/nowhere'' []) emptyWriter demoStore []))) ''Cache-Control'' = Some ''no-store''"
  using responses_carry_security_headers [of emptyWriter "demoGet ''/nowhere'' []" demoWeb demoServer demoInputs demoStore "[]"]
  by (auto simp: emptyWriter_def demoGet_def securityHeaders_def)

section \<open>Start\<close>

text \<open>With sample data no handler asks a controller.\<close>

lemma render_trace_kept [simp]: "snd (snd (render web srv inp r name d w st t)) = t"
  by (simp add: render_def split: prod.split option.split)

lemma fixture_source:
  "sr_provider srv = StaticProvider (FixtureOf x)
     \<Longrightarrow> withSource web srv now clock r w st t k = k (FixtureOf (Scenario x (strAt (hr_Query r) ''scenario''))) st"
  by (simp add: withSource_def sourceForRequest_def)

lemma fixture_withSource:
  assumes "sr_provider srv = StaticProvider (FixtureOf x)" "\<And>y st'. snd (snd (k (FixtureOf y) st')) = t"
  shows "snd (snd (withSource web srv now clock r w st t k)) = t"
  using assms by (simp add: fixture_source)

lemma fixture_notFound [simp]: "sr_provider srv = StaticProvider (FixtureOf x) \<Longrightarrow> snd (snd (notFound web srv inp r w st t)) = t"
  unfolding notFound_def by (rule fixture_withSource) (simp_all add: Let_def split: prod.split)

lemma fixture_pages:
  assumes "sr_provider srv = StaticProvider (FixtureOf x)"
  shows "snd (snd (fleetPage web srv inp r w st t)) = t" "snd (snd (controllerPage web srv inp r w st t)) = t"
    "snd (snd (applicationsPage web srv inp r w st t)) = t" "snd (snd (activityPage web srv inp r w st t)) = t"
    "snd (snd (settingsPage web srv inp r w st t)) = t" "snd (snd (applicationRoute web srv inp r w st t)) = t"
    "snd (snd (loginPage web srv inp r message status w st t)) = t" "snd (snd (rootPage srv inp r w st t)) = t"
    "snd (snd (logout web srv inp r w st t)) = t"
  unfolding fleetPage_def controllerPage_def applicationsPage_def activityPage_def settingsPage_def applicationRoute_def Let_def
    loginPage_def rootPage_def logout_def
  using assms
  by (auto intro!: fixture_withSource [OF assms] simp: src_reads onLive_def fixture_Applications_def applicationSection_def confirmation_def Let_def
      split: prod.split sum.split option.split)

lemma fixture_login: "sr_provider srv = StaticProvider (FixtureOf x) \<Longrightarrow> snd (snd (login web srv inp r w st t)) = t"
  by (simp add: login_def fixture_pages split: prod.split sum.split option.split)

lemma New_cookieSecure: "New fs config lk rk = Inr (a, st) \<Longrightarrow> a_cookieSecure a = cf_CookieSecure config"
  by (auto simp: New_def Let_def split: sum.splits if_splits prod.splits)

definition httpsOrigin :: "Endpoint \<Rightarrow> bool" where
  "httpsOrigin e = (ep_Scheme e = ''https'' \<and> ep_Host e \<noteq> [] \<and> \<not> ep_User e \<and> ep_RawQuery e = [] \<and> ep_Fragment e = [] \<and> ep_Path e = [])"

text \<open>
  How the console starts. Without a users file it serves sample data and no request ever reaches a controller; with one it starts
  only with an https origin, a well-formed registry, cookies marked secure and an address for which session clients can be
  made, and its pages then come from sources made for a session. There is no other way to start.
\<close>

theorem console_starts_closed:
  assumes "webHandlerFromEnvironment parse fs lk rk getenv = Inr (srv, st, mode)"
  shows "(if TrimSpace (getenv ''DOCKERCD_WEB_AUTH_USERS_FILE'') = []
          then sr_auth srv = None \<and> (\<forall>web inp r w st t. snd (snd (ServeHTTP web srv inp r w st t)) = t)
          else \<exists>a p origin token c. sr_auth srv = Some a \<and> authenticatorOk a \<and> a_cookieSecure a \<and> st = initialAuthState
            \<and> parse (TrimSpace (getenv ''DOCKERCD_WEB_PUBLIC_ORIGIN'')) = Inr origin \<and> httpsOrigin origin
            \<and> sr_provider srv = SessionProvider p \<and> NewClient parse (sp_baseURL p) (Some token) (sp_requestTimeout p) = Inr c)"
proof (cases "TrimSpace (getenv ''DOCKERCD_WEB_AUTH_USERS_FILE'') = []")
  case True
  then have "sr_provider srv = StaticProvider (FixtureOf NewFixtureSource)" "sr_auth srv = None"
    using assms by (auto simp: webHandlerFromEnvironment_def NewWithSourceProvider_def)
  moreover from this(1) have "snd (snd (ServeHTTP web srv inp r w st t)) = t" for web inp r w st t
    by (simp add: ServeHTTP_def Let_def fixture_pages fixture_login)
  ultimately show ?thesis using True by simp
next
  case False
  let ?cfg = "\<lparr>cf_UsersFile = TrimSpace (getenv ''DOCKERCD_WEB_AUTH_USERS_FILE''), cf_CookieSecure = True, cf_SessionTTL = 0, cf_LoginFlowTTL = 0\<rparr>"
  from assms False obtain a p where origin: "requireHTTPSOrigin parse (getenv ''DOCKERCD_WEB_PUBLIC_ORIGIN'') = None"
    and new: "New fs ?cfg lk rk = Inr (a, st)"
    and p: "NewSessionSourceProvider parse True (TrimSpace (getenv ''DOCKERCD_WEB_CONTROLLER_URL'')) 0 (TrimSpace (getenv ''DOCKERCD_WEB_CONTROLLER_LABEL''))
              (TrimSpace (getenv ''DOCKERCD_WEB_ENVIRONMENT'')) = Inr p"
    and srv: "srv = NewWithSourceProviderAndAuthenticator (SessionProvider p) a"
    by (auto simp: webHandlerFromEnvironment_def Let_def split: option.splits sum.splits if_splits)
  from origin obtain e where e: "parse (TrimSpace (getenv ''DOCKERCD_WEB_PUBLIC_ORIGIN'')) = Inr e" "httpsOrigin e"
    by (auto simp: requireHTTPSOrigin_def httpsOrigin_def Let_def split: sum.splits if_splits)
  from p obtain c where "NewClient parse (sp_baseURL p) (Some (Inl ErrUnauthenticatedSession)) (sp_requestTimeout p) = Inr c"
    by (auto simp: NewSessionSourceProvider_def split: sum.splits)
  then show ?thesis
    using False New_ok [OF new] New_cookieSecure [OF new] srv e by (auto simp: NewWithSourceProviderAndAuthenticator_def)
qed

definition demoEnv :: "string \<Rightarrow> string" where
  "demoEnv k = (if k = ''DOCKERCD_WEB_AUTH_USERS_FILE'' then ''/run/secrets/users''
     else if k = ''DOCKERCD_WEB_CONTROLLER_URL'' then ''https://controller'' else [])"

theorem console_starts_closed_witness:
  "\<exists>srv st mode a p. webHandlerFromEnvironment (wb_ParseURL demoWeb) (demoFiles demoVerifierText) (Inr (replicate 32 (CHR ''k''))) (Inr (replicate 32 (CHR ''r''))) demoEnv
       = Inr (srv, st, mode)
     \<and> sr_auth srv = Some a \<and> authenticatorOk a \<and> a_cookieSecure a \<and> sr_provider srv = SessionProvider p"
proof -
  have trim: "TrimSpace ''/run/secrets/users'' = ''/run/secrets/users''" by code_simp
  have parse: "wb_ParseURL demoWeb s = Inr \<lparr>ep_Scheme = ''https'', ep_Host = ''controller'', ep_User = False, ep_RawQuery = [], ep_Fragment = [], ep_Path = []\<rparr>" for s
    by (simp add: demoWeb_def)
  have "\<exists>srv st mode. webHandlerFromEnvironment (wb_ParseURL demoWeb) (demoFiles demoVerifierText) (Inr (replicate 32 (CHR ''k''))) (Inr (replicate 32 (CHR ''r''))) demoEnv
       = Inr (srv, st, mode)"
    using demo_New [unfolded demoAuthConfig_def]
    by (simp add: webHandlerFromEnvironment_def demoEnv_def trim demo_strings requireHTTPSOrigin_def parse NewSessionSourceProvider_def NewClient_def
        defaultRequestTimeout_def Let_def)
  then obtain srv st mode where o: "webHandlerFromEnvironment (wb_ParseURL demoWeb) (demoFiles demoVerifierText) (Inr (replicate 32 (CHR ''k''))) (Inr (replicate 32 (CHR ''r''))) demoEnv
       = Inr (srv, st, mode)" by blast
  have "TrimSpace (demoEnv ''DOCKERCD_WEB_AUTH_USERS_FILE'') \<noteq> []" by (simp add: demoEnv_def trim)
  with console_starts_closed [OF o] o show ?thesis by auto
qed

end
