(* ===== verification/Migrations.thy ===== *)
theory Migrations
  imports Store
begin

text \<open>
  Opening the state database (\<^verbatim>\<open>store/store.go\<close>): the migrations embedded in the program and the ledger
  \<^verbatim>\<open>schema_migrations\<close> of those that have run. A migration and its ledger row are one transaction, the version is the
  ledger's primary key, and any statement may fail; the engine of a run says which.
\<close>

section \<open>Migration files\<close>

text \<open>\<^verbatim>\<open>strings.SplitN(name, "_", 2)[0]\<close> is the part before the first underscore.\<close>

definition parseVersion :: "string \<Rightarrow> int" where
  "parseVersion name = (case Atoi (takeWhile (\<lambda>c. c \<noteq> CHR ''_'') name) of None \<Rightarrow> 0 | Some v \<Rightarrow> v)"

text \<open>The files the program embeds, in the order in which the directory is read.\<close>

definition migrationsFS :: "string list" where
  "migrationsFS = [''001_initial.sql'', ''002_compose_spec_snapshot.sql'', ''003_image_policies.sql'', ''004_docker_hosts.sql'',
     ''005_app_source.sql'', ''006_purge_compose_snapshots.sql'', ''007_health_observation_time.sql'', ''008_events_activity_index.sql'']"

section \<open>The engine\<close>

record Engine =
  en_Open :: "string \<Rightarrow> err option"
  en_Ping :: "err option"
  en_CreateLedger :: "err option"
  en_MaxVersion :: "err option"
  en_ReadDir :: "string list result"
  en_ReadFile :: "string \<Rightarrow> string result"
  en_Begin :: "int \<Rightarrow> err option"
  en_Exec :: "int \<Rightarrow> err option"
  en_Insert :: "int \<Rightarrow> err option"
  en_Commit :: "int \<Rightarrow> err option"

text \<open>The ledger's rows in the order of their insertion, each with the script that ran in its transaction.\<close>

type_synonym Ledger = "(int \<times> string) list"

definition getCurrentVersion :: "Engine \<Rightarrow> Ledger \<Rightarrow> int" where
  "getCurrentVersion en l = (case en_MaxVersion en of Some e \<Rightarrow> 0 | None \<Rightarrow> fold max (map fst l) 0)"

definition runMigration :: "Engine \<Rightarrow> string \<Rightarrow> int \<Rightarrow> Ledger \<Rightarrow> err option \<times> Ledger" where
  "runMigration en name version l =
     (case en_ReadFile en (''migrations/'' @ name) of
        Inl e \<Rightarrow> (Some (Wrapf ''reading migration %s: %w'' [name] e), l)
      | Inr script \<Rightarrow>
          (case en_Begin en version of
             Some e \<Rightarrow> (Some (Wrapf ''beginning transaction for migration %d: %w'' [] e), l)
           | None \<Rightarrow>
               (case en_Exec en version of
                  Some e \<Rightarrow> (Some (Wrapf ''executing migration %d: %w'' [] e), l)
                | None \<Rightarrow>
                    if version \<in> fst ` set l then (Some (Wrapf ''recording migration %d: %w'' [] (Errorf ''UNIQUE constraint failed'' [])), l)
                    else case en_Insert en version of
                      Some e \<Rightarrow> (Some (Wrapf ''recording migration %d: %w'' [] e), l)
                    | None \<Rightarrow>
                        (case en_Commit en version of
                           Some e \<Rightarrow> (Some (Wrapf ''committing migration %d: %w'' [] e), l)
                         | None \<Rightarrow> (None, l @ [(version, script)])))))"

fun applyMigrations :: "Engine \<Rightarrow> int \<Rightarrow> string list \<Rightarrow> Ledger \<Rightarrow> err option \<times> Ledger" where
  "applyMigrations en currentVersion [] l = (None, l)"
| "applyMigrations en currentVersion (name # names) l =
     (let version = parseVersion name
      in if version \<le> currentVersion then applyMigrations en currentVersion names l
         else case runMigration en name version l of
           (Some e, l) \<Rightarrow> (Some e, l)
         | (None, l) \<Rightarrow> applyMigrations en currentVersion names l)"

definition migrate :: "Engine \<Rightarrow> Ledger \<Rightarrow> err option \<times> Ledger" where
  "migrate en l =
     (case en_CreateLedger en of
        Some e \<Rightarrow> (Some (Wrapf ''creating migrations table: %w'' [] e), l)
      | None \<Rightarrow>
          (let currentVersion = getCurrentVersion en l
           in case en_ReadDir en of
                Inl e \<Rightarrow> (Some (Wrapf ''reading migrations dir: %w'' [] e), l)
              | Inr entries \<Rightarrow> applyMigrations en currentVersion entries l))"

definition dataSource :: "string \<Rightarrow> string" where
  "dataSource dataDir =
     (if dataDir = '':memory:'' then '':memory:?_pragma=journal_mode(wal)&_pragma=foreign_keys(1)''
      else filepath_Join dataDir ''dockercd.db'' @ ''?_pragma=journal_mode(wal)&_pragma=foreign_keys(1)&_pragma=busy_timeout(5000)'')"

text \<open>\<^verbatim>\<open>store.New\<close>: the error, or the ledger of the opened store.\<close>

definition store_New :: "Engine \<Rightarrow> string \<Rightarrow> Ledger \<Rightarrow> err option \<times> Ledger" where
  "store_New en dataDir l =
     (case en_Open en (dataSource dataDir) of
        Some e \<Rightarrow> (Some (Wrapf ''opening database: %w'' [] e), l)
      | None \<Rightarrow>
          (case en_Ping en of
             Some e \<Rightarrow> (Some (Wrapf ''pinging database: %w'' [] e), l)
           | None \<Rightarrow>
               (case migrate en l of
                  (Some e, l) \<Rightarrow> (Some (Wrapf ''running migrations: %w'' [] e), l)
                | (None, l) \<Rightarrow> (None, l))))"

section \<open>The ledger of the embedded files\<close>

text \<open>A ledger of the embedded migrations: the first \<open>k\<close> versions in order, each with the script of its file.\<close>

definition ledgerUpTo :: "(string \<Rightarrow> string) \<Rightarrow> nat \<Rightarrow> Ledger" where
  "ledgerUpTo script k = take k (map (\<lambda>name. (parseVersion name, script (''migrations/'' @ name))) migrationsFS)"

lemma versions: "map parseVersion migrationsFS = [1, 2, 3, 4, 5, 6, 7, 8]"
  by code_simp

lemma length_migrationsFS [simp]: "length migrationsFS = 8"
  by (simp add: migrationsFS_def)

lemma version_at: "k < 8 \<Longrightarrow> parseVersion (migrationsFS ! k) = int k + 1"
proof -
  assume k: "k < 8"
  then have "parseVersion (migrationsFS ! k) = [1, 2, 3, 4, 5, 6, 7, 8] ! k" by (metis versions nth_map length_migrationsFS)
  with k show ?thesis by (auto simp: less_Suc_eq numeral_eq_Suc)
qed

lemma fst_ledger: "map fst (ledgerUpTo script k) = take k [1, 2, 3, 4, 5, 6, 7, 8]"
  by (simp add: ledgerUpTo_def take_map o_def flip: versions)

lemma ledger_snoc: "k < 8 \<Longrightarrow> ledgerUpTo script (Suc k) = ledgerUpTo script k @ [(int k + 1, script (''migrations/'' @ migrationsFS ! k))]"
  using version_at [of k] by (simp add: ledgerUpTo_def take_Suc_conv_app_nth)

text \<open>The files are part of the program: reading one may fail but never gives anything else.\<close>

definition embeds :: "(string \<Rightarrow> string) \<Rightarrow> Engine \<Rightarrow> bool" where
  "embeds script en = (en_ReadDir en = Inr migrationsFS \<and> (\<forall>p s. en_ReadFile en p = Inr s \<longrightarrow> s = script p))"

lemma runMigration_ledger:
  assumes "embeds script en" "k < 8" "runMigration en (migrationsFS ! k) (int k + 1) (ledgerUpTo script k) = (e, l')"
  shows "(e = None \<longrightarrow> l' = ledgerUpTo script (Suc k)) \<and> (e \<noteq> None \<longrightarrow> l' = ledgerUpTo script k)"
  using assms by (auto simp: runMigration_def embeds_def ledger_snoc split: sum.splits option.splits if_splits)

lemma applyMigrations_ledger:
  assumes "embeds script en" "j \<le> 8" "v \<le> int j" "applyMigrations en v (drop j migrationsFS) (ledgerUpTo script j) = (e, l')"
  shows "\<exists>k. j \<le> k \<and> k \<le> 8 \<and> l' = ledgerUpTo script k \<and> (e = None \<longrightarrow> k = 8)"
  using assms(2-)
proof (induction "8 - j" arbitrary: j)
  case 0
  then show ?case by auto
next
  case (Suc n)
  then have j: "j < 8" by simp
  then have drop: "drop j migrationsFS = migrationsFS ! j # drop (Suc j) migrationsFS" by (simp add: Cons_nth_drop_Suc)
  obtain e1 l1 where run: "runMigration en (migrationsFS ! j) (int j + 1) (ledgerUpTo script j) = (e1, l1)" by fastforce
  note outcome = runMigration_ledger [OF assms(1) j run]
  show ?case
  proof (cases e1)
    case None
    then have "applyMigrations en v (drop (Suc j) migrationsFS) (ledgerUpTo script (Suc j)) = (e, l')"
      using Suc.prems outcome run j by (simp add: drop version_at)
    moreover have "n = 8 - Suc j" "v \<le> int (Suc j)" using Suc.hyps(2) Suc.prems(2) by simp_all
    ultimately obtain k where "Suc j \<le> k" "k \<le> 8" "l' = ledgerUpTo script k" "e = None \<longrightarrow> k = 8"
      using Suc.hyps(1) [of "Suc j"] j by auto
    then show ?thesis by (intro exI [of _ k]) simp
  next
    case (Some x)
    then show ?thesis using Suc.prems outcome run j by (auto simp: drop version_at)
  qed
qed

lemma applyMigrations_skip:
  "j \<le> k \<Longrightarrow> k \<le> 8 \<Longrightarrow> applyMigrations en (int k) (drop j migrationsFS) l = applyMigrations en (int k) (drop k migrationsFS) l"
proof (induction "k - j" arbitrary: j)
  case (Suc n)
  then have j: "j < k" "j < 8" by simp_all
  then have "drop j migrationsFS = migrationsFS ! j # drop (Suc j) migrationsFS" by (simp add: Cons_nth_drop_Suc)
  then show ?case using Suc j by (simp add: version_at)
qed simp

lemma maximum_prefix: "k \<le> 8 \<Longrightarrow> fold max (map fst (ledgerUpTo script k)) 0 = int k"
proof -
  assume "k \<le> 8"
  then have "k \<in> {0, 1, 2, 3, 4, 5, 6, 7, 8}" by auto
  then show ?thesis by (auto simp: fst_ledger)
qed

lemma repeated_first:
  assumes "embeds script en" "0 < k" "applyMigrations en 0 migrationsFS (ledgerUpTo script k) = (e, l')"
  shows "e \<noteq> None \<and> l' = ledgerUpTo script k"
proof -
  have "1 \<in> fst ` set (ledgerUpTo script k)"
    using assms(2) by (simp flip: set_map add: fst_ledger) (cases k; simp)
  moreover have "applyMigrations en 0 (migrationsFS ! 0 # drop (Suc 0) migrationsFS) (ledgerUpTo script k) = (e, l')"
    using assms(3) by (simp add: Cons_nth_drop_Suc)
  ultimately show ?thesis
    using version_at [of 0] by (auto simp: runMigration_def Let_def split: sum.splits option.splits)
qed

lemma migrate_ledger:
  assumes "embeds script en" "k \<le> 8" "migrate en (ledgerUpTo script k) = (e, l')"
  shows "\<exists>k'. k \<le> k' \<and> k' \<le> 8 \<and> l' = ledgerUpTo script k' \<and> (e = None \<longrightarrow> k' = 8)"
proof (cases "en_CreateLedger en")
  case (Some x)
  then show ?thesis using assms by (auto simp: migrate_def)
next
  case None
  let ?v = "getCurrentVersion en (ledgerUpTo script k)"
  have steps: "applyMigrations en ?v migrationsFS (ledgerUpTo script k) = (e, l')"
    using assms None by (simp add: migrate_def embeds_def Let_def)
  show ?thesis
  proof (cases "en_MaxVersion en = None \<or> k = 0")
    case True
    then have v: "?v = int k" using assms(2) maximum_prefix [OF assms(2)] by (auto simp: getCurrentVersion_def split: option.split)
    have "applyMigrations en (int k) (drop k migrationsFS) (ledgerUpTo script k) = (e, l')"
      using steps applyMigrations_skip [of 0 k en] assms(2) by (simp add: v)
    then show ?thesis using applyMigrations_ledger [OF assms(1,2), of "int k"] by simp
  next
    case False
    then have "?v = 0" by (auto simp: getCurrentVersion_def)
    then show ?thesis using repeated_first [OF assms(1), of k e l'] steps False assms(2) by auto
  qed
qed

section \<open>Upgrades\<close>

fun openRuns :: "(Engine \<times> string) list \<Rightarrow> Ledger \<Rightarrow> Ledger" where
  "openRuns [] l = l"
| "openRuns ((en, dataDir) # runs) l = openRuns runs (snd (store_New en dataDir l))"

lemma store_New_ledger:
  assumes "embeds script en" "k \<le> 8" "store_New en dataDir (ledgerUpTo script k) = (e, l')"
  shows "\<exists>k'. k \<le> k' \<and> k' \<le> 8 \<and> l' = ledgerUpTo script k' \<and> (e = None \<longrightarrow> k' = 8)"
  using assms by (auto simp: store_New_def split: option.splits prod.splits dest!: migrate_ledger)

lemma openRuns_ledger:
  assumes "\<forall>(en, dataDir)\<in>set runs. embeds script en" "k \<le> 8"
  shows "\<exists>k'. k \<le> k' \<and> k' \<le> 8 \<and> openRuns runs (ledgerUpTo script k) = ledgerUpTo script k'"
  using assms
proof (induction runs arbitrary: k)
  case (Cons run runs)
  obtain en dataDir where run: "run = (en, dataDir)" by fastforce
  obtain e l' where new: "store_New en dataDir (ledgerUpTo script k) = (e, l')" by fastforce
  with Cons.prems run obtain k1 where "k \<le> k1" "k1 \<le> 8" "l' = ledgerUpTo script k1"
    using store_New_ledger [of script en k dataDir e l'] by auto
  moreover from this(2) obtain k' where "k1 \<le> k'" "k' \<le> 8" "openRuns runs (ledgerUpTo script k1) = ledgerUpTo script k'"
    using Cons.IH [of k1] Cons.prems(1) by auto
  ultimately show ?case using run new by (intro exI [of _ k']) simp
qed auto

definition healthyEngine :: "(string \<Rightarrow> string) \<Rightarrow> Engine \<Rightarrow> bool" where
  "healthyEngine script en =
     ((\<forall>d. en_Open en d = None) \<and> en_Ping en = None \<and> en_CreateLedger en = None \<and> en_MaxVersion en = None
      \<and> (\<forall>p. en_ReadFile en p = Inr (script p)) \<and> (\<forall>v. en_Begin en v = None \<and> en_Exec en v = None \<and> en_Insert en v = None \<and> en_Commit en v = None))"

lemma ledger_next: "k < 8 \<Longrightarrow> int k + 1 \<notin> fst ` set (ledgerUpTo script k)"
proof -
  assume "k < 8"
  then have "k \<in> {0, 1, 2, 3, 4, 5, 6, 7}" by auto
  then show ?thesis by (auto simp flip: set_map simp: fst_ledger)
qed

lemma healthy_applies:
  assumes "healthyEngine script en" "j \<le> 8" "v \<le> int j"
  shows "fst (applyMigrations en v (drop j migrationsFS) (ledgerUpTo script j)) = None"
  using assms(2-)
proof (induction "8 - j" arbitrary: j)
  case (Suc n)
  then have j: "j < 8" by simp
  then have "drop j migrationsFS = migrationsFS ! j # drop (Suc j) migrationsFS" by (simp add: Cons_nth_drop_Suc)
  moreover have "runMigration en (migrationsFS ! j) (int j + 1) (ledgerUpTo script j) = (None, ledgerUpTo script (Suc j))"
    using assms(1) ledger_next [OF j] j by (simp add: runMigration_def healthyEngine_def ledger_snoc)
  ultimately show ?case using Suc j by (simp add: version_at)
qed simp

lemma healthy_opens:
  assumes "embeds script en" "healthyEngine script en" "k \<le> 8"
  shows "fst (store_New en dataDir (ledgerUpTo script k)) = None"
proof -
  have "getCurrentVersion en (ledgerUpTo script k) = int k"
    using assms maximum_prefix [of k script] by (simp add: getCurrentVersion_def healthyEngine_def)
  moreover have "fst (applyMigrations en (int k) migrationsFS (ledgerUpTo script k)) = None"
    using healthy_applies [OF assms(2,3), of "int k"] applyMigrations_skip [of 0 k en] assms(3) by simp
  ultimately show ?thesis
    using assms(1,2) by (auto simp: store_New_def migrate_def embeds_def healthyEngine_def Let_def split: prod.splits option.splits)
qed

text \<open>
  C14: Upgrades of the database. However often and wherever opening a new database was interrupted, the ledger holds the first
  migrations in order, each once and with the script of its file; an opening that succeeds after that has applied all
  eight, and opening succeeds when no statement fails.
\<close>

theorem migrations_resume:
  assumes "\<forall>(en, dataDir)\<in>set runs. embeds script en" "embeds script en"
  shows "\<exists>k\<le>8. openRuns runs [] = ledgerUpTo script k
    \<and> (\<forall>e l. store_New en dataDir (openRuns runs []) = (e, l) \<longrightarrow>
         (\<exists>k'. k \<le> k' \<and> k' \<le> 8 \<and> l = ledgerUpTo script k' \<and> (e = None \<longrightarrow> map fst l = [1, 2, 3, 4, 5, 6, 7, 8])))
    \<and> (healthyEngine script en \<longrightarrow> fst (store_New en dataDir (openRuns runs [])) = None)"
proof -
  have "openRuns runs [] = openRuns runs (ledgerUpTo script 0)" by (simp add: ledgerUpTo_def)
  then obtain k where k: "k \<le> 8" "openRuns runs [] = ledgerUpTo script k"
    using openRuns_ledger [OF assms(1), of 0] by auto
  have "\<exists>k'. k \<le> k' \<and> k' \<le> 8 \<and> l = ledgerUpTo script k' \<and> (e = None \<longrightarrow> map fst l = [1, 2, 3, 4, 5, 6, 7, 8])"
    if "store_New en dataDir (ledgerUpTo script k) = (e, l)" for e l
    using store_New_ledger [OF assms(2) k(1) that] by (auto simp: fst_ledger)
  moreover have "fst (store_New en dataDir (ledgerUpTo script k)) = None" if "healthyEngine script en"
    using healthy_opens [OF assms(2) that k(1)] .
  ultimately show ?thesis using k by (intro exI [of _ k]) simp
qed

definition demoEngine :: Engine where
  "demoEngine = \<lparr>en_Open = (\<lambda>d. None), en_Ping = None, en_CreateLedger = None, en_MaxVersion = None, en_ReadDir = Inr migrationsFS,
     en_ReadFile = (\<lambda>p. Inr p), en_Begin = (\<lambda>v. None), en_Exec = (\<lambda>v. if v = 4 then Some (Errorf ''disk full'' []) else None),
     en_Insert = (\<lambda>v. None), en_Commit = (\<lambda>v. None)\<rparr>"

theorem migrations_resume_witness:
  "\<exists>k\<le>8. openRuns [(demoEngine, ''/data''), (demoEngine\<lparr>en_MaxVersion := Some (Errorf ''busy'' [])\<rparr>, ''/data'')] [] = ledgerUpTo (\<lambda>p. p) k
     \<and> fst (store_New (demoEngine\<lparr>en_Exec := (\<lambda>v. None)\<rparr>) ''/data'' (ledgerUpTo (\<lambda>p. p) k)) = None"
proof -
  let ?runs = "[(demoEngine, ''/data''), (demoEngine\<lparr>en_MaxVersion := Some (Errorf ''busy'' [])\<rparr>, ''/data'')]"
  have runs: "\<forall>(en, dataDir)\<in>set ?runs. embeds (\<lambda>p. p) en" and en: "embeds (\<lambda>p. p) (demoEngine\<lparr>en_Exec := (\<lambda>v. None)\<rparr>)"
    "healthyEngine (\<lambda>p. p) (demoEngine\<lparr>en_Exec := (\<lambda>v. None)\<rparr>)"
    by (simp_all add: embeds_def demoEngine_def healthyEngine_def)
  show ?thesis using migrations_resume [OF runs en(1), of "''/data''"] en(2) by auto
qed

end
