(* ===== verification/RecoveryDrill.thy ===== *)
theory RecoveryDrill
  imports Migrations
begin

text \<open>
  The verifier of recovery drills (\<^verbatim>\<open>src/src/cmd/recovery-drill-verify/main.go\<close>): it accepts a stopped state database as evidence of a drill,
  writes a digest-only baseline of it, and compares a restored database with such a baseline.

  Parameters are SHA-256 (as hexadecimal text), the file system, one view of it per access so that it may change between
  two, what SQLite reads from the file, and the JSON encoding of a baseline. A statement that fails is named by the snapshot.
\<close>

section \<open>Data\<close>

record verificationReport =
  vr_IntegrityOK :: bool
  vr_SchemaVersion :: int
  vr_ApplicationPresent :: bool
  vr_LastSuccessfulIsA :: bool
  vr_ManualASuccess :: bool
  vr_ManualBSuccess :: bool
  vr_RollbackASuccess :: bool
  vr_UnknownRollbackFailed :: bool
  vr_SnapshotUnchanged :: bool
  vr_RestoreBaselineMatches :: "bool option"

record expectation =
  ex_databasePath :: string
  ex_application :: string
  ex_shaA :: string
  ex_shaB :: string
  ex_unknownSHA :: string
  ex_baselineOut :: string
  ex_baselineIn :: string

record historyFingerprint =
  hf_ID :: string
  hf_Digest :: string
  hf_operation :: string
  hf_result :: string

record restoreBaseline =
  rb_Version :: int
  rb_Application :: string
  rb_ApplicationConfigDigest :: string
  rb_Records :: "historyFingerprint list"

definition currentSchemaVersion :: int where "currentSchemaVersion = 8"
definition maxSnapshotBytes :: int where "maxSnapshotBytes = 134217728"
definition maxBaselineRecords :: nat where "maxBaselineRecords = 128"
definition maxBaselineBytes :: int where "maxBaselineBytes = 1048576"

text \<open>The file system: a path is missing, cannot be examined, or is a regular or other file of a size; what opening and reading it gives.\<close>

datatype lstat = Missing | Unreadable | Stat bool int

record FS =
  fs_Lstat :: "string \<Rightarrow> lstat"
  fs_Read :: "string \<Rightarrow> string result"

text \<open>
  The rows a query sees: the columns of \<^verbatim>\<open>sync_history\<close> that are compared, and the quoted texts of its eleven
  fingerprinted columns.
\<close>

record AppRow =
  aw_Name :: string
  aw_Manifest :: string
  aw_Source :: string
  aw_LastSyncedSHA :: "string option"

record HistoryRow =
  hw_ID :: string
  hw_AppName :: string
  hw_Operation :: string
  hw_Result :: string
  hw_CommitSHA :: string
  hw_Quoted :: "string list"

record Snapshot =
  sn_integrity :: string
  sn_ledger :: "int list"
  sn_apps :: "AppRow list"
  sn_history :: "HistoryRow list"
  sn_fails :: "string \<Rightarrow> bool"

record Host =
  ho_sha :: "string \<Rightarrow> string"
  ho_Abs :: "string \<Rightarrow> string result"
  ho_Open :: "string \<Rightarrow> Snapshot result"

section \<open>Paths and revisions\<close>

definition lowerHex :: "char \<Rightarrow> bool" where
  "lowerHex c = (isDigit c \<or> (CHR ''a'' \<le> c \<and> c \<le> CHR ''f''))"

definition fullCommitSHA :: "string \<Rightarrow> bool" where
  "fullCommitSHA s = (list_all lowerHex s \<and> (length s = 40 \<or> length s = 64))"

definition digestString :: "string \<Rightarrow> bool" where
  "digestString s = (list_all lowerHex s \<and> length s = 64)"

text \<open>\<^verbatim>\<open>filepath.Base\<close>.\<close>

definition filepath_Base :: "string \<Rightarrow> string" where
  "filepath_Base path =
     (if path = [] then ''.''
      else let p = rev (dropWhile (\<lambda>c. c = CHR ''/'') (rev path))
           in if p = [] then ''/'' else rev (takeWhile (\<lambda>c. c \<noteq> CHR ''/'') (rev p)))"

definition regularWithin :: "lstat \<Rightarrow> int \<Rightarrow> bool" where
  "regularWithin st limit = (case st of Stat regular bytes \<Rightarrow> regular \<and> bytes \<le> limit | _ \<Rightarrow> False)"

fun sidecarsAbsent :: "FS \<Rightarrow> string \<Rightarrow> string list \<Rightarrow> err option" where
  "sidecarsAbsent fs path [] = None"
| "sidecarsAbsent fs path (suffix # suffixes) =
     (case fs_Lstat fs (path @ suffix) of
        Stat regular bytes \<Rightarrow> Some (Errorf ''snapshot has an unexpected SQLite WAL sidecar'' [])
      | Unreadable \<Rightarrow> Some (Errorf ''checking SQLite snapshot sidecars'' [])
      | Missing \<Rightarrow> sidecarsAbsent fs path suffixes)"

definition snapshotSidecarsAbsent :: "FS \<Rightarrow> string \<Rightarrow> err option" where
  "snapshotSidecarsAbsent fs path = sidecarsAbsent fs path [''-wal'', ''-shm'']"

definition fileDigest :: "Host \<Rightarrow> FS \<Rightarrow> string \<Rightarrow> string result" where
  "fileDigest ho fs path =
     (case fs_Read fs path of
        Inl e \<Rightarrow> Inl e
      | Inr content \<Rightarrow>
          if int (length content) > maxSnapshotBytes then Inl (Errorf ''database digest exceeds allowed size'' []) else Inr (ho_sha ho content))"

definition openReadonlySnapshot :: "Host \<Rightarrow> FS \<Rightarrow> string \<Rightarrow> Snapshot result" where
  "openReadonlySnapshot ho fs databasePath =
     (case ho_Abs ho databasePath of
        Inl e \<Rightarrow> Inl e
      | Inr absolutePath \<Rightarrow>
          if \<not> regularWithin (fs_Lstat fs absolutePath) maxSnapshotBytes then Inl (Errorf ''database is not a readable regular file'' [])
          else case snapshotSidecarsAbsent fs absolutePath of Some e \<Rightarrow> Inl e | None \<Rightarrow> ho_Open ho absolutePath)"

section \<open>Queries\<close>

fun ledgerFrom :: "int \<Rightarrow> int list \<Rightarrow> int option" where
  "ledgerFrom version [] = Some version"
| "ledgerFrom version (actual # rows) = (if actual \<noteq> version then None else ledgerFrom (version + 1) rows)"

definition completeSchemaVersion :: "Snapshot \<Rightarrow> int result" where
  "completeSchemaVersion db =
     (if sn_fails db ''ledger'' then Inl (Errorf ''query'' [])
      else case ledgerFrom 1 (sort (sn_ledger db)) of
        None \<Rightarrow> Inl (Errorf ''incomplete schema migration ledger'' [])
      | Some version \<Rightarrow> if version \<noteq> currentSchemaVersion + 1 then Inl (Errorf ''incomplete schema migration ledger'' []) else Inr currentSchemaVersion)"

definition countRecords :: "Snapshot \<Rightarrow> string \<Rightarrow> string \<Rightarrow> string \<Rightarrow> string \<Rightarrow> nat" where
  "countRecords db application operation result sha =
     length (filter (\<lambda>r. hw_AppName r = application \<and> hw_Operation r = operation \<and> hw_Result r = result \<and> hw_CommitSHA r = sha) (sn_history db))"

text \<open>The name of one count among the statements that may fail.\<close>

definition countQuery :: "string \<Rightarrow> string \<Rightarrow> string \<Rightarrow> string" where
  "countQuery operation result sha = ''count '' @ operation @ '' '' @ result @ '' '' @ sha"

definition hasExactlyOneRecord :: "Snapshot \<Rightarrow> string \<Rightarrow> string \<Rightarrow> string \<Rightarrow> string \<Rightarrow> bool result" where
  "hasExactlyOneRecord db application operation result sha =
     (if sn_fails db (countQuery operation result sha) then Inl (Errorf ''reading recovery history'' []) else Inr (countRecords db application operation result sha = 1))"

definition findApp :: "Snapshot \<Rightarrow> string \<Rightarrow> AppRow option" where
  "findApp db application = find (\<lambda>r. aw_Name r = application) (sn_apps db)"

section \<open>Verification\<close>

definition checkExpectation :: "expectation \<Rightarrow> err option" where
  "checkExpectation e =
     (if ex_databasePath e = [] \<or> ex_application e = [] \<or> ex_shaA e = [] \<or> ex_shaB e = [] \<or> ex_unknownSHA e = []
      then Some (Errorf ''database, application, sha-a, sha-b, and unknown-sha are required'' [])
      else if \<not> fullCommitSHA (ex_shaA e) \<or> \<not> fullCommitSHA (ex_shaB e) \<or> \<not> fullCommitSHA (ex_unknownSHA e)
      then Some (Errorf ''revisions must be distinct full lowercase commit SHAs'' [])
      else if ex_shaA e = ex_shaB e \<or> ex_shaA e = ex_unknownSHA e \<or> ex_shaB e = ex_unknownSHA e
      then Some (Errorf ''revisions must be distinct full lowercase commit SHAs'' [])
      else if filepath_Base (ex_databasePath e) \<noteq> ''dockercd.db'' then Some (Errorf ''database must be named dockercd.db'' [])
      else None)"

text \<open>What is read from the opened database, up to the report without its last field.\<close>

definition checkHistory :: "expectation \<Rightarrow> Snapshot \<Rightarrow> verificationReport \<Rightarrow> verificationReport result" where
  "checkHistory e db report =
     (case hasExactlyOneRecord db (ex_application e) ''manual'' ''success'' (ex_shaA e) of
        Inl err \<Rightarrow> Inl err
      | Inr manualA \<Rightarrow>
          (case hasExactlyOneRecord db (ex_application e) ''manual'' ''success'' (ex_shaB e) of
             Inl err \<Rightarrow> Inl err
           | Inr manualB \<Rightarrow>
               (case hasExactlyOneRecord db (ex_application e) ''rollback'' ''success'' (ex_shaA e) of
                  Inl err \<Rightarrow> Inl err
                | Inr rollbackA \<Rightarrow>
                    (case hasExactlyOneRecord db (ex_application e) ''rollback'' ''failure'' (ex_unknownSHA e) of
                       Inl err \<Rightarrow> Inl err
                     | Inr unknownFailed \<Rightarrow>
                         if \<not> manualA \<or> \<not> manualB \<or> \<not> rollbackA \<or> \<not> unknownFailed
                         then Inl (Errorf ''required recovery history record is missing or duplicated'' [])
                         else Inr (report\<lparr>vr_ManualASuccess := manualA, vr_ManualBSuccess := manualB, vr_RollbackASuccess := rollbackA,
                           vr_UnknownRollbackFailed := unknownFailed\<rparr>)))))"

definition checkDatabase :: "expectation \<Rightarrow> Snapshot \<Rightarrow> verificationReport result" where
  "checkDatabase e db =
     (if sn_fails db ''integrity'' \<or> sn_integrity db \<noteq> ''ok'' then Inl (Errorf ''SQLite integrity check did not return ok'' [])
      else case completeSchemaVersion db of
        Inl err \<Rightarrow> Inl (Errorf ''reading schema version'' [])
      | Inr schemaVersion \<Rightarrow>
          if sn_fails db ''application'' then Inl (Errorf ''reading disposable application'' [])
          else case findApp db (ex_application e) of
            None \<Rightarrow> Inl (Errorf ''disposable application is absent'' [])
          | Some row \<Rightarrow>
              if aw_LastSyncedSHA row \<noteq> Some (ex_shaA e) then Inl (Errorf ''last successful revision is not commit A'' [])
              else checkHistory e db \<lparr>vr_IntegrityOK = True, vr_SchemaVersion = schemaVersion, vr_ApplicationPresent = True, vr_LastSuccessfulIsA = True,
                vr_ManualASuccess = False, vr_ManualBSuccess = False, vr_RollbackASuccess = False, vr_UnknownRollbackFailed = False,
                vr_SnapshotUnchanged = False, vr_RestoreBaselineMatches = None\<rparr>)"

text \<open>The views of the file system, in the order of the accesses.\<close>

definition verifyWithContext :: "Host \<Rightarrow> (nat \<Rightarrow> FS) \<Rightarrow> expectation \<Rightarrow> verificationReport result" where
  "verifyWithContext ho fs e =
     (case checkExpectation e of
        Some err \<Rightarrow> Inl err
      | None \<Rightarrow>
          (case ho_Abs ho (ex_databasePath e) of
             Inl err \<Rightarrow> Inl (Errorf ''resolving database path'' [])
           | Inr absolutePath \<Rightarrow>
               if \<not> regularWithin (fs_Lstat (fs 0) absolutePath) maxSnapshotBytes then Inl (Errorf ''database is not a readable regular file'' [])
               else case fileDigest ho (fs 1) absolutePath of
                 Inl err \<Rightarrow> Inl (Errorf ''hashing database before verification'' [])
               | Inr beforeDigest \<Rightarrow>
                   (case snapshotSidecarsAbsent (fs 2) absolutePath of
                      Some err \<Rightarrow> Inl err
                    | None \<Rightarrow>
                        (case openReadonlySnapshot ho (fs 3) absolutePath of
                           Inl err \<Rightarrow> Inl (Errorf ''opening readonly database'' [])
                         | Inr db \<Rightarrow>
                             (case checkDatabase e db of
                                Inl err \<Rightarrow> Inl err
                              | Inr report \<Rightarrow>
                                  if sn_fails db ''close'' then Inl (Errorf ''closing readonly database'' [])
                                  else if fileDigest ho (fs 4) absolutePath \<noteq> Inr beforeDigest \<or> snapshotSidecarsAbsent (fs 5) absolutePath \<noteq> None
                                  then Inl (Errorf ''database changed during verification'' [])
                                  else Inr (report\<lparr>vr_SnapshotUnchanged := True\<rparr>))))))"

section \<open>Baselines\<close>

definition encodeField :: "string \<Rightarrow> string" where
  "encodeField field = Itoa (length field) @ '':'' @ field @ [CHR 0x0A]"

definition digestFields :: "Host \<Rightarrow> string list \<Rightarrow> string" where
  "digestFields ho columns = ho_sha ho (concat (map encodeField columns))"

fun fingerprints :: "Host \<Rightarrow> HistoryRow list \<Rightarrow> historyFingerprint list \<Rightarrow> historyFingerprint list result" where
  "fingerprints ho [] records = Inr records"
| "fingerprints ho (row # rows) records =
     (if hw_ID row = [] then Inl (Errorf ''recovery history has an empty identifier'' [])
      else if hw_ID row \<in> hf_ID ` set records then Inl (Errorf ''recovery history has duplicate identifiers'' [])
      else
        let records = records @ [\<lparr>hf_ID = hw_ID row, hf_Digest = digestFields ho (hw_Quoted row), hf_operation = hw_Operation row, hf_result = hw_Result row\<rparr>]
        in if length records > maxBaselineRecords then Inl (Errorf ''recovery history exceeds baseline limit'' [])
           else fingerprints ho rows records)"

definition rowsOf :: "Snapshot \<Rightarrow> string \<Rightarrow> HistoryRow list" where
  "rowsOf db application = filter (\<lambda>r. hw_AppName r = application) (sn_history db)"

definition readBaselineFromDB :: "Host \<Rightarrow> Snapshot \<Rightarrow> string \<Rightarrow> restoreBaseline result" where
  "readBaselineFromDB ho db application =
     (if sn_fails db ''configuration'' then Inl (Errorf ''reading application configuration'' [])
      else case findApp db application of
        None \<Rightarrow> Inl (Errorf ''disposable application is absent'' [])
      | Some row \<Rightarrow>
          if sn_fails db ''history'' then Inl (Errorf ''reading recovery history'' [])
          else case fingerprints ho (take (maxBaselineRecords + 1) (rowsOf db application)) [] of
            Inl e \<Rightarrow> Inl e
          | Inr records \<Rightarrow> Inr \<lparr>rb_Version = 1, rb_Application = application,
              rb_ApplicationConfigDigest = digestFields ho [aw_Manifest row, aw_Source row], rb_Records = sort_key hf_ID records\<rparr>)"

definition baselineForSnapshot :: "Host \<Rightarrow> FS \<Rightarrow> expectation \<Rightarrow> restoreBaseline result" where
  "baselineForSnapshot ho fs e =
     (case openReadonlySnapshot ho fs (ex_databasePath e) of Inl err \<Rightarrow> Inl err | Inr db \<Rightarrow> readBaselineFromDB ho db (ex_application e))"

text \<open>The loop over the current records, with the records still expected.\<close>

fun compareRecords :: "string gomap \<Rightarrow> historyFingerprint list \<Rightarrow> string gomap result" where
  "compareRecords expected [] = Inr expected"
| "compareRecords expected (record # records) =
     (case map_of expected (hf_ID record) of
        Some expectedDigest \<Rightarrow>
          if hf_Digest record \<noteq> expectedDigest then Inl (Errorf ''restored history record differs from snapshot'' [])
          else compareRecords (AList.delete (hf_ID record) expected) records
      | None \<Rightarrow>
          if hf_operation record \<noteq> ''poll'' \<or> hf_result record \<noteq> ''skipped'' then Inl (Errorf ''restored history contains an unexpected record'' [])
          else compareRecords expected records)"

definition compareCurrent :: "restoreBaseline \<Rightarrow> restoreBaseline \<Rightarrow> err option" where
  "compareCurrent current baseline =
     (if rb_ApplicationConfigDigest current \<noteq> rb_ApplicationConfigDigest baseline
      then Some (Errorf ''restored application configuration differs from snapshot'' [])
      else case compareRecords (fold (\<lambda>r m. AList.update (hf_ID r) (hf_Digest r) m) (rb_Records baseline) []) (rb_Records current) of
        Inl e \<Rightarrow> Some e
      | Inr expected \<Rightarrow> if length expected \<noteq> 0 then Some (Errorf ''restored history is missing a snapshot record'' []) else None)"

definition compareBaseline :: "Host \<Rightarrow> FS \<Rightarrow> expectation \<Rightarrow> restoreBaseline \<Rightarrow> err option" where
  "compareBaseline ho fs e baseline =
     (case baselineForSnapshot ho fs e of Inl err \<Rightarrow> Some err | Inr current \<Rightarrow> compareCurrent current baseline)"

text \<open>The private file: creation fails for a path that exists, and only exported fields are in the JSON text.\<close>

record BaselineFiles =
  bf_Create :: "string \<Rightarrow> err option"
  bf_Encode :: "restoreBaseline \<Rightarrow> string result"
  bf_Decode :: "string \<Rightarrow> (restoreBaseline \<times> JSONRest) result"

definition writeBaseline :: "BaselineFiles \<Rightarrow> string \<Rightarrow> restoreBaseline \<Rightarrow> string result" where
  "writeBaseline bf path baseline =
     (if path = [] \<or> filepath_Base path = ''.'' \<or> filepath_Base path = ''/'' then Inl (Errorf ''baseline path is invalid'' [])
      else case bf_Create bf path of
        Some e \<Rightarrow> Inl (Errorf ''creating private baseline file'' [])
      | None \<Rightarrow> (case bf_Encode bf baseline of Inl e \<Rightarrow> Inl (Errorf ''encoding private baseline file'' []) | Inr text \<Rightarrow> Inr text))"

definition validBaseline :: "restoreBaseline \<Rightarrow> string \<Rightarrow> bool" where
  "validBaseline baseline application =
     (rb_Version baseline = 1 \<and> rb_Application baseline = application \<and> digestString (rb_ApplicationConfigDigest baseline)
      \<and> length (rb_Records baseline) \<le> maxBaselineRecords
      \<and> list_all (\<lambda>r. hf_ID r \<noteq> [] \<and> digestString (hf_Digest r)) (rb_Records baseline) \<and> distinct (map hf_ID (rb_Records baseline)))"

definition readBaseline :: "BaselineFiles \<Rightarrow> FS \<Rightarrow> string \<Rightarrow> string \<Rightarrow> restoreBaseline result" where
  "readBaseline bf fs path application =
     (let invalid = Inl (Errorf ''private baseline file is invalid'' [])
      in if \<not> regularWithin (fs_Lstat fs path) maxBaselineBytes then invalid
         else case fs_Read fs path of
           Inl e \<Rightarrow> Inl (Errorf ''opening private baseline file'' [])
         | Inr content \<Rightarrow>
             (case bf_Decode bf (take (nat maxBaselineBytes + 1) content) of
                Inl e \<Rightarrow> Inl (Errorf ''decoding private baseline file'' [])
              | Inr (baseline, rest) \<Rightarrow> if rest \<noteq> JSONEOF then invalid else if validBaseline baseline application then Inr baseline else invalid))"

section \<open>The command\<close>

text \<open>Its result and the text of the baseline it wrote.\<close>

definition drill :: "Host \<Rightarrow> BaselineFiles \<Rightarrow> (nat \<Rightarrow> FS) \<Rightarrow> expectation \<Rightarrow> verificationReport result \<times> string option" where
  "drill ho bf fs e =
     (case verifyWithContext ho fs e of
        Inl err \<Rightarrow> (Inl (Wrapf ''recovery drill verification failed: %w'' [] err), None)
      | Inr report \<Rightarrow>
          (case (if ex_baselineOut e = [] then Inr None
                 else case baselineForSnapshot ho (fs 6) e of
                   Inl err \<Rightarrow> Inl (Wrapf ''creating recovery restore baseline: %w'' [] err)
                 | Inr baseline \<Rightarrow>
                     (case writeBaseline bf (ex_baselineOut e) baseline of
                        Inl err \<Rightarrow> Inl (Wrapf ''writing recovery restore baseline: %w'' [] err)
                      | Inr text \<Rightarrow> Inr (Some text))) of
             Inl err \<Rightarrow> (Inl err, None)
           | Inr written \<Rightarrow>
               if ex_baselineIn e = [] then (Inr report, written)
               else case readBaseline bf (fs 7) (ex_baselineIn e) (ex_application e) of
                 Inl err \<Rightarrow> (Inl (Wrapf ''reading recovery restore baseline: %w'' [] err), written)
               | Inr baseline \<Rightarrow>
                   (case compareBaseline ho (fs 8) e baseline of
                      Some err \<Rightarrow> (Inl (Wrapf ''comparing recovery restore baseline: %w'' [] err), written)
                    | None \<Rightarrow> (Inr (report\<lparr>vr_RestoreBaselineMatches := Some True\<rparr>), written))))"

section \<open>What is accepted\<close>

lemma ledgerFrom_iff: "ledgerFrom v rows = Some w \<longleftrightarrow> rows = [v..w - 1] \<and> v \<le> w"
proof (induction rows arbitrary: v)
  case (Cons x rows)
  show ?case
  proof
    assume "ledgerFrom v (x # rows) = Some w"
    then have "x = v" "rows = [v + 1..w - 1]" "v + 1 \<le> w" using Cons by (auto split: if_splits)
    then show "x # rows = [v..w - 1] \<and> v \<le> w" by (simp add: upto_rec1)
  next
    assume a: "x # rows = [v..w - 1] \<and> v \<le> w"
    then have "v \<le> w - 1" by (metis upto_Nil list.distinct(1) not_le)
    then have "x = v" "rows = [v + 1..w - 1]" using a by (simp_all add: upto_rec1)
    then show "ledgerFrom v (x # rows) = Some w" using Cons \<open>v \<le> w - 1\<close> by simp
  qed
qed auto

lemma completeSchemaVersion_iff:
  "completeSchemaVersion db = Inr v \<longleftrightarrow> \<not> sn_fails db ''ledger'' \<and> sort (sn_ledger db) = [1..8] \<and> v = 8"
proof -
  have "ledgerFrom 1 (sort (sn_ledger db)) = Some 9 \<longleftrightarrow> sort (sn_ledger db) = [1..8]" by (simp add: ledgerFrom_iff)
  then show ?thesis by (auto simp: completeSchemaVersion_def currentSchemaVersion_def split: option.splits if_splits)
qed

lemma fileDigest_iff:
  "fileDigest ho f path = Inr d \<longleftrightarrow> (\<exists>content. fs_Read f path = Inr content \<and> int (length content) \<le> maxSnapshotBytes \<and> d = ho_sha ho content)"
  by (auto simp: fileDigest_def split: sum.splits)

text \<open>The evidence of a drill in a database.\<close>

definition drillEvidence :: "expectation \<Rightarrow> Snapshot \<Rightarrow> bool" where
  "drillEvidence e db =
     (sn_integrity db = ''ok'' \<and> sort (sn_ledger db) = [1..8]
      \<and> (\<exists>row. findApp db (ex_application e) = Some row \<and> aw_LastSyncedSHA row = Some (ex_shaA e))
      \<and> countRecords db (ex_application e) ''manual'' ''success'' (ex_shaA e) = 1
      \<and> countRecords db (ex_application e) ''manual'' ''success'' (ex_shaB e) = 1
      \<and> countRecords db (ex_application e) ''rollback'' ''success'' (ex_shaA e) = 1
      \<and> countRecords db (ex_application e) ''rollback'' ''failure'' (ex_unknownSHA e) = 1)"

definition drillReport :: verificationReport where
  "drillReport = \<lparr>vr_IntegrityOK = True, vr_SchemaVersion = 8, vr_ApplicationPresent = True, vr_LastSuccessfulIsA = True, vr_ManualASuccess = True,
     vr_ManualBSuccess = True, vr_RollbackASuccess = True, vr_UnknownRollbackFailed = True, vr_SnapshotUnchanged = True, vr_RestoreBaselineMatches = None\<rparr>"

definition counts :: "expectation \<Rightarrow> string set" where
  "counts e = {countQuery ''manual'' ''success'' (ex_shaA e), countQuery ''manual'' ''success'' (ex_shaB e), countQuery ''rollback'' ''success'' (ex_shaA e),
     countQuery ''rollback'' ''failure'' (ex_unknownSHA e)}"

definition answers :: "expectation \<Rightarrow> Snapshot \<Rightarrow> bool" where
  "answers e db = (\<forall>q\<in>{''integrity'', ''ledger'', ''application'', ''close''} \<union> counts e. \<not> sn_fails db q)"

lemma checkHistory_iff:
  "checkHistory e db rep = Inr rep' \<longleftrightarrow> (\<forall>q\<in>counts e. \<not> sn_fails db q)
     \<and> countRecords db (ex_application e) ''manual'' ''success'' (ex_shaA e) = 1
     \<and> countRecords db (ex_application e) ''manual'' ''success'' (ex_shaB e) = 1
     \<and> countRecords db (ex_application e) ''rollback'' ''success'' (ex_shaA e) = 1
     \<and> countRecords db (ex_application e) ''rollback'' ''failure'' (ex_unknownSHA e) = 1
     \<and> rep' = rep\<lparr>vr_ManualASuccess := True, vr_ManualBSuccess := True, vr_RollbackASuccess := True, vr_UnknownRollbackFailed := True\<rparr>"
  by (auto simp: checkHistory_def hasExactlyOneRecord_def counts_def)

lemma checkDatabase_iff:
  "checkDatabase e db = Inr rep \<and> \<not> sn_fails db ''close'' \<longleftrightarrow> answers e db \<and> drillEvidence e db \<and> rep = drillReport\<lparr>vr_SnapshotUnchanged := False\<rparr>"
proof (cases "completeSchemaVersion db")
  case (Inl x)
  then have "sn_fails db ''ledger'' \<or> sort (sn_ledger db) \<noteq> [1..8]" using completeSchemaVersion_iff [of db 8] by auto
  then show ?thesis using Inl by (auto simp: checkDatabase_def answers_def drillEvidence_def)
next
  case (Inr v)
  then have "\<not> sn_fails db ''ledger''" "sort (sn_ledger db) = [1..8]" "v = 8" using completeSchemaVersion_iff [of db v] by auto
  then show ?thesis
    using Inr by (auto simp: checkDatabase_def answers_def drillEvidence_def drillReport_def checkHistory_iff split: option.splits)
qed

text \<open>
  C30: Evidence of a recovery drill. The verifier accepts exactly when its arguments are complete, distinct full revisions, and the file is a
  regular, bounded database without sidecars whose content does not change under verification, that answers every query,
  passes the integrity check, has exactly the eight migrations in its ledger, and has exactly one successful manual sync of each of the two
  revisions, one successful rollback to the first, one failed rollback to the unknown one, and the first as the last
  successful revision; the report then says so and nothing else.
\<close>

theorem verify_accepts_iff:
  "verifyWithContext ho fs e = Inr report \<longleftrightarrow>
     checkExpectation e = None \<and> report = drillReport
     \<and> (\<exists>path db content. ho_Abs ho (ex_databasePath e) = Inr path \<and> regularWithin (fs_Lstat (fs 0) path) maxSnapshotBytes
          \<and> fs_Read (fs 1) path = Inr content \<and> int (length content) \<le> maxSnapshotBytes
          \<and> snapshotSidecarsAbsent (fs 2) path = None \<and> openReadonlySnapshot ho (fs 3) path = Inr db \<and> answers e db \<and> drillEvidence e db
          \<and> fileDigest ho (fs 4) path = Inr (ho_sha ho content) \<and> snapshotSidecarsAbsent (fs 5) path = None)"
  (is "_ \<longleftrightarrow> ?R")
proof
  assume v: "verifyWithContext ho fs e = Inr report"
  then obtain path d db rep where p: "checkExpectation e = None" "ho_Abs ho (ex_databasePath e) = Inr path"
    "regularWithin (fs_Lstat (fs 0) path) maxSnapshotBytes" "fileDigest ho (fs 1) path = Inr d"
    "snapshotSidecarsAbsent (fs 2) path = None" "openReadonlySnapshot ho (fs 3) path = Inr db" "checkDatabase e db = Inr rep" "\<not> sn_fails db ''close''"
    "fileDigest ho (fs 4) path = Inr d" "snapshotSidecarsAbsent (fs 5) path = None" "report = rep\<lparr>vr_SnapshotUnchanged := True\<rparr>"
    by (auto simp: verifyWithContext_def split: option.splits sum.splits if_splits)
  moreover from p(4) obtain content where "fs_Read (fs 1) path = Inr content" "int (length content) \<le> maxSnapshotBytes" "d = ho_sha ho content"
    unfolding fileDigest_iff by blast
  ultimately have content: "fs_Read (fs 1) path = Inr content" "int (length content) \<le> maxSnapshotBytes" "fileDigest ho (fs 4) path = Inr (ho_sha ho content)"
    by simp_all
  from p(7,8) have "answers e db" "drillEvidence e db" "rep = drillReport\<lparr>vr_SnapshotUnchanged := False\<rparr>" using checkDatabase_iff by blast+
  then show ?R using p content by (auto simp: drillReport_def)
next
  assume ?R
  then obtain path db content where p: "checkExpectation e = None" "report = drillReport" "ho_Abs ho (ex_databasePath e) = Inr path"
    "regularWithin (fs_Lstat (fs 0) path) maxSnapshotBytes" "fs_Read (fs 1) path = Inr content" "int (length content) \<le> maxSnapshotBytes"
    "snapshotSidecarsAbsent (fs 2) path = None" "openReadonlySnapshot ho (fs 3) path = Inr db" "answers e db" "drillEvidence e db"
    "fileDigest ho (fs 4) path = Inr (ho_sha ho content)" "snapshotSidecarsAbsent (fs 5) path = None" by blast
  then have "checkDatabase e db = Inr (drillReport\<lparr>vr_SnapshotUnchanged := False\<rparr>)" "\<not> sn_fails db ''close''"
    using checkDatabase_iff [of e db "drillReport\<lparr>vr_SnapshotUnchanged := False\<rparr>"] by simp_all
  then show "verifyWithContext ho fs e = Inr report"
    using p fileDigest_iff [of ho "fs 1" path "ho_sha ho content"] by (simp add: verifyWithContext_def drillReport_def)
qed

section \<open>What a baseline keeps\<close>

text \<open>The length before each field makes the digested text of a list of fields unambiguous.\<close>

lemma cut_unique:
  assumes "c \<notin> set a" "c \<notin> set b" "a @ c # r = b @ c # r'"
  shows "a = b \<and> r = r'"
proof -
  have cut: "takeWhile (\<lambda>x. x \<noteq> c) (p @ c # q) = p \<and> dropWhile (\<lambda>x. x \<noteq> c) (p @ c # q) = c # q" if "c \<notin> set p" for p q
    using that by (induction p) auto
  show ?thesis using cut [OF assms(1), of r] cut [OF assms(2), of r'] unfolding assms(3) by simp
qed

lemma Itoa_inj: "Itoa m = Itoa n \<Longrightarrow> m = n"
  by (metis Itoa_digits of_nat_eq_iff)

lemma encodeFields_inj: "concat (map encodeField xs) = concat (map encodeField ys) \<Longrightarrow> xs = ys"
proof (induction xs arbitrary: ys)
  case Nil
  then show ?case by (cases ys) (auto simp: encodeField_def simp del: Itoa.simps)
next
  case (Cons x xs)
  then obtain y ys' where ys: "ys = y # ys'" by (cases ys) (auto simp: encodeField_def simp del: Itoa.simps)
  have colon: "CHR '':'' \<notin> set (Itoa n)" for n using Itoa_digits [of n] by (auto simp: list_all_iff isDigit_def simp del: Itoa.simps)
  have "Itoa (length x) @ CHR '':'' # (x @ CHR 0x0A # concat (map encodeField xs)) = Itoa (length y) @ CHR '':'' # (y @ CHR 0x0A # concat (map encodeField ys'))"
    using Cons.prems by (simp add: ys encodeField_def [of x] encodeField_def [of y] del: Itoa.simps)
  from cut_unique [OF colon colon this] have "length x = length y" "x @ CHR 0x0A # concat (map encodeField xs) = y @ CHR 0x0A # concat (map encodeField ys')"
    using Itoa_inj by blast+
  then show ?case using Cons.IH [of ys'] ys by simp
qed

definition fingerprint :: "Host \<Rightarrow> HistoryRow \<Rightarrow> historyFingerprint" where
  "fingerprint ho row = \<lparr>hf_ID = hw_ID row, hf_Digest = digestFields ho (hw_Quoted row), hf_operation = hw_Operation row, hf_result = hw_Result row\<rparr>"

lemma fingerprints_spec:
  "fingerprints ho rows records = Inr out \<Longrightarrow> distinct (map hf_ID records) \<Longrightarrow> length records \<le> maxBaselineRecords
     \<Longrightarrow> out = records @ map (fingerprint ho) rows \<and> distinct (map hf_ID out) \<and> length out \<le> maxBaselineRecords"
proof (induction ho rows records rule: fingerprints.induct)
  case (2 ho row rows records)
  let ?r = "records @ [fingerprint ho row]"
  have "hw_ID row \<noteq> []" "hw_ID row \<notin> hf_ID ` set records" "length ?r \<le> maxBaselineRecords" "fingerprints ho rows ?r = Inr out"
    using "2.prems"(1) by (auto simp: fingerprint_def Let_def split: if_splits)
  moreover from this "2.prems"(2) have "distinct (map hf_ID ?r)" by (simp add: fingerprint_def)
  ultimately have "out = ?r @ map (fingerprint ho) rows \<and> distinct (map hf_ID out) \<and> length out \<le> maxBaselineRecords"
    using "2.IH" [of ?r] unfolding fingerprint_def [of ho row] not_less by blast
  then show ?case unfolding list.map append.append_Cons append_assoc append.append_Nil by blast
qed simp

lemma readBaseline_spec:
  assumes "readBaselineFromDB ho db application = Inr b"
  obtains row where "findApp db application = Some row" "rb_ApplicationConfigDigest b = digestFields ho [aw_Manifest row, aw_Source row]"
    "set (rb_Records b) = fingerprint ho ` set (rowsOf db application)" "distinct (map hf_ID (rb_Records b))"
proof -
  obtain row records where r: "findApp db application = Some row"
    "fingerprints ho (take (maxBaselineRecords + 1) (rowsOf db application)) [] = Inr records"
    "rb_ApplicationConfigDigest b = digestFields ho [aw_Manifest row, aw_Source row]" "rb_Records b = sort_key hf_ID records"
    using assms by (auto simp: readBaselineFromDB_def split: if_splits option.splits sum.splits)
  have f: "records = map (fingerprint ho) (take (maxBaselineRecords + 1) (rowsOf db application))" "distinct (map hf_ID records)"
    "length records \<le> maxBaselineRecords" using fingerprints_spec [OF r(2)] by auto
  have "length (rowsOf db application) \<le> maxBaselineRecords" using f(3) unfolding f(1) by (simp add: min_def split: if_splits)
  then have "set (rb_Records b) = fingerprint ho ` set (rowsOf db application)" using r(4) f(1) by simp
  moreover have "distinct (map hf_ID (rb_Records b))"
    using f(2) unfolding r(4) by (simp add: distinct_map)
  ultimately show thesis using that r(1,3) by blast
qed

lemma compareRecords_spec:
  "distinct (map hf_ID records) \<Longrightarrow>
     (if \<forall>r\<in>set records. case map_of m (hf_ID r) of Some d \<Rightarrow> hf_Digest r = d | None \<Rightarrow> hf_operation r = ''poll'' \<and> hf_result r = ''skipped''
      then \<exists>x. compareRecords m records = Inr x \<and> map_of x = map_of m |` (- (hf_ID ` set records))
      else \<exists>e. compareRecords m records = Inl e)"
proof (induction m records rule: compareRecords.induct)
  case (1 expected)
  have "map_of expected |` UNIV = map_of expected" by (simp add: restrict_map_def)
  then show ?case by simp
next
  case (2 expected r records)
  show ?case
  proof (cases "map_of expected (hf_ID r)")
    case None
    have "map_of expected |` (- hf_ID ` set records) = map_of expected |` (- insert (hf_ID r) (hf_ID ` set records))"
      using None by (auto simp: restrict_map_def fun_eq_iff)
    then show ?thesis using "2.IH"(1) [OF None] "2.prems" None by (auto split: if_splits)
  next
    case (Some d)
    have same: "map_of (AList.delete (hf_ID r) expected) (hf_ID r') = map_of expected (hf_ID r')" if "r' \<in> set records" for r'
      using that "2.prems" by (auto simp: delete_conv' image_iff)
    have "map_of (AList.delete (hf_ID r) expected) |` (- hf_ID ` set records) = map_of expected |` (- insert (hf_ID r) (hf_ID ` set records))"
      by (auto simp: restrict_map_def fun_eq_iff delete_conv')
    then show ?thesis using "2.IH"(2) [OF Some] "2.prems" Some same by (auto split: if_splits)
  qed
qed

lemma expected_map:
  "distinct (map f rs) \<Longrightarrow> map_of (fold (\<lambda>r m. AList.update (f r) (g r) m) rs m) = map_of m ++ map_of (map (\<lambda>r. (f r, g r)) rs)"
proof (induction rs arbitrary: m)
  case (Cons r rs)
  have "map_of (map (\<lambda>r. (f r, g r)) rs) (f r) = None" using Cons.prems by (auto simp: map_of_eq_None_iff image_iff)
  then have "(map_of m)(f r \<mapsto> g r) ++ map_of (map (\<lambda>r. (f r, g r)) rs) = map_of m ++ (map_of (map (\<lambda>r. (f r, g r)) rs))(f r \<mapsto> g r)"
    by (auto simp: map_add_def fun_eq_iff split: option.splits)
  then show ?case using Cons by (simp add: update_conv' fun_upd_def)
qed simp

lemma map_of_records:
  "distinct (map hf_ID rs) \<Longrightarrow> map_of (map (\<lambda>r. (hf_ID r, hf_Digest r)) rs) i = Some d \<longleftrightarrow> (\<exists>r\<in>set rs. hf_ID r = i \<and> hf_Digest r = d)"
  by (auto simp: map_of_eq_Some_iff comp_def)

lemma map_of_no_record:
  "map_of (map (\<lambda>r. (hf_ID r, hf_Digest r)) rs) i = None \<longleftrightarrow> i \<notin> hf_ID ` set rs"
  by (auto simp: map_of_eq_None_iff image_iff)

lemma records_kept_iff:
  assumes "distinct (map hf_ID (rb_Records baseline))" "distinct (map hf_ID (rb_Records current))"
  defines "m \<equiv> map_of (map (\<lambda>r. (hf_ID r, hf_Digest r)) (rb_Records baseline))"
  shows "(\<forall>r\<in>set (rb_Records current). case m (hf_ID r) of Some d \<Rightarrow> hf_Digest r = d | None \<Rightarrow> hf_operation r = ''poll'' \<and> hf_result r = ''skipped'')
    \<and> hf_ID ` set (rb_Records baseline) \<subseteq> hf_ID ` set (rb_Records current) \<longleftrightarrow>
    (\<forall>r\<in>set (rb_Records baseline). \<exists>c\<in>set (rb_Records current). hf_ID c = hf_ID r \<and> hf_Digest c = hf_Digest r)
    \<and> (\<forall>c\<in>set (rb_Records current). hf_ID c \<in> hf_ID ` set (rb_Records baseline) \<or> hf_operation c = ''poll'' \<and> hf_result c = ''skipped'')"
  (is "?P \<and> ?S \<longleftrightarrow> ?B \<and> ?C")
proof
  assume a: "?P \<and> ?S"
  have ?C using a unfolding m_def by (auto simp: map_of_no_record split: option.splits)
  moreover have ?B
  proof
    fix r assume r: "r \<in> set (rb_Records baseline)"
    then have "hf_ID r \<in> hf_ID ` set (rb_Records current)" using a by blast
    then obtain c where c: "c \<in> set (rb_Records current)" "hf_ID c = hf_ID r" by auto
    have "m (hf_ID c) = Some (hf_Digest r)" unfolding m_def map_of_records [OF assms(1)] using r c(2) by auto
    then have "hf_Digest c = hf_Digest r" using bspec [OF conjunct1 [OF a] c(1)] by simp
    then show "\<exists>c\<in>set (rb_Records current). hf_ID c = hf_ID r \<and> hf_Digest c = hf_Digest r" using c by blast
  qed
  ultimately show "?B \<and> ?C" by blast
next
  assume a: "?B \<and> ?C"
  have "case m (hf_ID c) of Some d \<Rightarrow> hf_Digest c = d | None \<Rightarrow> hf_operation c = ''poll'' \<and> hf_result c = ''skipped''"
    if c: "c \<in> set (rb_Records current)" for c
  proof (cases "m (hf_ID c)")
    case None
    then have "hf_operation c = ''poll'' \<and> hf_result c = ''skipped''" using a c unfolding m_def map_of_no_record by blast
    then show ?thesis unfolding None by simp
  next
    case (Some d)
    then obtain r where r: "r \<in> set (rb_Records baseline)" "hf_ID r = hf_ID c" "hf_Digest r = d" unfolding m_def map_of_records [OF assms(1)] by blast
    then obtain c' where "c' \<in> set (rb_Records current)" "hf_ID c' = hf_ID r" "hf_Digest c' = hf_Digest r" using a by blast
    then have "c' = c" using assms(2) c r(2) by (auto simp: distinct_map dest: inj_onD)
    then show ?thesis using Some r \<open>hf_Digest c' = hf_Digest r\<close> by simp
  qed
  moreover have ?S using a by (auto simp: image_iff) metis
  ultimately show "?P \<and> ?S" by blast
qed

lemma compareCurrent_iff:
  assumes "distinct (map hf_ID (rb_Records baseline))" "distinct (map hf_ID (rb_Records current))"
  shows "compareCurrent current baseline = None \<longleftrightarrow>
    rb_ApplicationConfigDigest current = rb_ApplicationConfigDigest baseline
    \<and> (\<forall>r\<in>set (rb_Records baseline). \<exists>c\<in>set (rb_Records current). hf_ID c = hf_ID r \<and> hf_Digest c = hf_Digest r)
    \<and> (\<forall>c\<in>set (rb_Records current). hf_ID c \<in> hf_ID ` set (rb_Records baseline) \<or> hf_operation c = ''poll'' \<and> hf_result c = ''skipped'')"
  (is "_ \<longleftrightarrow> ?D \<and> ?B \<and> ?C")
proof -
  let ?m = "fold (\<lambda>r m. AList.update (hf_ID r) (hf_Digest r) m) (rb_Records baseline) []"
  let ?P = "\<forall>r\<in>set (rb_Records current). case map_of ?m (hf_ID r) of Some d \<Rightarrow> hf_Digest r = d | None \<Rightarrow> hf_operation r = ''poll'' \<and> hf_result r = ''skipped''"
  have m: "map_of ?m = map_of (map (\<lambda>r. (hf_ID r, hf_Digest r)) (rb_Records baseline))" using expected_map [OF assms(1), of hf_Digest "[]"] by simp
  have "?P \<and> hf_ID ` set (rb_Records baseline) \<subseteq> hf_ID ` set (rb_Records current) \<longleftrightarrow> ?B \<and> ?C"
    unfolding m by (rule records_kept_iff [OF assms])
  moreover have "compareCurrent current baseline = None \<longleftrightarrow> ?D \<and> ?P \<and> hf_ID ` set (rb_Records baseline) \<subseteq> hf_ID ` set (rb_Records current)"
  proof (cases ?P)
    case True
    then obtain x where x: "compareRecords ?m (rb_Records current) = Inr x" "map_of x = map_of ?m |` (- (hf_ID ` set (rb_Records current)))"
      using compareRecords_spec [OF assms(2), of ?m] unfolding if_P [OF True] by blast
    have "length x = 0 \<longleftrightarrow> map_of x = Map.empty" by simp
    also have "\<dots> \<longleftrightarrow> hf_ID ` set (rb_Records baseline) \<subseteq> hf_ID ` set (rb_Records current)"
      unfolding x(2) m by (auto simp: restrict_map_def fun_eq_iff map_of_no_record split: if_splits)
    finally show ?thesis using True x(1) by (auto simp: compareCurrent_def)
  next
    case False
    then obtain e where "compareRecords ?m (rb_Records current) = Inl e"
      using compareRecords_spec [OF assms(2), of ?m] unfolding if_not_P [OF False] by blast
    then show ?thesis using False by (auto simp: compareCurrent_def)
  qed
  ultimately show ?thesis by blast
qed

text \<open>A baseline that was written and read back: JSON keeps the exported fields, so the identifiers and digests and not the operations and results.\<close>

definition exported :: "restoreBaseline \<Rightarrow> int \<times> string \<times> string \<times> (string \<times> string) list" where
  "exported b = (rb_Version b, rb_Application b, rb_ApplicationConfigDigest b, map (\<lambda>r. (hf_ID r, hf_Digest r)) (rb_Records b))"

definition digestInputs :: "Snapshot \<Rightarrow> string \<Rightarrow> string set" where
  "digestInputs db application =
     (\<lambda>cols. concat (map encodeField cols)) ` ((\<lambda>r. [aw_Manifest r, aw_Source r]) ` set (sn_apps db) \<union> hw_Quoted ` set (rowsOf db application))"

lemma digestFields_eq:
  assumes "inj_on (ho_sha ho) A" "concat (map encodeField xs) \<in> A" "concat (map encodeField ys) \<in> A"
  shows "digestFields ho xs = digestFields ho ys \<longleftrightarrow> xs = ys"
  using inj_on_eq_iff [OF assms] encodeFields_inj [of xs ys] by (auto simp: digestFields_def)

lemma exported_records:
  assumes "map (\<lambda>r. (hf_ID r, hf_Digest r)) xs = map (\<lambda>r. (hf_ID r, hf_Digest r)) ys"
  shows "map hf_ID xs = map hf_ID ys" "(\<lambda>r. (hf_ID r, hf_Digest r)) ` set xs = (\<lambda>r. (hf_ID r, hf_Digest r)) ` set ys"
  using arg_cong [OF assms, of "map fst"] arg_cong [OF assms, of set] by (simp_all add: comp_def)

text \<open>What the tool writes it accepts when it reads it back.\<close>

lemma fingerprints_named:
  "fingerprints ho rows records = Inr out \<Longrightarrow> list_all (\<lambda>r. hf_ID r \<noteq> []) records \<Longrightarrow> list_all (\<lambda>r. hf_ID r \<noteq> []) out"
  by (induction ho rows records rule: fingerprints.induct) (auto simp: Let_def split: if_splits)

lemma baseline_valid:
  assumes "readBaselineFromDB ho db application = Inr b" and sha: "\<And>x. digestString (ho_sha ho x)"
  shows "validBaseline b application"
proof -
  obtain row records where "findApp db application = Some row" and r: "fingerprints ho (take (maxBaselineRecords + 1) (rowsOf db application)) [] = Inr records"
    "b = \<lparr>rb_Version = 1, rb_Application = application, rb_ApplicationConfigDigest = digestFields ho [aw_Manifest row, aw_Source row], rb_Records = sort_key hf_ID records\<rparr>"
    using assms(1) by (auto simp: readBaselineFromDB_def split: if_splits option.splits sum.splits)
  have "records = map (fingerprint ho) (take (maxBaselineRecords + 1) (rowsOf db application))" "distinct (map hf_ID records)" "length records \<le> maxBaselineRecords"
    using fingerprints_spec [OF r(1)] by auto
  moreover from this(1) have "list_all (\<lambda>r. digestString (hf_Digest r)) records" using sha by (auto simp: list_all_iff fingerprint_def digestFields_def)
  moreover from calculation(2) have "distinct (map hf_ID (rb_Records b))" by (simp add: r(2) distinct_map)
  moreover have "list_all (\<lambda>r. hf_ID r \<noteq> []) records" using fingerprints_named [OF r(1)] by simp
  ultimately show ?thesis using sha by (simp add: r(2) validBaseline_def list_all_iff digestFields_def del: distinct_map)
qed

text \<open>A database that the daemon has opened has the complete ledger that the verifier asks for.\<close>

lemma opened_store_complete:
  assumes "embeds script en" "k \<le> 8" "store_New en dataDir (ledgerUpTo script k) = (None, l)"
  shows "completeSchemaVersion \<lparr>sn_integrity = i, sn_ledger = map fst l, sn_apps = apps, sn_history = history, sn_fails = (\<lambda>_. False)\<rparr> = Inr 8"
proof -
  have "map fst l = [1, 2, 3, 4, 5, 6, 7, 8]" using store_New_ledger [OF assms] by (auto simp: fst_ledger)
  moreover have "sort [1, 2, 3, 4, 5, 6, 7, 8 :: int] = [1..8]" by code_simp
  ultimately show ?thesis by (simp add: completeSchemaVersion_iff)
qed

text \<open>
  C31: A restored database agrees with the baseline. Let a baseline be made from one database and its exported fields read back, and let
  SHA-256 not collide on the texts that are digested. Then the comparison of another database with it accepts exactly when the
  application has the same manifest and source, every history record of the first is in the second with the same columns, and every
  record that only the second has is a skipped poll.
\<close>

theorem restore_evidence_iff:
  assumes made: "readBaselineFromDB ho before (ex_application e) = Inr baseline" and readback: "exported read = exported baseline"
    and opened: "openReadonlySnapshot ho fs (ex_databasePath e) = Inr after" "readBaselineFromDB ho after (ex_application e) = Inr current"
    and sha: "inj_on (ho_sha ho) (digestInputs before (ex_application e) \<union> digestInputs after (ex_application e))"
  shows "compareBaseline ho fs e read = None \<longleftrightarrow>
    map_option (\<lambda>r. (aw_Manifest r, aw_Source r)) (findApp after (ex_application e)) = map_option (\<lambda>r. (aw_Manifest r, aw_Source r)) (findApp before (ex_application e))
    \<and> (\<forall>h\<in>set (rowsOf before (ex_application e)). \<exists>h'\<in>set (rowsOf after (ex_application e)). hw_ID h' = hw_ID h \<and> hw_Quoted h' = hw_Quoted h)
    \<and> (\<forall>h'\<in>set (rowsOf after (ex_application e)).
         hw_ID h' \<in> hw_ID ` set (rowsOf before (ex_application e)) \<or> hw_Operation h' = ''poll'' \<and> hw_Result h' = ''skipped'')"
    (is "_ \<longleftrightarrow> ?R1 \<and> ?R2 \<and> ?R3")
proof -
  let ?app = "ex_application e"
  obtain row where b: "findApp before ?app = Some row" "rb_ApplicationConfigDigest baseline = digestFields ho [aw_Manifest row, aw_Source row]"
    "set (rb_Records baseline) = fingerprint ho ` set (rowsOf before ?app)" "distinct (map hf_ID (rb_Records baseline))" using readBaseline_spec [OF made] .
  obtain row' where c: "findApp after ?app = Some row'" "rb_ApplicationConfigDigest current = digestFields ho [aw_Manifest row', aw_Source row']"
    "set (rb_Records current) = fingerprint ho ` set (rowsOf after ?app)" "distinct (map hf_ID (rb_Records current))" using readBaseline_spec [OF opened(2)] .
  have rd: "rb_ApplicationConfigDigest read = rb_ApplicationConfigDigest baseline" "map hf_ID (rb_Records read) = map hf_ID (rb_Records baseline)"
    "(\<lambda>r. (hf_ID r, hf_Digest r)) ` set (rb_Records read) = (\<lambda>h. (hw_ID h, digestFields ho (hw_Quoted h))) ` set (rowsOf before ?app)"
    using readback exported_records [of "rb_Records read" "rb_Records baseline"] by (auto simp: exported_def b(3) image_image fingerprint_def)
  have ids: "hf_ID ` set (rb_Records read) = hw_ID ` set (rowsOf before ?app)" using arg_cong [OF rd(3), of "image fst"] by (simp add: image_image)
  have "row \<in> set (sn_apps before)" "row' \<in> set (sn_apps after)" using b(1) c(1) by (auto simp: findApp_def find_Some_iff)
  then have "concat (map encodeField [aw_Manifest row, aw_Source row]) \<in> digestInputs before ?app"
    "concat (map encodeField [aw_Manifest row', aw_Source row']) \<in> digestInputs after ?app" unfolding digestInputs_def by blast+
  then have config: "digestFields ho [aw_Manifest row', aw_Source row'] = digestFields ho [aw_Manifest row, aw_Source row] \<longleftrightarrow> ?R1"
    using digestFields_eq [OF sha, of "[aw_Manifest row', aw_Source row']" "[aw_Manifest row, aw_Source row]"] by (simp add: b(1) c(1))
  have digest: "digestFields ho (hw_Quoted h') = digestFields ho (hw_Quoted h) \<longleftrightarrow> hw_Quoted h' = hw_Quoted h"
    if "h \<in> set (rowsOf before ?app)" "h' \<in> set (rowsOf after ?app)" for h h'
    using that by (intro digestFields_eq [OF sha]) (auto simp: digestInputs_def)
  have "(\<forall>r\<in>set (rb_Records read). \<exists>c\<in>set (rb_Records current). hf_ID c = hf_ID r \<and> hf_Digest c = hf_Digest r)
    \<longleftrightarrow> (\<forall>p\<in>(\<lambda>r. (hf_ID r, hf_Digest r)) ` set (rb_Records read). \<exists>c\<in>set (rb_Records current). hf_ID c = fst p \<and> hf_Digest c = snd p)" by simp
  also have "\<dots> \<longleftrightarrow> ?R2" unfolding rd(3) c(3) using digest by (auto simp: fingerprint_def)
  finally have kept: "(\<forall>r\<in>set (rb_Records read). \<exists>c\<in>set (rb_Records current). hf_ID c = hf_ID r \<and> hf_Digest c = hf_Digest r) \<longleftrightarrow> ?R2" .
  have further: "(\<forall>c\<in>set (rb_Records current). hf_ID c \<in> hf_ID ` set (rb_Records read) \<or> hf_operation c = ''poll'' \<and> hf_result c = ''skipped'') \<longleftrightarrow> ?R3"
    unfolding ids c(3) by (simp add: fingerprint_def)
  have eq: "compareBaseline ho fs e read = compareCurrent current read" using opened by (simp add: compareBaseline_def baselineForSnapshot_def)
  have "distinct (map hf_ID (rb_Records read))" using b(4) by (simp add: rd(2))
  from compareCurrent_iff [OF this c(4)] show ?thesis unfolding eq rd(1) b(2) c(2) config kept further .
qed

definition drillRow :: "string \<Rightarrow> string \<Rightarrow> string \<Rightarrow> HistoryRow" where
  "drillRow i operation result = \<lparr>hw_ID = i, hw_AppName = ''drill'', hw_Operation = operation, hw_Result = result, hw_CommitSHA = ''a'', hw_Quoted = [i, operation, result]\<rparr>"

definition drillSnapshot :: "HistoryRow list \<Rightarrow> Snapshot" where
  "drillSnapshot rows = \<lparr>sn_integrity = ''ok'', sn_ledger = [1..8], sn_apps = [\<lparr>aw_Name = ''drill'', aw_Manifest = ''m'', aw_Source = ''s'', aw_LastSyncedSHA = Some ''a''\<rparr>],
     sn_history = rows, sn_fails = (\<lambda>_. False)\<rparr>"

definition drillHost :: "Snapshot \<Rightarrow> Host" where
  "drillHost db = \<lparr>ho_sha = (\<lambda>x. x), ho_Abs = Inr, ho_Open = (\<lambda>_. Inr db)\<rparr>"

definition drillFS :: FS where
  "drillFS = \<lparr>fs_Lstat = (\<lambda>path. if path = ''dockercd.db'' then Stat True 1 else Missing), fs_Read = (\<lambda>_. Inr [])\<rparr>"

definition drillArgs :: expectation where
  "drillArgs = \<lparr>ex_databasePath = ''dockercd.db'', ex_application = ''drill'', ex_shaA = ''a'', ex_shaB = ''b'', ex_unknownSHA = ''c'', ex_baselineOut = [], ex_baselineIn = ''in''\<rparr>"

lemmas drill_defs = drillRow_def drillSnapshot_def drillHost_def drillFS_def drillArgs_def

text \<open>One more skipped poll is accepted, one more manual sync is not.\<close>

theorem restore_evidence_iff_witness:
  "let one = drillRow ''1'' ''manual'' ''success''; db = (\<lambda>op res. drillSnapshot [one, drillRow ''2'' op res])
   in (\<exists>b. readBaselineFromDB (drillHost (db ''poll'' ''skipped'')) (drillSnapshot [one]) ''drill'' = Inr b
         \<and> compareBaseline (drillHost (db ''poll'' ''skipped'')) drillFS drillArgs b = None)
      \<and> (\<exists>b. readBaselineFromDB (drillHost (db ''manual'' ''success'')) (drillSnapshot [one]) ''drill'' = Inr b
         \<and> compareBaseline (drillHost (db ''manual'' ''success'')) drillFS drillArgs b \<noteq> None)"
proof -
  let ?one = "drillRow ''1'' ''manual'' ''success''"
  let ?db = "\<lambda>op res. drillSnapshot [?one, drillRow ''2'' op res]"
  have "\<exists>b. readBaselineFromDB (drillHost (?db op res)) (drillSnapshot [?one]) ''drill'' = Inr b
    \<and> (compareBaseline (drillHost (?db op res)) drillFS drillArgs b = None \<longleftrightarrow> op = ''poll'' \<and> res = ''skipped'')" for op res
  proof -
    let ?ho = "drillHost (?db op res)"
    obtain b c where made: "readBaselineFromDB ?ho (drillSnapshot [?one]) (ex_application drillArgs) = Inr b" "readBaselineFromDB ?ho (?db op res) (ex_application drillArgs) = Inr c"
      by (simp add: drill_defs readBaselineFromDB_def findApp_def rowsOf_def maxBaselineRecords_def)
    have opened: "openReadonlySnapshot ?ho drillFS (ex_databasePath drillArgs) = Inr (?db op res)"
      by (simp add: drill_defs openReadonlySnapshot_def regularWithin_def maxSnapshotBytes_def snapshotSidecarsAbsent_def)
    have "inj_on (ho_sha ?ho) A" for A by (simp add: drillHost_def inj_on_def)
    from restore_evidence_iff [OF made(1) refl opened made(2) this] made(1) show ?thesis by (simp add: drill_defs findApp_def rowsOf_def)
  qed
  from this [of "''poll''" "''skipped''"] this [of "''manual''" "''success''"] show ?thesis by (simp add: Let_def)
qed

end
