(* ===== verification/Secrets.thy ===== *)
theory Secrets
  imports Parser Inspector ConfigSync
begin

text \<open>
  The secrets providers (\<^verbatim>\<open>secrets/secrets.go\<close>, \<^verbatim>\<open>secrets/vault.go\<close>, \<^verbatim>\<open>secrets/awssm.go\<close>,
  \<^verbatim>\<open>secrets/multi.go\<close>), their choice at startup (\<^verbatim>\<open>cli/serve.go\<close>), and what the compose parser makes of them. Each is a provider
  of the parser's interface. The age library, the HTTP client and the JSON decoders are parameters.
\<close>

section \<open>Files encrypted with age\<close>

text \<open>What opening, decrypting and reading give; the identities are the keys of the key file.\<close>

record AgeLib =
  al_Open :: "string \<Rightarrow> string result"
  al_ParseIdentities :: "string \<Rightarrow> string list result"
  al_Decrypt :: "string \<Rightarrow> string list \<Rightarrow> string result"
  al_ReadAll :: "string \<Rightarrow> string result"

record AgeProvider =
  ap_identities :: "string list"

definition NewAge :: "AgeLib \<Rightarrow> string \<Rightarrow> AgeProvider result" where
  "NewAge lib keyFilePath =
     (case al_Open lib keyFilePath of
        Inl e \<Rightarrow> Inl (Wrapf ''opening age key file: %w'' [] e)
      | Inr f \<Rightarrow>
          (case al_ParseIdentities lib f of
             Inl e \<Rightarrow> Inl (Wrapf ''parsing age identities: %w'' [] e)
           | Inr identities \<Rightarrow> Inr \<lparr>ap_identities = identities\<rparr>))"

text \<open>\<^verbatim>\<open>filepath.Ext\<close> of a path: the extension of its last element.\<close>

definition path_Ext :: "string \<Rightarrow> string" where
  "path_Ext path = filepath_Ext (rev (takeWhile (\<lambda>c. c \<noteq> CHR ''/'') (rev path)))"

definition age_CanHandle :: "string \<Rightarrow> bool" where
  "age_CanHandle path = (let ext = path_Ext path in ext = ''.age'' \<or> ext = ''.enc'')"

definition envContentLine :: "string \<Rightarrow> (string \<times> string) option" where
  "envContentLine text =
     (let line = TrimSpace text
      in if line = [] \<or> HasPrefix line ''#'' then None
         else case cut CHR ''='' line of None \<Rightarrow> None | Some (key, value) \<Rightarrow> Some (key, stripQuotes value))"

definition parseEnvContent :: "string \<Rightarrow> string gomap" where
  "parseEnvContent bytes =
     fold (\<lambda>text result. case envContentLine text of None \<Rightarrow> result | Some (key, value) \<Rightarrow> AList.update key value result) (splitLines bytes) []"

definition age_Decrypt :: "AgeLib \<Rightarrow> AgeProvider \<Rightarrow> string \<Rightarrow> string gomap result" where
  "age_Decrypt lib p path =
     (case al_Open lib path of
        Inl e \<Rightarrow> Inl (Wrapf ''opening encrypted file: %w'' [] e)
      | Inr f \<Rightarrow>
          (case al_Decrypt lib f (ap_identities p) of
             Inl e \<Rightarrow> Inl (Wrapf ''decrypting file: %w'' [] e)
           | Inr reader \<Rightarrow>
               (case al_ReadAll lib reader of
                  Inl e \<Rightarrow> Inl (Wrapf ''reading decrypted content: %w'' [] e)
                | Inr decrypted \<Rightarrow> Inr (parseEnvContent decrypted))))"

definition ageSecrets :: "AgeLib \<Rightarrow> AgeProvider \<Rightarrow> SecretsProvider" where
  "ageSecrets lib p = \<lparr>canHandle = age_CanHandle, decrypt = age_Decrypt lib p\<rparr>"

section \<open>Requests to secret stores\<close>

record SecretRequest =
  sq_Method :: string
  sq_URL :: string
  sq_Header :: "(string \<times> string) list"
  sq_Body :: string

record SecretResponse =
  sr_StatusCode :: nat
  sr_Body :: string

record SecretClient =
  sc_NewRequest :: "SecretRequest \<Rightarrow> err option"
  sc_Do :: "SecretRequest \<Rightarrow> SecretResponse result"
  sc_vaultData :: "string \<Rightarrow> JAny gomap result"
  sc_secretString :: "string \<Rightarrow> string result"
  sc_object :: "string \<Rightarrow> JAny gomap result"

definition maxErrorBody :: nat where "maxErrorBody = 65536"

text \<open>The part of a reference before the first hash, and the field after it.\<close>

definition splitRef :: "string \<Rightarrow> string \<times> string" where
  "splitRef ref = (case cut CHR ''#'' ref of None \<Rightarrow> (ref, []) | Some (path, field) \<Rightarrow> (path, field))"

definition trimSlashes :: "string \<Rightarrow> string" where
  "trimSlashes s = rev (dropWhile (\<lambda>c. c = CHR ''/'') (rev s))"

definition allFields :: "JAny gomap \<Rightarrow> string gomap" where
  "allFields m = fold (\<lambda>(k, v) result. AList.update k (sprintV v) result) m []"

definition selectFields :: "string \<Rightarrow> string \<Rightarrow> JAny gomap \<Rightarrow> string gomap result" where
  "selectFields missing field m =
     (if field \<noteq> [] then case map_of m field of Some val \<Rightarrow> Inr [(field, sprintV val)] | None \<Rightarrow> Inl (Errorf missing [field])
      else Inr (allFields m))"

section \<open>Vault\<close>

record VaultProvider =
  vp_addr :: string
  vp_token :: string

definition NewVault :: "string \<Rightarrow> string \<Rightarrow> VaultProvider" where
  "NewVault addr token = \<lparr>vp_addr = trimSlashes addr, vp_token = token\<rparr>"

definition vault_CanHandle :: "string \<Rightarrow> bool" where
  "vault_CanHandle path = HasPrefix path ''vault:''"

definition vaultRequest :: "VaultProvider \<Rightarrow> string \<Rightarrow> SecretRequest" where
  "vaultRequest p secretPath = \<lparr>sq_Method = ''GET'', sq_URL = vp_addr p @ ''/v1/'' @ secretPath, sq_Header = [(''X-Vault-Token'', vp_token p)], sq_Body = []\<rparr>"

definition vault_Decrypt :: "SecretClient \<Rightarrow> VaultProvider \<Rightarrow> string \<Rightarrow> string gomap result" where
  "vault_Decrypt client p ref =
     (let (secretPath, field) = splitRef (TrimPrefix ref ''vault:''); req = vaultRequest p secretPath
      in case sc_NewRequest client req of
           Some e \<Rightarrow> Inl (Wrapf ''creating vault request: %w'' [] e)
         | None \<Rightarrow>
             (case sc_Do client req of
                Inl e \<Rightarrow> Inl (Wrapf ''vault request failed: %w'' [] e)
              | Inr resp \<Rightarrow>
                  if sr_StatusCode resp \<noteq> 200 then Inl (Errorf ''vault returned %d: %s'' [Itoa (sr_StatusCode resp), take maxErrorBody (sr_Body resp)])
                  else case sc_vaultData client (sr_Body resp) of
                    Inl e \<Rightarrow> Inl (Wrapf ''decoding vault response: %w'' [] e)
                  | Inr m \<Rightarrow> selectFields ''field %q not found in vault secret'' field m))"

definition vaultSecrets :: "SecretClient \<Rightarrow> VaultProvider \<Rightarrow> SecretsProvider" where
  "vaultSecrets client p = \<lparr>canHandle = vault_CanHandle, decrypt = vault_Decrypt client p\<rparr>"

section \<open>AWS Secrets Manager\<close>

record AWSSecretsManagerProvider =
  aws_region :: string
  aws_endpoint :: string

definition NewAWSSecretsManager :: "string \<Rightarrow> string \<Rightarrow> AWSSecretsManagerProvider" where
  "NewAWSSecretsManager region endpoint =
     (let endpoint = (if endpoint = [] then ''https://secretsmanager.'' @ region @ ''.amazonaws.com'' else endpoint)
      in \<lparr>aws_region = region, aws_endpoint = trimSlashes endpoint\<rparr>)"

definition aws_CanHandle :: "string \<Rightarrow> bool" where
  "aws_CanHandle path = HasPrefix path ''awssm:''"

definition awsRequest :: "AWSSecretsManagerProvider \<Rightarrow> string \<Rightarrow> SecretRequest" where
  "awsRequest p secretName = \<lparr>sq_Method = ''POST'', sq_URL = aws_endpoint p,
     sq_Header = [(''Content-Type'', ''application/x-amz-json-1.1''), (''X-Amz-Target'', ''secretsmanager.GetSecretValue'')],
     sq_Body = ''{'' @ [CHR 0x22] @ ''SecretId'' @ [CHR 0x22] @ '':'' @ [CHR 0x22] @ secretName @ [CHR 0x22] @ ''}''\<rparr>"

definition aws_Decrypt :: "SecretClient \<Rightarrow> AWSSecretsManagerProvider \<Rightarrow> string \<Rightarrow> string gomap result" where
  "aws_Decrypt client p ref =
     (let (secretName, field) = splitRef (TrimPrefix ref ''awssm:''); req = awsRequest p secretName
      in case sc_NewRequest client req of
           Some e \<Rightarrow> Inl (Wrapf ''creating aws request: %w'' [] e)
         | None \<Rightarrow>
             (case sc_Do client req of
                Inl e \<Rightarrow> Inl (Wrapf ''aws request failed: %w'' [] e)
              | Inr resp \<Rightarrow>
                  if sr_StatusCode resp \<noteq> 200 then Inl (Errorf ''aws returned %d: %s'' [Itoa (sr_StatusCode resp), take maxErrorBody (sr_Body resp)])
                  else case sc_secretString client (sr_Body resp) of
                    Inl e \<Rightarrow> Inl (Wrapf ''decoding aws response: %w'' [] e)
                  | Inr secretString \<Rightarrow>
                      (case sc_object client secretString of
                         Inr secretData \<Rightarrow> selectFields ''field %q not found in aws secret'' field secretData
                       | Inl e \<Rightarrow> Inr [(secretName, secretString)])))"

definition awsSecrets :: "SecretClient \<Rightarrow> AWSSecretsManagerProvider \<Rightarrow> SecretsProvider" where
  "awsSecrets client p = \<lparr>canHandle = aws_CanHandle, decrypt = aws_Decrypt client p\<rparr>"

section \<open>Chains of providers\<close>

fun multi_CanHandle :: "SecretsProvider list \<Rightarrow> string \<Rightarrow> bool" where
  "multi_CanHandle [] path = False"
| "multi_CanHandle (p # ps) path = (if canHandle p path then True else multi_CanHandle ps path)"

fun multi_Decrypt :: "SecretsProvider list \<Rightarrow> string \<Rightarrow> string gomap result" where
  "multi_Decrypt [] path = Inl (Errorf ''no secrets provider can handle %q'' [path])"
| "multi_Decrypt (p # ps) path = (if canHandle p path then decrypt p path else multi_Decrypt ps path)"

definition NewMulti :: "SecretsProvider list \<Rightarrow> SecretsProvider" where
  "NewMulti providers = \<lparr>canHandle = multi_CanHandle providers, decrypt = multi_Decrypt providers\<rparr>"

text \<open>The settings of \<^verbatim>\<open>config.Config\<close> that choose the providers, and the choice of \<^verbatim>\<open>runServe\<close>.\<close>

record SecretsConfig =
  scfg_AgeKeyFile :: string
  scfg_VaultAddr :: string
  scfg_VaultToken :: string
  scfg_AWSRegion :: string
  scfg_AWSEndpoint :: string

definition secretProviders :: "AgeLib \<Rightarrow> SecretClient \<Rightarrow> SecretsConfig \<Rightarrow> SecretsProvider list result" where
  "secretProviders lib client cfg =
     (case (if scfg_AgeKeyFile cfg \<noteq> [] then case NewAge lib (scfg_AgeKeyFile cfg) of Inl e \<Rightarrow> Inl e | Inr sp \<Rightarrow> Inr [ageSecrets lib sp] else Inr []) of
        Inl e \<Rightarrow> Inl (Wrapf ''initializing age secrets provider: %w'' [] e)
      | Inr age \<Rightarrow>
          Inr (age
            @ (if scfg_VaultAddr cfg \<noteq> [] \<and> scfg_VaultToken cfg \<noteq> [] then [vaultSecrets client (NewVault (scfg_VaultAddr cfg) (scfg_VaultToken cfg))] else [])
            @ (if scfg_AWSRegion cfg \<noteq> [] then [awsSecrets client (NewAWSSecretsManager (scfg_AWSRegion cfg) (scfg_AWSEndpoint cfg))] else [])))"

definition parserSecrets :: "SecretsProvider list \<Rightarrow> SecretsProvider option" where
  "parserSecrets providers = (case providers of [] \<Rightarrow> None | [sp] \<Rightarrow> Some sp | _ \<Rightarrow> Some (NewMulti providers))"

section \<open>The contract of a provider\<close>

text \<open>
  What the parser relies on: what a provider returns for a reference it handles is a map. With it the variables of an encrypted file
  take precedence over those read before.
\<close>

definition decryptedVars :: "SecretsProvider \<Rightarrow> ParserFiles \<Rightarrow> string \<Rightarrow> string \<Rightarrow> string \<rightharpoonup> string" where
  "decryptedVars sp fs repoPath encExt =
     (let encPath = filepath_Join repoPath encExt
      in if pf_stat fs encPath \<and> canHandle sp encPath then case decrypt sp encPath of Inr m \<Rightarrow> map_of m | Inl e \<Rightarrow> Map.empty else Map.empty)"

locale secrets_provider =
  fixes sp :: SecretsProvider
  assumes decrypted_map: "canHandle sp ref \<Longrightarrow> decrypt sp ref = Inr m \<Longrightarrow> wf_map m"
begin

lemma decryptEnv_lookup:
  "decryptEnv sp fs repoPath exts envVars = Inr env' \<Longrightarrow> map_of env' = fold (\<lambda>encExt m. m ++ decryptedVars sp fs repoPath encExt) exts (map_of envVars)"
proof (induction exts arbitrary: envVars)
  case (Cons encExt exts)
  show ?case
  proof (cases "pf_stat fs (filepath_Join repoPath encExt) \<and> canHandle sp (filepath_Join repoPath encExt)")
    case True
    then obtain m where m: "decrypt sp (filepath_Join repoPath encExt) = Inr m" "decryptEnv sp fs repoPath exts (overlay envVars m) = Inr env'"
      using Cons.prems by (auto simp: Let_def split: sum.splits)
    have "wf_map m" using decrypted_map True m(1) by blast
    then show ?thesis using Cons.IH [OF m(2)] True m(1) by (simp add: map_of_overlay decryptedVars_def)
  next
    case False
    then have "decryptEnv sp fs repoPath exts envVars = Inr env'" using Cons.prems by (auto simp: Let_def)
    then show ?thesis using Cons.IH False by (auto simp: decryptedVars_def)
  qed
qed simp

end

lemma wf_fold_update: "wf_map m \<Longrightarrow> wf_map (fold (\<lambda>x r. case f x of None \<Rightarrow> r | Some (k, v) \<Rightarrow> AList.update k v r) xs m)"
  by (induction xs arbitrary: m) (auto split: option.splits)

lemma wf_allFields: "wf_map (allFields m)"
proof -
  have "wf_map r \<Longrightarrow> wf_map (fold (\<lambda>(k, v) result. AList.update k (sprintV v) result) m r)" for r
    by (induction m arbitrary: r) auto
  then show ?thesis by (simp add: allFields_def)
qed

lemma wf_selectFields: "selectFields missing field m = Inr r \<Longrightarrow> wf_map r"
  by (auto simp: selectFields_def wf_allFields split: if_splits option.splits)

interpretation age: secrets_provider "ageSecrets lib p" for lib p
  by unfold_locales (auto simp: ageSecrets_def age_Decrypt_def parseEnvContent_def wf_fold_update split: sum.splits)

interpretation vault: secrets_provider "vaultSecrets client p" for client p
  by unfold_locales (auto simp: vaultSecrets_def vault_Decrypt_def Let_def wf_selectFields split: sum.splits option.splits prod.splits if_splits)

interpretation aws: secrets_provider "awsSecrets client p" for client p
  by unfold_locales (auto simp: awsSecrets_def aws_Decrypt_def Let_def wf_selectFields split: sum.splits option.splits prod.splits if_splits)

lemma NewMulti_provider: "\<forall>p\<in>set ps. secrets_provider p \<Longrightarrow> secrets_provider (NewMulti ps)"
proof -
  assume a: "\<forall>p\<in>set ps. secrets_provider p"
  have "multi_Decrypt ps ref = Inr m \<Longrightarrow> wf_map m" for ref m
    using a by (induction ps) (auto split: if_splits dest: secrets_provider.decrypted_map)
  then show ?thesis by unfold_locales (simp add: NewMulti_def)
qed

text \<open>The providers of a configuration, in the order of the chain.\<close>

lemma secretProviders_contract:
  assumes "secretProviders lib client cfg = Inr ps" "parserSecrets ps = Some sp"
  shows "secrets_provider sp" "canHandle sp = multi_CanHandle ps" "\<And>ref. canHandle sp ref \<Longrightarrow> decrypt sp ref = multi_Decrypt ps ref"
proof -
  have "\<forall>p\<in>set ps. secrets_provider p"
    using assms(1) age.secrets_provider_axioms vault.secrets_provider_axioms aws.secrets_provider_axioms
    by (auto simp: secretProviders_def split: if_splits sum.splits)
  then show "secrets_provider sp" using assms(2) NewMulti_provider [of ps] by (auto simp: parserSecrets_def split: list.splits)
  show "canHandle sp = multi_CanHandle ps" "\<And>ref. canHandle sp ref \<Longrightarrow> decrypt sp ref = multi_Decrypt ps ref"
    using assms(2) by (auto simp: parserSecrets_def NewMulti_def fun_eq_iff split: list.splits)
qed

section \<open>References in the environment of a service\<close>

text \<open>A reference is replaced when its provider returns one value; with none or several it stays as it is.\<close>

definition resolvedValue :: "SecretsProvider \<Rightarrow> string \<Rightarrow> string" where
  "resolvedValue sp val = (if canHandle sp val then case decrypt sp val of Inr [(k, v)] \<Rightarrow> v | _ \<Rightarrow> val else val)"

definition resolvable :: "SecretsProvider \<Rightarrow> string \<Rightarrow> bool" where
  "resolvable sp val = (canHandle sp val \<longrightarrow> (\<exists>m. decrypt sp val = Inr m))"

lemma resolveRefs_spec:
  "if \<forall>val\<in>snd ` set env. resolvable sp val then resolveRefs sp service env = Inr (map (\<lambda>(key, val). (key, resolvedValue sp val)) env)
   else \<exists>e. resolveRefs sp service env = Inl e"
proof (induction env)
  case (Cons kv env)
  obtain key val where kv: "kv = (key, val)" by fastforce
  have one: "(if length m = 1 then snd (hd m) else val) = (case m of [(k, v)] \<Rightarrow> v | _ \<Rightarrow> val)" for m :: "string gomap"
    by (cases m; cases "tl m") auto
  show ?case
  proof (cases "canHandle sp val")
    case True
    then show ?thesis
      using Cons.IH by (cases "decrypt sp val") (auto simp: kv one resolvedValue_def resolvable_def simp del: One_nat_def split: if_splits)
  next
    case False
    then show ?thesis using Cons.IH by (auto simp: kv resolvedValue_def resolvable_def split: if_splits)
  qed
qed simp

definition resolvedService :: "SecretsProvider \<Rightarrow> ServiceSpec \<Rightarrow> ServiceSpec" where
  "resolvedService sp s = s\<lparr>sp_Environment := map (\<lambda>(key, val). (key, resolvedValue sp val)) (sp_Environment s)\<rparr>"

definition resolvableService :: "SecretsProvider \<Rightarrow> ServiceSpec \<Rightarrow> bool" where
  "resolvableService sp s = (\<forall>val\<in>snd ` set (sp_Environment s). resolvable sp val)"

lemma resolveSecrets_spec:
  "if \<forall>s\<in>set ss. resolvableService sp s then resolveSecrets sp ss = Inr (map (resolvedService sp) ss) else \<exists>e. resolveSecrets sp ss = Inl e"
proof (induction ss)
  case (Cons s ss)
  have "if resolvableService sp s then resolveRefs sp (sp_Name s) (sp_Environment s) = Inr (map (\<lambda>(key, val). (key, resolvedValue sp val)) (sp_Environment s))
    else \<exists>e. resolveRefs sp (sp_Name s) (sp_Environment s) = Inl e"
    using resolveRefs_spec [of "sp_Environment s" sp "sp_Name s"] unfolding resolvableService_def .
  then show ?case using Cons.IH by (auto simp: resolvedService_def split: if_splits)
qed simp

text \<open>The decoding of what the chain's Vault answers for a reference that names a field.\<close>

lemma vault_decrypts:
  assumes "secretProviders lib client cfg = Inr ps" "parserSecrets ps = Some sp" "scfg_VaultAddr cfg \<noteq> []" "scfg_VaultToken cfg \<noteq> []"
    "\<not> age_CanHandle ref" "ref = ''vault:'' @ path @ CHR ''#'' # field" "CHR ''#'' \<notin> set path"
  shows "canHandle sp ref" "decrypt sp ref = vault_Decrypt client (NewVault (scfg_VaultAddr cfg) (scfg_VaultToken cfg)) ref"
    "splitRef (TrimPrefix ref ''vault:'') = (path, field)"
proof -
  have v: "vault_CanHandle ref" using assms(6) HasPrefix_append [of "''vault:''"] by (simp add: vault_CanHandle_def)
  note c = secretProviders_contract [OF assms(1,2)]
  have "multi_CanHandle ps ref \<and> multi_Decrypt ps ref = vault_Decrypt client (NewVault (scfg_VaultAddr cfg) (scfg_VaultToken cfg)) ref"
    using assms(1,3-5) v by (auto simp: secretProviders_def ageSecrets_def vaultSecrets_def split: if_splits sum.splits)
  then show "canHandle sp ref" "decrypt sp ref = vault_Decrypt client (NewVault (scfg_VaultAddr cfg) (scfg_VaultToken cfg)) ref" using c by simp_all
  show "splitRef (TrimPrefix ref ''vault:'') = (path, field)"
    using assms(6,7) TrimPrefix_append [of "''vault:''"] by (simp add: splitRef_def)
qed

lemma vault_Decrypt_Inr:
  assumes "vault_Decrypt client p ref = Inr r" "splitRef (TrimPrefix ref ''vault:'') = (path, field)" "field \<noteq> []"
  obtains resp m v where "sc_Do client (vaultRequest p path) = Inr resp" "sr_StatusCode resp = 200" "sc_vaultData client (sr_Body resp) = Inr m"
    "map_of m field = Some v" "r = [(field, sprintV v)]"
  using assms by (auto simp: vault_Decrypt_def selectFields_def Let_def split: option.splits sum.splits if_splits)


definition demoSecretsConfig :: SecretsConfig where
  "demoSecretsConfig = \<lparr>scfg_AgeKeyFile = ''/keys/age'', scfg_VaultAddr = ''http://vault:8200/'', scfg_VaultToken = ''t'', scfg_AWSRegion = [], scfg_AWSEndpoint = []\<rparr>"

definition demoAgeLib :: AgeLib where
  "demoAgeLib = \<lparr>al_Open = (\<lambda>path. if path = ''/keys/age'' then Inr ''k'' else Inl (Errorf ''no such file'' [])), al_ParseIdentities = (\<lambda>f. Inr [f]),
     al_Decrypt = (\<lambda>f ids. Inr f), al_ReadAll = Inr\<rparr>"

definition demoSecretClient :: SecretClient where
  "demoSecretClient = \<lparr>sc_NewRequest = (\<lambda>req. None),
     sc_Do = (\<lambda>req. if sq_URL req = ''http://vault:8200/v1/secret/data/shop'' then Inr \<lparr>sr_StatusCode = 200, sr_Body = ''b''\<rparr> else Inl (Errorf ''refused'' [])),
     sc_vaultData = (\<lambda>body. Inr [(''password'', JString ''hunter2''), (''tries'', JPrinted ''3'')]), sc_secretString = Inr, sc_object = (\<lambda>s. Inl (Errorf ''no object'' []))\<rparr>"

lemmas demo_secrets = demoSecretsConfig_def demoAgeLib_def demoSecretClient_def NewVault_def trimSlashes_def vaultRequest_def

definition demoChain :: "SecretsProvider list" where
  "demoChain = [ageSecrets demoAgeLib \<lparr>ap_identities = [''k'']\<rparr>, vaultSecrets demoSecretClient (NewVault ''http://vault:8200/'' ''t'')]"

lemma demo_chain:
  "secretProviders demoAgeLib demoSecretClient demoSecretsConfig = Inr demoChain" "parserSecrets demoChain = Some (NewMulti demoChain)"
  by (simp_all add: demoChain_def secretProviders_def NewAge_def parserSecrets_def demoSecretsConfig_def demoAgeLib_def)

lemma demo_reference:
  "vault_Decrypt demoSecretClient (NewVault ''http://vault:8200/'' ''t'') ''vault:secret/data/shop#password'' = Inr [(''password'', ''hunter2'')]"
  "vault_Decrypt demoSecretClient (NewVault ''http://vault:8200/'' ''t'') ''vault:secret/data/shop'' = Inr [(''password'', ''hunter2''), (''tries'', ''3'')]"
  "\<not> age_CanHandle ''vault:secret/data/shop#password''" "\<not> age_CanHandle ''vault:secret/data/shop''" "\<not> age_CanHandle ''on''"
  by code_simp+

definition demoService :: ServiceSpec where
  "demoService = (demoSpec ''web'' ''shop:1'')\<lparr>sp_Environment := [(''MODE'', ''on''), (''PASS'', ''vault:secret/data/shop#password'')]\<rparr>"

lemma demo_handles:
  "canHandle (NewMulti demoChain) ''vault:secret/data/shop#password''" "\<not> canHandle (NewMulti demoChain) ''on''"
  "decrypt (NewMulti demoChain) ''vault:secret/data/shop#password'' = Inr [(''password'', ''hunter2'')]"
  using demo_reference by (simp_all add: NewMulti_def demoChain_def ageSecrets_def vaultSecrets_def vault_CanHandle_def HasPrefix_def)


text \<open>A reference without a field to a secret with several: the container gets the text of the reference.\<close>

lemma reference_without_field_kept: "resolvedValue (NewMulti demoChain) ''vault:secret/data/shop'' = ''vault:secret/data/shop''"
  using demo_reference by (simp add: resolvedValue_def NewMulti_def demoChain_def ageSecrets_def vaultSecrets_def vault_CanHandle_def HasPrefix_def)

text \<open>A reference that ends like an encrypted file is taken for one, because age is first in the chain.\<close>

lemma reference_taken_for_file:
  assumes "secretProviders lib client cfg = Inr ps" "scfg_AgeKeyFile cfg \<noteq> []" "age_CanHandle ref"
  shows "\<exists>p. multi_Decrypt ps ref = age_Decrypt lib p ref"
  using assms by (auto simp: secretProviders_def ageSecrets_def split: sum.splits)

section \<open>Encrypted files\<close>

text \<open>
  Encrypted variables win. With the providers of a configuration, the variables for substitution are those of the plain file, overridden
  by those of the encrypted file with extension age, overridden by those of the one with extension enc.
\<close>

theorem encrypted_variables_win:
  assumes "secretProviders lib client cfg = Inr ps" "parserSecrets ps = Some sp" "decryptEnv sp fs repoPath [''.env.age'', ''.env.enc''] plainVars = Inr vars"
  shows "map_of vars = map_of plainVars ++ decryptedVars sp fs repoPath ''.env.age'' ++ decryptedVars sp fs repoPath ''.env.enc''"
  using secrets_provider.decryptEnv_lookup [OF secretProviders_contract(1) [OF assms(1,2)] assms(3)] by simp

text \<open>A file of quoted assignments.\<close>

definition envLine :: "string \<times> string \<Rightarrow> string" where
  "envLine kv = fst kv @ ''='' @ [CHR 0x22] @ snd kv @ [CHR 0x22]"

definition envContent :: "string gomap \<Rightarrow> string" where
  "envContent env = concat (map (\<lambda>l. l @ [CHR 0x0A]) (map envLine env))"

definition plainKey :: "string \<Rightarrow> bool" where
  "plainKey key = (key \<noteq> [] \<and> hd key \<noteq> CHR ''#'' \<and> \<not> isSpace (hd key) \<and> CHR ''='' \<notin> set key \<and> CHR 0x0A \<notin> set key)"

lemma envContentLine_envLine: "plainKey key \<Longrightarrow> envContentLine (envLine (key, val)) = Some (key, val)"
proof -
  assume k: "plainKey key"
  then have "TrimSpace (envLine (key, val)) = envLine (key, val)" by (intro TrimSpace_id) (auto simp: envLine_def plainKey_def isSpace_def)
  moreover have "\<not> HasPrefix (envLine (key, val)) ''#''" using k by (cases key) (auto simp: envLine_def plainKey_def HasPrefix_def)
  moreover have "cut CHR ''='' (envLine (key, val)) = Some (key, CHR 0x22 # val @ [CHR 0x22])" using k by (simp add: envLine_def plainKey_def)
  moreover have "stripQuotes (CHR 0x22 # val @ [CHR 0x22]) = val" by (simp add: stripQuotes_def)
  ultimately show ?thesis using k by (simp add: envContentLine_def Let_def) (simp add: envLine_def)
qed

lemma fold_update_distinct: "wf_map (m @ env) \<Longrightarrow> fold (\<lambda>(k, v) r. AList.update k v r) env m = m @ env"
proof (induction env arbitrary: m)
  case (Cons kv env)
  have "fst kv \<notin> fst ` set m" using Cons.prems by auto
  then have "AList.update (fst kv) (snd kv) m = m @ [kv]" by (induction m) auto
  then show ?case using Cons.IH [of "m @ [kv]"] Cons.prems by (simp add: case_prod_unfold)
qed simp

text \<open>
  Round trip of an encrypted environment. The provider reads a file of quoted assignments back as the variables it was written from, whatever their values
  contain besides a line feed, as long as no line reaches the 64 KiB of the scanner.
\<close>

theorem encrypted_environment_roundtrip:
  assumes "wf_map env" "\<forall>(key, val)\<in>set env. plainKey key \<and> CHR 0x0A \<notin> set val \<and> length key + length val + 3 < MaxScanTokenSize"
    and "al_Open lib path = Inr f" "al_Decrypt lib f (ap_identities p) = Inr reader" "al_ReadAll lib reader = Inr (envContent env)"
  shows "age_Decrypt lib p path = Inr env"
proof -
  have "\<forall>l\<in>set (map envLine env). CHR 0x0A \<notin> set l \<and> length l < MaxScanTokenSize \<and> dropCR l = l"
    using assms(2) by (auto simp: envLine_def plainKey_def dropCR_def)
  then have "splitLines (envContent env) = map envLine env"
    using rawLines_unlines [of "map envLine env"] by (simp add: splitLines_def envContent_def takeWhile_eq_all_conv [THEN iffD2] map_idI)
  moreover have "fold (\<lambda>text result. case envContentLine text of None \<Rightarrow> result | Some (key, value) \<Rightarrow> AList.update key value result) (map envLine env) []
      = fold (\<lambda>(k, v) r. AList.update k v r) env []"
    unfolding fold_map by (intro fold_cong refl) (use assms(2) in \<open>auto simp: fun_eq_iff envContentLine_envLine\<close>)
  ultimately show ?thesis using assms fold_update_distinct [of "[]" env] by (simp add: age_Decrypt_def parseEnvContent_def)
qed

text \<open>The line that reaches the limit and all after it are lost, and the file is accepted.\<close>

lemma long_line_ends_environment:
  assumes "\<forall>l\<in>set (before @ long # after). CHR 0x0A \<notin> set l" "\<forall>l\<in>set before. length l < MaxScanTokenSize" "MaxScanTokenSize \<le> length long"
  shows "parseEnvContent (concat (map (\<lambda>l. l @ [CHR 0x0A]) (before @ long # after))) = parseEnvContent (concat (map (\<lambda>l. l @ [CHR 0x0A]) before))"
proof -
  have "splitLines (concat (map (\<lambda>l. l @ [CHR 0x0A]) before)) = map dropCR before"
    using assms rawLines_unlines [of before] by (simp add: splitLines_def takeWhile_eq_all_conv [THEN iffD2])
  then show ?thesis using long_line_ends_log [OF assms] by (simp only: parseEnvContent_def)
qed

end
