(* ===== verification/Notifier.thy ===== *)
theory Notifier
  imports History DaemonConfig
begin

text \<open>
  Notifications (\<^verbatim>\<open>notifier/notifier.go\<close>, \<^verbatim>\<open>notifier/slack.go\<close>, \<^verbatim>\<open>notifier/webhook.go\<close>) and the choice of the backends at
  startup (\<^verbatim>\<open>cli/serve.go\<close>). A backend answers with its error and the request it sent; the JSON encodings and the HTTP client are parameters. The time
  of an event is passed beside it.
\<close>

section \<open>Requests\<close>

record PostRequest =
  pr_URL :: string
  pr_Header :: "(string \<times> string) list"
  pr_Body :: string

record SlackAttachment =
  sa_color :: string
  sa_title :: string
  sa_text :: err
  sa_footer :: string
  sa_ts :: int

text \<open>\<open>po_Do\<close> is the status of the answer or the error of the transport.\<close>

record Poster =
  po_Slack :: "SlackAttachment list \<Rightarrow> string result"
  po_Event :: "NotificationEvent \<Rightarrow> time \<Rightarrow> string result"
  po_NewRequest :: "string \<Rightarrow> err option"
  po_Do :: "PostRequest \<Rightarrow> nat result"

type_synonym backend = "NotificationEvent \<Rightarrow> time \<Rightarrow> err option \<times> PostRequest list"

definition post :: "Poster \<Rightarrow> string \<Rightarrow> string \<Rightarrow> (string \<times> string) list \<Rightarrow> string \<Rightarrow> (nat \<Rightarrow> err option) \<Rightarrow> err option \<times> PostRequest list" where
  "post po label url header body check =
     (case po_NewRequest po url of
        Some e \<Rightarrow> (Some (Wrapf ''creating %s request: %w'' [label] e), [])
      | None \<Rightarrow>
          (let req = \<lparr>pr_URL = url, pr_Header = header, pr_Body = body\<rparr>
           in case po_Do po req of
                Inl e \<Rightarrow> (Some (Wrapf ''sending %s notification: %w'' [label] e), [req])
              | Inr status \<Rightarrow> (check status, [req])))"

section \<open>Slack\<close>

definition slackColor :: "string \<Rightarrow> string" where
  "slackColor kind =
     (if kind = ''sync.failure'' \<or> kind = ''health.degraded'' then ''#ff0000'' else if kind = ''out_of_sync'' then ''#ffaa00'' else ''#36a64f'')"

definition slackPayload :: "NotificationEvent \<Rightarrow> time \<Rightarrow> SlackAttachment list" where
  "slackPayload ev t = [\<lparr>sa_color = slackColor (ne_Type ev), sa_title = ''['' @ ne_AppName ev @ ''] '' @ ne_Type ev, sa_text = ne_Message ev,
     sa_footer = ''dockercd'', sa_ts = t div Second\<rparr>]"

definition slack_Notify :: "Poster \<Rightarrow> string \<Rightarrow> backend" where
  "slack_Notify po webhookURL ev t =
     (case po_Slack po (slackPayload ev t) of
        Inl e \<Rightarrow> (Some (Wrapf ''marshaling slack payload: %w'' [] e), [])
      | Inr body \<Rightarrow>
          post po ''slack'' webhookURL [(''Content-Type'', ''application/json'')] body
            (\<lambda>status. if status \<noteq> 200 then Some (Errorf ''slack returned HTTP %d'' [Itoa status]) else None))"

section \<open>Webhooks\<close>

text \<open>
  \<^verbatim>\<open>Header.Set\<close> with the canonical form of a header key: the first letter and every letter after a hyphen in upper
  case, the others in lower case, and a key with a byte that is no token character unchanged.
\<close>

definition tokenChar :: "char \<Rightarrow> bool" where
  "tokenChar c = ((33 \<le> (of_char c :: nat) \<and> (of_char c :: nat) \<le> 126) \<and> c \<notin> set ''(),/:;<=>?@[]{}'' \<and> c \<noteq> CHR 0x22 \<and> c \<noteq> CHR 0x5C)"

fun canonicalFrom :: "bool \<Rightarrow> string \<Rightarrow> string" where
  "canonicalFrom upper [] = []"
| "canonicalFrom upper (c # cs) = (if upper then toUpperChar c else toLowerChar c) # canonicalFrom (c = CHR ''-'') cs"

definition CanonicalHeaderKey :: "string \<Rightarrow> string" where
  "CanonicalHeaderKey key = (if list_all tokenChar key then canonicalFrom True key else key)"

definition headerSet :: "string \<times> string \<Rightarrow> (string \<times> string) list \<Rightarrow> (string \<times> string) list" where
  "headerSet kv header = AList.update (CanonicalHeaderKey (fst kv)) (snd kv) header"

definition webhook_Notify :: "Poster \<Rightarrow> string \<Rightarrow> string gomap \<Rightarrow> backend" where
  "webhook_Notify po url headers ev t =
     (case po_Event po ev t of
        Inl e \<Rightarrow> (Some (Wrapf ''marshaling webhook payload: %w'' [] e), [])
      | Inr body \<Rightarrow>
          post po ''webhook'' url (fold headerSet headers [(''Content-Type'', ''application/json'')]) body
            (\<lambda>status. if status \<ge> 400 then Some (Errorf ''webhook returned HTTP %d'' [Itoa status]) else None))"

section \<open>Several backends\<close>

text \<open>An error of a backend is logged; the log is the second component.\<close>

fun multi_Notify :: "backend list \<Rightarrow> NotificationEvent \<Rightarrow> time \<Rightarrow> err option \<times> err list \<times> PostRequest list" where
  "multi_Notify [] ev t = (None, [], [])"
| "multi_Notify (n # ns) ev t =
     (let (err, sent) = n ev t; (result, logged, rest) = multi_Notify ns ev t
      in (result, (case err of None \<Rightarrow> logged | Some e \<Rightarrow> e # logged), sent @ rest))"

record NotifierConfig =
  ncfg_SlackWebhookURL :: string
  ncfg_NotificationWebhookURL :: string
  ncfg_NotificationWebhookHeaders :: "string gomap"

definition notifiers :: "Poster \<Rightarrow> NotifierConfig \<Rightarrow> backend list" where
  "notifiers po cfg =
     (if ncfg_SlackWebhookURL cfg \<noteq> [] then [slack_Notify po (ncfg_SlackWebhookURL cfg)] else [])
     @ (if ncfg_NotificationWebhookURL cfg \<noteq> [] then [webhook_Notify po (ncfg_NotificationWebhookURL cfg) (ncfg_NotificationWebhookHeaders cfg)] else [])"

text \<open>Without backends there is no notifier; else its answer to the reconciler and to the health monitor.\<close>

definition appNotifier :: "Poster \<Rightarrow> NotifierConfig \<Rightarrow> (NotificationEvent \<Rightarrow> time \<Rightarrow> err option \<times> err list \<times> PostRequest list) option" where
  "appNotifier po cfg = (if notifiers po cfg = [] then None else Some (multi_Notify (notifiers po cfg)))"

section \<open>The contract of a backend\<close>

text \<open>A backend fails without a request, or sends one to its own address.\<close>

definition oneRequest :: "string \<Rightarrow> err option \<times> PostRequest list \<Rightarrow> bool" where
  "oneRequest url r = (fst r \<noteq> None \<and> snd r = [] \<or> (\<exists>req. snd r = [req] \<and> pr_URL req = url))"

locale notification_backend =
  fixes address :: string and notify_one :: backend
  assumes one_request: "oneRequest address (notify_one ev t)"
begin

lemma addressed: "req \<in> set (snd (notify_one ev t)) \<Longrightarrow> pr_URL req = address"
  using one_request [of ev t] by (auto simp: oneRequest_def)

lemma success_one: "fst (notify_one ev t) = None \<Longrightarrow> \<exists>req. snd (notify_one ev t) = [req] \<and> pr_URL req = address"
  using one_request [of ev t] by (auto simp: oneRequest_def)

end

lemma post_one: "oneRequest url (post po label url header body check)"
  by (auto simp: post_def Let_def oneRequest_def split: option.splits sum.splits)

interpretation slack: notification_backend url "slack_Notify po url" for po url
proof
  fix ev t
  show "oneRequest url (slack_Notify po url ev t)"
    unfolding slack_Notify_def by (cases "po_Slack po (slackPayload ev t)") (simp add: oneRequest_def, simp only: sum.case post_one)
qed

interpretation webhook: notification_backend url "webhook_Notify po url headers" for po url headers
proof
  fix ev t
  show "oneRequest url (webhook_Notify po url headers ev t)"
    unfolding webhook_Notify_def by (cases "po_Event po ev t") (simp add: oneRequest_def, simp only: sum.case post_one)
qed

section \<open>Delivery\<close>

lemma multi_Notify_eq:
  "multi_Notify ns ev t = (None, List.map_filter (\<lambda>n. fst (n ev t)) ns, concat (map (\<lambda>n. snd (n ev t)) ns))"
  by (induction ns) (auto simp: map_filter_simps split: prod.splits option.splits)

text \<open>
  Notifications reach every backend. The notifier of a configuration never reports an error; each configured backend is called with the event
  whatever the others answered, a request goes to a configured address only, and a backend without a logged error got exactly one.
\<close>

theorem notifications_reach_backends:
  assumes "appNotifier po cfg = Some n" "n ev t = (result, logged, sent)"
  shows "result = None"
    and "req \<in> set sent \<Longrightarrow> pr_URL req \<noteq> [] \<and> pr_URL req \<in> {ncfg_SlackWebhookURL cfg, ncfg_NotificationWebhookURL cfg}"
    and "logged = [] \<Longrightarrow> map pr_URL sent = filter (\<lambda>url. url \<noteq> []) [ncfg_SlackWebhookURL cfg, ncfg_NotificationWebhookURL cfg]"
proof -
  have n: "n = multi_Notify (notifiers po cfg)" using assms(1) by (auto simp: appNotifier_def split: if_splits)
  have r: "result = None" "logged = List.map_filter (\<lambda>n. fst (n ev t)) (notifiers po cfg)" "sent = concat (map (\<lambda>n. snd (n ev t)) (notifiers po cfg))"
    using assms(2) by (simp_all add: n multi_Notify_eq)
  show "result = None" by (rule r)
  show "req \<in> set sent \<Longrightarrow> pr_URL req \<noteq> [] \<and> pr_URL req \<in> {ncfg_SlackWebhookURL cfg, ncfg_NotificationWebhookURL cfg}"
    unfolding r(3) by (auto simp: notifiers_def dest!: slack.addressed webhook.addressed split: if_splits)
  assume "logged = []"
  then have quiet: "\<forall>n\<in>set (notifiers po cfg). fst (n ev t) = None" unfolding r(2) by (auto simp: map_filter_def filter_empty_conv)
  then show "map pr_URL sent = filter (\<lambda>url. url \<noteq> []) [ncfg_SlackWebhookURL cfg, ncfg_NotificationWebhookURL cfg]"
    unfolding r(3) by (auto simp: notifiers_def dest!: slack.success_one webhook.success_one)
qed

text \<open>Slack is sent the message and not the data of an event; the webhook is sent both.\<close>

lemma slack_ignores_data: "slack_Notify po url (ev\<lparr>ne_Data := d\<rparr>) t = slack_Notify po url ev t"
  by (simp add: slack_Notify_def slackPayload_def)

lemma webhook_sends_event: "req \<in> set (snd (webhook_Notify po url headers ev t)) \<Longrightarrow> po_Event po ev t = Inr (pr_Body req)"
  by (auto simp: webhook_Notify_def post_def Let_def simp del: Itoa.simps split: sum.splits option.splits)

text \<open>The last header of a canonical key wins, also over the content type, and every other is sent.\<close>

lemma fold_headerSet: "map_of (fold headerSet hs header) k =
  (case map_of (rev (map (\<lambda>kv. (CanonicalHeaderKey (fst kv), snd kv)) hs)) k of Some v \<Rightarrow> Some v | None \<Rightarrow> map_of header k)"
  by (induction hs arbitrary: header) (auto simp: headerSet_def update_conv' map_add_def split: option.splits)

end
