(* ===== verification/CredentialRegistry.thy ===== *)
theory CredentialRegistry
  imports Presentation DaemonConfig
begin

text \<open>
  The registry of presentation credentials (\<^verbatim>\<open>api/presentation_registry.go\<close>, \<^verbatim>\<open>api/presentation_registry_file_unix.go\<close>): a bounded file with
  digests of tokens in hexadecimal, read once at startup. Opening the file and decoding JSON are parameters.
\<close>

section \<open>Hexadecimal text\<close>

definition hexVal :: "char \<Rightarrow> nat option" where
  "hexVal c =
     (let n = of_char c :: nat
      in if 48 \<le> n \<and> n \<le> 57 then Some (n - 48)
         else if 97 \<le> n \<and> n \<le> 102 then Some (n - 87)
         else if 65 \<le> n \<and> n \<le> 70 then Some (n - 55)
         else None)"

fun hex_DecodeString :: "string \<Rightarrow> string option" where
  "hex_DecodeString [] = Some []"
| "hex_DecodeString [c] = None"
| "hex_DecodeString (a # b # cs) =
     (case (hexVal a, hexVal b) of
        (Some x, Some y) \<Rightarrow> map_option (Cons (char_of (16 * x + y))) (hex_DecodeString cs)
      | _ \<Rightarrow> None)"

definition hexDigit :: "nat \<Rightarrow> char" where
  "hexDigit n = char_of (if n < 10 then 48 + n else 87 + n)"

definition hex_EncodeToString :: "string \<Rightarrow> string" where
  "hex_EncodeToString s = concat (map (\<lambda>c. [hexDigit (of_char c div 16), hexDigit (of_char c mod 16)]) s)"

lemma hexVal_hexDigit: "n < 16 \<Longrightarrow> hexVal (hexDigit n) = Some n"
  by (auto simp: hexVal_def hexDigit_def Let_def of_char_of)

lemma nibble: "of_char c div 16 < (16 :: nat)"
  using less_mult_imp_div_less [of "of_char c" 16 16] nat_of_char_less_256 [of c] by simp

lemma hex_roundtrip: "hex_DecodeString (hex_EncodeToString s) = Some s"
proof (induction s)
  case (Cons c s)
  have "hexVal (hexDigit (of_char c div 16)) = Some (of_char c div 16)" "hexVal (hexDigit (of_char c mod 16)) = Some (of_char c mod 16)"
    using nibble by (auto intro!: hexVal_hexDigit)
  then show ?case using Cons by (simp add: hex_EncodeToString_def)
qed (simp add: hex_EncodeToString_def)

section \<open>Loading\<close>

definition sha256_Size :: nat where "sha256_Size = 32"

definition maxPresentationCredentialRegistrySize :: nat where "maxPresentationCredentialRegistrySize = 1048576"

record PresentationCredentialRecord =
  cr_TokenSHA256 :: string
  cr_CredentialID :: string
  cr_Subject :: string
  cr_Audience :: string
  cr_IssuedAt :: "time option"
  cr_ExpiresAt :: "time option"
  cr_Capabilities :: "string list"
  cr_Applications :: "string list"
  cr_Revoked :: bool

text \<open>An opened descriptor: what \<^verbatim>\<open>Stat\<close> says of it (regular, size) and its content.\<close>

record RegistryFile =
  rf_Stat :: "(bool \<times> nat) result"
  rf_Content :: string

record RegistryFS =
  rs_Open :: "string \<Rightarrow> RegistryFile option result"
  rs_Decode :: "string \<Rightarrow> (PresentationCredentialRecord list \<times> JSONRest) result"

definition openPresentationCredentialRegistry :: "RegistryFS \<Rightarrow> string \<Rightarrow> RegistryFile result" where
  "openPresentationCredentialRegistry fs path =
     (case rs_Open fs path of
        Inl e \<Rightarrow> Inl (Wrapf ''opening presentation credential registry: %w'' [] e)
      | Inr None \<Rightarrow> Inl (Errorf ''opening presentation credential registry: invalid file descriptor'' [])
      | Inr (Some file) \<Rightarrow> Inr file)"

definition decodePresentationTokenDigest :: "string \<Rightarrow> string result" where
  "decodePresentationTokenDigest token =
     (if TrimSpace token \<noteq> token \<or> ToLower token \<noteq> token then Inl (Errorf ''token_sha256 must be lowercase hexadecimal'' [])
      else case hex_DecodeString token of
        Some decoded \<Rightarrow> if length decoded \<noteq> sha256_Size then Inl (Errorf ''token_sha256 must be a SHA-256 digest'' []) else Inr decoded
      | None \<Rightarrow> Inl (Errorf ''token_sha256 must be a SHA-256 digest'' []))"

definition requireOneDocument :: "JSONRest \<Rightarrow> err option" where
  "requireOneDocument rest =
     (case rest of
        JSONEOF \<Rightarrow> None
      | JSONDocument \<Rightarrow> Some (Errorf ''presentation credential registry must contain exactly one JSON document'' [])
      | JSONError e \<Rightarrow> Some (Wrapf ''reading presentation credential registry: %w'' [] e))"

definition credentialOf :: "string \<Rightarrow> PresentationCredentialRecord \<Rightarrow> PresentationCredential" where
  "credentialOf digest r = \<lparr>pc_TokenDigest = digest, pc_CredentialID = cr_CredentialID r, pc_Subject = cr_Subject r, pc_Audience = cr_Audience r,
     pc_IssuedAt = cr_IssuedAt r, pc_ExpiresAt = cr_ExpiresAt r, pc_Capabilities = cr_Capabilities r, pc_Applications = cr_Applications r,
     pc_Revoked = cr_Revoked r\<rparr>"

fun decodeRecords :: "nat \<Rightarrow> PresentationCredentialRecord list \<Rightarrow> PresentationCredential list result" where
  "decodeRecords index [] = Inr []"
| "decodeRecords index (r # rs) =
     (case decodePresentationTokenDigest (cr_TokenSHA256 r) of
        Inl e \<Rightarrow> Inl (Wrapf ''presentation credential %d: %w'' [Itoa index] e)
      | Inr digest \<Rightarrow> (case decodeRecords (index + 1) rs of Inl e \<Rightarrow> Inl e | Inr cs \<Rightarrow> Inr (credentialOf digest r # cs)))"

definition LoadOpaquePresentationAuthenticatorFile :: "RegistryFS \<Rightarrow> string \<Rightarrow> PresentationCredential list result" where
  "LoadOpaquePresentationAuthenticatorFile fs path0 =
     (let path = TrimSpace path0
      in if path = [] then Inl (Errorf ''presentation credential registry path is empty'' [])
         else case openPresentationCredentialRegistry fs path of
           Inl e \<Rightarrow> Inl (Wrapf ''opening presentation credential registry: %w'' [] e)
         | Inr file \<Rightarrow>
             (case rf_Stat file of
                Inl e \<Rightarrow> Inl (Wrapf ''stating presentation credential registry: %w'' [] e)
              | Inr (regular, bytes) \<Rightarrow>
                  if \<not> regular then Inl (Errorf ''presentation credential registry must be a regular file'' [])
                  else if bytes > maxPresentationCredentialRegistrySize
                  then Inl (Errorf ''presentation credential registry exceeds %d bytes'' [Itoa maxPresentationCredentialRegistrySize])
                  else case rs_Decode fs (take (maxPresentationCredentialRegistrySize + 1) (rf_Content file)) of
                    Inl e \<Rightarrow> Inl (Wrapf ''decoding presentation credential registry: %w'' [] e)
                  | Inr (records, rest) \<Rightarrow>
                      (case requireOneDocument rest of
                         Some e \<Rightarrow> Inl e
                       | None \<Rightarrow>
                           if records = [] then Inl (Errorf ''presentation credential registry contains no credentials'' [])
                           else case decodeRecords 0 records of
                             Inl e \<Rightarrow> Inl e
                           | Inr credentials \<Rightarrow>
                               (case NewOpaquePresentationAuthenticator credentials of
                                  Inl e \<Rightarrow> Inl (Wrapf ''validating presentation credential registry: %w'' [] e)
                                | Inr authenticator \<Rightarrow> Inr authenticator))))"

text \<open>A digest is accepted in exactly one spelling.\<close>

lemma hexVal_lower: "hexVal c = Some x \<Longrightarrow> toLowerChar c = c \<Longrightarrow> c = hexDigit x \<and> x < 16"
  by (auto simp: hexVal_def hexDigit_def toLowerChar_def Let_def add.commute split: if_splits)

lemma hex_decode_lower: "hex_DecodeString t = Some d \<Longrightarrow> ToLower t = t \<Longrightarrow> t = hex_EncodeToString d"
proof (induction t arbitrary: d rule: hex_DecodeString.induct)
  case (3 a b cs)
  obtain x y e where h: "hexVal a = Some x" "hexVal b = Some y" "hex_DecodeString cs = Some e" "d = char_of (16 * x + y) # e"
    using "3.prems"(1) by (auto split: option.splits)
  have l: "a = hexDigit x" "b = hexDigit y" "x < 16" "y < 16" "ToLower cs = cs"
    using hexVal_lower [OF h(1)] hexVal_lower [OF h(2)] "3.prems"(2) by (simp_all add: ToLower_def)
  then have "of_char (char_of (16 * x + y) :: char) = 16 * x + y" by (simp add: of_char_of)
  then show ?case using "3.IH" [OF refl h(1,2) h(3) l(5)] h(4) l by (simp add: hex_EncodeToString_def)
qed (auto simp: hex_EncodeToString_def)

lemma hexDigit_plain: "n < 16 \<Longrightarrow> \<not> isSpace (hexDigit n) \<and> toLowerChar (hexDigit n) = hexDigit n"
  by (auto simp: hexDigit_def isSpace_def toLowerChar_def of_char_of)

lemma hex_plain: "c \<in> set (hex_EncodeToString s) \<Longrightarrow> \<not> isSpace c \<and> toLowerChar c = c"
proof -
  assume "c \<in> set (hex_EncodeToString s)"
  then obtain x where "c = hexDigit (of_char x div 16) \<or> c = hexDigit (of_char x mod 16)" by (auto simp: hex_EncodeToString_def)
  then show ?thesis using hexDigit_plain nibble [of x] by auto
qed

lemma digest_spelling: "decodePresentationTokenDigest t = Inr d \<longleftrightarrow> t = hex_EncodeToString d \<and> length d = 32"
proof
  assume "decodePresentationTokenDigest t = Inr d"
  then have "hex_DecodeString t = Some d" "ToLower t = t" "length d = 32"
    by (auto simp: decodePresentationTokenDigest_def sha256_Size_def split: if_splits option.splits)
  then show "t = hex_EncodeToString d \<and> length d = 32" using hex_decode_lower by blast
next
  assume t: "t = hex_EncodeToString d \<and> length d = 32"
  then have "d \<noteq> []" by auto
  then have "t \<noteq> []" using t by (cases d) (auto simp: hex_EncodeToString_def)
  then have "TrimSpace t = t" "ToLower t = t"
    using hex_plain [of _ d] t by (auto intro!: TrimSpace_id map_idI simp: ToLower_def)
  then show "decodePresentationTokenDigest t = Inr d" using t hex_roundtrip [of d] by (simp add: decodePresentationTokenDigest_def sha256_Size_def)
qed

section \<open>What a loaded registry accepts\<close>

lemma decodeRecords_Inr:
  "decodeRecords i rs = Inr cs \<Longrightarrow> list_all2 (\<lambda>r c. \<exists>d. decodePresentationTokenDigest (cr_TokenSHA256 r) = Inr d \<and> c = credentialOf d r) rs cs"
  by (induction rs arbitrary: i cs) (auto split: sum.splits simp del: Itoa.simps)

lemma checkCredentials_Inr:
  "checkCredentials before cs = Inr out \<Longrightarrow> distinct (map pc_TokenDigest before)
     \<Longrightarrow> out = before @ map trimCredential cs \<and> distinct (map pc_TokenDigest out)"
proof (induction cs arbitrary: before)
  case (Cons c cs)
  let ?c = "trimCredential c"
  have ok: "credentialErr (length before) ?c before = None" "checkCredentials (before @ [?c]) cs = Inr out"
    using Cons.prems(1) by (auto simp: Let_def split: option.splits)
  from ok(1) have "pc_TokenDigest ?c \<notin> pc_TokenDigest ` set before"
    by (auto simp: credentialErr_def simp del: Itoa.simps split: if_splits option.splits)
  then have "distinct (map pc_TokenDigest (before @ [?c]))" using Cons.prems(2) by simp
  from Cons.IH [OF ok(2) this] have "out = (before @ [?c]) @ map trimCredential cs \<and> distinct (map pc_TokenDigest out)" .
  then show ?case unfolding list.map append_assoc append_Cons append_Nil .
qed simp

lemma Load_Inr:
  assumes "LoadOpaquePresentationAuthenticatorFile fs path = Inr cs"
  obtains f records where "rs_Open fs (TrimSpace path) = Inr (Some f)"
    "rs_Decode fs (take (maxPresentationCredentialRegistrySize + 1) (rf_Content f)) = Inr (records, JSONEOF)" "records \<noteq> []"
    "list_all2 (\<lambda>r c. \<exists>d. decodePresentationTokenDigest (cr_TokenSHA256 r) = Inr d \<and> c = trimCredential (credentialOf d r)) records cs"
    "distinct (map pc_TokenDigest cs)"
proof -
  obtain f records credentials where l: "rs_Open fs (TrimSpace path) = Inr (Some f)"
    "rs_Decode fs (take (maxPresentationCredentialRegistrySize + 1) (rf_Content f)) = Inr (records, JSONEOF)" "records \<noteq> []"
    "decodeRecords 0 records = Inr credentials" "NewOpaquePresentationAuthenticator credentials = Inr cs"
    using assms by (auto simp: LoadOpaquePresentationAuthenticatorFile_def openPresentationCredentialRegistry_def requireOneDocument_def Let_def
      split: if_splits sum.splits option.splits prod.splits JSONRest.splits)
  have "cs = map trimCredential credentials" "distinct (map pc_TokenDigest cs)"
    using checkCredentials_Inr [OF l(5) [unfolded NewOpaquePresentationAuthenticator_def]] by auto
  moreover from decodeRecords_Inr [OF l(4)]
  have "list_all2 (\<lambda>r c. \<exists>d. decodePresentationTokenDigest (cr_TokenSHA256 r) = Inr d \<and> c = trimCredential (credentialOf d r)) records (map trimCredential credentials)"
    unfolding list_all2_map2 by (auto elim!: list_all2_mono)
  ultimately show thesis using that l by blast
qed

lemma authenticate_iff:
  assumes "distinct (map pc_TokenDigest cs)" "TrimSpace token \<noteq> []"
  shows "AuthenticatePresentation digest cs now token = Inr p \<longleftrightarrow>
    (\<exists>c\<in>set cs. pc_TokenDigest c = digest token \<and> (\<exists>issued expires. \<not> pc_Revoked c \<and> pc_IssuedAt c = Some issued \<and> pc_ExpiresAt c = Some expires
       \<and> issued \<le> now \<and> now < expires
       \<and> p = \<lparr>pr_Subject = pc_Subject c, pr_CredentialID = pc_CredentialID c, pr_Audience = pc_Audience c, pr_IssuedAt = issued, pr_ExpiresAt = expires,
         pr_capabilities = pc_Capabilities c, pr_applications = pc_Applications c\<rparr>))"
proof (cases "find (\<lambda>c. pc_TokenDigest c = digest token) (rev cs)")
  case None
  then have "\<forall>c\<in>set cs. pc_TokenDigest c \<noteq> digest token" by (simp add: find_None_iff)
  then show ?thesis using assms(2) None by (auto simp: AuthenticatePresentation_def)
next
  case (Some c)
  then have c: "c \<in> set cs" "pc_TokenDigest c = digest token" by (auto dest: find_SomeD)
  have "c' = c" if "c' \<in> set cs" "pc_TokenDigest c' = digest token" for c' using that c assms(1) inj_onD [of pc_TokenDigest "set cs" c' c] by (simp add: distinct_map)
  then have "(\<exists>c\<in>set cs. pc_TokenDigest c = digest token \<and> Q c) \<longleftrightarrow> Q c" for Q using c by blast
  then show ?thesis using assms(2) Some by (auto simp: AuthenticatePresentation_def split: option.splits)
qed

text \<open>
  C25: Registered tokens. When the registry file was accepted, a token is authenticated exactly when some record of the file has
  its digest in hexadecimal, is not revoked, and is within its validity; the principal then has that record's
  identity without surrounding blanks and its capabilities and applications.
\<close>

theorem registered_tokens_authenticate:
  assumes "LoadOpaquePresentationAuthenticatorFile fs path = Inr cs" "rs_Open fs (TrimSpace path) = Inr (Some f)"
    "rs_Decode fs (take (maxPresentationCredentialRegistrySize + 1) (rf_Content f)) = Inr (records, JSONEOF)"
    "TrimSpace token \<noteq> []" "length (digest token) = 32"
  shows "AuthenticatePresentation digest cs now token = Inr p \<longleftrightarrow>
    (\<exists>r\<in>set records. \<exists>issued expires. cr_TokenSHA256 r = hex_EncodeToString (digest token) \<and> \<not> cr_Revoked r
       \<and> cr_IssuedAt r = Some issued \<and> cr_ExpiresAt r = Some expires \<and> issued \<le> now \<and> now < expires
       \<and> p = \<lparr>pr_Subject = TrimSpace (cr_Subject r), pr_CredentialID = TrimSpace (cr_CredentialID r), pr_Audience = TrimSpace (cr_Audience r),
            pr_IssuedAt = issued, pr_ExpiresAt = expires, pr_capabilities = cr_Capabilities r, pr_applications = cr_Applications r\<rparr>)"
proof -
  obtain f' records' where l: "rs_Open fs (TrimSpace path) = Inr (Some f')"
    "rs_Decode fs (take (maxPresentationCredentialRegistrySize + 1) (rf_Content f')) = Inr (records', JSONEOF)"
    "list_all2 (\<lambda>r c. \<exists>d. decodePresentationTokenDigest (cr_TokenSHA256 r) = Inr d \<and> c = trimCredential (credentialOf d r)) records' cs"
    "distinct (map pc_TokenDigest cs)" using Load_Inr [OF assms(1)] .
  have same: "records' = records" using l(1,2) assms(2,3) by simp
  have "(\<exists>c\<in>set cs. pc_TokenDigest c = digest token \<and> Q c)
    \<longleftrightarrow> (\<exists>r\<in>set records. cr_TokenSHA256 r = hex_EncodeToString (digest token) \<and> Q (trimCredential (credentialOf (digest token) r)))" for Q
  proof -
    have "(\<exists>c\<in>set cs. P c) \<longleftrightarrow> (\<exists>r\<in>set records. \<exists>d. decodePresentationTokenDigest (cr_TokenSHA256 r) = Inr d \<and> P (trimCredential (credentialOf d r)))" for P
      using l(3) unfolding same by (induction records cs rule: list_all2_induct) auto
    from this [of "\<lambda>c. pc_TokenDigest c = digest token \<and> Q c"] show ?thesis
      using assms(5) by (auto simp: digest_spelling trimCredential_def credentialOf_def)
  qed
  note this [of "\<lambda>c. \<exists>issued expires. \<not> pc_Revoked c \<and> pc_IssuedAt c = Some issued \<and> pc_ExpiresAt c = Some expires \<and> issued \<le> now \<and> now < expires
       \<and> p = \<lparr>pr_Subject = pc_Subject c, pr_CredentialID = pc_CredentialID c, pr_Audience = pc_Audience c, pr_IssuedAt = issued, pr_ExpiresAt = expires,
         pr_capabilities = pc_Capabilities c, pr_applications = pc_Applications c\<rparr>"]
  then show ?thesis unfolding authenticate_iff [OF l(4) assms(4)] by (simp add: trimCredential_def credentialOf_def)
qed

definition demoDigest :: "string \<Rightarrow> string" where
  "demoDigest token = take 32 (token @ replicate 32 (CHR ''x''))"

definition demoRegistryRecord :: PresentationCredentialRecord where
  "demoRegistryRecord = \<lparr>cr_TokenSHA256 = hex_EncodeToString (demoDigest ''s3cret''), cr_CredentialID = ''web-ui'', cr_Subject = '' console '', cr_Audience = ''prod'',
     cr_IssuedAt = Some 0, cr_ExpiresAt = Some 10, cr_Capabilities = [''application:read''], cr_Applications = [''web''], cr_Revoked = False\<rparr>"

definition demoRegistryFS :: RegistryFS where
  "demoRegistryFS = \<lparr>rs_Open = (\<lambda>path. Inr (Some \<lparr>rf_Stat = Inr (True, 1), rf_Content = []\<rparr>)), rs_Decode = (\<lambda>content. Inr ([demoRegistryRecord], JSONEOF))\<rparr>"

lemma demo_registry_loads: "\<exists>cs. LoadOpaquePresentationAuthenticatorFile demoRegistryFS ''/etc/registry.json'' = Inr cs"
proof -
  have "length (demoDigest ''s3cret'') = 32" by (simp add: demoDigest_def)
  then have d: "decodePresentationTokenDigest (cr_TokenSHA256 demoRegistryRecord) = Inr (demoDigest ''s3cret'')"
    unfolding demoRegistryRecord_def by (simp add: digest_spelling)
  have "TrimSpace ''web-ui'' = ''web-ui''" "TrimSpace '' console '' = ''console''" "TrimSpace ''prod'' = ''prod''" "TrimSpace ''web'' = ''web''" by code_simp+
  then have "NewOpaquePresentationAuthenticator [credentialOf dg demoRegistryRecord] = Inr [trimCredential (credentialOf dg demoRegistryRecord)]" for dg
    by (simp add: NewOpaquePresentationAuthenticator_def trimCredential_def credentialErr_def credentialOf_def demoRegistryRecord_def validPeriod_def
      maxPresentationApplicationGrants_def validCapabilities_def del: Itoa.simps)
  moreover have "TrimSpace ''/etc/registry.json'' = ''/etc/registry.json''" by code_simp
  ultimately show ?thesis
    using d by (auto simp: LoadOpaquePresentationAuthenticatorFile_def openPresentationCredentialRegistry_def demoRegistryFS_def requireOneDocument_def
      maxPresentationCredentialRegistrySize_def simp del: Itoa.simps)
qed

theorem registered_tokens_authenticate_witness:
  "\<exists>cs p. LoadOpaquePresentationAuthenticatorFile demoRegistryFS ''/etc/registry.json'' = Inr cs
     \<and> AuthenticatePresentation demoDigest cs 5 ''s3cret'' = Inr p \<and> pr_Subject p = ''console'' \<and> pr_applications p = [''web'']"
proof -
  obtain cs where cs: "LoadOpaquePresentationAuthenticatorFile demoRegistryFS ''/etc/registry.json'' = Inr cs" using demo_registry_loads ..
  have s: "TrimSpace ''s3cret'' \<noteq> []" "TrimSpace '' console '' = ''console''" "length (demoDigest ''s3cret'') = 32" by (code_simp, code_simp, simp add: demoDigest_def)
  let ?p = "\<lparr>pr_Subject = ''console'', pr_CredentialID = TrimSpace ''web-ui'', pr_Audience = TrimSpace ''prod'', pr_IssuedAt = 0, pr_ExpiresAt = 10,
    pr_capabilities = [''application:read''], pr_applications = [''web'']\<rparr>"
  have "AuthenticatePresentation demoDigest cs 5 ''s3cret'' = Inr ?p"
    using registered_tokens_authenticate [OF cs, where digest = demoDigest and token = "''s3cret''" and f = "\<lparr>rf_Stat = Inr (True, 1), rf_Content = []\<rparr>" and records = "[demoRegistryRecord]" and now = 5 and p = ?p] s
    by (simp add: demoRegistryFS_def demoRegistryRecord_def)
  then show ?thesis using cs by auto
qed

end
