(* ===== verification/Cli.thy ===== *)
theory Cli
  imports CredentialRegistry
begin

text \<open>
  The command line client of the controller (\<^verbatim>\<open>cli/response.go\<close>, \<^verbatim>\<open>cli/root.go\<close>, \<^verbatim>\<open>cli/app_*.go\<close>): each command makes one request and returns
  its error, which is the exit status, and what it prints. The HTTP transport, the JSON codecs and the alignment of columns are parameters; flags are arguments.
\<close>

section \<open>Answers of the controller\<close>

text \<open>The fields of the answers that the commands read.\<close>

record CliDiff =
  cd_InSync :: bool
  cd_Summary :: string
  cd_ToCreate :: "string list"
  cd_ToUpdate :: "(string \<times> (string \<times> string \<times> string) list) list"
  cd_ToRemove :: "string list"

record CliSyncResult =
  cs_Result :: string
  cs_CommitSHA :: string
  cs_DurationMs :: int
  cs_Diff :: "CliDiff option"
  cs_Error :: string

record CliApplication =
  ca_Name :: string
  ca_SyncStatus :: string
  ca_HealthStatus :: string
  ca_RepoURL :: string
  ca_TargetRevision :: string
  ca_Path :: string
  ca_ProjectName :: string
  ca_LastSyncedSHA :: string
  ca_LastSyncTime :: string
  ca_LastError :: string
  ca_Services :: "(string \<times> string \<times> string \<times> string) list"

record ApiRequest =
  aq_Method :: string
  aq_URL :: string
  aq_Header :: "(string \<times> string) list"
  aq_Body :: string

text \<open>A response with its status and what reading its body gives.\<close>

record HttpAnswer =
  an_StatusCode :: nat
  an_Body :: "string result"

record CliEnv =
  cl_apiToken :: string
  cl_Getenv :: "string \<Rightarrow> string"
  cl_NewRequest :: "ApiRequest \<Rightarrow> err option"
  cl_Do :: "ApiRequest \<Rightarrow> HttpAnswer result"
  cl_StatusText :: "nat \<Rightarrow> string"
  cl_errorOf :: "string \<Rightarrow> string"
  cl_syncResult :: "string \<Rightarrow> CliSyncResult result"
  cl_diff :: "string \<Rightarrow> CliDiff result"
  cl_application :: "string \<Rightarrow> CliApplication result"
  cl_list :: "string \<Rightarrow> CliApplication list result"
  cl_object :: "string \<Rightarrow> JAny gomap result"
  cl_any :: "string \<Rightarrow> string result"
  cl_indent :: "string \<Rightarrow> string"
  cl_diffJSON :: "string \<Rightarrow> string"
  cl_listJSON :: "string \<Rightarrow> string"
  cl_align :: "string list list \<Rightarrow> string list"

definition maxAPIErrorBody :: nat where "maxAPIErrorBody = 65536"
definition maxAPISuccessBody :: nat where "maxAPISuccessBody = 1048576"

text \<open>\<open>cl_errorOf\<close> is the error field of the standard error schema, empty where the text has none.\<close>

definition responseError :: "CliEnv \<Rightarrow> HttpAnswer \<Rightarrow> err option" where
  "responseError env resp =
     (if 200 \<le> an_StatusCode resp \<and> an_StatusCode resp < 300 then None
      else let payload = (case an_Body resp of Inl e \<Rightarrow> [] | Inr body \<Rightarrow> cl_errorOf env (take maxAPIErrorBody body));
               message = TrimSpace payload;
               message = (if message = [] then cl_StatusText env (an_StatusCode resp) else message)
           in Some (Errorf ''controller request failed (HTTP %d): %s'' [Itoa (an_StatusCode resp), message]))"

definition decodeBody :: "(string \<Rightarrow> 'a result) \<Rightarrow> HttpAnswer \<Rightarrow> 'a result" where
  "decodeBody unmarshal resp =
     (case an_Body resp of
        Inl e \<Rightarrow> Inl (Wrapf ''reading controller response: %w'' [] e)
      | Inr body \<Rightarrow>
          (let bytes = take (maxAPISuccessBody + 1) body
           in if length bytes > maxAPISuccessBody then Inl (Errorf ''controller response exceeds %d byte limit'' [Itoa maxAPISuccessBody])
              else case unmarshal bytes of Inl e \<Rightarrow> Inl (Wrapf ''decoding response: %w'' [] e) | Inr x \<Rightarrow> Inr x))"

definition syncResultError :: "string \<Rightarrow> CliSyncResult \<Rightarrow> err option" where
  "syncResultError operation result =
     (if cs_Result result = ''success'' then None
      else if operation = ''sync'' \<and> cs_Result result = ''skipped'' \<and> TrimSpace (cs_Error result) = []
              \<and> (case cs_Diff result of None \<Rightarrow> False | Some d \<Rightarrow> cd_InSync d)
      then None
      else if TrimSpace (cs_Error result) \<noteq> []
      then Some (Errorf ''%s operation reported %q: %s'' [operation, cs_Result result, TrimSpace (cs_Error result)])
      else Some (Errorf ''%s operation reported %q'' [operation, cs_Result result]))"

section \<open>Requests\<close>

definition apiRequest :: "CliEnv \<Rightarrow> string \<Rightarrow> string \<Rightarrow> string \<Rightarrow> string \<Rightarrow> HttpAnswer result" where
  "apiRequest env mth url contentType body =
     (let token = (if cl_apiToken env = [] then cl_Getenv env ''DOCKERCD_API_TOKEN'' else cl_apiToken env);
          req = \<lparr>aq_Method = mth, aq_URL = url,
            aq_Header = [(''Accept'', ''application/json'')] @ (if contentType \<noteq> [] then [(''Content-Type'', contentType)] else [])
              @ (if token \<noteq> [] then [(''Authorization'', ''Bearer '' @ token)] else []),
            aq_Body = body\<rparr>
      in case cl_NewRequest env req of Some e \<Rightarrow> Inl e | None \<Rightarrow> cl_Do env req)"

text \<open>One command: the request, the check of the status, the decoded answer, and what is done with it.\<close>

definition callApi :: "CliEnv \<Rightarrow> string \<Rightarrow> HttpAnswer result \<Rightarrow> (string \<Rightarrow> 'a result) \<Rightarrow> ('a \<Rightarrow> err option \<times> string list) \<Rightarrow> err option \<times> string list" where
  "callApi env failed answer unmarshal finish =
     (case answer of
        Inl e \<Rightarrow> (Some (Wrapf failed [] e), [])
      | Inr resp \<Rightarrow>
          (case responseError env resp of
             Some e \<Rightarrow> (Some e, [])
           | None \<Rightarrow> (case decodeBody unmarshal resp of Inl e \<Rightarrow> (Some e, []) | Inr result \<Rightarrow> finish result)))"

section \<open>Commands\<close>

definition formatInt :: "int \<Rightarrow> string" where
  "formatInt n = (if n < 0 then CHR ''-'' # Itoa (nat (- n)) else Itoa (nat n))"

definition shortSHA :: "string \<Rightarrow> string" where
  "shortSHA sha = (if length sha > 7 then take 7 sha else sha)"

definition runAppSync :: "CliEnv \<Rightarrow> string \<Rightarrow> string \<Rightarrow> err option \<times> string list" where
  "runAppSync env serverAddr name =
     callApi env ''connecting to server: %w'' (apiRequest env ''POST'' (serverAddr @ ''/api/v1/applications/'' @ name @ ''/sync'') ''application/json'' [])
       (cl_syncResult env)
       (\<lambda>result. (syncResultError ''sync'' result,
          [''Sync result: '' @ cs_Result result]
          @ (if cs_CommitSHA result \<noteq> [] then [''Commit:      '' @ shortSHA (cs_CommitSHA result)] else [])
          @ [''Duration:    '' @ formatInt (cs_DurationMs result) @ ''ms'']
          @ (case cs_Diff result of Some d \<Rightarrow> if \<not> cd_InSync d then [''Changes:     '' @ cd_Summary d] else [] | None \<Rightarrow> [])
          @ (if cs_Error result \<noteq> [] then [''Error:       '' @ cs_Error result] else [])))"

text \<open>\<^verbatim>\<open>%q\<close>: the characters that Go escapes; a byte of a multi-byte character is kept.\<close>

definition quoteByte :: "char \<Rightarrow> string" where
  "quoteByte c =
     (let n = of_char c :: nat
      in if c = CHR 0x22 then [CHR 0x5C, CHR 0x22] else if c = CHR 0x5C then [CHR 0x5C, CHR 0x5C]
         else if n = 7 then CHR 0x5C # ''a'' else if n = 8 then CHR 0x5C # ''b'' else if n = 12 then CHR 0x5C # ''f''
         else if n = 10 then CHR 0x5C # ''n'' else if n = 13 then CHR 0x5C # ''r'' else if n = 9 then CHR 0x5C # ''t'' else if n = 11 then CHR 0x5C # ''v''
         else if n < 32 \<or> n = 127 then CHR 0x5C # ''x'' @ [hexDigit (n div 16), hexDigit (n mod 16)]
         else [c])"

definition quoteGo :: "string \<Rightarrow> string" where
  "quoteGo s = [CHR 0x22] @ concat (map quoteByte s) @ [CHR 0x22]"

definition rollbackBody :: "string \<Rightarrow> string" where
  "rollbackBody sha = ''{'' @ quoteGo ''targetSHA'' @ '':'' @ quoteGo sha @ ''}''"

definition runAppRollback :: "CliEnv \<Rightarrow> string \<Rightarrow> string \<Rightarrow> string \<Rightarrow> err option \<times> string list" where
  "runAppRollback env serverAddr name sha =
     callApi env ''connecting to server: %w''
       (apiRequest env ''POST'' (serverAddr @ ''/api/v1/applications/'' @ name @ ''/rollback'') ''application/json'' (rollbackBody sha))
       (cl_syncResult env)
       (\<lambda>result. (syncResultError ''rollback'' result,
          [''Rollback result: '' @ cs_Result result]
          @ (if cs_CommitSHA result \<noteq> [] then [''Commit:          '' @ shortSHA (cs_CommitSHA result)] else [])
          @ [''Duration:        '' @ formatInt (cs_DurationMs result) @ ''ms'']
          @ (if cs_Error result \<noteq> [] then [''Error:           '' @ cs_Error result] else [])))"

definition runAppAdopt :: "CliEnv \<Rightarrow> string \<Rightarrow> string \<Rightarrow> err option \<times> string list" where
  "runAppAdopt env serverAddr name =
     callApi env ''adopt request failed: %w'' (apiRequest env ''POST'' (serverAddr @ ''/api/v1/applications/'' @ name @ ''/adopt'') ''application/json'' [])
       (cl_object env)
       (\<lambda>result. (None, [''Application '' @ quoteGo name @ '' adopted ('' @ sprintV (case map_of result ''services'' of None \<Rightarrow> JNull | Some v \<Rightarrow> v) @ '' services)'']))"

definition diffLines :: "CliDiff \<Rightarrow> string list" where
  "diffLines diff =
     (if cd_InSync diff
      then [''In sync: no differences detected''] @ (if cd_Summary diff \<noteq> [] then [''Note: '' @ cd_Summary diff] else [])
      else [''Summary: '' @ cd_Summary diff, []]
        @ map (\<lambda>s. ''+ CREATE service: '' @ s) (cd_ToCreate diff)
        @ concat (map (\<lambda>(s, columns). (''~ UPDATE service: '' @ s) # map (\<lambda>(f, live, desired). ''    '' @ f @ '': '' @ live @ '' -> '' @ desired) columns) (cd_ToUpdate diff))
        @ map (\<lambda>s. ''- REMOVE service: '' @ s) (cd_ToRemove diff))"

text \<open>With the JSON flag the decoded answer is encoded again with indentation; \<open>cl_diffJSON\<close> and \<open>cl_listJSON\<close> are that of the body.\<close>

definition runAppDiff :: "CliEnv \<Rightarrow> string \<Rightarrow> string \<Rightarrow> bool \<Rightarrow> err option \<times> string list" where
  "runAppDiff env serverAddr name outputJSON =
     (let answer = apiRequest env ''GET'' (serverAddr @ ''/api/v1/applications/'' @ name @ ''/diff'') [] []
      in callApi env ''connecting to server: %w'' answer (cl_diff env)
           (\<lambda>diff. (None, if outputJSON then [cl_diffJSON env (case answer of Inr resp \<Rightarrow> (case an_Body resp of Inr body \<Rightarrow> body | Inl e \<Rightarrow> []) | Inl e \<Rightarrow> [])] else diffLines diff)))"

definition runAppGet :: "CliEnv \<Rightarrow> string \<Rightarrow> string \<Rightarrow> err option \<times> string list" where
  "runAppGet env serverAddr name =
     callApi env ''connecting to server: %w'' (apiRequest env ''GET'' (serverAddr @ ''/api/v1/applications/'' @ name) [] []) (cl_application env)
       (\<lambda>result. (None,
          [''Name:         '' @ ca_Name result, ''Sync Status:  '' @ ca_SyncStatus result, ''Health:       '' @ ca_HealthStatus result,
           ''Repo:         '' @ ca_RepoURL result, ''Revision:     '' @ ca_TargetRevision result, ''Path:         '' @ ca_Path result,
           ''Project:      '' @ ca_ProjectName result]
          @ (if ca_LastSyncedSHA result \<noteq> [] then [''Last SHA:     '' @ ca_LastSyncedSHA result] else [])
          @ (if ca_LastSyncTime result \<noteq> [] then [''Last Sync:    '' @ ca_LastSyncTime result] else [])
          @ (if ca_LastError result \<noteq> [] then [''Error:        '' @ ca_LastError result] else [])
          @ (if ca_Services result \<noteq> []
             then [[], ''Services:''] @ map (\<lambda>(svc, image, health, state). ''  - '' @ svc @ '' ('' @ image @ '') ['' @ health @ ''] '' @ state) (ca_Services result)
             else [])))"

definition runAppList :: "CliEnv \<Rightarrow> string \<Rightarrow> bool \<Rightarrow> err option \<times> string list" where
  "runAppList env serverAddr outputJSON =
     (let answer = apiRequest env ''GET'' (serverAddr @ ''/api/v1/applications'') [] []
      in callApi env ''connecting to server: %w'' answer (cl_list env)
           (\<lambda>items. (None,
              if outputJSON then [cl_listJSON env (case answer of Inr resp \<Rightarrow> (case an_Body resp of Inr body \<Rightarrow> body | Inl e \<Rightarrow> []) | Inl e \<Rightarrow> [])]
              else cl_align env ([''NAME'', ''SYNC STATUS'', ''HEALTH'', ''LAST SYNC SHA'']
                # map (\<lambda>a. [ca_Name a, ca_SyncStatus a, ca_HealthStatus a, shortSHA (ca_LastSyncedSHA a)]) items))))"

definition runAppDesired :: "CliEnv \<Rightarrow> string \<Rightarrow> string \<Rightarrow> err option \<times> string list" where
  "runAppDesired env serverAddr name =
     callApi env ''connecting to server: %w'' (apiRequest env ''GET'' (serverAddr @ ''/api/v1/applications/'' @ name @ ''/desired'') [] []) (cl_any env)
       (\<lambda>rendered. (None, [cl_indent env rendered]))"

section \<open>Exit status\<close>

lemma responseError_None: "responseError env resp = None \<longleftrightarrow> 200 \<le> an_StatusCode resp \<and> an_StatusCode resp < 300"
  by (simp add: responseError_def Let_def del: Itoa.simps)

lemma decodeBody_Inr:
  "decodeBody unmarshal resp = Inr x \<longleftrightarrow> (\<exists>body. an_Body resp = Inr body \<and> length body \<le> maxAPISuccessBody \<and> unmarshal body = Inr x)"
  by (auto simp: decodeBody_def Let_def simp del: Itoa.simps split: sum.splits if_splits)

lemma callApi_None:
  "fst (callApi env failed answer unmarshal finish) = None \<longleftrightarrow>
     (\<exists>resp body x. answer = Inr resp \<and> 200 \<le> an_StatusCode resp \<and> an_StatusCode resp < 300 \<and> an_Body resp = Inr body \<and> length body \<le> maxAPISuccessBody
        \<and> unmarshal body = Inr x \<and> fst (finish x) = None)"
proof -
  have "fst (callApi env failed answer unmarshal finish) = None \<longleftrightarrow>
    (\<exists>resp x. answer = Inr resp \<and> responseError env resp = None \<and> decodeBody unmarshal resp = Inr x \<and> fst (finish x) = None)"
    by (auto simp: callApi_def split: sum.splits option.splits)
  also have "\<dots> \<longleftrightarrow> (\<exists>resp body x. answer = Inr resp \<and> 200 \<le> an_StatusCode resp \<and> an_StatusCode resp < 300 \<and> an_Body resp = Inr body
      \<and> length body \<le> maxAPISuccessBody \<and> unmarshal body = Inr x \<and> fst (finish x) = None)"
    unfolding responseError_None decodeBody_Inr by blast
  finally show ?thesis .
qed

lemma syncResultError_None:
  "syncResultError operation result = None \<longleftrightarrow>
     cs_Result result = ''success''
     \<or> operation = ''sync'' \<and> cs_Result result = ''skipped'' \<and> TrimSpace (cs_Error result) = [] \<and> (\<exists>d. cs_Diff result = Some d \<and> cd_InSync d)"
  by (auto simp: syncResultError_def split: option.splits)

text \<open>
  Exit status of a sync. The command succeeds exactly when the controller answered its request with a success status and a complete
  body of at most 1 MiB that decodes to a result of success or to a skipped one without an error whose diff is in sync; a redirect, a partial
  answer or a failed reconciliation makes it fail.
\<close>

theorem sync_exit_status:
  "fst (runAppSync env serverAddr name) = None \<longleftrightarrow>
     (\<exists>resp body result. apiRequest env ''POST'' (serverAddr @ ''/api/v1/applications/'' @ name @ ''/sync'') ''application/json'' [] = Inr resp
        \<and> 200 \<le> an_StatusCode resp \<and> an_StatusCode resp < 300 \<and> an_Body resp = Inr body \<and> length body \<le> maxAPISuccessBody \<and> cl_syncResult env body = Inr result
        \<and> (cs_Result result = ''success''
           \<or> cs_Result result = ''skipped'' \<and> TrimSpace (cs_Error result) = [] \<and> (\<exists>d. cs_Diff result = Some d \<and> cd_InSync d)))"
  unfolding runAppSync_def callApi_None fst_conv syncResultError_None by simp

theorem rollback_exit_status:
  "fst (runAppRollback env serverAddr name sha) = None \<longleftrightarrow>
     (\<exists>resp body result. apiRequest env ''POST'' (serverAddr @ ''/api/v1/applications/'' @ name @ ''/rollback'') ''application/json'' (rollbackBody sha) = Inr resp
        \<and> 200 \<le> an_StatusCode resp \<and> an_StatusCode resp < 300 \<and> an_Body resp = Inr body \<and> length body \<le> maxAPISuccessBody \<and> cl_syncResult env body = Inr result
        \<and> cs_Result result = ''success'')"
  unfolding runAppRollback_def callApi_None fst_conv syncResultError_None by simp

text \<open>What is printed of a failed request is the bounded error field of the standard schema or the name of the status, never the rest of the body.\<close>

theorem errors_show_no_other_body:
  assumes "\<not> (200 \<le> an_StatusCode resp \<and> an_StatusCode resp < 300)" "an_StatusCode resp' = an_StatusCode resp"
    "an_Body resp = Inr body" "an_Body resp' = Inr body'" "cl_errorOf env (take maxAPIErrorBody body) = cl_errorOf env (take maxAPIErrorBody body')"
  shows "callApi env failed (Inr resp) unmarshal finish = callApi env failed (Inr resp') unmarshal finish"
proof -
  have "responseError env resp = responseError env resp'" using assms by (simp add: responseError_def Let_def del: Itoa.simps)
  moreover have "responseError env resp \<noteq> None" using assms(1) by (simp add: responseError_None)
  ultimately show ?thesis by (auto simp: callApi_def)
qed

end
