(* ===== verification/TagCheckers.thy ===== *)
theory TagCheckers
  imports Registry
begin

text \<open>
  The two clients that list the tags of an image (\<^verbatim>\<open>registry/registry.go\<close>) and the choice between them at startup
  (\<^verbatim>\<open>cli/serve.go\<close>). The HTTP client and the JSON decoders are parameters.
\<close>

record TagResponse =
  tr_StatusCode :: nat
  tr_Body :: string

record TagClient =
  tc_NewRequest :: "string \<Rightarrow> err option"
  tc_Get :: "string \<Rightarrow> TagResponse result"
  tc_hubResults :: "string \<Rightarrow> string list result"
  tc_tags :: "string \<Rightarrow> string list result"

definition maxTagErrorBody :: nat where "maxTagErrorBody = 65536"

text \<open>One GET: its status is checked before the body is decoded.\<close>

definition fetchTags :: "TagClient \<Rightarrow> string \<Rightarrow> string \<Rightarrow> (string \<Rightarrow> string list result) \<Rightarrow> string list result" where
  "fetchTags client label url decode =
     (case tc_NewRequest client url of
        Some e \<Rightarrow> Inl e
      | None \<Rightarrow>
          (case tc_Get client url of
             Inl e \<Rightarrow> Inl (Wrapf ''%s request: %w'' [label] e)
           | Inr resp \<Rightarrow>
               if tr_StatusCode resp \<noteq> 200
               then Inl (Errorf ''%s returned %d: %s'' [label, Itoa (tr_StatusCode resp), take maxTagErrorBody (tr_Body resp)])
               else case decode (tr_Body resp) of Inl e \<Rightarrow> Inl (Wrapf ''decoding %s response: %w'' [label] e) | Inr tags \<Rightarrow> Inr tags))"

definition hubName :: "string \<Rightarrow> string \<times> string" where
  "hubName img = (case cut CHR ''/'' img of None \<Rightarrow> (''library'', img) | Some (namespace, name) \<Rightarrow> (namespace, name))"

definition hubURL :: "string \<Rightarrow> string" where
  "hubURL img = (case hubName img of (namespace, name) \<Rightarrow>
     ''https://hub.docker.com/v2/repositories/'' @ namespace @ ''/'' @ name @ ''/tags?page_size=100'')"

definition hub_ListTags :: "TagClient \<Rightarrow> string \<Rightarrow> string list result" where
  "hub_ListTags client img = fetchTags client ''docker hub'' (hubURL img) (tc_hubResults client)"

record GenericRegistryChecker =
  gr_registryURL :: string

definition NewGenericRegistryChecker :: "string \<Rightarrow> GenericRegistryChecker" where
  "NewGenericRegistryChecker registryURL = \<lparr>gr_registryURL = rev (dropWhile (\<lambda>c. c = CHR ''/'') (rev registryURL))\<rparr>"

definition generic_ListTags :: "TagClient \<Rightarrow> GenericRegistryChecker \<Rightarrow> string \<Rightarrow> string list result" where
  "generic_ListTags client c img = fetchTags client ''registry'' (gr_registryURL c @ ''/v2/'' @ img @ ''/tags/list'') (tc_tags client)"

definition tagChecker :: "TagClient \<Rightarrow> string \<Rightarrow> string \<Rightarrow> string list result" where
  "tagChecker client defaultRegistryURL =
     (if defaultRegistryURL \<noteq> [] then generic_ListTags client (NewGenericRegistryChecker defaultRegistryURL) else hub_ListTags client)"

section \<open>What is listed\<close>

lemma fetchTags_Inr:
  "fetchTags client label url decode = Inr tags \<longleftrightarrow>
     tc_NewRequest client url = None \<and> (\<exists>resp. tc_Get client url = Inr resp \<and> tr_StatusCode resp = 200 \<and> decode (tr_Body resp) = Inr tags)"
  by (auto simp: fetchTags_def simp del: Itoa.simps split: option.splits sum.splits if_splits)

text \<open>Docker Hub answers a request with one page, of at most the requested size; the requests for further pages are never made.\<close>

definition firstPage :: "TagClient \<Rightarrow> (string \<Rightarrow> string list) \<Rightarrow> bool" where
  "firstPage client published =
     (\<forall>img resp tags. tc_Get client (hubURL img) = Inr resp \<and> tr_StatusCode resp = 200 \<and> tc_hubResults client (tr_Body resp) = Inr tags
        \<longrightarrow> tags = take 100 (published img))"

theorem hub_lists_first_page:
  assumes "firstPage client published" "hub_ListTags client img = Inr tags"
  shows "tags = take 100 (published img)"
  using assms by (auto simp: firstPage_def hub_ListTags_def fetchTags_Inr)

text \<open>An update beyond the first page is not found.\<close>

lemma update_beyond_first_page_missed:
  assumes "firstPage client published" "hub_ListTags client img = Inr tags" "\<forall>t\<in>set (take 100 (published img)). \<not> upgrade policy currentTag t"
  shows "FindLatestTag sortSlice tags currentTag policy = ([], False)"
  using FindLatestTag_none [of tags policy currentTag sortSlice] hub_lists_first_page [OF assms(1,2)] assms(3) by simp

text \<open>The registry in the name of an image is not asked: it is taken for a namespace of Docker Hub.\<close>

lemma registry_host_taken_for_namespace:
  assumes "CHR ''/'' \<notin> set host"
  shows "hubURL (host @ ''/'' @ name) = ''https://hub.docker.com/v2/repositories/'' @ host @ ''/'' @ name @ ''/tags?page_size=100''"
  using assms by (simp add: hubURL_def hubName_def)

end
