(* ===== verification/PollLoop.thy ===== *)
theory PollLoop
  imports TagCheckers
begin

text \<open>
  The loop of the image poller (\<^verbatim>\<open>registry/poller.go\<close>: \<^verbatim>\<open>Start\<close>, \<^verbatim>\<open>Stop\<close>, \<^verbatim>\<open>pollLoop\<close>, \<^verbatim>\<open>startCheckAllApps\<close>) as a transition
  system: a step is one wake-up of the loop or one critical section of a poll. What a poll does is \<^theory_text>\<open>Registry\<close>.
\<close>

datatype LoopPhase = InitialDelay | Ticking | LoopExited

text \<open>
  \<open>pl_checking\<close> polls are inside \<^verbatim>\<open>checkAllApps\<close>, \<open>pl_releasing\<close> have cleared the flag and not yet left; \<open>pl_wg\<close> is the wait group.
\<close>

record PollerLoop =
  pl_phase :: LoopPhase
  pl_cancelled :: bool
  pl_pollRunning :: bool
  pl_checking :: nat
  pl_releasing :: nat
  pl_wg :: nat
  pl_returned :: bool

definition startLoop :: PollerLoop where
  "startLoop = \<lparr>pl_phase = InitialDelay, pl_cancelled = False, pl_pollRunning = False, pl_checking = 0, pl_releasing = 0, pl_wg = 1, pl_returned = False\<rparr>"

definition startCheckAllApps :: "PollerLoop \<Rightarrow> PollerLoop" where
  "startCheckAllApps p =
     (if pl_pollRunning p then p else p\<lparr>pl_pollRunning := True, pl_wg := pl_wg p + 1, pl_checking := pl_checking p + 1\<rparr>)"

definition leaveLoop :: "PollerLoop \<Rightarrow> PollerLoop" where
  "leaveLoop p = p\<lparr>pl_phase := LoopExited, pl_wg := pl_wg p - 1\<rparr>"

datatype PollLabel = DelayOver | Tick | LoopCancelled | PollFinished | PollLeft | StopCalled | StartReturned

inductive poll_step :: "PollerLoop \<Rightarrow> PollLabel \<Rightarrow> PollerLoop \<Rightarrow> bool" where
  delay_over: "pl_phase p = InitialDelay \<Longrightarrow> poll_step p DelayOver (startCheckAllApps p\<lparr>pl_phase := Ticking\<rparr>)"
| tick: "pl_phase p = Ticking \<Longrightarrow> poll_step p Tick (startCheckAllApps p)"
| loop_cancelled: "pl_phase p \<noteq> LoopExited \<Longrightarrow> pl_cancelled p \<Longrightarrow> poll_step p LoopCancelled (leaveLoop p)"
| poll_finished: "pl_checking p = Suc n \<Longrightarrow> poll_step p PollFinished (p\<lparr>pl_checking := n, pl_pollRunning := False, pl_releasing := pl_releasing p + 1\<rparr>)"
| poll_left: "pl_releasing p = Suc n \<Longrightarrow> poll_step p PollLeft (p\<lparr>pl_releasing := n, pl_wg := pl_wg p - 1\<rparr>)"
| stop_called: "poll_step p StopCalled (p\<lparr>pl_cancelled := True\<rparr>)"
| start_returned: "pl_cancelled p \<Longrightarrow> pl_wg p = 0 \<Longrightarrow> poll_step p StartReturned (p\<lparr>pl_returned := True\<rparr>)"

inductive_cases poll_stepE: "poll_step p l p'"

inductive poll_run :: "PollerLoop \<Rightarrow> PollLabel list \<Rightarrow> PollerLoop \<Rightarrow> bool" where
  run_nil: "poll_run p [] p"
| run_snoc: "poll_run p ls q \<Longrightarrow> poll_step q l r \<Longrightarrow> poll_run p (ls @ [l]) r"

definition poll_inv :: "PollerLoop \<Rightarrow> bool" where
  "poll_inv p \<longleftrightarrow> pl_checking p = (if pl_pollRunning p then 1 else 0)
     \<and> pl_wg p = (if pl_phase p = LoopExited then 0 else 1) + pl_checking p + pl_releasing p
     \<and> (pl_returned p \<longrightarrow> pl_wg p = 0)"

lemma poll_inv_step: "poll_step p l p' \<Longrightarrow> poll_inv p \<Longrightarrow> poll_inv p'"
  by (elim poll_stepE) (auto simp: poll_inv_def startCheckAllApps_def leaveLoop_def split: if_splits)

lemma poll_inv_start: "poll_inv startLoop"
  by (simp add: poll_inv_def startLoop_def)

lemma poll_inv_run: "poll_run p ls q \<Longrightarrow> poll_inv p \<Longrightarrow> poll_inv q"
  by (induction rule: poll_run.induct) (auto intro: poll_inv_step)

text \<open>
  At most one poll is checking applications at any time, a tick during a poll starts nothing, and when \<^verbatim>\<open>Start\<close> has returned no poll is
  running and none will start.
\<close>

theorem polls_exclusive:
  assumes "poll_run startLoop ls p"
  shows "pl_checking p \<le> 1" "pl_checking p = 1 \<Longrightarrow> poll_step p Tick p' \<Longrightarrow> p' = p"
    "pl_returned p \<Longrightarrow> pl_checking p = 0 \<and> pl_releasing p = 0 \<and> \<not> poll_step p Tick p' \<and> \<not> poll_step p DelayOver p'"
proof -
  have inv: "poll_inv p" using poll_inv_run [OF assms poll_inv_start] .
  then show "pl_checking p \<le> 1" by (simp add: poll_inv_def)
  show "pl_checking p = 1 \<Longrightarrow> poll_step p Tick p' \<Longrightarrow> p' = p"
    using inv by (auto simp: poll_inv_def startCheckAllApps_def elim!: poll_stepE split: if_splits)
  show "pl_returned p \<Longrightarrow> pl_checking p = 0 \<and> pl_releasing p = 0 \<and> \<not> poll_step p Tick p' \<and> \<not> poll_step p DelayOver p'"
    using inv by (auto simp: poll_inv_def elim!: poll_stepE split: if_splits)
qed

text \<open>
  After \<^verbatim>\<open>Stop\<close> the poller comes to its end: a step towards it is always possible until \<^verbatim>\<open>Start\<close> returns, and each such step lowers a
  measure.
\<close>

definition remaining :: "PollerLoop \<Rightarrow> nat" where
  "remaining p = (if pl_phase p = LoopExited then 0 else 1) + 2 * pl_checking p + pl_releasing p + (if pl_returned p then 0 else 1)"

theorem poller_stops:
  assumes "poll_run startLoop ls p" "pl_cancelled p" "\<not> pl_returned p"
  shows "\<exists>l p'. l \<in> {LoopCancelled, PollFinished, PollLeft, StartReturned} \<and> poll_step p l p' \<and> remaining p' < remaining p \<and> pl_cancelled p'"
proof -
  have inv: "poll_inv p" using poll_inv_run [OF assms(1) poll_inv_start] .
  consider "pl_phase p \<noteq> LoopExited" | n where "pl_checking p = Suc n" | n where "pl_releasing p = Suc n"
    | "pl_phase p = LoopExited" "pl_checking p = 0" "pl_releasing p = 0" by (metis not0_implies_Suc)
  then show ?thesis
  proof cases
    case 1
    then show ?thesis using loop_cancelled [OF 1 assms(2)] assms(2)
      by (intro exI [of _ LoopCancelled] exI [of _ "leaveLoop p"]) (simp add: remaining_def leaveLoop_def)
  next
    case 2
    then show ?thesis using poll_finished [OF 2] assms(2)
      by (intro exI [of _ PollFinished] exI [of _ "p\<lparr>pl_checking := n, pl_pollRunning := False, pl_releasing := pl_releasing p + 1\<rparr>"]) (simp add: remaining_def)
  next
    case 3
    then show ?thesis using poll_left [OF 3] assms(2)
      by (intro exI [of _ PollLeft] exI [of _ "p\<lparr>pl_releasing := n, pl_wg := pl_wg p - 1\<rparr>"]) (simp add: remaining_def)
  next
    case 4
    then have "pl_wg p = 0" using inv by (simp add: poll_inv_def)
    then show ?thesis using start_returned [OF assms(2)] assms(2,3)
      by (intro exI [of _ StartReturned] exI [of _ "p\<lparr>pl_returned := True\<rparr>"]) (simp add: remaining_def)
  qed
qed

end
