(* ===== verification/EventStream.thy ===== *)
theory EventStream
  imports Api EventBus
begin

text \<open>
  The stream of server-sent events (\<^verbatim>\<open>api/handlers.go\<close>: \<^verbatim>\<open>StreamEvents\<close>) as a subscriber of the event bus, and its guard in
  \<^verbatim>\<open>api/server.go\<close>. While a request streams, other goroutines broadcast, subscribe and unsubscribe. The JSON encoding of an event is a
  parameter; writes to the client have no result that the code reads.
\<close>

datatype StreamState = Refused ApiResponse | Streaming nat | Ended nat

record Stream =
  st_state :: StreamState
  st_header :: "(string \<times> string) list"
  st_out :: "string list"

definition sseHeaders :: "(string \<times> string) list" where
  "sseHeaders = [(''Content-Type'', ''text/event-stream''), (''Cache-Control'', ''no-cache''), (''Connection'', ''keep-alive''), (''X-Accel-Buffering'', ''no'')]"

text \<open>The start of the handler: what the response writer supports, whether there is a hub, and the bus.\<close>

definition openStream :: "bool \<Rightarrow> bool \<Rightarrow> Hub \<Rightarrow> Stream \<times> Hub" where
  "openStream flusher hasHub h =
     (if \<not> flusher then (\<lparr>st_state = Refused (ErrorResponse 500 (Errorf ''streaming not supported'' []) CodeInternalError), st_header = [], st_out = []\<rparr>, h)
      else if \<not> hasHub then (\<lparr>st_state = Refused (ErrorResponse 503 (Errorf ''event stream not available'' []) CodeUnavailable), st_header = [], st_out = []\<rparr>, h)
      else case Subscribe h of (i, h) \<Rightarrow> (\<lparr>st_state = Streaming i, st_header = sseHeaders, st_out = []\<rparr>, h))"

definition StreamEvents :: "string \<Rightarrow> string \<Rightarrow> bool \<Rightarrow> bool \<Rightarrow> Hub \<Rightarrow> Stream \<times> Hub" where
  "StreamEvents token authorization flusher hasHub h =
     (if token = [] then openStream flusher hasHub h
      else case bearerAuth token authorization of
        Some r \<Rightarrow> (\<lparr>st_state = Refused r, st_header = [], st_out = []\<rparr>, h)
      | None \<Rightarrow> openStream flusher hasHub h)"

definition frame :: "(Event \<Rightarrow> string result) \<Rightarrow> Event \<Rightarrow> string option" where
  "frame marshal ev =
     (case marshal ev of
        Inl e \<Rightarrow> None
      | Inr text \<Rightarrow> Some (''event: '' @ be_Type ev @ [CHR 0x0A] @ ''data: '' @ text @ [CHR 0x0A, CHR 0x0A]))"

definition deliver :: "(Event \<Rightarrow> string result) \<Rightarrow> Event \<Rightarrow> Stream \<Rightarrow> Stream" where
  "deliver marshal ev st = (case frame marshal ev of None \<Rightarrow> st | Some f \<Rightarrow> st\<lparr>st_out := st_out st @ [f]\<rparr>)"

text \<open>
  A step of the stream or of another goroutine. Another goroutine does not hold this stream's channel nor the function that ends its
  subscription, so it neither reads from the one nor closes it.
\<close>

inductive stream_step :: "(Event \<Rightarrow> string result) \<Rightarrow> Stream \<times> Hub \<Rightarrow> Stream \<times> Hub \<Rightarrow> bool" for marshal where
  event: "st_state st = Streaming i \<Longrightarrow> receive i h = Some (ev, h') \<Longrightarrow> stream_step marshal (st, h) (deliver marshal ev st, h')"
| context_done: "st_state st = Streaming i \<Longrightarrow> unsubscribe i h = Some h' \<Longrightarrow> stream_step marshal (st, h) (st\<lparr>st_state := Ended i\<rparr>, h')"
| elsewhere: "hub_step h h' \<Longrightarrow> (\<And>i. st_state st \<in> {Streaming i, Ended i} \<Longrightarrow> ch_read (h_chans h' i) = ch_read (h_chans h i)
      \<and> (i \<in> set (h_subscribers h') \<longleftrightarrow> i \<in> set (h_subscribers h))) \<Longrightarrow> stream_step marshal (st, h) (st, h')"

inductive_cases stream_stepE: "stream_step marshal x y"

definition stream_inv :: "(Event \<Rightarrow> string result) \<Rightarrow> Stream \<times> Hub \<Rightarrow> bool" where
  "stream_inv marshal s =
     (hub_inv (snd s)
      \<and> (case st_state (fst s) of
           Refused r \<Rightarrow> st_out (fst s) = []
         | Streaming i \<Rightarrow> i \<in> set (h_subscribers (snd s)) \<and> st_out (fst s) = List.map_filter (frame marshal) (ch_read (h_chans (snd s) i))
         | Ended i \<Rightarrow> i \<notin> set (h_subscribers (snd s)) \<and> st_out (fst s) = List.map_filter (frame marshal) (ch_read (h_chans (snd s) i))))"

lemma receive_inv: "receive i h = Some (ev, h') \<Longrightarrow> hub_inv h \<Longrightarrow> hub_inv h' \<and> h_subscribers h' = h_subscribers h \<and> ch_read (h_chans h' i) = ch_read (h_chans h i) @ [ev]"
  using hub_step.receives [of i h ev h'] hub_step_inv by (auto simp: receive_def split: list.splits)

lemma stream_inv_step: "stream_step marshal s s' \<Longrightarrow> stream_inv marshal s \<Longrightarrow> stream_inv marshal s'"
proof (induction rule: stream_step.induct)
  case (event st i h ev h')
  note r = receive_inv [OF event(2)]
  show ?case using event(1,3) r by (auto simp: stream_inv_def deliver_def map_filter_def split: option.splits)
next
  case (context_done st i h h')
  then have i: "i \<in> set (h_subscribers h)" "hub_inv h" by (auto simp: stream_inv_def)
  then have "hub_inv h'" using hub_step.unsubscribes [OF i(1) context_done(2)] hub_step_inv by blast
  then show ?case using context_done by (auto simp: stream_inv_def unsubscribe_def split: if_splits)
next
  case (elsewhere h h' st)
  then have "hub_inv h'" using hub_step_inv by (auto simp: stream_inv_def)
  then show ?case using elsewhere by (auto simp: stream_inv_def split: StreamState.splits)
qed

lemma openStream_inv: "hub_inv h \<Longrightarrow> stream_inv marshal (openStream flusher hasHub h)"
proof -
  assume h: "hub_inv h"
  moreover have "hub_inv (snd (Subscribe h))" using hub_step.subscribes hub_step_inv h by blast
  ultimately show ?thesis by (auto simp: stream_inv_def openStream_def Subscribe_def newChan_def map_filter_simps)
qed

lemma StreamEvents_inv: "hub_inv h \<Longrightarrow> stream_inv marshal (StreamEvents token authorization flusher hasHub h)"
  using openStream_inv [of h marshal flusher hasHub] by (auto simp: StreamEvents_def stream_inv_def split: option.splits)

text \<open>
  What a client of the stream sees: the encodings, in order and without repetition, of some of the events that were broadcast during
  its subscription; and when the request ends, its subscription is gone. With a token configured a request without it gets no event.
\<close>

theorem stream_shows_broadcasts:
  assumes "hub_step\<^sup>*\<^sup>* NewHub h" "(stream_step marshal)\<^sup>*\<^sup>* (StreamEvents token authorization flusher hasHub h) (st, h')"
  shows "case st_state st of
      Refused r \<Rightarrow> st_out st = []
    | Streaming i \<Rightarrow> (\<exists>seen. subseq seen (ch_log (h_chans h' i)) \<and> st_out st = List.map_filter (frame marshal) seen)
    | Ended i \<Rightarrow> i \<notin> set (h_subscribers h') \<and> (\<exists>seen. subseq seen (ch_log (h_chans h' i)) \<and> st_out st = List.map_filter (frame marshal) seen)"
proof -
  have "stream_inv marshal (st, h')"
    using assms(2) StreamEvents_inv [OF hub_reachable_inv [OF assms(1)]] by (induction rule: rtranclp_induct) (auto intro: stream_inv_step)
  then have inv: "hub_inv h'" "stream_inv marshal (st, h')" by (auto simp: stream_inv_def)
  have "subseq (ch_read (h_chans h' i)) (ch_log (h_chans h' i))" for i
  proof -
    have "subseq (ch_read (h_chans h' i) @ ch_buf (h_chans h' i)) (ch_log (h_chans h' i))" using inv(1) by (simp add: hub_inv_def chan_ok_def)
    moreover have "subseq (ch_read (h_chans h' i)) (ch_read (h_chans h' i) @ ch_buf (h_chans h' i))" by (rule prefix_imp_subseq) simp
    ultimately show ?thesis using subseq_order.trans by blast
  qed
  then show ?thesis using inv(2) by (auto simp: stream_inv_def split: StreamState.splits)
qed

theorem stream_needs_token:
  assumes "token \<noteq> []" "authorization \<noteq> ''Bearer '' @ token"
  shows "\<exists>r. st_state (fst (StreamEvents token authorization flusher hasHub h)) = Refused r \<and> snd (StreamEvents token authorization flusher hasHub h) = h"
  using bearerAuth_iff [OF assms(1), of authorization] assms by (auto simp: StreamEvents_def)

end
