(* ===== verification/Spec2Isabelle.thy ===== *)
theory Spec2Isabelle
  imports Dispatch Parser Registry Watcher EventBus HostMon SingleFlight LocalAuth_Safety Inspector Startup WebConsole_Safety RecoveryDrill Secrets Notifier Cli PollLoop EventStream
begin

text \<open>
  A verification library for dockercd, a GitOps controller that keeps Docker Compose projects equal to what a Git repository says,
  with the web console in front of it, its command line client and its recovery tool. File names below are relative to
  \<^verbatim>\<open>src/src/internal\<close> unless they start with \<^verbatim>\<open>src\<close>.

  \<^bold>\<open>The program.\<close> The daemon (\<^verbatim>\<open>cli/serve.go\<close>) reads its configuration, opens the store, registers applications from manifests and starts a
  scheduler, workers, a health monitor, a watcher of Docker events, an image poller and an HTTP server. A reconciliation
  of an application syncs its repository, parses the compose files at the head commit, inspects the running containers, diffs the two, and, where
  its policy and its circuit breaker allow it, deploys with the Docker CLI in waves or by blue-green switching, records the outcome and notifies.
  The administrative API and the scoped presentation API serve what the store holds. The web console signs users in on its own and
  reads the presentation API with one credential per user.

  \<^bold>\<open>The outside world.\<close> What the program asks of others is a parameter. The controller's components share \<^theory_text>\<open>Effects\<close>: every request and its
  answer is an event of a trace, and the record \<open>Env\<close> answers as an arbitrary function of the trace so far; database statements may fail at any point.
  Components with other collaborators have a record of their own (Docker, Git, SQLite, HTTP clients, cryptography, file systems,
  JSON, YAML and HTML codecs), with what the code relies on as named hypotheses (for example \<open>Crypto\<close> of the sign-in, \<open>NetLib\<close> of URLs,
  \<open>Engine\<close> of migrations, \<open>SecretClient\<close>, \<open>TagClient\<close>, \<open>CliEnv\<close>). Errors are values of \<open>err\<close>, results are sums, Go maps are
  association lists with distinct keys, and counters of containers keep their 64 bits as words.

  \<^bold>\<open>Theories.\<close>
  \<^item> \<^theory_text>\<open>Prelude\<close>: Go's strings, numbers, maps, errors and JSON values, and the lemmas shared by all; \<^theory_text>\<open>App_Types\<close>: \<^verbatim>\<open>app/types.go\<close>, \<^verbatim>\<open>health/aggregator.go\<close>;
    \<^theory_text>\<open>Manifest\<close>: \<^verbatim>\<open>app/validation.go\<close>, with path cleaning; \<^theory_text>\<open>Redact\<close>: \<^verbatim>\<open>app/redact.go\<close>; \<^theory_text>\<open>Base64\<close>: \<^verbatim>\<open>encoding/base64\<close> by a locale over the alphabet.
  \<^item> \<^theory_text>\<open>Store\<close>: the queries of \<^verbatim>\<open>store/queries.go\<close> over tables as lists, with an invariant kept by every step; \<^theory_text>\<open>Migrations\<close>: \<^verbatim>\<open>store/store.go\<close>.
  \<^item> \<^theory_text>\<open>Differ\<close>: \<^verbatim>\<open>differ/\<close>; \<^theory_text>\<open>Substitute\<close>, \<^theory_text>\<open>Parser\<close>: \<^verbatim>\<open>parser/\<close>; \<^theory_text>\<open>Secrets\<close>: \<^verbatim>\<open>secrets/\<close>; \<^theory_text>\<open>GitSync\<close>: \<^verbatim>\<open>gitsync/\<close>.
  \<^item> \<^theory_text>\<open>Deployer\<close>, \<^theory_text>\<open>BlueGreen\<close>: \<^verbatim>\<open>deployer/\<close>, with the locale \<open>deployer_contract\<close> that the compose deployer and, through a sublocale, the blue-green
    deployer satisfy; \<^theory_text>\<open>Breaker\<close>: the circuit breaker of \<^verbatim>\<open>reconciler/worker.go\<close> and its refinement of a history of outcomes.
  \<^item> \<^theory_text>\<open>Health\<close>: \<^verbatim>\<open>health/health.go\<close>; \<^theory_text>\<open>Ports\<close>: \<^verbatim>\<open>reconciler/ports.go\<close>; \<^theory_text>\<open>Reconciler\<close>: \<^verbatim>\<open>reconciler/reconciler.go\<close>; \<^theory_text>\<open>Reconciler_Safety\<close>,
    \<^theory_text>\<open>Waves\<close>, \<^theory_text>\<open>History\<close>: what it runs, in which order, and what it leaves behind; \<^theory_text>\<open>Scheduler\<close>, \<^theory_text>\<open>Dispatch\<close>: \<^verbatim>\<open>reconciler/scheduler.go\<close> and the
    workers as one transition system; \<^theory_text>\<open>ConfigSync\<close>: \<^verbatim>\<open>reconciler/configsync.go\<close>; \<^theory_text>\<open>Notifier\<close>: \<^verbatim>\<open>notifier/\<close>.
  \<^item> \<^theory_text>\<open>Debounce\<close>, \<^theory_text>\<open>Watcher\<close>: \<^verbatim>\<open>events/\<close>; \<^theory_text>\<open>EventBus\<close>: \<^verbatim>\<open>eventbus/\<close>; \<^theory_text>\<open>HostMon\<close>: \<^verbatim>\<open>hostmon/\<close>; \<^theory_text>\<open>Registry\<close>, \<^theory_text>\<open>TagCheckers\<close>, \<^theory_text>\<open>PollLoop\<close>: \<^verbatim>\<open>registry/\<close>;
    \<^theory_text>\<open>Inspector\<close>, \<^theory_text>\<open>ClientCache\<close>: \<^verbatim>\<open>inspector/\<close>.
  \<^item> \<^theory_text>\<open>DaemonConfig\<close>: \<^verbatim>\<open>config/\<close>; \<^theory_text>\<open>Startup\<close>: \<^verbatim>\<open>cli/serve.go\<close>; \<^theory_text>\<open>Cli\<close>: the client commands of \<^verbatim>\<open>cli/\<close>.
  \<^item> \<^theory_text>\<open>Webhook\<close>, \<^theory_text>\<open>Api\<close>, \<^theory_text>\<open>Presentation\<close>, \<^theory_text>\<open>CredentialRegistry\<close>, \<^theory_text>\<open>SingleFlight\<close>, \<^theory_text>\<open>EventStream\<close>: \<^verbatim>\<open>api/\<close>.
  \<^item> \<^theory_text>\<open>LocalAuth\<close>, \<^theory_text>\<open>LocalAuth_Safety\<close>: \<^verbatim>\<open>src/web/internal/localauth\<close>; \<^theory_text>\<open>ControlPlane\<close>, \<^theory_text>\<open>LiveSource\<close>, \<^theory_text>\<open>LiveSource_Safety\<close>, \<^theory_text>\<open>Fixture\<close>,
    \<^theory_text>\<open>WebConsole\<close>, \<^theory_text>\<open>WebConsole_Safety\<close>: the client, the sources and the handlers of \<^verbatim>\<open>src/web\<close>.
  \<^item> \<^theory_text>\<open>RecoveryDrill\<close>: \<^verbatim>\<open>src/src/cmd/recovery-drill-verify\<close>.

  Definitions carry the names of the source; where two components use one name a prefix tells them apart (\<open>h_\<close> for API handlers, \<open>bg_\<close>
  for the blue-green deployer). Steps that goroutines interleave are \<open>inductive\<close> relations (\<open>sched_step\<close>, \<open>login_step\<close>, \<open>client_step\<close>, \<open>cache_step\<close>,
  \<open>deb_step\<close>, \<open>hub_step\<close>, \<open>stream_step\<close>, \<open>poll_step\<close>, \<open>store_step\<close>), one step per critical section.

  \<^bold>\<open>What is shown.\<close>
  \<^item> Deployments: a manifest that is accepted stays inside its clone; a diff decides whether the live services are the desired ones; commands run only for
    drift that the policy and the breaker allow, only on the projects of the application, in the order of the plan; waves and the blue-green switch wait
    for observed health; a reported success applied the head commit.
  \<^item> Concurrency: at most one reconciliation of an application runs; due and triggered work is not lost; clients are accounted for; shared samples
    terminate; the event bus never blocks.
  \<^item> Persistence: the store's invariant, the ledger of migrations under interruption, configuration sync, and the evidence and the restore comparison of
    recovery drills, which are equivalences.
  \<^item> Confidentiality: environment values are in no API answer and in no redacted diff; a presentation answer depends only on granted applications; Git and
    Vault credentials go to the configured servers; the console acts only with the credential of its session, which exists only after a verified password.
  \<^item> Interfaces: round trips of parsers and encoders, substitution against a grammar, version choice, exact exit status of client commands.
  Where the code does something else than it says, a lemma shows it; these are the findings listed with the manifest.

  \<^bold>\<open>Bounds.\<close> Waits take as many ticks as \<open>e_ticks\<close> says, which is finite since a timer fires; no recursion has fuel beyond that, all functions are total. Constants
  are those of the source: the event bus buffers 64 events, the trigger queue holds 16, five failures lock a sign-in for 15 minutes, a capacity
  sample has 64 containers, scanners stop at lines of 64 KiB, there are eight migrations and at most 128 records in a recovery baseline.

  \<^bold>\<open>Not modelled.\<close> HTML templates, style sheets and the HTTP servers themselves; signal handling and the remaining tickers, which only call
  modelled operations; host statistics and container metrics, which are floating-point arithmetic over Docker's numbers; the textual form of
  durations; the SwiftUI client under \<^verbatim>\<open>src/macos\<close>; and the retired cluster mode under \<^verbatim>\<open>src/.archive\<close>, which is not built.
\<close>

end
